(* ===== verification/ZG_Prelude.thy ===== *)
theory ZG_Prelude
  imports Main "HOL-Library.Word"
begin

text \<open>
  Shared vocabulary of the development: the C++ integer types at their widths,
  MUSCLE's status codes as error values, the numeric guard values of
  \<^verbatim>\<open>ZGConstants.h\<close> and \<^verbatim>\<open>PZGConstants.h\<close>, and the generic facts on words and
  lists that the component theories use.
\<close>

section \<open>Machine integers and status codes\<close>

type_synonym u8 = "8 word"
type_synonym u16 = "16 word"
type_synonym u32 = "32 word"
type_synonym u64 = "64 word"
type_synonym bytes = "u8 list"

datatype status_t =
    B_NO_ERROR
  | B_BAD_ARGUMENT
  | B_BAD_DATA
  | B_BAD_OBJECT
  | B_LOGIC_ERROR
  | B_UNIMPLEMENTED
  | B_DATA_NOT_FOUND
  | B_ACCESS_DENIED
  | B_IO_ERROR
  | B_OUT_OF_MEMORY
  | B_TYPE_MISMATCH
  | B_ERROR

abbreviation IsOK :: "status_t \<Rightarrow> bool" where
  "IsOK st \<equiv> st = B_NO_ERROR"

abbreviation IsError :: "status_t \<Rightarrow> bool" where
  "IsError st \<equiv> st \<noteq> B_NO_ERROR"

text \<open>Guard values: all of them are the largest value of their type.\<close>

abbreviation MUSCLE_TIME_NEVER :: u64 where
  "MUSCLE_TIME_NEVER \<equiv> - 1"

abbreviation DATABASE_UPDATE_ID_FULL_UPDATE :: u64 where
  "DATABASE_UPDATE_ID_FULL_UPDATE \<equiv> - 1"

definition INVALID_TIME_OFFSET :: u64 where
  "INVALID_TIME_OFFSET = (- 1) div 2"

text \<open>The message that makes either network thread open its sockets anew (\<^verbatim>\<open>PZGThreadedSession.h\<close>).\<close>

definition PZG_THREADED_SESSION_RECREATE_SOCKETS :: u32 where
  "PZG_THREADED_SESSION_RECREATE_SOCKETS = 1887073384"

section \<open>Rule collections\<close>

named_theorems table_simps \<open>lookup equations of the container models\<close>
named_theorems frame \<open>fields an operation leaves unchanged\<close>
named_theorems codec \<open>decode-after-encode equations\<close>

section \<open>Words\<close>

lemma unat_of_nat_small:
  "n < 2 ^ LENGTH('a) \<Longrightarrow> unat (of_nat n :: 'a::len word) = n"
  by (simp add: unat_of_nat)

lemma ucast_of_nat_small: "i < 2 ^ 32 \<Longrightarrow> (ucast (of_nat i :: u32) :: u16) = of_nat i"
  by (simp add: unsigned_of_nat take_bit_nat_eq_self)

lemma ucast_up_of_nat_small: "i < 2 ^ 16 \<Longrightarrow> unat (ucast (of_nat i :: u16) :: u32) = i"
  by (simp add: unsigned_of_nat take_bit_nat_eq_self)

lemma ucast_down_up:
  assumes "unat x < 2 ^ 16"
  shows "(ucast (ucast (x :: u32) :: u16) :: u32) = x"
proof -
  have "unat (ucast (ucast x :: u16) :: u32) = unat x"
    using assms by (simp add: unsigned_ucast_eq unsigned_take_bit_eq take_bit_nat_eq_self)
  then show ?thesis
    by (simp add: word_eq_iff_unsigned [where ?'a = nat])
qed

lemma unat_Suc_not_max:
  assumes "(x :: 'a::len word) \<noteq> - 1"
  shows "unat (x + 1) = Suc (unat x)"
proof -
  have "1 + x \<noteq> 0"
    using assms by (metis add.inverse_unique)
  then have "unat (1 + x) = Suc (unat x)"
    by (rule unatSuc)
  then show ?thesis
    by (simp only: add.commute)
qed

lemma unat_Suc_less:
  "(x :: 'a::len word) < y \<Longrightarrow> unat (x + 1) = Suc (unat x)"
  by (rule unat_Suc_not_max) auto

lemma word_less_imp_Suc_le:
  "(x :: 'a::len word) < y \<Longrightarrow> x + 1 \<le> y"
  by (simp add: word_le_nat_alt word_less_nat_alt unat_Suc_less)

lemma word_less_Suc:
  "(x :: 'a::len word) \<noteq> - 1 \<Longrightarrow> x < x + 1"
  by (simp add: word_less_nat_alt unat_Suc_not_max)

lemma word_Suc_le_imp_less:
  "(x :: 'a::len word) \<noteq> - 1 \<Longrightarrow> x + 1 \<le> y \<Longrightarrow> x < y"
  using word_less_Suc by (rule less_le_trans)

lemma word_less_Suc_iff:
  "(x :: 'a::len word) \<noteq> - 1 \<Longrightarrow> y < x + 1 \<longleftrightarrow> y \<le> x"
  by (simp add: word_le_nat_alt word_less_nat_alt unat_Suc_not_max less_Suc_eq_le)

section \<open>Lists\<close>

lemma sum_list_remove1:
  fixes f :: "'a \<Rightarrow> 'b::ab_group_add"
  shows "x \<in> set xs \<Longrightarrow> sum_list (map f (remove1 x xs)) = sum_list (map f xs) - f x"
  by (induction xs) (auto simp: algebra_simps)

lemma strict_sorted_le_last: "sorted_wrt (<) xs \<Longrightarrow> x \<in> set xs \<Longrightarrow> x \<le> last (xs :: 'a::linorder list)"
  by (induction xs) (auto intro: less_imp_le)

lemma strict_sorted_hd_le: "sorted_wrt (<) xs \<Longrightarrow> x \<in> set xs \<Longrightarrow> hd xs \<le> (x :: 'a::linorder)"
  by (cases xs) (auto intro: less_imp_le)

lemma filter_all_conv: "(\<And>x. x \<in> set xs \<Longrightarrow> P x) \<Longrightarrow> filter P xs = xs"
  by (induction xs) auto

end
