(* ===== verification/ZG_Tables.thy ===== *)
theory ZG_Tables
  imports ZG_Prelude
begin

text \<open>
  The two containers the replication code uses.  MUSCLE's \<^verbatim>\<open>Hashtable\<close> keeps its
  entries in insertion order (a \<^verbatim>\<open>Put\<close> of a present key replaces the value in
  place); its \<^verbatim>\<open>OrderedKeysHashtable\<close> keeps them sorted by key.  Both are lists
  here; an entry carries its own key, which the argument \<open>key\<close> projects out
  (\<open>fst\<close> for key/value pairs, the update ID for the update log).

  The locale \<open>keyed_table\<close> is the interface the clients rely on: what a lookup
  returns after a put or a remove, and that both keep the invariant.  It is
  interpreted on both representations at the end of the theory.
\<close>

section \<open>Hashtable: insertion order\<close>

fun tabGet :: "('e \<Rightarrow> 'k) \<Rightarrow> 'k \<Rightarrow> 'e list \<Rightarrow> 'e option" where
  "tabGet key k [] = None"
| "tabGet key k (e # es) = (if key e = k then Some e else tabGet key k es)"

fun tabPut :: "('e \<Rightarrow> 'k) \<Rightarrow> 'e \<Rightarrow> 'e list \<Rightarrow> 'e list" where
  "tabPut key x [] = [x]"
| "tabPut key x (e # es) = (if key e = key x then x # es else e # tabPut key x es)"

definition tabRemove :: "('e \<Rightarrow> 'k) \<Rightarrow> 'k \<Rightarrow> 'e list \<Rightarrow> 'e list" where
  "tabRemove key k es = filter (\<lambda>e. key e \<noteq> k) es"

abbreviation tabHas :: "('e \<Rightarrow> 'k) \<Rightarrow> 'k \<Rightarrow> 'e list \<Rightarrow> bool" where
  "tabHas key k es \<equiv> tabGet key k es \<noteq> None"

definition tabInv :: "('e \<Rightarrow> 'k) \<Rightarrow> 'e list \<Rightarrow> bool" where
  "tabInv key es \<longleftrightarrow> distinct (map key es)"

section \<open>OrderedKeysHashtable: sorted by key\<close>

fun ordPut :: "('e \<Rightarrow> 'k::linorder) \<Rightarrow> 'e \<Rightarrow> 'e list \<Rightarrow> 'e list" where
  "ordPut key x [] = [x]"
| "ordPut key x (e # es) =
     (if key x < key e then x # e # es
      else if key x = key e then x # es
      else e # ordPut key x es)"

definition ordInv :: "('e \<Rightarrow> 'k::linorder) \<Rightarrow> 'e list \<Rightarrow> bool" where
  "ordInv key es \<longleftrightarrow> sorted_wrt (<) (map key es)"

section \<open>Facts on the representations\<close>

lemma tabGet_eq_None: "tabGet key k es = None \<longleftrightarrow> k \<notin> key ` set es"
  by (induction es) auto

lemma tabGet_SomeD: "tabGet key k es = Some e \<Longrightarrow> e \<in> set es \<and> key e = k"
  by (induction es) (auto split: if_splits)

lemma tabGet_mem:
  "tabInv key es \<Longrightarrow> e \<in> set es \<Longrightarrow> tabGet key (key e) es = Some e"
  by (induction es) (auto simp: tabInv_def image_iff)

lemma tabGet_append:
  "tabGet key k (xs @ ys) = (case tabGet key k xs of Some e \<Rightarrow> Some e | None \<Rightarrow> tabGet key k ys)"
  by (induction xs) auto

lemma tabGet_snoc: "k \<notin> key ` set xs \<Longrightarrow> tabGet key k (xs @ [e]) = (if key e = k then Some e else None)"
  by (induction xs) auto

lemma tabGet_tabPut: "tabGet key k (tabPut key x es) = (if k = key x then Some x else tabGet key k es)"
  by (induction es) auto

lemma tabGet_tabRemove: "tabGet key k (tabRemove key k' es) = (if k = k' then None else tabGet key k es)"
  by (induction es) (auto simp: tabRemove_def)

lemma keys_tabPut: "key ` set (tabPut key x es) = insert (key x) (key ` set es)"
  by (induction es) auto

lemma tabInv_tabPut: "tabInv key es \<Longrightarrow> tabInv key (tabPut key x es)"
  unfolding tabInv_def
proof (induction es)
  case (Cons e es)
  have "key ` set (tabPut key x es) = insert (key x) (key ` set es)"
    by (rule keys_tabPut)
  with Cons show ?case
    by auto
qed simp

lemma tabInv_tabRemove: "tabInv key es \<Longrightarrow> tabInv key (tabRemove key k es)"
  by (simp add: tabInv_def tabRemove_def distinct_map_filter)

lemma tabPut_fresh: "key x \<notin> key ` set es \<Longrightarrow> tabPut key x es = es @ [x]"
  by (induction es) auto

lemma ordInv_imp_tabInv: "ordInv key es \<Longrightarrow> tabInv key es"
  by (simp add: ordInv_def tabInv_def strict_sorted_iff)

lemma keys_ordPut: "key ` set (ordPut key x es) = insert (key x) (key ` set es)"
  by (induction es) auto

lemma set_ordPut_subset: "set (ordPut key x es) \<subseteq> insert x (set es)"
  by (induction es) auto

lemma ordInv_ordPut: "ordInv key es \<Longrightarrow> ordInv key (ordPut key x es)"
proof (induction es)
  case Nil
  then show ?case by (simp add: ordInv_def)
next
  case (Cons e es)
  have "key ` set (ordPut key x es) = insert (key x) (key ` set es)"
    by (rule keys_ordPut)
  with Cons show ?case
    by (fastforce simp: ordInv_def)
qed

lemma ordInv_tabRemove: "ordInv key es \<Longrightarrow> ordInv key (tabRemove key k es)"
  unfolding ordInv_def tabRemove_def sorted_wrt_map
  by (rule sorted_wrt_filter)

lemma tabGet_ordPut:
  "ordInv key es \<Longrightarrow> tabGet key k (ordPut key x es) = (if k = key x then Some x else tabGet key k es)"
proof (induction es)
  case (Cons e es)
  have "key x < key e \<Longrightarrow> key x \<notin> key ` set es"
    using Cons.prems by (auto simp: ordInv_def)
  with Cons show ?case
    by (auto simp: ordInv_def)
qed simp

lemma ordPut_snoc:
  "\<forall>e \<in> set es. key e < key x \<Longrightarrow> ordPut key x es = es @ [x]"
  by (induction es) auto

lemma ordPut_replace_last:
  "\<forall>e \<in> set es. key e < key x \<Longrightarrow> key y = key x \<Longrightarrow> ordPut key y (es @ [x]) = es @ [y]"
  by (induction es) auto

lemma tabRemove_hd:
  "ordInv key (e # es) \<Longrightarrow> tabRemove key (key e) (e # es) = es"
  unfolding ordInv_def tabRemove_def
  by (auto intro!: filter_all_conv)

lemma length_tabRemove_hd:
  "length (tabRemove key (key e) (e # es)) < Suc (length es)"
  by (simp add: tabRemove_def le_imp_less_Suc)

text \<open>Where an entry goes, and where it comes from.\<close>

lemma ordPut_split:
  "ordInv key es \<Longrightarrow> \<exists>a b. ordPut key x es = a @ x # b \<and>
     es = a @ (case tabGet key (key x) es of None \<Rightarrow> [] | Some y \<Rightarrow> [y]) @ b"
proof (induction es)
  case Nil
  show ?case
    by (intro exI [of _ "[]"]) simp
next
  case (Cons e es)
  consider "key x < key e" | "key x = key e" | "key e < key x"
    by fastforce
  then show ?case
  proof cases
    case 1
    then have "tabGet key (key x) (e # es) = None"
      using Cons.prems by (auto simp: ordInv_def tabGet_eq_None)
    then show ?thesis
      using 1 by (intro exI [of _ "[]"] exI [of _ "e # es"]) simp
  next
    case 2
    then show ?thesis
      by (intro exI [of _ "[]"] exI [of _ es]) simp
  next
    case 3
    then obtain a b where "ordPut key x es = a @ x # b"
      "es = a @ (case tabGet key (key x) es of None \<Rightarrow> [] | Some y \<Rightarrow> [y]) @ b"
      using Cons by (auto simp: ordInv_def)
    then show ?thesis
      using 3 by (intro exI [of _ "e # a"] exI [of _ b]) auto
  qed
qed

lemma tabRemove_split:
  "tabInv key es \<Longrightarrow> tabGet key k es = Some y \<Longrightarrow> \<exists>a b. es = a @ y # b \<and> tabRemove key k es = a @ b"
proof (induction es)
  case (Cons e es)
  show ?case
  proof (cases "key e = k")
    case True
    then have "filter (\<lambda>e. key e \<noteq> k) es = es"
      using Cons.prems(1) by (intro filter_all_conv) (auto simp: tabInv_def image_iff)
    then show ?thesis
      using True Cons.prems(2) by (intro exI [of _ "[]"] exI [of _ es]) (simp add: tabRemove_def)
  next
    case False
    then obtain a b where "es = a @ y # b \<and> tabRemove key k es = a @ b"
      using Cons by (auto simp: tabInv_def)
    then show ?thesis
      using False by (rule_tac x = "e # a" in exI, rule_tac x = b in exI) (simp add: tabRemove_def)
  qed
qed simp

text \<open>Sums over the entries, as kept in the running tallies of the update log.\<close>

lemma sum_list_ordPut_fresh:
  fixes f :: "'e \<Rightarrow> 'b::ab_group_add"
  shows "key x \<notin> key ` set es \<Longrightarrow> sum_list (map f (ordPut key x es)) = f x + sum_list (map f es)"
  by (induction es) (auto simp: algebra_simps)

lemma sum_list_ordPut_present:
  fixes f :: "'e \<Rightarrow> 'b::ab_group_add"
  shows "ordInv key es \<Longrightarrow> tabGet key (key x) es = Some old \<Longrightarrow>
    sum_list (map f (ordPut key x es)) = sum_list (map f es) - f old + f x"
proof (induction es)
  case (Cons e es)
  then show ?case
    by (auto simp: ordInv_def algebra_simps dest!: tabGet_SomeD split: if_splits)
qed simp

lemma sum_list_tabRemove:
  fixes f :: "'e \<Rightarrow> 'b::ab_group_add"
  shows "tabInv key es \<Longrightarrow> tabGet key k es = Some old \<Longrightarrow>
    sum_list (map f (tabRemove key k es)) = sum_list (map f es) - f old"
proof (induction es)
  case (Cons e es)
  show ?case
  proof (cases "key e = k")
    case True
    with Cons.prems have "filter (\<lambda>e. key e \<noteq> k) es = es"
      by (intro filter_all_conv) (auto simp: tabInv_def image_iff)
    with True Cons.prems show ?thesis
      by (simp add: tabRemove_def)
  next
    case False
    with Cons show ?thesis
      by (simp add: tabRemove_def tabInv_def algebra_simps)
  qed
qed simp

section \<open>The interface\<close>

locale keyed_table =
  fixes key :: "'e \<Rightarrow> 'k"
    and put :: "'e \<Rightarrow> 'e list \<Rightarrow> 'e list"
    and inv :: "'e list \<Rightarrow> bool"
  assumes get_put: "inv es \<Longrightarrow>
      tabGet key k (put x es) = (if k = key x then Some x else tabGet key k es)"
    and inv_put: "inv es \<Longrightarrow> inv (put x es)"
    and inv_remove: "inv es \<Longrightarrow> inv (tabRemove key k es)"
    and inv_distinct: "inv es \<Longrightarrow> tabInv key es"
    and inv_empty: "inv []"
begin

lemma get_remove_put:
  "inv es \<Longrightarrow> tabGet key k (tabRemove key (key x) (put x es)) = tabGet key k (tabRemove key (key x) es)"
  by (simp add: tabGet_tabRemove get_put)

lemma has_put: "inv es \<Longrightarrow> tabHas key k (put x es) \<longleftrightarrow> k = key x \<or> tabHas key k es"
  by (simp add: get_put)

lemma inv_fold_put: "inv es \<Longrightarrow> inv (fold put xs es)"
  by (induction xs arbitrary: es) (simp_all add: inv_put)

lemma get_fold_put_other:
  "inv es \<Longrightarrow> k \<notin> key ` set xs \<Longrightarrow> tabGet key k (fold put xs es) = tabGet key k es"
  by (induction xs arbitrary: es) (auto simp: get_put inv_put)

lemma get_fold_put_mem:
  "inv es \<Longrightarrow> distinct (map key xs) \<Longrightarrow> x \<in> set xs \<Longrightarrow>
   tabGet key (key x) (fold put xs es) = Some x"
proof (induction xs arbitrary: es)
  case (Cons y ys)
  show ?case
  proof (cases "x = y")
    case True
    with Cons.prems have "key x \<notin> key ` set ys"
      by auto
    with True Cons.prems(1) show ?thesis
      by (simp add: get_fold_put_other inv_put get_put)
  next
    case False
    with Cons show ?thesis
      by (simp add: inv_put)
  qed
qed simp

end

text \<open>Both containers provide the interface.\<close>

interpretation hashtable: keyed_table key "tabPut key" "tabInv key" for key :: "'e \<Rightarrow> 'k"
  by unfold_locales
    (simp_all only: tabGet_tabPut tabInv_tabPut tabInv_tabRemove, simp add: tabInv_def)

interpretation ordered: keyed_table key "ordPut key" "ordInv key" for key :: "'e \<Rightarrow> 'k::linorder"
  by unfold_locales
    (simp_all only: tabGet_ordPut ordInv_ordPut ordInv_tabRemove ordInv_imp_tabInv, simp add: ordInv_def)

lemmas [table_simps] =
  tabGet_tabPut tabGet_tabRemove tabGet_ordPut tabInv_tabPut tabInv_tabRemove
  ordInv_ordPut ordInv_tabRemove ordInv_imp_tabInv

end
