(* ===== verification/ZG_Peer.thy ===== *)
theory ZG_Peer
  imports ZG_Tables
begin

text \<open>
  Peer identities (\<^verbatim>\<open>ZGPeerID.h\<close>), back-order keys (\<^verbatim>\<open>PZGUpdateBackOrderKey.h\<close>)
  and compatibility-version codes (\<^verbatim>\<open>ZGConstants.h\<close>).  A peer ID is a 128-bit
  value compared by its high word first; that order is an instance of
  \<open>linorder\<close>, so it is a total order as the sorting code needs.
\<close>

unbundle bit_operations_syntax

section \<open>ZGPeerID\<close>

datatype ZGPeerID = ZGPeerID (highBits: u64) (lowBits: u64)

definition invalidPeerID :: ZGPeerID where
  "invalidPeerID = ZGPeerID 0 0"

definition IsValid :: "ZGPeerID \<Rightarrow> bool" where
  "IsValid p \<longleftrightarrow> highBits p \<noteq> 0 \<or> lowBits p \<noteq> 0"

definition peer_lt :: "ZGPeerID \<Rightarrow> ZGPeerID \<Rightarrow> bool" where
  "peer_lt p q \<longleftrightarrow> highBits p < highBits q \<or> (highBits p = highBits q \<and> lowBits p < lowBits q)"

definition peer_gt :: "ZGPeerID \<Rightarrow> ZGPeerID \<Rightarrow> bool" where
  "peer_gt p q \<longleftrightarrow> highBits p > highBits q \<or> (highBits p = highBits q \<and> lowBits p > lowBits q)"

instantiation ZGPeerID :: linorder
begin

definition less_eq_ZGPeerID :: "ZGPeerID \<Rightarrow> ZGPeerID \<Rightarrow> bool" where
  "p \<le> q \<longleftrightarrow> \<not> peer_gt p q"

definition less_ZGPeerID :: "ZGPeerID \<Rightarrow> ZGPeerID \<Rightarrow> bool" where
  "p < q \<longleftrightarrow> peer_lt p q"

instance
  by intro_classes
    (auto simp: less_eq_ZGPeerID_def less_ZGPeerID_def peer_lt_def peer_gt_def
      intro: ZGPeerID.expand)

end

text \<open>\<open>CalculateChecksum\<close>; \<open>pod\<close> is MUSCLE's \<^verbatim>\<open>CalculatePODChecksum\<close> of a 64-bit value.\<close>

definition peerID_CalculateChecksum :: "(u64 \<Rightarrow> u32) \<Rightarrow> ZGPeerID \<Rightarrow> u32" where
  "peerID_CalculateChecksum pod p = pod (highBits p) + 3 * pod (lowBits p)"

text \<open>
  \<^verbatim>\<open>GenerateLocalPeerID\<close>: the first non-zero MAC address of the machine (zero when the
  interfaces cannot be listed), the process ID, the salt (a hash of clock readings, plus the
  pre-incremented counter when the lock can be taken) and the next object ID.
\<close>

definition localMACAddress :: "u64 list option \<Rightarrow> u64" where
  "localMACAddress niis =
     (case niis of None \<Rightarrow> 0
      | Some macs \<Rightarrow> (case filter (\<lambda>mac. mac \<noteq> 0) macs of [] \<Rightarrow> 0 | mac # _ \<Rightarrow> mac))"

definition composePeerID :: "u64 \<Rightarrow> u32 \<Rightarrow> u32 \<Rightarrow> u32 \<Rightarrow> ZGPeerID" where
  "composePeerID macAddress objectID processID salt =
     ZGPeerID (push_bit 16 macAddress OR ucast objectID)
              (push_bit 32 (ucast processID) OR ucast salt)"

definition GenerateLocalPeerID :: "u64 list option \<Rightarrow> u32 \<Rightarrow> u32 \<Rightarrow> u32 option \<Rightarrow> u32 \<Rightarrow> ZGPeerID" where
  "GenerateLocalPeerID niis processID hash counter objectID =
     (let salt = (case counter of None \<Rightarrow> hash | Some c \<Rightarrow> hash + (c + 1))
      in composePeerID (localMACAddress niis) objectID processID salt)"

section \<open>PZGUpdateBackOrderKey\<close>

datatype PZGUpdateBackOrderKey =
  PZGUpdateBackOrderKey (GetTargetPeerID: ZGPeerID) (GetDatabaseIndex: u32) (GetDatabaseUpdateID: u64)

section \<open>Compatibility versions\<close>

definition CalculateCompatibilityVersionCode :: "u16 \<Rightarrow> u16 \<Rightarrow> u32" where
  "CalculateCompatibilityVersionCode zgv appv = push_bit 16 (ucast zgv) OR ucast appv"

definition GetZGVersionFromCompatibilityVersionCode :: "u32 \<Rightarrow> u16" where
  "GetZGVersionFromCompatibilityVersionCode code = ucast (drop_bit 16 code AND 0xFFFF)"

definition GetAppVersionFromCompatibilityVersionCode :: "u32 \<Rightarrow> u16" where
  "GetAppVersionFromCompatibilityVersionCode code = ucast (code AND 0xFFFF)"

section \<open>Properties\<close>

lemma IsValid_iff: "IsValid p \<longleftrightarrow> p \<noteq> invalidPeerID"
  by (cases p) (simp add: IsValid_def invalidPeerID_def)

lemma invalidPeerID_least: "invalidPeerID \<le> p"
  by (simp add: less_eq_ZGPeerID_def peer_gt_def invalidPeerID_def)

text \<open>The C++ operators \<open><\<close>, \<open>>=\<close>, \<open>>\<close> and \<open><=\<close> are mutually consistent.\<close>

lemma peer_gt_iff_lt: "peer_gt p q \<longleftrightarrow> peer_lt q p"
  by (auto simp: peer_gt_def peer_lt_def)

lemma mask16_u32: "(0xFFFF :: u32) = mask 16"
  by (simp add: mask_eq_exp_minus_1)

lemma compat_version_roundtrip:
  "GetZGVersionFromCompatibilityVersionCode (CalculateCompatibilityVersionCode z a) = z"
  "GetAppVersionFromCompatibilityVersionCode (CalculateCompatibilityVersionCode z a) = a"
  unfolding GetZGVersionFromCompatibilityVersionCode_def mask16_u32
    GetAppVersionFromCompatibilityVersionCode_def CalculateCompatibilityVersionCode_def
  by (auto intro!: bit_word_eqI simp: bit_simps) (auto dest: bit_imp_le_length)

lemma take_bit_pack:
  "take_bit n (push_bit n x OR y) = take_bit n (y :: 'a::len word)"
  by (auto intro!: bit_word_eqI simp: bit_simps)

text \<open>
  Two sessions of one process that differ in their object counter, or two processes
  of one host, never share an ID as long as the counter fits in 16 bits.
\<close>

lemma composePeerID_low_inject:
  assumes "push_bit 32 (ucast (pid :: u32) :: u64) OR ucast (salt :: u32) =
           push_bit 32 (ucast (pid' :: u32)) OR ucast (salt' :: u32)"
  shows "pid = pid' \<and> salt = salt'"
proof
  have bits: "bit (push_bit 32 (ucast pid :: u64) OR ucast salt) n =
      bit (push_bit 32 (ucast pid' :: u64) OR ucast salt') n" for n
    using assms by simp
  show "pid = pid'"
  proof (rule bit_word_eqI)
    fix n assume "n < LENGTH(32)"
    then show "bit pid n = bit pid' n"
      using bits [of "32 + n"] by (auto simp: bit_simps dest: bit_imp_le_length)
  qed
  show "salt = salt'"
  proof (rule bit_word_eqI)
    fix n assume "n < LENGTH(32)"
    then show "bit salt n = bit salt' n"
      using bits [of n] by (simp add: bit_simps)
  qed
qed

lemma composePeerID_high_inject:
  assumes "take_bit 16 (objectID :: u32) = objectID" "take_bit 16 objectID' = objectID'"
    and "push_bit 16 (mac :: u64) OR ucast objectID = push_bit 16 mac' OR ucast (objectID' :: u32)"
  shows "objectID = objectID'"
proof -
  have "take_bit 16 (ucast objectID :: u64) = take_bit 16 (ucast objectID')"
    using arg_cong [OF assms(3), of "take_bit 16"] by (simp only: take_bit_pack)
  then have bits: "bit (take_bit 16 (ucast objectID :: u64)) n = bit (take_bit 16 (ucast objectID' :: u64)) n" for n
    by simp
  have "take_bit 16 objectID = take_bit 16 objectID'"
  proof (rule bit_word_eqI)
    fix n assume "n < LENGTH(32)"
    then show "bit (take_bit 16 objectID) n = bit (take_bit 16 objectID') n"
      using bits [of n] by (simp add: bit_simps)
  qed
  then show ?thesis
    by (simp only: assms(1,2))
qed

lemma composePeerID_mac_inject:
  assumes "take_bit 48 (mac :: u64) = mac" "take_bit 48 mac' = mac'"
    and "take_bit 16 (objectID :: u32) = objectID" "take_bit 16 objectID' = objectID'"
    and "push_bit 16 mac OR ucast objectID = push_bit 16 mac' OR ucast (objectID' :: u32)"
  shows "mac = mac'"
proof -
  have small: "\<not> bit (ucast x :: u64) (16 + n)" if "take_bit 16 x = x" for x :: u32 and n
    using arg_cong [OF that, of "\<lambda>y. bit y (16 + n)"] by (simp add: bit_simps)
  have bits: "bit (push_bit 16 mac OR ucast objectID) n = bit (push_bit 16 mac' OR ucast objectID') n" for n
    using assms(5) by simp
  have "take_bit 48 mac = take_bit 48 mac'"
  proof (rule bit_word_eqI)
    fix n assume "n < LENGTH(64)"
    then show "bit (take_bit 48 mac) n = bit (take_bit 48 mac') n"
      using bits [of "16 + n"] small [OF assms(3), of n] small [OF assms(4), of n] by (auto simp: bit_simps)
  qed
  then show ?thesis
    by (simp only: assms(1,2))
qed

text \<open>
  Peer IDs tell peers apart.  While a process has made fewer than 65536 session objects
  and MAC addresses have 48 bits, two generated IDs differ whenever the machine's MAC
  address, the process ID or the object ID differ, whatever the salts are.
\<close>

theorem GenerateLocalPeerID_unique:
  assumes "take_bit 48 (localMACAddress niis) = localMACAddress niis"
    "take_bit 48 (localMACAddress niis') = localMACAddress niis'"
    and "take_bit 16 objectID = objectID" "take_bit 16 objectID' = objectID'"
    and "localMACAddress niis \<noteq> localMACAddress niis' \<or> processID \<noteq> processID' \<or> objectID \<noteq> objectID'"
  shows "GenerateLocalPeerID niis processID hash counter objectID \<noteq>
         GenerateLocalPeerID niis' processID' hash' counter' objectID'"
  using assms composePeerID_high_inject composePeerID_low_inject composePeerID_mac_inject
  unfolding GenerateLocalPeerID_def composePeerID_def Let_def ZGPeerID.inject by blast

theorem GenerateLocalPeerID_unique_witness:
  "GenerateLocalPeerID (Some [0, 5]) 7 1 (Some 3) 2 \<noteq> GenerateLocalPeerID (Some [5, 6]) 8 1 None 2"
  by (rule GenerateLocalPeerID_unique) (code_simp+)

end
