(* ===== verification/ZG_Wire.thy ===== *)
theory ZG_Wire
  imports ZG_Peer
begin

text \<open>
  MUSCLE's \<^verbatim>\<open>DataFlattener\<close> and \<^verbatim>\<open>DataUnflattener\<close> are not part of the repository, so
  they are a parameter of every codec: the record \<open>wire\<close> holds the operations the
  code calls.  The locale \<open>wire_codec\<close> states what their documentation promises:
  an integer occupies its size in bytes, reading what was written returns it and
  moves past it, and an unflattener that has run out of data reports an error from
  then on.

  The small codecs of the replication protocol are defined here over that
  parameter, and their round trips are proved once inside the locale.  The
  little-endian wire of the last section provides the interface.
\<close>

section \<open>The parameter\<close>

record 'u wire =
  WriteInt8 :: "u8 \<Rightarrow> bytes"
  WriteInt16 :: "u16 \<Rightarrow> bytes"
  WriteInt32 :: "u32 \<Rightarrow> bytes"
  WriteInt64 :: "u64 \<Rightarrow> bytes"
  OpenUnflattener :: "bytes \<Rightarrow> 'u"
  ReadInt8 :: "'u \<Rightarrow> u8 \<times> 'u"
  ReadInt16 :: "'u \<Rightarrow> u16 \<times> 'u"
  ReadInt32 :: "'u \<Rightarrow> u32 \<times> 'u"
  ReadInt64 :: "'u \<Rightarrow> u64 \<times> 'u"
  GetNumBytesAvailable :: "'u \<Rightarrow> nat"
  CurrentBytes :: "nat \<Rightarrow> 'u \<Rightarrow> bytes"
  SeekRelative :: "nat \<Rightarrow> 'u \<Rightarrow> status_t \<times> 'u"
  GetStatus :: "'u \<Rightarrow> status_t"

section \<open>Peer IDs and back-order keys\<close>

definition peerID_FlattenedSize :: nat where
  "peerID_FlattenedSize = 2 * 8"

definition peerID_Flatten :: "'u wire \<Rightarrow> ZGPeerID \<Rightarrow> bytes" where
  "peerID_Flatten W p = WriteInt64 W (highBits p) @ WriteInt64 W (lowBits p)"

definition peerID_Unflatten :: "'u wire \<Rightarrow> 'u \<Rightarrow> status_t \<times> ZGPeerID \<times> 'u" where
  "peerID_Unflatten W u0 =
     (let (hi, u1) = ReadInt64 W u0;
          (lo, u2) = ReadInt64 W u1
      in (GetStatus W u2, ZGPeerID hi lo, u2))"

definition ubok_FlattenedSize :: nat where
  "ubok_FlattenedSize = peerID_FlattenedSize + 4 + 8"

definition ubok_Flatten :: "'u wire \<Rightarrow> PZGUpdateBackOrderKey \<Rightarrow> bytes" where
  "ubok_Flatten W k =
     peerID_Flatten W (GetTargetPeerID k) @ WriteInt32 W (GetDatabaseIndex k) @
     WriteInt64 W (GetDatabaseUpdateID k)"

definition ubok_Unflatten :: "'u wire \<Rightarrow> 'u \<Rightarrow> status_t \<times> PZGUpdateBackOrderKey option \<times> 'u" where
  "ubok_Unflatten W u0 =
     (let (st, p, u1) = peerID_Unflatten W u0
      in if IsError st then (st, None, u1)
         else let (db, u2) = ReadInt32 W u1;
                  (uid, u3) = ReadInt64 W u2
              in (GetStatus W u3, Some (PZGUpdateBackOrderKey p db uid), u3))"

section \<open>The contract of the wire\<close>

locale wire_codec =
  fixes W :: "'u wire"
  assumes size8: "length (WriteInt8 W x8) = 1"
    and size16: "length (WriteInt16 W x16) = 2"
    and size32: "length (WriteInt32 W x32) = 4"
    and size64: "length (WriteInt64 W x64) = 8"
    and read8: "ReadInt8 W (OpenUnflattener W (WriteInt8 W x8 @ bs)) = (x8, OpenUnflattener W bs)"
    and read16: "ReadInt16 W (OpenUnflattener W (WriteInt16 W x16 @ bs)) = (x16, OpenUnflattener W bs)"
    and read32: "ReadInt32 W (OpenUnflattener W (WriteInt32 W x32 @ bs)) = (x32, OpenUnflattener W bs)"
    and read64: "ReadInt64 W (OpenUnflattener W (WriteInt64 W x64 @ bs)) = (x64, OpenUnflattener W bs)"
    and avail: "GetNumBytesAvailable W (OpenUnflattener W bs) = length bs"
    and current: "CurrentBytes W n (OpenUnflattener W bs) = take n bs"
    and seek: "n \<le> length bs \<Longrightarrow>
      SeekRelative W n (OpenUnflattener W bs) = (B_NO_ERROR, OpenUnflattener W (drop n bs))"
    and status_open: "GetStatus W (OpenUnflattener W bs) = B_NO_ERROR"
    and uses8: "ReadInt8 W u = (x8, u') \<Longrightarrow> IsOK (GetStatus W u') \<Longrightarrow>
      IsOK (GetStatus W u) \<and> GetNumBytesAvailable W u = 1 + GetNumBytesAvailable W u'"
    and uses16: "ReadInt16 W u = (x16, u') \<Longrightarrow> IsOK (GetStatus W u') \<Longrightarrow>
      IsOK (GetStatus W u) \<and> GetNumBytesAvailable W u = 2 + GetNumBytesAvailable W u'"
    and uses32: "ReadInt32 W u = (x32, u') \<Longrightarrow> IsOK (GetStatus W u') \<Longrightarrow>
      IsOK (GetStatus W u) \<and> GetNumBytesAvailable W u = 4 + GetNumBytesAvailable W u'"
    and uses64: "ReadInt64 W u = (x64, u') \<Longrightarrow> IsOK (GetStatus W u') \<Longrightarrow>
      IsOK (GetStatus W u) \<and> GetNumBytesAvailable W u = 8 + GetNumBytesAvailable W u'"
    and seek_status: "GetStatus W (snd (SeekRelative W n u)) = GetStatus W u"
begin

lemmas wire_sizes = size8 size16 size32 size64
lemmas wire_reads = read8 read16 read32 read64 avail current seek status_open
lemmas wire_uses = uses8 uses16 uses32 uses64

lemma peerID_size: "length (peerID_Flatten W p) = peerID_FlattenedSize"
  by (simp add: peerID_Flatten_def peerID_FlattenedSize_def wire_sizes)

lemma peerID_roundtrip:
  "peerID_Unflatten W (OpenUnflattener W (peerID_Flatten W p @ bs)) = (B_NO_ERROR, p, OpenUnflattener W bs)"
  by (simp add: peerID_Unflatten_def peerID_Flatten_def wire_reads)

lemma peerID_uses:
  "peerID_Unflatten W u = (B_NO_ERROR, p, u') \<Longrightarrow>
   IsOK (GetStatus W u) \<and> IsOK (GetStatus W u') \<and>
   GetNumBytesAvailable W u = peerID_FlattenedSize + GetNumBytesAvailable W u'"
  unfolding peerID_Unflatten_def peerID_FlattenedSize_def Let_def
  by (auto split: prod.splits) (frule (1) uses64; auto dest: uses64)+

lemma ubok_size: "length (ubok_Flatten W k) = ubok_FlattenedSize"
  by (simp add: ubok_Flatten_def ubok_FlattenedSize_def wire_sizes peerID_size)

lemma ubok_roundtrip:
  "ubok_Unflatten W (OpenUnflattener W (ubok_Flatten W k @ bs)) =
   (B_NO_ERROR, Some k, OpenUnflattener W bs)"
  by (simp add: ubok_Unflatten_def ubok_Flatten_def wire_reads peerID_roundtrip)

end

section \<open>The little-endian wire\<close>

fun leBytes :: "nat \<Rightarrow> 'a::len word \<Rightarrow> bytes" where
  "leBytes 0 w = []"
| "leBytes (Suc n) w = ucast w # leBytes n (drop_bit 8 w)"

fun leWord :: "bytes \<Rightarrow> 'a::len word" where
  "leWord [] = 0"
| "leWord (b # bs) = ucast b OR push_bit 8 (leWord bs)"

definition leRead :: "nat \<Rightarrow> bytes \<times> bool \<Rightarrow> 'a::len word \<times> (bytes \<times> bool)" where
  "leRead n u = (case u of (bs, ok) \<Rightarrow>
     if ok \<and> n \<le> length bs then (leWord (take n bs), (drop n bs, True)) else (0, (bs, False)))"

definition le_wire :: "(bytes \<times> bool) wire" where
  "le_wire = \<lparr>
     WriteInt8 = leBytes 1, WriteInt16 = leBytes 2, WriteInt32 = leBytes 4, WriteInt64 = leBytes 8,
     OpenUnflattener = (\<lambda>bs. (bs, True)),
     ReadInt8 = leRead 1, ReadInt16 = leRead 2, ReadInt32 = leRead 4, ReadInt64 = leRead 8,
     GetNumBytesAvailable = (\<lambda>u. length (fst u)),
     CurrentBytes = (\<lambda>n u. take n (fst u)),
     SeekRelative = (\<lambda>n u. if n \<le> length (fst u) then (B_NO_ERROR, (drop n (fst u), snd u))
                            else (B_BAD_ARGUMENT, u)),
     GetStatus = (\<lambda>u. if snd u then B_NO_ERROR else B_DATA_NOT_FOUND) \<rparr>"

lemma length_leBytes [simp]: "length (leBytes n w) = n"
  by (induction n arbitrary: w) auto

lemma leWord_leBytes: "leWord (leBytes n w) = take_bit (8 * n) (w :: 'a::len word)"
proof (induction n arbitrary: w)
  case (Suc n)
  show ?case
  proof (rule bit_word_eqI)
    fix i assume "i < LENGTH('a)"
    then show "bit (leWord (leBytes (Suc n) w) :: 'a word) i = bit (take_bit (8 * Suc n) w) i"
      by (cases "i < 8") (auto simp: Suc bit_simps)
  qed
qed simp

lemma leRead_leBytes:
  "8 * n = LENGTH('a) \<Longrightarrow> leRead n (leBytes n w @ bs, True) = (w :: 'a::len word, bs, True)"
  by (simp add: leRead_def leWord_leBytes)

interpretation le: wire_codec le_wire
  by unfold_locales
    (auto simp: le_wire_def leRead_leBytes leRead_def leWord_leBytes take_bit_word_eq_self simp del: leBytes.simps One_nat_def
      split: prod.splits if_splits)

end
