(* ===== verification/ZG_DatabaseUpdate.thy ===== *)
theory ZG_DatabaseUpdate
  imports ZG_Wire
begin

text \<open>
  \<^verbatim>\<open>PZGDatabaseUpdate\<close>: one numbered update of a replicated database, as it sits in
  an update log and travels between peers, with its payload kept as a Message, as a
  compressed buffer, or both (each is computed from the other on demand).

  Parameters that stand for MUSCLE code: \<open>zlib\<close> (flatten-and-deflate, and
  inflate-and-unflatten, of a Message), the \<open>wire\<close>, and \<open>podsum\<close>
  (\<^verbatim>\<open>CalculatePODChecksums\<close> over the nine listed values).
\<close>

section \<open>Data\<close>

datatype update_type =
    PZG_DATABASE_UPDATE_TYPE_NOOP
  | PZG_DATABASE_UPDATE_TYPE_RESET
  | PZG_DATABASE_UPDATE_TYPE_REPLACE
  | PZG_DATABASE_UPDATE_TYPE_UPDATE
  | PZG_DATABASE_UPDATE_TYPE_UNKNOWN u8

text \<open>The byte \<open>_updateType\<close> as the \<^verbatim>\<open>switch\<close> statements read it.\<close>

definition update_type_of :: "u8 \<Rightarrow> update_type" where
  "update_type_of t =
     (if t = 0 then PZG_DATABASE_UPDATE_TYPE_NOOP
      else if t = 1 then PZG_DATABASE_UPDATE_TYPE_RESET
      else if t = 2 then PZG_DATABASE_UPDATE_TYPE_REPLACE
      else if t = 3 then PZG_DATABASE_UPDATE_TYPE_UPDATE
      else PZG_DATABASE_UPDATE_TYPE_UNKNOWN t)"

record 'm PZGDatabaseUpdate =
  updateType :: u8
  databaseIndex :: u16
  seniorElapsedTimeMillis :: u16
  seniorStartTimeMicros :: u64
  sourcePeerID :: ZGPeerID
  updateID :: u64
  preUpdateDBChecksum :: u32
  postUpdateDBChecksum :: u32
  updateBuf :: "bytes option"
  updateMsg :: "'m option"

record 'm zlib =
  DeflateMessage :: "'m \<Rightarrow> bytes option"
  InflateMessage :: "bytes \<Rightarrow> 'm option"

type_synonym podsum = "u8 \<Rightarrow> u16 \<Rightarrow> u16 \<Rightarrow> u64 \<Rightarrow> ZGPeerID \<Rightarrow> u64 \<Rightarrow> u32 \<Rightarrow> u32 \<Rightarrow> bytes option \<Rightarrow> u32"

definition PZG_DATABASE_UPDATE_TYPE_CODE :: u32 where
  "PZG_DATABASE_UPDATE_TYPE_CODE = 1684174192"

section \<open>Construction and setters\<close>

definition newPZGDatabaseUpdate :: "'m PZGDatabaseUpdate" where
  "newPZGDatabaseUpdate = \<lparr> updateType = 0, databaseIndex = 0, seniorElapsedTimeMillis = 0,
     seniorStartTimeMicros = 0, sourcePeerID = invalidPeerID, updateID = 0,
     preUpdateDBChecksum = 0, postUpdateDBChecksum = 0, updateBuf = None, updateMsg = None \<rparr>"

definition GetPZGDatabaseUpdateFromPool ::
  "u8 \<Rightarrow> u16 \<Rightarrow> u64 \<Rightarrow> ZGPeerID \<Rightarrow> u32 \<Rightarrow> 'm PZGDatabaseUpdate" where
  "GetPZGDatabaseUpdateFromPool ty idx uid src preChk =
     newPZGDatabaseUpdate \<lparr> updateType := ty, databaseIndex := idx, updateID := uid,
       sourcePeerID := src, preUpdateDBChecksum := preChk \<rparr>"

definition SetSeniorElapsedTimeMicros :: "u64 \<Rightarrow> 'm PZGDatabaseUpdate \<Rightarrow> 'm PZGDatabaseUpdate" where
  "SetSeniorElapsedTimeMicros micros u =
     u \<lparr> seniorElapsedTimeMillis := ucast (min (65535 :: u64) (micros div 1000)) \<rparr>"

definition SetPayloadMessage :: "'m option \<Rightarrow> 'm PZGDatabaseUpdate \<Rightarrow> 'm PZGDatabaseUpdate" where
  "SetPayloadMessage m u = u \<lparr> updateBuf := None, updateMsg := m \<rparr>"

section \<open>The payload caches\<close>

text \<open>Each accessor returns its value and the object with the demand-computed cache filled in.\<close>

definition GetPayloadBufferAsMessage_cached ::
  "'m zlib \<Rightarrow> 'm PZGDatabaseUpdate \<Rightarrow> 'm option \<times> 'm PZGDatabaseUpdate" where
  "GetPayloadBufferAsMessage_cached Z u =
     (case updateMsg u of
        Some m \<Rightarrow> (Some m, u)
      | None \<Rightarrow> (case updateBuf u of
          Some b \<Rightarrow> (InflateMessage Z b, u \<lparr> updateMsg := InflateMessage Z b \<rparr>)
        | None \<Rightarrow> (None, u)))"

definition GetPayloadBuffer_cached ::
  "'m zlib \<Rightarrow> 'm PZGDatabaseUpdate \<Rightarrow> bytes option \<times> 'm PZGDatabaseUpdate" where
  "GetPayloadBuffer_cached Z u =
     (case updateBuf u of
        Some b \<Rightarrow> (Some b, u)
      | None \<Rightarrow> (case updateMsg u of
          Some m \<Rightarrow> (DeflateMessage Z m, u \<lparr> updateBuf := DeflateMessage Z m \<rparr>)
        | None \<Rightarrow> (None, u)))"

definition UncachePayloadBufferAsMessage :: "'m PZGDatabaseUpdate \<Rightarrow> 'm PZGDatabaseUpdate" where
  "UncachePayloadBufferAsMessage u =
     (case updateBuf u of Some _ \<Rightarrow> u \<lparr> updateMsg := None \<rparr> | None \<Rightarrow> u)"

abbreviation GetPayloadBufferAsMessage :: "'m zlib \<Rightarrow> 'm PZGDatabaseUpdate \<Rightarrow> 'm option" where
  "GetPayloadBufferAsMessage Z u \<equiv> fst (GetPayloadBufferAsMessage_cached Z u)"

abbreviation GetPayloadBuffer :: "'m zlib \<Rightarrow> 'm PZGDatabaseUpdate \<Rightarrow> bytes option" where
  "GetPayloadBuffer Z u \<equiv> fst (GetPayloadBuffer_cached Z u)"

text \<open>\<open>payloadBuf()->GetNumBytes()\<close> where the buffer is present, as added to the log's byte tally.\<close>

definition payloadBytes :: "'m zlib \<Rightarrow> 'm PZGDatabaseUpdate \<Rightarrow> u64" where
  "payloadBytes Z u = (case GetPayloadBuffer Z u of Some b \<Rightarrow> of_nat (length b) | None \<Rightarrow> 0)"

section \<open>Checksum and wire format\<close>

definition dbup_CalculateChecksum :: "podsum \<Rightarrow> 'm zlib \<Rightarrow> 'm PZGDatabaseUpdate \<Rightarrow> u32" where
  "dbup_CalculateChecksum pod Z u =
     pod (updateType u) (databaseIndex u) (seniorElapsedTimeMillis u) (seniorStartTimeMicros u)
         (sourcePeerID u) (updateID u) (preUpdateDBChecksum u) (postUpdateDBChecksum u)
         (GetPayloadBuffer Z u)"

definition FlattenedSizeNotIncludingPayload :: nat where
  "FlattenedSizeNotIncludingPayload =
     4 + 1 + 1 + 2 + 2 + 8 + 2 + peerID_FlattenedSize + 8 + 4 + 4 + 4 + 4"

definition dbup_FlattenedSize :: "'m zlib \<Rightarrow> 'm PZGDatabaseUpdate \<Rightarrow> nat" where
  "dbup_FlattenedSize Z u =
     FlattenedSizeNotIncludingPayload +
     (case GetPayloadBuffer Z u of Some b \<Rightarrow> length b | None \<Rightarrow> 0)"

definition dbup_Flatten :: "'u wire \<Rightarrow> podsum \<Rightarrow> 'm zlib \<Rightarrow> 'm PZGDatabaseUpdate \<Rightarrow> bytes" where
  "dbup_Flatten W pod Z u =
     WriteInt32 W PZG_DATABASE_UPDATE_TYPE_CODE @
     WriteInt8 W (updateType u) @
     WriteInt8 W 0 @
     WriteInt16 W (databaseIndex u) @
     WriteInt16 W (seniorElapsedTimeMillis u) @
     WriteInt16 W 0 @
     WriteInt64 W (seniorStartTimeMicros u) @
     peerID_Flatten W (sourcePeerID u) @
     WriteInt64 W (updateID u) @
     WriteInt32 W (preUpdateDBChecksum u) @
     WriteInt32 W (postUpdateDBChecksum u) @
     WriteInt32 W (dbup_CalculateChecksum pod Z u) @
     (case GetPayloadBuffer Z u of
        Some b \<Rightarrow> WriteInt32 W (of_nat (length b)) @ b
      | None \<Rightarrow> WriteInt32 W 0)"

definition dbup_Unflatten ::
  "'u wire \<Rightarrow> podsum \<Rightarrow> 'm zlib \<Rightarrow> 'u \<Rightarrow> status_t \<times> 'm PZGDatabaseUpdate option \<times> 'u" where
  "dbup_Unflatten W pod Z u0 =
     (let (typeCode, u1) = ReadInt32 W u0 in
      if typeCode \<noteq> PZG_DATABASE_UPDATE_TYPE_CODE then (B_BAD_DATA, None, u1)
      else
      let (ty, u2) = ReadInt8 W u1;
          (_, u3) = ReadInt8 W u2;
          (idx, u4) = ReadInt16 W u3;
          (millis, u5) = ReadInt16 W u4;
          (_, u6) = ReadInt16 W u5;
          (micros, u7) = ReadInt64 W u6;
          (st, src, u8) = peerID_Unflatten W u7
      in if IsError st then (st, None, u8)
      else
      let (uid, u9) = ReadInt64 W u8;
          (pre, u10) = ReadInt32 W u9;
          (post, u11) = ReadInt32 W u10;
          (chk, u12) = ReadInt32 W u11;
          (dataSize, u13) = ReadInt32 W u12
      in if GetNumBytesAvailable W u13 < unat dataSize then (B_BAD_DATA, None, u13)
      else
      let buf = (if dataSize > 0 then Some (CurrentBytes W (unat dataSize) u13) else None);
          (st2, u14) = (if dataSize > 0 then SeekRelative W (unat dataSize) u13 else (B_NO_ERROR, u13));
          ret = \<lparr> updateType = ty, databaseIndex = idx, seniorElapsedTimeMillis = millis,
                  seniorStartTimeMicros = micros, sourcePeerID = src, updateID = uid,
                  preUpdateDBChecksum = pre, postUpdateDBChecksum = post,
                  updateBuf = buf, updateMsg = None \<rparr>
      in if IsError st2 then (st2, None, u14)
      else if chk \<noteq> dbup_CalculateChecksum pod Z ret then (B_BAD_DATA, None, u14)
      else (GetStatus W u14, Some ret, u14))"

section \<open>Facts on the payload caches\<close>

text \<open>
  What the code relies on: deflating a Message always yields a non-empty buffer, and
  inflating it gives the Message back.
\<close>

definition zlib_lossless :: "'m zlib \<Rightarrow> bool" where
  "zlib_lossless Z \<longleftrightarrow> (\<forall>m. \<exists>b. DeflateMessage Z m = Some b \<and> b \<noteq> [] \<and>
     InflateMessage Z b = Some m)"

text \<open>An update whose two cached payload forms, where both are present, agree.\<close>

definition cacheConsistent :: "'m zlib \<Rightarrow> 'm PZGDatabaseUpdate \<Rightarrow> bool" where
  "cacheConsistent Z u \<longleftrightarrow>
     (\<forall>m b. updateMsg u = Some m \<longrightarrow> updateBuf u = Some b \<longrightarrow> InflateMessage Z b = Some m)"

lemma SetPayloadMessage_payload [simp]:
  "GetPayloadBufferAsMessage Z (SetPayloadMessage m u) = m"
  by (cases m) (simp_all add: GetPayloadBufferAsMessage_cached_def SetPayloadMessage_def)

lemma newUpdate_payload [simp]:
  "GetPayloadBufferAsMessage Z (GetPZGDatabaseUpdateFromPool ty idx uid src pre) = None"
  "GetPayloadBuffer Z (GetPZGDatabaseUpdateFromPool ty idx uid src pre) = None"
  by (simp_all add: GetPayloadBufferAsMessage_cached_def GetPayloadBuffer_cached_def
      GetPZGDatabaseUpdateFromPool_def newPZGDatabaseUpdate_def)

lemma GetPayloadBuffer_cached_consistent:
  "zlib_lossless Z \<Longrightarrow> cacheConsistent Z u \<Longrightarrow> cacheConsistent Z (snd (GetPayloadBuffer_cached Z u))"
  unfolding zlib_lossless_def cacheConsistent_def GetPayloadBuffer_cached_def
  by (auto split: option.splits) (metis option.inject)+

lemma GetPayloadBuffer_cached_Message:
  assumes "zlib_lossless Z"
  shows "GetPayloadBufferAsMessage Z (snd (GetPayloadBuffer_cached Z u)) = GetPayloadBufferAsMessage Z u"
  by (auto simp: GetPayloadBufferAsMessage_cached_def GetPayloadBuffer_cached_def split: option.splits)

lemma GetPayloadBufferAsMessage_cached_Buffer:
  "updateBuf u \<noteq> None \<or> updateMsg u \<noteq> None \<Longrightarrow>
   GetPayloadBuffer Z (snd (GetPayloadBufferAsMessage_cached Z u)) = GetPayloadBuffer Z u"
  by (auto simp: GetPayloadBufferAsMessage_cached_def GetPayloadBuffer_cached_def split: option.splits)

lemma Uncache_payload:
  "cacheConsistent Z u \<Longrightarrow>
   GetPayloadBufferAsMessage Z (UncachePayloadBufferAsMessage u) = GetPayloadBufferAsMessage Z u \<and>
   GetPayloadBuffer Z (UncachePayloadBufferAsMessage u) = GetPayloadBuffer Z u"
  by (auto simp: GetPayloadBufferAsMessage_cached_def GetPayloadBuffer_cached_def
      UncachePayloadBufferAsMessage_def cacheConsistent_def split: option.splits)

section \<open>Codec\<close>

text \<open>The object an update decodes to: the same fields, with the payload as its buffer.\<close>

definition onWire :: "'m zlib \<Rightarrow> 'm PZGDatabaseUpdate \<Rightarrow> 'm PZGDatabaseUpdate" where
  "onWire Z u = u \<lparr> updateBuf := GetPayloadBuffer Z u, updateMsg := None \<rparr>"

lemma onWire_fields [simp]:
  "updateType (onWire Z u) = updateType u" "databaseIndex (onWire Z u) = databaseIndex u"
  "updateID (onWire Z u) = updateID u" "sourcePeerID (onWire Z u) = sourcePeerID u"
  "preUpdateDBChecksum (onWire Z u) = preUpdateDBChecksum u"
  "postUpdateDBChecksum (onWire Z u) = postUpdateDBChecksum u"
  "seniorElapsedTimeMillis (onWire Z u) = seniorElapsedTimeMillis u"
  "seniorStartTimeMicros (onWire Z u) = seniorStartTimeMicros u"
  by (simp_all add: onWire_def)

lemma onWire_buffer [simp]: "GetPayloadBuffer Z (onWire Z u) = GetPayloadBuffer Z u"
  by (simp add: onWire_def GetPayloadBuffer_cached_def split: option.splits)

lemma onWire_checksum [simp]: "dbup_CalculateChecksum pod Z (onWire Z u) = dbup_CalculateChecksum pod Z u"
  by (simp add: dbup_CalculateChecksum_def)

lemma onWire_message:
  assumes "zlib_lossless Z" "cacheConsistent Z u"
  shows "GetPayloadBufferAsMessage Z (onWire Z u) = GetPayloadBufferAsMessage Z u"
proof (cases "updateMsg u")
  case None
  then show ?thesis
    by (auto simp: onWire_def GetPayloadBufferAsMessage_cached_def GetPayloadBuffer_cached_def
        split: option.splits)
next
  case (Some m)
  obtain b where b: "DeflateMessage Z m = Some b" "InflateMessage Z b = Some m"
    using assms(1) by (auto simp: zlib_lossless_def)
  show ?thesis
    using Some b assms(2)
    by (auto simp: onWire_def GetPayloadBufferAsMessage_cached_def GetPayloadBuffer_cached_def
        cacheConsistent_def split: option.splits)
qed

context wire_codec
begin

lemma dbup_size: "length (dbup_Flatten W pod Z u) = dbup_FlattenedSize Z u"
  by (simp add: dbup_Flatten_def dbup_FlattenedSize_def FlattenedSizeNotIncludingPayload_def
      peerID_size wire_sizes split: option.splits)

lemma dbup_roundtrip_wire:
  assumes "\<And>b. GetPayloadBuffer Z u = Some b \<Longrightarrow> b \<noteq> [] \<and> length b < 2 ^ 32"
  shows "dbup_Unflatten W pod Z (OpenUnflattener W (dbup_Flatten W pod Z u @ bs)) =
         (B_NO_ERROR, Some (onWire Z u), OpenUnflattener W bs)"
proof (cases "GetPayloadBuffer Z u")
  case None
  then have ow: "\<lparr> updateType = updateType u, databaseIndex = databaseIndex u,
      seniorElapsedTimeMillis = seniorElapsedTimeMillis u,
      seniorStartTimeMicros = seniorStartTimeMicros u, sourcePeerID = sourcePeerID u,
      updateID = updateID u, preUpdateDBChecksum = preUpdateDBChecksum u,
      postUpdateDBChecksum = postUpdateDBChecksum u, updateBuf = None, updateMsg = None \<rparr> = onWire Z u"
    by (simp add: onWire_def)
  show ?thesis
    using None
    by (simp add: dbup_Flatten_def dbup_Unflatten_def wire_reads peerID_roundtrip ow)
next
  case (Some b)
  then have ow: "\<lparr> updateType = updateType u, databaseIndex = databaseIndex u,
      seniorElapsedTimeMillis = seniorElapsedTimeMillis u,
      seniorStartTimeMicros = seniorStartTimeMicros u, sourcePeerID = sourcePeerID u,
      updateID = updateID u, preUpdateDBChecksum = preUpdateDBChecksum u,
      postUpdateDBChecksum = postUpdateDBChecksum u, updateBuf = Some b, updateMsg = None \<rparr> = onWire Z u"
    by (simp add: onWire_def)
  have len: "unat (of_nat (length b) :: u32) = length b"
    using assms [OF Some] by (simp add: unat_of_nat_small)
  then have pos: "(0 :: u32) < of_nat (length b)"
    using assms [OF Some] by (simp add: word_less_nat_alt)
  show ?thesis
    using Some
    by (simp add: dbup_Flatten_def dbup_Unflatten_def wire_reads peerID_roundtrip len pos ow)
qed


end

end
