(* ===== verification/ZG_DatabaseObject.thy ===== *)
theory ZG_DatabaseObject
  imports ZG_DatabaseUpdate
begin

text \<open>
  \<^verbatim>\<open>IDatabaseObject\<close>, the interface a replicated database implements, as a record of
  its virtual methods over the database's own state type; and the methods of
  \<^verbatim>\<open>ZGDatabasePeerSession\<close> through which a \<^verbatim>\<open>PZGDatabaseState\<close> drives its database
  object (\<open>None\<close> stands for the NULL that \<^verbatim>\<open>GetDatabaseObject\<close> returns for an index
  without an object).

  The locale \<open>replicated_database\<close> is the contract \<^verbatim>\<open>IDatabaseObject.h\<close> documents:
  equal states have equal checksums, the junior message of a successful senior update
  takes every equal copy to an equal state, a full archive does the same from any
  copy, and a refused update leaves the state as it was.
\<close>

section \<open>IDatabaseObject\<close>

record ('db, 'm) IDatabaseObject =
  SetToDefaultState :: "'db \<Rightarrow> 'db"
  SetFromArchive :: "'m \<Rightarrow> 'db \<Rightarrow> status_t \<times> 'db"
  SaveToArchive :: "'db \<Rightarrow> status_t + 'm"
  SeniorUpdate :: "'m \<Rightarrow> 'db \<Rightarrow> 'm option \<times> 'db"
  JuniorUpdate :: "'m \<Rightarrow> 'db \<Rightarrow> status_t \<times> 'db"
  GetCurrentChecksum :: "'db \<Rightarrow> u32"
  db_CalculateChecksum :: "'db \<Rightarrow> u32"

section \<open>The database plumbing of ZGDatabasePeerSession\<close>

definition ResetLocalDatabaseToDefault ::
  "('db, 'm) IDatabaseObject \<Rightarrow> 'db option \<Rightarrow> u32 \<Rightarrow> 'db option \<times> u32" where
  "ResetLocalDatabaseToDefault D db dbChecksum =
     (case db of
        Some d \<Rightarrow> let d' = SetToDefaultState D d in (Some d', GetCurrentChecksum D d')
      | None \<Rightarrow> (None, dbChecksum))"

definition SeniorUpdateLocalDatabase ::
  "('db, 'm) IDatabaseObject \<Rightarrow> 'm \<Rightarrow> 'db option \<Rightarrow> u32 \<Rightarrow> 'm option \<times> 'db option \<times> u32" where
  "SeniorUpdateLocalDatabase D seniorDoMsg db dbChecksum =
     (case db of
        Some d \<Rightarrow> let (ret, d') = SeniorUpdate D seniorDoMsg d in (ret, Some d', GetCurrentChecksum D d')
      | None \<Rightarrow> (None, None, dbChecksum))"

definition JuniorUpdateLocalDatabase ::
  "('db, 'm) IDatabaseObject \<Rightarrow> 'm \<Rightarrow> 'db option \<Rightarrow> u32 \<Rightarrow> status_t \<times> 'db option \<times> u32" where
  "JuniorUpdateLocalDatabase D juniorDoMsg db dbChecksum =
     (case db of
        Some d \<Rightarrow> let (ret, d') = JuniorUpdate D juniorDoMsg d in (ret, Some d', GetCurrentChecksum D d')
      | None \<Rightarrow> (B_BAD_ARGUMENT, None, dbChecksum))"

definition SaveLocalDatabaseToMessage ::
  "('db, 'm) IDatabaseObject \<Rightarrow> 'db option \<Rightarrow> status_t + 'm" where
  "SaveLocalDatabaseToMessage D db =
     (case db of Some d \<Rightarrow> SaveToArchive D d | None \<Rightarrow> Inl B_BAD_ARGUMENT)"

definition SetLocalDatabaseFromMessage ::
  "('db, 'm) IDatabaseObject \<Rightarrow> 'm \<Rightarrow> 'db option \<Rightarrow> u32 \<Rightarrow> status_t \<times> 'db option \<times> u32" where
  "SetLocalDatabaseFromMessage D newDBStateMsg db dbChecksum =
     (case db of
        Some d \<Rightarrow> let (ret, d') = SetFromArchive D newDBStateMsg d in (ret, Some d', GetCurrentChecksum D d')
      | None \<Rightarrow> (B_BAD_ARGUMENT, None, dbChecksum))"

definition CalculateLocalDatabaseChecksum :: "('db, 'm) IDatabaseObject \<Rightarrow> 'db option \<Rightarrow> u32" where
  "CalculateLocalDatabaseChecksum D db =
     (case db of Some d \<Rightarrow> db_CalculateChecksum D d | None \<Rightarrow> 0)"

lemmas session_db_defs =
  ResetLocalDatabaseToDefault_def SeniorUpdateLocalDatabase_def JuniorUpdateLocalDatabase_def
  SetLocalDatabaseFromMessage_def

section \<open>The contract\<close>

locale replicated_database =
  fixes D :: "('db, 'm) IDatabaseObject"
    and good :: "'db \<Rightarrow> bool"
    and same :: "'db \<Rightarrow> 'db \<Rightarrow> bool"
  assumes same_refl: "good d \<Longrightarrow> same d d"
    and same_trans: "same a b \<Longrightarrow> same b c \<Longrightarrow> same a c"
    and same_sym: "same a b \<Longrightarrow> same b a"
    and same_checksum: "good a \<Longrightarrow> good b \<Longrightarrow> same a b \<Longrightarrow> GetCurrentChecksum D a = GetCurrentChecksum D b"
    and running_checksum: "good d \<Longrightarrow> GetCurrentChecksum D d = db_CalculateChecksum D d"
    and good_reset: "good d \<Longrightarrow> good (SetToDefaultState D d)"
    and same_reset: "good a \<Longrightarrow> good b \<Longrightarrow> same (SetToDefaultState D a) (SetToDefaultState D b)"
    and good_senior: "good d \<Longrightarrow> SeniorUpdate D m d = (r, d') \<Longrightarrow> good d'"
    and senior_refused: "good d \<Longrightarrow> SeniorUpdate D m d = (None, d') \<Longrightarrow> same d d'"
    and junior_replay: "good d \<Longrightarrow> good t \<Longrightarrow> same d t \<Longrightarrow> SeniorUpdate D m d = (Some j, d') \<Longrightarrow>
      \<exists>t'. JuniorUpdate D j t = (B_NO_ERROR, t') \<and> good t' \<and> same d' t'"
    and good_archive: "good d \<Longrightarrow> SetFromArchive D m d = (st, d') \<Longrightarrow> good d'"
    and archive_refused: "good d \<Longrightarrow> SetFromArchive D m d = (st, d') \<Longrightarrow> IsError st \<Longrightarrow> same d d'"
    and archive_same: "good d \<Longrightarrow> good t \<Longrightarrow> SetFromArchive D m d = (B_NO_ERROR, d') \<Longrightarrow>
      \<exists>t'. SetFromArchive D m t = (B_NO_ERROR, t') \<and> good t' \<and> same d' t'"
    and archive_roundtrip: "good d \<Longrightarrow> good t \<Longrightarrow> SaveToArchive D d = Inr m \<Longrightarrow>
      \<exists>t'. SetFromArchive D m t = (B_NO_ERROR, t') \<and> good t' \<and> same d t'"

end
