(* ===== verification/ZG_DatabaseState.thy ===== *)
theory ZG_DatabaseState
  imports ZG_DatabaseObject
begin

text \<open>
  \<^verbatim>\<open>PZGDatabaseState\<close>: the replication state of one database on one peer.

  The record has the fields of the class, with two more for what the code reaches
  through \<open>_master\<close>: \<open>dbObject\<close>, the session's database object for this index, and
  \<open>effects\<close>, the calls made on the session so far, in order.  The update log is an
  \<^verbatim>\<open>OrderedKeysHashtable\<close> from update ID to update; the code only ever puts an update
  under its own ID, so it is the list of updates sorted by that ID.

  The record \<open>master\<close> holds what one call reads of its surroundings: the session's
  seniority and attachment, the database methods, the zlib functions, the two clock
  readings around a database update, and whether a network request succeeds (a
  function of everything sent before it, so it may change from call to call).
  Allocation failures, the log output and the nest counts (which only a re-entrant
  callback could see) are left out; the demand-filled payload caches of an update are
  not written back to the log (\<open>ZG_DatabaseUpdate\<close> shows they do not change what an
  accessor returns).
\<close>

section \<open>Data\<close>

datatype 'm effect =
    MulticastUpdate "'m PZGDatabaseUpdate" status_t
  | BackOrderRequested PZGUpdateBackOrderKey bool status_t
  | ScheduledSetBeaconData

record ('db, 'm) master =
  dbOps :: "('db, 'm) IDatabaseObject"
  zlibOps :: "'m zlib"
  IAmTheSeniorPeer :: bool
  IAmFullyAttached :: bool
  GetSeniorPeerID :: ZGPeerID
  GetLocalPeerID :: ZGPeerID
  toNetworkTimeOffset :: u64
  startRunTime :: u64
  endRunTime :: u64
  SendDatabaseUpdateViaMulticast :: "'m effect list \<Rightarrow> 'm PZGDatabaseUpdate \<Rightarrow> status_t"
  SendBackOrderRequest :: "'m effect list \<Rightarrow> PZGUpdateBackOrderKey \<Rightarrow> bool \<Rightarrow> status_t"

record ('db, 'm) PZGDatabaseState =
  whichDatabase :: u32
  updateLog :: "'m PZGDatabaseUpdate list"
  maxPayloadBytesInLog :: u64
  totalPayloadBytesInLog :: u64
  totalElapsedMillisInLog :: u64
  localDatabaseStateID :: u64
  seniorDatabaseStateID :: u64
  seniorOldestIDInLog :: u64
  seniorDatabaseStateReceived :: bool
  dbChecksum :: u32
  firstUnsentUpdateID :: u64
  rescanLogPending :: bool
  printDatabaseStatesComparisonOnNextReplace :: bool
  backorders :: "PZGUpdateBackOrderKey list"
  seniorUpdateTimeForJuniorUpdate :: u64
  dbObject :: "'db option"
  effects :: "'m effect list"

text \<open>The fields of an internal Message; \<open>databaseUpdate\<close> is the embedded update where it can be decoded.\<close>

record 'm peer_message =
  what :: u32
  userMessage :: "'m option"
  databaseID :: u32
  databaseUpdate :: "'m PZGDatabaseUpdate option"
  messageText :: "string option"

definition PZG_PEER_COMMAND_RESET_SENIOR_DATABASE :: u32 where
  "PZG_PEER_COMMAND_RESET_SENIOR_DATABASE = 2053336420"
definition PZG_PEER_COMMAND_REPLACE_SENIOR_DATABASE :: u32 where
  "PZG_PEER_COMMAND_REPLACE_SENIOR_DATABASE = 2053336421"
definition PZG_PEER_COMMAND_UPDATE_SENIOR_DATABASE :: u32 where
  "PZG_PEER_COMMAND_UPDATE_SENIOR_DATABASE = 2053336422"
definition PZG_PEER_COMMAND_UPDATE_JUNIOR_DATABASE :: u32 where
  "PZG_PEER_COMMAND_UPDATE_JUNIOR_DATABASE = 2053336423"
definition PZG_PEER_COMMAND_USER_MESSAGE :: u32 where
  "PZG_PEER_COMMAND_USER_MESSAGE = 2053336424"
definition PZG_PEER_COMMAND_USER_TEXT_MESSAGE :: u32 where
  "PZG_PEER_COMMAND_USER_TEXT_MESSAGE = 2053336425"

lemmas peer_command_defs =
  PZG_PEER_COMMAND_RESET_SENIOR_DATABASE_def PZG_PEER_COMMAND_REPLACE_SENIOR_DATABASE_def
  PZG_PEER_COMMAND_UPDATE_SENIOR_DATABASE_def PZG_PEER_COMMAND_UPDATE_JUNIOR_DATABASE_def
  PZG_PEER_COMMAND_USER_MESSAGE_def PZG_PEER_COMMAND_USER_TEXT_MESSAGE_def

text \<open>The constructor, \<open>SetParameters\<close> included.\<close>

definition newPZGDatabaseState :: "u32 \<Rightarrow> u64 \<Rightarrow> 'db option \<Rightarrow> ('db, 'm) PZGDatabaseState" where
  "newPZGDatabaseState which maxBytes db = \<lparr>
     whichDatabase = which, updateLog = [], maxPayloadBytesInLog = maxBytes,
     totalPayloadBytesInLog = 0, totalElapsedMillisInLog = 0,
     localDatabaseStateID = 0, seniorDatabaseStateID = 0, seniorOldestIDInLog = - 1,
     seniorDatabaseStateReceived = False, dbChecksum = 0, firstUnsentUpdateID = 0,
     rescanLogPending = False, printDatabaseStatesComparisonOnNextReplace = False,
     backorders = [], seniorUpdateTimeForJuniorUpdate = 0, dbObject = db, effects = [] \<rparr>"

section \<open>The update log\<close>

abbreviation logGet :: "u64 \<Rightarrow> 'm PZGDatabaseUpdate list \<Rightarrow> 'm PZGDatabaseUpdate option" where
  "logGet \<equiv> tabGet updateID"

definition GetNetworkTime64ForRunTime64 :: "u64 \<Rightarrow> u64 \<Rightarrow> u64" where
  "GetNetworkTime64ForRunTime64 ntto runTime64TimeStamp =
     (if ntto = INVALID_TIME_OFFSET \<or> runTime64TimeStamp = MUSCLE_TIME_NEVER
      then MUSCLE_TIME_NEVER else runTime64TimeStamp + ntto)"

definition GetRunTime64ForNetworkTime64 :: "u64 \<Rightarrow> u64 \<Rightarrow> u64" where
  "GetRunTime64ForNetworkTime64 ntto networkTime64TimeStamp =
     (if ntto = INVALID_TIME_OFFSET \<or> networkTime64TimeStamp = MUSCLE_TIME_NEVER
      then MUSCLE_TIME_NEVER else networkTime64TimeStamp - ntto)"

definition ScheduleLogContentsRescan ::
  "('db, 'm) master \<Rightarrow> ('db, 'm) PZGDatabaseState \<Rightarrow> ('db, 'm) PZGDatabaseState" where
  "ScheduleLogContentsRescan e s =
     (if \<not> rescanLogPending s \<and> IAmFullyAttached e then s \<lparr> rescanLogPending := True \<rparr> else s)"

definition AddDatabaseUpdateToUpdateLog ::
  "('db, 'm) master \<Rightarrow> 'm PZGDatabaseUpdate option \<Rightarrow> ('db, 'm) PZGDatabaseState \<Rightarrow>
   status_t \<times> ('db, 'm) PZGDatabaseState" where
  "AddDatabaseUpdateToUpdateLog e optUp s =
     (case optUp of
        None \<Rightarrow> (B_BAD_ARGUMENT, s)
      | Some dbUp \<Rightarrow>
          let logWasEmpty = (updateLog s = []);
              s1 = s \<lparr> updateLog := ordPut updateID dbUp (updateLog s),
                       totalPayloadBytesInLog := totalPayloadBytesInLog s + payloadBytes (zlibOps e) dbUp,
                       totalElapsedMillisInLog := totalElapsedMillisInLog s + ucast (seniorElapsedTimeMillis dbUp) \<rparr>;
              s2 = (if logWasEmpty \<and> IAmTheSeniorPeer e then s1 \<lparr> seniorOldestIDInLog := updateID dbUp \<rparr> else s1)
          in (B_NO_ERROR, ScheduleLogContentsRescan e s2))"

definition RemoveDatabaseUpdateFromUpdateLog ::
  "('db, 'm) master \<Rightarrow> 'm PZGDatabaseUpdate \<Rightarrow> ('db, 'm) PZGDatabaseState \<Rightarrow> ('db, 'm) PZGDatabaseState" where
  "RemoveDatabaseUpdateFromUpdateLog e dbUp s =
     (case logGet (updateID dbUp) (updateLog s) of
        None \<Rightarrow> s
      | Some temp \<Rightarrow>
          let s1 = s \<lparr> updateLog := tabRemove updateID (updateID dbUp) (updateLog s),
                       totalPayloadBytesInLog := totalPayloadBytesInLog s - payloadBytes (zlibOps e) temp,
                       totalElapsedMillisInLog := totalElapsedMillisInLog s - ucast (seniorElapsedTimeMillis temp) \<rparr>
          in if updateLog s1 = [] \<and> IAmTheSeniorPeer e then s1 \<lparr> seniorOldestIDInLog := - 1 \<rparr> else s1)"

definition ClearUpdateLog :: "('db, 'm) PZGDatabaseState \<Rightarrow> ('db, 'm) PZGDatabaseState" where
  "ClearUpdateLog s = s \<lparr> updateLog := [], totalPayloadBytesInLog := 0, totalElapsedMillisInLog := 0 \<rparr>"

section \<open>Senior updates\<close>

text \<open>
  \<open>dbUp\<close> is the object the caller has just put into the log, so the writes to it are
  writes to that log entry.  The pointer comparison of the two payload Messages comes
  out as \<open>both NULL\<close>: the object's own Message is either absent or a different object.
\<close>

definition SeniorUpdateCompleted ::
  "('db, 'm) master \<Rightarrow> 'm PZGDatabaseUpdate \<Rightarrow> 'm option \<Rightarrow> ('db, 'm) PZGDatabaseState \<Rightarrow> ('db, 'm) PZGDatabaseState" where
  "SeniorUpdateCompleted e dbUp payloadMsg s =
     (let Z = zlibOps e;
          up1 = SetSeniorElapsedTimeMicros (endRunTime e - startRunTime e)
                  (dbUp \<lparr> seniorStartTimeMicros := GetNetworkTime64ForRunTime64 (toNetworkTimeOffset e) (startRunTime e) \<rparr>);
          up2 = up1 \<lparr> postUpdateDBChecksum := dbChecksum s \<rparr>;
          samePayload = (payloadMsg = None \<and> GetPayloadBufferAsMessage Z up2 = None);
          up3 = (if samePayload then up2 else SetPayloadMessage payloadMsg up2);
          bytes' = (if samePayload then totalPayloadBytesInLog s
                    else totalPayloadBytesInLog s - payloadBytes Z up2 + payloadBytes Z up3)
      in s \<lparr> totalElapsedMillisInLog := totalElapsedMillisInLog s - ucast (seniorElapsedTimeMillis dbUp)
                                        + ucast (seniorElapsedTimeMillis up1),
             totalPayloadBytesInLog := bytes',
             updateLog := map (\<lambda>u. if updateID u = updateID dbUp then up3 else u) (updateLog s),
             localDatabaseStateID := localDatabaseStateID s + 1,
             seniorDatabaseStateID := localDatabaseStateID s + 1,
             effects := effects s @ [ScheduledSetBeaconData] \<rparr>)"

definition ResetLocalDatabaseToDefaultState ::
  "('db, 'm) master \<Rightarrow> ('db, 'm) PZGDatabaseState \<Rightarrow> ('db, 'm) PZGDatabaseState" where
  "ResetLocalDatabaseToDefaultState e s =
     (let (db, chk) = ResetLocalDatabaseToDefault (dbOps e) (dbObject s) (dbChecksum s)
      in s \<lparr> dbObject := db, dbChecksum := chk \<rparr>)"

definition newUpdateFor ::
  "('db, 'm) PZGDatabaseState \<Rightarrow> u8 \<Rightarrow> ZGPeerID \<Rightarrow> 'm PZGDatabaseUpdate" where
  "newUpdateFor s ty fromPeerID =
     GetPZGDatabaseUpdateFromPool ty (ucast (whichDatabase s)) (localDatabaseStateID s + 1) fromPeerID (dbChecksum s)"

definition HandleResetSenior ::
  "('db, 'm) master \<Rightarrow> ZGPeerID \<Rightarrow> ('db, 'm) PZGDatabaseState \<Rightarrow> status_t \<times> ('db, 'm) PZGDatabaseState" where
  "HandleResetSenior e fromPeerID s =
     (let dbUp = newUpdateFor s 1 fromPeerID;
          (st, s1) = AddDatabaseUpdateToUpdateLog e (Some dbUp) s
      in if IsError st then (st, s1)
         else let (db, chk) = ResetLocalDatabaseToDefault (dbOps e) (dbObject s1) (dbChecksum s1);
                  s2 = s1 \<lparr> dbObject := db, dbChecksum := chk \<rparr>
              in (B_NO_ERROR, SeniorUpdateCompleted e dbUp None s2))"

definition HandleReplaceSenior ::
  "('db, 'm) master \<Rightarrow> ZGPeerID \<Rightarrow> 'm option \<Rightarrow> ('db, 'm) PZGDatabaseState \<Rightarrow> status_t \<times> ('db, 'm) PZGDatabaseState" where
  "HandleReplaceSenior e fromPeerID optMsg s =
     (case optMsg of
        None \<Rightarrow> (B_BAD_DATA, s)
      | Some userDBStateMsg \<Rightarrow>
          let dbUp = newUpdateFor s 2 fromPeerID;
              (st, s1) = AddDatabaseUpdateToUpdateLog e (Some dbUp) s
          in if IsError st then (st, s1)
             else let (ret, db, chk) = SetLocalDatabaseFromMessage (dbOps e) userDBStateMsg (dbObject s1) (dbChecksum s1);
                      s2 = s1 \<lparr> dbObject := db, dbChecksum := chk \<rparr>
                  in (ret, if IsOK ret then SeniorUpdateCompleted e dbUp (Some userDBStateMsg) s2
                           else RemoveDatabaseUpdateFromUpdateLog e dbUp s2))"

definition HandleUpdateSenior ::
  "('db, 'm) master \<Rightarrow> ZGPeerID \<Rightarrow> 'm option \<Rightarrow> ('db, 'm) PZGDatabaseState \<Rightarrow> status_t \<times> ('db, 'm) PZGDatabaseState" where
  "HandleUpdateSenior e fromPeerID optMsg s =
     (case optMsg of
        None \<Rightarrow> (B_BAD_DATA, s)
      | Some userDBUpdateMsg \<Rightarrow>
          let dbUp = newUpdateFor s 3 fromPeerID;
              (st, s1) = AddDatabaseUpdateToUpdateLog e (Some dbUp) s
          in if IsError st then (st, s1)
             else let (juniorMsg, db, chk) = SeniorUpdateLocalDatabase (dbOps e) userDBUpdateMsg (dbObject s1) (dbChecksum s1);
                      s2 = s1 \<lparr> dbObject := db, dbChecksum := chk \<rparr>
                  in (case juniorMsg of
                        Some jm \<Rightarrow> (B_NO_ERROR, SeniorUpdateCompleted e dbUp (Some jm) s2)
                      | None \<Rightarrow> (B_LOGIC_ERROR, RemoveDatabaseUpdateFromUpdateLog e dbUp s2)))"

definition HandleDatabaseUpdateRequest ::
  "('db, 'm) master \<Rightarrow> ZGPeerID \<Rightarrow> 'm peer_message \<Rightarrow> 'm PZGDatabaseUpdate option \<Rightarrow>
   ('db, 'm) PZGDatabaseState \<Rightarrow> status_t \<times> ('db, 'm) PZGDatabaseState" where
  "HandleDatabaseUpdateRequest e fromPeerID msg optDBUp s =
     (if what msg = PZG_PEER_COMMAND_RESET_SENIOR_DATABASE then HandleResetSenior e fromPeerID s
      else if what msg = PZG_PEER_COMMAND_REPLACE_SENIOR_DATABASE then HandleReplaceSenior e fromPeerID (userMessage msg) s
      else if what msg = PZG_PEER_COMMAND_UPDATE_SENIOR_DATABASE then HandleUpdateSenior e fromPeerID (userMessage msg) s
      else if what msg = PZG_PEER_COMMAND_UPDATE_JUNIOR_DATABASE then
        (case optDBUp of Some _ \<Rightarrow> AddDatabaseUpdateToUpdateLog e optDBUp s | None \<Rightarrow> (B_UNIMPLEMENTED, s))
      else (B_UNIMPLEMENTED, s))"

section \<open>Back-orders\<close>

definition RequestBackOrderFromSeniorPeer ::
  "('db, 'm) master \<Rightarrow> PZGUpdateBackOrderKey \<Rightarrow> bool \<Rightarrow> ('db, 'm) PZGDatabaseState \<Rightarrow>
   status_t \<times> ('db, 'm) PZGDatabaseState" where
  "RequestBackOrderFromSeniorPeer e ubok dueToChecksumError s =
     (if ubok \<in> set (backorders s) then (B_NO_ERROR, s)
      else let st = SendBackOrderRequest e (effects s) ubok dueToChecksumError;
               s1 = s \<lparr> effects := effects s @ [BackOrderRequested ubok dueToChecksumError st] \<rparr>
           in if IsOK st then (B_NO_ERROR, s1 \<lparr> backorders := backorders s @ [ubok] \<rparr>)
              else (st, s1))"

definition fullUpdateKey :: "('db, 'm) master \<Rightarrow> ('db, 'm) PZGDatabaseState \<Rightarrow> PZGUpdateBackOrderKey" where
  "fullUpdateKey e s = PZGUpdateBackOrderKey (GetSeniorPeerID e) (whichDatabase s) DATABASE_UPDATE_ID_FULL_UPDATE"

definition RequestFullDatabaseResendFromSeniorPeer ::
  "('db, 'm) master \<Rightarrow> bool \<Rightarrow> ('db, 'm) PZGDatabaseState \<Rightarrow> status_t \<times> ('db, 'm) PZGDatabaseState" where
  "RequestFullDatabaseResendFromSeniorPeer e dueToChecksumError s =
     RequestBackOrderFromSeniorPeer e (fullUpdateKey e s) dueToChecksumError s"

definition IsAwaitingFullDatabaseResendReply :: "('db, 'm) master \<Rightarrow> ('db, 'm) PZGDatabaseState \<Rightarrow> bool" where
  "IsAwaitingFullDatabaseResendReply e s \<longleftrightarrow> fullUpdateKey e s \<in> set (backorders s)"

section \<open>Junior updates\<close>

definition JuniorExecuteDatabaseUpdateAux ::
  "('db, 'm) master \<Rightarrow> 'm PZGDatabaseUpdate \<Rightarrow> ('db, 'm) PZGDatabaseState \<Rightarrow> status_t \<times> ('db, 'm) PZGDatabaseState" where
  "JuniorExecuteDatabaseUpdateAux e dbUp s0 =
     (let s = s0 \<lparr> seniorUpdateTimeForJuniorUpdate := seniorStartTimeMicros dbUp \<rparr> in
      case update_type_of (updateType dbUp) of
        PZG_DATABASE_UPDATE_TYPE_NOOP \<Rightarrow> (B_NO_ERROR, s)
      | PZG_DATABASE_UPDATE_TYPE_RESET \<Rightarrow>
          let (db, chk) = ResetLocalDatabaseToDefault (dbOps e) (dbObject s) (dbChecksum s)
          in (B_NO_ERROR, s \<lparr> dbObject := db, dbChecksum := chk \<rparr>)
      | PZG_DATABASE_UPDATE_TYPE_REPLACE \<Rightarrow>
          (case GetPayloadBufferAsMessage (zlibOps e) dbUp of
             None \<Rightarrow> (B_BAD_OBJECT, s)
           | Some m \<Rightarrow> let (ret, db, chk) = SetLocalDatabaseFromMessage (dbOps e) m (dbObject s) (dbChecksum s)
                       in (ret, s \<lparr> dbObject := db, dbChecksum := chk \<rparr>))
      | PZG_DATABASE_UPDATE_TYPE_UPDATE \<Rightarrow>
          (case GetPayloadBufferAsMessage (zlibOps e) dbUp of
             None \<Rightarrow> (B_BAD_OBJECT, s)
           | Some m \<Rightarrow> let (ret, db, chk) = JuniorUpdateLocalDatabase (dbOps e) m (dbObject s) (dbChecksum s)
                       in (ret, s \<lparr> dbObject := db, dbChecksum := chk \<rparr>))
      | PZG_DATABASE_UPDATE_TYPE_UNKNOWN _ \<Rightarrow> (B_UNIMPLEMENTED, s))"

definition JuniorExecuteDatabaseUpdate ::
  "('db, 'm) master \<Rightarrow> 'm PZGDatabaseUpdate \<Rightarrow> ('db, 'm) PZGDatabaseState \<Rightarrow> status_t \<times> ('db, 'm) PZGDatabaseState" where
  "JuniorExecuteDatabaseUpdate e dbUp s =
     (if localDatabaseStateID s + 1 \<noteq> updateID dbUp then (B_BAD_OBJECT, s)
      else if dbChecksum s \<noteq> preUpdateDBChecksum dbUp then (B_BAD_OBJECT, s)
      else let (ret, s1) = JuniorExecuteDatabaseUpdateAux e dbUp s
           in if IsError ret then (ret, s1)
              else if dbChecksum s1 \<noteq> postUpdateDBChecksum dbUp
                then (B_BAD_OBJECT, s1 \<lparr> printDatabaseStatesComparisonOnNextReplace := True \<rparr>)
              else (B_NO_ERROR, s1 \<lparr> localDatabaseStateID := updateID dbUp \<rparr>))"

definition JuniorExecuteDatabaseReplace ::
  "('db, 'm) master \<Rightarrow> 'm PZGDatabaseUpdate \<Rightarrow> ('db, 'm) PZGDatabaseState \<Rightarrow> status_t \<times> ('db, 'm) PZGDatabaseState" where
  "JuniorExecuteDatabaseReplace e dbUp s =
     (let (ret, s1) = JuniorExecuteDatabaseUpdateAux e dbUp (s \<lparr> printDatabaseStatesComparisonOnNextReplace := False \<rparr>)
      in if IsError ret then (ret, s1)
         else if dbChecksum s1 \<noteq> postUpdateDBChecksum dbUp then (B_BAD_OBJECT, s1)
         else (B_NO_ERROR, s1 \<lparr> localDatabaseStateID := updateID dbUp \<rparr>))"

section \<open>Rescanning the update log\<close>

definition GetTargetDatabaseStateID :: "('db, 'm) PZGDatabaseState \<Rightarrow> u64" where
  "GetTargetDatabaseStateID s =
     max (if updateLog s = [] then 0 else updateID (last (updateLog s))) (seniorDatabaseStateID s)"

definition IsDatabaseUpdateStillNeededToAdvanceJuniorPeerState ::
  "('db, 'm) master \<Rightarrow> u64 \<Rightarrow> ('db, 'm) PZGDatabaseState \<Rightarrow> bool" where
  "IsDatabaseUpdateStillNeededToAdvanceJuniorPeerState e databaseUpdateID s =
     (if databaseUpdateID \<le> localDatabaseStateID s then False
      else if databaseUpdateID > GetTargetDatabaseStateID s then False
      else if IsAwaitingFullDatabaseResendReply e s then False
      else True)"

text \<open>One attempt to multicast the update the iterator points at.\<close>

definition multicastIfUnsent ::
  "('db, 'm) master \<Rightarrow> 'm PZGDatabaseUpdate \<Rightarrow> ('db, 'm) PZGDatabaseState \<Rightarrow> ('db, 'm) PZGDatabaseState" where
  "multicastIfUnsent e u s =
     (if updateID u \<ge> firstUnsentUpdateID s
      then let st = SendDatabaseUpdateViaMulticast e (effects s) u;
               s1 = s \<lparr> effects := effects s @ [MulticastUpdate u st] \<rparr>
           in if IsOK st then s1 \<lparr> firstUnsentUpdateID := updateID u + 1 \<rparr> else s1
      else s)"

text \<open>
  The senior's iteration: \<open>i\<close> is the iterator's position in the log and \<open>back\<close> its
  direction; it turns round at the first update already sent, or at the oldest one.
\<close>

function seniorScan ::
  "('db, 'm) master \<Rightarrow> 'm PZGDatabaseUpdate list \<Rightarrow> u64 \<Rightarrow> nat \<Rightarrow> bool \<Rightarrow>
   ('db, 'm) PZGDatabaseState \<Rightarrow> ('db, 'm) PZGDatabaseState" where
  "seniorScan e log oldestUpdateID i back s =
     (if i < length log then
        let u = log ! i;
            back' = (back \<and> \<not> (updateID u \<le> firstUnsentUpdateID s \<or> updateID u = oldestUpdateID));
            s' = (if back' then s else multicastIfUnsent e u s)
        in if back' then (if i = 0 then s' else seniorScan e log oldestUpdateID (i - 1) True s')
           else seniorScan e log oldestUpdateID (i + 1) False s'
      else s)"
  by pat_completeness auto

termination seniorScan
  by (relation "measure (\<lambda>(e, log, oldest, i, back, s). if back then length log + i + 1 else length log - i)") auto

function trimSeniorLog ::
  "('db, 'm) master \<Rightarrow> ('db, 'm) PZGDatabaseState \<Rightarrow> ('db, 'm) PZGDatabaseState" where
  "trimSeniorLog e s =
     (if totalPayloadBytesInLog s > maxPayloadBytesInLog s \<and> length (updateLog s) > 1
      then trimSeniorLog e (RemoveDatabaseUpdateFromUpdateLog e (hd (updateLog s)) s)
      else s)"
  by pat_completeness auto

function trimJuniorLog ::
  "('db, 'm) master \<Rightarrow> ('db, 'm) PZGDatabaseState \<Rightarrow> ('db, 'm) PZGDatabaseState" where
  "trimJuniorLog e s =
     (if totalPayloadBytesInLog s > maxPayloadBytesInLog s \<and> length (updateLog s) > 1 \<and>
         \<not> IsDatabaseUpdateStillNeededToAdvanceJuniorPeerState e (updateID (hd (updateLog s))) s
      then trimJuniorLog e (RemoveDatabaseUpdateFromUpdateLog e (hd (updateLog s)) s)
      else s)"
  by pat_completeness auto

lemma Remove_hd_shrinks:
  "updateLog s \<noteq> [] \<Longrightarrow>
   length (updateLog (RemoveDatabaseUpdateFromUpdateLog e (hd (updateLog s)) s)) < length (updateLog s)"
  by (cases "updateLog s")
    (auto simp: RemoveDatabaseUpdateFromUpdateLog_def Let_def length_tabRemove_hd)

termination trimSeniorLog
  by (relation "measure (\<lambda>(e, s). length (updateLog s))") (auto intro!: Remove_hd_shrinks)

termination trimJuniorLog
  by (relation "measure (\<lambda>(e, s). length (updateLog s))") (auto intro!: Remove_hd_shrinks)

text \<open>
  The loop that back-orders every missing update up to the target.  Its \<open>uint64\<close>
  counter wraps, so with the largest possible target the C++ loop has no end;
  \<open>None\<close> stands for not returning.
\<close>

partial_function (option) backOrderLoop ::
  "('db, 'm) master \<Rightarrow> u64 \<Rightarrow> u64 \<Rightarrow> ('db, 'm) PZGDatabaseState \<Rightarrow> ('db, 'm) PZGDatabaseState option" where
  "backOrderLoop e target uid s =
     (if uid \<le> target then
        (if tabHas updateID uid (updateLog s) then backOrderLoop e target (uid + 1) s
         else
          (let ubok = PZGUpdateBackOrderKey (GetSeniorPeerID e) (whichDatabase s) uid in
           if ubok \<in> set (backorders s) then backOrderLoop e target (uid + 1) s
           else
            (let r = RequestBackOrderFromSeniorPeer e ubok False s in
             if IsOK (fst r) then backOrderLoop e target (uid + 1) (snd r)
             else Some (snd (RequestFullDatabaseResendFromSeniorPeer e False (snd r))))))
      else Some s)"

declare backOrderLoop.simps [code]

function juniorAdvance ::
  "('db, 'm) master \<Rightarrow> u64 \<Rightarrow> ('db, 'm) PZGDatabaseState \<Rightarrow> ('db, 'm) PZGDatabaseState option" where
  "juniorAdvance e target s =
     (if localDatabaseStateID s < target then
        (let nextStateID = localDatabaseStateID s + 1 in
         case logGet nextStateID (updateLog s) of
           Some dbUp \<Rightarrow>
             (let r = JuniorExecuteDatabaseUpdate e dbUp s in
              if IsOK (fst r) then juniorAdvance e target (snd r)
              else Some (snd (RequestFullDatabaseResendFromSeniorPeer e True (snd r))))
         | None \<Rightarrow>
             if IsValid (GetSeniorPeerID e) then
               (if nextStateID < seniorOldestIDInLog s
                then Some (snd (RequestFullDatabaseResendFromSeniorPeer e False s))
                else backOrderLoop e target nextStateID s)
             else Some s)
      else Some s)"
  by pat_completeness auto

lemma JuniorExecute_advances:
  "fst (JuniorExecuteDatabaseUpdate e dbUp s) = B_NO_ERROR \<Longrightarrow>
   localDatabaseStateID (snd (JuniorExecuteDatabaseUpdate e dbUp s)) = localDatabaseStateID s + 1"
  by (auto simp: JuniorExecuteDatabaseUpdate_def Let_def split: prod.splits if_splits)

termination juniorAdvance
proof (relation "measure (\<lambda>(e, target, s). unat target - unat (localDatabaseStateID s))")
  show "wf (measure (\<lambda>(e, target, s). unat target - unat (localDatabaseStateID s)))"
    by simp
next
  fix e :: "('a, 'b) master" and target :: u64 and s :: "('a, 'b) PZGDatabaseState"
    and nextStateID dbUp r
  assume "localDatabaseStateID s < target" "nextStateID = localDatabaseStateID s + 1"
    "r = JuniorExecuteDatabaseUpdate e dbUp s" "IsOK (fst r)"
  then show "((e, target, snd r), (e, target, s)) \<in> measure (\<lambda>(e, target, s). unat target - unat (localDatabaseStateID s))"
    by (simp add: JuniorExecute_advances unat_Suc_less word_less_nat_alt diff_less_mono2)
qed

declare seniorScan.simps [simp del] trimSeniorLog.simps [simp del] trimJuniorLog.simps [simp del]
  juniorAdvance.simps [simp del]

definition RescanUpdateLog ::
  "('db, 'm) master \<Rightarrow> ('db, 'm) PZGDatabaseState \<Rightarrow> ('db, 'm) PZGDatabaseState option" where
  "RescanUpdateLog e s =
     (if IAmTheSeniorPeer e then
        (if updateLog s \<noteq> []
         then Some (trimSeniorLog e
                (seniorScan e (updateLog s) (updateID (hd (updateLog s))) (length (updateLog s) - 1) True s))
         else Some s)
      else if seniorDatabaseStateReceived s then
        (let s1 = s \<lparr> firstUnsentUpdateID := localDatabaseStateID s + 1 \<rparr>;
             r = (if \<not> IsAwaitingFullDatabaseResendReply e s1 then
                    let target = GetTargetDatabaseStateID s1 in
                    if localDatabaseStateID s1 = 0 \<and> target > 1
                    then Some (snd (RequestFullDatabaseResendFromSeniorPeer e False s1))
                    else juniorAdvance e target s1
                  else Some s1)
         in map_option (trimJuniorLog e) r)
      else Some s)"

definition RescanUpdateLogIfNecessary ::
  "('db, 'm) master \<Rightarrow> ('db, 'm) PZGDatabaseState \<Rightarrow> ('db, 'm) PZGDatabaseState option" where
  "RescanUpdateLogIfNecessary e s =
     (if rescanLogPending s then RescanUpdateLog e (s \<lparr> rescanLogPending := False \<rparr>) else Some s)"

section \<open>Beacons, back-order replies and queries\<close>

record PZGDatabaseStateInfo =
  currentDatabaseStateID :: u64
  oldestDatabaseIDInLog :: u64
  info_dbChecksum :: u32

definition GetDatabaseStateInfo :: "('db, 'm) PZGDatabaseState \<Rightarrow> PZGDatabaseStateInfo" where
  "GetDatabaseStateInfo s =
     \<lparr> currentDatabaseStateID = localDatabaseStateID s,
       oldestDatabaseIDInLog = (if updateLog s = [] then - 1 else updateID (hd (updateLog s))),
       info_dbChecksum = dbChecksum s \<rparr>"

definition SeniorDatabaseStateInfoChanged ::
  "('db, 'm) master \<Rightarrow> PZGDatabaseStateInfo \<Rightarrow> ('db, 'm) PZGDatabaseState \<Rightarrow> ('db, 'm) PZGDatabaseState" where
  "SeniorDatabaseStateInfoChanged e info s =
     (if currentDatabaseStateID info \<noteq> seniorDatabaseStateID s \<or> oldestDatabaseIDInLog info \<noteq> seniorOldestIDInLog s
      then ScheduleLogContentsRescan e
             (s \<lparr> seniorDatabaseStateReceived := True,
                  seniorDatabaseStateID := currentDatabaseStateID info,
                  seniorOldestIDInLog := oldestDatabaseIDInLog info \<rparr>)
      else s)"

definition BackOrderResultReceived ::
  "('db, 'm) master \<Rightarrow> PZGUpdateBackOrderKey \<Rightarrow> 'm PZGDatabaseUpdate option \<Rightarrow>
   ('db, 'm) PZGDatabaseState \<Rightarrow> ('db, 'm) PZGDatabaseState" where
  "BackOrderResultReceived e ubok optUpdateData s =
     (let removed = (ubok \<in> set (backorders s));
          s1 = s \<lparr> backorders := filter (\<lambda>k. k \<noteq> ubok) (backorders s) \<rparr>
      in if removed \<and> GetTargetPeerID ubok = GetSeniorPeerID e \<and> \<not> IAmTheSeniorPeer e then
           (if GetDatabaseUpdateID ubok = DATABASE_UPDATE_ID_FULL_UPDATE then
              (case optUpdateData of
                 Some dbUp \<Rightarrow> let (ret, s2) = JuniorExecuteDatabaseReplace e dbUp s1
                              in if IsOK ret then ScheduleLogContentsRescan e s2 else s2
               | None \<Rightarrow> s1)
            else
              (let (ret, s2) = (case optUpdateData of
                                  Some _ \<Rightarrow> AddDatabaseUpdateToUpdateLog e optUpdateData s1
                                | None \<Rightarrow> (B_BAD_ARGUMENT, s1))
               in if IsOK ret then ScheduleLogContentsRescan e s2
                  else snd (RequestFullDatabaseResendFromSeniorPeer e False s2)))
         else s1)"

definition VerifyOrFixLocalDatabaseChecksum ::
  "('db, 'm) master \<Rightarrow> ('db, 'm) PZGDatabaseState \<Rightarrow> ('db, 'm) PZGDatabaseState" where
  "VerifyOrFixLocalDatabaseChecksum e s =
     (let recalculatedChecksum = CalculateLocalDatabaseChecksum (dbOps e) (dbObject s)
      in if recalculatedChecksum \<noteq> dbChecksum s then s \<lparr> dbChecksum := recalculatedChecksum \<rparr> else s)"

definition GetDatabaseUpdateByID ::
  "('db, 'm) master \<Rightarrow> u64 \<Rightarrow> ('db, 'm) PZGDatabaseState \<Rightarrow> 'm PZGDatabaseUpdate option" where
  "GetDatabaseUpdateByID e uid s =
     (if uid = DATABASE_UPDATE_ID_FULL_UPDATE then
        (case SaveLocalDatabaseToMessage (dbOps e) (dbObject s) of
           Inr savedDBMsg \<Rightarrow>
             Some (SetPayloadMessage (Some savedDBMsg)
               ((SetSeniorElapsedTimeMicros (endRunTime e - startRunTime e)
                  ((GetPZGDatabaseUpdateFromPool 2 (ucast (whichDatabase s)) (localDatabaseStateID s)
                      (GetLocalPeerID e) (dbChecksum s))
                   \<lparr> seniorStartTimeMicros := GetNetworkTime64ForRunTime64 (toNetworkTimeOffset e) (startRunTime e) \<rparr>))
                \<lparr> postUpdateDBChecksum := dbChecksum s \<rparr>))
         | Inl _ \<Rightarrow> None)
      else logGet uid (updateLog s))"

definition GetDatabaseUpdatePayloadByID ::
  "('db, 'm) master \<Rightarrow> u64 \<Rightarrow> ('db, 'm) PZGDatabaseState \<Rightarrow> 'm option" where
  "GetDatabaseUpdatePayloadByID e uid s =
     (case logGet uid (updateLog s) of
        Some u \<Rightarrow> GetPayloadBufferAsMessage (zlibOps e) u
      | None \<Rightarrow> None)"

end
