(* ===== verification/ZG_UpdateLog.thy ===== *)
theory ZG_UpdateLog
  imports ZG_DatabaseState
begin

text \<open>
  The update log of a \<^verbatim>\<open>PZGDatabaseState\<close>: its order and its running tallies, the
  senior's scan that multicasts unsent updates, the two trimming loops, and the loop
  that places back-orders.
\<close>

section \<open>Order and tallies\<close>

definition logBytes :: "'m zlib \<Rightarrow> 'm PZGDatabaseUpdate list \<Rightarrow> u64" where
  "logBytes Z us = sum_list (map (payloadBytes Z) us)"

definition logMillis :: "'m PZGDatabaseUpdate list \<Rightarrow> u64" where
  "logMillis us = sum_list (map (\<lambda>u. ucast (seniorElapsedTimeMillis u)) us)"

definition logInv :: "'m zlib \<Rightarrow> ('db, 'm) PZGDatabaseState \<Rightarrow> bool" where
  "logInv Z s \<longleftrightarrow>
     ordInv updateID (updateLog s) \<and>
     totalPayloadBytesInLog s = logBytes Z (updateLog s) \<and>
     totalElapsedMillisInLog s = logMillis (updateLog s)"

lemma Schedule_fields [simp, frame]:
  "updateLog (ScheduleLogContentsRescan e s) = updateLog s"
  "totalPayloadBytesInLog (ScheduleLogContentsRescan e s) = totalPayloadBytesInLog s"
  "totalElapsedMillisInLog (ScheduleLogContentsRescan e s) = totalElapsedMillisInLog s"
  "maxPayloadBytesInLog (ScheduleLogContentsRescan e s) = maxPayloadBytesInLog s"
  "localDatabaseStateID (ScheduleLogContentsRescan e s) = localDatabaseStateID s"
  "seniorDatabaseStateID (ScheduleLogContentsRescan e s) = seniorDatabaseStateID s"
  "seniorOldestIDInLog (ScheduleLogContentsRescan e s) = seniorOldestIDInLog s"
  "seniorDatabaseStateReceived (ScheduleLogContentsRescan e s) = seniorDatabaseStateReceived s"
  "dbChecksum (ScheduleLogContentsRescan e s) = dbChecksum s"
  "firstUnsentUpdateID (ScheduleLogContentsRescan e s) = firstUnsentUpdateID s"
  "backorders (ScheduleLogContentsRescan e s) = backorders s"
  "whichDatabase (ScheduleLogContentsRescan e s) = whichDatabase s"
  "dbObject (ScheduleLogContentsRescan e s) = dbObject s"
  "effects (ScheduleLogContentsRescan e s) = effects s"
  by (simp_all add: ScheduleLogContentsRescan_def)

lemma logInv_Schedule [simp]: "logInv Z (ScheduleLogContentsRescan e s) = logInv Z s"
  by (simp add: logInv_def)

lemma ordInv_Nil [simp]: "ordInv key []"
  by (simp add: ordInv_def)

lemma Add_Some [simp]:
  "fst (AddDatabaseUpdateToUpdateLog e (Some u) s) = B_NO_ERROR"
  "updateLog (snd (AddDatabaseUpdateToUpdateLog e (Some u) s)) = ordPut updateID u (updateLog s)"
  "totalPayloadBytesInLog (snd (AddDatabaseUpdateToUpdateLog e (Some u) s)) =
     totalPayloadBytesInLog s + payloadBytes (zlibOps e) u"
  "totalElapsedMillisInLog (snd (AddDatabaseUpdateToUpdateLog e (Some u) s)) =
     totalElapsedMillisInLog s + ucast (seniorElapsedTimeMillis u)"
  "localDatabaseStateID (snd (AddDatabaseUpdateToUpdateLog e (Some u) s)) = localDatabaseStateID s"
  "seniorDatabaseStateID (snd (AddDatabaseUpdateToUpdateLog e (Some u) s)) = seniorDatabaseStateID s"
  "dbChecksum (snd (AddDatabaseUpdateToUpdateLog e (Some u) s)) = dbChecksum s"
  "dbObject (snd (AddDatabaseUpdateToUpdateLog e (Some u) s)) = dbObject s"
  "whichDatabase (snd (AddDatabaseUpdateToUpdateLog e (Some u) s)) = whichDatabase s"
  "maxPayloadBytesInLog (snd (AddDatabaseUpdateToUpdateLog e (Some u) s)) = maxPayloadBytesInLog s"
  "firstUnsentUpdateID (snd (AddDatabaseUpdateToUpdateLog e (Some u) s)) = firstUnsentUpdateID s"
  "backorders (snd (AddDatabaseUpdateToUpdateLog e (Some u) s)) = backorders s"
  "effects (snd (AddDatabaseUpdateToUpdateLog e (Some u) s)) = effects s"
  "seniorDatabaseStateReceived (snd (AddDatabaseUpdateToUpdateLog e (Some u) s)) = seniorDatabaseStateReceived s"
  by (auto simp: AddDatabaseUpdateToUpdateLog_def Let_def)

lemma Add_sorted:
  "ordInv updateID (updateLog s) \<Longrightarrow>
   ordInv updateID (updateLog (snd (AddDatabaseUpdateToUpdateLog e u s)))"
  by (cases u) (simp_all add: ordInv_ordPut, simp add: AddDatabaseUpdateToUpdateLog_def)

lemma Add_fresh_logInv:
  assumes "logInv (zlibOps e) s" "updateID u \<notin> updateID ` set (updateLog s)"
  shows "logInv (zlibOps e) (snd (AddDatabaseUpdateToUpdateLog e (Some u) s))"
  using assms
  by (simp add: logInv_def ordInv_ordPut sum_list_ordPut_fresh logBytes_def logMillis_def add.commute)

lemma Remove_log:
  assumes "logGet (updateID u) (updateLog s) = Some t"
  shows "updateLog (RemoveDatabaseUpdateFromUpdateLog e u s) = tabRemove updateID (updateID u) (updateLog s)"
    "totalPayloadBytesInLog (RemoveDatabaseUpdateFromUpdateLog e u s) =
       totalPayloadBytesInLog s - payloadBytes (zlibOps e) t"
    "totalElapsedMillisInLog (RemoveDatabaseUpdateFromUpdateLog e u s) =
       totalElapsedMillisInLog s - ucast (seniorElapsedTimeMillis t)"
  using assms by (auto simp: RemoveDatabaseUpdateFromUpdateLog_def Let_def)

lemma Remove_logInv:
  assumes "logInv (zlibOps e) s"
  shows "logInv (zlibOps e) (RemoveDatabaseUpdateFromUpdateLog e u s)"
proof (cases "logGet (updateID u) (updateLog s)")
  case None
  with assms show ?thesis
    by (simp add: RemoveDatabaseUpdateFromUpdateLog_def)
next
  case (Some t)
  have inv: "tabInv updateID (updateLog s)"
    using assms by (simp add: logInv_def ordInv_imp_tabInv)
  note sums = sum_list_tabRemove [OF inv Some]
  from assms show ?thesis
    by (simp add: logInv_def Remove_log [OF Some] ordInv_tabRemove sums logBytes_def logMillis_def)
qed

text \<open>Replacing the entry that has the given ID, as the writes through the shared reference do.\<close>

lemma map_replace_ids:
  "updateID v = k \<Longrightarrow> map updateID (map (\<lambda>u. if updateID u = k then v else u) us) = map updateID us"
  by (induction us) auto

lemma sum_list_map_replace:
  fixes f :: "'m PZGDatabaseUpdate \<Rightarrow> 'b::ab_group_add"
  assumes "tabInv updateID us" "u \<in> set us"
  shows "sum_list (map f (map (\<lambda>x. if updateID x = updateID u then v else x) us)) =
         sum_list (map f us) - f u + f v"
  using assms
proof (induction us)
  case (Cons x xs)
  show ?case
  proof (cases "updateID x = updateID u")
    case True
    with Cons.prems have eq: "x = u" and ne: "\<forall>y\<in>set xs. updateID y \<noteq> updateID u"
      by (auto simp: tabInv_def image_iff)
    then have "map (\<lambda>x. if updateID x = updateID u then v else x) xs = xs"
      by (intro map_idI) auto
    with eq show ?thesis
      by simp
  next
    case False
    with Cons show ?thesis
      by (auto simp: tabInv_def algebra_simps)
  qed
qed simp

section \<open>The senior's scan\<close>

fun multicasts :: "'m effect list \<Rightarrow> 'm PZGDatabaseUpdate list" where
  "multicasts [] = []"
| "multicasts (MulticastUpdate u st # es) = u # multicasts es"
| "multicasts (BackOrderRequested k b st # es) = multicasts es"
| "multicasts (ScheduledSetBeaconData # es) = multicasts es"

lemma multicasts_append [simp]: "multicasts (xs @ ys) = multicasts xs @ multicasts ys"
  by (induction xs rule: multicasts.induct) auto

lemma seniorScan_forward:
  "seniorScan e us old i False s = fold (multicastIfUnsent e) (drop i us) s"
proof (induction "length us - i" arbitrary: i s)
  case 0
  then show ?case
    by (simp add: seniorScan.simps)
next
  case (Suc n)
  then have "i < length us" "drop i us = us ! i # drop (Suc i) us"
    by (auto simp: Cons_nth_drop_Suc)
  moreover have "n = length us - Suc i"
    using Suc.hyps(2) by simp
  ultimately show ?case
    using Suc.hyps(1) by (subst seniorScan.simps) (simp add: Let_def)
qed

lemma fold_skip_sent:
  "\<forall>u \<in> set us. updateID u < firstUnsentUpdateID s \<Longrightarrow> fold (multicastIfUnsent e) us s = s"
  by (induction us) (auto simp: multicastIfUnsent_def)

lemma sorted_take_less:
  "ordInv key us \<Longrightarrow> i < length us \<Longrightarrow> u \<in> set (take i us) \<Longrightarrow> key u < key (us ! i)"
  by (auto simp: ordInv_def in_set_conv_nth sorted_wrt_iff_nth_less)

lemma sorted_nth_hd:
  "ordInv key us \<Longrightarrow> i < length us \<Longrightarrow> key (us ! i) = key (hd us) \<Longrightarrow> i = 0"
  by (cases us; cases i) (fastforce simp: ordInv_def dest: nth_mem)+

lemma seniorScan_eq_fold:
  assumes "ordInv updateID us" "i < length us"
  shows "seniorScan e us (updateID (hd us)) i True s = fold (multicastIfUnsent e) us s"
  using assms(2)
proof (induction i arbitrary: s)
  case 0
  then show ?case
    by (subst seniorScan.simps) (cases us; simp add: seniorScan_forward Let_def)
next
  case (Suc i)
  show ?case
  proof (cases "updateID (us ! Suc i) \<le> firstUnsentUpdateID s")
    case True
    have "\<forall>u \<in> set (take (Suc i) us). updateID u < firstUnsentUpdateID s"
      using sorted_take_less [OF assms(1) Suc.prems] True by (auto intro: less_le_trans)
    then have "fold (multicastIfUnsent e) us s = fold (multicastIfUnsent e) (drop (Suc i) us) s"
      using fold_skip_sent [of "take (Suc i) us" s e]
      by (metis append_take_drop_id fold_append comp_apply)
    moreover have "drop (Suc i) us = us ! Suc i # drop (Suc (Suc i)) us"
      using Suc.prems by (simp add: Cons_nth_drop_Suc)
    ultimately show ?thesis
      using Suc.prems True
      by (subst seniorScan.simps) (simp add: seniorScan_forward Let_def)
  next
    case False
    moreover have "updateID (us ! Suc i) \<noteq> updateID (hd us)"
      using sorted_nth_hd [OF assms(1) Suc.prems] by auto
    ultimately show ?thesis
      using Suc by (subst seniorScan.simps) (simp add: Let_def)
  qed
qed

lemma fold_multicast_effects:
  "ordInv updateID us \<Longrightarrow>
   multicasts (effects (fold (multicastIfUnsent e) us s)) =
   multicasts (effects s) @ filter (\<lambda>u. firstUnsentUpdateID s \<le> updateID u) us"
proof (induction us arbitrary: s)
  case (Cons u us)
  let ?s = "multicastIfUnsent e u s"
  have later: "updateID u < updateID v" if "v \<in> set us" for v
    using Cons.prems that by (simp add: ordInv_def)
  have same: "filter (\<lambda>v. firstUnsentUpdateID ?s \<le> updateID v) us =
              filter (\<lambda>v. firstUnsentUpdateID s \<le> updateID v) us"
  proof (cases "firstUnsentUpdateID ?s = firstUnsentUpdateID s")
    case False
    then have "firstUnsentUpdateID ?s = updateID u + 1" "firstUnsentUpdateID s \<le> updateID u"
      by (auto simp: multicastIfUnsent_def Let_def split: if_splits)
    then show ?thesis
      using later by (intro filter_cong) (fastforce dest: word_less_imp_Suc_le)+
  qed simp
  have "ordInv updateID us"
    using Cons.prems by (simp add: ordInv_def)
  from Cons.IH [OF this, of ?s] show ?case
    by (simp add: same) (simp add: multicastIfUnsent_def Let_def)
qed simp

lemma multicastIfUnsent_fields [simp]:
  "updateLog (multicastIfUnsent e u s) = updateLog s"
  "totalPayloadBytesInLog (multicastIfUnsent e u s) = totalPayloadBytesInLog s"
  "totalElapsedMillisInLog (multicastIfUnsent e u s) = totalElapsedMillisInLog s"
  "maxPayloadBytesInLog (multicastIfUnsent e u s) = maxPayloadBytesInLog s"
  "localDatabaseStateID (multicastIfUnsent e u s) = localDatabaseStateID s"
  "seniorDatabaseStateID (multicastIfUnsent e u s) = seniorDatabaseStateID s"
  "dbChecksum (multicastIfUnsent e u s) = dbChecksum s"
  "dbObject (multicastIfUnsent e u s) = dbObject s"
  "backorders (multicastIfUnsent e u s) = backorders s"
  "whichDatabase (multicastIfUnsent e u s) = whichDatabase s"
  by (simp_all add: multicastIfUnsent_def Let_def)

lemma fold_multicast_fields [simp]:
  "updateLog (fold (multicastIfUnsent e) us s) = updateLog s"
  "totalPayloadBytesInLog (fold (multicastIfUnsent e) us s) = totalPayloadBytesInLog s"
  "totalElapsedMillisInLog (fold (multicastIfUnsent e) us s) = totalElapsedMillisInLog s"
  "maxPayloadBytesInLog (fold (multicastIfUnsent e) us s) = maxPayloadBytesInLog s"
  "localDatabaseStateID (fold (multicastIfUnsent e) us s) = localDatabaseStateID s"
  "seniorDatabaseStateID (fold (multicastIfUnsent e) us s) = seniorDatabaseStateID s"
  "dbChecksum (fold (multicastIfUnsent e) us s) = dbChecksum s"
  "dbObject (fold (multicastIfUnsent e) us s) = dbObject s"
  "backorders (fold (multicastIfUnsent e) us s) = backorders s"
  "whichDatabase (fold (multicastIfUnsent e) us s) = whichDatabase s"
  by (induction us arbitrary: s) simp_all

text \<open>Where every multicast goes out, the log has no unsent update left.\<close>

lemma fold_multicast_all_sent:
  assumes "\<And>es u. SendDatabaseUpdateViaMulticast e es u = B_NO_ERROR"
    and "ordInv updateID us" "\<forall>u\<in>set us. updateID u \<noteq> - 1"
  shows "\<forall>u\<in>set us. updateID u < firstUnsentUpdateID (fold (multicastIfUnsent e) us s)"
  using assms(2,3)
proof (induction us arbitrary: s rule: rev_induct)
  case (snoc u us)
  let ?t = "fold (multicastIfUnsent e) us s"
  have "ordInv updateID us"
    using snoc.prems(1) by (auto simp: ordInv_def sorted_wrt_append)
  then have IH: "\<forall>v\<in>set us. updateID v < firstUnsentUpdateID ?t"
    using snoc by auto
  have "firstUnsentUpdateID ?t \<le> firstUnsentUpdateID (multicastIfUnsent e u ?t)"
    "updateID u < firstUnsentUpdateID (multicastIfUnsent e u ?t)"
    using snoc.prems(2) word_less_Suc [of "updateID u"]
    by (auto simp: multicastIfUnsent_def Let_def assms(1))
  with IH show ?case
    by (auto intro: less_le_trans)
qed simp

section \<open>Trimming\<close>

lemma Remove_fields [simp]:
  "maxPayloadBytesInLog (RemoveDatabaseUpdateFromUpdateLog e u s) = maxPayloadBytesInLog s"
  "localDatabaseStateID (RemoveDatabaseUpdateFromUpdateLog e u s) = localDatabaseStateID s"
  "seniorDatabaseStateID (RemoveDatabaseUpdateFromUpdateLog e u s) = seniorDatabaseStateID s"
  "dbChecksum (RemoveDatabaseUpdateFromUpdateLog e u s) = dbChecksum s"
  "dbObject (RemoveDatabaseUpdateFromUpdateLog e u s) = dbObject s"
  "backorders (RemoveDatabaseUpdateFromUpdateLog e u s) = backorders s"
  "whichDatabase (RemoveDatabaseUpdateFromUpdateLog e u s) = whichDatabase s"
  "effects (RemoveDatabaseUpdateFromUpdateLog e u s) = effects s"
  "firstUnsentUpdateID (RemoveDatabaseUpdateFromUpdateLog e u s) = firstUnsentUpdateID s"
  "seniorDatabaseStateReceived (RemoveDatabaseUpdateFromUpdateLog e u s) = seniorDatabaseStateReceived s"
  "rescanLogPending (RemoveDatabaseUpdateFromUpdateLog e u s) = rescanLogPending s"
  by (simp_all add: RemoveDatabaseUpdateFromUpdateLog_def Let_def split: option.splits)

lemma Remove_hd_log:
  assumes "ordInv updateID (updateLog s)" "updateLog s \<noteq> []"
  shows "updateLog (RemoveDatabaseUpdateFromUpdateLog e (hd (updateLog s)) s) = tl (updateLog s)"
proof (cases "updateLog s")
  case (Cons u us)
  then show ?thesis
    using assms tabRemove_hd [of updateID u us]
    by (simp add: RemoveDatabaseUpdateFromUpdateLog_def Let_def)
qed (use assms in simp)

lemma trimSenior_logInv:
  "logInv (zlibOps e) s \<Longrightarrow> logInv (zlibOps e) (trimSeniorLog e s)"
  by (induction e s rule: trimSeniorLog.induct) (subst trimSeniorLog.simps, simp add: Remove_logInv)

lemma Remove_sorted:
  assumes "ordInv updateID (updateLog s)"
  shows "ordInv updateID (updateLog (RemoveDatabaseUpdateFromUpdateLog e u s))"
proof (cases "logGet (updateID u) (updateLog s)")
  case None
  with assms show ?thesis
    by (simp add: RemoveDatabaseUpdateFromUpdateLog_def)
next
  case (Some t)
  with assms show ?thesis
    by (simp add: Remove_log ordInv_tabRemove)
qed

lemma trimSenior_sorted:
  "ordInv updateID (updateLog s) \<Longrightarrow> ordInv updateID (updateLog (trimSeniorLog e s))"
  by (induction e s rule: trimSeniorLog.induct) (subst trimSeniorLog.simps, simp add: Remove_sorted)

lemma trimSenior_frame [simp]:
  "maxPayloadBytesInLog (trimSeniorLog e s) = maxPayloadBytesInLog s \<and>
   localDatabaseStateID (trimSeniorLog e s) = localDatabaseStateID s \<and>
   dbChecksum (trimSeniorLog e s) = dbChecksum s \<and> dbObject (trimSeniorLog e s) = dbObject s \<and>
   seniorDatabaseStateID (trimSeniorLog e s) = seniorDatabaseStateID s \<and>
   effects (trimSeniorLog e s) = effects s \<and> whichDatabase (trimSeniorLog e s) = whichDatabase s \<and>
   firstUnsentUpdateID (trimSeniorLog e s) = firstUnsentUpdateID s"
  by (induction e s rule: trimSeniorLog.induct) (subst (1 2 3 4 5 6 7 8) trimSeniorLog.simps, simp)

lemma trimSenior_suffix:
  "logInv (zlibOps e) s \<Longrightarrow>
   \<exists>n. updateLog (trimSeniorLog e s) = drop n (updateLog s) \<and>
       (updateLog s \<noteq> [] \<longrightarrow> n < length (updateLog s)) \<and>
       (\<forall>k<n. logBytes (zlibOps e) (drop k (updateLog s)) > maxPayloadBytesInLog s)"
proof (induction e s rule: trimSeniorLog.induct)
  case (1 e s)
  let ?r = "RemoveDatabaseUpdateFromUpdateLog e (hd (updateLog s)) s"
  show ?case
  proof (cases "totalPayloadBytesInLog s > maxPayloadBytesInLog s \<and> length (updateLog s) > 1")
    case True
    then have log: "updateLog ?r = tl (updateLog s)"
      using 1(2) by (intro Remove_hd_log) (auto simp: logInv_def)
    from 1(1) [OF True Remove_logInv [OF 1(2)]] obtain n where
      n: "updateLog (trimSeniorLog e ?r) = drop n (tl (updateLog s))"
        "n < length (tl (updateLog s))"
        "\<forall>k<n. logBytes (zlibOps e) (drop k (tl (updateLog s))) > maxPayloadBytesInLog s"
      using True by (auto simp: log simp flip: length_greater_0_conv)
    have "\<forall>k<Suc n. logBytes (zlibOps e) (drop k (updateLog s)) > maxPayloadBytesInLog s"
    proof (intro allI impI)
      fix k assume "k < Suc n"
      then show "logBytes (zlibOps e) (drop k (updateLog s)) > maxPayloadBytesInLog s"
        using n(3) True 1(2) by (cases k) (auto simp: logInv_def drop_Suc)
    qed
    with n True show ?thesis
      by (intro exI [of _ "Suc n"]) (subst trimSeniorLog.simps, auto simp: drop_Suc)
  next
    case False
    then show ?thesis
      by (intro exI [of _ 0]) (subst trimSeniorLog.simps, auto)
  qed
qed

lemma trimSenior_budget:
  "totalPayloadBytesInLog (trimSeniorLog e s) \<le> maxPayloadBytesInLog s \<or>
   length (updateLog (trimSeniorLog e s)) \<le> 1"
proof (induction e s rule: trimSeniorLog.induct)
  case (1 e s)
  then show ?case
    by (subst (1 2) trimSeniorLog.simps) (auto simp: not_less)
qed

lemma trimJunior_frame [simp]:
  "maxPayloadBytesInLog (trimJuniorLog e s) = maxPayloadBytesInLog s \<and>
   localDatabaseStateID (trimJuniorLog e s) = localDatabaseStateID s \<and>
   dbChecksum (trimJuniorLog e s) = dbChecksum s \<and> dbObject (trimJuniorLog e s) = dbObject s \<and>
   seniorDatabaseStateID (trimJuniorLog e s) = seniorDatabaseStateID s \<and>
   effects (trimJuniorLog e s) = effects s \<and> backorders (trimJuniorLog e s) = backorders s \<and>
   whichDatabase (trimJuniorLog e s) = whichDatabase s \<and>
   firstUnsentUpdateID (trimJuniorLog e s) = firstUnsentUpdateID s"
  by (induction e s rule: trimJuniorLog.induct) (subst (1 2 3 4 5 6 7 8 9) trimJuniorLog.simps, simp)

lemma Remove_subset: "set (updateLog (RemoveDatabaseUpdateFromUpdateLog e u s)) \<subseteq> set (updateLog s)"
  by (auto simp: RemoveDatabaseUpdateFromUpdateLog_def Let_def tabRemove_def split: option.splits)

lemma trimJunior_subset: "set (updateLog (trimJuniorLog e s)) \<subseteq> set (updateLog s)"
proof (induction e s rule: trimJuniorLog.induct)
  case (1 e s)
  then show ?case
    using Remove_subset [of e "hd (updateLog s)" s]
    by (subst trimJuniorLog.simps) auto
qed

lemma trimSenior_subset: "set (updateLog (trimSeniorLog e s)) \<subseteq> set (updateLog s)"
proof (induction e s rule: trimSeniorLog.induct)
  case (1 e s)
  then show ?case
    using Remove_subset [of e "hd (updateLog s)" s]
    by (subst trimSeniorLog.simps) auto
qed

end
