(* ===== verification/ZG_Replication.thy ===== *)
theory ZG_Replication
  imports ZG_UpdateLog
begin

text \<open>
  Replication of one database from the senior peer to a junior peer.

  The senior numbers its successful updates 1, 2, \<dots>; the history is the list of
  those updates, each with the database state it led to.  The step relation
  \<open>sys_step\<close> runs the two \<^verbatim>\<open>PZGDatabaseState\<close> objects against each other over a
  network that may lose, delay, duplicate and reorder: any update ever multicast may
  be delivered at any time and any number of times, any back-order reply likewise,
  beacons may carry any contents, and each peer may rescan its log whenever it likes.

  The invariant \<open>sys_inv\<close> says that whatever state ID the junior holds, its
  database is the one the senior had at that state ID.  Its proof has one lemma per
  kind of step, each inside the locale \<open>replicated_database\<close>.
\<close>

section \<open>What an update means\<close>

text \<open>The effect of executing an update on a database, without any of the checks.\<close>

definition applyUpdate ::
  "('db, 'm) IDatabaseObject \<Rightarrow> 'm zlib \<Rightarrow> 'm PZGDatabaseUpdate \<Rightarrow> 'db \<Rightarrow> status_t \<times> 'db" where
  "applyUpdate D Z u d =
     (case update_type_of (updateType u) of
        PZG_DATABASE_UPDATE_TYPE_NOOP \<Rightarrow> (B_NO_ERROR, d)
      | PZG_DATABASE_UPDATE_TYPE_RESET \<Rightarrow> (B_NO_ERROR, SetToDefaultState D d)
      | PZG_DATABASE_UPDATE_TYPE_REPLACE \<Rightarrow>
          (case GetPayloadBufferAsMessage Z u of None \<Rightarrow> (B_BAD_OBJECT, d) | Some m \<Rightarrow> SetFromArchive D m d)
      | PZG_DATABASE_UPDATE_TYPE_UPDATE \<Rightarrow>
          (case GetPayloadBufferAsMessage Z u of None \<Rightarrow> (B_BAD_OBJECT, d) | Some m \<Rightarrow> JuniorUpdate D m d)
      | PZG_DATABASE_UPDATE_TYPE_UNKNOWN _ \<Rightarrow> (B_UNIMPLEMENTED, d))"

text \<open>Executed on any copy of \<open>d\<close>, the update succeeds and gives a copy of \<open>d'\<close>.\<close>

definition replays ::
  "('db, 'm) IDatabaseObject \<Rightarrow> 'm zlib \<Rightarrow> ('db \<Rightarrow> bool) \<Rightarrow> ('db \<Rightarrow> 'db \<Rightarrow> bool) \<Rightarrow>
   'm PZGDatabaseUpdate \<Rightarrow> 'db \<Rightarrow> 'db \<Rightarrow> bool" where
  "replays D Z good same u d d' \<longleftrightarrow>
     (\<forall>t. good t \<longrightarrow> same d t \<longrightarrow> (\<exists>t'. applyUpdate D Z u t = (B_NO_ERROR, t') \<and> good t' \<and> same d' t'))"

section \<open>Histories\<close>

type_synonym ('db, 'm) history = "('m PZGDatabaseUpdate \<times> 'db) list"

definition dbAt :: "'db \<Rightarrow> ('db, 'm) history \<Rightarrow> nat \<Rightarrow> 'db" where
  "dbAt d0 H k = (if k = 0 then d0 else snd (H ! (k - 1)))"

definition history_ok ::
  "('db, 'm) IDatabaseObject \<Rightarrow> 'm zlib \<Rightarrow> ('db \<Rightarrow> bool) \<Rightarrow> ('db \<Rightarrow> 'db \<Rightarrow> bool) \<Rightarrow>
   'db \<Rightarrow> ('db, 'm) history \<Rightarrow> bool" where
  "history_ok D Z good same d0 H \<longleftrightarrow>
     good d0 \<and> length H < 2 ^ 64 - 1 \<and>
     (\<forall>i < length H.
        good (snd (H ! i)) \<and>
        updateID (fst (H ! i)) = of_nat (Suc i) \<and>
        preUpdateDBChecksum (fst (H ! i)) = GetCurrentChecksum D (dbAt d0 H i) \<and>
        postUpdateDBChecksum (fst (H ! i)) = GetCurrentChecksum D (snd (H ! i)) \<and>
        cacheConsistent Z (fst (H ! i)) \<and>
        replays D Z good same (fst (H ! i)) (dbAt d0 H i) (snd (H ! i)))"

section \<open>The two-peer system\<close>

record ('db, 'm) sys =
  senior :: "('db, 'm) PZGDatabaseState"
  junior :: "('db, 'm) PZGDatabaseState"
  replies :: "(u64 \<times> 'm PZGDatabaseUpdate) set"
  history :: "('db, 'm) history"

definition isSeniorEnv :: "('db, 'm) IDatabaseObject \<Rightarrow> 'm zlib \<Rightarrow> ('db, 'm) master \<Rightarrow> bool" where
  "isSeniorEnv D Z e \<longleftrightarrow> dbOps e = D \<and> zlibOps e = Z \<and> IAmTheSeniorPeer e"

definition isJuniorEnv :: "('db, 'm) IDatabaseObject \<Rightarrow> 'm zlib \<Rightarrow> ('db, 'm) master \<Rightarrow> bool" where
  "isJuniorEnv D Z e \<longleftrightarrow> dbOps e = D \<and> zlibOps e = Z \<and> \<not> IAmTheSeniorPeer e"

text \<open>The requests the session passes on to the senior's database state.\<close>

definition seniorCommand :: "'m peer_message \<Rightarrow> bool" where
  "seniorCommand msg \<longleftrightarrow> what msg \<noteq> PZG_PEER_COMMAND_UPDATE_JUNIOR_DATABASE"

definition juniorUpdateMessage :: "'m PZGDatabaseUpdate \<Rightarrow> 'm peer_message" where
  "juniorUpdateMessage u =
     \<lparr> what = PZG_PEER_COMMAND_UPDATE_JUNIOR_DATABASE, userMessage = None, databaseID = 0, databaseUpdate = Some u, messageText = None \<rparr>"

text \<open>The history after a senior request: a successful one appends the update it logged.\<close>

definition recordUpdate ::
  "('db, 'm) PZGDatabaseState \<Rightarrow> status_t \<Rightarrow> ('db, 'm) history \<Rightarrow> ('db, 'm) history" where
  "recordUpdate S st H =
     (case (logGet (localDatabaseStateID S) (updateLog S), dbObject S) of
        (Some u, Some d) \<Rightarrow> if IsOK st then H @ [(u, d)] else H
      | _ \<Rightarrow> H)"

inductive sys_step ::
  "('db, 'm) IDatabaseObject \<Rightarrow> 'm zlib \<Rightarrow> ('db, 'm) sys \<Rightarrow> ('db, 'm) sys \<Rightarrow> bool"
  for D :: "('db, 'm) IDatabaseObject" and Z :: "'m zlib" where
  SeniorRequest:
    "isSeniorEnv D Z e \<Longrightarrow> seniorCommand msg \<Longrightarrow> Suc (length (history y)) < 2 ^ 64 - 1 \<Longrightarrow>
     HandleDatabaseUpdateRequest e fromPeer msg opt (senior y) = (st, S) \<Longrightarrow>
     sys_step D Z y (y \<lparr> senior := S, history := recordUpdate S st (history y) \<rparr>)"
| SeniorRescan:
    "isSeniorEnv D Z e \<Longrightarrow> RescanUpdateLog e (senior y) = Some S \<Longrightarrow>
     sys_step D Z y (y \<lparr> senior := S \<rparr>)"
| SeniorServesBackOrder:
    "isSeniorEnv D Z e \<Longrightarrow> GetDatabaseUpdateByID e uid (senior y) = Some u \<Longrightarrow>
     sys_step D Z y (y \<lparr> replies := insert (uid, onWire Z u) (replies y) \<rparr>)"
| MulticastArrives:
    "isJuniorEnv D Z e \<Longrightarrow> u \<in> set (multicasts (effects (senior y))) \<Longrightarrow>
     HandleDatabaseUpdateRequest e fromPeer (juniorUpdateMessage (onWire Z u)) (Some (onWire Z u)) (junior y) = (st, J) \<Longrightarrow>
     sys_step D Z y (y \<lparr> junior := J \<rparr>)"
| BeaconArrives:
    "isJuniorEnv D Z e \<Longrightarrow>
     sys_step D Z y (y \<lparr> junior := SeniorDatabaseStateInfoChanged e info (junior y) \<rparr>)"
| JuniorRescan:
    "isJuniorEnv D Z e \<Longrightarrow> RescanUpdateLog e (junior y) = Some J \<Longrightarrow>
     sys_step D Z y (y \<lparr> junior := J \<rparr>)"
| ReplyArrives:
    "isJuniorEnv D Z e \<Longrightarrow> (GetDatabaseUpdateID ubok, u) \<in> replies y \<Longrightarrow>
     sys_step D Z y (y \<lparr> junior := BackOrderResultReceived e ubok (Some u) (junior y) \<rparr>)"
| ReplyFails:
    "isJuniorEnv D Z e \<Longrightarrow>
     sys_step D Z y (y \<lparr> junior := BackOrderResultReceived e ubok None (junior y) \<rparr>)"
| SeniorSchedules:
    "sys_step D Z y (y \<lparr> senior := (senior y) \<lparr> rescanLogPending := b \<rparr> \<rparr>)"
| JuniorSchedules:
    "sys_step D Z y (y \<lparr> junior := (junior y) \<lparr> rescanLogPending := b \<rparr> \<rparr>)"
| SeniorVerifies:
    "isSeniorEnv D Z e \<Longrightarrow> sys_step D Z y (y \<lparr> senior := VerifyOrFixLocalDatabaseChecksum e (senior y) \<rparr>)"

text \<open>Start-up: \<open>AttachedToServer\<close> resets every database to its default state.\<close>

definition sys_init ::
  "('db, 'm) master \<Rightarrow> ('db, 'm) master \<Rightarrow> u32 \<Rightarrow> u64 \<Rightarrow> 'db \<Rightarrow> 'db \<Rightarrow> ('db, 'm) sys" where
  "sys_init eS eJ which maxBytes dS dJ =
     \<lparr> senior = ResetLocalDatabaseToDefaultState eS (newPZGDatabaseState which maxBytes (Some dS)),
       junior = ResetLocalDatabaseToDefaultState eJ (newPZGDatabaseState which maxBytes (Some dJ)),
       replies = {}, history = [] \<rparr>"

inductive sys_reach ::
  "('db, 'm) IDatabaseObject \<Rightarrow> 'm zlib \<Rightarrow> ('db, 'm) sys \<Rightarrow> ('db, 'm) sys \<Rightarrow> bool"
  for D :: "('db, 'm) IDatabaseObject" and Z :: "'m zlib" and y0 :: "('db, 'm) sys" where
  reach_init: "sys_reach D Z y0 y0"
| reach_step: "sys_reach D Z y0 y \<Longrightarrow> sys_step D Z y y' \<Longrightarrow> sys_reach D Z y0 y'"

section \<open>The invariant\<close>

text \<open>A peer holds the database of state ID \<open>k\<close>.\<close>

definition holdsState ::
  "('db, 'm) IDatabaseObject \<Rightarrow> ('db \<Rightarrow> bool) \<Rightarrow> ('db \<Rightarrow> 'db \<Rightarrow> bool) \<Rightarrow> 'db \<Rightarrow> ('db, 'm) history \<Rightarrow>
   nat \<Rightarrow> ('db, 'm) PZGDatabaseState \<Rightarrow> bool" where
  "holdsState D good same d0 H k s \<longleftrightarrow>
     k \<le> length H \<and> localDatabaseStateID s = of_nat k \<and>
     (\<exists>t. dbObject s = Some t \<and> good t \<and> same (dbAt d0 H k) t \<and> dbChecksum s = GetCurrentChecksum D t)"

definition isFullReply ::
  "('db, 'm) IDatabaseObject \<Rightarrow> 'm zlib \<Rightarrow> ('db \<Rightarrow> bool) \<Rightarrow> ('db \<Rightarrow> 'db \<Rightarrow> bool) \<Rightarrow> 'db \<Rightarrow> ('db, 'm) history \<Rightarrow>
   'm PZGDatabaseUpdate \<Rightarrow> bool" where
  "isFullReply D Z good same d0 H u \<longleftrightarrow>
     (\<exists>k \<le> length H. updateID u = of_nat k \<and> postUpdateDBChecksum u = GetCurrentChecksum D (dbAt d0 H k) \<and>
        (\<forall>t. good t \<longrightarrow> (\<exists>t'. applyUpdate D Z u t = (B_NO_ERROR, t') \<and> good t' \<and> same (dbAt d0 H k) t')))"

definition repliesOK ::
  "('db, 'm) IDatabaseObject \<Rightarrow> 'm zlib \<Rightarrow> ('db \<Rightarrow> bool) \<Rightarrow> ('db \<Rightarrow> 'db \<Rightarrow> bool) \<Rightarrow> 'db \<Rightarrow> ('db, 'm) history \<Rightarrow>
   (u64 \<times> 'm PZGDatabaseUpdate) set \<Rightarrow> bool" where
  "repliesOK D Z good same d0 H R \<longleftrightarrow>
     (\<forall>uid u. (uid, u) \<in> R \<longrightarrow>
        (if uid = DATABASE_UPDATE_ID_FULL_UPDATE then isFullReply D Z good same d0 H u
         else u \<in> onWire Z ` fst ` set H))"

definition sys_inv ::
  "('db, 'm) IDatabaseObject \<Rightarrow> 'm zlib \<Rightarrow> ('db \<Rightarrow> bool) \<Rightarrow> ('db \<Rightarrow> 'db \<Rightarrow> bool) \<Rightarrow> 'db \<Rightarrow> ('db, 'm) sys \<Rightarrow> bool" where
  "sys_inv D Z good same d0 y \<longleftrightarrow>
     history_ok D Z good same d0 (history y) \<and>
     holdsState D good same d0 (history y) (length (history y)) (senior y) \<and>
     ordInv updateID (updateLog (senior y)) \<and>
     set (updateLog (senior y)) \<subseteq> fst ` set (history y) \<and>
     set (multicasts (effects (senior y))) \<subseteq> fst ` set (history y) \<and>
     (\<exists>k. holdsState D good same d0 (history y) k (junior y)) \<and>
     set (updateLog (junior y)) \<subseteq> onWire Z ` fst ` set (history y) \<and>
     repliesOK D Z good same d0 (history y) (replies y)"

section \<open>Executing updates\<close>

lemma JuniorAux_frame [simp]:
  "updateLog (snd (JuniorExecuteDatabaseUpdateAux e u s)) = updateLog s"
  "localDatabaseStateID (snd (JuniorExecuteDatabaseUpdateAux e u s)) = localDatabaseStateID s"
  "backorders (snd (JuniorExecuteDatabaseUpdateAux e u s)) = backorders s"
  "whichDatabase (snd (JuniorExecuteDatabaseUpdateAux e u s)) = whichDatabase s"
  "seniorDatabaseStateReceived (snd (JuniorExecuteDatabaseUpdateAux e u s)) = seniorDatabaseStateReceived s"
  by (simp_all add: JuniorExecuteDatabaseUpdateAux_def Let_def
      split: update_type.split option.split prod.split)

lemma JuniorAux_applyUpdate:
  assumes "dbObject s = Some t" "applyUpdate (dbOps e) (zlibOps e) u t = (B_NO_ERROR, t')"
    and "dbChecksum s = GetCurrentChecksum (dbOps e) t"
  shows "fst (JuniorExecuteDatabaseUpdateAux e u s) = B_NO_ERROR"
    "dbObject (snd (JuniorExecuteDatabaseUpdateAux e u s)) = Some t'"
    "dbChecksum (snd (JuniorExecuteDatabaseUpdateAux e u s)) = GetCurrentChecksum (dbOps e) t'"
  using assms
  by (simp_all add: JuniorExecuteDatabaseUpdateAux_def applyUpdate_def session_db_defs Let_def
      split: update_type.splits option.splits)

lemma applyUpdate_onWire:
  "zlib_lossless Z \<Longrightarrow> cacheConsistent Z u \<Longrightarrow> applyUpdate D Z (onWire Z u) = applyUpdate D Z u"
  by (rule ext) (simp add: applyUpdate_def onWire_message split: update_type.split)

lemma of_nat_u64_inject:
  "a < 2 ^ 64 \<Longrightarrow> b < 2 ^ 64 \<Longrightarrow> (of_nat a :: u64) = of_nat b \<longleftrightarrow> a = b"
proof -
  assume "a < 2 ^ 64" "b < 2 ^ 64"
  then have "unat (of_nat a :: u64) = a" "unat (of_nat b :: u64) = b"
    by (simp_all add: unat_of_nat_small)
  then show ?thesis
    by metis
qed

lemma dbAt_append: "k \<le> length H \<Longrightarrow> dbAt d0 (H @ xs) k = dbAt d0 H k"
  by (auto simp: dbAt_def nth_append)

lemma holdsState_append:
  "holdsState D good same d0 H k s \<Longrightarrow> holdsState D good same d0 (H @ xs) k s"
  by (auto simp: holdsState_def dbAt_append)

lemma isFullReply_append:
  "isFullReply D Z good same d0 H u \<Longrightarrow> isFullReply D Z good same d0 (H @ xs) u"
  unfolding isFullReply_def by (elim exE conjE, rule_tac x = k in exI) (simp add: dbAt_append)

lemma repliesOK_append:
  "repliesOK D Z good same d0 H R \<Longrightarrow> repliesOK D Z good same d0 (H @ xs) R"
  unfolding repliesOK_def set_append image_Un
  by (metis UnCI isFullReply_append)

lemma history_lookup:
  assumes "history_ok D Z good same d0 H" "u \<in> fst ` set H"
    and "updateID u = of_nat (Suc k)" "k < 2 ^ 64 - 1"
  shows "k < length H \<and> fst (H ! k) = u"
proof -
  obtain i where i: "i < length H" "fst (H ! i) = u"
    using assms(2) by (auto simp: in_set_conv_nth)
  then have "of_nat (Suc i) = (of_nat (Suc k) :: u64)"
    using assms(1,3) by (auto simp: history_ok_def)
  then have "Suc i = Suc k"
    using assms(1,4) i(1) by (subst (asm) of_nat_u64_inject) (auto simp: history_ok_def)
  with i show ?thesis
    by simp
qed

section \<open>Senior requests\<close>

lemma newUpdateFor_fields [simp]:
  "updateType (newUpdateFor s ty p) = ty" "updateID (newUpdateFor s ty p) = localDatabaseStateID s + 1"
  "preUpdateDBChecksum (newUpdateFor s ty p) = dbChecksum s" "updateBuf (newUpdateFor s ty p) = None"
  "updateMsg (newUpdateFor s ty p) = None" "seniorElapsedTimeMillis (newUpdateFor s ty p) = 0"
  "sourcePeerID (newUpdateFor s ty p) = p"
  by (simp_all add: newUpdateFor_def GetPZGDatabaseUpdateFromPool_def newPZGDatabaseUpdate_def)

lemma SeniorUpdateCompleted_fields [simp]:
  "localDatabaseStateID (SeniorUpdateCompleted e u p s) = localDatabaseStateID s + 1"
  "seniorDatabaseStateID (SeniorUpdateCompleted e u p s) = localDatabaseStateID s + 1"
  "dbObject (SeniorUpdateCompleted e u p s) = dbObject s"
  "dbChecksum (SeniorUpdateCompleted e u p s) = dbChecksum s"
  "backorders (SeniorUpdateCompleted e u p s) = backorders s"
  "whichDatabase (SeniorUpdateCompleted e u p s) = whichDatabase s"
  "firstUnsentUpdateID (SeniorUpdateCompleted e u p s) = firstUnsentUpdateID s"
  "maxPayloadBytesInLog (SeniorUpdateCompleted e u p s) = maxPayloadBytesInLog s"
  "effects (SeniorUpdateCompleted e u p s) = effects s @ [ScheduledSetBeaconData]"
  by (simp_all add: SeniorUpdateCompleted_def Let_def)

text \<open>The log entry as it stands when the senior update has completed.\<close>

definition completedUpdate ::
  "('db, 'm) master \<Rightarrow> 'm PZGDatabaseUpdate \<Rightarrow> 'm option \<Rightarrow> u32 \<Rightarrow> 'm PZGDatabaseUpdate" where
  "completedUpdate e u p chk =
     (SetSeniorElapsedTimeMicros (endRunTime e - startRunTime e)
        (u \<lparr> seniorStartTimeMicros := GetNetworkTime64ForRunTime64 (toNetworkTimeOffset e) (startRunTime e) \<rparr>))
     \<lparr> postUpdateDBChecksum := chk, updateBuf := None, updateMsg := p \<rparr>"

lemma completedUpdate_fields [simp]:
  "updateType (completedUpdate e u p chk) = updateType u" "updateID (completedUpdate e u p chk) = updateID u"
  "preUpdateDBChecksum (completedUpdate e u p chk) = preUpdateDBChecksum u"
  "postUpdateDBChecksum (completedUpdate e u p chk) = chk"
  "updateBuf (completedUpdate e u p chk) = None"
  "updateMsg (completedUpdate e u p chk) = p"
  "GetPayloadBufferAsMessage Z (completedUpdate e u p chk) = p"
  by (cases p; simp add: completedUpdate_def SetSeniorElapsedTimeMicros_def
      GetPayloadBufferAsMessage_cached_def)+

lemma SeniorUpdateCompleted_log:
  assumes "updateBuf u = None" "updateMsg u = None"
  shows "updateLog (SeniorUpdateCompleted e u p s) =
    map (\<lambda>x. if updateID x = updateID u then completedUpdate e u p (dbChecksum s) else x) (updateLog s)"
proof (cases p)
  case None
  with assms show ?thesis
    by (simp add: SeniorUpdateCompleted_def completedUpdate_def Let_def SetSeniorElapsedTimeMicros_def
        GetPayloadBufferAsMessage_cached_def)
next
  case (Some m)
  with assms show ?thesis
    by (simp add: SeniorUpdateCompleted_def completedUpdate_def Let_def SetSeniorElapsedTimeMicros_def
        GetPayloadBufferAsMessage_cached_def SetPayloadMessage_def)
qed

text \<open>The ID of a new update is beyond every ID in the log.\<close>

abbreviation freshNext :: "('db, 'm) PZGDatabaseState \<Rightarrow> bool" where
  "freshNext s \<equiv> \<forall>x \<in> set (updateLog s). updateID x < localDatabaseStateID s + 1"

lemma Add_Completed_log:
  assumes "freshNext s" "updateID u = localDatabaseStateID s + 1" "updateBuf u = None" "updateMsg u = None"
    and "updateLog s2 = updateLog (snd (AddDatabaseUpdateToUpdateLog e (Some u) s))"
  shows "updateLog (SeniorUpdateCompleted e u p s2) = updateLog s @ [completedUpdate e u p (dbChecksum s2)]"
proof -
  have "map (\<lambda>x. if updateID x = updateID u then v else x) (updateLog s) = updateLog s" for v
    using assms(1,2) by (intro map_idI) auto
  moreover have "ordPut updateID u (updateLog s) = updateLog s @ [u]"
    using assms(1,2) by (intro ordPut_snoc) auto
  ultimately show ?thesis
    using assms(3-5) by (simp add: SeniorUpdateCompleted_log)
qed

lemma Add_Remove_log:
  assumes "freshNext s" "updateID u = localDatabaseStateID s + 1"
    and "updateLog s2 = updateLog (snd (AddDatabaseUpdateToUpdateLog e (Some u) s))"
  shows "updateLog (RemoveDatabaseUpdateFromUpdateLog e u s2) = updateLog s"
proof -
  have put: "ordPut updateID u (updateLog s) = updateLog s @ [u]"
    using assms(1,2) by (intro ordPut_snoc) auto
  have "logGet (updateID u) (updateLog s @ [u]) = Some u"
    using assms(1,2) by (subst tabGet_snoc) auto
  moreover have "tabRemove updateID (updateID u) (updateLog s @ [u]) = updateLog s"
    using assms(1,2) by (auto simp: tabRemove_def intro!: filter_all_conv)
  ultimately show ?thesis
    using assms(3) by (simp add: put Remove_log)
qed

text \<open>What a senior request does, seen from the history.\<close>

definition refused :: "('db, 'm) IDatabaseObject \<Rightarrow> ('db \<Rightarrow> bool) \<Rightarrow> ('db \<Rightarrow> 'db \<Rightarrow> bool) \<Rightarrow>
   ('db, 'm) PZGDatabaseState \<Rightarrow> ('db, 'm) PZGDatabaseState \<Rightarrow> 'db \<Rightarrow> bool" where
  "refused D good same s s' d \<longleftrightarrow>
     updateLog s' = updateLog s \<and> localDatabaseStateID s' = localDatabaseStateID s \<and>
     multicasts (effects s') = multicasts (effects s) \<and>
     (\<exists>d'. dbObject s' = Some d' \<and> good d' \<and> same d d' \<and> dbChecksum s' = GetCurrentChecksum D d')"

definition accepted :: "('db, 'm) IDatabaseObject \<Rightarrow> ('db \<Rightarrow> bool) \<Rightarrow> ('db \<Rightarrow> 'db \<Rightarrow> bool) \<Rightarrow>
   'm zlib \<Rightarrow> ('db, 'm) PZGDatabaseState \<Rightarrow> ('db, 'm) PZGDatabaseState \<Rightarrow> 'db \<Rightarrow> bool" where
  "accepted D good same Z s s' d \<longleftrightarrow>
     localDatabaseStateID s' = localDatabaseStateID s + 1 \<and>
     multicasts (effects s') = multicasts (effects s) \<and>
     (\<exists>v d'. updateLog s' = updateLog s @ [v] \<and> updateID v = localDatabaseStateID s + 1 \<and>
        preUpdateDBChecksum v = dbChecksum s \<and> postUpdateDBChecksum v = GetCurrentChecksum D d' \<and>
        updateBuf v = None \<and> dbObject s' = Some d' \<and> good d' \<and>
        dbChecksum s' = GetCurrentChecksum D d' \<and> replays D Z good same v d d')"

context replicated_database
begin

lemma Add_pair: "AddDatabaseUpdateToUpdateLog e (Some u) s = (B_NO_ERROR, snd (AddDatabaseUpdateToUpdateLog e (Some u) s))"
  by (rule prod_eqI) simp_all

lemma HandleReset_accepted:
  assumes "freshNext s" "dbObject s = Some d" "good d" "dbOps e = D"
  shows "fst (HandleResetSenior e from s) = B_NO_ERROR \<and> accepted D good same Z s (snd (HandleResetSenior e from s)) d"
proof -
  let ?u = "newUpdateFor s 1 from :: 'm PZGDatabaseUpdate" and ?d = "SetToDefaultState D d"
  have "replays D Z good same (completedUpdate e ?u None chk) d ?d" for chk
    using assms(3) by (auto simp: replays_def applyUpdate_def update_type_of_def intro: good_reset same_reset)
  then show ?thesis
    using assms
    unfolding HandleResetSenior_def Let_def
    by (subst (1 2) Add_pair)
      (simp add: accepted_def ResetLocalDatabaseToDefault_def good_reset Let_def
        Add_Completed_log [OF assms(1), where e = e])
qed

lemma HandleReplace_outcome:
  assumes "freshNext s" "dbObject s = Some d" "good d" "dbOps e = D" "zlibOps e = Z"
    and "dbChecksum s = GetCurrentChecksum D d"
    and "HandleReplaceSenior e from optMsg s = (st, s')"
  shows "if IsOK st then accepted D good same Z s s' d else refused D good same s s' d"
proof (cases optMsg)
  case None
  with assms show ?thesis
    by (auto simp: HandleReplaceSenior_def refused_def intro: same_refl)
next
  case (Some m)
  let ?u = "newUpdateFor s 2 from :: 'm PZGDatabaseUpdate"
  obtain ret d' where ret: "SetFromArchive D m d = (ret, d')"
    by (cases "SetFromArchive D m d")
  have gd: "good d'"
    using assms(3) ret by (rule good_archive)
  have Z: "IsOK ret \<Longrightarrow> replays D Z good same (completedUpdate e ?u (Some m) chk) d d'" for chk
    using archive_same [OF assms(3)] ret by (auto simp: replays_def applyUpdate_def update_type_of_def)
  show ?thesis
  proof (cases "IsOK ret")
    case True
    then show ?thesis
      using assms(2,4,7) Some ret gd Z
      unfolding HandleReplaceSenior_def Let_def
      by (subst (asm) Add_pair)
        (auto simp: accepted_def SetLocalDatabaseFromMessage_def Let_def
          Add_Completed_log [OF assms(1), where e = e])
  next
    case False
    moreover have "same d d'"
      using archive_refused [OF assms(3) ret False] .
    ultimately show ?thesis
      using assms(2,4,7) Some ret gd
      unfolding HandleReplaceSenior_def Let_def
      by (subst (asm) Add_pair)
        (auto simp: refused_def SetLocalDatabaseFromMessage_def Let_def
          Add_Remove_log [OF assms(1), where e = e])
  qed
qed

lemma HandleUpdate_outcome:
  assumes "freshNext s" "dbObject s = Some d" "good d" "dbOps e = D" "zlibOps e = Z"
    and "dbChecksum s = GetCurrentChecksum D d"
    and "HandleUpdateSenior e from optMsg s = (st, s')"
  shows "if IsOK st then accepted D good same Z s s' d else refused D good same s s' d"
proof (cases optMsg)
  case None
  with assms show ?thesis
    by (auto simp: HandleUpdateSenior_def refused_def intro: same_refl)
next
  case (Some m)
  let ?u = "newUpdateFor s 3 from :: 'm PZGDatabaseUpdate"
  obtain ret d' where ret: "SeniorUpdate D m d = (ret, d')"
    by (cases "SeniorUpdate D m d")
  have gd: "good d'"
    using assms(3) ret by (rule good_senior)
  show ?thesis
  proof (cases ret)
    case (Some j)
    have Z: "replays D Z good same (completedUpdate e ?u (Some j) chk) d d'" for chk
      using junior_replay [OF assms(3)] ret Some by (auto simp: replays_def applyUpdate_def update_type_of_def)
    show ?thesis
      using assms(2,4,7) \<open>optMsg = Some m\<close> ret gd Z Some
      unfolding HandleUpdateSenior_def Let_def
      by (subst (asm) Add_pair)
        (auto simp: accepted_def SeniorUpdateLocalDatabase_def Let_def
          Add_Completed_log [OF assms(1), where e = e])
  next
    case None
    moreover have "same d d'"
      using senior_refused [OF assms(3)] ret None by simp
    ultimately show ?thesis
      using assms(2,4,7) \<open>optMsg = Some m\<close> ret gd
      unfolding HandleUpdateSenior_def Let_def
      by (subst (asm) Add_pair)
        (auto simp: refused_def SeniorUpdateLocalDatabase_def Let_def
          Add_Remove_log [OF assms(1), where e = e])
  qed
qed

lemma senior_request_outcome:
  assumes "freshNext s" "dbObject s = Some d" "good d" "isSeniorEnv D Z e"
    and "dbChecksum s = GetCurrentChecksum D d" "seniorCommand msg"
    and "HandleDatabaseUpdateRequest e fromPeer msg opt s = (st, s')"
  shows "if IsOK st then accepted D good same Z s s' d else refused D good same s s' d"
proof -
  have e: "dbOps e = D" "zlibOps e = Z"
    using assms(4) by (simp_all add: isSeniorEnv_def)
  have idle: "refused D good same s s d"
    using assms(2,3,5) by (auto simp: refused_def intro: same_refl)
  show ?thesis
    using assms(6,7) idle HandleReset_accepted [OF assms(1-3) e(1), of fromPeer Z]
      HandleReplace_outcome [OF assms(1-3) e assms(5)] HandleUpdate_outcome [OF assms(1-3) e assms(5)]
    by (auto simp: HandleDatabaseUpdateRequest_def seniorCommand_def split: if_splits)
qed

end

section \<open>Back-order requests leave the database alone\<close>

lemma RequestBackOrder_frame [simp]:
  "updateLog (snd (RequestBackOrderFromSeniorPeer e k b s)) = updateLog s"
  "localDatabaseStateID (snd (RequestBackOrderFromSeniorPeer e k b s)) = localDatabaseStateID s"
  "dbObject (snd (RequestBackOrderFromSeniorPeer e k b s)) = dbObject s"
  "dbChecksum (snd (RequestBackOrderFromSeniorPeer e k b s)) = dbChecksum s"
  "whichDatabase (snd (RequestBackOrderFromSeniorPeer e k b s)) = whichDatabase s"
  "seniorDatabaseStateID (snd (RequestBackOrderFromSeniorPeer e k b s)) = seniorDatabaseStateID s"
  "multicasts (effects (snd (RequestBackOrderFromSeniorPeer e k b s))) = multicasts (effects s)"
  by (simp_all add: RequestBackOrderFromSeniorPeer_def Let_def)

lemma RequestFull_frame [simp]:
  "updateLog (snd (RequestFullDatabaseResendFromSeniorPeer e b s)) = updateLog s"
  "localDatabaseStateID (snd (RequestFullDatabaseResendFromSeniorPeer e b s)) = localDatabaseStateID s"
  "dbObject (snd (RequestFullDatabaseResendFromSeniorPeer e b s)) = dbObject s"
  "dbChecksum (snd (RequestFullDatabaseResendFromSeniorPeer e b s)) = dbChecksum s"
  "whichDatabase (snd (RequestFullDatabaseResendFromSeniorPeer e b s)) = whichDatabase s"
  "seniorDatabaseStateID (snd (RequestFullDatabaseResendFromSeniorPeer e b s)) = seniorDatabaseStateID s"
  by (simp_all add: RequestFullDatabaseResendFromSeniorPeer_def)

definition sameData :: "('db, 'm) PZGDatabaseState \<Rightarrow> ('db, 'm) PZGDatabaseState \<Rightarrow> bool" where
  "sameData s s' \<longleftrightarrow>
     updateLog s' = updateLog s \<and> localDatabaseStateID s' = localDatabaseStateID s \<and>
     dbObject s' = dbObject s \<and> dbChecksum s' = dbChecksum s \<and> whichDatabase s' = whichDatabase s"

lemma sameData_refl [simp]: "sameData s s"
  by (simp add: sameData_def)

lemma sameData_RequestBackOrder:
  "sameData (snd (RequestBackOrderFromSeniorPeer e k b s)) s' \<Longrightarrow> sameData s s'"
  by (simp add: sameData_def)

lemma backOrderLoop_frame:
  assumes "backOrderLoop e target uid s = Some s'"
  shows "sameData s s'"
proof (rule backOrderLoop.raw_induct [where P = "\<lambda>e target uid s s'. sameData s s'", OF _ assms])
  fix f :: "('a, 'b) master \<Rightarrow> u64 \<Rightarrow> u64 \<Rightarrow> ('a, 'b) PZGDatabaseState \<Rightarrow> ('a, 'b) PZGDatabaseState option"
    and e :: "('a, 'b) master" and target uid :: u64 and s y :: "('a, 'b) PZGDatabaseState"
  let ?k = "PZGUpdateBackOrderKey (GetSeniorPeerID e) (whichDatabase s) uid"
  let ?s = "snd (RequestBackOrderFromSeniorPeer e ?k False s)"
  assume IH: "\<And>e target uid s y. f e target uid s = Some y \<Longrightarrow> sameData s y"
    and step: "(if uid \<le> target
       then if tabHas updateID uid (updateLog s) then f e target (uid + 1) s
            else let ubok = ?k in
                 if ubok \<in> set (backorders s) then f e target (uid + 1) s
                 else let r = RequestBackOrderFromSeniorPeer e ubok False s in
                      if IsOK (fst r) then f e target (uid + 1) (snd r)
                      else Some (snd (RequestFullDatabaseResendFromSeniorPeer e False (snd r)))
       else Some s) = Some y"
  have "sameData s (snd (RequestFullDatabaseResendFromSeniorPeer e False ?s))"
    by (simp add: sameData_def)
  then show "sameData s y"
    using step sameData_RequestBackOrder [OF IH, of e target "uid + 1" e ?k False s y]
    by (auto simp: Let_def split: if_splits dest: IH)
qed

lemma holdsState_sameData:
  "sameData s s' \<Longrightarrow> holdsState D good same d0 H k s' = holdsState D good same d0 H k s"
  by (simp add: holdsState_def sameData_def)

section \<open>Junior steps\<close>

lemma of_nat_u64_Suc: "(of_nat k :: u64) + 1 = of_nat (Suc k)"
  by simp

lemma of_nat_u64_less: "a < 2 ^ 64 \<Longrightarrow> b < 2 ^ 64 \<Longrightarrow> (of_nat a :: u64) < of_nat b \<longleftrightarrow> a < b"
  by (simp add: word_less_nat_alt unat_of_nat_small)

context replicated_database
begin

lemma good_dbAt: "history_ok D Z good same d0 H \<Longrightarrow> k \<le> length H \<Longrightarrow> good (dbAt d0 H k)"
  by (auto simp: history_ok_def dbAt_def)

lemma junior_executes:
  assumes "history_ok D Z good same d0 H" "zlib_lossless Z" "holdsState D good same d0 H k s"
    and "isJuniorEnv D Z e" "set (updateLog s) \<subseteq> onWire Z ` fst ` set H"
    and "logGet (localDatabaseStateID s + 1) (updateLog s) = Some u"
  shows "fst (JuniorExecuteDatabaseUpdate e u s) = B_NO_ERROR"
    "holdsState D good same d0 H (Suc k) (snd (JuniorExecuteDatabaseUpdate e u s))"
    "updateLog (snd (JuniorExecuteDatabaseUpdate e u s)) = updateLog s"
proof -
  have e: "dbOps e = D" "zlibOps e = Z"
    using assms(4) by (simp_all add: isJuniorEnv_def)
  obtain t where t: "dbObject s = Some t" "good t" "same (dbAt d0 H k) t"
      "dbChecksum s = GetCurrentChecksum D t" and k: "k \<le> length H" "localDatabaseStateID s = of_nat k"
    using assms(3) by (auto simp: holdsState_def)
  from tabGet_SomeD [OF assms(6)] obtain v where v: "v \<in> fst ` set H" "u = onWire Z v"
      and uid: "updateID u = of_nat (Suc k)"
    using assms(5) k(2) by (fastforce simp: add.commute)
  have "k < 2 ^ 64 - 1"
    using assms(1) k(1) by (auto simp: history_ok_def)
  with v uid have "k < length H \<and> fst (H ! k) = v"
    by (intro history_lookup [OF assms(1) v(1)]) auto
  then have kl: "k < length H" and vk: "fst (H ! k) = v"
    by auto
  have H: "good (snd (H ! k))" "preUpdateDBChecksum v = GetCurrentChecksum D (dbAt d0 H k)"
    "postUpdateDBChecksum v = GetCurrentChecksum D (snd (H ! k))" "cacheConsistent Z v"
    "replays D Z good same v (dbAt d0 H k) (snd (H ! k))"
    using assms(1) kl vk by (auto simp: history_ok_def)
  obtain t' where t': "applyUpdate D Z u t = (B_NO_ERROR, t')" "good t'" "same (snd (H ! k)) t'"
    using H(5) t(2,3) by (auto simp: replays_def v(2) applyUpdate_onWire [OF assms(2) H(4)])
  have pre: "dbChecksum s = preUpdateDBChecksum u"
    using same_checksum [OF good_dbAt [OF assms(1) k(1)] t(2,3)] t(4) H(2) v(2) by simp
  have post: "GetCurrentChecksum D t' = postUpdateDBChecksum u"
    using same_checksum [OF H(1) t'(2,3)] H(3) v(2) by simp
  note aux = JuniorAux_applyUpdate [OF t(1), of e u t', unfolded e, OF t'(1) t(4)]
  have lookup: "JuniorExecuteDatabaseUpdate e u s =
      (B_NO_ERROR, snd (JuniorExecuteDatabaseUpdateAux e u s) \<lparr> localDatabaseStateID := updateID u \<rparr>)"
    using aux pre post uid k(2)
    by (simp add: JuniorExecuteDatabaseUpdate_def Let_def split_beta add.commute)
  show "fst (JuniorExecuteDatabaseUpdate e u s) = B_NO_ERROR"
    "updateLog (snd (JuniorExecuteDatabaseUpdate e u s)) = updateLog s"
    by (simp_all add: lookup)
  show "holdsState D good same d0 H (Suc k) (snd (JuniorExecuteDatabaseUpdate e u s))"
    using aux t' kl uid by (simp add: lookup holdsState_def dbAt_def)
qed

lemma juniorAdvance_safe:
  assumes "history_ok D Z good same d0 H" "zlib_lossless Z" "isJuniorEnv D Z e"
  shows "juniorAdvance e target s = Some s' \<Longrightarrow> holdsState D good same d0 H k s \<Longrightarrow>
    set (updateLog s) \<subseteq> onWire Z ` fst ` set H \<Longrightarrow>
    updateLog s' = updateLog s \<and> (\<exists>k'. holdsState D good same d0 H k' s')"
  using assms
proof (induction e target s arbitrary: k rule: juniorAdvance.induct)
  case (1 e target s)
  show ?case
  proof (cases "localDatabaseStateID s < target")
    case False
    then show ?thesis
      using 1(2,3) by (subst (asm) juniorAdvance.simps) auto
  next
    case lt: True
    show ?thesis
    proof (cases "logGet (localDatabaseStateID s + 1) (updateLog s)")
      case (Some u)
      note ex = junior_executes [OF 1(5,6,3,7,4) Some]
      have "juniorAdvance e target (snd (JuniorExecuteDatabaseUpdate e u s)) = Some s'"
        using 1(2) lt Some ex(1) by (subst (asm) juniorAdvance.simps) (simp add: Let_def)
      from 1(1) [OF lt refl Some refl ex(1) this ex(2)] ex(3) 1(4-7) show ?thesis
        by simp
    next
      case None
      have "sameData s s'"
        using 1(2) lt None
        by (subst (asm) juniorAdvance.simps)
          (auto simp: Let_def sameData_def split: if_splits dest: backOrderLoop_frame [unfolded sameData_def])
      then show ?thesis
        using 1(3) holdsState_sameData [OF \<open>sameData s s'\<close>] by (auto simp: sameData_def)
    qed
  qed
qed

lemma junior_rescan_safe:
  assumes "history_ok D Z good same d0 H" "zlib_lossless Z" "isJuniorEnv D Z e"
    and "holdsState D good same d0 H k s" "set (updateLog s) \<subseteq> onWire Z ` fst ` set H"
    and "RescanUpdateLog e s = Some s'"
  shows "set (updateLog s') \<subseteq> set (updateLog s) \<and> (\<exists>k'. holdsState D good same d0 H k' s')"
proof -
  have nosenior: "\<not> IAmTheSeniorPeer e"
    using assms(3) by (simp add: isJuniorEnv_def)
  define s1 where "s1 = s \<lparr> firstUnsentUpdateID := localDatabaseStateID s + 1 \<rparr>"
  have h1: "holdsState D good same d0 H k s1" "set (updateLog s1) \<subseteq> onWire Z ` fst ` set H" "updateLog s1 = updateLog s"
    using assms(4,5) by (simp_all add: s1_def holdsState_def)
  show ?thesis
  proof (cases "seniorDatabaseStateReceived s")
    case False
    then show ?thesis
      using assms(4,6) nosenior by (auto simp: RescanUpdateLog_def)
  next
    case True
    have "\<exists>s2. s' = trimJuniorLog e s2 \<and> updateLog s2 = updateLog s \<and> (\<exists>k'. holdsState D good same d0 H k' s2)"
    proof -
      consider "s' = trimJuniorLog e s1"
        | "s' = trimJuniorLog e (snd (RequestFullDatabaseResendFromSeniorPeer e False s1))"
        | s2 where "juniorAdvance e (GetTargetDatabaseStateID s1) s1 = Some s2" "s' = trimJuniorLog e s2"
        using assms(6) nosenior True
        by (auto simp: RescanUpdateLog_def Let_def simp flip: s1_def split: if_splits)
      then show ?thesis
      proof cases
        case 2
        have "sameData s1 (snd (RequestFullDatabaseResendFromSeniorPeer e False s1))"
          by (simp add: sameData_def)
        then show ?thesis
          using 2 h1 holdsState_sameData by fastforce
      next
        case (3 s2)
        then show ?thesis
          using juniorAdvance_safe [OF assms(1-3) 3(1) h1(1,2)] h1(3) by auto
      qed (use h1 in auto)
    qed
    then show ?thesis
      using trimJunior_subset by (fastforce simp: holdsState_def)
  qed
qed

lemma junior_replace_safe:
  assumes "isFullReply D Z good same d0 H u" "history_ok D Z good same d0 H"
    and "holdsState D good same d0 H k s" "isJuniorEnv D Z e"
  shows "\<exists>k'. holdsState D good same d0 H k' (snd (JuniorExecuteDatabaseReplace e u s))"
    "updateLog (snd (JuniorExecuteDatabaseReplace e u s)) = updateLog s"
    "fst (JuniorExecuteDatabaseReplace e u s) = B_NO_ERROR"
    "localDatabaseStateID (snd (JuniorExecuteDatabaseReplace e u s)) = updateID u"
proof -
  have e: "dbOps e = D" "zlibOps e = Z"
    using assms(4) by (simp_all add: isJuniorEnv_def)
  obtain t where t: "dbObject s = Some t" "good t" "dbChecksum s = GetCurrentChecksum D t"
    using assms(3) by (auto simp: holdsState_def)
  obtain j t' where j: "j \<le> length H" "updateID u = of_nat j"
      "postUpdateDBChecksum u = GetCurrentChecksum D (dbAt d0 H j)"
    and t': "applyUpdate D Z u t = (B_NO_ERROR, t')" "good t'" "same (dbAt d0 H j) t'"
    using assms(1) t(2) by (auto simp: isFullReply_def)
  let ?s = "s \<lparr> printDatabaseStatesComparisonOnNextReplace := False \<rparr>"
  have dbo: "dbObject ?s = Some t" "dbChecksum ?s = GetCurrentChecksum D t"
    using t by simp_all
  note aux = JuniorAux_applyUpdate [OF dbo(1), of e u t', unfolded e, OF t'(1) dbo(2)]
  have "GetCurrentChecksum D t' = postUpdateDBChecksum u"
    using same_checksum [OF good_dbAt [OF assms(2) j(1)] t'(2,3)] j(3) by simp
  then have lookup: "JuniorExecuteDatabaseReplace e u s =
      (B_NO_ERROR, snd (JuniorExecuteDatabaseUpdateAux e u ?s) \<lparr> localDatabaseStateID := updateID u \<rparr>)"
    using aux by (simp add: JuniorExecuteDatabaseReplace_def Let_def split_beta)
  show "fst (JuniorExecuteDatabaseReplace e u s) = B_NO_ERROR"
    "updateLog (snd (JuniorExecuteDatabaseReplace e u s)) = updateLog s"
    "localDatabaseStateID (snd (JuniorExecuteDatabaseReplace e u s)) = updateID u"
    by (simp_all add: lookup)
  show "\<exists>k'. holdsState D good same d0 H k' (snd (JuniorExecuteDatabaseReplace e u s))"
    using aux t' j by (auto simp: lookup holdsState_def)
qed

end

section \<open>The invariant holds in every reachable state\<close>

context replicated_database
begin

lemma replays_from_same:
  "same a d \<Longrightarrow> replays D Z good same u d d' \<Longrightarrow> replays D Z good same u a d'"
  unfolding replays_def using same_sym same_trans by blast

lemma senior_fresh:
  assumes "history_ok D Z good same d0 H" "set (updateLog s) \<subseteq> fst ` set H"
    and "localDatabaseStateID s = of_nat (length H)"
  shows "freshNext s"
proof
  fix x assume "x \<in> set (updateLog s)"
  then obtain p where "p \<in> set H" "fst p = x"
    using assms(2) by auto
  then obtain i where i: "i < length H" "fst (H ! i) = x"
    by (auto simp: in_set_conv_nth)
  then have "updateID x = of_nat (Suc i)"
    using assms(1) unfolding history_ok_def by blast
  moreover have "length H < 2 ^ 64 - 1"
    using assms(1) by (simp add: history_ok_def)
  ultimately have "updateID x < of_nat (Suc (length H))"
    using i(1)
    by (simp del: of_nat_Suc add: of_nat_u64_less)
  then show "updateID x < localDatabaseStateID s + 1"
    by (simp add: assms(3) add.commute)
qed

lemma history_extend:
  assumes "history_ok D Z good same d0 H" "Suc (length H) < 2 ^ 64 - 1"
    and "good d'" "same (dbAt d0 H (length H)) d" "good d" "updateBuf v = None"
    and "updateID v = of_nat (Suc (length H))" "preUpdateDBChecksum v = GetCurrentChecksum D d"
    and "postUpdateDBChecksum v = GetCurrentChecksum D d'" "replays D Z good same v d d'"
  shows "history_ok D Z good same d0 (H @ [(v, d')])"
proof -
  have pre: "GetCurrentChecksum D (dbAt d0 H (length H)) = GetCurrentChecksum D d"
    by (intro same_checksum good_dbAt [OF assms(1)] assms(4,5) order_refl)
  have rep: "replays D Z good same v (dbAt d0 H (length H)) d'"
    using assms(4,10) by (rule replays_from_same)
  show ?thesis
    unfolding history_ok_def
  proof (intro conjI allI impI)
    fix i assume "i < length (H @ [(v, d')])"
    then consider "i < length H" | "i = length H"
      by fastforce
    then show "good (snd ((H @ [(v, d')]) ! i))"
      "updateID (fst ((H @ [(v, d')]) ! i)) = of_nat (Suc i)"
      "preUpdateDBChecksum (fst ((H @ [(v, d')]) ! i)) = GetCurrentChecksum D (dbAt d0 (H @ [(v, d')]) i)"
      "postUpdateDBChecksum (fst ((H @ [(v, d')]) ! i)) = GetCurrentChecksum D (snd ((H @ [(v, d')]) ! i))"
      "cacheConsistent Z (fst ((H @ [(v, d')]) ! i))"
      "replays D Z good same (fst ((H @ [(v, d')]) ! i)) (dbAt d0 (H @ [(v, d')]) i) (snd ((H @ [(v, d')]) ! i))"
      using assms(1,3,6-9) pre rep
      by (cases; simp add: history_ok_def nth_append dbAt_append cacheConsistent_def)+
  qed (use assms(1,2) in \<open>simp_all add: history_ok_def\<close>)
qed

lemma step_senior_request:
  assumes inv: "sys_inv D Z good same d0 y"
    and "isSeniorEnv D Z e" "seniorCommand msg" "Suc (length (history y)) < 2 ^ 64 - 1"
    and "HandleDatabaseUpdateRequest e fromPeer msg opt (senior y) = (st, S)"
  shows "sys_inv D Z good same d0 (y \<lparr> senior := S, history := recordUpdate S st (history y) \<rparr>)"
proof -
  let ?H = "history y" and ?s = "senior y"
  have ok: "history_ok D Z good same d0 ?H" and log: "set (updateLog ?s) \<subseteq> fst ` set ?H"
    and srt: "ordInv updateID (updateLog ?s)"
    using inv by (simp_all add: sys_inv_def)
  obtain d where d: "dbObject ?s = Some d" "good d" "same (dbAt d0 ?H (length ?H)) d"
      "dbChecksum ?s = GetCurrentChecksum D d" "localDatabaseStateID ?s = of_nat (length ?H)"
    using inv by (auto simp: sys_inv_def holdsState_def)
  have fresh: "freshNext ?s"
    using senior_fresh [OF ok log d(5)] .
  note out = senior_request_outcome [OF fresh d(1,2) assms(2) d(4) assms(3,5)]
  show ?thesis
  proof (cases "IsOK st")
    case False
    then have "refused D good same ?s S d"
      using out by simp
    moreover have "recordUpdate S st ?H = ?H"
      using False by (simp add: recordUpdate_def split: option.split)
    ultimately show ?thesis
      using inv d(3) by (auto simp: sys_inv_def refused_def holdsState_def dest: same_trans)
  next
    case True
    then obtain v d' where v: "updateLog S = updateLog ?s @ [v]" "updateID v = localDatabaseStateID ?s + 1"
        "preUpdateDBChecksum v = dbChecksum ?s" "postUpdateDBChecksum v = GetCurrentChecksum D d'"
        "updateBuf v = None" "dbObject S = Some d'" "good d'" "dbChecksum S = GetCurrentChecksum D d'"
        "replays D Z good same v d d'" "localDatabaseStateID S = localDatabaseStateID ?s + 1"
        "multicasts (effects S) = multicasts (effects ?s)"
      using out by (auto simp: accepted_def)
    have "updateID v \<notin> updateID ` set (updateLog ?s)"
      using fresh v(2) by auto
    then have rec: "recordUpdate S st ?H = ?H @ [(v, d')]"
      using True v(1,2,6,10) by (simp add: recordUpdate_def tabGet_snoc)
    have vid: "updateID v = of_nat (Suc (length ?H))"
      using v(2) d(5) by (simp add: add.commute)
    have ok': "history_ok D Z good same d0 (?H @ [(v, d')])"
      by (rule history_extend [OF ok assms(4) v(7) d(3,2) v(5) vid _ v(4,9)]) (simp add: v(3) d(4))
    have "ordInv updateID (updateLog S)"
      using srt fresh by (auto simp: v(1,2) ordInv_def sorted_wrt_append)
    moreover have "holdsState D good same d0 (?H @ [(v, d')]) (Suc (length ?H)) S"
      using v d(5) by (auto simp: holdsState_def dbAt_def add.commute intro: same_refl)
    moreover have "repliesOK D Z good same d0 (?H @ [(v, d')]) (replies y)"
      using inv by (intro repliesOK_append) (simp add: sys_inv_def)
    ultimately show ?thesis
      using inv ok' v(11) holdsState_append [of D good same d0 ?H _ "junior y"]
      by (auto simp: sys_inv_def rec v(1))
  qed
qed

lemma step_senior_rescan:
  assumes inv: "sys_inv D Z good same d0 y" and "isSeniorEnv D Z e"
    and "RescanUpdateLog e (senior y) = Some S"
  shows "sys_inv D Z good same d0 (y \<lparr> senior := S \<rparr>)"
proof (cases "updateLog (senior y) = []")
  case True
  then show ?thesis
    using assms by (auto simp: RescanUpdateLog_def isSeniorEnv_def sys_inv_def)
next
  case False
  let ?f = "fold (multicastIfUnsent e) (updateLog (senior y)) (senior y)"
  have srt: "ordInv updateID (updateLog (senior y))"
    using inv by (simp add: sys_inv_def)
  have S: "S = trimSeniorLog e ?f"
    using assms(2,3) False seniorScan_eq_fold [OF srt, of "length (updateLog (senior y)) - 1" e "senior y"]
    by (simp add: RescanUpdateLog_def isSeniorEnv_def)
  have sub: "set (updateLog (senior y)) \<subseteq> fst ` set (history y)"
    "set (multicasts (effects (senior y))) \<subseteq> fst ` set (history y)"
    using inv by (simp_all add: sys_inv_def)
  have "set (updateLog S) \<subseteq> fst ` set (history y)" "ordInv updateID (updateLog S)"
    using trimSenior_subset [of e ?f] trimSenior_sorted [of ?f e] srt sub(1) by (simp_all add: S)
  moreover have "set (multicasts (effects S)) \<subseteq> fst ` set (history y)"
    using fold_multicast_effects [OF srt, of e "senior y"] sub by (auto simp: S)
  moreover have "holdsState D good same d0 H k S = holdsState D good same d0 H k (senior y)" for H k
    by (simp add: S holdsState_def)
  ultimately show ?thesis
    using inv unfolding sys_inv_def by simp
qed

lemma full_reply_sound:
  assumes "history_ok D Z good same d0 H" "zlib_lossless Z" "holdsState D good same d0 H (length H) s"
    and "isSeniorEnv D Z e" "GetDatabaseUpdateByID e DATABASE_UPDATE_ID_FULL_UPDATE s = Some u"
  shows "isFullReply D Z good same d0 H (onWire Z u)"
proof -
  obtain d where d: "dbObject s = Some d" "good d" "same (dbAt d0 H (length H)) d"
      "dbChecksum s = GetCurrentChecksum D d" "localDatabaseStateID s = of_nat (length H)"
    using assms(3) by (auto simp: holdsState_def)
  have e: "dbOps e = D"
    using assms(4) by (simp add: isSeniorEnv_def)
  obtain m where m: "SaveToArchive D d = Inr m"
      and u: "updateType u = 2" "updateID u = of_nat (length H)" "postUpdateDBChecksum u = GetCurrentChecksum D d"
        "updateBuf u = None" "GetPayloadBufferAsMessage Z u = Some m"
    using assms(5) d e
    by (auto simp: GetDatabaseUpdateByID_def SaveLocalDatabaseToMessage_def SetPayloadMessage_def
        SetSeniorElapsedTimeMicros_def GetPZGDatabaseUpdateFromPool_def
        GetPayloadBufferAsMessage_cached_def split: sum.splits)
  have "cacheConsistent Z u"
    using u(4) by (simp add: cacheConsistent_def)
  then have app: "applyUpdate D Z (onWire Z u) t = SetFromArchive D m t" for t
    by (simp add: applyUpdate_onWire [OF assms(2)]) (simp add: applyUpdate_def u update_type_of_def)
  have "\<exists>t'. SetFromArchive D m t = (B_NO_ERROR, t') \<and> good t' \<and> same (dbAt d0 H (length H)) t'" if "good t" for t
    using archive_roundtrip [OF d(2) that m] same_trans [OF d(3)] by blast
  moreover have "GetCurrentChecksum D d = GetCurrentChecksum D (dbAt d0 H (length H))"
    using same_checksum [OF good_dbAt [OF assms(1)] d(2,3)] by simp
  ultimately show ?thesis
    using u by (auto simp: isFullReply_def app)
qed

lemma step_serve:
  assumes inv: "sys_inv D Z good same d0 y" and "zlib_lossless Z" and "isSeniorEnv D Z e"
    and "GetDatabaseUpdateByID e uid (senior y) = Some u"
  shows "sys_inv D Z good same d0 (y \<lparr> replies := insert (uid, onWire Z u) (replies y) \<rparr>)"
proof -
  have "if uid = DATABASE_UPDATE_ID_FULL_UPDATE then isFullReply D Z good same d0 (history y) (onWire Z u)
        else onWire Z u \<in> onWire Z ` fst ` set (history y)"
  proof (cases "uid = DATABASE_UPDATE_ID_FULL_UPDATE")
    case True
    then show ?thesis
      using full_reply_sound [OF _ assms(2) _ assms(3)] inv assms(4) by (auto simp: sys_inv_def)
  next
    case False
    then have "u \<in> set (updateLog (senior y))"
      using assms(4) by (auto simp: GetDatabaseUpdateByID_def dest: tabGet_SomeD)
    then show ?thesis
      using inv False by (auto simp: sys_inv_def)
  qed
  then have "repliesOK D Z good same d0 (history y) (insert (uid, onWire Z u) (replies y))"
    using inv by (auto simp: sys_inv_def repliesOK_def)
  then show ?thesis
    using inv by (auto simp: sys_inv_def)
qed

text \<open>A step of the junior that keeps its log within the history and its state in step.\<close>

lemma step_junior:
  assumes "sys_inv D Z good same d0 y" "set (updateLog J) \<subseteq> onWire Z ` fst ` set (history y)"
    and "\<exists>k. holdsState D good same d0 (history y) k J"
  shows "sys_inv D Z good same d0 (y \<lparr> junior := J \<rparr>)"
  using assms by (auto simp: sys_inv_def)

lemma junior_add_safe:
  assumes "holdsState D good same d0 H k s" "set (updateLog s) \<subseteq> X" "u \<in> X"
  shows "holdsState D good same d0 H k (snd (AddDatabaseUpdateToUpdateLog e (Some u) s))"
    "set (updateLog (snd (AddDatabaseUpdateToUpdateLog e (Some u) s))) \<subseteq> X"
  using assms set_ordPut_subset [of updateID u "updateLog s"] by (auto simp: holdsState_def)

lemma junior_reply_safe:
  assumes ok: "history_ok D Z good same d0 H" and hold: "holdsState D good same d0 H k s"
    and log: "set (updateLog s) \<subseteq> onWire Z ` fst ` set H" and e: "isJuniorEnv D Z e"
    and u: "\<And>v. opt = Some v \<Longrightarrow>
      if GetDatabaseUpdateID ubok = DATABASE_UPDATE_ID_FULL_UPDATE then isFullReply D Z good same d0 H v
      else v \<in> onWire Z ` fst ` set H"
  shows "(\<exists>k'. holdsState D good same d0 H k' (BackOrderResultReceived e ubok opt s)) \<and>
         set (updateLog (BackOrderResultReceived e ubok opt s)) \<subseteq> onWire Z ` fst ` set H"
proof -
  define s1 where "s1 = s \<lparr> backorders := filter (\<lambda>k. k \<noteq> ubok) (backorders s) \<rparr>"
  have h1: "holdsState D good same d0 H k s1" "set (updateLog s1) \<subseteq> onWire Z ` fst ` set H"
    using hold log by (simp_all add: s1_def holdsState_def)
  have sched: "holdsState D good same d0 H j (ScheduleLogContentsRescan e x) = holdsState D good same d0 H j x" for j x
    by (simp add: holdsState_def)
  have full: "holdsState D good same d0 H j (snd (RequestFullDatabaseResendFromSeniorPeer e b x)) =
      holdsState D good same d0 H j x" for j b x
    by (simp add: holdsState_def)
  show ?thesis
  proof (cases opt)
    case None
    then show ?thesis
      using h1 by (auto simp: BackOrderResultReceived_def Let_def full simp flip: s1_def)
  next
    case (Some v)
    show ?thesis
    proof (cases "GetDatabaseUpdateID ubok = DATABASE_UPDATE_ID_FULL_UPDATE")
      case True
      then have "isFullReply D Z good same d0 H v"
        using u [OF Some] by simp
      note rep = junior_replace_safe [OF this ok h1(1) e]
      show ?thesis
        using h1 rep Some True
        by (auto simp: BackOrderResultReceived_def Let_def split_beta sched simp flip: s1_def)
    next
      case False
      then have "v \<in> onWire Z ` fst ` set H"
        using u [OF Some] by simp
      note add = junior_add_safe [OF h1 this, of e]
      show ?thesis
        using h1 add Some False
        by (auto simp: BackOrderResultReceived_def Let_def split_beta sched simp flip: s1_def)
    qed
  qed
qed

lemma sys_inv_step:
  assumes "sys_step D Z y y'" "sys_inv D Z good same d0 y" "zlib_lossless Z"
  shows "sys_inv D Z good same d0 y'"
  using assms
proof cases
  case (SeniorRequest e msg fromPeer opt st S)
  then show ?thesis
    using step_senior_request assms(2) by simp
next
  case (SeniorRescan e S)
  then show ?thesis
    using step_senior_rescan assms(2) by simp
next
  case (SeniorServesBackOrder e uid u)
  then show ?thesis
    using step_serve assms(2,3) by simp
next
  case (MulticastArrives e u fromPeer st J)
  have J: "J = snd (AddDatabaseUpdateToUpdateLog e (Some (onWire Z u)) (junior y))"
    using MulticastArrives(4)
    by (auto simp: HandleDatabaseUpdateRequest_def juniorUpdateMessage_def peer_command_defs)
  obtain k where "holdsState D good same d0 (history y) k (junior y)"
    "set (updateLog (junior y)) \<subseteq> onWire Z ` fst ` set (history y)" "onWire Z u \<in> onWire Z ` fst ` set (history y)"
    using assms(2) MulticastArrives(3) unfolding sys_inv_def by blast
  note add = junior_add_safe [OF this, of e]
  show ?thesis
    unfolding MulticastArrives(1) using add by (intro step_junior [OF assms(2)]) (auto simp: J)
next
  case (BeaconArrives e info)
  have "updateLog (SeniorDatabaseStateInfoChanged e info (junior y)) = updateLog (junior y)"
    "holdsState D good same d0 H k (SeniorDatabaseStateInfoChanged e info (junior y)) =
     holdsState D good same d0 H k (junior y)" for H k
    by (simp_all add: SeniorDatabaseStateInfoChanged_def holdsState_def)
  then show ?thesis
    using assms(2) unfolding BeaconArrives(1) by (intro step_junior [OF assms(2)]) (auto simp: sys_inv_def)
next
  case (JuniorRescan e J)
  obtain k where "history_ok D Z good same d0 (history y)" "holdsState D good same d0 (history y) k (junior y)"
    "set (updateLog (junior y)) \<subseteq> onWire Z ` fst ` set (history y)"
    using assms(2) by (auto simp: sys_inv_def)
  from junior_rescan_safe [OF this(1) assms(3) JuniorRescan(2) this(2,3) JuniorRescan(3)] this(3)
  show ?thesis
    unfolding JuniorRescan(1) by (intro step_junior [OF assms(2)]) auto
next
  case (ReplyArrives e ubok u)
  obtain k where "history_ok D Z good same d0 (history y)" "holdsState D good same d0 (history y) k (junior y)"
    "set (updateLog (junior y)) \<subseteq> onWire Z ` fst ` set (history y)"
    using assms(2) by (auto simp: sys_inv_def)
  moreover have "repliesOK D Z good same d0 (history y) (replies y)"
    using assms(2) by (simp add: sys_inv_def)
  then have "if GetDatabaseUpdateID ubok = DATABASE_UPDATE_ID_FULL_UPDATE
      then isFullReply D Z good same d0 (history y) u else u \<in> onWire Z ` fst ` set (history y)"
    using ReplyArrives(3) by (auto simp: repliesOK_def)
  ultimately show ?thesis
    using junior_reply_safe [OF _ _ _ ReplyArrives(2), of d0 "history y" k "junior y" "Some u" ubok]
    unfolding ReplyArrives(1) by (intro step_junior [OF assms(2)]) simp_all
next
  case (ReplyFails e ubok)
  obtain k where "history_ok D Z good same d0 (history y)" "holdsState D good same d0 (history y) k (junior y)"
    "set (updateLog (junior y)) \<subseteq> onWire Z ` fst ` set (history y)"
    using assms(2) by (auto simp: sys_inv_def)
  from junior_reply_safe [OF this ReplyFails(2), of None ubok]
  show ?thesis
    unfolding ReplyFails(1) by (intro step_junior [OF assms(2)]) auto
next
  case (SeniorSchedules b)
  then show ?thesis
    using assms(2) by (simp add: sys_inv_def holdsState_def)
next
  case (JuniorSchedules b)
  then show ?thesis
    using assms(2) by (simp add: sys_inv_def holdsState_def)
next
  case (SeniorVerifies e)
  obtain d where d: "dbObject (senior y) = Some d" "good d" "dbChecksum (senior y) = GetCurrentChecksum D d"
    using assms(2) by (auto simp: sys_inv_def holdsState_def)
  then have "VerifyOrFixLocalDatabaseChecksum e (senior y) = senior y"
    using SeniorVerifies(2) running_checksum [OF d(2)]
    by (simp add: VerifyOrFixLocalDatabaseChecksum_def isSeniorEnv_def CalculateLocalDatabaseChecksum_def)
  then show ?thesis
    using assms(2) SeniorVerifies(1) by simp
qed

lemma sys_inv_init:
  assumes "good dS" "good dJ" "dbOps eS = D" "dbOps eJ = D"
  shows "sys_inv D Z good same (SetToDefaultState D dS) (sys_init eS eJ which maxBytes dS dJ)"
  by (simp add: sys_inv_def sys_init_def history_ok_def holdsState_def dbAt_def repliesOK_def
      ResetLocalDatabaseToDefaultState_def ResetLocalDatabaseToDefault_def Let_def newPZGDatabaseState_def
      assms(3,4) good_reset assms(1,2) same_reset same_refl)

lemma sys_inv_reach:
  assumes "sys_reach D Z (sys_init eS eJ which maxBytes dS dJ) y" "zlib_lossless Z"
    and "good dS" "good dJ" "dbOps eS = D" "dbOps eJ = D"
  shows "sys_inv D Z good same (SetToDefaultState D dS) y"
  using assms(1)
proof (induction rule: sys_reach.induct)
  case reach_init
  show ?case
    using assms(3-6) by (rule sys_inv_init)
next
  case (reach_step y y')
  then show ?case
    using sys_inv_step assms(2) by blast
qed

text \<open>Peers that hold the same state ID hold the same database and the same checksum.\<close>

lemma sys_agree:
  assumes "sys_inv D Z good same d0 y"
    and "localDatabaseStateID (junior y) = localDatabaseStateID (senior y)"
  shows "\<exists>d t. dbObject (senior y) = Some d \<and> dbObject (junior y) = Some t \<and> same d t \<and>
     dbChecksum (senior y) = dbChecksum (junior y)"
proof -
  obtain k d t where kd: "k \<le> length (history y)" "localDatabaseStateID (junior y) = of_nat k"
      "dbObject (junior y) = Some t" "good t" "same (dbAt d0 (history y) k) t"
      "dbChecksum (junior y) = GetCurrentChecksum D t"
    and d: "localDatabaseStateID (senior y) = of_nat (length (history y))"
      "dbObject (senior y) = Some d" "good d" "same (dbAt d0 (history y) (length (history y))) d"
      "dbChecksum (senior y) = GetCurrentChecksum D d"
    using assms(1) by (auto simp: sys_inv_def holdsState_def)
  have "length (history y) < 2 ^ 64 - 1"
    using assms(1) by (simp add: sys_inv_def history_ok_def)
  then have "k = length (history y)"
    using assms(2) kd(1,2) d(1) by (simp add: of_nat_u64_inject)
  then have "same d t"
    using same_trans [OF same_sym [OF d(4)]] kd(5) by simp
  then show ?thesis
    using kd d same_checksum by auto
qed

end

end
