(* ===== verification/ZG_LogProperties.thy ===== *)
theory ZG_LogProperties
  imports ZG_Replication
begin

text \<open>
  The properties of a single \<^verbatim>\<open>PZGDatabaseState\<close>: exact tallies and roll-back on the
  senior, what a senior rescan multicasts and trims, what a junior rescan places on
  back-order and when it returns, and how a junior catches up.  Then the properties of
  the two-peer system: safety of replication in every reachable state.
\<close>

section \<open>Tallies\<close>

lemma payloadBytes_cong:
  "updateBuf u = updateBuf v \<Longrightarrow> updateMsg u = updateMsg v \<Longrightarrow> payloadBytes Z u = payloadBytes Z v"
  by (simp add: payloadBytes_def GetPayloadBuffer_cached_def split: option.split)

lemma map_replace_ordInv:
  "ordInv updateID us \<Longrightarrow> updateID v = k \<Longrightarrow> ordInv updateID (map (\<lambda>x. if updateID x = k then v else x) us)"
  unfolding ordInv_def map_replace_ids .

lemma Completed_logInv:
  assumes "logInv (zlibOps e) s" "u \<in> set (updateLog s)"
  shows "logInv (zlibOps e) (SeniorUpdateCompleted e u p s)"
proof -
  define up1 where "up1 = SetSeniorElapsedTimeMicros (endRunTime e - startRunTime e)
      (u \<lparr> seniorStartTimeMicros := GetNetworkTime64ForRunTime64 (toNetworkTimeOffset e) (startRunTime e) \<rparr>)"
  define up2 where "up2 = up1 \<lparr> postUpdateDBChecksum := dbChecksum s \<rparr>"
  define same where "same = (p = None \<and> GetPayloadBufferAsMessage (zlibOps e) up2 = None)"
  define up3 where "up3 = (if same then up2 else SetPayloadMessage p up2)"
  have ids: "updateID up3 = updateID u" "seniorElapsedTimeMillis up3 = seniorElapsedTimeMillis up1"
    by (simp_all add: up3_def up2_def up1_def SetSeniorElapsedTimeMicros_def SetPayloadMessage_def)
  have b2: "payloadBytes (zlibOps e) up2 = payloadBytes (zlibOps e) u"
    by (rule payloadBytes_cong) (simp_all add: up2_def up1_def SetSeniorElapsedTimeMicros_def)
  have inv: "tabInv updateID (updateLog s)" and srt: "ordInv updateID (updateLog s)"
    using assms(1) by (simp_all add: logInv_def ordInv_imp_tabInv)
  have sums: "logBytes Z (map (\<lambda>x. if updateID x = updateID u then v else x) (updateLog s)) =
      logBytes Z (updateLog s) - payloadBytes Z u + payloadBytes Z v"
    "logMillis (map (\<lambda>x. if updateID x = updateID u then v else x) (updateLog s)) =
      logMillis (updateLog s) - ucast (seniorElapsedTimeMillis u) + ucast (seniorElapsedTimeMillis v)" for v Z
    unfolding logBytes_def logMillis_def by (rule sum_list_map_replace [OF inv assms(2)])+
  have "SeniorUpdateCompleted e u p s = s
      \<lparr> totalElapsedMillisInLog := totalElapsedMillisInLog s - ucast (seniorElapsedTimeMillis u)
                                   + ucast (seniorElapsedTimeMillis up1),
        totalPayloadBytesInLog := (if same then totalPayloadBytesInLog s
          else totalPayloadBytesInLog s - payloadBytes (zlibOps e) up2 + payloadBytes (zlibOps e) up3),
        updateLog := map (\<lambda>x. if updateID x = updateID u then up3 else x) (updateLog s),
        localDatabaseStateID := localDatabaseStateID s + 1,
        seniorDatabaseStateID := localDatabaseStateID s + 1,
        effects := effects s @ [ScheduledSetBeaconData] \<rparr>"
    unfolding SeniorUpdateCompleted_def Let_def up3_def same_def up2_def up1_def by (rule refl)
  moreover have "same \<Longrightarrow> payloadBytes (zlibOps e) up3 = payloadBytes (zlibOps e) u"
    using b2 by (simp add: up3_def)
  ultimately show ?thesis
    using assms(1) ids b2 map_replace_ordInv [OF srt ids(1)]
    by (simp add: logInv_def sums)
qed

lemma fresh_not_in_log:
  "freshNext s \<Longrightarrow> updateID u = localDatabaseStateID s + 1 \<Longrightarrow> updateID u \<notin> updateID ` set (updateLog s)"
  by auto

lemma ordPut_mem: "x \<in> set (ordPut key x es)"
  by (induction es) auto

lemma logInv_data: "logInv Z (s \<lparr> dbObject := d, dbChecksum := c \<rparr>) = logInv Z s"
  by (simp add: logInv_def)

lemma senior_logInv:
  assumes inv: "logInv (zlibOps e) s" and fresh: "freshNext s" and cmd: "seniorCommand msg"
  shows "logInv (zlibOps e) (snd (HandleDatabaseUpdateRequest e from msg opt s))"
proof -
  have add: "logInv (zlibOps e) ((snd (AddDatabaseUpdateToUpdateLog e (Some (newUpdateFor s ty from)) s))
      \<lparr> dbObject := d, dbChecksum := c \<rparr>)" for ty d c
    unfolding logInv_data using fresh by (intro Add_fresh_logInv [OF inv] fresh_not_in_log) simp_all
  have mem: "newUpdateFor s ty from \<in> set (updateLog ((snd (AddDatabaseUpdateToUpdateLog e (Some (newUpdateFor s ty from)) s))
      \<lparr> dbObject := d, dbChecksum := c \<rparr>))" for ty d c
    by (simp add: ordPut_mem)
  note steps = Completed_logInv [OF add mem] Remove_logInv [OF add]
  have "logInv (zlibOps e) (snd (HandleResetSenior e from s))"
    unfolding HandleResetSenior_def Let_def by (simp add: split_beta steps)
  moreover have "logInv (zlibOps e) (snd (HandleReplaceSenior e from m s))" for m
    unfolding HandleReplaceSenior_def Let_def by (simp add: split_beta steps inv split: option.split)
  moreover have "logInv (zlibOps e) (snd (HandleUpdateSenior e from m s))" for m
    unfolding HandleUpdateSenior_def Let_def by (simp add: split_beta steps inv split: option.split)
  ultimately show ?thesis
    using cmd inv by (simp add: HandleDatabaseUpdateRequest_def seniorCommand_def)
qed

section \<open>Back-orders\<close>

lemma RequestBackOrder_distinct:
  "distinct (backorders s) \<Longrightarrow> distinct (backorders (snd (RequestBackOrderFromSeniorPeer e k b s)))"
  by (simp add: RequestBackOrderFromSeniorPeer_def Let_def)

lemma RequestBackOrder_mono:
  "set (backorders s) \<subseteq> set (backorders (snd (RequestBackOrderFromSeniorPeer e k b s)))"
  by (auto simp: RequestBackOrderFromSeniorPeer_def Let_def)

lemma RequestBackOrder_OK:
  "fst (RequestBackOrderFromSeniorPeer e k b s) = B_NO_ERROR \<Longrightarrow>
   k \<in> set (backorders (snd (RequestBackOrderFromSeniorPeer e k b s)))"
  by (auto simp: RequestBackOrderFromSeniorPeer_def Let_def split: if_splits)

text \<open>Everything from \<open>uid\<close> to the target that is not in the log is on order.\<close>

definition allOnOrder :: "('db, 'm) master \<Rightarrow> u64 \<Rightarrow> u64 \<Rightarrow> ('db, 'm) PZGDatabaseState \<Rightarrow> bool" where
  "allOnOrder e uid target s \<longleftrightarrow>
     (\<forall>j. uid \<le> j \<longrightarrow> j \<le> target \<longrightarrow> j \<in> updateID ` set (updateLog s) \<or>
        PZGUpdateBackOrderKey (GetSeniorPeerID e) (whichDatabase s) j \<in> set (backorders s))"

definition fullRequested :: "('db, 'm) master \<Rightarrow> ('db, 'm) PZGDatabaseState \<Rightarrow> bool" where
  "fullRequested e s \<longleftrightarrow>
     IsAwaitingFullDatabaseResendReply e s \<or>
     (\<exists>es. effects s = es @ [BackOrderRequested (fullUpdateKey e s) False (SendBackOrderRequest e es (fullUpdateKey e s) False)])"

lemma RequestFull_fullRequested:
  "fullRequested e (snd (RequestFullDatabaseResendFromSeniorPeer e False s))"
  by (auto simp: fullRequested_def RequestFullDatabaseResendFromSeniorPeer_def
      RequestBackOrderFromSeniorPeer_def IsAwaitingFullDatabaseResendReply_def fullUpdateKey_def Let_def)

lemma allOnOrder_step:
  assumes "allOnOrder e (uid + 1) target s"
    and "uid \<in> updateID ` set (updateLog s) \<or>
         PZGUpdateBackOrderKey (GetSeniorPeerID e) (whichDatabase s) uid \<in> set (backorders s)"
    and "uid \<noteq> - 1"
  shows "allOnOrder e uid target s"
  unfolding allOnOrder_def
proof (intro allI impI)
  fix j assume j: "uid \<le> j" "j \<le> target"
  show "j \<in> updateID ` set (updateLog s) \<or>
        PZGUpdateBackOrderKey (GetSeniorPeerID e) (whichDatabase s) j \<in> set (backorders s)"
  proof (cases "j = uid")
    case False
    then have "uid + 1 \<le> j"
      using j(1) by (intro word_less_imp_Suc_le) simp
    then show ?thesis
      using assms(1) j(2) by (simp add: allOnOrder_def)
  qed (use assms(2) in simp)
qed

lemma backOrderLoop_total:
  assumes "target \<noteq> - 1"
  shows "\<exists>s'. backOrderLoop e target uid s = Some s' \<and> sameData s s' \<and>
     set (backorders s) \<subseteq> set (backorders s') \<and>
     (distinct (backorders s) \<longrightarrow> distinct (backorders s')) \<and>
     (allOnOrder e uid target s' \<or> fullRequested e s')"
proof (induction "unat target + 1 - unat uid" arbitrary: uid s)
  case 0
  then have "\<not> uid \<le> target"
    by (simp add: word_le_nat_alt)
  then show ?case
    by (subst backOrderLoop.simps) (auto simp: allOnOrder_def)
next
  case (Suc n)
  then have le: "uid \<le> target"
    by (simp add: word_le_nat_alt)
  then have nmax: "uid \<noteq> - 1"
    using assms by (metis word_order.extremum_uniqueI)
  have n: "n = unat target + 1 - unat (uid + 1)"
    using Suc.hyps(2) unat_Suc_not_max [OF nmax] by simp
  note IH = Suc.hyps(1) [OF n]
  let ?k = "PZGUpdateBackOrderKey (GetSeniorPeerID e) (whichDatabase s) uid"
  let ?r = "RequestBackOrderFromSeniorPeer e ?k False s"
  show ?case
  proof (cases "uid \<in> updateID ` set (updateLog s) \<or> ?k \<in> set (backorders s)")
    case True
    obtain s' where s': "backOrderLoop e target (uid + 1) s = Some s'" "sameData s s'"
      "set (backorders s) \<subseteq> set (backorders s')" "distinct (backorders s) \<longrightarrow> distinct (backorders s')"
      "allOnOrder e (uid + 1) target s' \<or> fullRequested e s'"
      using IH by blast
    have "backOrderLoop e target uid s = Some s'"
      using True le s'(1) by (subst backOrderLoop.simps) (auto simp: Let_def tabGet_eq_None)
    moreover have "allOnOrder e (uid + 1) target s' \<Longrightarrow> allOnOrder e uid target s'"
      using True s'(2,3) by (rule_tac allOnOrder_step [OF _ _ nmax]) (auto simp: sameData_def)
    ultimately show ?thesis
      using s' by blast
  next
    case new: False
    show ?thesis
    proof (cases "IsOK (fst ?r)")
      case True
      obtain s' where s': "backOrderLoop e target (uid + 1) (snd ?r) = Some s'" "sameData (snd ?r) s'"
        "set (backorders (snd ?r)) \<subseteq> set (backorders s')"
        "distinct (backorders (snd ?r)) \<longrightarrow> distinct (backorders s')"
        "allOnOrder e (uid + 1) target s' \<or> fullRequested e s'"
        using IH by blast
      have "backOrderLoop e target uid s = Some s'"
        using new le s'(1) True by (subst backOrderLoop.simps) (simp add: Let_def tabGet_eq_None)
      moreover have "allOnOrder e (uid + 1) target s' \<Longrightarrow> allOnOrder e uid target s'"
        using RequestBackOrder_OK [OF True] s'(2,3)
        by (rule_tac allOnOrder_step [OF _ _ nmax]) (auto simp: sameData_def)
      ultimately show ?thesis
        using s' RequestBackOrder_mono [of s e ?k False] RequestBackOrder_distinct [of s e ?k False]
          sameData_RequestBackOrder [OF s'(2)] by blast
    next
      case False
      let ?f = "RequestFullDatabaseResendFromSeniorPeer e False (snd ?r)"
      have "backOrderLoop e target uid s = Some (snd ?f)"
        using new le False by (subst backOrderLoop.simps) (simp add: Let_def tabGet_eq_None)
      moreover have "set (backorders s) \<subseteq> set (backorders (snd ?f))"
        unfolding RequestFullDatabaseResendFromSeniorPeer_def
        using RequestBackOrder_mono by blast
      moreover have "distinct (backorders s) \<Longrightarrow> distinct (backorders (snd ?f))"
        unfolding RequestFullDatabaseResendFromSeniorPeer_def
        using RequestBackOrder_distinct by blast
      ultimately show ?thesis
        using RequestFull_fullRequested by (auto simp: sameData_def)
    qed
  qed
qed

lemma RequestBackOrder_sent:
  "(\<And>es k b. SendBackOrderRequest e es k b = B_NO_ERROR) \<Longrightarrow>
   fst (RequestBackOrderFromSeniorPeer e k b s) = B_NO_ERROR"
  by (simp add: RequestBackOrderFromSeniorPeer_def Let_def)

text \<open>Where every request is sent, the loop towards the largest ID never returns.\<close>

lemma backOrderLoop_max_None:
  fixes e :: "('db, 'm) master"
  assumes "\<And>es k b. SendBackOrderRequest e es k b = B_NO_ERROR"
  shows "backOrderLoop e (- 1) uid s = None"
proof (rule ccontr)
  let ?P = "\<lambda>(e :: ('db, 'm) master) (target :: u64) (uid :: u64) (s :: ('db, 'm) PZGDatabaseState)
      (y :: ('db, 'm) PZGDatabaseState). target = - 1 \<longrightarrow> (\<forall>es k b. SendBackOrderRequest e es k b = B_NO_ERROR) \<longrightarrow> False"
  assume "backOrderLoop e (- 1) uid s \<noteq> None"
  then obtain y where y: "backOrderLoop e (- 1) uid s = Some y"
    by auto
  have "?P e (- 1) uid s y"
    by (rule backOrderLoop.raw_induct [where P = ?P, OF _ y])
      (auto simp: Let_def split: if_splits, metis RequestBackOrder_sent)
  then show False
    using assms by simp
qed

lemma juniorAdvance_total:
  assumes "target \<noteq> - 1"
  shows "\<exists>s'. juniorAdvance e target s = Some s'"
  using assms
proof (induction e target s rule: juniorAdvance.induct)
  case (1 e target s)
  show ?case
  proof (cases "logGet (localDatabaseStateID s + 1) (updateLog s)")
    case None
    then show ?thesis
      using backOrderLoop_total [OF 1(2), of e "localDatabaseStateID s + 1" s]
      by (subst juniorAdvance.simps) (auto simp: Let_def)
  next
    case (Some u)
    then show ?thesis
      using 1(1) [OF _ refl Some refl] 1(2) by (subst juniorAdvance.simps) (simp add: Let_def)
  qed
qed

lemma RescanUpdateLog_total:
  assumes "GetTargetDatabaseStateID s \<noteq> - 1"
  shows "\<exists>s'. RescanUpdateLog e s = Some s'"
proof -
  let ?s = "s \<lparr> firstUnsentUpdateID := localDatabaseStateID s + 1 \<rparr>"
  have "GetTargetDatabaseStateID ?s = GetTargetDatabaseStateID s"
    by (simp add: GetTargetDatabaseStateID_def)
  with assms have "GetTargetDatabaseStateID ?s \<noteq> - 1"
    by simp
  from juniorAdvance_total [OF this, of e ?s] show ?thesis
    by (auto simp: RescanUpdateLog_def Let_def)
qed

section \<open>Catching up\<close>

context replicated_database
begin

lemma juniorAdvance_converges:
  assumes "history_ok D Z good same d0 H" "zlib_lossless Z" "isJuniorEnv D Z e" "n \<le> length H"
  shows "k \<le> n \<Longrightarrow> holdsState D good same d0 H k s \<Longrightarrow>
    set (updateLog s) \<subseteq> onWire Z ` fst ` set H \<Longrightarrow>
    (\<forall>j. k < j \<longrightarrow> j \<le> n \<longrightarrow> of_nat j \<in> updateID ` set (updateLog s)) \<Longrightarrow>
    \<exists>s'. juniorAdvance e (of_nat n) s = Some s' \<and> holdsState D good same d0 H n s'"
proof (induction "n - k" arbitrary: k s)
  case 0
  then have "k = n"
    by simp
  then have "localDatabaseStateID s = of_nat n"
    using 0(3) by (simp add: holdsState_def)
  then have "juniorAdvance e (of_nat n) s = Some s"
    by (subst juniorAdvance.simps) simp
  with 0(3) \<open>k = n\<close> show ?case
    by simp
next
  case (Suc m)
  then have kn: "k < n"
    by simp
  have small: "n < 2 ^ 64"
    using assms(1,4) by (simp add: history_ok_def)
  have loc: "localDatabaseStateID s = of_nat k"
    using Suc.prems(2) by (simp add: holdsState_def)
  then have lt: "localDatabaseStateID s < of_nat n"
    using kn small by (simp add: of_nat_u64_less)
  have "of_nat (Suc k) \<in> updateID ` set (updateLog s)"
    using Suc.prems(4) kn by auto
  then have "logGet (localDatabaseStateID s + 1) (updateLog s) \<noteq> None"
    using loc by (simp add: tabGet_eq_None add.commute)
  then obtain u where u: "logGet (localDatabaseStateID s + 1) (updateLog s) = Some u"
    by auto
  note ex = junior_executes [OF assms(1,2) Suc.prems(2) assms(3) Suc.prems(3) u]
  have "m = n - Suc k"
    using Suc.hyps(2) by simp
  from Suc.hyps(1) [OF this _ ex(2)] ex(3) Suc.prems(3,4) kn
  obtain s' where "juniorAdvance e (of_nat n) (snd (JuniorExecuteDatabaseUpdate e u s)) = Some s'"
    "holdsState D good same d0 H n s'"
    by (auto simp: Suc_le_eq)
  moreover have "juniorAdvance e (of_nat n) s = juniorAdvance e (of_nat n) (snd (JuniorExecuteDatabaseUpdate e u s))"
    using lt u ex(1) by (subst juniorAdvance.simps) (simp add: Let_def)
  ultimately show ?case
    by simp
qed

lemma rescan_converges:
  assumes "history_ok D Z good same d0 H" "zlib_lossless Z" "isJuniorEnv D Z e"
    and "holdsState D good same d0 H k s" "set (updateLog s) \<subseteq> onWire Z ` fst ` set H"
    and "GetTargetDatabaseStateID s = of_nat n" "k \<le> n" "n \<le> length H"
    and "\<forall>j. k < j \<longrightarrow> j \<le> n \<longrightarrow> of_nat j \<in> updateID ` set (updateLog s)"
    and "seniorDatabaseStateReceived s" "\<not> IsAwaitingFullDatabaseResendReply e s" "0 < k \<or> n \<le> 1"
  shows "\<exists>s'. RescanUpdateLog e s = Some s' \<and> holdsState D good same d0 H n s'"
proof -
  define s1 where "s1 = s \<lparr> firstUnsentUpdateID := localDatabaseStateID s + 1 \<rparr>"
  have s1: "holdsState D good same d0 H k s1" "updateLog s1 = updateLog s"
    "\<not> IsAwaitingFullDatabaseResendReply e s1"
    using assms(4,11)
    by (simp_all add: s1_def holdsState_def IsAwaitingFullDatabaseResendReply_def fullUpdateKey_def)
  have "GetTargetDatabaseStateID s1 = GetTargetDatabaseStateID s"
    by (simp add: s1_def GetTargetDatabaseStateID_def)
  note target = this [unfolded assms(6)]
  obtain s2 where s2: "juniorAdvance e (of_nat n) s1 = Some s2" "holdsState D good same d0 H n s2"
    using juniorAdvance_converges [OF assms(1-3,8,7) s1(1)] assms(5,9) s1(2) by auto
  have small: "n < 2 ^ 64" "k < 2 ^ 64"
    using assms(1,7,8) by (simp_all add: history_ok_def)
  have "\<not> (localDatabaseStateID s1 = 0 \<and> 1 < (of_nat n :: u64))"
  proof
    assume "localDatabaseStateID s1 = 0 \<and> 1 < (of_nat n :: u64)"
    then have "(of_nat k :: u64) = of_nat 0" "(of_nat 1 :: u64) < of_nat n"
      using s1(1) by (auto simp: holdsState_def)
    then have "k = 0" "1 < n"
      using small of_nat_u64_inject [of k 0] of_nat_u64_less [of 1 n] by simp_all
    then show False
      using assms(12) by simp
  qed
  moreover have "\<not> IAmTheSeniorPeer e"
    using assms(3) by (simp add: isJuniorEnv_def)
  ultimately have "RescanUpdateLog e s = Some (trimJuniorLog e s2)"
    using assms(10) s1(3) target s2(1) by (auto simp: RescanUpdateLog_def Let_def simp flip: s1_def)
  then show ?thesis
    using s2(2) by (simp add: holdsState_def)
qed

lemma JuniorReplace_frame [simp]:
  "backorders (snd (JuniorExecuteDatabaseReplace e u s)) = backorders s"
  "whichDatabase (snd (JuniorExecuteDatabaseReplace e u s)) = whichDatabase s"
  by (simp_all add: JuniorExecuteDatabaseReplace_def Let_def split_beta)

lemma resend_resyncs:
  assumes "history_ok D Z good same d0 H" "zlib_lossless Z"
    and "isSeniorEnv D Z eS" "holdsState D good same d0 H (length H) S"
    and "GetDatabaseUpdateByID eS DATABASE_UPDATE_ID_FULL_UPDATE S = Some u"
    and "isJuniorEnv D Z eJ" "holdsState D good same d0 H k J" "fullUpdateKey eJ J \<in> set (backorders J)"
  defines "J' \<equiv> BackOrderResultReceived eJ (fullUpdateKey eJ J) (Some (onWire Z u)) J"
  shows "localDatabaseStateID J' = localDatabaseStateID S \<and>
     (\<exists>d t. dbObject S = Some d \<and> dbObject J' = Some t \<and> same d t \<and> dbChecksum J' = dbChecksum S) \<and>
     \<not> IsAwaitingFullDatabaseResendReply eJ J'"
proof -
  define s1 where "s1 = J \<lparr> backorders := filter (\<lambda>k. k \<noteq> fullUpdateKey eJ J) (backorders J) \<rparr>"
  have h1: "holdsState D good same d0 H k s1"
    using assms(7) by (simp add: s1_def holdsState_def)
  note rep = junior_replace_safe [OF full_reply_sound [OF assms(1,2,4,3,5)] assms(1) h1 assms(6)]
  let ?R = "snd (JuniorExecuteDatabaseReplace eJ (onWire Z u) s1)"
  have J': "J' = ScheduleLogContentsRescan eJ ?R"
    using assms(6,8) rep(3)
    by (simp add: J'_def BackOrderResultReceived_def Let_def split_beta isJuniorEnv_def fullUpdateKey_def
        s1_def [unfolded fullUpdateKey_def])
  have uid: "updateID u = localDatabaseStateID S"
    using assms(5)
    by (auto simp: GetDatabaseUpdateByID_def SetPayloadMessage_def SetSeniorElapsedTimeMicros_def
        GetPZGDatabaseUpdateFromPool_def split: sum.splits)
  obtain j t where t: "j \<le> length H" "localDatabaseStateID ?R = of_nat j" "dbObject ?R = Some t" "good t"
      "same (dbAt d0 H j) t" "dbChecksum ?R = GetCurrentChecksum D t"
    using rep(1) by (auto simp: holdsState_def)
  obtain d where d: "localDatabaseStateID S = of_nat (length H)" "dbObject S = Some d" "good d"
      "same (dbAt d0 H (length H)) d" "dbChecksum S = GetCurrentChecksum D d"
    using assms(4) by (auto simp: holdsState_def)
  have "length H < 2 ^ 64"
    using assms(1) by (simp add: history_ok_def)
  then have "j = length H"
    using rep(4) uid t(1,2) d(1) by (simp add: of_nat_u64_inject)
  then have "same d t"
    using same_trans [OF same_sym [OF d(4)]] t(5) by simp
  then have "\<exists>d t. dbObject S = Some d \<and> dbObject J' = Some t \<and> same d t \<and> dbChecksum J' = dbChecksum S"
    using d t same_checksum by (simp add: J')
  moreover have "\<not> IsAwaitingFullDatabaseResendReply eJ J'"
    by (simp add: J' IsAwaitingFullDatabaseResendReply_def fullUpdateKey_def s1_def)
  ultimately show ?thesis
    using rep(4) uid by (simp add: J')
qed

end

section \<open>Properties\<close>

text \<open>
  C1: replication is safe.  Start a senior and a junior peer, and let the network lose,
  delay, duplicate and reorder multicasts, beacons and back-order replies in any way.  In
  every reachable state in which the junior reports the senior's state ID, the two
  database objects are the same and so are the running checksums.
\<close>

theorem replication_safety:
  assumes "replicated_database D good same" "zlib_lossless Z"
    and "good dS" "good dJ" "dbOps eS = D" "dbOps eJ = D"
    and "sys_reach D Z (sys_init eS eJ which maxBytes dS dJ) y"
    and "localDatabaseStateID (junior y) = localDatabaseStateID (senior y)"
  shows "\<exists>d t. dbObject (senior y) = Some d \<and> dbObject (junior y) = Some t \<and> same d t \<and>
     dbChecksum (senior y) = dbChecksum (junior y)"
  using replicated_database.sys_agree [OF assms(1)
      replicated_database.sys_inv_reach [OF assms(1,7,2-6)] assms(8)] .

text \<open>
  C2: every state ID means one database.  In every reachable state the junior's database
  is a copy of the one the senior's history records for the state ID the junior reports.
\<close>

theorem replication_history:
  assumes "replicated_database D good same" "zlib_lossless Z"
    and "good dS" "good dJ" "dbOps eS = D" "dbOps eJ = D"
    and "sys_reach D Z (sys_init eS eJ which maxBytes dS dJ) y"
  shows "\<exists>k t. k \<le> length (history y) \<and> localDatabaseStateID (junior y) = of_nat k \<and>
     dbObject (junior y) = Some t \<and> same (dbAt (SetToDefaultState D dS) (history y) k) t \<and>
     dbChecksum (junior y) = GetCurrentChecksum D t"
  using replicated_database.sys_inv_reach [OF assms(1,7,2-6)]
  unfolding sys_inv_def holdsState_def by blast

text \<open>
  C3: a junior catches up in one log rescan.  It holds the senior's database of state k, has
  heard of senior state n at or above k, has every update from k + 1 to n in its log, nothing
  but updates the senior made in it, and awaits no full resend; and k is above 0 or n at most 1.
  Then the rescan returns, and leaves the junior with state ID n and a copy of the senior's
  database of that state.  (A junior at state 0 asks for a full copy instead when n is above 1.)
\<close>

theorem junior_catches_up:
  assumes "replicated_database D good same" "history_ok D Z good same d0 H" "zlib_lossless Z"
    and "isJuniorEnv D Z e" "holdsState D good same d0 H k s"
    and "set (updateLog s) \<subseteq> onWire Z ` fst ` set H"
    and "GetTargetDatabaseStateID s = of_nat n" "k \<le> n" "n \<le> length H"
    and "\<forall>j. k < j \<longrightarrow> j \<le> n \<longrightarrow> of_nat j \<in> updateID ` set (updateLog s)"
    and "seniorDatabaseStateReceived s" "\<not> IsAwaitingFullDatabaseResendReply e s" "0 < k \<or> n \<le> 1"
  shows "\<exists>s' t. RescanUpdateLog e s = Some s' \<and> localDatabaseStateID s' = of_nat n \<and>
     dbObject s' = Some t \<and> same (dbAt d0 H n) t \<and> dbChecksum s' = GetCurrentChecksum D t"
  using replicated_database.rescan_converges [OF assms] by (auto simp: holdsState_def)

text \<open>
  C4: the full-resend fallback works.  The update a senior at state n produces for the
  magic full-update ID, received as a back-order reply by a junior in any state whose
  request is outstanding, brings that junior to state ID n with a copy of the senior's
  database, and clears the back-order.
\<close>

theorem full_resend_resyncs:
  assumes "replicated_database D good same" "history_ok D Z good same d0 H" "zlib_lossless Z"
    and "isSeniorEnv D Z eS" "holdsState D good same d0 H (length H) S"
    and "GetDatabaseUpdateByID eS DATABASE_UPDATE_ID_FULL_UPDATE S = Some u"
    and "isJuniorEnv D Z eJ" "holdsState D good same d0 H k J" "fullUpdateKey eJ J \<in> set (backorders J)"
    and "J' = BackOrderResultReceived eJ (fullUpdateKey eJ J) (Some (onWire Z u)) J"
  shows "localDatabaseStateID J' = localDatabaseStateID S \<and>
     (\<exists>d t. dbObject S = Some d \<and> dbObject J' = Some t \<and> same d t \<and> dbChecksum J' = dbChecksum S) \<and>
     \<not> IsAwaitingFullDatabaseResendReply eJ J'"
  using replicated_database.resend_resyncs [OF assms(1-9)] assms(10) by simp

text \<open>The IDs in the log after a request: those from before, and the next one if it succeeded.\<close>

lemma Completed_ids:
  "map updateID (updateLog (SeniorUpdateCompleted e u p s)) = map updateID (updateLog s)"
  "localDatabaseStateID (SeniorUpdateCompleted e u p s) = localDatabaseStateID s + 1"
  by (simp_all add: SeniorUpdateCompleted_def Let_def SetSeniorElapsedTimeMicros_def SetPayloadMessage_def)

lemma Remove_state [simp]: "localDatabaseStateID (RemoveDatabaseUpdateFromUpdateLog e u s) = localDatabaseStateID s"
  by (simp add: RemoveDatabaseUpdateFromUpdateLog_def Let_def split: option.split)

lemma senior_ids:
  assumes fresh: "freshNext s" and cmd: "seniorCommand msg" and s': "s' = snd (HandleDatabaseUpdateRequest e from msg opt s)"
  shows "map updateID (updateLog s') = map updateID (updateLog s) \<and> localDatabaseStateID s' = localDatabaseStateID s \<or>
    map updateID (updateLog s') = map updateID (updateLog s) @ [localDatabaseStateID s + 1] \<and>
      localDatabaseStateID s' = localDatabaseStateID s + 1"
proof -
  have put: "ordPut updateID (newUpdateFor s ty from) (updateLog s) = updateLog s @ [newUpdateFor s ty from]" for ty
    using fresh by (intro ordPut_snoc) auto
  have rem: "updateLog (RemoveDatabaseUpdateFromUpdateLog e (newUpdateFor s ty from)
      ((snd (AddDatabaseUpdateToUpdateLog e (Some (newUpdateFor s ty from)) s)) \<lparr> dbObject := d, dbChecksum := c \<rparr>))
      = updateLog s" for ty d c
    by (rule Add_Remove_log [OF fresh]) simp_all
  show ?thesis
    using cmd unfolding s'
    by (auto simp: HandleDatabaseUpdateRequest_def seniorCommand_def HandleResetSenior_def HandleReplaceSenior_def
        HandleUpdateSenior_def Let_def split_beta rem put Completed_ids split: option.splits)
qed

text \<open>
  C20: the senior's tallies are exact.  Take a senior whose update log is sorted by update ID,
  whose \<open>_totalPayloadBytesInLog\<close> and \<open>_totalElapsedMillisInLog\<close> are the sums over it, and whose
  next update ID is beyond those in it, as at the start.  Any request to reset, replace or update
  the database, successful or not, leaves the log sorted and the tallies exact; and the next
  update ID is again beyond those in the log, until the 64-bit IDs are used up.  So both hold
  through every sequence of requests.  (A junior that becomes senior with updates it never
  reached in its log is outside the condition; see \<open>duplicate_update_overcounts\<close>.)
\<close>

theorem senior_request_tallies:
  assumes "logInv (zlibOps e) s" "\<forall>x \<in> set (updateLog s). updateID x < localDatabaseStateID s + 1"
    and "what msg \<noteq> PZG_PEER_COMMAND_UPDATE_JUNIOR_DATABASE"
    and "s' = snd (HandleDatabaseUpdateRequest e from msg opt s)"
  shows "logInv (zlibOps e) s' \<and>
    (localDatabaseStateID s' + 1 \<noteq> 0 \<longrightarrow> (\<forall>x \<in> set (updateLog s'). updateID x < localDatabaseStateID s' + 1))"
proof -
  have cmd: "seniorCommand msg"
    using assms(3) by (simp add: seniorCommand_def)
  have grow: "n < n + 1" if "n + 1 \<noteq> 0" for n :: u64
    using that inc_less_eq_triv_imp [of n] by (cases "n + 1 \<le> n") (auto simp: not_le)
  have "updateID x < localDatabaseStateID s' + 1" if "localDatabaseStateID s' + 1 \<noteq> 0" "x \<in> set (updateLog s')" for x
  proof -
    have old: "y < localDatabaseStateID s + 1" if "y \<in> set (map updateID (updateLog s))" for y
      using that assms(2) by auto
    have x: "updateID x \<in> set (map updateID (updateLog s'))"
      using that(2) by simp
    from senior_ids [OF assms(2) cmd assms(4)] show ?thesis
    proof (elim disjE conjE)
      assume "map updateID (updateLog s') = map updateID (updateLog s)" "localDatabaseStateID s' = localDatabaseStateID s"
      then show ?thesis
        using old x by simp
    next
      assume ids: "map updateID (updateLog s') = map updateID (updateLog s) @ [localDatabaseStateID s + 1]"
        and ID: "localDatabaseStateID s' = localDatabaseStateID s + 1"
      have "updateID x \<le> localDatabaseStateID s'"
        using x old unfolding ids ID by (auto intro: order.strict_implies_order)
      with grow [OF that(1)] show ?thesis
        by (rule order.strict_trans1 [rotated])
    qed
  qed
  with senior_logInv [OF assms(1,2) cmd] assms(4) show ?thesis
    by blast
qed

text \<open>
  Logging an update under an ID that is already in the log replaces the old entry but
  adds the new entry's size on top: the byte tally then exceeds the log's contents by the
  size of the entry that was replaced.
\<close>

theorem duplicate_update_overcounts:
  assumes "logInv (zlibOps e) s" "logGet (updateID u) (updateLog s) = Some old"
    and "s' = snd (AddDatabaseUpdateToUpdateLog e (Some u) s)"
  shows "length (updateLog s') = length (updateLog s) \<and>
     totalPayloadBytesInLog s' = logBytes (zlibOps e) (updateLog s') + payloadBytes (zlibOps e) old"
proof -
  have srt: "ordInv updateID (updateLog s)"
    using assms(1) by (simp add: logInv_def)
  have "length (ordPut updateID u us) = length us" if "ordInv updateID us" "logGet (updateID u) us = Some old" for us
    using that
    by (induction us) (fastforce simp: ordInv_def split: if_splits dest: tabGet_SomeD)+
  with assms srt show ?thesis
    by (simp add: logInv_def logBytes_def sum_list_ordPut_present [OF srt assms(2)])
qed

text \<open>
  C21: a senior rescan attempts to multicast exactly the updates whose ID is not below
  \<open>_firstUnsentUpdateID\<close>, each once and in ascending order of ID, whatever the iterator's
  detour backwards through the log.
\<close>

theorem senior_rescan_multicasts:
  assumes "IAmTheSeniorPeer e" "ordInv updateID (updateLog s)"
  shows "\<exists>s'. RescanUpdateLog e s = Some s' \<and>
     multicasts (effects s') =
       multicasts (effects s) @ filter (\<lambda>u. firstUnsentUpdateID s \<le> updateID u) (updateLog s)"
proof (cases "updateLog s = []")
  case False
  then show ?thesis
    using assms seniorScan_eq_fold [OF assms(2), of "length (updateLog s) - 1" e s]
      fold_multicast_effects [OF assms(2), of e s]
    by (simp add: RescanUpdateLog_def)
qed (use assms in \<open>simp add: RescanUpdateLog_def\<close>)

text \<open>
  A senior rescan keeps the update log within its memory budget: it drops a prefix of
  the log, the oldest updates, no more than needed, never the newest one, and stops with
  the payload bytes within the budget or with a single update left.
\<close>

theorem senior_rescan_trims:
  assumes "IAmTheSeniorPeer e" "logInv (zlibOps e) s"
  shows "\<exists>s' n. RescanUpdateLog e s = Some s' \<and> updateLog s' = drop n (updateLog s) \<and>
     (updateLog s \<noteq> [] \<longrightarrow> updateLog s' \<noteq> []) \<and>
     (\<forall>k < n. logBytes (zlibOps e) (drop k (updateLog s)) > maxPayloadBytesInLog s) \<and>
     (logBytes (zlibOps e) (updateLog s') \<le> maxPayloadBytesInLog s \<or> length (updateLog s') \<le> 1)"
proof (cases "updateLog s = []")
  case True
  then show ?thesis
    using assms by (auto simp: RescanUpdateLog_def intro!: exI [of _ 0])
next
  case False
  let ?f = "fold (multicastIfUnsent e) (updateLog s) s"
  have srt: "ordInv updateID (updateLog s)"
    using assms(2) by (simp add: logInv_def)
  have R: "RescanUpdateLog e s = Some (trimSeniorLog e ?f)"
    using assms(1) False seniorScan_eq_fold [OF srt, of "length (updateLog s) - 1" e s]
    by (simp add: RescanUpdateLog_def)
  have f: "logInv (zlibOps e) ?f"
    using assms(2) by (simp add: logInv_def)
  obtain n where "updateLog (trimSeniorLog e ?f) = drop n (updateLog s)" "n < length (updateLog s)"
    "\<forall>k<n. logBytes (zlibOps e) (drop k (updateLog s)) > maxPayloadBytesInLog s"
    using trimSenior_suffix [OF f] False by auto
  moreover have "logBytes (zlibOps e) (updateLog (trimSeniorLog e ?f)) \<le> maxPayloadBytesInLog s \<or>
      length (updateLog (trimSeniorLog e ?f)) \<le> 1"
    using trimSenior_budget [of e ?f] trimSenior_logInv [OF f] by (simp add: logInv_def)
  ultimately show ?thesis
    using R by (intro exI [of _ "trimSeniorLog e ?f"] exI [of _ n]) simp
qed

text \<open>
  Rescanning returns.  Unless the state ID to be reached is the largest 64-bit
  number, a rescan of the update log terminates, on a senior and on a junior.
\<close>

theorem rescan_returns:
  assumes "GetTargetDatabaseStateID s \<noteq> - 1"
  shows "\<exists>s'. RescanUpdateLog e s = Some s'"
  using assms by (rule RescanUpdateLog_total)

text \<open>
  C22: a beacon that announces the largest 64-bit state ID hangs a junior.  With an empty
  log, a valid senior and requests that get through, the rescan's back-order loop never
  ends, as its counter wraps round before it passes the target.
\<close>

theorem rescan_hangs_on_max_state:
  assumes "\<not> IAmTheSeniorPeer e" "IsValid (GetSeniorPeerID e)"
    and "\<And>es k b. SendBackOrderRequest e es k b = B_NO_ERROR"
    and "seniorDatabaseStateReceived s" "\<not> IsAwaitingFullDatabaseResendReply e s"
    and "localDatabaseStateID s = 1" "updateLog s = []"
    and "seniorDatabaseStateID s = - 1" "seniorOldestIDInLog s = 1"
  shows "RescanUpdateLog e s = None"
proof -
  define s1 where "s1 = s \<lparr> firstUnsentUpdateID := localDatabaseStateID s + 1 \<rparr>"
  have s1: "localDatabaseStateID s1 = 1" "updateLog s1 = []" "GetTargetDatabaseStateID s1 = - 1"
    "seniorOldestIDInLog s1 = 1" "\<not> IsAwaitingFullDatabaseResendReply e s1"
    using assms(5-9)
    by (simp_all add: s1_def GetTargetDatabaseStateID_def IsAwaitingFullDatabaseResendReply_def
        fullUpdateKey_def max_def)
  have "(1 :: u64) < - 1"
    by (simp flip: word_order.not_eq_extremum)
  then have "juniorAdvance e (- 1) s1 = None"
    using s1 assms(2) backOrderLoop_max_None [OF assms(3)] by (subst juniorAdvance.simps) (simp add: Let_def)
  then show ?thesis
    using assms(1,4) s1 by (simp add: RescanUpdateLog_def Let_def flip: s1_def)
qed

text \<open>
  A junior whose next update is missing, and may still be in the senior's log, leaves
  its database as it is and puts every missing update up to the target on back-order,
  none of them twice; where a request cannot be sent it asks for a full resend instead.
\<close>

theorem junior_backorders_missing:
  assumes "\<not> IAmTheSeniorPeer e" "IsValid (GetSeniorPeerID e)"
    and "seniorDatabaseStateReceived s" "\<not> IsAwaitingFullDatabaseResendReply e s"
    and "0 < localDatabaseStateID s" "localDatabaseStateID s < GetTargetDatabaseStateID s"
    and "GetTargetDatabaseStateID s \<noteq> - 1" "seniorOldestIDInLog s \<le> localDatabaseStateID s + 1"
    and "logGet (localDatabaseStateID s + 1) (updateLog s) = None" "distinct (backorders s)"
  shows "\<exists>r s'. RescanUpdateLog e s = Some s' \<and> s' = trimJuniorLog e r \<and> distinct (backorders s') \<and>
     dbObject s' = dbObject s \<and> localDatabaseStateID s' = localDatabaseStateID s \<and>
     (allOnOrder e (localDatabaseStateID s + 1) (GetTargetDatabaseStateID s) r \<or> fullRequested e r)"
proof -
  define s1 where "s1 = s \<lparr> firstUnsentUpdateID := localDatabaseStateID s + 1 \<rparr>"
  let ?t = "GetTargetDatabaseStateID s"
  have tgt: "GetTargetDatabaseStateID s1 = ?t"
    by (simp add: s1_def GetTargetDatabaseStateID_def)
  obtain r where r: "backOrderLoop e ?t (localDatabaseStateID s + 1) s1 = Some r" "sameData s1 r"
      "distinct (backorders s1) \<longrightarrow> distinct (backorders r)"
      "allOnOrder e (localDatabaseStateID s + 1) ?t r \<or> fullRequested e r"
    using backOrderLoop_total [OF assms(7), of e "localDatabaseStateID s + 1" s1] by blast
  have "juniorAdvance e ?t s1 = Some r"
    using assms(2,6,8,9) r(1) by (subst juniorAdvance.simps) (simp add: s1_def Let_def not_less)
  then have "RescanUpdateLog e s = Some (trimJuniorLog e r)"
    using assms(1,3-5) tgt
    by (simp add: RescanUpdateLog_def Let_def IsAwaitingFullDatabaseResendReply_def fullUpdateKey_def
        flip: s1_def) (auto simp: s1_def)
  moreover have "distinct (backorders r)" "dbObject r = dbObject s" "localDatabaseStateID r = localDatabaseStateID s"
    using r(2,3) assms(10) by (simp_all add: s1_def sameData_def)
  ultimately show ?thesis
    using r(4) by (rule_tac x = r in exI, rule_tac x = "trimJuniorLog e r" in exI) simp
qed

text \<open>
  C23: a failed request is rolled back from the log.  The senior's log is sorted, its tallies
  are the sums over it, and its next update ID is beyond those in it, the invariant C20 keeps.
  When a request then fails, because the senior database refuses the update or the replacement
  or because the request is malformed, the update log, its two tallies and the state ID are
  what they were before it.  (With an entry of the next ID in the log, that entry would be lost.)
\<close>

theorem failed_request_rolls_back:
  assumes "logInv (zlibOps e) s" "\<forall>x \<in> set (updateLog s). updateID x < localDatabaseStateID s + 1"
    and "what msg \<noteq> PZG_PEER_COMMAND_UPDATE_JUNIOR_DATABASE"
    and "HandleDatabaseUpdateRequest e from msg opt s = (st, s')" "IsError st"
  shows "updateLog s' = updateLog s \<and> totalPayloadBytesInLog s' = totalPayloadBytesInLog s \<and>
     totalElapsedMillisInLog s' = totalElapsedMillisInLog s \<and>
     localDatabaseStateID s' = localDatabaseStateID s"
proof -
  have rem: "updateLog (RemoveDatabaseUpdateFromUpdateLog e (newUpdateFor s ty from)
      ((snd (AddDatabaseUpdateToUpdateLog e (Some (newUpdateFor s ty from)) s)) \<lparr> dbObject := d, dbChecksum := c \<rparr>))
      = updateLog s" for ty d c
    by (rule Add_Remove_log [OF assms(2)]) simp_all
  have "updateLog s' = updateLog s \<and> localDatabaseStateID s' = localDatabaseStateID s"
    using assms(3-5)
    by (auto simp: HandleDatabaseUpdateRequest_def HandleResetSenior_def HandleReplaceSenior_def
        HandleUpdateSenior_def Let_def split_beta rem split: if_splits option.splits)
  moreover have "logInv (zlibOps e) s'"
    using senior_logInv [OF assms(1,2), of msg "from" opt] assms(3,4) by (simp add: seniorCommand_def)
  ultimately show ?thesis
    using assms(1) by (simp add: logInv_def)
qed

text \<open>
  A junior never applies an update out of order or to the wrong contents: an update
  whose ID is not the next one, or whose pre-update checksum differs from the junior's
  running checksum, is refused with the junior's state, database included, untouched.
\<close>

theorem junior_refuses_mismatch:
  assumes "updateID u \<noteq> localDatabaseStateID s + 1 \<or> preUpdateDBChecksum u \<noteq> dbChecksum s"
  shows "JuniorExecuteDatabaseUpdate e u s = (B_BAD_OBJECT, s)"
  using assms by (auto simp: JuniorExecuteDatabaseUpdate_def)

end
