(* ===== verification/Choir_MusicData.thy ===== *)
theory Choir_MusicData
  imports ZG_DatabaseObject
begin

text \<open>
  Shared parts of the choir demo (\<^verbatim>\<open>MusicData.cpp\<close>, \<^verbatim>\<open>ChoirProtocol.h\<close>): the command
  codes, the Message fields its databases read and write, and \<^verbatim>\<open>UpdateNoteHistogram\<close>,
  which keeps a usage count per note together with a bit-chord of the notes in use.

  A choir Message is a record of the fields the code looks up by name; \<open>None\<close> (or an
  empty list) is an absent field, and the \<^verbatim>\<open>Get...\<close> accessors then yield zero.
  Messages sent on to the GUI thread do not change a database and are left out.
\<close>

unbundle bit_operations_syntax

record choir_msg =
  cm_what :: u32
  chord_index :: "u32 option"
  note_index :: "u32 option"
  chord_value :: "u64 option"
  song_file_path :: "string option"
  micros_per_chord :: "u64 option"
  cm_loop :: "bool option"
  ar_path :: "string option"
  ar_idx :: "u32 list"
  ar_chord :: "u64 list"
  ar_start_time :: u64
  ar_us_per_chord :: u64
  ar_paused_idx :: u32
  ar_loop :: bool

definition choirMessage :: "u32 \<Rightarrow> choir_msg" where
  "choirMessage w = \<lparr> cm_what = w, chord_index = None, note_index = None, chord_value = None,
     song_file_path = None, micros_per_chord = None, cm_loop = None, ar_path = None, ar_idx = [],
     ar_chord = [], ar_start_time = 0, ar_us_per_chord = 0, ar_paused_idx = 0, ar_loop = False \<rparr>"

definition getOr :: "'a \<Rightarrow> 'a option \<Rightarrow> 'a" where
  "getOr d x = (case x of Some v \<Rightarrow> v | None \<Rightarrow> d)"

section \<open>Command and type codes\<close>

definition CHOIR_COMMAND_TOGGLE_NOTE :: u32 where "CHOIR_COMMAND_TOGGLE_NOTE = 1668245874"
definition CHOIR_COMMAND_SET_SONG_FILE_PATH :: u32 where "CHOIR_COMMAND_SET_SONG_FILE_PATH = 1668245875"
definition CHOIR_COMMAND_SET_CHORD :: u32 where "CHOIR_COMMAND_SET_CHORD = 1668245876"
definition CHOIR_COMMAND_INSERT_CHORD :: u32 where "CHOIR_COMMAND_INSERT_CHORD = 1668245877"
definition CHOIR_COMMAND_DELETE_CHORD :: u32 where "CHOIR_COMMAND_DELETE_CHORD = 1668245878"
definition CHOIR_COMMAND_PLAY :: u32 where "CHOIR_COMMAND_PLAY = 1668245879"
definition CHOIR_COMMAND_PAUSE :: u32 where "CHOIR_COMMAND_PAUSE = 1668245880"
definition CHOIR_COMMAND_ADJUST_PLAYBACK :: u32 where "CHOIR_COMMAND_ADJUST_PLAYBACK = 1668245881"
definition CHOIR_COMMAND_NOOP :: u32 where "CHOIR_COMMAND_NOOP = 1668245886"
definition MUSIC_TYPE_MUSIC_SHEET :: u32 where "MUSIC_TYPE_MUSIC_SHEET = 1836413795"
definition MUSIC_TYPE_PLAYBACK_STATE :: u32 where "MUSIC_TYPE_PLAYBACK_STATE = 1836413796"

lemmas choir_code_defs =
  CHOIR_COMMAND_TOGGLE_NOTE_def CHOIR_COMMAND_SET_SONG_FILE_PATH_def CHOIR_COMMAND_SET_CHORD_def
  CHOIR_COMMAND_INSERT_CHORD_def CHOIR_COMMAND_DELETE_CHORD_def CHOIR_COMMAND_PLAY_def
  CHOIR_COMMAND_PAUSE_def CHOIR_COMMAND_ADJUST_PLAYBACK_def CHOIR_COMMAND_NOOP_def
  MUSIC_TYPE_MUSIC_SHEET_def MUSIC_TYPE_PLAYBACK_STATE_def

section \<open>UpdateNoteHistogram\<close>

type_synonym histogram = "(nat \<times> u32) list"

text \<open>The loop body for bit \<open>i\<close> of the chord.\<close>

definition histogramBit :: "bool \<Rightarrow> nat \<Rightarrow> histogram \<times> u64 \<Rightarrow> histogram \<times> u64" where
  "histogramBit isAdd i hb =
     (case hb of (hist, bits) \<Rightarrow>
        if isAdd then
          (let v = (case tabGet fst i hist of Some (_, n) \<Rightarrow> n | None \<Rightarrow> 0) + 1
           in (tabPut fst (i, v) hist, if v = 1 then bits OR push_bit i 1 else bits))
        else
          (case tabGet fst i hist of
             None \<Rightarrow> (hist, bits)
           | Some (_, n) \<Rightarrow>
               if n - 1 = 0 then (tabRemove fst i hist, bits AND NOT (push_bit i 1))
               else (tabPut fst (i, n - 1) hist, bits)))"

definition UpdateNoteHistogram :: "u64 \<Rightarrow> bool \<Rightarrow> histogram \<times> u64 \<Rightarrow> histogram \<times> u64" where
  "UpdateNoteHistogram chordVal isAdd hb =
     fold (\<lambda>i hb. if bit chordVal i then histogramBit isAdd i hb else hb) [0..<64] hb"

section \<open>Facts\<close>

text \<open>The histogram stands for the count \<open>c\<close> of each note, and the bit-chord for the notes in use.\<close>

definition histogramFor :: "(nat \<Rightarrow> nat) \<Rightarrow> histogram \<times> u64 \<Rightarrow> bool" where
  "histogramFor c hb \<longleftrightarrow>
     (\<forall>i < 64. tabGet fst i (fst hb) = (if c i = 0 then None else Some (i, of_nat (c i))) \<and>
               (bit (snd hb) i \<longleftrightarrow> 0 < c i))"

lemma bit_pow2_u64: "i < 64 \<Longrightarrow> bit ((2 :: u64) ^ i) j \<longleftrightarrow> j = i"
  by (auto simp: bit_simps simp flip: push_bit_of_1)

lemma count_u32:
  assumes "Suc n < 2 ^ 32"
  shows "(of_nat (Suc n) = (1 :: u32)) \<longleftrightarrow> n = 0" "(of_nat (Suc n) - 1 = (0 :: u32)) \<longleftrightarrow> n = 0"
proof -
  have n: "unat (of_nat n :: u32) = n" "unat (of_nat (Suc n) :: u32) = Suc n"
    using assms by (intro unat_of_nat_small; simp)+
  show "(of_nat (Suc n) = (1 :: u32)) \<longleftrightarrow> n = 0"
    using n(2) by (simp add: word_unat_eq_iff del: of_nat_Suc)
  show "(of_nat (Suc n) - 1 = (0 :: u32)) \<longleftrightarrow> n = 0"
    using n(1) by (simp add: word_unat_eq_iff)
qed

lemma histogramBit_add:
  assumes "histogramFor c hb" "i < 64" "Suc (c i) < 2 ^ 32"
  shows "histogramFor (c(i := Suc (c i))) (histogramBit True i hb)"
proof -
  obtain hist bits where hb: "hb = (hist, bits)"
    by (cases hb)
  have get: "tabGet fst i hist = (if c i = 0 then None else Some (i, of_nat (c i)))"
    using assms(1,2) by (simp add: histogramFor_def hb)
  have "c i \<noteq> 0 \<Longrightarrow> of_nat (c i) \<noteq> (0 :: u32)"
    using count_u32(1) [OF assms(3)] by auto
  then have step: "histogramBit True i hb =
      (tabPut fst (i, of_nat (Suc (c i))) hist, if c i = 0 then bits OR push_bit i 1 else bits)"
    by (simp add: histogramBit_def hb get Let_def add.commute)
  show ?thesis
    unfolding step using assms(1,2)
    by (auto simp: histogramFor_def hb tabGet_tabPut bit_or_iff bit_pow2_u64)
qed

lemma histogramBit_remove:
  assumes "histogramFor c hb" "i < 64" "0 < c i" "c i < 2 ^ 32"
  shows "histogramFor (c(i := c i - 1)) (histogramBit False i hb)"
proof -
  obtain hist bits where hb: "hb = (hist, bits)"
    by (cases hb)
  obtain n where n: "c i = Suc n"
    using assms(3) by (cases "c i") auto
  have get: "tabGet fst i hist = Some (i, of_nat (Suc n))"
    using assms(1,2) by (simp add: histogramFor_def hb n)
  have z: "(of_nat (Suc n) - 1 = (0 :: u32)) \<longleftrightarrow> n = 0"
    using count_u32(2) assms(4) n by simp
  show ?thesis
    using assms(1,2) z
    by (auto simp: histogramFor_def hb histogramBit_def get n tabGet_tabPut tabGet_tabRemove bit_and_iff
        bit_not_iff bit_pow2_u64)
qed

text \<open>A chord adds one to, or takes one from, the count of each of its notes.\<close>

definition noteOf :: "u64 \<Rightarrow> nat \<Rightarrow> nat" where
  "noteOf v i = (if bit v i then 1 else 0)"

lemma fold_histogram_add:
  "histogramFor c hb \<Longrightarrow> distinct is \<Longrightarrow> \<forall>i \<in> set is. i < 64 \<and> Suc (c i) < 2 ^ 32 \<Longrightarrow>
   histogramFor (\<lambda>i. if i \<in> set is then c i + noteOf v i else c i)
     (fold (\<lambda>i hb. if bit v i then histogramBit True i hb else hb) is hb)"
proof (induction "is" arbitrary: c hb)
  case (Cons i "is")
  let ?c = "c(i := c i + noteOf v i)"
  let ?hb = "if bit v i then histogramBit True i hb else hb"
  have "histogramFor ?c ?hb"
    using Cons.prems histogramBit_add [of c hb i] by (auto simp: noteOf_def)
  note IH = Cons.IH [OF this]
  have "histogramFor (\<lambda>j. if j \<in> set is then ?c j + noteOf v j else ?c j)
      (fold (\<lambda>i hb. if bit v i then histogramBit True i hb else hb) is ?hb)"
    using Cons.prems by (intro IH) auto
  moreover have "(\<lambda>j. if j \<in> set is then ?c j + noteOf v j else ?c j) =
      (\<lambda>j. if j \<in> set (i # is) then c j + noteOf v j else c j)"
    using Cons.prems(2) by (intro ext) auto
  ultimately show ?case
    by simp
qed simp

lemma fold_histogram_remove:
  "histogramFor c hb \<Longrightarrow> distinct is \<Longrightarrow> \<forall>i \<in> set is. i < 64 \<and> c i < 2 ^ 32 \<and> noteOf v i \<le> c i \<Longrightarrow>
   histogramFor (\<lambda>i. if i \<in> set is then c i - noteOf v i else c i)
     (fold (\<lambda>i hb. if bit v i then histogramBit False i hb else hb) is hb)"
proof (induction "is" arbitrary: c hb)
  case (Cons i "is")
  let ?c = "c(i := c i - noteOf v i)"
  let ?hb = "if bit v i then histogramBit False i hb else hb"
  have "histogramFor ?c ?hb"
    using Cons.prems histogramBit_remove [of c hb i] by (auto simp: noteOf_def)
  note IH = Cons.IH [OF this]
  have "histogramFor (\<lambda>j. if j \<in> set is then ?c j - noteOf v j else ?c j)
      (fold (\<lambda>i hb. if bit v i then histogramBit False i hb else hb) is ?hb)"
    using Cons.prems by (intro IH) auto
  moreover have "(\<lambda>j. if j \<in> set is then ?c j - noteOf v j else ?c j) =
      (\<lambda>j. if j \<in> set (i # is) then c j - noteOf v j else c j)"
    using Cons.prems(2) by (intro ext) auto
  ultimately show ?case
    by simp
qed simp

lemma histogramFor_cong: "(\<And>i. i < 64 \<Longrightarrow> c i = c' i) \<Longrightarrow> histogramFor c hb = histogramFor c' hb"
  by (simp add: histogramFor_def)

lemma UpdateNoteHistogram_add:
  assumes "histogramFor c hb" "\<forall>i < 64. Suc (c i) < 2 ^ 32"
  shows "histogramFor (\<lambda>i. c i + noteOf v i) (UpdateNoteHistogram v True hb)"
proof -
  have "histogramFor (\<lambda>i. if i \<in> set [0..<64] then c i + noteOf v i else c i) (UpdateNoteHistogram v True hb)"
    unfolding UpdateNoteHistogram_def using assms by (intro fold_histogram_add) auto
  then show ?thesis
    by (rule histogramFor_cong [THEN iffD1, rotated]) simp
qed

lemma UpdateNoteHistogram_remove:
  assumes "histogramFor c hb" "\<forall>i < 64. c i < 2 ^ 32 \<and> noteOf v i \<le> c i"
  shows "histogramFor (\<lambda>i. c i - noteOf v i) (UpdateNoteHistogram v False hb)"
proof -
  have "histogramFor (\<lambda>i. if i \<in> set [0..<64] then c i - noteOf v i else c i) (UpdateNoteHistogram v False hb)"
    unfolding UpdateNoteHistogram_def using assms by (intro fold_histogram_remove) auto
  then show ?thesis
    by (rule histogramFor_cong [THEN iffD1, rotated]) simp
qed

end
