(* ===== verification/Choir_MusicSheet.thy ===== *)
theory Choir_MusicSheet
  imports Choir_MusicData
begin

text \<open>
  \<^verbatim>\<open>MusicSheet\<close>, the choir demo's score database: a song path and a table from chord
  index to chord (a bit per note), with a running checksum and a note histogram.

  \<open>strsum\<close> and \<open>podsum\<close> (the fields of \<open>sums\<close>) stand for MUSCLE's String checksum and
  \<^verbatim>\<open>CalculatePODChecksum\<close> of a 64-bit value; the code relies on the empty String having
  checksum zero (\<open>SetToDefaultStateAux\<close> sets the running checksum to zero).

  The two loops that shift chords iterate over the table while they change it.  A
  MUSCLE iterator steps to the neighbouring entry when its current entry is removed, so
  the next index is the neighbour at the moment of removal; the values are read from the
  table as it is when the iterator gets there.
\<close>

record sums =
  strsum :: "string \<Rightarrow> u32"
  podsum64 :: "u64 \<Rightarrow> u32"

record MusicSheet =
  songFilePath :: string
  chords :: "(u32 \<times> u64) list"
  noteHistogram :: histogram
  usedNotes :: u64
  ms_checksum :: u32

section \<open>Operations\<close>

definition SetToDefaultStateAux :: "MusicSheet \<Rightarrow> MusicSheet" where
  "SetToDefaultStateAux s = s \<lparr> songFilePath := [], chords := [], noteHistogram := [], usedNotes := 0, ms_checksum := 0 \<rparr>"

definition CalculateChecksumForChord :: "sums \<Rightarrow> u32 \<Rightarrow> u64 \<Rightarrow> u32" where
  "CalculateChecksumForChord C whichChord chordValue = (whichChord + 1) * podsum64 C chordValue"

definition ms_CalculateChecksum :: "sums \<Rightarrow> MusicSheet \<Rightarrow> u32" where
  "ms_CalculateChecksum C s =
     fold (\<lambda>(k, v) ret. ret + CalculateChecksumForChord C k v) (chords s) (strsum C (songFilePath s))"

definition SetSongFilePath :: "sums \<Rightarrow> string \<Rightarrow> MusicSheet \<Rightarrow> MusicSheet" where
  "SetSongFilePath C path s =
     (if path \<noteq> songFilePath s
      then s \<lparr> ms_checksum := ms_checksum s - strsum C (songFilePath s) + strsum C path, songFilePath := path \<rparr>
      else s)"

definition chordAt :: "u32 \<Rightarrow> (u32 \<times> u64) list \<Rightarrow> u64 option" where
  "chordAt k cs = map_option snd (tabGet fst k cs)"

text \<open>The bookkeeping for a chord value that enters or leaves the table.\<close>

definition countChord :: "sums \<Rightarrow> bool \<Rightarrow> u32 \<Rightarrow> u64 \<Rightarrow> MusicSheet \<Rightarrow> MusicSheet" where
  "countChord C isAdd whichChord v s =
     (let (hist, used) = UpdateNoteHistogram v isAdd (noteHistogram s, usedNotes s);
          chk = CalculateChecksumForChord C whichChord v
      in s \<lparr> noteHistogram := hist, usedNotes := used,
             ms_checksum := (if isAdd then ms_checksum s + chk else ms_checksum s - chk) \<rparr>)"

definition PutChord :: "sums \<Rightarrow> u32 \<Rightarrow> u64 \<Rightarrow> MusicSheet \<Rightarrow> MusicSheet" where
  "PutChord C whichChord chordValue s =
     (if chordValue \<noteq> 0 then
        (let old = (case chordAt whichChord (chords s) of Some v \<Rightarrow> v | None \<Rightarrow> 0);
             s1 = (if old \<noteq> 0 then countChord C False whichChord old s else s);
             s2 = s1 \<lparr> chords := ordPut fst (whichChord, chordValue) (chords s) \<rparr>
         in countChord C True whichChord chordValue s2)
      else
        (case chordAt whichChord (chords s) of
           Some oldVal \<Rightarrow> countChord C False whichChord oldVal
                            (s \<lparr> chords := tabRemove fst whichChord (chords s) \<rparr>)
         | None \<Rightarrow> s))"

definition RemoveChord :: "sums \<Rightarrow> u32 \<Rightarrow> MusicSheet \<Rightarrow> MusicSheet" where
  "RemoveChord C whichChord s = PutChord C whichChord 0 s"

text \<open>Neighbouring indices in the table.\<close>

definition keyBefore :: "u32 \<Rightarrow> (u32 \<times> u64) list \<Rightarrow> u32 option" where
  "keyBefore k cs = (let js = filter (\<lambda>j. j < k) (map fst cs) in if js = [] then None else Some (last js))"

definition keyAfter :: "u32 \<Rightarrow> (u32 \<times> u64) list \<Rightarrow> u32 option" where
  "keyAfter k cs = (let js = filter (\<lambda>j. k < j) (map fst cs) in if js = [] then None else Some (hd js))"

lemma keyBefore_SomeD:
  assumes "keyBefore k cs = Some j"
  shows "j < k \<and> j \<in> fst ` set cs"
proof -
  have "j \<in> set (filter (\<lambda>j. j < k) (map fst cs))"
    using assms last_in_set by (fastforce simp: keyBefore_def Let_def split: if_splits)
  then show ?thesis
    by simp
qed

lemma keyAfter_SomeD:
  assumes "keyAfter k cs = Some j"
  shows "k < j \<and> j \<in> fst ` set cs"
proof -
  have "j \<in> set (filter (\<lambda>j. k < j) (map fst cs))"
    using assms hd_in_set by (fastforce simp: keyAfter_def Let_def split: if_splits)
  then show ?thesis
    by simp
qed

text \<open>One chord moved from index \<open>k\<close> to index \<open>k'\<close>, as both loop bodies do it.\<close>

definition moveChord :: "sums \<Rightarrow> u32 \<Rightarrow> u32 \<Rightarrow> MusicSheet \<Rightarrow> MusicSheet" where
  "moveChord C k k' s =
     (let chordValue = (case chordAt k (chords s) of Some v \<Rightarrow> v | None \<Rightarrow> 0)
      in PutChord C k' chordValue (RemoveChord C k s))"

function insertLoop :: "sums \<Rightarrow> u32 \<Rightarrow> u32 option \<Rightarrow> MusicSheet \<Rightarrow> MusicSheet" where
  "insertLoop C whichChord None s = s"
| "insertLoop C whichChord (Some chordIdx) s =
     (if chordIdx < whichChord then s
      else insertLoop C whichChord (keyBefore chordIdx (chords s)) (moveChord C chordIdx (chordIdx + 1) s))"
  by pat_completeness auto

termination insertLoop
  by (relation "measure (\<lambda>(C, w, k, s). case k of None \<Rightarrow> 0 | Some j \<Rightarrow> Suc (unat j))")
    (auto split: option.split dest: keyBefore_SomeD simp: word_less_nat_alt)

definition InsertChordAt :: "sums \<Rightarrow> u32 \<Rightarrow> MusicSheet \<Rightarrow> MusicSheet" where
  "InsertChordAt C whichChord s =
     insertLoop C whichChord (if chords s = [] then None else Some (fst (last (chords s)))) s"

function moveBackLoop :: "sums \<Rightarrow> u32 option \<Rightarrow> MusicSheet \<Rightarrow> MusicSheet" where
  "moveBackLoop C None s = s"
| "moveBackLoop C (Some chordIdx) s =
     moveBackLoop C (keyAfter chordIdx (chords s)) (moveChord C chordIdx (chordIdx - 1) s)"
  by pat_completeness auto

termination moveBackLoop
proof (relation "measure (\<lambda>(C, k, s). case k of None \<Rightarrow> 0 | Some j \<Rightarrow> 2 ^ 32 - unat j)")
  fix C :: sums and chordIdx :: u32 and s :: MusicSheet
  have "unat chordIdx < 2 ^ 32"
    using unsigned_less [of chordIdx] by simp
  then show "((C, keyAfter chordIdx (chords s), moveChord C chordIdx (chordIdx - 1) s), C, Some chordIdx, s)
      \<in> measure (\<lambda>(C, k, s). case k of None \<Rightarrow> 0 | Some j \<Rightarrow> 2 ^ 32 - unat j)"
    by (auto split: option.split dest!: keyAfter_SomeD simp: word_less_nat_alt)
qed simp

definition MoveChordsBackOneStartingAt :: "sums \<Rightarrow> u32 \<Rightarrow> MusicSheet \<Rightarrow> MusicSheet" where
  "MoveChordsBackOneStartingAt C whichChord s =
     moveBackLoop C (if tabHas fst whichChord (chords s) then Some whichChord else None) s"

text \<open>
  \<open>DeleteChordAt\<close>: the search for the first chord to move back.  It walks backwards to
  the first index left of \<open>whichChord\<close> and steps forward again by one.
\<close>

definition firstToMove :: "u32 \<Rightarrow> (u32 \<times> u64) list \<Rightarrow> u32 option" where
  "firstToMove whichChord cs =
     (case keyBefore whichChord cs of
        Some left \<Rightarrow> keyAfter left cs
      | None \<Rightarrow> Some (fst (hd cs)))"

definition DeleteChordAt :: "sums \<Rightarrow> u32 \<Rightarrow> MusicSheet \<Rightarrow> MusicSheet" where
  "DeleteChordAt C whichChord s0 =
     (let s = RemoveChord C whichChord s0 in
      if chords s = [] then s
      else if whichChord > fst (last (chords s)) then s
      else case firstToMove whichChord (chords s) of
             Some k \<Rightarrow> MoveChordsBackOneStartingAt C k s
           | None \<Rightarrow> s)"

definition GetSongLengthInChords :: "bool \<Rightarrow> MusicSheet \<Rightarrow> u32" where
  "GetSongLengthInChords useLoopingLogic s =
     (if useLoopingLogic \<and> chords s \<noteq> [] then - 1
      else (if chords s = [] then 0 else fst (last (chords s))) + 1)"

definition GetChordAtIndex :: "u32 \<Rightarrow> bool \<Rightarrow> MusicSheet \<Rightarrow> u64" where
  "GetChordAtIndex whichChord useLoopingLogic s =
     (case chordAt (if useLoopingLogic then whichChord mod GetSongLengthInChords False s else whichChord) (chords s) of
        Some v \<Rightarrow> v | None \<Rightarrow> 0)"

section \<open>Archives and updates\<close>

definition UpdateFromArchive :: "sums \<Rightarrow> choir_msg \<Rightarrow> MusicSheet \<Rightarrow> status_t \<times> MusicSheet" where
  "UpdateFromArchive C archive s =
     (if cm_what archive \<noteq> MUSIC_TYPE_MUSIC_SHEET then (B_TYPE_MISMATCH, s)
      else let s1 = (case ar_path archive of Some p \<Rightarrow> SetSongFilePath C p s | None \<Rightarrow> s)
           in (B_NO_ERROR, fold (\<lambda>(k, v). PutChord C k v) (zip (ar_idx archive) (ar_chord archive)) s1))"

definition ms_SetFromArchive :: "sums \<Rightarrow> choir_msg \<Rightarrow> MusicSheet \<Rightarrow> status_t \<times> MusicSheet" where
  "ms_SetFromArchive C archive s =
     (if cm_what archive \<noteq> MUSIC_TYPE_MUSIC_SHEET then (B_TYPE_MISMATCH, s)
      else UpdateFromArchive C archive (SetToDefaultStateAux s))"

definition ms_SaveToArchive :: "MusicSheet \<Rightarrow> status_t + choir_msg" where
  "ms_SaveToArchive s =
     Inr ((choirMessage MUSIC_TYPE_MUSIC_SHEET)
            \<lparr> ar_path := Some (songFilePath s), ar_idx := map fst (chords s), ar_chord := map snd (chords s) \<rparr>)"

text \<open>
  A note index from 64 on shifts the bit out of the chord here; in the code such a shift is
  undefined.
\<close>

definition ms_SeniorUpdate :: "sums \<Rightarrow> choir_msg \<Rightarrow> MusicSheet \<Rightarrow> choir_msg option \<times> MusicSheet" where
  "ms_SeniorUpdate C msg s =
     (if cm_what msg = CHOIR_COMMAND_TOGGLE_NOTE then
        (let chordIdx = getOr 0 (chord_index msg);
             noteIdx = getOr 0 (note_index msg);
             newChord = GetChordAtIndex chordIdx False s XOR push_bit (unat noteIdx) 1
         in (Some ((choirMessage CHOIR_COMMAND_SET_CHORD)
                     \<lparr> chord_index := Some chordIdx, chord_value := Some newChord \<rparr>),
             PutChord C chordIdx newChord s))
      else if cm_what msg = CHOIR_COMMAND_INSERT_CHORD then (Some msg, InsertChordAt C (getOr 0 (chord_index msg)) s)
      else if cm_what msg = CHOIR_COMMAND_DELETE_CHORD then (Some msg, DeleteChordAt C (getOr 0 (chord_index msg)) s)
      else if cm_what msg = CHOIR_COMMAND_SET_SONG_FILE_PATH then (Some msg, SetSongFilePath C (getOr [] (song_file_path msg)) s)
      else if cm_what msg = CHOIR_COMMAND_NOOP then (Some msg, s)
      else (None, s))"

definition ms_JuniorUpdate :: "sums \<Rightarrow> choir_msg \<Rightarrow> MusicSheet \<Rightarrow> status_t \<times> MusicSheet" where
  "ms_JuniorUpdate C msg s =
     (if cm_what msg = CHOIR_COMMAND_NOOP then (B_NO_ERROR, s)
      else if cm_what msg = CHOIR_COMMAND_SET_CHORD then
        (B_NO_ERROR, PutChord C (getOr 0 (chord_index msg)) (getOr 0 (chord_value msg)) s)
      else if cm_what msg = CHOIR_COMMAND_INSERT_CHORD then (B_NO_ERROR, InsertChordAt C (getOr 0 (chord_index msg)) s)
      else if cm_what msg = CHOIR_COMMAND_DELETE_CHORD then (B_NO_ERROR, DeleteChordAt C (getOr 0 (chord_index msg)) s)
      else if cm_what msg = CHOIR_COMMAND_SET_SONG_FILE_PATH then
        (B_NO_ERROR, SetSongFilePath C (getOr [] (song_file_path msg)) s)
      else if cm_what msg = MUSIC_TYPE_MUSIC_SHEET then ms_SetFromArchive C msg s
      else (B_BAD_ARGUMENT, s))"

definition MusicSheetDB :: "sums \<Rightarrow> (MusicSheet, choir_msg) IDatabaseObject" where
  "MusicSheetDB C = \<lparr> SetToDefaultState = SetToDefaultStateAux, SetFromArchive = ms_SetFromArchive C,
     SaveToArchive = ms_SaveToArchive, SeniorUpdate = ms_SeniorUpdate C, JuniorUpdate = ms_JuniorUpdate C,
     GetCurrentChecksum = ms_checksum, db_CalculateChecksum = ms_CalculateChecksum C \<rparr>"

section \<open>The sheet invariant\<close>

abbreviation chordSum :: "sums \<Rightarrow> u32 \<times> u64 \<Rightarrow> u32" where
  "chordSum C e \<equiv> CalculateChecksumForChord C (fst e) (snd e)"

definition sheetInv :: "sums \<Rightarrow> MusicSheet \<Rightarrow> bool" where
  "sheetInv C s \<longleftrightarrow>
     ordInv fst (chords s) \<and> (\<forall>e \<in> set (chords s). snd e \<noteq> 0) \<and> ms_checksum s = ms_CalculateChecksum C s"

text \<open>The contents two copies of a score must agree on.\<close>

definition sameSheet :: "MusicSheet \<Rightarrow> MusicSheet \<Rightarrow> bool" where
  "sameSheet s t \<longleftrightarrow> songFilePath s = songFilePath t \<and> chords s = chords t"

lemma ms_CalculateChecksum_sum:
  "ms_CalculateChecksum C s = strsum C (songFilePath s) + sum_list (map (chordSum C) (chords s))"
proof -
  have "fold (\<lambda>(k, v) ret. ret + CalculateChecksumForChord C k v) cs x = x + sum_list (map (chordSum C) cs)" for cs x
    by (induction cs arbitrary: x) (auto simp: algebra_simps)
  then show ?thesis
    by (simp add: ms_CalculateChecksum_def)
qed

lemma countChord_fields [simp]:
  "songFilePath (countChord C b k v s) = songFilePath s" "chords (countChord C b k v s) = chords s"
  "ms_checksum (countChord C b k v s) =
     (if b then ms_checksum s + CalculateChecksumForChord C k v else ms_checksum s - CalculateChecksumForChord C k v)"
  by (simp_all add: countChord_def Let_def split: prod.split)

lemma tabRemove_absent: "k \<notin> key ` set es \<Longrightarrow> tabRemove key k es = es"
  by (auto simp: tabRemove_def intro!: filter_all_conv)

lemma chordAt_None: "chordAt k cs = None \<longleftrightarrow> k \<notin> fst ` set cs"
  by (simp add: chordAt_def tabGet_eq_None)

lemma chordAt_Some_tabGet: "chordAt k cs = Some v \<longleftrightarrow> tabGet fst k cs = Some (k, v)"
  by (fastforce simp: chordAt_def dest: tabGet_SomeD)

lemma PutChord_fields:
  "songFilePath (PutChord C k v s) = songFilePath s"
  "chords (PutChord C k v s) = (if v \<noteq> 0 then ordPut fst (k, v) (chords s) else tabRemove fst k (chords s))"
  by (auto simp: PutChord_def Let_def chordAt_None tabRemove_absent split: option.split)

lemma chordAt_PutChord:
  "ordInv fst (chords s) \<Longrightarrow>
   chordAt j (chords (PutChord C k v s)) = (if j = k then (if v = 0 then None else Some v) else chordAt j (chords s))"
  by (auto simp: PutChord_fields chordAt_def tabGet_ordPut tabGet_tabRemove)

lemma PutChord_inv:
  assumes "sheetInv C s"
  shows "sheetInv C (PutChord C k v s)"
proof -
  have srt: "ordInv fst (chords s)" and nz: "\<forall>e \<in> set (chords s). snd e \<noteq> 0"
    and chk: "ms_checksum s = strsum C (songFilePath s) + sum_list (map (chordSum C) (chords s))"
    using assms by (simp_all add: sheetInv_def ms_CalculateChecksum_sum)
  have "ordInv fst (chords (PutChord C k v s))"
    by (simp add: PutChord_fields ordInv_ordPut ordInv_tabRemove srt)
  moreover have "\<forall>e \<in> set (chords (PutChord C k v s)). snd e \<noteq> 0"
    using nz set_ordPut_subset [of fst "(k, v)" "chords s"]
    by (auto simp: PutChord_fields tabRemove_def)
  moreover have "ms_checksum (PutChord C k v s) =
      strsum C (songFilePath s) + sum_list (map (chordSum C) (chords (PutChord C k v s)))"
  proof (cases "chordAt k (chords s)")
    case None
    then have "k \<notin> fst ` set (chords s)"
      by (simp add: chordAt_None)
    then show ?thesis
      using None chk
      by (simp add: PutChord_fields sum_list_ordPut_fresh tabRemove_absent) (simp add: PutChord_def Let_def)
  next
    case (Some w)
    then have get: "tabGet fst k (chords s) = Some (k, w)"
      by (simp add: chordAt_Some_tabGet)
    then have "w \<noteq> 0"
      using nz tabGet_SomeD [OF get] by auto
    then show ?thesis
      using Some chk sum_list_ordPut_present [OF srt, of "(k, v)" "(k, w)" "chordSum C"] get
        sum_list_tabRemove [OF ordInv_imp_tabInv [OF srt] get, of "chordSum C"]
      by (simp add: PutChord_fields) (simp add: PutChord_def Let_def)
  qed
  ultimately show ?thesis
    by (simp add: sheetInv_def ms_CalculateChecksum_sum PutChord_fields)
qed

lemma SetSongFilePath_inv: "sheetInv C s \<Longrightarrow> sheetInv C (SetSongFilePath C p s)"
  by (auto simp: sheetInv_def SetSongFilePath_def ms_CalculateChecksum_sum)

lemma moveChord_inv: "sheetInv C s \<Longrightarrow> sheetInv C (moveChord C k k' s)"
  by (simp add: moveChord_def Let_def RemoveChord_def PutChord_inv)

lemma insertLoop_inv: "sheetInv C s \<Longrightarrow> sheetInv C (insertLoop C w k s)"
  by (induction C w k s rule: insertLoop.induct) (simp_all add: moveChord_inv)

lemma moveBackLoop_inv: "sheetInv C s \<Longrightarrow> sheetInv C (moveBackLoop C k s)"
  by (induction C k s rule: moveBackLoop.induct) (simp_all add: moveChord_inv)

lemma InsertChordAt_inv: "sheetInv C s \<Longrightarrow> sheetInv C (InsertChordAt C w s)"
  by (simp add: InsertChordAt_def insertLoop_inv)

lemma DeleteChordAt_inv: "sheetInv C s \<Longrightarrow> sheetInv C (DeleteChordAt C w s)"
  by (simp add: DeleteChordAt_def Let_def MoveChordsBackOneStartingAt_def moveBackLoop_inv RemoveChord_def
      PutChord_inv split: option.split)

lemma fold_PutChord_inv: "sheetInv C s \<Longrightarrow> sheetInv C (fold (\<lambda>(k, v). PutChord C k v) es s)"
  by (induction es arbitrary: s) (auto simp: PutChord_inv)

section \<open>Copies stay copies\<close>

lemma PutChord_same: "sameSheet s t \<Longrightarrow> sameSheet (PutChord C k v s) (PutChord C k v t)"
  by (simp add: sameSheet_def PutChord_fields)

lemma SetSongFilePath_same: "sameSheet s t \<Longrightarrow> sameSheet (SetSongFilePath C p s) (SetSongFilePath C p t)"
  by (auto simp: sameSheet_def SetSongFilePath_def)

lemma moveChord_same: "sameSheet s t \<Longrightarrow> sameSheet (moveChord C k k' s) (moveChord C k k' t)"
  by (simp add: moveChord_def Let_def RemoveChord_def sameSheet_def PutChord_fields)

lemma insertLoop_same: "sameSheet s t \<Longrightarrow> sameSheet (insertLoop C w k s) (insertLoop C w k t)"
proof (induction C w k s arbitrary: t rule: insertLoop.induct)
  case (2 C w k s)
  then have "chords t = chords s"
    by (simp add: sameSheet_def)
  with 2 show ?case
    by (simp add: moveChord_same)
qed simp

lemma moveBackLoop_same: "sameSheet s t \<Longrightarrow> sameSheet (moveBackLoop C k s) (moveBackLoop C k t)"
proof (induction C k s arbitrary: t rule: moveBackLoop.induct)
  case (2 C k s)
  then have "chords t = chords s"
    by (simp add: sameSheet_def)
  with 2 show ?case
    by (simp add: moveChord_same)
qed simp

lemma InsertChordAt_same: "sameSheet s t \<Longrightarrow> sameSheet (InsertChordAt C w s) (InsertChordAt C w t)"
  unfolding InsertChordAt_def using insertLoop_same [of s t C w]
  by (simp add: sameSheet_def [of s t] del: insertLoop.simps)

lemma DeleteChordAt_same:
  assumes "sameSheet s t"
  shows "sameSheet (DeleteChordAt C w s) (DeleteChordAt C w t)"
proof -
  have rm: "sameSheet (RemoveChord C w s) (RemoveChord C w t)"
    using assms by (simp add: RemoveChord_def PutChord_same)
  then have "chords (RemoveChord C w t) = chords (RemoveChord C w s)"
    by (simp add: sameSheet_def)
  then show ?thesis
    using rm moveBackLoop_same [OF rm]
    by (simp add: DeleteChordAt_def Let_def MoveChordsBackOneStartingAt_def split: option.split)
qed

lemma fold_PutChord_same:
  "sameSheet s t \<Longrightarrow> sameSheet (fold (\<lambda>(k, v). PutChord C k v) es s) (fold (\<lambda>(k, v). PutChord C k v) es t)"
  by (induction es arbitrary: s t) (auto simp: PutChord_same)

text \<open>Loading an archive forgets the state it is loaded into.\<close>

lemma default_same: "sameSheet (SetToDefaultStateAux s) (SetToDefaultStateAux t)"
  by (simp add: sameSheet_def SetToDefaultStateAux_def)

lemma default_inv: "strsum C [] = 0 \<Longrightarrow> sheetInv C (SetToDefaultStateAux s)"
  by (simp add: sheetInv_def SetToDefaultStateAux_def ms_CalculateChecksum_def ordInv_def)

lemma UpdateFromArchive_same:
  assumes "sameSheet s t"
  shows "fst (UpdateFromArchive C a s) = fst (UpdateFromArchive C a t) \<and>
         sameSheet (snd (UpdateFromArchive C a s)) (snd (UpdateFromArchive C a t))"
  using assms
  by (simp add: UpdateFromArchive_def Let_def fold_PutChord_same SetSongFilePath_same split: option.split)

lemma UpdateFromArchive_inv: "sheetInv C s \<Longrightarrow> sheetInv C (snd (UpdateFromArchive C a s))"
  by (simp add: UpdateFromArchive_def Let_def fold_PutChord_inv SetSongFilePath_inv split: option.split)

text \<open>Saving and loading: putting a sorted table's chords one by one rebuilds the table.\<close>

lemma fold_PutChord_rebuild:
  assumes "ordInv fst (cs @ ds)" "\<forall>e \<in> set ds. snd e \<noteq> 0" "chords s = cs"
  shows "chords (fold (\<lambda>(k, v). PutChord C k v) ds s) = cs @ ds \<and>
         songFilePath (fold (\<lambda>(k, v). PutChord C k v) ds s) = songFilePath s"
  using assms
proof (induction ds arbitrary: cs s)
  case (Cons e ds)
  obtain k v where e: "e = (k, v)"
    by (cases e)
  have "ordPut fst (k, v) cs = cs @ [(k, v)]"
    using Cons.prems(1) by (intro ordPut_snoc) (auto simp: e ordInv_def sorted_wrt_append)
  then have "chords (PutChord C k v s) = cs @ [(k, v)]"
    using Cons.prems(2,3) by (simp add: e PutChord_fields)
  then show ?case
    using Cons.IH [of "cs @ [(k, v)]" "PutChord C k v s"] Cons.prems
    by (simp add: e PutChord_fields)
qed simp

lemma sheet_archive_roundtrip:
  assumes "sheetInv C d" "ms_SaveToArchive d = Inr m"
  shows "fst (ms_SetFromArchive C m t) = B_NO_ERROR \<and> sameSheet d (snd (ms_SetFromArchive C m t))"
proof -
  let ?t = "SetSongFilePath C (songFilePath d) (SetToDefaultStateAux t)"
  have t: "chords ?t = []" "songFilePath ?t = songFilePath d"
    by (auto simp: SetSongFilePath_def SetToDefaultStateAux_def)
  have zip: "zip (map fst cs) (map snd cs) = cs" for cs :: "(u32 \<times> u64) list"
    by (rule zip_map_fst_snd)
  have m: "m = (choirMessage MUSIC_TYPE_MUSIC_SHEET)
            \<lparr> ar_path := Some (songFilePath d), ar_idx := map fst (chords d), ar_chord := map snd (chords d) \<rparr>"
    using assms(2) by (simp add: ms_SaveToArchive_def)
  have "chords (fold (\<lambda>(k, v). PutChord C k v) (chords d) ?t) = [] @ chords d \<and>
      songFilePath (fold (\<lambda>(k, v). PutChord C k v) (chords d) ?t) = songFilePath ?t"
    using assms(1) t(1) by (intro fold_PutChord_rebuild) (auto simp: sheetInv_def)
  then show ?thesis
    by (simp add: m ms_SetFromArchive_def UpdateFromArchive_def Let_def choirMessage_def zip sameSheet_def t)
qed

section \<open>What inserting and deleting a column does\<close>

lemma unat_pred: "(j :: u32) \<noteq> 0 \<Longrightarrow> unat (j - 1) = unat j - 1"
  by (simp add: unat_minus_one)

lemma keyBefore_gap:
  assumes "ordInv fst cs" "keyBefore k cs = Some p" "p < j" "j < k"
  shows "j \<notin> fst ` set cs"
proof
  assume "j \<in> fst ` set cs"
  let ?js = "filter (\<lambda>j. j < k) (map fst cs)"
  have "sorted_wrt (<) ?js" "j \<in> set ?js"
    using assms(1,4) \<open>j \<in> fst ` set cs\<close> by (auto simp: ordInv_def sorted_wrt_filter)
  then have "j \<le> last ?js"
    by (rule strict_sorted_le_last)
  then show False
    using assms(2,3) by (simp add: keyBefore_def Let_def split: if_splits)
qed

lemma keyAfter_gap:
  assumes "ordInv fst cs" "keyAfter k cs = Some p" "k < j" "j < p"
  shows "j \<notin> fst ` set cs"
proof
  assume "j \<in> fst ` set cs"
  let ?js = "filter (\<lambda>j. k < j) (map fst cs)"
  have "sorted_wrt (<) ?js" "j \<in> set ?js"
    using assms(1,3) \<open>j \<in> fst ` set cs\<close> by (auto simp: ordInv_def sorted_wrt_filter)
  then have "hd ?js \<le> j"
    by (rule strict_sorted_hd_le)
  then show False
    using assms(2,4) by (simp add: keyAfter_def Let_def split: if_splits)
qed

lemma keyBefore_None: "keyBefore k cs = None \<Longrightarrow> j < k \<Longrightarrow> j \<notin> fst ` set cs"
  by (auto simp: keyBefore_def Let_def filter_empty_conv split: if_splits)

lemma keyAfter_None: "keyAfter k cs = None \<Longrightarrow> k < j \<Longrightarrow> j \<notin> fst ` set cs"
  by (auto simp: keyAfter_def Let_def filter_empty_conv split: if_splits)

lemma moveChord_at:
  assumes "sheetInv C s" "chordAt k (chords s) = Some v" "k' \<noteq> k"
  shows "chordAt j (chords (moveChord C k k' s)) =
         (if j = k' then Some v else if j = k then None else chordAt j (chords s))"
proof -
  have srt: "ordInv fst (chords s)" and "v \<noteq> 0"
    using assms(1,2) tabGet_SomeD by (fastforce simp: sheetInv_def chordAt_Some_tabGet)+
  moreover have "ordInv fst (chords (PutChord C k 0 s))"
    using PutChord_inv [OF assms(1)] by (simp add: sheetInv_def)
  ultimately show ?thesis
    using assms(2,3) by (simp add: moveChord_def RemoveChord_def chordAt_PutChord)
qed

text \<open>The column at \<open>w\<close> is freed: the chords up to \<open>k\<close> from \<open>w\<close> on move up by one.\<close>

definition shiftedUp :: "u32 \<Rightarrow> u32 \<Rightarrow> (u32 \<Rightarrow> u64 option) \<Rightarrow> u32 \<Rightarrow> u64 option" where
  "shiftedUp w k f j =
     (if j < w then f j else if j \<le> k + 1 then (if j = w then None else f (j - 1)) else f j)"

lemma shiftedUp_step:
  assumes "k \<noteq> - 1" "w \<le> k" "f k = Some v" "f (k + 1) = None"
    and f': "\<And>j. f' j = (if j = k + 1 then Some v else if j = k then None else f j)"
    and gap: "\<And>j. p < j \<Longrightarrow> j < k \<Longrightarrow> f j = None" and "p < k"
  shows "shiftedUp w p f' j = shiftedUp w k f j"
proof -
  have p: "unat (p + 1) = Suc (unat p)" and k: "unat (k + 1) = Suc (unat k)"
    using assms(1,7) by (auto intro: unat_Suc_not_max)
  note nat = word_le_nat_alt word_less_nat_alt p k
  consider (left) "j < w" | (moved) "w < j" "j \<le> p + 1" | (freed) "j = w"
    | (gap) "w < j" "p + 1 < j" "j \<le> k" | (top) "j = k + 1" | (above) "k + 1 < j"
    using assms(7) by (simp add: nat word_unat_eq_iff) linarith
  then show ?thesis
  proof cases
    case left
    then have "j \<noteq> k + 1" "j \<noteq> k"
      using assms(2) by (auto simp: nat)
    with left show ?thesis
      by (simp add: shiftedUp_def f')
  next
    case moved
    then have "j \<noteq> 0"
      by auto
    then have "j - 1 \<noteq> k + 1" "j - 1 \<noteq> k" "j \<le> k + 1"
      using moved assms(7) by (auto simp: nat word_unat_eq_iff unat_pred)
    with moved show ?thesis
      by (auto simp: shiftedUp_def f')
  next
    case freed
    have "w = k \<or> w < k"
      using assms(2) by auto
    moreover have "p + 1 < w \<Longrightarrow> p < w"
      by (simp add: nat)
    ultimately have "w = k \<or> w < k \<and> (p + 1 < w \<longrightarrow> f w = None)"
      using gap [of w] by blast
    moreover have "w \<noteq> k + 1"
      using assms(2) by (auto simp: nat)
    ultimately show ?thesis
      using freed assms(2) by (auto simp: shiftedUp_def f' nat)
  next
    case gap
    then have "j \<noteq> 0"
      by auto
    have "p < j - 1" "j - 1 < k" "p < j"
      using gap \<open>j \<noteq> 0\<close> by (auto simp: nat unat_pred)
    then have "f (j - 1) = None" "j < k \<Longrightarrow> f j = None"
      by (auto intro!: assms(6))
    moreover have "j \<noteq> k + 1" "\<not> j \<le> p + 1" "j \<le> k + 1" "j = k \<or> j < k"
      using gap by (auto simp: nat word_unat_eq_iff)
    ultimately show ?thesis
      using gap by (auto simp: shiftedUp_def f')
  next
    case top
    then show ?thesis
      using assms(2,3,7) by (auto simp: shiftedUp_def f' nat)
  next
    case above
    then have "j \<noteq> k + 1" "j \<noteq> k"
      by (auto simp: nat)
    with above assms(2,7) show ?thesis
      by (auto simp: shiftedUp_def f' nat)
  qed
qed

lemma shiftedUp_last:
  assumes "k \<noteq> - 1" "w \<le> k" "f k = Some v"
    and f': "\<And>j. f' j = (if j = k + 1 then Some v else if j = k then None else f j)"
    and gap: "\<And>j. j < k \<Longrightarrow> f j = None"
  shows "f' j = shiftedUp w k f j"
proof -
  have k: "unat (k + 1) = Suc (unat k)"
    using assms(1) by (rule unat_Suc_not_max)
  note nat = word_le_nat_alt word_less_nat_alt k
  consider (left) "j < w" | (freed) "j = w" | (gap) "w < j" "j \<le> k" | (top) "j = k + 1" | (above) "k + 1 < j"
    by (simp add: nat word_unat_eq_iff) linarith
  then show ?thesis
  proof cases
    case left
    then have "j \<noteq> k + 1" "j \<noteq> k"
      using assms(2) by (auto simp: nat)
    with left show ?thesis
      by (simp add: shiftedUp_def f')
  next
    case freed
    have "w = k \<or> w < k \<and> f w = None"
      using assms(2) gap [of w] by auto
    moreover have "w \<noteq> k + 1" "w \<le> k + 1"
      using assms(2) by (auto simp: nat)
    ultimately show ?thesis
      using freed by (auto simp: shiftedUp_def f')
  next
    case gap
    then have "j \<noteq> 0"
      by auto
    then have "j - 1 < k"
      using gap(2) by (auto simp: nat unat_pred word_unat_eq_iff)
    then have "f (j - 1) = None"
      by (rule assms(5))
    moreover have "j < k \<Longrightarrow> f j = None"
      by (rule assms(5))
    moreover have "j \<noteq> k + 1" "j \<le> k + 1"
      using gap(2) by (auto simp: nat)
    ultimately show ?thesis
      using gap by (auto simp: shiftedUp_def f')
  next
    case top
    then show ?thesis
      using assms(2,3) by (auto simp: shiftedUp_def f' nat)
  next
    case above
    then have "j \<noteq> k + 1" "j \<noteq> k"
      by (auto simp: nat)
    with above assms(2) show ?thesis
      by (auto simp: shiftedUp_def f' nat)
  qed
qed

lemma insertLoop_at:
  assumes "sheetInv C s" "tabHas fst k (chords s)" "k \<noteq> - 1" "k + 1 \<notin> fst ` set (chords s)"
  shows "chordAt j (chords (insertLoop C w (Some k) s)) = shiftedUp w k (\<lambda>j. chordAt j (chords s)) j"
  using assms
proof (induction "unat k" arbitrary: k s rule: less_induct)
  case less
  let ?f = "\<lambda>j. chordAt j (chords s)" and ?s = "moveChord C k (k + 1) s"
  have srt: "ordInv fst (chords s)"
    using less.prems(1) by (simp add: sheetInv_def)
  obtain v where v: "?f k = Some v"
    using less.prems(2) by (auto simp: chordAt_def)
  have n1: "?f (k + 1) = None"
    using less.prems(4) by (simp add: chordAt_None)
  have at: "chordAt j (chords ?s) = (if j = k + 1 then Some v else if j = k then None else ?f j)" for j
    by (rule moveChord_at [OF less.prems(1) v]) simp
  show ?case
  proof (cases "k < w")
    case True
    moreover have "\<not> j < w \<Longrightarrow> j \<le> k + 1 \<Longrightarrow> j = w \<and> w = k + 1"
      using True word_less_imp_Suc_le [of k w] by auto
    ultimately show ?thesis
      using n1 by (auto simp: shiftedUp_def)
  next
    case False
    then have wk: "w \<le> k"
      by simp
    show ?thesis
    proof (cases "keyBefore k (chords s)")
      case None
      then have "\<And>j. j < k \<Longrightarrow> ?f j = None"
        using keyBefore_None by (simp add: chordAt_None)
      with None False show ?thesis
        using shiftedUp_last [OF less.prems(3) wk v at] by simp
    next
      case (Some p)
      have pk: "p < k" "p \<in> fst ` set (chords s)"
        using keyBefore_SomeD [OF Some] by auto
      have gap: "\<And>j. p < j \<Longrightarrow> j < k \<Longrightarrow> ?f j = None"
        using keyBefore_gap [OF srt Some] by (simp add: chordAt_None)
      have nk: "unat (p + 1) = Suc (unat p)"
        using pk(1) by (rule unat_Suc_less)
      have p1: "p + 1 \<noteq> k + 1" "p \<noteq> k" "p \<noteq> k + 1"
        using pk(1) unat_Suc_not_max [OF less.prems(3)] by (auto simp: word_less_nat_alt)
      have "chordAt p (chords ?s) \<noteq> None"
        using pk p1 by (simp add: at chordAt_None)
      moreover have "chordAt (p + 1) (chords ?s) = None"
      proof (cases "p + 1 = k")
        case False
        then have "p + 1 < k"
          using word_less_imp_Suc_le [OF pk(1)] by (simp add: order_less_le)
        moreover have "p < p + 1"
          using nk by (simp add: word_less_nat_alt)
        ultimately show ?thesis
          using gap p1(1) False by (simp add: at)
      qed (use p1 in \<open>simp add: at\<close>)
      moreover have "p \<noteq> - 1"
        using pk(1) by auto
      ultimately have IH: "chordAt j (chords (insertLoop C w (Some p) ?s)) =
          shiftedUp w p (\<lambda>j. chordAt j (chords ?s)) j"
        using pk(1) less.prems(1)
        by (intro less.hyps) (simp_all add: word_less_nat_alt moveChord_inv chordAt_None chordAt_def tabGet_eq_None)
      show ?thesis
        using Some False IH shiftedUp_step [OF less.prems(3) wk v n1 at gap pk(1)] by simp
    qed
  qed
qed

text \<open>Deleting moves every chord from \<open>k\<close> on down by one.\<close>

definition shiftedDown :: "u32 \<Rightarrow> (u32 \<Rightarrow> u64 option) \<Rightarrow> u32 \<Rightarrow> u64 option" where
  "shiftedDown k f j = (if j < k - 1 then f j else if j = - 1 then None else f (j + 1))"

lemma shiftedDown_step:
  assumes "k \<noteq> 0" "f k = Some v" "f (k - 1) = None"
    and f': "\<And>j. f' j = (if j = k - 1 then Some v else if j = k then None else f j)"
    and gap: "\<And>j. k < j \<Longrightarrow> j < q \<Longrightarrow> f j = None" and "k < q"
  shows "shiftedDown q f' j = shiftedDown k f j"
proof -
  have q0: "q \<noteq> 0"
    using assms(6) by auto
  note nat = word_le_nat_alt word_less_nat_alt unat_pred [OF assms(1)] unat_pred [OF q0]
  have kq: "Suc (unat k) \<le> unat q" "0 < unat k"
    using assms(1,6) by (auto simp: nat word_unat_eq_iff)
  have j1: "j \<noteq> - 1 \<Longrightarrow> unat (j + 1) = Suc (unat j)"
    by (rule unat_Suc_not_max)
  consider (left) "unat j < unat k - 1" | (here) "unat j = unat k - 1"
    | (gap) "unat k \<le> unat j" "unat j < unat q - 1" | (above) "unat q - 1 \<le> unat j" "j \<noteq> - 1" | (max) "j = - 1"
    by linarith
  then show ?thesis
  proof cases
    case left
    then have "j \<noteq> k - 1" "j \<noteq> k"
      using kq by (auto simp: nat word_unat_eq_iff)
    with left kq show ?thesis
      by (auto simp: shiftedDown_def f' nat)
  next
    case here
    then have j: "j = k - 1"
      by (simp add: word_unat_eq_iff unat_pred [OF assms(1)])
    then have "j + 1 = k"
      by simp
    moreover have "j \<noteq> - 1"
      using \<open>j + 1 = k\<close> assms(1) by auto
    ultimately show ?thesis
      using here kq assms(2) j by (auto simp: shiftedDown_def f' nat)
  next
    case gap
    have "j < q"
      using gap(2) by (auto simp: nat)
    then have nm: "j \<noteq> - 1"
      by auto
    have "k < j + 1" "j + 1 < q"
      using gap j1 [OF nm] by (auto simp: nat)
    then have "f (j + 1) = None"
      by (rule assms(5))
    moreover have "j = k \<or> k < j \<and> j < q"
      using gap by (auto simp: nat word_unat_eq_iff)
    moreover have "j \<noteq> k - 1" "\<not> j < k - 1" "j < q - 1"
      using gap kq by (auto simp: nat word_unat_eq_iff)
    ultimately show ?thesis
      using nm assms(5) [of j] by (auto simp: shiftedDown_def f')
  next
    case above
    then have "j + 1 \<noteq> k - 1" "j + 1 \<noteq> k"
      using kq j1 by (auto simp: nat word_unat_eq_iff)
    with above kq show ?thesis
      by (auto simp: shiftedDown_def f' nat)
  next
    case max
    then show ?thesis
      using assms(1) q0 by (auto simp: shiftedDown_def)
  qed
qed

lemma shiftedDown_last:
  assumes "k \<noteq> 0" "f k = Some v"
    and f': "\<And>j. f' j = (if j = k - 1 then Some v else if j = k then None else f j)"
    and gap: "\<And>j. k < j \<Longrightarrow> f j = None"
  shows "f' j = shiftedDown k f j"
proof -
  note nat = word_le_nat_alt word_less_nat_alt unat_pred [OF assms(1)]
  have k0: "0 < unat k"
    using assms(1) by (auto simp: word_unat_eq_iff)
  consider (left) "j < k - 1" | (here) "j = k - 1" | (above) "k \<le> j"
    using k0 by (simp add: nat word_unat_eq_iff) linarith
  then show ?thesis
  proof cases
    case left
    then have "j \<noteq> k" "j \<noteq> k - 1"
      using k0 by (auto simp: nat)
    with left show ?thesis
      by (simp add: shiftedDown_def f')
  next
    case here
    then have "j + 1 = k" "j \<noteq> - 1"
      using assms(1) by auto
    then show ?thesis
      using here assms(2) by (simp add: shiftedDown_def f')
  next
    case above
    then have "j \<noteq> k - 1" "\<not> j < k - 1" "j = k \<or> k < j"
      using k0 by (auto simp: nat word_unat_eq_iff)
    moreover have "j \<noteq> - 1 \<Longrightarrow> f (j + 1) = None"
      using above by (intro gap) (simp add: nat unat_Suc_not_max)
    ultimately show ?thesis
      using gap [of j] by (auto simp: shiftedDown_def f')
  qed
qed

lemma moveBackLoop_at:
  assumes "sheetInv C s" "tabHas fst k (chords s)" "k \<noteq> 0" "k - 1 \<notin> fst ` set (chords s)"
  shows "chordAt j (chords (moveBackLoop C (Some k) s)) = shiftedDown k (\<lambda>j. chordAt j (chords s)) j"
  using assms
proof (induction "2 ^ 32 - unat k" arbitrary: k s rule: less_induct)
  case less
  let ?f = "\<lambda>j. chordAt j (chords s)" and ?s = "moveChord C k (k - 1) s"
  have srt: "ordInv fst (chords s)"
    using less.prems(1) by (simp add: sheetInv_def)
  obtain v where v: "?f k = Some v"
    using less.prems(2) by (auto simp: chordAt_def)
  have n1: "?f (k - 1) = None"
    using less.prems(4) by (simp add: chordAt_None)
  have at: "chordAt j (chords ?s) = (if j = k - 1 then Some v else if j = k then None else ?f j)" for j
    by (rule moveChord_at [OF less.prems(1) v]) simp
  show ?case
  proof (cases "keyAfter k (chords s)")
    case None
    then have "\<And>j. k < j \<Longrightarrow> ?f j = None"
      using keyAfter_None by (simp add: chordAt_None)
    with None show ?thesis
      using shiftedDown_last [OF less.prems(3) v at] by simp
  next
    case (Some q)
    have kq: "k < q" "q \<in> fst ` set (chords s)"
      using keyAfter_SomeD [OF Some] by auto
    have gap: "\<And>j. k < j \<Longrightarrow> j < q \<Longrightarrow> ?f j = None"
      using keyAfter_gap [OF srt Some] by (simp add: chordAt_None)
    have q0: "q \<noteq> 0"
      using kq(1) by auto
    note nat = word_le_nat_alt word_less_nat_alt unat_pred [OF less.prems(3)] unat_pred [OF q0]
    have neq: "q \<noteq> k - 1" "q \<noteq> k" "q - 1 \<noteq> k - 1"
      using kq(1) less.prems(3) by (auto simp: nat word_unat_eq_iff)
    have "chordAt q (chords ?s) \<noteq> None"
      using kq(2) neq by (simp add: at chordAt_None)
    moreover have "chordAt (q - 1) (chords ?s) = None"
    proof (cases "q - 1 = k")
      case False
      then have "k < q - 1" "q - 1 < q"
        using kq(1) q0 by (auto simp: nat word_unat_eq_iff)
      then show ?thesis
        using gap neq(3) False by (simp add: at)
    qed (use neq in \<open>simp add: at\<close>)
    moreover have "unat q < 2 ^ 32"
      using unsigned_less [of q] by simp
    ultimately have IH: "chordAt j (chords (moveBackLoop C (Some q) ?s)) =
        shiftedDown q (\<lambda>j. chordAt j (chords ?s)) j"
      using kq(1) less.prems(1) q0
      by (intro less.hyps) (auto simp: word_less_nat_alt moveChord_inv chordAt_None chordAt_def tabGet_eq_None)
    show ?thesis
      using Some IH shiftedDown_step [OF less.prems(3) v n1 at gap kq(1)] by simp
  qed
qed

section \<open>Functional specifications\<close>

definition insertedColumn :: "u32 \<Rightarrow> (u32 \<Rightarrow> u64 option) \<Rightarrow> u32 \<Rightarrow> u64 option" where
  "insertedColumn w f j = (if j < w then f j else if j = w then None else f (j - 1))"

definition deletedColumn :: "u32 \<Rightarrow> (u32 \<Rightarrow> u64 option) \<Rightarrow> u32 \<Rightarrow> u64 option" where
  "deletedColumn w f j = (if j < w then f j else if j = - 1 then None else f (j + 1))"

lemma last_key_max:
  "ordInv fst cs \<Longrightarrow> cs \<noteq> [] \<Longrightarrow> fst (last cs) < j \<Longrightarrow> j \<notin> fst ` set cs"
  using strict_sorted_le_last [of "map fst cs" j] by (auto simp: ordInv_def last_map simp flip: not_le)

lemma InsertChordAt_at:
  assumes "sheetInv C s" "- 1 \<notin> fst ` set (chords s)"
  shows "chordAt j (chords (InsertChordAt C w s)) = insertedColumn w (\<lambda>j. chordAt j (chords s)) j"
proof (cases "chords s = []")
  case True
  then show ?thesis
    by (simp add: InsertChordAt_def insertedColumn_def chordAt_def)
next
  case False
  let ?k = "fst (last (chords s))" and ?f = "\<lambda>j. chordAt j (chords s)"
  have srt: "ordInv fst (chords s)"
    using assms(1) by (simp add: sheetInv_def)
  have mem: "?k \<in> fst ` set (chords s)"
    using False by simp
  then have k: "?k \<noteq> - 1"
    using assms(2) by metis
  have above: "?k < j \<Longrightarrow> ?f j = None" for j
    using last_key_max [OF srt False] by (simp add: chordAt_None)
  have "?k + 1 \<notin> fst ` set (chords s)"
    using above [of "?k + 1"] word_less_Suc [OF k] by (simp add: chordAt_None)
  then have "chordAt j (chords (InsertChordAt C w s)) = shiftedUp w ?k ?f j"
    using insertLoop_at [OF assms(1) _ k] mem False by (simp add: InsertChordAt_def tabGet_eq_None)
  also have "\<dots> = insertedColumn w ?f j"
  proof -
    have "?f j = None" "?f (j - 1) = None" if "?k + 1 < j"
    proof -
      have "j \<noteq> 0"
        using that by auto
      then show "?f j = None" "?f (j - 1) = None"
        using that unat_Suc_not_max [OF k] by (auto intro!: above simp: word_less_nat_alt unat_pred)
    qed
    moreover have "w \<le> j \<Longrightarrow> ?k + 1 < j \<Longrightarrow> ?f w = None \<or> w \<noteq> j"
      using calculation by auto
    ultimately show ?thesis
      by (auto simp: shiftedUp_def insertedColumn_def not_le)
  qed
  finally show ?thesis .
qed

lemma firstToMove_spec:
  assumes "ordInv fst cs" "cs \<noteq> []" "w \<notin> fst ` set cs" "w \<le> fst (last cs)"
  shows "\<exists>k. firstToMove w cs = Some k \<and> w < k \<and> k \<in> fst ` set cs \<and>
             (\<forall>j. w \<le> j \<longrightarrow> j < k \<longrightarrow> j \<notin> fst ` set cs)"
proof (cases "keyBefore w cs")
  case None
  have hd: "fst (hd cs) \<in> fst ` set cs" "\<And>j. j \<in> fst ` set cs \<Longrightarrow> fst (hd cs) \<le> j"
    using assms(1,2) strict_sorted_hd_le [of "map fst cs"] by (auto simp: ordInv_def hd_map)
  have "\<not> fst (hd cs) < w"
    using keyBefore_None [OF None] hd(1) by blast
  moreover have "fst (hd cs) \<noteq> w"
    using hd(1) assms(3) by metis
  ultimately have "w < fst (hd cs)"
    by simp
  moreover have "\<forall>j. w \<le> j \<longrightarrow> j < fst (hd cs) \<longrightarrow> j \<notin> fst ` set cs"
    using hd(2) leD by blast
  ultimately show ?thesis
    using None hd(1) by (simp add: firstToMove_def)
next
  case (Some l)
  have l: "l < w" "l \<in> fst ` set cs"
    using keyBefore_SomeD [OF Some] by auto
  have last: "fst (last cs) \<in> fst ` set cs"
    using assms(2) by simp
  then have "w < fst (last cs)"
    using assms(3,4) by (metis order_le_less)
  then have "keyAfter l cs \<noteq> None"
    using keyAfter_None [of l cs "fst (last cs)"] less_trans [OF l(1)] last by blast
  then obtain k where k: "keyAfter l cs = Some k"
    by auto
  have kl: "l < k" "k \<in> fst ` set cs"
    using keyAfter_SomeD [OF k] by auto
  have "\<not> k < w"
    using keyBefore_gap [OF assms(1) Some kl(1)] kl(2) by blast
  moreover have "k \<noteq> w"
    using kl(2) assms(3) by metis
  ultimately have "w < k"
    by simp
  moreover have "\<forall>j. w \<le> j \<longrightarrow> j < k \<longrightarrow> j \<notin> fst ` set cs"
    using keyAfter_gap [OF assms(1) k] l(1) by (auto dest: less_le_trans)
  ultimately show ?thesis
    using Some k kl by (auto simp: firstToMove_def)
qed

lemma DeleteChordAt_at:
  assumes "sheetInv C s"
  shows "chordAt j (chords (DeleteChordAt C w s)) = deletedColumn w (\<lambda>j. chordAt j (chords s)) j"
proof -
  let ?r = "RemoveChord C w s" and ?f = "\<lambda>j. chordAt j (chords s)"
  have inv: "sheetInv C ?r"
    using assms by (simp add: RemoveChord_def PutChord_inv)
  then have srt: "ordInv fst (chords ?r)"
    by (simp add: sheetInv_def)
  have r: "chordAt j (chords ?r) = (if j = w then None else ?f j)" for j
    using assms by (simp add: RemoveChord_def chordAt_PutChord sheetInv_def)
  have stay: "chordAt j (chords ?r) = deletedColumn w ?f j" if none: "\<And>j. w < j \<Longrightarrow> ?f j = None" for j
  proof -
    have "w \<le> j \<Longrightarrow> chordAt j (chords ?r) = None"
      using none [of j] by (auto simp: r)
    moreover have "w \<le> j \<Longrightarrow> j \<noteq> - 1 \<Longrightarrow> ?f (j + 1) = None"
      using none [of "j + 1"] word_less_Suc [of j] by (auto dest: le_less_trans)
    ultimately show ?thesis
      by (auto simp: r deletedColumn_def not_less)
  qed
  show ?thesis
  proof (cases "chords ?r = [] \<or> w > fst (last (chords ?r))")
    case True
    have "?f j = None" if "w < j" for j
    proof -
      have "j \<notin> fst ` set (chords ?r)"
        using True last_key_max [OF srt _ less_trans [OF _ that]] by (cases "chords ?r = []") auto
      then have "chordAt j (chords ?r) = None"
        by (simp add: chordAt_None)
      then show ?thesis
        using r [of j] that by (auto split: if_splits)
    qed
    moreover have "DeleteChordAt C w s = ?r"
      using True by (auto simp: DeleteChordAt_def Let_def)
    ultimately show ?thesis
      using stay [of j] by simp
  next
    case False
    have wn: "w \<notin> fst ` set (chords ?r)"
      using r [of w] by (simp add: chordAt_None)
    obtain k where k: "firstToMove w (chords ?r) = Some k" "w < k" "k \<in> fst ` set (chords ?r)"
        "\<And>j. w \<le> j \<Longrightarrow> j < k \<Longrightarrow> j \<notin> fst ` set (chords ?r)"
      using firstToMove_spec [OF srt _ wn] False unfolding not_less de_Morgan_disj by blast
    have k0: "k \<noteq> 0"
      using k(2) by auto
    note nat = word_le_nat_alt word_less_nat_alt unat_pred [OF k0]
    have k1: "k - 1 \<notin> fst ` set (chords ?r)"
      using k(2) k0 by (intro k(4)) (auto simp: nat word_unat_eq_iff)
    have "chordAt j (chords (DeleteChordAt C w s)) = shiftedDown k (\<lambda>j. chordAt j (chords ?r)) j"
      using False k(1,3) moveBackLoop_at [OF inv _ k0 k1]
      by (simp add: DeleteChordAt_def Let_def MoveChordsBackOneStartingAt_def tabGet_eq_None)
    also have "\<dots> = deletedColumn w ?f j"
    proof -
      have none: "w \<le> i \<Longrightarrow> i < k \<Longrightarrow> i \<noteq> w \<Longrightarrow> ?f i = None" for i
        using k(4) [of i] r [of i] unfolding chordAt_None [symmetric] by simp
      have lt: "j < k - 1 \<Longrightarrow> w \<le> j \<Longrightarrow> j \<noteq> - 1 \<and> w < j + 1 \<and> j + 1 < k \<and> (j = w \<or> ?f j = None)"
      proof -
        assume a: "j < k - 1" "w \<le> j"
        then have nm: "j \<noteq> - 1"
          by auto
        have "j < k"
          using a(1) by (simp add: nat)
        then have "j = w \<or> ?f j = None"
          using none [OF a(2)] by (cases "j = w") simp_all
        then show "j \<noteq> - 1 \<and> w < j + 1 \<and> j + 1 < k \<and> (j = w \<or> ?f j = None)"
          using a nm unat_Suc_not_max [OF nm] by (auto simp: nat)
      qed
      have ge: "\<not> j < k - 1 \<Longrightarrow> j \<noteq> - 1 \<Longrightarrow> \<not> j < w \<and> j + 1 \<noteq> w"
        using k(2) unat_Suc_not_max [of j] by (auto simp: nat)
      have max: "j = - 1 \<Longrightarrow> \<not> j < w"
        by simp
      show ?thesis
        using lt ge none [of "j + 1"]
        by (cases "j < k - 1"; cases "j < w"; cases "j = - 1")
          (auto simp: shiftedDown_def deletedColumn_def r not_less)
    qed
    finally show ?thesis .
  qed
qed

section \<open>The note histogram\<close>

definition noteCount :: "(u32 \<times> u64) list \<Rightarrow> nat \<Rightarrow> nat" where
  "noteCount cs i = sum_list (map (\<lambda>e. noteOf (snd e) i) cs)"

definition histogramInv :: "MusicSheet \<Rightarrow> bool" where
  "histogramInv s \<longleftrightarrow> histogramFor (noteCount (chords s)) (noteHistogram s, usedNotes s)"

lemma noteCount_append [simp]:
  "noteCount (a @ b) i = noteCount a i + noteCount b i" "noteCount (e # b) i = noteOf (snd e) i + noteCount b i"
  "noteCount [] i = 0"
  by (simp_all add: noteCount_def)

lemma noteCount_le: "noteCount cs i \<le> length cs"
  by (induction cs) (auto simp: noteOf_def)

lemma countChord_histogram:
  "(noteHistogram (countChord C b k v s), usedNotes (countChord C b k v s)) =
   UpdateNoteHistogram v b (noteHistogram s, usedNotes s)"
  by (simp add: countChord_def Let_def split: prod.split)

lemma PutChord_histogram:
  assumes inv: "sheetInv C s" and hist: "histogramInv s" and small: "length (chords s) < 2 ^ 32 - 1"
  shows "histogramInv (PutChord C k v s)"
proof -
  let ?hb = "(noteHistogram s, usedNotes s)"
  have srt: "ordInv fst (chords s)" and nz: "\<forall>e \<in> set (chords s). snd e \<noteq> 0"
    using inv by (simp_all add: sheetInv_def)
  have bound: "noteCount cs i < 2 ^ 32 - 1" if "length cs \<le> length (chords s)" for cs i
    using noteCount_le [of cs i] that small by simp
  have H: "histogramFor (noteCount (chords s)) ?hb"
    using hist by (simp add: histogramInv_def)
  show ?thesis
  proof (cases "chordAt k (chords s)")
    case None
    then have get: "tabGet fst (fst (k, v)) (chords s) = None"
      by (simp add: chordAt_def)
    obtain a b where ab: "ordPut fst (k, v) (chords s) = a @ (k, v) # b" "chords s = a @ b"
      using ordPut_split [OF srt, of "(k, v)"] get by auto
    have "histogramFor (\<lambda>i. noteCount (chords s) i + noteOf v i) (UpdateNoteHistogram v True ?hb)"
      using bound [of "chords s"] by (intro UpdateNoteHistogram_add [OF H]) (auto simp: less_diff_conv)
    then have "histogramFor (noteCount (ordPut fst (k, v) (chords s))) (UpdateNoteHistogram v True ?hb)"
      by (rule histogramFor_cong [THEN iffD1, rotated]) (simp only: ab(1), simp add: ab(2))
    then have "v \<noteq> 0 \<Longrightarrow> ?thesis"
      using None
      by (simp add: histogramInv_def PutChord_fields countChord_histogram PutChord_def Let_def)
    moreover have "v = 0 \<Longrightarrow> ?thesis"
      using None hist by (simp add: PutChord_def)
    ultimately show ?thesis
      by blast
  next
    case (Some w)
    then have get: "tabGet fst k (chords s) = Some (k, w)"
      by (simp add: chordAt_Some_tabGet)
    then have w: "w \<noteq> 0"
      using nz tabGet_SomeD [OF get] by auto
    obtain a b where ab: "chords s = a @ (k, w) # b" "tabRemove fst k (chords s) = a @ b"
      using tabRemove_split [OF ordInv_imp_tabInv [OF srt] get] by auto
    have le: "noteOf w i \<le> noteCount (chords s) i" for i
      by (simp add: ab(1))
    have R: "histogramFor (\<lambda>i. noteCount (chords s) i - noteOf w i) (UpdateNoteHistogram w False ?hb)"
      using bound [of "chords s"] le
      by (intro UpdateNoteHistogram_remove [OF H]) (auto intro: less_trans)
    then have R': "histogramFor (noteCount (a @ b)) (UpdateNoteHistogram w False ?hb)"
      by (rule histogramFor_cong [THEN iffD1, rotated]) (simp add: ab(1))
    have A: "histogramFor (\<lambda>i. noteCount (a @ b) i + noteOf v i)
        (UpdateNoteHistogram v True (UpdateNoteHistogram w False ?hb))"
      using bound [of "a @ b"] by (intro UpdateNoteHistogram_add [OF R']) (auto simp: ab(1) less_diff_conv)
    obtain a' b' where ab': "ordPut fst (k, v) (chords s) = a' @ (k, v) # b'" "chords s = a' @ (k, w) # b'"
      using ordPut_split [OF srt, of "(k, v)"] get by auto
    have "noteCount (a @ b) i = noteCount (a' @ b') i" for i
      using arg_cong [OF trans [OF ab(1) [symmetric] ab'(2)], of "\<lambda>cs. noteCount cs i"] by simp
    then have eq: "noteCount (a @ b) i + noteOf v i = noteCount (ordPut fst (k, v) (chords s)) i" for i
      by (simp add: ab'(1))
    have "histogramFor (noteCount (ordPut fst (k, v) (chords s)))
        (UpdateNoteHistogram v True (UpdateNoteHistogram w False ?hb))"
      using A by (simp only: eq)
    then have "v \<noteq> 0 \<Longrightarrow> ?thesis"
      using Some w
      by (simp add: histogramInv_def PutChord_fields countChord_histogram PutChord_def Let_def)
    moreover have "v = 0 \<Longrightarrow> ?thesis"
      using Some R' ab(2)
      by (simp add: histogramInv_def PutChord_fields countChord_histogram PutChord_def)
    ultimately show ?thesis
      by blast
  qed
qed

section \<open>The contract\<close>

locale choir_checksums =
  fixes C :: sums
  assumes empty_strsum: "strsum C [] = 0"
begin

lemma ms_good_archive: "sheetInv C d \<Longrightarrow> sheetInv C (snd (ms_SetFromArchive C m d))"
  by (simp add: ms_SetFromArchive_def UpdateFromArchive_inv default_inv empty_strsum)

lemma ms_good_senior: "sheetInv C d \<Longrightarrow> sheetInv C (snd (ms_SeniorUpdate C m d))"
  by (simp add: ms_SeniorUpdate_def Let_def PutChord_inv InsertChordAt_inv DeleteChordAt_inv SetSongFilePath_inv)

lemma ms_replay:
  assumes "sheetInv C t" "sameSheet d t" "ms_SeniorUpdate C m d = (Some j, d')"
  shows "fst (ms_JuniorUpdate C j t) = B_NO_ERROR \<and> sheetInv C (snd (ms_JuniorUpdate C j t)) \<and>
         sameSheet d' (snd (ms_JuniorUpdate C j t))"
  using assms
  by (auto simp: ms_SeniorUpdate_def ms_JuniorUpdate_def Let_def choir_code_defs choirMessage_def getOr_def
      split: if_splits
      intro: PutChord_inv InsertChordAt_inv DeleteChordAt_inv SetSongFilePath_inv
        PutChord_same InsertChordAt_same DeleteChordAt_same SetSongFilePath_same)

lemma ms_archive_same:
  "fst (ms_SetFromArchive C m d) = B_NO_ERROR \<Longrightarrow>
   fst (ms_SetFromArchive C m t) = B_NO_ERROR \<and>
   sameSheet (snd (ms_SetFromArchive C m d)) (snd (ms_SetFromArchive C m t))"
  using UpdateFromArchive_same [OF default_same, of C m d t] by (simp add: ms_SetFromArchive_def split: if_splits)

end

sublocale choir_checksums \<subseteq> sheet: replicated_database "MusicSheetDB C" "sheetInv C" sameSheet
proof unfold_locales
  fix d t d' :: MusicSheet and m j st r
  show "sheetInv C d \<Longrightarrow> sheetInv C t \<Longrightarrow> sameSheet d t \<Longrightarrow> SeniorUpdate (MusicSheetDB C) m d = (Some j, d') \<Longrightarrow>
      \<exists>t'. JuniorUpdate (MusicSheetDB C) j t = (B_NO_ERROR, t') \<and> sheetInv C t' \<and> sameSheet d' t'"
    using ms_replay [of t d m j d'] by (cases "ms_JuniorUpdate C j t") (auto simp: MusicSheetDB_def)
  show "sheetInv C d \<Longrightarrow> sheetInv C t \<Longrightarrow> SetFromArchive (MusicSheetDB C) m d = (B_NO_ERROR, d') \<Longrightarrow>
      \<exists>t'. SetFromArchive (MusicSheetDB C) m t = (B_NO_ERROR, t') \<and> sheetInv C t' \<and> sameSheet d' t'"
    using ms_archive_same [of m d t] ms_good_archive [of t m]
    by (cases "ms_SetFromArchive C m t") (auto simp: MusicSheetDB_def)
  show "sheetInv C d \<Longrightarrow> sheetInv C t \<Longrightarrow> SaveToArchive (MusicSheetDB C) d = Inr m \<Longrightarrow>
      \<exists>t'. SetFromArchive (MusicSheetDB C) m t = (B_NO_ERROR, t') \<and> sheetInv C t' \<and> sameSheet d t'"
    using sheet_archive_roundtrip [of C d m t] ms_good_archive [of t m]
    by (cases "ms_SetFromArchive C m t") (auto simp: MusicSheetDB_def)
  show "sheetInv C d \<Longrightarrow> SeniorUpdate (MusicSheetDB C) m d = (r, d') \<Longrightarrow> sheetInv C d'"
    using ms_good_senior [of d m] by (simp add: MusicSheetDB_def)
  show "sheetInv C d \<Longrightarrow> SeniorUpdate (MusicSheetDB C) m d = (None, d') \<Longrightarrow> sameSheet d d'"
    by (auto simp: MusicSheetDB_def ms_SeniorUpdate_def Let_def sameSheet_def split: if_splits)
  show "sheetInv C d \<Longrightarrow> SetFromArchive (MusicSheetDB C) m d = (st, d') \<Longrightarrow> sheetInv C d'"
    using ms_good_archive [of d m] by (simp add: MusicSheetDB_def)
  show "sheetInv C d \<Longrightarrow> SetFromArchive (MusicSheetDB C) m d = (st, d') \<Longrightarrow> IsError st \<Longrightarrow> sameSheet d d'"
    by (auto simp: MusicSheetDB_def ms_SetFromArchive_def UpdateFromArchive_def Let_def sameSheet_def split: if_splits)
qed (auto simp: MusicSheetDB_def sameSheet_def sheetInv_def ms_CalculateChecksum_def SetToDefaultStateAux_def
    ordInv_def empty_strsum)

context choir_checksums
begin

lemma sheet_contract: "replicated_database (MusicSheetDB C) (sheetInv C) sameSheet"
  by (rule sheet.replicated_database_axioms)

end

text \<open>Checksums that add up character codes and the two halves of a chord, as a concrete instance.\<close>

definition additiveSums :: sums where
  "additiveSums = \<lparr> strsum = (\<lambda>s. sum_list (map of_char s)), podsum64 = (\<lambda>v. ucast v + ucast (drop_bit 32 v)) \<rparr>"

interpretation additive: choir_checksums additiveSums
  by unfold_locales (simp add: additiveSums_def)

section \<open>Properties\<close>

text \<open>
  C19: the score database keeps the replication contract, whatever checksum functions
  MUSCLE provides, as long as the empty string has checksum zero: its running checksum is
  the recalculated one, the junior message of every senior update takes every copy to the
  same score, and an archive restores the score it was saved from.
\<close>

theorem MusicSheet_replicates:
  assumes "strsum C [] = 0"
  shows "replicated_database (MusicSheetDB C) (sheetInv C) sameSheet"
proof -
  have "choir_checksums C"
    using assms by unfold_locales
  then show ?thesis
    by (rule choir_checksums.sheet_contract)
qed

text \<open>
  Inserting a column into the score frees index w and moves every chord from w on up by
  one, and deleting column w undoes it: afterwards every index holds the chord it held before
  (no chord may sit at the largest index, which has no successor).
\<close>

theorem insert_delete_column:
  assumes "sheetInv C s" "- 1 \<notin> fst ` set (chords s)"
  shows "chordAt j (chords (InsertChordAt C w s)) = insertedColumn w (\<lambda>i. chordAt i (chords s)) j \<and>
     chordAt j (chords (DeleteChordAt C w (InsertChordAt C w s))) = chordAt j (chords s)"
proof -
  let ?f = "\<lambda>i. chordAt i (chords s)"
  have ins: "(\<lambda>i. chordAt i (chords (InsertChordAt C w s))) = insertedColumn w ?f"
    by (rule ext) (rule InsertChordAt_at [OF assms])
  have "deletedColumn w (insertedColumn w ?f) j = ?f j"
  proof -
    have "?f (- 1) = None"
      using assms(2) by (simp add: chordAt_None)
    moreover have "\<not> j < w \<Longrightarrow> j \<noteq> - 1 \<Longrightarrow> \<not> j + 1 < w \<and> j + 1 \<noteq> w"
      using word_less_Suc [of j] by auto
    ultimately show ?thesis
      by (auto simp: deletedColumn_def insertedColumn_def)
  qed
  then show ?thesis
    using DeleteChordAt_at [OF InsertChordAt_inv [OF assms(1)], of j w] by (simp add: ins fun_cong [OF ins])
qed

text \<open>
  Deleting column w drops the chord at w and moves every later chord down by one.
\<close>

theorem delete_column:
  assumes "sheetInv C s"
  shows "chordAt j (chords (DeleteChordAt C w s)) = deletedColumn w (\<lambda>i. chordAt i (chords s)) j"
  using assms by (rule DeleteChordAt_at)

text \<open>
  Putting a chord, the one primitive every score change is made of, keeps the note
  histogram exact: each note's count is the number of chords that contain it, a note without
  uses has no entry, and the bit-chord of used notes has exactly the notes with a use.
\<close>

theorem PutChord_keeps_histogram:
  assumes "sheetInv C s" "histogramInv s" "length (chords s) < 2 ^ 32 - 1"
  shows "histogramInv (PutChord C k v s)"
  using assms by (rule PutChord_histogram)

end
