(* ===== verification/ZG_Beacon.thy ===== *)
theory ZG_Beacon
  imports ZG_DatabaseState
begin

text \<open>
  The beacon: \<^verbatim>\<open>PZGDatabaseStateInfo\<close>, what a senior peer announces of one database, and
  \<^verbatim>\<open>PZGBeaconData\<close>, the list of these for all databases, with their checksums and wire
  formats.  MUSCLE's \<^verbatim>\<open>SaturatingUnsignedMultiply\<close>, which guards the allocation in
  \<^verbatim>\<open>Unflatten\<close>, is the parameter \<open>satmul\<close> of the locale \<open>beacon_codec\<close>, with its documented
  behaviour as the law.
\<close>

section \<open>Database state information\<close>

definition newPZGDatabaseStateInfo :: PZGDatabaseStateInfo where
  "newPZGDatabaseStateInfo = \<lparr> currentDatabaseStateID = 0, oldestDatabaseIDInLog = 0, info_dbChecksum = 0 \<rparr>"

definition info_FlattenedSize :: nat where
  "info_FlattenedSize = 8 + 8 + 4"

definition info_Flatten :: "'u wire \<Rightarrow> PZGDatabaseStateInfo \<Rightarrow> bytes" where
  "info_Flatten W i =
     WriteInt64 W (currentDatabaseStateID i) @ WriteInt64 W (oldestDatabaseIDInLog i) @ WriteInt32 W (info_dbChecksum i)"

definition info_Unflatten :: "'u wire \<Rightarrow> 'u \<Rightarrow> status_t \<times> PZGDatabaseStateInfo \<times> 'u" where
  "info_Unflatten W u0 =
     (let (cur, u1) = ReadInt64 W u0;
          (oldest, u2) = ReadInt64 W u1;
          (chk, u3) = ReadInt32 W u2
      in (GetStatus W u3, \<lparr> currentDatabaseStateID = cur, oldestDatabaseIDInLog = oldest, info_dbChecksum = chk \<rparr>, u3))"

definition info_CalculateChecksum :: "(u64 \<Rightarrow> u32) \<Rightarrow> PZGDatabaseStateInfo \<Rightarrow> u32" where
  "info_CalculateChecksum podsum i =
     podsum (currentDatabaseStateID i) + podsum (oldestDatabaseIDInLog i) * 3 + info_dbChecksum i * 7"

section \<open>Beacon data\<close>

type_synonym PZGBeaconData = "PZGDatabaseStateInfo list"

definition beacon_FlattenedSize :: "(u32 \<Rightarrow> u32 \<Rightarrow> u32) \<Rightarrow> PZGBeaconData \<Rightarrow> u32" where
  "beacon_FlattenedSize satmul dbis = 4 + satmul (of_nat (length dbis)) (of_nat info_FlattenedSize)"

definition beacon_Flatten :: "'u wire \<Rightarrow> PZGBeaconData \<Rightarrow> bytes" where
  "beacon_Flatten W dbis = WriteInt32 W (of_nat (length dbis)) @ concat (map (info_Flatten W) dbis)"

text \<open>The loop of \<open>Unflatten\<close>: it stops at the first item that cannot be read.\<close>

fun readInfos :: "'u wire \<Rightarrow> nat \<Rightarrow> 'u \<Rightarrow> status_t \<times> PZGBeaconData \<times> 'u" where
  "readInfos W 0 u = (GetStatus W u, [], u)"
| "readInfos W (Suc n) u =
     (let (st, i, u1) = info_Unflatten W u
      in if IsError st then (st, [], u1)
         else let (st', is, u2) = readInfos W n u1 in (st', i # is, u2))"

definition beacon_Unflatten ::
  "'u wire \<Rightarrow> (u32 \<Rightarrow> u32 \<Rightarrow> u32) \<Rightarrow> 'u \<Rightarrow> status_t \<times> PZGBeaconData option \<times> 'u" where
  "beacon_Unflatten W satmul u0 =
     (let (newNumItems, u1) = ReadInt32 W u0
      in if GetNumBytesAvailable W u1 < unat (satmul newNumItems (of_nat info_FlattenedSize)) then (B_BAD_DATA, None, u1)
         else let (st, dbis, u2) = readInfos W (unat newNumItems) u1
              in if IsError st then (st, None, u2) else (st, Some dbis, u2))"

definition beacon_CalculateChecksum :: "(u64 \<Rightarrow> u32) \<Rightarrow> PZGBeaconData \<Rightarrow> u32" where
  "beacon_CalculateChecksum podsum dbis =
     fold (\<lambda>i ret. ret + (of_nat i + 1) * info_CalculateChecksum podsum (dbis ! i)) [0..<length dbis] (of_nat (length dbis))"

section \<open>Round trip\<close>

context wire_codec
begin

lemma info_size: "length (info_Flatten W i) = info_FlattenedSize"
  by (simp add: info_Flatten_def info_FlattenedSize_def wire_sizes)

lemma info_roundtrip:
  "info_Unflatten W (OpenUnflattener W (info_Flatten W i @ bs)) = (B_NO_ERROR, i, OpenUnflattener W bs)"
  by (simp add: info_Unflatten_def info_Flatten_def wire_reads)

lemma info_uses:
  assumes "info_Unflatten W u = (B_NO_ERROR, i, u')"
  shows "IsOK (GetStatus W u) \<and> IsOK (GetStatus W u') \<and>
         GetNumBytesAvailable W u = info_FlattenedSize + GetNumBytesAvailable W u'"
proof -
  obtain a u1 where 1: "ReadInt64 W u = (a, u1)" by (cases "ReadInt64 W u")
  obtain b u2 where 2: "ReadInt64 W u1 = (b, u2)" by (cases "ReadInt64 W u1")
  obtain c u3 where 3: "ReadInt32 W u2 = (c, u3)" by (cases "ReadInt32 W u2")
  have st: "IsOK (GetStatus W u3)" "u3 = u'"
    using assms by (auto simp: info_Unflatten_def 1 2 3)
  show ?thesis
    using uses32 [OF 3 st(1)] uses64 [OF 2] uses64 [OF 1] st by (simp add: info_FlattenedSize_def)
qed

lemma infos_size: "length (concat (map (info_Flatten W) dbis)) = info_FlattenedSize * length dbis"
  by (induction dbis) (simp_all add: info_size)

lemma readInfos_roundtrip:
  "readInfos W (length dbis) (OpenUnflattener W (concat (map (info_Flatten W) dbis) @ bs)) =
   (B_NO_ERROR, dbis, OpenUnflattener W bs)"
  by (induction dbis) (simp_all add: info_roundtrip status_open)

lemma readInfos_uses:
  "readInfos W n u = (B_NO_ERROR, dbis, u') \<Longrightarrow>
   IsOK (GetStatus W u) \<and> length dbis = n \<and>
   GetNumBytesAvailable W u = info_FlattenedSize * n + GetNumBytesAvailable W u'"
proof (induction n arbitrary: u dbis)
  case (Suc n)
  obtain st i u1 where 1: "info_Unflatten W u = (st, i, u1)"
    by (cases "info_Unflatten W u") auto
  obtain st' rest u2 where 2: "readInfos W n u1 = (st', rest, u2)"
    by (cases "readInfos W n u1") auto
  have st: "st = B_NO_ERROR" "st' = B_NO_ERROR" "dbis = i # rest" "u2 = u'"
    using Suc.prems by (auto simp: 1 2 split: if_splits)
  then show ?case
    using info_uses [OF 1 [unfolded st(1)]] Suc.IH [OF 2 [unfolded st(2,4)]] by simp
qed simp

end

locale beacon_codec = wire_codec W
  for W :: "'u wire" +
  fixes satmul :: "u32 \<Rightarrow> u32 \<Rightarrow> u32"
  assumes satmul: "unat (satmul a b) = min (2 ^ 32 - 1) (unat a * unat b)"
begin

lemma beacon_needed: "unat (satmul n (of_nat info_FlattenedSize)) = min (2 ^ 32 - 1) (unat n * info_FlattenedSize)"
  by (simp add: satmul info_FlattenedSize_def)

lemma beacon_size:
  assumes "info_FlattenedSize * length dbis + 4 < 2 ^ 32"
  shows "unat (beacon_FlattenedSize satmul dbis) = length (beacon_Flatten W dbis)"
proof -
  have len: "unat (of_nat (length dbis) :: u32) = length dbis"
    using assms by (intro unat_of_nat_small) (simp add: info_FlattenedSize_def)
  have prod: "unat (satmul (of_nat (length dbis)) (of_nat info_FlattenedSize)) = length dbis * info_FlattenedSize"
    unfolding beacon_needed len using assms by (simp add: min_def algebra_simps)
  have "unat (4 + satmul (of_nat (length dbis)) (of_nat info_FlattenedSize)) = 4 + length dbis * info_FlattenedSize"
    using assms by (simp add: unat_word_ariths(1) prod mult.commute)
  then show ?thesis
    using prod by (simp add: beacon_FlattenedSize_def beacon_Flatten_def infos_size wire_sizes algebra_simps)
qed

lemma beacon_roundtrip:
  assumes "length dbis < 2 ^ 32"
  shows "beacon_Unflatten W satmul (OpenUnflattener W (beacon_Flatten W dbis @ bs)) =
         (B_NO_ERROR, Some dbis, OpenUnflattener W bs)"
proof -
  have len: "unat (of_nat (length dbis) :: u32) = length dbis"
    using assms by (intro unat_of_nat_small) simp
  have "\<not> length (concat (map (info_Flatten W) dbis) @ bs) < unat (satmul (of_nat (length dbis)) (of_nat info_FlattenedSize))"
    unfolding beacon_needed by (simp add: len infos_size)
  then show ?thesis
    by (simp add: beacon_Unflatten_def beacon_Flatten_def wire_reads len readInfos_roundtrip)
qed

lemma beacon_accepts_only_complete:
  assumes "beacon_Unflatten W satmul u = (B_NO_ERROR, Some dbis, u')"
  shows "GetNumBytesAvailable W u = 4 + info_FlattenedSize * length dbis + GetNumBytesAvailable W u'"
proof -
  obtain n u1 where 1: "ReadInt32 W u = (n, u1)"
    by (cases "ReadInt32 W u") auto
  have 2: "readInfos W (unat n) u1 = (B_NO_ERROR, dbis, u')"
    using assms 1 by (auto simp: beacon_Unflatten_def Let_def split: prod.splits if_splits)
  show ?thesis
    using readInfos_uses [OF 2] uses32 [OF 1] by simp
qed

end

definition satmul32 :: "u32 \<Rightarrow> u32 \<Rightarrow> u32" where
  "satmul32 a b = (if unat a * unat b < 2 ^ 32 then a * b else - 1)"

lemma satmul32_saturates: "unat (satmul32 a b) = min (2 ^ 32 - 1) (unat a * unat b)"
proof (cases "unat a * unat b < 2 ^ 32")
  case False
  have "unat (- 1 :: u32) = 2 ^ 32 - 1"
    by (simp add: unsigned_minus_1_eq_mask mask_eq_exp_minus_1)
  then show ?thesis
    using False by (simp add: satmul32_def)
qed (simp add: satmul32_def unat_word_ariths(2))

interpretation leb: beacon_codec le_wire satmul32
  by unfold_locales (rule satmul32_saturates)

section \<open>Properties\<close>

text \<open>
  A database update survives the network.  With a data flattener that reads back what
  it wrote, the bytes of any update whose payload compresses to a non-empty buffer below
  4 GB have the announced size and decode, checksum included, to the same update with its
  payload in buffer form, leaving the reader just behind them.
\<close>

theorem dbup_roundtrip:
  assumes "wire_codec W" "\<And>b. GetPayloadBuffer Z u = Some b \<Longrightarrow> b \<noteq> [] \<and> length b < 2 ^ 32"
  shows "length (dbup_Flatten W pod Z u) = dbup_FlattenedSize Z u \<and>
    dbup_Unflatten W pod Z (OpenUnflattener W (dbup_Flatten W pod Z u @ bs)) =
      (B_NO_ERROR, Some (onWire Z u), OpenUnflattener W bs)"
  using wire_codec.dbup_size [OF assms(1)] wire_codec.dbup_roundtrip_wire [OF assms(1,2)] by blast

text \<open>
  C24: a beacon survives the network: its bytes decode to the same list of database states.
  Conversely a beacon is only accepted when every announced database state was there to be
  read, so a forged item count cannot make the receiver allocate more items than bytes.
\<close>

theorem beacon_codec_exact:
  assumes "beacon_codec W satmul"
  shows "(length dbis < 2 ^ 32 \<longrightarrow>
      beacon_Unflatten W satmul (OpenUnflattener W (beacon_Flatten W dbis @ bs)) =
        (B_NO_ERROR, Some dbis, OpenUnflattener W bs)) \<and>
    (beacon_Unflatten W satmul u = (B_NO_ERROR, Some dbis', u') \<longrightarrow>
      GetNumBytesAvailable W u = 4 + info_FlattenedSize * length dbis' + GetNumBytesAvailable W u')"
  using beacon_codec.beacon_roundtrip [OF assms] beacon_codec.beacon_accepts_only_complete [OF assms] by blast

end
