(* ===== verification/ZG_PeerSession.thy ===== *)
theory ZG_PeerSession
  imports ZG_Beacon
begin

text \<open>
  \<^verbatim>\<open>ZGPeerSession\<close>: one peer with its databases.  It routes requests and updates to the
  \<^verbatim>\<open>PZGDatabaseState\<close> objects, keeps the roster and the seniority, and hands the beacon to
  the network session.

  \<open>networkIO\<close> is the reference to the network I/O session: \<open>None\<close> when there is none,
  otherwise the local peer ID its heartbeat settings hold, if it has settings.
  \<open>sessionEffects\<close> is the sequence of calls that leave the session: what its databases ask of
  the network, the beacons it sets, the messages it sends and hands to the application.

  The record \<open>session_env\<close> is what a call finds around it: one \<open>master\<close> record per
  database, whose seniority, attachment and peer IDs are replaced by the session's own
  (\<open>masterFor\<close>), and the results of sending.
\<close>

section \<open>Data\<close>

datatype 'm session_effect =
    DatabaseEffect nat "'m effect"
  | SetBeaconData "PZGBeaconData option" status_t
  | UnicastMessage ZGPeerID "'m peer_message" status_t
  | MessageReceivedFromPeer ZGPeerID 'm
  | TextCommandReceived string
  | LocalSeniorPeerStatusChanged bool

record ('db, 'm) ZGPeerSession =
  numDatabases :: u32
  localPeerID :: ZGPeerID
  seniorPeerID :: ZGPeerID
  networkIO :: "ZGPeerID option option"
  iAmFullyAttached :: bool
  databases :: "('db, 'm) PZGDatabaseState list"
  setBeaconDataPending :: bool
  onlinePeers :: "(ZGPeerID \<times> 'm option) list"
  sessionEffects :: "'m session_effect list"

record ('db, 'm) session_env =
  databaseEnv :: "nat \<Rightarrow> ('db, 'm) master"
  SendUnicastResult :: "'m session_effect list \<Rightarrow> ZGPeerID \<Rightarrow> 'm peer_message \<Rightarrow> status_t"
  SetBeaconDataResult :: "'m session_effect list \<Rightarrow> status_t"

definition ps_IAmTheSeniorPeer :: "('db, 'm) ZGPeerSession \<Rightarrow> bool" where
  "ps_IAmTheSeniorPeer p =
     (case networkIO p of
        Some (Some settingsLocalPeerID) \<Rightarrow> seniorPeerID p = settingsLocalPeerID
      | _ \<Rightarrow> False)"

text \<open>
  What database \<open>i\<close> reaches through \<open>_master\<close>; \<open>SendDatabaseUpdateViaMulticast\<close> and
  \<open>RequestBackOrderFromSeniorPeer\<close> fail without a network session.
\<close>

definition masterFor :: "('db, 'm) session_env \<Rightarrow> ('db, 'm) ZGPeerSession \<Rightarrow> nat \<Rightarrow> ('db, 'm) master" where
  "masterFor E p i =
     (databaseEnv E i)
       \<lparr> IAmTheSeniorPeer := ps_IAmTheSeniorPeer p, IAmFullyAttached := iAmFullyAttached p,
         GetSeniorPeerID := seniorPeerID p, GetLocalPeerID := localPeerID p,
         SendDatabaseUpdateViaMulticast :=
           (if networkIO p = None then (\<lambda>_ _. B_LOGIC_ERROR) else SendDatabaseUpdateViaMulticast (databaseEnv E i)),
         SendBackOrderRequest :=
           (if networkIO p = None then (\<lambda>_ _ _. B_LOGIC_ERROR) else SendBackOrderRequest (databaseEnv E i)) \<rparr>"

definition newZGPeerSession ::
  "ZGPeerID \<Rightarrow> (nat \<Rightarrow> u64) \<Rightarrow> 'db list \<Rightarrow> ('db, 'm) ZGPeerSession" where
  "newZGPeerSession pid maxLogSize dbs =
     \<lparr> numDatabases = of_nat (length dbs), localPeerID = pid, seniorPeerID = invalidPeerID, networkIO = None,
       iAmFullyAttached = False,
       databases = map (\<lambda>i. newPZGDatabaseState (of_nat i) (maxLogSize i) (Some (dbs ! i))) [0..<length dbs],
       setBeaconDataPending = False, onlinePeers = [], sessionEffects = [] \<rparr>"

section \<open>Databases\<close>

definition ScheduleSetBeaconData :: "('db, 'm) ZGPeerSession \<Rightarrow> ('db, 'm) ZGPeerSession" where
  "ScheduleSetBeaconData p = p \<lparr> setBeaconDataPending := True \<rparr>"

text \<open>
  A method of \<open>_databases[i]\<close> has run and left \<open>s\<close>: its calls on the session happen, a
  \<open>ScheduleSetBeaconData\<close> among them sets the session's flag.
\<close>

definition storeDatabase ::
  "nat \<Rightarrow> ('db, 'm) PZGDatabaseState \<Rightarrow> ('db, 'm) ZGPeerSession \<Rightarrow> ('db, 'm) ZGPeerSession" where
  "storeDatabase i s p =
     (let calls = drop (length (effects (databases p ! i))) (effects s);
          p1 = p \<lparr> databases := (databases p)[i := s],
                   sessionEffects := sessionEffects p @ map (DatabaseEffect i) calls \<rparr>
      in if ScheduledSetBeaconData \<in> set calls then ScheduleSetBeaconData p1 else p1)"

definition forDatabase ::
  "('db, 'm) session_env \<Rightarrow> (('db, 'm) master \<Rightarrow> ('db, 'm) PZGDatabaseState \<Rightarrow> ('db, 'm) PZGDatabaseState) \<Rightarrow>
   nat \<Rightarrow> ('db, 'm) ZGPeerSession \<Rightarrow> ('db, 'm) ZGPeerSession" where
  "forDatabase E f i p = storeDatabase i (f (masterFor E p i) (databases p ! i)) p"

definition forAllDatabases ::
  "('db, 'm) session_env \<Rightarrow> (nat \<Rightarrow> ('db, 'm) master \<Rightarrow> ('db, 'm) PZGDatabaseState \<Rightarrow> ('db, 'm) PZGDatabaseState) \<Rightarrow>
   ('db, 'm) ZGPeerSession \<Rightarrow> ('db, 'm) ZGPeerSession" where
  "forAllDatabases E f p = fold (\<lambda>i. forDatabase E (f i) i) [0..<length (databases p)] p"

section \<open>Start-up and roster\<close>

text \<open>
  The statuses are those of \<open>StorageReflectSession::AttachedToServer\<close> and of adding the
  network session, whose own \<open>AttachedToServer\<close> makes the heartbeat settings.
\<close>

definition ps_AttachedToServer ::
  "('db, 'm) session_env \<Rightarrow> status_t \<Rightarrow> status_t \<Rightarrow> ('db, 'm) ZGPeerSession \<Rightarrow> status_t \<times> ('db, 'm) ZGPeerSession" where
  "ps_AttachedToServer E attached added p =
     (if IsError attached then (attached, p)
      else if IsError added then (added, p)
      else (B_NO_ERROR,
            forAllDatabases E (\<lambda>_. ResetLocalDatabaseToDefaultState)
              (ScheduleSetBeaconData (p \<lparr> networkIO := Some (Some (localPeerID p)) \<rparr>))))"

definition ShutdownChildSessions :: "('db, 'm) ZGPeerSession \<Rightarrow> ('db, 'm) ZGPeerSession" where
  "ShutdownChildSessions p = p \<lparr> networkIO := None \<rparr>"

definition ps_AboutToDetachFromServer :: "('db, 'm) ZGPeerSession \<Rightarrow> ('db, 'm) ZGPeerSession" where
  "ps_AboutToDetachFromServer p = (ShutdownChildSessions p) \<lparr> iAmFullyAttached := False, onlinePeers := [] \<rparr>"

definition ps_ComputerIsAboutToSleep :: "('db, 'm) ZGPeerSession \<Rightarrow> ('db, 'm) ZGPeerSession" where
  "ps_ComputerIsAboutToSleep p = p \<lparr> iAmFullyAttached := False \<rparr>"

definition ps_PeerHasComeOnline ::
  "('db, 'm) session_env \<Rightarrow> ZGPeerID \<Rightarrow> 'm option \<Rightarrow> ('db, 'm) ZGPeerSession \<Rightarrow> ('db, 'm) ZGPeerSession" where
  "ps_PeerHasComeOnline E peerID peerInfo p =
     (let p1 = p \<lparr> onlinePeers := tabPut fst (peerID, peerInfo) (onlinePeers p) \<rparr>
      in if iAmFullyAttached p1 then p1
         else forAllDatabases E (\<lambda>_. ScheduleLogContentsRescan) (p1 \<lparr> iAmFullyAttached := True \<rparr>))"

definition ps_PeerHasGoneOffline :: "ZGPeerID \<Rightarrow> ('db, 'm) ZGPeerSession \<Rightarrow> ('db, 'm) ZGPeerSession" where
  "ps_PeerHasGoneOffline peerID p = p \<lparr> onlinePeers := tabRemove fst peerID (onlinePeers p) \<rparr>"

definition ps_SeniorPeerChanged :: "ZGPeerID \<Rightarrow> ('db, 'm) ZGPeerSession \<Rightarrow> ('db, 'm) ZGPeerSession" where
  "ps_SeniorPeerChanged newSeniorPeerID p =
     (let iWasSeniorPeer = ps_IAmTheSeniorPeer p;
          p1 = p \<lparr> seniorPeerID := newSeniorPeerID \<rparr>;
          iAmSeniorPeer = ps_IAmTheSeniorPeer p1
      in if iWasSeniorPeer \<noteq> iAmSeniorPeer
         then ScheduleSetBeaconData
                (p1 \<lparr> sessionEffects := sessionEffects p1 @ [LocalSeniorPeerStatusChanged iAmSeniorPeer] \<rparr>)
         else p1)"

section \<open>Requests\<close>

definition SendUnicastInternalMessageToPeer ::
  "('db, 'm) session_env \<Rightarrow> ZGPeerID \<Rightarrow> 'm peer_message option \<Rightarrow> ('db, 'm) ZGPeerSession \<Rightarrow>
   status_t \<times> ('db, 'm) ZGPeerSession" where
  "SendUnicastInternalMessageToPeer E destinationPeerID internalMsg p =
     (case internalMsg of
        None \<Rightarrow> (B_BAD_ARGUMENT, p)
      | Some msg \<Rightarrow>
          (if networkIO p = None then (B_BAD_OBJECT, p)
           else let st = SendUnicastResult E (sessionEffects p) destinationPeerID msg
                in (st, p \<lparr> sessionEffects := sessionEffects p @ [UnicastMessage destinationPeerID msg st] \<rparr>)))"

definition SendRequestToSeniorPeer ::
  "('db, 'm) session_env \<Rightarrow> u32 \<Rightarrow> u32 \<Rightarrow> 'm option \<Rightarrow> ('db, 'm) ZGPeerSession \<Rightarrow> status_t \<times> ('db, 'm) ZGPeerSession" where
  "SendRequestToSeniorPeer E whichDB whatCode userMsg p =
     (if whichDB \<ge> numDatabases p then (B_BAD_ARGUMENT, p)
      else if \<not> IsValid (seniorPeerID p) then (B_BAD_OBJECT, p)
      else SendUnicastInternalMessageToPeer E (seniorPeerID p)
             (Some \<lparr> what = whatCode, userMessage = userMsg, databaseID = whichDB, databaseUpdate = None,
                     messageText = None \<rparr>) p)"

definition RequestResetDatabaseStateToDefault ::
  "('db, 'm) session_env \<Rightarrow> u32 \<Rightarrow> ('db, 'm) ZGPeerSession \<Rightarrow> status_t \<times> ('db, 'm) ZGPeerSession" where
  "RequestResetDatabaseStateToDefault E whichDB p =
     SendRequestToSeniorPeer E whichDB PZG_PEER_COMMAND_RESET_SENIOR_DATABASE None p"

definition RequestReplaceDatabaseState ::
  "('db, 'm) session_env \<Rightarrow> u32 \<Rightarrow> 'm option \<Rightarrow> ('db, 'm) ZGPeerSession \<Rightarrow> status_t \<times> ('db, 'm) ZGPeerSession" where
  "RequestReplaceDatabaseState E whichDB newDatabaseStateMsg p =
     (if newDatabaseStateMsg = None then (B_BAD_ARGUMENT, p)
      else SendRequestToSeniorPeer E whichDB PZG_PEER_COMMAND_REPLACE_SENIOR_DATABASE newDatabaseStateMsg p)"

definition RequestUpdateDatabaseState ::
  "('db, 'm) session_env \<Rightarrow> u32 \<Rightarrow> 'm option \<Rightarrow> ('db, 'm) ZGPeerSession \<Rightarrow> status_t \<times> ('db, 'm) ZGPeerSession" where
  "RequestUpdateDatabaseState E whichDB databaseUpdateMsg p =
     (if databaseUpdateMsg = None then (B_BAD_ARGUMENT, p)
      else SendRequestToSeniorPeer E whichDB PZG_PEER_COMMAND_UPDATE_SENIOR_DATABASE databaseUpdateMsg p)"

definition ps_HandleDatabaseUpdateRequest ::
  "('db, 'm) session_env \<Rightarrow> ZGPeerID \<Rightarrow> 'm peer_message \<Rightarrow> bool \<Rightarrow> ('db, 'm) ZGPeerSession \<Rightarrow>
   status_t \<times> ('db, 'm) ZGPeerSession" where
  "ps_HandleDatabaseUpdateRequest E fromPeerID msg isMessageMeantForSeniorPeer p =
     (let iAmSenior = ps_IAmTheSeniorPeer p
      in if isMessageMeantForSeniorPeer \<noteq> iAmSenior then (B_BAD_DATA, p)
         else if \<not> isMessageMeantForSeniorPeer \<and> fromPeerID \<noteq> seniorPeerID p then (B_BAD_DATA, p)
         else if what msg = PZG_PEER_COMMAND_UPDATE_JUNIOR_DATABASE \<and> databaseUpdate msg = None then (B_BAD_DATA, p)
         else
           let junior = (what msg = PZG_PEER_COMMAND_UPDATE_JUNIOR_DATABASE);
               dbUp = (if junior then databaseUpdate msg else None);
               whichDB = (case dbUp of Some u \<Rightarrow> ucast (databaseIndex u) | None \<Rightarrow> databaseID msg);
               i = unat whichDB
           in if i \<ge> length (databases p) then (B_BAD_ARGUMENT, p)
              else let (st, s) = HandleDatabaseUpdateRequest (masterFor E p i) fromPeerID msg dbUp (databases p ! i)
                   in (st, storeDatabase i s p))"

definition PrivateMessageReceivedFromPeer ::
  "('db, 'm) session_env \<Rightarrow> ZGPeerID \<Rightarrow> 'm peer_message \<Rightarrow> ('db, 'm) ZGPeerSession \<Rightarrow> ('db, 'm) ZGPeerSession" where
  "PrivateMessageReceivedFromPeer E fromPeerID msg p =
     (if what msg = PZG_PEER_COMMAND_RESET_SENIOR_DATABASE \<or> what msg = PZG_PEER_COMMAND_REPLACE_SENIOR_DATABASE \<or>
         what msg = PZG_PEER_COMMAND_UPDATE_SENIOR_DATABASE \<or> what msg = PZG_PEER_COMMAND_UPDATE_JUNIOR_DATABASE
      then snd (ps_HandleDatabaseUpdateRequest E fromPeerID msg (what msg \<noteq> PZG_PEER_COMMAND_UPDATE_JUNIOR_DATABASE) p)
      else if what msg = PZG_PEER_COMMAND_USER_MESSAGE
      then (case userMessage msg of
              Some userMsg \<Rightarrow> p \<lparr> sessionEffects := sessionEffects p @ [MessageReceivedFromPeer fromPeerID userMsg] \<rparr>
            | None \<Rightarrow> p)
      else if what msg = PZG_PEER_COMMAND_USER_TEXT_MESSAGE
      then (case messageText msg of
              Some textStr \<Rightarrow> p \<lparr> sessionEffects := sessionEffects p @ [TextCommandReceived textStr] \<rparr>
            | None \<Rightarrow> p)
      else p)"

section \<open>Beacons, pulses and back-orders\<close>

definition GetNewSeniorBeaconData :: "('db, 'm) ZGPeerSession \<Rightarrow> PZGBeaconData" where
  "GetNewSeniorBeaconData p = map GetDatabaseStateInfo (databases p)"

text \<open>A rescan may run forever (see \<open>RescanUpdateLog\<close>), so the pulses return an option.\<close>

definition databasePulse ::
  "('db, 'm) session_env \<Rightarrow> nat \<Rightarrow> ('db, 'm) ZGPeerSession \<Rightarrow> ('db, 'm) ZGPeerSession option" where
  "databasePulse E i p =
     map_option (\<lambda>s. storeDatabase i s p) (RescanUpdateLogIfNecessary (masterFor E p i) (databases p ! i))"

fun rescanAll ::
  "('db, 'm) session_env \<Rightarrow> nat list \<Rightarrow> ('db, 'm) ZGPeerSession \<Rightarrow> ('db, 'm) ZGPeerSession option" where
  "rescanAll E [] p = Some p"
| "rescanAll E (i # is) p =
     (case databasePulse E i p of None \<Rightarrow> None | Some p' \<Rightarrow> rescanAll E is p')"

definition ps_Pulse ::
  "('db, 'm) session_env \<Rightarrow> ('db, 'm) ZGPeerSession \<Rightarrow> ('db, 'm) ZGPeerSession option" where
  "ps_Pulse E p =
     (if setBeaconDataPending p then
        (case rescanAll E [0..<length (databases p)] (p \<lparr> setBeaconDataPending := False \<rparr>) of
           None \<Rightarrow> None
         | Some p1 \<Rightarrow>
             Some (if networkIO p1 = None then p1
                   else let beaconData = (if ps_IAmTheSeniorPeer p1 then Some (GetNewSeniorBeaconData p1) else None);
                            st = SetBeaconDataResult E (sessionEffects p1)
                        in p1 \<lparr> sessionEffects := sessionEffects p1 @ [SetBeaconData beaconData st] \<rparr>))
      else Some p)"

definition BeaconDataChanged ::
  "('db, 'm) session_env \<Rightarrow> PZGBeaconData option \<Rightarrow> ('db, 'm) ZGPeerSession \<Rightarrow> ('db, 'm) ZGPeerSession" where
  "BeaconDataChanged E beaconData p =
     (let dbis = (case beaconData of Some b \<Rightarrow> b | None \<Rightarrow> [])
      in if length dbis = length (databases p)
         then forAllDatabases E (\<lambda>i e. SeniorDatabaseStateInfoChanged e (dbis ! i)) p
         else p)"

definition ps_BackOrderResultReceived ::
  "('db, 'm) session_env \<Rightarrow> PZGUpdateBackOrderKey \<Rightarrow> 'm PZGDatabaseUpdate option \<Rightarrow> ('db, 'm) ZGPeerSession \<Rightarrow>
   ('db, 'm) ZGPeerSession" where
  "ps_BackOrderResultReceived E ubok optUpdateData p =
     (let i = unat (GetDatabaseIndex ubok)
      in if i < length (databases p) then forDatabase E (\<lambda>e. BackOrderResultReceived e ubok optUpdateData) i p else p)"

definition ps_VerifyOrFixLocalDatabaseChecksum ::
  "('db, 'm) session_env \<Rightarrow> u32 \<Rightarrow> ('db, 'm) ZGPeerSession \<Rightarrow> ('db, 'm) ZGPeerSession" where
  "ps_VerifyOrFixLocalDatabaseChecksum E whichDB p =
     (if unat whichDB < length (databases p) then forDatabase E VerifyOrFixLocalDatabaseChecksum (unat whichDB) p else p)"

definition ps_GetDatabaseUpdateByID ::
  "('db, 'm) session_env \<Rightarrow> u32 \<Rightarrow> u64 \<Rightarrow> ('db, 'm) ZGPeerSession \<Rightarrow> 'm PZGDatabaseUpdate option" where
  "ps_GetDatabaseUpdateByID E whichDB uid p =
     (if unat whichDB < length (databases p)
      then GetDatabaseUpdateByID (masterFor E p (unat whichDB)) uid (databases p ! unat whichDB) else None)"

definition ps_GetCurrentDatabaseStateID :: "u32 \<Rightarrow> ('db, 'm) ZGPeerSession \<Rightarrow> u64" where
  "ps_GetCurrentDatabaseStateID whichDB p =
     (if unat whichDB < length (databases p) then localDatabaseStateID (databases p ! unat whichDB) else 0)"

definition ps_UpdateLogContainsUpdate :: "u32 \<Rightarrow> u64 \<Rightarrow> ('db, 'm) ZGPeerSession \<Rightarrow> bool" where
  "ps_UpdateLogContainsUpdate whichDB transactionID p =
     (unat whichDB < length (databases p) \<and> tabHas updateID transactionID (updateLog (databases p ! unat whichDB)))"

definition GetUpdatePayload ::
  "('db, 'm) session_env \<Rightarrow> u32 \<Rightarrow> u64 \<Rightarrow> ('db, 'm) ZGPeerSession \<Rightarrow> 'm option" where
  "GetUpdatePayload E whichDB transactionID p =
     (if unat whichDB < length (databases p)
      then GetDatabaseUpdatePayloadByID (masterFor E p (unat whichDB)) transactionID (databases p ! unat whichDB) else None)"

end
