(* ===== verification/ZG_SessionReplication.thy ===== *)
theory ZG_SessionReplication
  imports ZG_PeerSession ZG_LogProperties
begin

text \<open>
  Replication between two peer sessions, each with all of its databases.

  \<open>net_step\<close> runs a senior and a junior \<^verbatim>\<open>ZGPeerSession\<close> over the same lossy network as
  \<open>sys_step\<close> runs two database states.  Database by database the session system
  refines \<open>sys_step\<close> (\<open>net_refines\<close>): the session routes every update, beacon entry and
  back-order reply to the database it is about and leaves the others alone.  So what
  \<open>ZG_Replication\<close> proves of one database holds for every database of the two peers.
\<close>

section \<open>Storing a database\<close>

lemma storeDatabase_databases [simp]: "databases (storeDatabase i s p) = (databases p)[i := s]"
  by (simp add: storeDatabase_def ScheduleSetBeaconData_def Let_def)

lemma storeDatabase_roles [simp]:
  "seniorPeerID (storeDatabase i s p) = seniorPeerID p" "localPeerID (storeDatabase i s p) = localPeerID p"
  "networkIO (storeDatabase i s p) = networkIO p" "iAmFullyAttached (storeDatabase i s p) = iAmFullyAttached p"
  "numDatabases (storeDatabase i s p) = numDatabases p" "onlinePeers (storeDatabase i s p) = onlinePeers p"
  by (simp_all add: storeDatabase_def ScheduleSetBeaconData_def Let_def)

lemma storeDatabase_senior [simp]: "ps_IAmTheSeniorPeer (storeDatabase i s p) = ps_IAmTheSeniorPeer p"
  by (simp add: ps_IAmTheSeniorPeer_def split: option.split)

lemma seniority_frame [simp]:
  "ps_IAmTheSeniorPeer (p \<lparr> setBeaconDataPending := b \<rparr>) = ps_IAmTheSeniorPeer p"
  "ps_IAmTheSeniorPeer (p \<lparr> sessionEffects := es \<rparr>) = ps_IAmTheSeniorPeer p"
  "ps_IAmTheSeniorPeer (p \<lparr> onlinePeers := t \<rparr>) = ps_IAmTheSeniorPeer p"
  "ps_IAmTheSeniorPeer (p \<lparr> iAmFullyAttached := a \<rparr>) = ps_IAmTheSeniorPeer p"
  by (simp_all add: ps_IAmTheSeniorPeer_def split: option.split)

lemma masterFor_store [simp]: "masterFor E (storeDatabase j s p) i = masterFor E p i"
  by (simp add: masterFor_def)

lemma storeDatabase_effects:
  "sessionEffects (storeDatabase i s p) =
   sessionEffects p @ map (DatabaseEffect i) (drop (length (effects (databases p ! i))) (effects s))"
  by (simp add: storeDatabase_def ScheduleSetBeaconData_def Let_def)

lemma masterFor_env [simp]:
  "dbOps (masterFor E p i) = dbOps (databaseEnv E i)" "zlibOps (masterFor E p i) = zlibOps (databaseEnv E i)"
  "IAmTheSeniorPeer (masterFor E p i) = ps_IAmTheSeniorPeer p" "IAmFullyAttached (masterFor E p i) = iAmFullyAttached p"
  "GetSeniorPeerID (masterFor E p i) = seniorPeerID p" "GetLocalPeerID (masterFor E p i) = localPeerID p"
  by (simp_all add: masterFor_def)

text \<open>A loop over all databases, each handled on its own.\<close>

lemma masterFor_forDatabase [simp]: "masterFor E (forDatabase E' f i p) j = masterFor E p j"
  by (simp add: forDatabase_def)

lemma databases_forDatabase [simp]:
  "databases (forDatabase E f i p) = (databases p)[i := f (masterFor E p i) (databases p ! i)]"
  by (simp add: forDatabase_def)

lemma fold_forDatabase:
  assumes "distinct is" "set is \<subseteq> {..<length (databases p)}"
  shows "databases (fold (\<lambda>i. forDatabase E (f i) i) is p) =
    map (\<lambda>j. if j \<in> set is then f j (masterFor E p j) (databases p ! j) else databases p ! j) [0..<length (databases p)]"
  using assms
proof (induction "is" arbitrary: p)
  case (Cons i "is")
  then have "databases (fold (\<lambda>i. forDatabase E (f i) i) is (forDatabase E (f i) i p)) =
      map (\<lambda>j. if j \<in> set is then f j (masterFor E p j) (databases (forDatabase E (f i) i p) ! j)
               else databases (forDatabase E (f i) i p) ! j) [0..<length (databases p)]"
    using Cons.IH [of "forDatabase E (f i) i p"] by simp
  also have "\<dots> = map (\<lambda>j. if j \<in> set (i # is) then f j (masterFor E p j) (databases p ! j) else databases p ! j)
      [0..<length (databases p)]"
    using Cons.prems by (intro map_cong) (auto simp: nth_list_update)
  finally show ?case
    by simp
qed (simp add: map_nth)

lemma fold_forDatabase_roles:
  "ps_IAmTheSeniorPeer (fold (\<lambda>i. forDatabase E (f i) i) is p) = ps_IAmTheSeniorPeer p \<and>
   iAmFullyAttached (fold (\<lambda>i. forDatabase E (f i) i) is p) = iAmFullyAttached p \<and>
   seniorPeerID (fold (\<lambda>i. forDatabase E (f i) i) is p) = seniorPeerID p \<and>
   localPeerID (fold (\<lambda>i. forDatabase E (f i) i) is p) = localPeerID p \<and>
   networkIO (fold (\<lambda>i. forDatabase E (f i) i) is p) = networkIO p"
  by (induction "is" arbitrary: p) (simp_all add: forDatabase_def)

lemma forAllDatabases_databases:
  "databases (forAllDatabases E f p) =
   map (\<lambda>j. f j (masterFor E p j) (databases p ! j)) [0..<length (databases p)]"
  using fold_forDatabase [of "[0..<length (databases p)]" p E f]
  by (simp add: forAllDatabases_def atLeast0LessThan)

lemma forAllDatabases_roles [simp]:
  "ps_IAmTheSeniorPeer (forAllDatabases E f p) = ps_IAmTheSeniorPeer p"
  "iAmFullyAttached (forAllDatabases E f p) = iAmFullyAttached p"
  "seniorPeerID (forAllDatabases E f p) = seniorPeerID p"
  "localPeerID (forAllDatabases E f p) = localPeerID p"
  "networkIO (forAllDatabases E f p) = networkIO p"
  using fold_forDatabase_roles [of E f "[0..<length (databases p)]" p]
  by (simp_all add: forAllDatabases_def)

section \<open>The senior's updates carry their database's index\<close>

definition tagged :: "nat \<Rightarrow> ('db, 'm) PZGDatabaseState \<Rightarrow> bool" where
  "tagged i s \<longleftrightarrow>
     whichDatabase s = of_nat i \<and> ordInv updateID (updateLog s) \<and>
     (\<forall>u \<in> set (updateLog s) \<union> set (multicasts (effects s)). databaseIndex u = of_nat i)"

lemma newUpdateFor_index:
  "tagged i s \<Longrightarrow> i < 2 ^ 16 \<Longrightarrow> databaseIndex (newUpdateFor s ty p) = of_nat i"
  by (simp add: tagged_def newUpdateFor_def GetPZGDatabaseUpdateFromPool_def newPZGDatabaseUpdate_def ucast_of_nat_small)

lemma added_tagged:
  assumes "tagged i s" "i < 2 ^ 16"
  shows "tagged i ((snd (AddDatabaseUpdateToUpdateLog e (Some (newUpdateFor s ty from)) s)) \<lparr> dbObject := d, dbChecksum := c \<rparr>)"
  using assms(1) newUpdateFor_index [OF assms(1,2), of ty "from"]
    Add_sorted [of s e "Some (newUpdateFor s ty from)"]
    set_ordPut_subset [of updateID "newUpdateFor s ty from" "updateLog s"]
  by (auto simp: tagged_def)

lemma Completed_tagged:
  assumes "tagged i s" "databaseIndex u = of_nat i" "updateBuf u = None" "updateMsg u = None"
  shows "tagged i (SeniorUpdateCompleted e u p s)"
proof -
  have "databaseIndex (completedUpdate e u p c) = of_nat i" for c
    using assms(2) by (simp add: completedUpdate_def SetSeniorElapsedTimeMicros_def)
  then show ?thesis
    using assms(1) map_replace_ordInv [of "updateLog s" "completedUpdate e u p (dbChecksum s)" "updateID u"]
    by (auto simp: tagged_def SeniorUpdateCompleted_log [OF assms(3,4)])
qed

lemma Remove_tagged: "tagged i s \<Longrightarrow> tagged i (RemoveDatabaseUpdateFromUpdateLog e u s)"
  using Remove_sorted [of s e u] Remove_subset [of e u s] by (auto simp: tagged_def)

text \<open>A request keeps the tags and multicasts nothing; a rescan multicasts from the log.\<close>

lemma request_tagged:
  assumes "tagged i s" "i < 2 ^ 16" "seniorCommand msg"
    and "HandleDatabaseUpdateRequest e from msg opt s = (st, s')"
  shows "tagged i s' \<and> multicasts (effects s') = multicasts (effects s)"
proof -
  note facts = added_tagged [OF assms(1,2)] newUpdateFor_index [OF assms(1,2)]
  have fin: "tagged i (SeniorUpdateCompleted e (newUpdateFor s ty from) p
      ((snd (AddDatabaseUpdateToUpdateLog e (Some (newUpdateFor s ty from)) s)) \<lparr> dbObject := d, dbChecksum := c \<rparr>))"
    "tagged i (RemoveDatabaseUpdateFromUpdateLog e (newUpdateFor s ty from)
      ((snd (AddDatabaseUpdateToUpdateLog e (Some (newUpdateFor s ty from)) s)) \<lparr> dbObject := d, dbChecksum := c \<rparr>))"
    for ty p d c
    by (rule Completed_tagged [OF facts], simp_all) (rule Remove_tagged [OF facts(1)])
  have "tagged i (snd (HandleResetSenior e from s)) \<and>
      multicasts (effects (snd (HandleResetSenior e from s))) = multicasts (effects s)"
    using fin by (simp add: HandleResetSenior_def Let_def split_beta)
  moreover have "tagged i (snd (HandleReplaceSenior e from m s)) \<and>
      multicasts (effects (snd (HandleReplaceSenior e from m s))) = multicasts (effects s)" for m
    using fin assms(1) by (simp add: HandleReplaceSenior_def Let_def split_beta split: option.split)
  moreover have "tagged i (snd (HandleUpdateSenior e from m s)) \<and>
      multicasts (effects (snd (HandleUpdateSenior e from m s))) = multicasts (effects s)" for m
    using fin assms(1) by (simp add: HandleUpdateSenior_def Let_def split_beta split: option.split)
  ultimately show ?thesis
    using assms by (auto simp: HandleDatabaseUpdateRequest_def seniorCommand_def split: if_splits) (metis snd_conv)+
qed

lemma rescan_tagged:
  assumes "tagged i s" "IAmTheSeniorPeer e" "RescanUpdateLogIfNecessary e s = Some s'"
  shows "tagged i s' \<and> set (multicasts (effects s)) \<subseteq> set (multicasts (effects s'))"
proof -
  define t where "t = s \<lparr> rescanLogPending := False \<rparr>"
  have t: "tagged i t" "effects t = effects s"
    using assms(1) by (simp_all add: t_def tagged_def)
  have srt: "ordInv updateID (updateLog t)"
    using t by (simp add: tagged_def)
  let ?f = "fold (multicastIfUnsent e) (updateLog t) t"
  have r: "(if rescanLogPending s then RescanUpdateLog e t else Some s) = Some s'"
    using assms(3) unfolding RescanUpdateLogIfNecessary_def t_def .
  have "s' = trimSeniorLog e ?f" if "rescanLogPending s" "updateLog t \<noteq> []"
    using r that seniorScan_eq_fold [OF srt, of "length (updateLog t) - 1" e t] assms(2)
    by (simp add: RescanUpdateLog_def)
  moreover have "tagged i (trimSeniorLog e ?f)"
    using t trimSenior_subset [of e ?f] trimSenior_sorted [of ?f e] fold_multicast_effects [OF srt, of e t]
    by (auto simp: tagged_def)
  moreover have "s' = s \<or> s' = t" if "\<not> rescanLogPending s \<or> updateLog t = []"
    using r that assms(2) by (auto simp: RescanUpdateLog_def split: if_splits)
  ultimately show ?thesis
    using assms(1) t fold_multicast_effects [OF srt, of e t] by (cases "rescanLogPending s \<and> updateLog t \<noteq> []") auto
qed

section \<open>Two sessions over a lossy network\<close>

record ('db, 'm) net =
  seniorSession :: "('db, 'm) ZGPeerSession"
  juniorSession :: "('db, 'm) ZGPeerSession"
  served :: "(PZGUpdateBackOrderKey \<times> 'm PZGDatabaseUpdate) set"
  histories :: "('db, 'm) history list"

definition goodEnv :: "(nat \<Rightarrow> ('db, 'm) IDatabaseObject) \<Rightarrow> 'm zlib \<Rightarrow> ('db, 'm) session_env \<Rightarrow> bool" where
  "goodEnv D Z E \<longleftrightarrow> (\<forall>i. dbOps (databaseEnv E i) = D i \<and> zlibOps (databaseEnv E i) = Z)"

text \<open>The reply to a back-order request, as \<^verbatim>\<open>PZGUnicastSession\<close> makes it on the senior peer.\<close>

definition serveBackOrder ::
  "('db, 'm) session_env \<Rightarrow> PZGUpdateBackOrderKey \<Rightarrow> bool \<Rightarrow> ('db, 'm) ZGPeerSession \<Rightarrow>
   'm PZGDatabaseUpdate option \<times> ('db, 'm) ZGPeerSession" where
  "serveBackOrder E ubok checksumMismatch p =
     (let p1 = (if GetDatabaseUpdateID ubok = DATABASE_UPDATE_ID_FULL_UPDATE \<and> checksumMismatch
                then ps_VerifyOrFixLocalDatabaseChecksum E (GetDatabaseIndex ubok) p else p)
      in (ps_GetDatabaseUpdateByID E (GetDatabaseIndex ubok) (GetDatabaseUpdateID ubok) p1, p1))"

inductive net_step ::
  "(nat \<Rightarrow> ('db, 'm) IDatabaseObject) \<Rightarrow> 'm zlib \<Rightarrow> ('db, 'm) net \<Rightarrow> ('db, 'm) net \<Rightarrow> bool"
  for D :: "nat \<Rightarrow> ('db, 'm) IDatabaseObject" and Z :: "'m zlib" where
  RequestArrives:
    "goodEnv D Z E \<Longrightarrow> seniorCommand msg \<Longrightarrow> i = unat (databaseID msg) \<Longrightarrow>
     Suc (length (histories n ! i)) < 2 ^ 64 - 1 \<Longrightarrow>
     ps_HandleDatabaseUpdateRequest E fromPeer msg True (seniorSession n) = (st, S) \<Longrightarrow>
     net_step D Z n (n \<lparr> seniorSession := S,
       histories := (histories n)[i := recordUpdate (databases S ! i) st (histories n ! i)] \<rparr>)"
| SeniorPulses:
    "goodEnv D Z E \<Longrightarrow> ps_Pulse E (seniorSession n) = Some S \<Longrightarrow> net_step D Z n (n \<lparr> seniorSession := S \<rparr>)"
| SeniorDatabasePulses:
    "goodEnv D Z E \<Longrightarrow> i < length (databases (seniorSession n)) \<Longrightarrow> databasePulse E i (seniorSession n) = Some S \<Longrightarrow>
     net_step D Z n (n \<lparr> seniorSession := S \<rparr>)"
| SeniorMeetsPeer:
    "goodEnv D Z E \<Longrightarrow> net_step D Z n (n \<lparr> seniorSession := ps_PeerHasComeOnline E pid info (seniorSession n) \<rparr>)"
| SeniorServes:
    "goodEnv D Z E \<Longrightarrow> serveBackOrder E ubok mismatch (seniorSession n) = (Some u, S) \<Longrightarrow>
     net_step D Z n (n \<lparr> seniorSession := S, served := insert (ubok, onWire Z u) (served n) \<rparr>)"
| UpdateArrives:
    "goodEnv D Z E \<Longrightarrow> DatabaseEffect i (MulticastUpdate u sent) \<in> set (sessionEffects (seniorSession n)) \<Longrightarrow>
     ps_HandleDatabaseUpdateRequest E fromPeer (juniorUpdateMessage (onWire Z u)) False (juniorSession n) = (st, J) \<Longrightarrow>
     net_step D Z n (n \<lparr> juniorSession := J \<rparr>)"
| BeaconDataArrives:
    "goodEnv D Z E \<Longrightarrow> net_step D Z n (n \<lparr> juniorSession := BeaconDataChanged E beacon (juniorSession n) \<rparr>)"
| JuniorPulses:
    "goodEnv D Z E \<Longrightarrow> ps_Pulse E (juniorSession n) = Some J \<Longrightarrow> net_step D Z n (n \<lparr> juniorSession := J \<rparr>)"
| JuniorDatabasePulses:
    "goodEnv D Z E \<Longrightarrow> i < length (databases (juniorSession n)) \<Longrightarrow> databasePulse E i (juniorSession n) = Some J \<Longrightarrow>
     net_step D Z n (n \<lparr> juniorSession := J \<rparr>)"
| JuniorMeetsPeer:
    "goodEnv D Z E \<Longrightarrow> net_step D Z n (n \<lparr> juniorSession := ps_PeerHasComeOnline E pid info (juniorSession n) \<rparr>)"
| BackOrderArrives:
    "goodEnv D Z E \<Longrightarrow> (ubok, u) \<in> served n \<Longrightarrow>
     net_step D Z n (n \<lparr> juniorSession := ps_BackOrderResultReceived E ubok (Some u) (juniorSession n) \<rparr>)"
| BackOrderFails:
    "goodEnv D Z E \<Longrightarrow>
     net_step D Z n (n \<lparr> juniorSession := ps_BackOrderResultReceived E ubok None (juniorSession n) \<rparr>)"

inductive net_reach ::
  "(nat \<Rightarrow> ('db, 'm) IDatabaseObject) \<Rightarrow> 'm zlib \<Rightarrow> ('db, 'm) net \<Rightarrow> ('db, 'm) net \<Rightarrow> bool"
  for D :: "nat \<Rightarrow> ('db, 'm) IDatabaseObject" and Z :: "'m zlib" and n0 :: "('db, 'm) net" where
  net_init: "net_reach D Z n0 n0"
| net_more: "net_reach D Z n0 n \<Longrightarrow> net_step D Z n n' \<Longrightarrow> net_reach D Z n0 n'"

text \<open>One database of the two sessions.\<close>

definition sysOf :: "nat \<Rightarrow> ('db, 'm) net \<Rightarrow> ('db, 'm) sys" where
  "sysOf i n = \<lparr> senior = databases (seniorSession n) ! i, junior = databases (juniorSession n) ! i,
     replies = {(uid, u). \<exists>k. (k, u) \<in> served n \<and> unat (GetDatabaseIndex k) = i \<and> GetDatabaseUpdateID k = uid},
     history = histories n ! i \<rparr>"

definition seniorInv :: "nat \<Rightarrow> ('db, 'm) ZGPeerSession \<Rightarrow> bool" where
  "seniorInv N p \<longleftrightarrow>
     ps_IAmTheSeniorPeer p \<and> length (databases p) = N \<and> N \<le> 2 ^ 16 \<and>
     (\<forall>i < N. tagged i (databases p ! i)) \<and>
     (\<forall>i u st. DatabaseEffect i (MulticastUpdate u st) \<in> set (sessionEffects p) \<longrightarrow>
        i < N \<and> u \<in> set (multicasts (effects (databases p ! i))))"

definition net_inv :: "nat \<Rightarrow> ('db, 'm) net \<Rightarrow> bool" where
  "net_inv N n \<longleftrightarrow>
     seniorInv N (seniorSession n) \<and> \<not> ps_IAmTheSeniorPeer (juniorSession n) \<and>
     length (databases (juniorSession n)) = N \<and> length (histories n) = N"

section \<open>Refinement\<close>

lemma sys_reach_trans: "sys_reach D Z y1 y2 \<Longrightarrow> sys_reach D Z y0 y1 \<Longrightarrow> sys_reach D Z y0 y2"
  by (induction rule: sys_reach.induct) (auto intro: reach_step)

lemma sys_step_reach: "sys_step D Z y y' \<Longrightarrow> sys_reach D Z y y'"
  by (rule reach_step [OF reach_init])

lemma reach_unchanged:
  "junior y = s \<Longrightarrow> sys_reach D Z y (y \<lparr> junior := s \<rparr>)"
  "senior y = s \<Longrightarrow> history y = h \<Longrightarrow> sys_reach D Z y (y \<lparr> senior := s, history := h \<rparr>)"
  by (auto intro: reach_init)

text \<open>Moves of one side, whatever the other side is.\<close>

definition seniorMoves ::
  "('db, 'm) IDatabaseObject \<Rightarrow> 'm zlib \<Rightarrow> ('db, 'm) PZGDatabaseState \<Rightarrow> ('db, 'm) PZGDatabaseState \<Rightarrow> bool" where
  "seniorMoves D Z s s' \<longleftrightarrow> (\<forall>y. senior y = s \<longrightarrow> sys_reach D Z y (y \<lparr> senior := s' \<rparr>))"

definition juniorMoves ::
  "('db, 'm) IDatabaseObject \<Rightarrow> 'm zlib \<Rightarrow> ('db, 'm) PZGDatabaseState \<Rightarrow> ('db, 'm) PZGDatabaseState \<Rightarrow> bool" where
  "juniorMoves D Z s s' \<longleftrightarrow> (\<forall>y. junior y = s \<longrightarrow> sys_reach D Z y (y \<lparr> junior := s' \<rparr>))"

lemma seniorMoves_refl [simp]: "seniorMoves D Z s s"
  by (auto simp: seniorMoves_def intro: reach_init)

lemma juniorMoves_refl [simp]: "juniorMoves D Z s s"
  by (auto simp: juniorMoves_def intro: reach_init)

lemma seniorMoves_trans: "seniorMoves D Z a b \<Longrightarrow> seniorMoves D Z b c \<Longrightarrow> seniorMoves D Z a c"
  unfolding seniorMoves_def
proof (intro allI impI)
  fix y :: "('a, 'b) sys"
  assume "\<forall>y. senior y = a \<longrightarrow> sys_reach D Z y (y \<lparr> senior := b \<rparr>)"
    and bc: "\<forall>y. senior y = b \<longrightarrow> sys_reach D Z y (y \<lparr> senior := c \<rparr>)" and "senior y = a"
  then have "sys_reach D Z y (y \<lparr> senior := b \<rparr>)"
    by blast
  moreover have "sys_reach D Z (y \<lparr> senior := b \<rparr>) (y \<lparr> senior := b \<rparr> \<lparr> senior := c \<rparr>)"
    using bc [rule_format, of "y \<lparr> senior := b \<rparr>"] by simp
  ultimately show "sys_reach D Z y (y \<lparr> senior := c \<rparr>)"
    by (auto intro: sys_reach_trans)
qed

lemma juniorMoves_trans: "juniorMoves D Z a b \<Longrightarrow> juniorMoves D Z b c \<Longrightarrow> juniorMoves D Z a c"
  unfolding juniorMoves_def
proof (intro allI impI)
  fix y :: "('a, 'b) sys"
  assume "\<forall>y. junior y = a \<longrightarrow> sys_reach D Z y (y \<lparr> junior := b \<rparr>)"
    and bc: "\<forall>y. junior y = b \<longrightarrow> sys_reach D Z y (y \<lparr> junior := c \<rparr>)" and "junior y = a"
  then have "sys_reach D Z y (y \<lparr> junior := b \<rparr>)"
    by blast
  moreover have "sys_reach D Z (y \<lparr> junior := b \<rparr>) (y \<lparr> junior := b \<rparr> \<lparr> junior := c \<rparr>)"
    using bc [rule_format, of "y \<lparr> junior := b \<rparr>"] by simp
  ultimately show "sys_reach D Z y (y \<lparr> junior := c \<rparr>)"
    by (auto intro: sys_reach_trans)
qed

lemma senior_flag: "seniorMoves D Z s (s \<lparr> rescanLogPending := b \<rparr>)"
  by (auto simp: seniorMoves_def intro: sys_step_reach SeniorSchedules)

lemma junior_flag: "juniorMoves D Z s (s \<lparr> rescanLogPending := b \<rparr>)"
  by (auto simp: juniorMoves_def intro: sys_step_reach JuniorSchedules)

lemma Schedule_flag: "\<exists>b. ScheduleLogContentsRescan e s = s \<lparr> rescanLogPending := b \<rparr>"
  by (cases "\<not> rescanLogPending s \<and> IAmFullyAttached e") (auto simp: ScheduleLogContentsRescan_def intro: exI [of _ "rescanLogPending s"])

lemma senior_schedule: "seniorMoves D Z s (ScheduleLogContentsRescan e s)"
  using Schedule_flag [of e s] senior_flag by metis

lemma junior_schedule: "juniorMoves D Z s (ScheduleLogContentsRescan e s)"
  using Schedule_flag [of e s] junior_flag by metis

lemma senior_rescan_move:
  assumes "isSeniorEnv D Z e" "RescanUpdateLogIfNecessary e s = Some s'"
  shows "seniorMoves D Z s s'"
proof (cases "rescanLogPending s")
  case True
  then have "RescanUpdateLog e (s \<lparr> rescanLogPending := False \<rparr>) = Some s'"
    using assms(2) by (simp add: RescanUpdateLogIfNecessary_def)
  then have "seniorMoves D Z (s \<lparr> rescanLogPending := False \<rparr>) s'"
    using assms(1) by (auto simp: seniorMoves_def intro!: sys_step_reach SeniorRescan)
  then show ?thesis
    by (rule seniorMoves_trans [OF senior_flag])
qed (use assms in \<open>simp add: RescanUpdateLogIfNecessary_def\<close>)

lemma junior_rescan_move:
  assumes "isJuniorEnv D Z e" "RescanUpdateLogIfNecessary e s = Some s'"
  shows "juniorMoves D Z s s'"
proof (cases "rescanLogPending s")
  case True
  then have "RescanUpdateLog e (s \<lparr> rescanLogPending := False \<rparr>) = Some s'"
    using assms(2) by (simp add: RescanUpdateLogIfNecessary_def)
  then have "juniorMoves D Z (s \<lparr> rescanLogPending := False \<rparr>) s'"
    using assms(1) by (auto simp: juniorMoves_def intro!: sys_step_reach JuniorRescan)
  then show ?thesis
    by (rule juniorMoves_trans [OF junior_flag])
qed (use assms in \<open>simp add: RescanUpdateLogIfNecessary_def\<close>)

lemma masterFor_roles:
  assumes "goodEnv D Z E"
  shows "ps_IAmTheSeniorPeer p \<Longrightarrow> isSeniorEnv (D i) Z (masterFor E p i)"
    and "\<not> ps_IAmTheSeniorPeer p \<Longrightarrow> isJuniorEnv (D i) Z (masterFor E p i)"
  using assms by (simp_all add: goodEnv_def isSeniorEnv_def isJuniorEnv_def)

lemma multicasts_mem: "MulticastUpdate u st \<in> set es \<Longrightarrow> u \<in> set (multicasts es)"
  by (induction es rule: multicasts.induct) auto

lemma seniorInv_store:
  assumes "seniorInv N p" "i < N" "tagged i s"
    and "set (multicasts (effects (databases p ! i))) \<subseteq> set (multicasts (effects s))"
  shows "seniorInv N (storeDatabase i s p)"
proof -
  have "j < N \<and> u \<in> set (multicasts (effects ((databases p)[i := s] ! j)))"
    if "DatabaseEffect j (MulticastUpdate u st) \<in> set (sessionEffects (storeDatabase i s p))" for j u st
  proof (cases "DatabaseEffect j (MulticastUpdate u st) \<in> set (sessionEffects p)")
    case True
    then have "j < N" "u \<in> set (multicasts (effects (databases p ! j)))"
      using assms(1) by (auto simp: seniorInv_def)
    then show ?thesis
      using assms by (cases "j = i") (auto simp: seniorInv_def)
  next
    case False
    then have "j = i" "MulticastUpdate u st \<in> set (effects s)"
      using that by (auto simp: storeDatabase_effects dest: in_set_dropD)
    then show ?thesis
      using assms(1,2) by (auto simp: seniorInv_def intro: multicasts_mem)
  qed
  then show ?thesis
    using assms(1-3) by (auto simp: seniorInv_def nth_list_update)
qed

text \<open>What a pulse does to a senior's, and to a junior's, databases.\<close>

lemma senior_databasePulse:
  assumes "goodEnv D Z E" "seniorInv N p" "i < N" "databasePulse E i p = Some p'"
  shows "seniorInv N p' \<and> (\<forall>j < N. seniorMoves (D j) Z (databases p ! j) (databases p' ! j))"
proof -
  obtain s where s: "RescanUpdateLogIfNecessary (masterFor E p i) (databases p ! i) = Some s" "p' = storeDatabase i s p"
    using assms(4) by (auto simp: databasePulse_def)
  have sen: "ps_IAmTheSeniorPeer p" "tagged i (databases p ! i)" "length (databases p) = N"
    using assms(2,3) by (auto simp: seniorInv_def)
  have "seniorMoves (D i) Z (databases p ! i) s"
    using senior_rescan_move [OF masterFor_roles(1) [OF assms(1) sen(1)] s(1)] .
  moreover have "seniorInv N p'"
    using rescan_tagged [OF sen(2) _ s(1)] sen(1) seniorInv_store [OF assms(2,3)] by (simp add: s(2))
  ultimately show ?thesis
    using sen(3) assms(3) by (auto simp: s(2) nth_list_update)
qed

lemma senior_rescanAll:
  assumes "goodEnv D Z E" "seniorInv N p" "set is \<subseteq> {..<N}" "rescanAll E is p = Some p'"
  shows "seniorInv N p' \<and> (\<forall>j < N. seniorMoves (D j) Z (databases p ! j) (databases p' ! j))"
  using assms(2-4)
proof (induction "is" arbitrary: p)
  case (Cons i "is")
  obtain q where q: "databasePulse E i p = Some q" "rescanAll E is q = Some p'"
    using Cons.prems(3) by (auto split: option.splits)
  have "seniorInv N q \<and> (\<forall>j < N. seniorMoves (D j) Z (databases p ! j) (databases q ! j))"
    using senior_databasePulse [OF assms(1) Cons.prems(1) _ q(1)] Cons.prems(2) by simp
  moreover from this have "seniorInv N p' \<and> (\<forall>j < N. seniorMoves (D j) Z (databases q ! j) (databases p' ! j))"
    using Cons.IH [OF _ _ q(2)] Cons.prems(2) by simp
  ultimately show ?case
    by (blast intro: seniorMoves_trans)
qed simp

lemma senior_Pulse:
  assumes "goodEnv D Z E" "seniorInv N p" "ps_Pulse E p = Some p'"
  shows "seniorInv N p' \<and> (\<forall>j < N. seniorMoves (D j) Z (databases p ! j) (databases p' ! j))"
proof (cases "setBeaconDataPending p")
  case True
  let ?p = "p \<lparr> setBeaconDataPending := False \<rparr>"
  have inv: "seniorInv N ?p" "length (databases p) = N"
    using assms(2) by (auto simp: seniorInv_def)
  obtain q where q: "rescanAll E [0..<N] ?p = Some q" and
    p': "p' = q \<or> (\<exists>b st. p' = q \<lparr> sessionEffects := sessionEffects q @ [SetBeaconData b st] \<rparr>)"
    using assms(3) True inv(2) by (auto simp: ps_Pulse_def Let_def split: option.splits if_splits)
  have q': "seniorInv N q \<and> (\<forall>j < N. seniorMoves (D j) Z (databases p ! j) (databases q ! j))"
    using senior_rescanAll [OF assms(1) inv(1) _ q] by (simp add: atLeast0LessThan)
  moreover have "seniorInv N (q \<lparr> sessionEffects := sessionEffects q @ [SetBeaconData b st] \<rparr>) = seniorInv N q" for b st
    by (simp add: seniorInv_def)
  ultimately have "seniorInv N p'"
    using p' by auto
  then show ?thesis
    using q' p' by auto
qed (use assms in \<open>simp add: ps_Pulse_def\<close>)

lemma junior_databasePulse:
  assumes "goodEnv D Z E" "\<not> ps_IAmTheSeniorPeer p" "i < length (databases p)" "databasePulse E i p = Some p'"
  shows "\<not> ps_IAmTheSeniorPeer p' \<and> length (databases p') = length (databases p) \<and>
    (\<forall>j < length (databases p). juniorMoves (D j) Z (databases p ! j) (databases p' ! j))"
proof -
  obtain s where s: "RescanUpdateLogIfNecessary (masterFor E p i) (databases p ! i) = Some s" "p' = storeDatabase i s p"
    using assms(4) by (auto simp: databasePulse_def)
  have "juniorMoves (D i) Z (databases p ! i) s"
    using junior_rescan_move [OF masterFor_roles(2) [OF assms(1,2)] s(1)] .
  then show ?thesis
    using assms(2,3) by (auto simp: s(2) nth_list_update)
qed

lemma junior_rescanAll:
  assumes "goodEnv D Z E" "\<not> ps_IAmTheSeniorPeer p" "set is \<subseteq> {..<length (databases p)}" "rescanAll E is p = Some p'"
  shows "\<not> ps_IAmTheSeniorPeer p' \<and> length (databases p') = length (databases p) \<and>
    (\<forall>j < length (databases p). juniorMoves (D j) Z (databases p ! j) (databases p' ! j))"
  using assms(2-4)
proof (induction "is" arbitrary: p)
  case (Cons i "is")
  obtain q where q: "databasePulse E i p = Some q" "rescanAll E is q = Some p'"
    using Cons.prems(3) by (auto split: option.splits)
  have 1: "\<not> ps_IAmTheSeniorPeer q \<and> length (databases q) = length (databases p) \<and>
      (\<forall>j < length (databases p). juniorMoves (D j) Z (databases p ! j) (databases q ! j))"
    using junior_databasePulse [OF assms(1) Cons.prems(1) _ q(1)] Cons.prems(2) by simp
  then have "\<not> ps_IAmTheSeniorPeer p' \<and> length (databases p') = length (databases q) \<and>
      (\<forall>j < length (databases q). juniorMoves (D j) Z (databases q ! j) (databases p' ! j))"
    using Cons.IH [OF _ _ q(2)] Cons.prems(2) by simp
  with 1 show ?case
    by (auto intro: juniorMoves_trans)
qed simp

lemma junior_Pulse:
  assumes "goodEnv D Z E" "\<not> ps_IAmTheSeniorPeer p" "ps_Pulse E p = Some p'"
  shows "\<not> ps_IAmTheSeniorPeer p' \<and> length (databases p') = length (databases p) \<and>
    (\<forall>j < length (databases p). juniorMoves (D j) Z (databases p ! j) (databases p' ! j))"
proof (cases "setBeaconDataPending p")
  case True
  let ?p = "p \<lparr> setBeaconDataPending := False \<rparr>"
  have jun: "\<not> ps_IAmTheSeniorPeer ?p"
    using assms(2) by simp
  obtain q where q: "rescanAll E [0..<length (databases p)] ?p = Some q" and
    p': "p' = q \<or> (\<exists>b st. p' = q \<lparr> sessionEffects := sessionEffects q @ [SetBeaconData b st] \<rparr>)"
    using assms(3) True by (auto simp: ps_Pulse_def Let_def split: option.splits if_splits)
  have q': "\<not> ps_IAmTheSeniorPeer q \<and> length (databases q) = length (databases p) \<and>
      (\<forall>j < length (databases p). juniorMoves (D j) Z (databases p ! j) (databases q ! j))"
    using junior_rescanAll [OF assms(1) jun _ q] by (simp add: atLeast0LessThan)
  then have "\<not> ps_IAmTheSeniorPeer p'"
    using p' by auto
  then show ?thesis
    using q' p' by auto
qed (use assms in \<open>simp add: ps_Pulse_def\<close>)

lemma seniorInv_fold:
  assumes "seniorInv N p" "set ks \<subseteq> {..<N}"
    and "\<And>i e s. tagged i s \<Longrightarrow> tagged i (f i e s) \<and> set (multicasts (effects s)) \<subseteq> set (multicasts (effects (f i e s)))"
  shows "seniorInv N (fold (\<lambda>i. forDatabase E (f i) i) ks p)"
  using assms(1,2)
proof (induction ks arbitrary: p)
  case (Cons i ks)
  have "tagged i (databases p ! i)"
    using Cons.prems by (simp add: seniorInv_def)
  then have "seniorInv N (forDatabase E (f i) i p)"
    unfolding forDatabase_def using assms(3) Cons.prems by (intro seniorInv_store) auto
  then show ?case
    using Cons by simp
qed simp

lemma seniorInv_forAll:
  assumes "seniorInv N p"
    and "\<And>i e s. tagged i s \<Longrightarrow> tagged i (f i e s) \<and> set (multicasts (effects s)) \<subseteq> set (multicasts (effects (f i e s)))"
  shows "seniorInv N (forAllDatabases E f p)"
  using seniorInv_fold [OF assms(1) _ assms(2), where ks = "[0..<length (databases p)]" and E = E] assms(1)
  by (simp add: forAllDatabases_def seniorInv_def atLeast0LessThan)

lemma senior_meets_peer:
  assumes "seniorInv N p"
  shows "seniorInv N (ps_PeerHasComeOnline E pid info p) \<and>
    (\<forall>j < N. seniorMoves (D j) Z (databases p ! j) (databases (ps_PeerHasComeOnline E pid info p) ! j))"
proof -
  have inv: "seniorInv N (p \<lparr> onlinePeers := t \<rparr>)" "seniorInv N (p \<lparr> onlinePeers := t, iAmFullyAttached := True \<rparr>)" for t
    using assms by (simp_all add: seniorInv_def)
  have "seniorInv N (ps_PeerHasComeOnline E pid info p)"
    using inv by (auto simp: ps_PeerHasComeOnline_def Let_def tagged_def intro!: seniorInv_forAll)
  moreover have "length (databases p) = N"
    using assms by (simp add: seniorInv_def)
  ultimately show ?thesis
    by (auto simp: ps_PeerHasComeOnline_def Let_def forAllDatabases_databases senior_schedule)
qed

lemma junior_forAll:
  assumes "\<And>i. juniorMoves (D i) Z (databases p ! i) (f i (masterFor E p i) (databases p ! i))"
  shows "length (databases (forAllDatabases E f p)) = length (databases p) \<and>
    (\<forall>j < length (databases p). juniorMoves (D j) Z (databases p ! j) (databases (forAllDatabases E f p) ! j))"
  using assms by (simp add: forAllDatabases_databases)

lemma junior_meets_peer:
  "length (databases (ps_PeerHasComeOnline E pid info p)) = length (databases p) \<and>
   ps_IAmTheSeniorPeer (ps_PeerHasComeOnline E pid info p) = ps_IAmTheSeniorPeer p \<and>
   (\<forall>j < length (databases p). juniorMoves (D j) Z (databases p ! j) (databases (ps_PeerHasComeOnline E pid info p) ! j))"
  by (simp add: ps_PeerHasComeOnline_def Let_def forAllDatabases_databases junior_schedule)

lemma junior_beacon:
  assumes "goodEnv D Z E" "\<not> ps_IAmTheSeniorPeer p"
  shows "length (databases (BeaconDataChanged E b p)) = length (databases p) \<and>
   \<not> ps_IAmTheSeniorPeer (BeaconDataChanged E b p) \<and>
   (\<forall>j < length (databases p). juniorMoves (D j) Z (databases p ! j) (databases (BeaconDataChanged E b p) ! j))"
proof -
  have "juniorMoves (D i) Z s (SeniorDatabaseStateInfoChanged (masterFor E p i) info s)" for i s info
    using masterFor_roles(2) [OF assms] by (auto simp: juniorMoves_def intro!: sys_step_reach BeaconArrives)
  then show ?thesis
    using assms(2) by (simp add: BeaconDataChanged_def Let_def forAllDatabases_databases)
qed

lemma junior_reply:
  assumes "goodEnv D Z E" "\<not> ps_IAmTheSeniorPeer p"
    and "opt = None \<or> (\<exists>u. opt = Some u \<and> (ubok, u) \<in> R)"
    and "j < length (databases p)"
  shows "length (databases (ps_BackOrderResultReceived E ubok opt p)) = length (databases p) \<and>
    \<not> ps_IAmTheSeniorPeer (ps_BackOrderResultReceived E ubok opt p) \<and>
    (\<forall>y. junior y = databases p ! j \<longrightarrow>
       replies y = {(uid, u). \<exists>k. (k, u) \<in> R \<and> unat (GetDatabaseIndex k) = j \<and> GetDatabaseUpdateID k = uid} \<longrightarrow>
       sys_reach (D j) Z y (y \<lparr> junior := databases (ps_BackOrderResultReceived E ubok opt p) ! j \<rparr>))"
proof (cases "unat (GetDatabaseIndex ubok) = j")
  case True
  have "sys_reach (D j) Z y (y \<lparr> junior := BackOrderResultReceived (masterFor E p j) ubok opt (databases p ! j) \<rparr>)"
    if "junior y = databases p ! j" "replies y = {(uid, u). \<exists>k. (k, u) \<in> R \<and> unat (GetDatabaseIndex k) = j \<and> GetDatabaseUpdateID k = uid}" for y
    using assms(3) True that(2) masterFor_roles(2) [OF assms(1,2), of j] unfolding that(1) [symmetric]
    by (auto intro!: sys_step_reach ReplyArrives ReplyFails)
  then show ?thesis
    using assms(2,4) True by (auto simp: ps_BackOrderResultReceived_def Let_def forDatabase_def)
next
  case False
  then show ?thesis
    using assms(2,4) by (auto simp: ps_BackOrderResultReceived_def Let_def forDatabase_def intro: reach_unchanged)
qed

lemma request_refines:
  assumes "goodEnv D Z E" "seniorInv N p" "seniorCommand msg" "length H = N"
    and "Suc (length (H ! unat (databaseID msg))) < 2 ^ 64 - 1"
    and "ps_HandleDatabaseUpdateRequest E fromPeer msg True p = (st, S)"
  defines "i \<equiv> unat (databaseID msg)"
  shows "seniorInv N S" and "\<forall>j < N. \<forall>y. senior y = databases p ! j \<longrightarrow> history y = H ! j \<longrightarrow>
      sys_reach (D j) Z y (y \<lparr> senior := databases S ! j, history := H[i := recordUpdate (databases S ! i) st (H ! i)] ! j \<rparr>)"
proof -
  have sen: "ps_IAmTheSeniorPeer p" "length (databases p) = N" "N \<le> 2 ^ 16"
    using assms(2) by (simp_all add: seniorInv_def)
  have not_jun: "what msg \<noteq> PZG_PEER_COMMAND_UPDATE_JUNIOR_DATABASE"
    using assms(3) by (simp add: seniorCommand_def)
  have "seniorInv N S \<and> (\<forall>j < N. \<forall>y. senior y = databases p ! j \<longrightarrow> history y = H ! j \<longrightarrow>
      sys_reach (D j) Z y (y \<lparr> senior := databases S ! j, history := H[i := recordUpdate (databases S ! i) st (H ! i)] ! j \<rparr>))"
  proof (cases "i < N")
    case False
    then have "S = p"
      using assms(6) sen not_jun by (auto simp: ps_HandleDatabaseUpdateRequest_def Let_def i_def)
    then show ?thesis
      using False assms(2,4) by (auto intro: reach_unchanged)
  next
    case True
    obtain s where s: "HandleDatabaseUpdateRequest (masterFor E p i) fromPeer msg None (databases p ! i) = (st, s)"
        "S = storeDatabase i s p"
      using assms(6) sen not_jun True
      by (auto simp: ps_HandleDatabaseUpdateRequest_def Let_def i_def split: prod.splits)
    have tag: "tagged i (databases p ! i)"
      using assms(2) True by (simp add: seniorInv_def)
    have "seniorInv N S"
      unfolding s(2) using request_tagged [OF tag _ assms(3) s(1)] True sen(3)
      by (intro seniorInv_store [OF assms(2) True]) auto
    moreover have "sys_reach (D i) Z y (y \<lparr> senior := s, history := recordUpdate s st (H ! i) \<rparr>)"
      if "senior y = databases p ! i" "history y = H ! i" for y
      using SeniorRequest [OF masterFor_roles(1) [OF assms(1) sen(1)] assms(3), of y i fromPeer None st s] assms(5) s(1) that
      by (intro sys_step_reach) (simp add: i_def)
    ultimately show ?thesis
      using True sen(2) assms(4) by (auto simp: s(2) nth_list_update intro: reach_unchanged)
  qed
  then show "seniorInv N S" and "\<forall>j < N. \<forall>y. senior y = databases p ! j \<longrightarrow> history y = H ! j \<longrightarrow>
      sys_reach (D j) Z y (y \<lparr> senior := databases S ! j, history := H[i := recordUpdate (databases S ! i) st (H ! i)] ! j \<rparr>)"
    by blast+
qed

lemma update_refines:
  assumes "goodEnv D Z E" "\<not> ps_IAmTheSeniorPeer p" "i < 2 ^ 16" "databaseIndex u = of_nat i"
    and "ps_HandleDatabaseUpdateRequest E fromPeer (juniorUpdateMessage (onWire Z u)) False p = (st, J)"
    and "i < length (databases p)" "j < length (databases p)"
  shows "length (databases J) = length (databases p) \<and> \<not> ps_IAmTheSeniorPeer J \<and>
    (\<forall>y. junior y = databases p ! j \<longrightarrow> (j = i \<longrightarrow> u \<in> set (multicasts (effects (senior y)))) \<longrightarrow>
       sys_reach (D j) Z y (y \<lparr> junior := databases J ! j \<rparr>))"
proof (cases "fromPeer = seniorPeerID p")
  case False
  then have "J = p"
    using assms(2,5) by (simp add: ps_HandleDatabaseUpdateRequest_def juniorUpdateMessage_def Let_def)
  then show ?thesis
    using assms(2) by (auto intro: reach_unchanged)
next
  case True
  have idx: "unat (ucast (databaseIndex (onWire Z u)) :: u32) = i"
    using assms(3,4) by (simp add: ucast_up_of_nat_small)
  obtain s where s: "HandleDatabaseUpdateRequest (masterFor E p i) fromPeer (juniorUpdateMessage (onWire Z u))
        (Some (onWire Z u)) (databases p ! i) = (st, s)" "J = storeDatabase i s p"
    using assms(2,5,6) True idx
    by (auto simp: ps_HandleDatabaseUpdateRequest_def juniorUpdateMessage_def Let_def split: prod.splits)
  have "sys_reach (D i) Z y (y \<lparr> junior := s \<rparr>)"
    if "junior y = databases p ! i" "u \<in> set (multicasts (effects (senior y)))" for y
    using MulticastArrives [OF masterFor_roles(2) [OF assms(1,2)] that(2), of i fromPeer st s] s(1) that(1)
    by (intro sys_step_reach) simp
  then show ?thesis
    using assms(2,6,7) by (auto simp: s(2) nth_list_update intro: reach_unchanged)
qed

lemma sysOf_updates:
  "sysOf j (n \<lparr> seniorSession := S \<rparr>) = (sysOf j n) \<lparr> senior := databases S ! j \<rparr>"
  "sysOf j (n \<lparr> juniorSession := J \<rparr>) = (sysOf j n) \<lparr> junior := databases J ! j \<rparr>"
  "sysOf j (n \<lparr> seniorSession := S, histories := H \<rparr>) = (sysOf j n) \<lparr> senior := databases S ! j, history := H ! j \<rparr>"
  by (simp_all add: sysOf_def)

lemma sysOf_fields:
  "senior (sysOf j n) = databases (seniorSession n) ! j" "junior (sysOf j n) = databases (juniorSession n) ! j"
  "history (sysOf j n) = histories n ! j"
  "replies (sysOf j n) = {(uid, u). \<exists>k. (k, u) \<in> served n \<and> unat (GetDatabaseIndex k) = j \<and> GetDatabaseUpdateID k = uid}"
  by (simp_all add: sysOf_def)

lemma senior_session_refines:
  assumes "net_inv N n" "seniorInv N S \<and> (\<forall>j < N. seniorMoves (D j) Z (databases (seniorSession n) ! j) (databases S ! j))"
  shows "net_inv N (n \<lparr> seniorSession := S \<rparr>) \<and>
    (\<forall>j < N. sys_reach (D j) Z (sysOf j n) (sysOf j (n \<lparr> seniorSession := S \<rparr>)))"
  using assms by (auto simp: net_inv_def sysOf_updates seniorMoves_def sysOf_fields)

lemma junior_session_refines:
  assumes "net_inv N n" "\<not> ps_IAmTheSeniorPeer J" "length (databases J) = N"
    and "\<And>j. j < N \<Longrightarrow> sys_reach (D j) Z (sysOf j n) ((sysOf j n) \<lparr> junior := databases J ! j \<rparr>)"
  shows "net_inv N (n \<lparr> juniorSession := J \<rparr>) \<and>
    (\<forall>j < N. sys_reach (D j) Z (sysOf j n) (sysOf j (n \<lparr> juniorSession := J \<rparr>)))"
  using assms by (simp add: net_inv_def sysOf_updates)

lemma junior_moves_refines:
  assumes "net_inv N n" "\<not> ps_IAmTheSeniorPeer J \<and> length (databases J) = N \<and>
    (\<forall>j < N. juniorMoves (D j) Z (databases (juniorSession n) ! j) (databases J ! j))"
  shows "net_inv N (n \<lparr> juniorSession := J \<rparr>) \<and>
    (\<forall>j < N. sys_reach (D j) Z (sysOf j n) (sysOf j (n \<lparr> juniorSession := J \<rparr>)))"
  using assms by (intro junior_session_refines) (auto simp: juniorMoves_def sysOf_fields)

lemma verify_tagged: "tagged i s \<Longrightarrow> tagged i (VerifyOrFixLocalDatabaseChecksum e s)"
  "effects (VerifyOrFixLocalDatabaseChecksum e s) = effects s"
  by (simp_all add: VerifyOrFixLocalDatabaseChecksum_def Let_def tagged_def)

lemma verify_refines:
  assumes "goodEnv D Z E" "seniorInv N p"
  shows "seniorInv N (ps_VerifyOrFixLocalDatabaseChecksum E db p) \<and>
    (\<forall>j < N. seniorMoves (D j) Z (databases p ! j) (databases (ps_VerifyOrFixLocalDatabaseChecksum E db p) ! j))"
proof -
  have sen: "ps_IAmTheSeniorPeer p" "length (databases p) = N" "\<And>i. i < N \<Longrightarrow> tagged i (databases p ! i)"
    using assms(2) by (simp_all add: seniorInv_def)
  have "seniorMoves (D i) Z s (VerifyOrFixLocalDatabaseChecksum (masterFor E p i) s)" for i s
    using masterFor_roles(1) [OF assms(1) sen(1)] by (auto simp: seniorMoves_def intro!: sys_step_reach SeniorVerifies)
  then show ?thesis
    using assms(2) sen
    by (auto simp: ps_VerifyOrFixLocalDatabaseChecksum_def forDatabase_def nth_list_update verify_tagged
        intro!: seniorInv_store)
qed

lemma serve_refines:
  assumes "goodEnv D Z E" "net_inv N n" "serveBackOrder E ubok mismatch (seniorSession n) = (Some u, S)"
  shows "net_inv N (n \<lparr> seniorSession := S, served := insert (ubok, onWire Z u) (served n) \<rparr>) \<and>
    (\<forall>j < N. sys_reach (D j) Z (sysOf j n)
       (sysOf j (n \<lparr> seniorSession := S, served := insert (ubok, onWire Z u) (served n) \<rparr>)))"
proof -
  have inv: "seniorInv N (seniorSession n)"
    using assms(2) by (simp add: net_inv_def)
  have S: "seniorInv N S \<and> (\<forall>j < N. seniorMoves (D j) Z (databases (seniorSession n) ! j) (databases S ! j))"
    using assms(3) verify_refines [OF assms(1) inv] inv
    by (auto simp: serveBackOrder_def Let_def split: if_splits)
  note first = senior_session_refines [OF assms(2) S]
  let ?i = "unat (GetDatabaseIndex ubok)" and ?n = "n \<lparr> seniorSession := S \<rparr>"
  have served: "ps_GetDatabaseUpdateByID E (GetDatabaseIndex ubok) (GetDatabaseUpdateID ubok) S = Some u"
    using assms(3) by (auto simp: serveBackOrder_def Let_def)
  then have i: "?i < N" "GetDatabaseUpdateByID (masterFor E S ?i) (GetDatabaseUpdateID ubok) (databases S ! ?i) = Some u"
    using S by (auto simp: ps_GetDatabaseUpdateByID_def seniorInv_def split: if_splits)
  have reps: "sysOf j (?n \<lparr> served := insert (ubok, onWire Z u) (served n) \<rparr>) =
      (if j = ?i then (sysOf j ?n) \<lparr> replies := insert (GetDatabaseUpdateID ubok, onWire Z u) (replies (sysOf j ?n)) \<rparr>
       else sysOf j ?n)" for j
    by (auto simp: sysOf_def)
  have "sys_reach (D ?i) Z (sysOf ?i ?n) (sysOf ?i (?n \<lparr> served := insert (ubok, onWire Z u) (served n) \<rparr>))"
    using SeniorServesBackOrder [OF masterFor_roles(1) [OF assms(1)], of S ?i "GetDatabaseUpdateID ubok" "sysOf ?i ?n" u] S i(2)
    by (simp add: reps sys_step_reach sysOf_fields seniorInv_def)
  then have "sys_reach (D j) Z (sysOf j ?n) (sysOf j (?n \<lparr> served := insert (ubok, onWire Z u) (served n) \<rparr>))" for j
    by (cases "j = ?i") (simp_all add: reps reach_init)
  then show ?thesis
    using first by (auto simp: net_inv_def intro: sys_reach_trans)
qed

lemma net_refines:
  assumes "net_step D Z n n'" "net_inv N n"
  shows "net_inv N n' \<and> (\<forall>j < N. sys_reach (D j) Z (sysOf j n) (sysOf j n'))"
proof -
  have inv: "seniorInv N (seniorSession n)" "\<not> ps_IAmTheSeniorPeer (juniorSession n)"
    "length (databases (juniorSession n)) = N" "length (histories n) = N"
    using assms(2) by (simp_all add: net_inv_def)
  show ?thesis
    using assms(1)
  proof cases
    case (RequestArrives E msg i fromPeer st S)
    have lt: "Suc (length (histories n ! unat (databaseID msg))) < 2 ^ 64 - 1"
      using RequestArrives(4,5) by simp
    from request_refines [OF RequestArrives(2) inv(1) RequestArrives(3) inv(4) lt RequestArrives(6)] show ?thesis
      using inv unfolding RequestArrives(1,4) by (simp add: net_inv_def sysOf_updates sysOf_fields)
  next
    case (SeniorPulses E S)
    then show ?thesis
      using senior_session_refines [OF assms(2) senior_Pulse [OF _ inv(1)]] by simp
  next
    case (SeniorDatabasePulses E i S)
    then show ?thesis
      using senior_session_refines [OF assms(2) senior_databasePulse [OF _ inv(1)]] inv(1) by (simp add: seniorInv_def)
  next
    case (SeniorMeetsPeer E pid info)
    then show ?thesis
      using senior_session_refines [OF assms(2) senior_meets_peer [OF inv(1)]] by simp
  next
    case (SeniorServes E ubok mismatch u S)
    then show ?thesis
      using serve_refines assms(2) by simp
  next
    case (UpdateArrives E i u sent fromPeer st J)
    have u: "i < N" "u \<in> set (multicasts (effects (databases (seniorSession n) ! i)))" "N \<le> 2 ^ 16"
      using inv(1) UpdateArrives(3) by (auto simp: seniorInv_def)
    then have "databaseIndex u = of_nat i" "i < 2 ^ 16"
      using inv(1) by (auto simp: seniorInv_def tagged_def)
    note upd = update_refines [OF UpdateArrives(2) inv(2) this(2,1) UpdateArrives(4), unfolded inv(3), OF u(1)]
    show ?thesis
      unfolding UpdateArrives(1) using upd [OF u(1)] upd u(2)
      by (intro junior_session_refines [OF assms(2)]) (simp_all add: sysOf_fields)
  next
    case (BeaconDataArrives E beacon)
    show ?thesis
      unfolding BeaconDataArrives(1) using junior_beacon [OF BeaconDataArrives(2) inv(2), of beacon] inv(3)
      by (intro junior_moves_refines [OF assms(2)]) simp
  next
    case (JuniorPulses E J)
    show ?thesis
      unfolding JuniorPulses(1) using junior_Pulse [OF JuniorPulses(2) inv(2) JuniorPulses(3)] inv(3)
      by (intro junior_moves_refines [OF assms(2)]) simp
  next
    case (JuniorDatabasePulses E i J)
    show ?thesis
      unfolding JuniorDatabasePulses(1)
      using junior_databasePulse [OF JuniorDatabasePulses(2) inv(2) JuniorDatabasePulses(3,4)] inv(3)
      by (intro junior_moves_refines [OF assms(2)]) simp
  next
    case (JuniorMeetsPeer E pid info)
    show ?thesis
      unfolding JuniorMeetsPeer(1) using junior_meets_peer [of E pid info "juniorSession n" D Z] inv(2,3)
      by (intro junior_moves_refines [OF assms(2)]) simp
  next
    case (BackOrderArrives E ubok u)
    show ?thesis
    proof (cases "N = 0")
      case True
      then show ?thesis
        using inv assms(2) unfolding BackOrderArrives(1) by (simp add: net_inv_def ps_BackOrderResultReceived_def Let_def)
    next
      case False
      note rep = junior_reply [OF BackOrderArrives(2) inv(2), of "Some u" ubok "served n", unfolded inv(3)]
      show ?thesis
        unfolding BackOrderArrives(1) using rep [of 0] rep False BackOrderArrives(3)
        by (intro junior_session_refines [OF assms(2)]) (simp_all add: sysOf_fields)
    qed
  next
    case (BackOrderFails E ubok)
    show ?thesis
    proof (cases "N = 0")
      case True
      then show ?thesis
        using inv assms(2) unfolding BackOrderFails(1) by (simp add: net_inv_def ps_BackOrderResultReceived_def Let_def)
    next
      case False
      note rep = junior_reply [OF BackOrderFails(2) inv(2), of None ubok "served n", unfolded inv(3)]
      show ?thesis
        unfolding BackOrderFails(1) using rep [of 0] rep False
        by (intro junior_session_refines [OF assms(2)]) (simp_all add: sysOf_fields)
    qed
  qed
qed

lemma net_reach_refines:
  assumes "net_reach D Z n0 n" "net_inv N n0"
  shows "net_inv N n \<and> (\<forall>j < N. sys_reach (D j) Z (sysOf j n0) (sysOf j n))"
  using assms
proof (induction rule: net_reach.induct)
  case net_init
  then show ?case
    by (simp add: reach_init)
next
  case (net_more n n')
  then show ?case
    using net_refines [OF net_more(2)] by (auto intro: sys_reach_trans)
qed

section \<open>Start-up and the theorem\<close>

text \<open>
  A peer that has been attached to the server and told who the senior peer is; the
  network starts with two such peers.
\<close>

definition startedSession ::
  "('db, 'm) session_env \<Rightarrow> ZGPeerID \<Rightarrow> (nat \<Rightarrow> u64) \<Rightarrow> 'db list \<Rightarrow> ZGPeerID \<Rightarrow> ('db, 'm) ZGPeerSession" where
  "startedSession E pid maxLogSize dbs seniorPid =
     ps_SeniorPeerChanged seniorPid
       (snd (ps_AttachedToServer E B_NO_ERROR B_NO_ERROR (newZGPeerSession pid maxLogSize dbs)))"

definition net_start ::
  "('db, 'm) session_env \<Rightarrow> ('db, 'm) session_env \<Rightarrow> ZGPeerID \<Rightarrow> ZGPeerID \<Rightarrow> (nat \<Rightarrow> u64) \<Rightarrow> 'db list \<Rightarrow> 'db list \<Rightarrow>
   ('db, 'm) net" where
  "net_start ES EJ pidS pidJ maxLogSize dS dJ =
     \<lparr> seniorSession = startedSession ES pidS maxLogSize dS pidS,
       juniorSession = startedSession EJ pidJ maxLogSize dJ pidS,
       served = {}, histories = replicate (length dS) [] \<rparr>"

lemma reset_frame [simp]:
  "effects (ResetLocalDatabaseToDefaultState e s) = effects s"
  "updateLog (ResetLocalDatabaseToDefaultState e s) = updateLog s"
  "whichDatabase (ResetLocalDatabaseToDefaultState e s) = whichDatabase s"
  by (simp_all add: ResetLocalDatabaseToDefaultState_def split_beta)

lemma SeniorPeerChanged_frame [simp]:
  "databases (ps_SeniorPeerChanged pid p) = databases p" "networkIO (ps_SeniorPeerChanged pid p) = networkIO p"
  "seniorPeerID (ps_SeniorPeerChanged pid p) = pid"
  by (simp_all add: ps_SeniorPeerChanged_def ScheduleSetBeaconData_def Let_def)

definition attachedSession ::
  "ZGPeerID \<Rightarrow> (nat \<Rightarrow> u64) \<Rightarrow> 'db list \<Rightarrow> ('db, 'm) ZGPeerSession" where
  "attachedSession pid maxLogSize dbs =
     ScheduleSetBeaconData ((newZGPeerSession pid maxLogSize dbs) \<lparr> networkIO := Some (Some pid) \<rparr>)"

lemma started_databases:
  "j < length dbs \<Longrightarrow> databases (startedSession E pid maxLogSize dbs spid) ! j =
     ResetLocalDatabaseToDefaultState (masterFor E (attachedSession pid maxLogSize dbs) j)
       (newPZGDatabaseState (of_nat j) (maxLogSize j) (Some (dbs ! j)))"
  "length (databases (startedSession E pid maxLogSize dbs spid)) = length dbs"
  by (simp_all add: startedSession_def ps_AttachedToServer_def forAllDatabases_databases attachedSession_def
      ScheduleSetBeaconData_def newZGPeerSession_def)

lemma started_seniority: "ps_IAmTheSeniorPeer (startedSession E pid maxLogSize dbs spid) = (spid = pid)"
  by (simp add: startedSession_def ps_IAmTheSeniorPeer_def ps_AttachedToServer_def ScheduleSetBeaconData_def newZGPeerSession_def)

lemma fold_no_effects:
  assumes "\<And>i e s. effects (f i e s) = effects s" "set ks \<subseteq> {..<length (databases p)}"
  shows "sessionEffects (fold (\<lambda>i. forDatabase E (f i) i) ks p) = sessionEffects p"
  using assms(2)
proof (induction ks arbitrary: p)
  case (Cons k ks)
  have "sessionEffects (forDatabase E (f k) k p) = sessionEffects p"
    by (simp add: forDatabase_def storeDatabase_effects assms(1))
  then show ?case
    using Cons by simp
qed simp

lemma started_effects:
  "DatabaseEffect i x \<notin> set (sessionEffects (startedSession E pid maxLogSize dbs spid))"
proof -
  have "sessionEffects (snd (ps_AttachedToServer E B_NO_ERROR B_NO_ERROR (newZGPeerSession pid maxLogSize dbs))) = []"
    using fold_no_effects [of "\<lambda>_. ResetLocalDatabaseToDefaultState" "[0..<length dbs]" "attachedSession pid maxLogSize dbs" E]
    by (simp add: ps_AttachedToServer_def forAllDatabases_def attachedSession_def ScheduleSetBeaconData_def
        newZGPeerSession_def atLeast0LessThan)
  then show ?thesis
    by (simp add: startedSession_def ps_SeniorPeerChanged_def ScheduleSetBeaconData_def Let_def)
qed

lemma net_start_inv:
  assumes "pidS \<noteq> pidJ" "length dJ = length dS" "length dS \<le> 2 ^ 16"
  shows "net_inv (length dS) (net_start ES EJ pidS pidJ maxLogSize dS dJ)"
  using assms
  by (simp add: net_inv_def net_start_def seniorInv_def started_seniority started_databases started_effects tagged_def
      newPZGDatabaseState_def ordInv_def)

lemma sysOf_start:
  assumes "j < length dS" "length dJ = length dS"
  shows "sysOf j (net_start ES EJ pidS pidJ maxLogSize dS dJ) =
    sys_init (masterFor ES (attachedSession pidS maxLogSize dS) j) (masterFor EJ (attachedSession pidJ maxLogSize dJ) j)
      (of_nat j) (maxLogSize j) (dS ! j) (dJ ! j)"
  using assms by (simp add: sysOf_def net_start_def started_databases sys_init_def)

text \<open>
  C5: replication holds for every database of two whole peers.  However the network loses,
  repeats and reorders multicasts, beacons and back-order replies between the two sessions,
  and whatever requests arrive, a junior database whose state ID is the senior's has the
  senior's contents and checksum.
\<close>

theorem sessions_agree:
  assumes "\<And>i. replicated_database (D i) (good i) (same i)" "zlib_lossless Z"
    and "goodEnv D Z ES" "goodEnv D Z EJ" "pidS \<noteq> pidJ" "length dJ = length dS" "length dS \<le> 2 ^ 16"
    and "\<And>i. i < length dS \<Longrightarrow> good i (dS ! i) \<and> good i (dJ ! i)"
    and "net_reach D Z (net_start ES EJ pidS pidJ maxLogSize dS dJ) n"
    and "j < length dS"
    and "localDatabaseStateID (databases (juniorSession n) ! j) = localDatabaseStateID (databases (seniorSession n) ! j)"
  shows "\<exists>d t. dbObject (databases (seniorSession n) ! j) = Some d \<and> dbObject (databases (juniorSession n) ! j) = Some t \<and>
     same j d t \<and> dbChecksum (databases (seniorSession n) ! j) = dbChecksum (databases (juniorSession n) ! j)"
proof -
  have "sys_reach (D j) Z (sysOf j (net_start ES EJ pidS pidJ maxLogSize dS dJ)) (sysOf j n)"
    using net_reach_refines [OF assms(9) net_start_inv [OF assms(5-7)]] assms(10) by blast
  then have "sys_inv (D j) Z (good j) (same j) (SetToDefaultState (D j) (dS ! j)) (sysOf j n)"
    unfolding sysOf_start [OF assms(10,6)]
    by (rule replicated_database.sys_inv_reach [OF assms(1) _ assms(2)])
      (use assms(3,4,8,10) in \<open>simp_all add: goodEnv_def\<close>)
  from replicated_database.sys_agree [OF assms(1) this] assms(11) show ?thesis
    by (simp add: sysOf_fields)
qed

section \<open>Pulses, messages and beacons\<close>

lemma multicasts_exists: "u \<in> set (multicasts es) \<Longrightarrow> \<exists>st. MulticastUpdate u st \<in> set es"
  by (induction es rule: multicasts.induct) auto

lemma multicast_appends: "\<exists>xs. effects (multicastIfUnsent e u s) = effects s @ xs"
  by (simp add: multicastIfUnsent_def Let_def)

lemma fold_multicast_appends: "\<exists>xs. effects (fold (multicastIfUnsent e) us s) = effects s @ xs"
proof (induction us arbitrary: s)
  case (Cons u us)
  obtain xs ys where "effects (fold (multicastIfUnsent e) us (multicastIfUnsent e u s)) = effects (multicastIfUnsent e u s) @ xs"
    "effects (multicastIfUnsent e u s) = effects s @ ys"
    using Cons multicast_appends by blast
  then show ?case
    by simp
qed simp

lemma senior_rescan_effects:
  assumes "IAmTheSeniorPeer e" "ordInv updateID (updateLog s)"
  shows "\<exists>s' xs. RescanUpdateLogIfNecessary e s = Some s' \<and> effects s' = effects s @ xs \<and>
    (rescanLogPending s \<longrightarrow> multicasts xs = filter (\<lambda>u. firstUnsentUpdateID s \<le> updateID u) (updateLog s))"
proof (cases "rescanLogPending s \<and> updateLog s \<noteq> []")
  case True
  define t where "t = s \<lparr> rescanLogPending := False \<rparr>"
  have t: "updateLog t = updateLog s" "effects t = effects s" "firstUnsentUpdateID t = firstUnsentUpdateID s"
    by (simp_all add: t_def)
  obtain xs where xs: "effects (fold (multicastIfUnsent e) (updateLog t) t) = effects t @ xs"
    using fold_multicast_appends by blast
  have "RescanUpdateLog e t = Some (trimSeniorLog e (fold (multicastIfUnsent e) (updateLog t) t))"
    using assms True seniorScan_eq_fold [of "updateLog t" "length (updateLog t) - 1" e t] t(1) by (simp add: RescanUpdateLog_def)
  then show ?thesis
    using True xs fold_multicast_effects [of "updateLog t" e t] assms(2) t
    by (auto simp: RescanUpdateLogIfNecessary_def simp flip: t_def)
next
  case False
  then show ?thesis
    using assms(1) by (auto simp: RescanUpdateLogIfNecessary_def RescanUpdateLog_def)
qed

lemma senior_rescanAll_effects:
  assumes "ps_IAmTheSeniorPeer p" "distinct ks" "set ks \<subseteq> {..<length (databases p)}"
    and "\<forall>i \<in> set ks. ordInv updateID (updateLog (databases p ! i))"
  shows "\<exists>p' calls. rescanAll E ks p = Some p' \<and> sessionEffects p' = sessionEffects p @ calls \<and>
    (\<forall>c \<in> set calls. \<exists>i x. c = DatabaseEffect i x) \<and>
    (\<forall>i \<in> set ks. rescanLogPending (databases p ! i) \<longrightarrow> (\<forall>u \<in> set (updateLog (databases p ! i)).
       firstUnsentUpdateID (databases p ! i) \<le> updateID u \<longrightarrow> (\<exists>st. DatabaseEffect i (MulticastUpdate u st) \<in> set calls))) \<and>
    ps_IAmTheSeniorPeer p' \<and> networkIO p' = networkIO p"
  using assms
proof (induction ks arbitrary: p)
  case (Cons k ks)
  obtain s xs where s: "RescanUpdateLogIfNecessary (masterFor E p k) (databases p ! k) = Some s"
      "effects s = effects (databases p ! k) @ xs"
      "rescanLogPending (databases p ! k) \<Longrightarrow>
       multicasts xs = filter (\<lambda>u. firstUnsentUpdateID (databases p ! k) \<le> updateID u) (updateLog (databases p ! k))"
    using senior_rescan_effects [of "masterFor E p k" "databases p ! k"] Cons.prems by auto
  let ?q = "storeDatabase k s p"
  have others: "databases ?q ! i = databases p ! i" if "i \<in> set ks" for i
    using Cons.prems(2) that by (cases "i = k") auto
  obtain p' calls where p': "rescanAll E ks ?q = Some p'" "sessionEffects p' = sessionEffects ?q @ calls"
      "\<forall>c \<in> set calls. \<exists>i x. c = DatabaseEffect i x"
      "\<forall>i \<in> set ks. rescanLogPending (databases ?q ! i) \<longrightarrow> (\<forall>u \<in> set (updateLog (databases ?q ! i)).
         firstUnsentUpdateID (databases ?q ! i) \<le> updateID u \<longrightarrow> (\<exists>st. DatabaseEffect i (MulticastUpdate u st) \<in> set calls))"
      "ps_IAmTheSeniorPeer p'" "networkIO p' = networkIO p"
    using Cons.IH [of ?q] Cons.prems others by auto
  have "\<exists>st. DatabaseEffect k (MulticastUpdate u st) \<in> set (map (DatabaseEffect k) xs)"
    if "rescanLogPending (databases p ! k)" "u \<in> set (updateLog (databases p ! k))"
      "firstUnsentUpdateID (databases p ! k) \<le> updateID u" for u
    using multicasts_exists [of u xs] s(3) that by auto
  then have "rescanAll E (k # ks) p = Some p' \<and> sessionEffects p' = sessionEffects p @ (map (DatabaseEffect k) xs @ calls) \<and>
    (\<forall>c \<in> set (map (DatabaseEffect k) xs @ calls). \<exists>i x. c = DatabaseEffect i x) \<and>
    (\<forall>i \<in> set (k # ks). rescanLogPending (databases p ! i) \<longrightarrow> (\<forall>u \<in> set (updateLog (databases p ! i)).
       firstUnsentUpdateID (databases p ! i) \<le> updateID u \<longrightarrow>
       (\<exists>st. DatabaseEffect i (MulticastUpdate u st) \<in> set (map (DatabaseEffect k) xs @ calls))))"
    using p' s(1,2) others by (auto simp: databasePulse_def storeDatabase_effects) blast+
  then show ?case
    using p'(5,6) by blast
qed simp

text \<open>
  C6: a senior's pulse sends the updates before the beacon that announces them.  It
  returns, hands every update of a changed log that was not sent before to the multicast,
  and only then sets a beacon, which carries the state of the databases at that moment.
\<close>

theorem pulse_updates_before_beacon:
  assumes "setBeaconDataPending p" "ps_IAmTheSeniorPeer p"
    and "\<forall>i < length (databases p). ordInv updateID (updateLog (databases p ! i))"
  shows "\<exists>p' calls st. ps_Pulse E p = Some p' \<and>
    sessionEffects p' = sessionEffects p @ calls @ [SetBeaconData (Some (map GetDatabaseStateInfo (databases p'))) st] \<and>
    (\<forall>i < length (databases p). rescanLogPending (databases p ! i) \<longrightarrow> (\<forall>u \<in> set (updateLog (databases p ! i)).
       firstUnsentUpdateID (databases p ! i) \<le> updateID u \<longrightarrow> (\<exists>st'. DatabaseEffect i (MulticastUpdate u st') \<in> set calls)))"
proof -
  let ?p = "p \<lparr> setBeaconDataPending := False \<rparr>"
  obtain q calls where q: "rescanAll E [0..<length (databases p)] ?p = Some q" "sessionEffects q = sessionEffects p @ calls"
      "\<forall>i < length (databases p). rescanLogPending (databases p ! i) \<longrightarrow> (\<forall>u \<in> set (updateLog (databases p ! i)).
         firstUnsentUpdateID (databases p ! i) \<le> updateID u \<longrightarrow> (\<exists>st'. DatabaseEffect i (MulticastUpdate u st') \<in> set calls))"
      "ps_IAmTheSeniorPeer q" "networkIO q = networkIO p"
    using senior_rescanAll_effects [of ?p "[0..<length (databases p)]" E] assms by (auto simp: atLeast0LessThan)
  have "networkIO p \<noteq> None"
    using assms(2) by (auto simp: ps_IAmTheSeniorPeer_def split: option.splits)
  then have "ps_Pulse E p = Some (q \<lparr> sessionEffects := sessionEffects q @
      [SetBeaconData (Some (GetNewSeniorBeaconData q)) (SetBeaconDataResult E (sessionEffects q))] \<rparr>)"
    using assms(1) q by (simp add: ps_Pulse_def Let_def)
  then show ?thesis
    using q by (auto simp: GetNewSeniorBeaconData_def)
qed

lemma handle_changes_one:
  "databases (snd (ps_HandleDatabaseUpdateRequest E fromPeer msg b p)) = databases p \<or>
   b = ps_IAmTheSeniorPeer p \<and> (b \<or> fromPeer = seniorPeerID p) \<and>
   (\<exists>i s. i < length (databases p) \<and>
      databases (snd (ps_HandleDatabaseUpdateRequest E fromPeer msg b p)) = (databases p)[i := s])"
proof -
  define dbUp where "dbUp = (if what msg = PZG_PEER_COMMAND_UPDATE_JUNIOR_DATABASE then databaseUpdate msg else None)"
  define i where "i = unat (case dbUp of Some u \<Rightarrow> ucast (databaseIndex u) | None \<Rightarrow> databaseID msg)"
  define r where "r = HandleDatabaseUpdateRequest (masterFor E p i) fromPeer msg dbUp (databases p ! i)"
  have "ps_HandleDatabaseUpdateRequest E fromPeer msg b p =
    (if b \<noteq> ps_IAmTheSeniorPeer p then (B_BAD_DATA, p)
     else if \<not> b \<and> fromPeer \<noteq> seniorPeerID p then (B_BAD_DATA, p)
     else if what msg = PZG_PEER_COMMAND_UPDATE_JUNIOR_DATABASE \<and> databaseUpdate msg = None then (B_BAD_DATA, p)
     else if i \<ge> length (databases p) then (B_BAD_ARGUMENT, p)
     else (fst r, storeDatabase i (snd r) p))"
    unfolding ps_HandleDatabaseUpdateRequest_def Let_def r_def i_def dbUp_def split_beta by (rule refl)
  then show ?thesis
    by (auto simp: not_le)
qed

text \<open>
  C7: only the senior changes a junior.  When a message from a peer changes a database, it
  is a junior update exactly when the receiver is a junior, a junior has it from the
  senior, and it changes one database of the session.
\<close>

theorem updates_come_from_senior:
  assumes "databases (PrivateMessageReceivedFromPeer E fromPeer msg p) \<noteq> databases p"
  shows "(what msg = PZG_PEER_COMMAND_UPDATE_JUNIOR_DATABASE \<longleftrightarrow> \<not> ps_IAmTheSeniorPeer p) \<and>
    (ps_IAmTheSeniorPeer p \<or> fromPeer = seniorPeerID p) \<and>
    (\<exists>i s. i < length (databases p) \<and>
       databases (PrivateMessageReceivedFromPeer E fromPeer msg p) = (databases p)[i := s])"
proof -
  have cmd: "what msg = PZG_PEER_COMMAND_RESET_SENIOR_DATABASE \<or> what msg = PZG_PEER_COMMAND_REPLACE_SENIOR_DATABASE \<or>
      what msg = PZG_PEER_COMMAND_UPDATE_SENIOR_DATABASE \<or> what msg = PZG_PEER_COMMAND_UPDATE_JUNIOR_DATABASE"
    using assms by (rule contrapos_np) (simp add: PrivateMessageReceivedFromPeer_def split: option.split)
  have "PrivateMessageReceivedFromPeer E fromPeer msg p =
      snd (ps_HandleDatabaseUpdateRequest E fromPeer msg (what msg \<noteq> PZG_PEER_COMMAND_UPDATE_JUNIOR_DATABASE) p)"
    unfolding PrivateMessageReceivedFromPeer_def by (rule if_P [OF cmd])
  with handle_changes_one [of E fromPeer msg "what msg \<noteq> PZG_PEER_COMMAND_UPDATE_JUNIOR_DATABASE" p] assms
  have r: "databases (PrivateMessageReceivedFromPeer E fromPeer msg p) = databases p \<or>
      (what msg \<noteq> PZG_PEER_COMMAND_UPDATE_JUNIOR_DATABASE) = ps_IAmTheSeniorPeer p \<and>
      (what msg \<noteq> PZG_PEER_COMMAND_UPDATE_JUNIOR_DATABASE \<or> fromPeer = seniorPeerID p) \<and>
      (\<exists>i s. i < length (databases p) \<and>
         databases (PrivateMessageReceivedFromPeer E fromPeer msg p) = (databases p)[i := s])"
    by metis
  then show ?thesis
    using assms by blast
qed

text \<open>
  A beacon tells a junior where the senior stands.  With as many databases on both
  sides, each database of the junior learns the senior's state ID and oldest logged update
  and keeps its own contents; a beacon with another number of databases changes nothing.
\<close>

theorem beacon_informs_junior:
  "(length (databases S) = length (databases J) \<longrightarrow> (\<forall>j < length (databases J).
      (let s = databases S ! j; t = databases (BeaconDataChanged E (Some (GetNewSeniorBeaconData S)) J) ! j in
       seniorDatabaseStateID t = localDatabaseStateID s \<and>
       seniorOldestIDInLog t = (if updateLog s = [] then - 1 else updateID (hd (updateLog s))) \<and>
       dbObject t = dbObject (databases J ! j) \<and> localDatabaseStateID t = localDatabaseStateID (databases J ! j)))) \<and>
   (length (databases S) \<noteq> length (databases J) \<longrightarrow> BeaconDataChanged E (Some (GetNewSeniorBeaconData S)) J = J)"
  by (auto simp: BeaconDataChanged_def GetNewSeniorBeaconData_def forAllDatabases_databases Let_def
      SeniorDatabaseStateInfoChanged_def GetDatabaseStateInfo_def)

end
