(* ===== verification/ZG_Witnesses.thy ===== *)
theory ZG_Witnesses
  imports ZG_SessionReplication Choir_MusicSheet
begin

text \<open>
  Concrete instances at which the replication properties apply: a one-byte counter as the
  replicated database, a compressor that stores the byte, two peers, and a run in which the
  senior adds to its counter, multicasts the update, and the junior replays it.
\<close>

section \<open>A concrete database and two peers\<close>

definition counterDB :: "(u8, u8) IDatabaseObject" where
  "counterDB = \<lparr> SetToDefaultState = (\<lambda>d. 0), SetFromArchive = (\<lambda>m d. (B_NO_ERROR, m)), SaveToArchive = Inr,
     SeniorUpdate = (\<lambda>m d. if m = 0 then (None, d) else (Some m, d + m)),
     JuniorUpdate = (\<lambda>m d. (B_NO_ERROR, d + m)),
     GetCurrentChecksum = ucast, db_CalculateChecksum = ucast \<rparr>"

definition byteZlib :: "u8 zlib" where
  "byteZlib = \<lparr> DeflateMessage = (\<lambda>m. Some [m]), InflateMessage = (\<lambda>b. if b = [] then None else Some (hd b)) \<rparr>"

definition demoMaster :: "bool \<Rightarrow> (u8, u8) master" where
  "demoMaster isSenior = \<lparr> dbOps = counterDB, zlibOps = byteZlib, IAmTheSeniorPeer = isSenior, IAmFullyAttached = True,
     GetSeniorPeerID = ZGPeerID 1 1, GetLocalPeerID = ZGPeerID 1 (if isSenior then 1 else 2),
     toNetworkTimeOffset = 0, startRunTime = 1000, endRunTime = 3000,
     SendDatabaseUpdateViaMulticast = (\<lambda>es u. B_NO_ERROR), SendBackOrderRequest = (\<lambda>es k b. B_NO_ERROR) \<rparr>"

interpretation counter: replicated_database counterDB "\<lambda>_. True" "(=)"
  by unfold_locales (auto simp: counterDB_def split: if_splits)

lemma byteZlib_lossless: "zlib_lossless byteZlib"
  by (simp add: zlib_lossless_def byteZlib_def)

lemma demo_envs: "isSeniorEnv counterDB byteZlib (demoMaster True)" "isJuniorEnv counterDB byteZlib (demoMaster False)"
  "dbOps (demoMaster b) = counterDB" "zlibOps (demoMaster b) = byteZlib"
  by (simp_all add: isSeniorEnv_def isJuniorEnv_def demoMaster_def)

definition addMessage :: "u8 \<Rightarrow> u8 peer_message" where
  "addMessage n = \<lparr> what = PZG_PEER_COMMAND_UPDATE_SENIOR_DATABASE, userMessage = Some n, databaseID = 0, databaseUpdate = None, messageText = None \<rparr>"

section \<open>A run\<close>

definition y0 :: "(u8, u8) sys" where
  "y0 = sys_init (demoMaster True) (demoMaster False) 0 10 7 9"

definition r1 where "r1 = HandleDatabaseUpdateRequest (demoMaster True) (ZGPeerID 1 2) (addMessage 5) None (senior y0)"

definition y1 :: "(u8, u8) sys" where
  "y1 = y0 \<lparr> senior := snd r1, history := recordUpdate (snd r1) (fst r1) (history y0) \<rparr>"

definition y2 :: "(u8, u8) sys" where
  "y2 = y1 \<lparr> senior := the (RescanUpdateLog (demoMaster True) (senior y1)) \<rparr>"

definition u1 where "u1 = hd (multicasts (effects (senior y2)))"

definition r3 where
  "r3 = HandleDatabaseUpdateRequest (demoMaster False) (ZGPeerID 1 1) (juniorUpdateMessage (onWire byteZlib u1))
     (Some (onWire byteZlib u1)) (junior y2)"

definition y3 :: "(u8, u8) sys" where
  "y3 = y2 \<lparr> junior := snd r3 \<rparr>"

definition y4 :: "(u8, u8) sys" where
  "y4 = y3 \<lparr> junior := SeniorDatabaseStateInfoChanged (demoMaster False) (GetDatabaseStateInfo (senior y3)) (junior y3) \<rparr>"

definition y5 :: "(u8, u8) sys" where
  "y5 = y4 \<lparr> junior := the (RescanUpdateLog (demoMaster False) (junior y4)) \<rparr>"

lemma senior_run: "senior y5 = senior y2" "senior y4 = senior y2" "senior y3 = senior y2"
  by (simp_all add: y5_def y4_def y3_def)

lemma demo_step1: "sys_step counterDB byteZlib y0 y1"
  unfolding y1_def
  by (rule SeniorRequest [OF demo_envs(1), where msg = "addMessage 5" and opt = None and fromPeer = "ZGPeerID 1 2"])
    (simp_all add: seniorCommand_def addMessage_def peer_command_defs y0_def sys_init_def,
     simp add: r1_def addMessage_def peer_command_defs y0_def sys_init_def)

lemma demo_step2: "sys_step counterDB byteZlib y1 y2"
proof -
  have "RescanUpdateLog (demoMaster True) (senior y1) \<noteq> None"
    by code_simp
  then show ?thesis
    unfolding y2_def by (intro SeniorRescan [OF demo_envs(1)]) auto
qed

lemma demo_step3: "sys_step counterDB byteZlib y2 y3"
proof -
  have "multicasts (effects (senior y2)) \<noteq> []"
    by code_simp
  then have "u1 \<in> set (multicasts (effects (senior y2)))"
    by (simp add: u1_def)
  then show ?thesis
    unfolding y3_def
    by (rule MulticastArrives [OF demo_envs(2), where fromPeer = "ZGPeerID 1 1" and st = "fst r3"]) (simp add: r3_def)
qed

lemma demo_step4: "sys_step counterDB byteZlib y3 y4"
  unfolding y4_def by (rule BeaconArrives [OF demo_envs(2)])

lemma demo_step5: "sys_step counterDB byteZlib y4 y5"
proof -
  have "RescanUpdateLog (demoMaster False) (junior y4) \<noteq> None"
    by code_simp
  then show ?thesis
    unfolding y5_def by (intro JuniorRescan [OF demo_envs(2)]) auto
qed

lemma demo_reach4: "sys_reach counterDB byteZlib y0 y4"
  by (intro reach_step [OF _ demo_step4] reach_step [OF _ demo_step3] reach_step [OF _ demo_step2]
      reach_step [OF _ demo_step1] reach_init)

lemma demo_reach5: "sys_reach counterDB byteZlib y0 y5"
  by (rule reach_step [OF demo_reach4 demo_step5])

lemma demo_inv: "sys_inv counterDB byteZlib (\<lambda>_. True) (=) (SetToDefaultState counterDB 7) y4"
  by (rule counter.sys_inv_reach [OF demo_reach4 [unfolded y0_def] byteZlib_lossless])
    (simp_all add: demo_envs)

section \<open>Witnesses\<close>

theorem replication_safety_witness:
  "localDatabaseStateID (junior y5) = 1 \<and>
   (\<exists>d t. dbObject (senior y5) = Some d \<and> dbObject (junior y5) = Some t \<and> d = t \<and>
     dbChecksum (senior y5) = dbChecksum (junior y5))"
proof -
  have "localDatabaseStateID (senior y2) = 1"
    by code_simp
  moreover have "localDatabaseStateID (junior y5) = 1"
    by code_simp
  ultimately have "localDatabaseStateID (junior y5) = 1" "localDatabaseStateID (junior y5) = localDatabaseStateID (senior y5)"
    by (simp_all add: senior_run)
  then show ?thesis
    using replication_safety [OF counter.replicated_database_axioms byteZlib_lossless TrueI TrueI
        demo_envs(3) demo_envs(3) demo_reach5 [unfolded y0_def]] by simp
qed

theorem replication_history_witness:
  "\<exists>k t. k \<le> length (history y5) \<and> localDatabaseStateID (junior y5) = of_nat k \<and>
     dbObject (junior y5) = Some t \<and> dbAt (SetToDefaultState counterDB 7) (history y5) k = t \<and>
     dbChecksum (junior y5) = GetCurrentChecksum counterDB t"
  by (rule replication_history [OF counter.replicated_database_axioms byteZlib_lossless TrueI TrueI
        demo_envs(3) demo_envs(3) demo_reach5 [unfolded y0_def]])

theorem junior_catches_up_witness:
  "\<exists>s' t. RescanUpdateLog (demoMaster False) (junior y4) = Some s' \<and> localDatabaseStateID s' = of_nat 1 \<and>
     dbObject s' = Some t \<and> dbAt (SetToDefaultState counterDB 7) (history y4) 1 = t \<and>
     dbChecksum s' = GetCurrentChecksum counterDB t"
proof (rule junior_catches_up [OF counter.replicated_database_axioms _ byteZlib_lossless demo_envs(2), where k = 0])
  have "localDatabaseStateID (junior y4) = 0" and len: "length (history y4) = 1"
    by code_simp+
  obtain k where k: "holdsState counterDB (\<lambda>_. True) (=) (SetToDefaultState counterDB 7) (history y4) k (junior y4)"
    using demo_inv by (auto simp: sys_inv_def)
  then have "(of_nat k :: u64) = of_nat 0" "k \<le> 1"
    using \<open>localDatabaseStateID (junior y4) = 0\<close> len by (simp_all add: holdsState_def)
  then have "k = 0"
    using of_nat_u64_inject [of k 0] by auto
  with k show "holdsState counterDB (\<lambda>_. True) (=) (SetToDefaultState counterDB 7) (history y4) 0 (junior y4)"
    by simp
  show "1 \<le> length (history y4)"
    using len by simp
  have "(1 :: u64) \<in> updateID ` set (updateLog (junior y4))"
    by code_simp
  then have one: "(of_nat 1 :: u64) \<in> updateID ` set (updateLog (junior y4))"
    by (simp only: of_nat_1)
  show "\<forall>j>0. j \<le> 1 \<longrightarrow> of_nat j \<in> updateID ` set (updateLog (junior y4))"
  proof (intro allI impI)
    fix j :: nat
    assume "0 < j" "j \<le> 1"
    then have "j = 1"
      by linarith
    then show "of_nat j \<in> updateID ` set (updateLog (junior y4))"
      using one by (simp only:)
  qed
  show "GetTargetDatabaseStateID (junior y4) = of_nat 1" "seniorDatabaseStateReceived (junior y4)"
    "\<not> IsAwaitingFullDatabaseResendReply (demoMaster False) (junior y4)"
    by code_simp+
qed (use demo_inv in \<open>auto simp: sys_inv_def\<close>)

definition askingJunior :: "(u8, u8) PZGDatabaseState" where
  "askingJunior = snd (RequestFullDatabaseResendFromSeniorPeer (demoMaster False) False (junior y4))"

definition fullReply :: "u8 PZGDatabaseUpdate" where
  "fullReply = the (GetDatabaseUpdateByID (demoMaster True) (- 1) (senior y4))"

theorem full_resend_resyncs_witness:
  "localDatabaseStateID (BackOrderResultReceived (demoMaster False) (fullUpdateKey (demoMaster False) askingJunior)
      (Some (onWire byteZlib fullReply)) askingJunior) = localDatabaseStateID (senior y4)"
proof -
  have reply: "GetDatabaseUpdateByID (demoMaster True) (- 1) (senior y4) = Some fullReply"
  proof -
    have "GetDatabaseUpdateByID (demoMaster True) (- 1) (senior y4) \<noteq> None"
      by code_simp
    then show ?thesis
      by (auto simp: fullReply_def)
  qed
  have same: "sameData (junior y4) askingJunior"
    by (simp add: askingJunior_def sameData_def)
  obtain k where "holdsState counterDB (\<lambda>_. True) (=) (SetToDefaultState counterDB 7) (history y4) k (junior y4)"
    using demo_inv by (auto simp: sys_inv_def)
  then have hold: "holdsState counterDB (\<lambda>_. True) (=) (SetToDefaultState counterDB 7) (history y4) k askingJunior"
    using holdsState_sameData [OF same] by simp
  have inv: "history_ok counterDB byteZlib (\<lambda>_. True) (=) (SetToDefaultState counterDB 7) (history y4)"
    "holdsState counterDB (\<lambda>_. True) (=) (SetToDefaultState counterDB 7) (history y4) (length (history y4)) (senior y4)"
    using demo_inv by (simp_all add: sys_inv_def)
  have key: "fullUpdateKey (demoMaster False) askingJunior \<in> set (backorders askingJunior)"
    by code_simp
  from full_resend_resyncs [OF counter.replicated_database_axioms inv(1) byteZlib_lossless demo_envs(1) inv(2)
      reply demo_envs(2) hold key refl]
  show ?thesis
    by simp
qed

theorem senior_request_tallies_witness:
  "logInv byteZlib (snd (HandleDatabaseUpdateRequest (demoMaster True) (ZGPeerID 1 2) (addMessage 6) None (senior y1))) \<and>
   updateID ` set (updateLog (snd (HandleDatabaseUpdateRequest (demoMaster True) (ZGPeerID 1 2) (addMessage 6) None (senior y1)))) \<subseteq> {..<3}"
proof -
  have "logInv (zlibOps (demoMaster True)) (senior y1)"
    "\<forall>x \<in> set (updateLog (senior y1)). updateID x < localDatabaseStateID (senior y1) + 1"
    "what (addMessage 6) \<noteq> PZG_PEER_COMMAND_UPDATE_JUNIOR_DATABASE"
    by code_simp+
  note tallies = senior_request_tallies [OF this refl, of "ZGPeerID 1 2" None]
  have "localDatabaseStateID (snd (HandleDatabaseUpdateRequest (demoMaster True) (ZGPeerID 1 2) (addMessage 6) None (senior y1))) = 2"
    by code_simp
  then show ?thesis
    using tallies by (auto simp: demo_envs)
qed

theorem duplicate_update_overcounts_witness:
  "totalPayloadBytesInLog (snd (AddDatabaseUpdateToUpdateLog (demoMaster True) (Some u1) (senior y1))) =
   logBytes byteZlib (updateLog (snd (AddDatabaseUpdateToUpdateLog (demoMaster True) (Some u1) (senior y1)))) + 1"
proof -
  have "logInv (zlibOps (demoMaster True)) (senior y1)" "logGet (updateID u1) (updateLog (senior y1)) = Some u1"
    and "payloadBytes byteZlib u1 = 1"
    by code_simp+
  from duplicate_update_overcounts [OF this(1,2) refl] this(3) show ?thesis
    by (simp add: demo_envs)
qed

theorem senior_rescan_multicasts_witness:
  "\<exists>s'. RescanUpdateLog (demoMaster True) (senior y1) = Some s' \<and> multicasts (effects s') = [u1]"
proof -
  have "IAmTheSeniorPeer (demoMaster True)" "ordInv updateID (updateLog (senior y1))"
    by code_simp+
  moreover have "multicasts (effects (senior y1)) @
      filter (\<lambda>u. firstUnsentUpdateID (senior y1) \<le> updateID u) (updateLog (senior y1)) = [u1]"
    by code_simp
  ultimately show ?thesis
    using senior_rescan_multicasts by metis
qed

definition crowdedSenior :: "(u8, u8) PZGDatabaseState" where
  "crowdedSenior = (snd (HandleDatabaseUpdateRequest (demoMaster True) (ZGPeerID 1 2) (addMessage 6) None (senior y1)))
     \<lparr> maxPayloadBytesInLog := 1 \<rparr>"

theorem senior_rescan_trims_witness:
  "\<exists>s' n. RescanUpdateLog (demoMaster True) crowdedSenior = Some s' \<and> updateLog s' = drop n (updateLog crowdedSenior) \<and>
     updateLog s' \<noteq> [] \<and> (logBytes byteZlib (updateLog s') \<le> 1 \<or> length (updateLog s') \<le> 1)"
proof -
  have "IAmTheSeniorPeer (demoMaster True)" "logInv (zlibOps (demoMaster True)) crowdedSenior"
    "updateLog crowdedSenior \<noteq> []" "maxPayloadBytesInLog crowdedSenior = 1"
    by code_simp+
  from senior_rescan_trims [OF this(1,2)] this(3,4) show ?thesis
    by (auto simp: demo_envs)
qed

theorem rescan_returns_witness: "\<exists>s'. RescanUpdateLog (demoMaster False) (junior y4) = Some s'"
proof -
  have "GetTargetDatabaseStateID (junior y4) \<noteq> - 1"
    by code_simp
  then show ?thesis
    by (rule rescan_returns)
qed

definition misledJunior :: "(u8, u8) PZGDatabaseState" where
  "misledJunior = (junior y0) \<lparr> seniorDatabaseStateReceived := True, localDatabaseStateID := 1,
     seniorDatabaseStateID := - 1, seniorOldestIDInLog := 1 \<rparr>"

theorem rescan_hangs_on_max_state_witness: "RescanUpdateLog (demoMaster False) misledJunior = None"
proof (rule rescan_hangs_on_max_state)
  show "\<not> IAmTheSeniorPeer (demoMaster False)" "IsValid (GetSeniorPeerID (demoMaster False))"
    "seniorDatabaseStateReceived misledJunior" "\<not> IsAwaitingFullDatabaseResendReply (demoMaster False) misledJunior"
    "localDatabaseStateID misledJunior = 1" "updateLog misledJunior = []"
    "seniorDatabaseStateID misledJunior = - 1" "seniorOldestIDInLog misledJunior = 1"
    by code_simp+
  show "SendBackOrderRequest (demoMaster False) es k b = B_NO_ERROR" for es k b
    by (simp add: demoMaster_def)
qed

definition laggingJunior :: "(u8, u8) PZGDatabaseState" where
  "laggingJunior = (junior y0) \<lparr> seniorDatabaseStateReceived := True, localDatabaseStateID := 1,
     seniorDatabaseStateID := 3, seniorOldestIDInLog := 1 \<rparr>"

theorem junior_backorders_missing_witness:
  "\<exists>r s'. RescanUpdateLog (demoMaster False) laggingJunior = Some s' \<and> s' = trimJuniorLog (demoMaster False) r \<and>
     distinct (backorders s') \<and> dbObject s' = dbObject laggingJunior \<and>
     localDatabaseStateID s' = localDatabaseStateID laggingJunior \<and>
     (allOnOrder (demoMaster False) (localDatabaseStateID laggingJunior + 1) (GetTargetDatabaseStateID laggingJunior) r \<or>
      fullRequested (demoMaster False) r)"
  by (rule junior_backorders_missing; code_simp)

theorem failed_request_rolls_back_witness:
  "updateLog (snd (HandleDatabaseUpdateRequest (demoMaster True) (ZGPeerID 1 2) (addMessage 0) None (senior y1))) =
   updateLog (senior y1)"
proof -
  have "logInv (zlibOps (demoMaster True)) (senior y1)"
    "\<forall>x \<in> set (updateLog (senior y1)). updateID x < localDatabaseStateID (senior y1) + 1"
    "what (addMessage 0) \<noteq> PZG_PEER_COMMAND_UPDATE_JUNIOR_DATABASE"
    "IsError (fst (HandleDatabaseUpdateRequest (demoMaster True) (ZGPeerID 1 2) (addMessage 0) None (senior y1)))"
    by code_simp+
  from failed_request_rolls_back [OF this(1-3) _ this(4), of "ZGPeerID 1 2" None] show ?thesis
    by simp
qed

theorem junior_refuses_mismatch_witness:
  "JuniorExecuteDatabaseUpdate (demoMaster False) u1 laggingJunior = (B_BAD_OBJECT, laggingJunior)"
proof -
  have "updateID u1 \<noteq> localDatabaseStateID laggingJunior + 1 \<or> preUpdateDBChecksum u1 \<noteq> dbChecksum laggingJunior"
    by code_simp
  then show ?thesis
    by (rule junior_refuses_mismatch)
qed

section \<open>Sessions\<close>

definition demoEnv :: "bool \<Rightarrow> (u8, u8) session_env" where
  "demoEnv isSenior = \<lparr> databaseEnv = (\<lambda>_. demoMaster isSenior), SendUnicastResult = (\<lambda>_ _ _. B_NO_ERROR),
     SetBeaconDataResult = (\<lambda>_. B_NO_ERROR) \<rparr>"

definition n0 :: "(u8, u8) net" where
  "n0 = net_start (demoEnv True) (demoEnv False) (ZGPeerID 1 1) (ZGPeerID 1 2) (\<lambda>_. 10) [7, 8] [9, 9]"

definition addTo :: "u32 \<Rightarrow> u8 \<Rightarrow> u8 peer_message" where
  "addTo db n = \<lparr> what = PZG_PEER_COMMAND_UPDATE_SENIOR_DATABASE, userMessage = Some n, databaseID = db,
     databaseUpdate = None, messageText = None \<rparr>"

definition attachedSenior :: "(u8, u8) ZGPeerSession" where
  "attachedSenior = ps_PeerHasComeOnline (demoEnv True) (ZGPeerID 1 2) None (seniorSession n0)"

definition busySenior :: "(u8, u8) ZGPeerSession" where
  "busySenior = PrivateMessageReceivedFromPeer (demoEnv True) (ZGPeerID 1 2) (addTo 1 5) attachedSenior"

theorem sessions_agree_witness:
  "\<exists>d t. dbObject (databases (seniorSession (n0 \<lparr> seniorSession := attachedSenior \<rparr>)) ! 1) = Some d \<and>
     dbObject (databases (juniorSession (n0 \<lparr> seniorSession := attachedSenior \<rparr>)) ! 1) = Some t \<and> d = t \<and>
     dbChecksum (databases (seniorSession (n0 \<lparr> seniorSession := attachedSenior \<rparr>)) ! 1) =
     dbChecksum (databases (juniorSession (n0 \<lparr> seniorSession := attachedSenior \<rparr>)) ! 1)"
proof (rule sessions_agree [OF counter.replicated_database_axioms byteZlib_lossless])
  have env: "goodEnv (\<lambda>_. counterDB) byteZlib (demoEnv b)" for b
    by (simp add: goodEnv_def demoEnv_def demo_envs)
  then show "goodEnv (\<lambda>_. counterDB) byteZlib (demoEnv True)" "goodEnv (\<lambda>_. counterDB) byteZlib (demoEnv False)"
    by simp_all
  have "net_reach (\<lambda>_. counterDB) byteZlib n0 (n0 \<lparr> seniorSession := attachedSenior \<rparr>)"
    unfolding attachedSenior_def by (rule net_more [OF net_init SeniorMeetsPeer [OF env]])
  then show "net_reach (\<lambda>_. counterDB) byteZlib
      (net_start (demoEnv True) (demoEnv False) (ZGPeerID 1 1) (ZGPeerID 1 2) (\<lambda>_. 10) [7, 8] [9, 9])
      (n0 \<lparr> seniorSession := attachedSenior \<rparr>)"
    unfolding n0_def .
  show "localDatabaseStateID (databases (juniorSession (n0 \<lparr> seniorSession := attachedSenior \<rparr>)) ! 1) =
      localDatabaseStateID (databases (seniorSession (n0 \<lparr> seniorSession := attachedSenior \<rparr>)) ! 1)"
    by code_simp
qed simp_all

theorem pulse_updates_before_beacon_witness:
  "\<exists>p' calls st. ps_Pulse (demoEnv True) busySenior = Some p' \<and>
     sessionEffects p' = sessionEffects busySenior @ calls @ [SetBeaconData (Some (map GetDatabaseStateInfo (databases p'))) st] \<and>
     (\<exists>st'. DatabaseEffect 1 (MulticastUpdate (hd (updateLog (databases busySenior ! 1))) st') \<in> set calls)"
proof -
  have hyps: "setBeaconDataPending busySenior" "ps_IAmTheSeniorPeer busySenior"
    "\<forall>s \<in> set (databases busySenior). ordInv updateID (updateLog s)"
    by code_simp+
  then have "\<forall>i < length (databases busySenior). ordInv updateID (updateLog (databases busySenior ! i))"
    by simp
  note sent = pulse_updates_before_beacon [OF hyps(1,2) this, of "demoEnv True"]
  have "1 < length (databases busySenior)" "rescanLogPending (databases busySenior ! 1)"
    "updateLog (databases busySenior ! 1) \<noteq> []"
    "firstUnsentUpdateID (databases busySenior ! 1) \<le> updateID (hd (updateLog (databases busySenior ! 1)))"
    by code_simp+
  with sent show ?thesis
    by (metis hd_in_set)
qed

theorem updates_come_from_senior_witness:
  "\<exists>i s. i < length (databases attachedSenior) \<and>
     databases (PrivateMessageReceivedFromPeer (demoEnv True) (ZGPeerID 1 2) (addTo 1 5) attachedSenior) =
     (databases attachedSenior)[i := s]"
proof -
  have "map localDatabaseStateID (databases (PrivateMessageReceivedFromPeer (demoEnv True) (ZGPeerID 1 2) (addTo 1 5) attachedSenior)) \<noteq>
      map localDatabaseStateID (databases attachedSenior)"
    by code_simp
  then have "databases (PrivateMessageReceivedFromPeer (demoEnv True) (ZGPeerID 1 2) (addTo 1 5) attachedSenior) \<noteq>
      databases attachedSenior"
    by metis
  from updates_come_from_senior [OF this] show ?thesis
    by blast
qed

theorem beacon_informs_junior_witness:
  "seniorDatabaseStateID (databases (BeaconDataChanged (demoEnv False)
     (Some (GetNewSeniorBeaconData busySenior)) (juniorSession n0)) ! 1) = localDatabaseStateID (databases busySenior ! 1)"
proof -
  have "length (databases busySenior) = length (databases (juniorSession n0))" "1 < length (databases (juniorSession n0))"
    by code_simp+
  then show ?thesis
    using beacon_informs_junior [of busySenior "juniorSession n0" "demoEnv False"] by (auto simp: Let_def)
qed

section \<open>The wire\<close>

definition demoUpdate :: "u8 PZGDatabaseUpdate" where
  "demoUpdate = SetPayloadMessage (Some 9) (GetPZGDatabaseUpdateFromPool 3 0 4 (ZGPeerID 1 2) 77)"

theorem dbup_roundtrip_witness:
  "dbup_Unflatten le_wire (\<lambda>_ _ _ _ _ _ _ _ _. 5) byteZlib
     (OpenUnflattener le_wire (dbup_Flatten le_wire (\<lambda>_ _ _ _ _ _ _ _ _. 5) byteZlib demoUpdate @ [1, 2])) =
   (B_NO_ERROR, Some (onWire byteZlib demoUpdate), OpenUnflattener le_wire [1, 2])"
proof -
  have "GetPayloadBuffer byteZlib demoUpdate = Some [9]"
    by code_simp
  then show ?thesis
    by (intro dbup_roundtrip [THEN conjunct2] le.wire_codec_axioms) auto
qed

theorem beacon_codec_exact_witness:
  "\<exists>u'. beacon_Unflatten le_wire satmul32
     (OpenUnflattener le_wire (beacon_Flatten le_wire [GetDatabaseStateInfo (senior y4)] @ [])) =
       (B_NO_ERROR, Some [GetDatabaseStateInfo (senior y4)], u') \<and>
     GetNumBytesAvailable le_wire
       (OpenUnflattener le_wire (beacon_Flatten le_wire [GetDatabaseStateInfo (senior y4)] @ [])) =
       4 + info_FlattenedSize * length [GetDatabaseStateInfo (senior y4)] + GetNumBytesAvailable le_wire u'"
proof -
  have "length [GetDatabaseStateInfo (senior y4)] < 2 ^ 32"
    by simp
  with beacon_codec_exact [OF leb.beacon_codec_axioms] show ?thesis
    by blast
qed

section \<open>The score database\<close>

definition demoSheet :: MusicSheet where
  "demoSheet = PutChord additiveSums 4 6 (PutChord additiveSums 2 3
     (SetToDefaultStateAux \<lparr> songFilePath = [], chords = [], noteHistogram = [], usedNotes = 0, ms_checksum = 0 \<rparr>))"

lemma demoSheet_inv: "sheetInv additiveSums demoSheet"
  unfolding demoSheet_def
  by (intro PutChord_inv default_inv) (simp add: additiveSums_def)

theorem MusicSheet_replicates_witness: "replicated_database (MusicSheetDB additiveSums) (sheetInv additiveSums) sameSheet"
  by (rule MusicSheet_replicates) (simp add: additiveSums_def)

theorem insert_delete_column_witness:
  "chordAt 5 (chords (InsertChordAt additiveSums 3 demoSheet)) = Some 6 \<and>
   chordAt 4 (chords (DeleteChordAt additiveSums 3 (InsertChordAt additiveSums 3 demoSheet))) = Some 6"
proof -
  have n: "- 1 \<notin> fst ` set (chords demoSheet)"
    by code_simp
  have "insertedColumn 3 (\<lambda>i. chordAt i (chords demoSheet)) 5 = Some 6" "chordAt 4 (chords demoSheet) = Some 6"
    by code_simp+
  then show ?thesis
    using insert_delete_column [OF demoSheet_inv n] by metis
qed

theorem delete_column_witness: "chordAt 3 (chords (DeleteChordAt additiveSums 2 demoSheet)) = Some 6"
proof -
  have "deletedColumn 2 (\<lambda>i. chordAt i (chords demoSheet)) 3 = Some 6"
    by code_simp
  then show ?thesis
    using delete_column [OF demoSheet_inv] by metis
qed

theorem PutChord_keeps_histogram_witness: "histogramInv (PutChord additiveSums 9 5 demoSheet)"
proof -
  let ?s0 = "SetToDefaultStateAux \<lparr> songFilePath = [], chords = [], noteHistogram = [], usedNotes = 0, ms_checksum = 0 \<rparr>"
  let ?s1 = "PutChord additiveSums 2 3 ?s0"
  have 0: "sheetInv additiveSums ?s0" "histogramInv ?s0"
    by (rule default_inv, simp add: additiveSums_def)
      (simp add: histogramInv_def histogramFor_def SetToDefaultStateAux_def)
  have "length (chords ?s0) = 0" "length (chords ?s1) = 1"
    by code_simp+
  then have len: "length (chords ?s0) < 2 ^ 32 - 1" "length (chords ?s1) < 2 ^ 32 - 1"
    by simp_all
  have 1: "sheetInv additiveSums ?s1" "histogramInv ?s1"
    by (rule PutChord_inv [OF 0(1)], rule PutChord_histogram [OF 0 len(1)])
  have "histogramInv demoSheet"
    unfolding demoSheet_def by (rule PutChord_histogram [OF 1 len(2)])
  moreover have "length (chords demoSheet) = 2"
    by code_simp
  then have "length (chords demoSheet) < 2 ^ 32 - 1"
    by simp
  ultimately show ?thesis
    by (intro PutChord_keeps_histogram demoSheet_inv)
qed

end
