(* ===== verification/ZG_MulticastThread.thy ===== *)
theory ZG_MulticastThread
  imports ZG_PeerSession
begin

text \<open>
  The multicast side of \<^verbatim>\<open>PZGNetworkIOSession\<close>: the message tags, the beacon messages, and
  one turn of the event loop of \<^verbatim>\<open>InternalThreadEntry\<close>, which tags and sends what the main
  thread hands over, repeats the beacon, and filters what arrives.

  A message is a \<^verbatim>\<open>muscle::Message\<close> with the fields this code looks at: those of
  \<open>peer_message\<close> and the tag, the beacon and a peer ID.  A field that is absent, or whose
  bytes do not unflatten, is \<open>None\<close>.  One turn of the loop finds in a record of the type
  \<open>turn\<close> what the system calls return: the message from the main thread, the clock, the
  number of multicast sockets if they are made anew, the messages each socket received and how
  many it could send.  Logging and the registration of sockets with \<^verbatim>\<open>select\<close> are left out.
\<close>

section \<open>Message tags\<close>

datatype PZGMulticastMessageTag =
  PZGMulticastMessageTag (GetPeerID: ZGPeerID) (GetCompatibilityVersionCode: u32) (GetMessageID: u32)

definition noMulticastTag :: PZGMulticastMessageTag where
  "noMulticastTag = PZGMulticastMessageTag invalidPeerID 0 0"

definition tag_IsValid :: "PZGMulticastMessageTag \<Rightarrow> bool" where
  "tag_IsValid t = IsValid (GetPeerID t)"

definition tag_FlattenedSize :: nat where
  "tag_FlattenedSize = peerID_FlattenedSize + 4 + 4"

definition tag_CalculateChecksum :: "(u64 \<Rightarrow> u32) \<Rightarrow> PZGMulticastMessageTag \<Rightarrow> u32" where
  "tag_CalculateChecksum pod t =
     peerID_CalculateChecksum pod (GetPeerID t) + GetCompatibilityVersionCode t + GetMessageID t"

definition tag_Flatten :: "'u wire \<Rightarrow> PZGMulticastMessageTag \<Rightarrow> bytes" where
  "tag_Flatten W t =
     peerID_Flatten W (GetPeerID t) @ WriteInt32 W (GetCompatibilityVersionCode t) @ WriteInt32 W (GetMessageID t)"

definition tag_Unflatten :: "'u wire \<Rightarrow> 'u \<Rightarrow> status_t \<times> PZGMulticastMessageTag option \<times> 'u" where
  "tag_Unflatten W u0 =
     (let (st, p, u1) = peerID_Unflatten W u0
      in if IsError st then (st, None, u1)
         else let (version, u2) = ReadInt32 W u1;
                  (mid, u3) = ReadInt32 W u2
              in (GetStatus W u3, Some (PZGMulticastMessageTag p version mid), u3))"

section \<open>Messages\<close>

record 'm net_message = "'m peer_message" +
  multicastTag :: "PZGMulticastMessageTag option"
  beaconField :: "PZGBeaconData option"
  peerIDField :: "ZGPeerID option"

definition PZG_NETWORK_COMMAND_SET_SENIOR_PEER_ID :: u32 where
  "PZG_NETWORK_COMMAND_SET_SENIOR_PEER_ID = 1886283124"

definition PZG_NETWORK_COMMAND_SET_BEACON_DATA :: u32 where
  "PZG_NETWORK_COMMAND_SET_BEACON_DATA = 1886283125"

definition PZG_NETWORK_COMMAND_INVALIDATE_LAST_RECEIVED_BEACON_DATA :: u32 where
  "PZG_NETWORK_COMMAND_INVALIDATE_LAST_RECEIVED_BEACON_DATA = 1886283126"

lemmas net_commands =
  PZG_NETWORK_COMMAND_SET_SENIOR_PEER_ID_def PZG_NETWORK_COMMAND_SET_BEACON_DATA_def
  PZG_NETWORK_COMMAND_INVALIDATE_LAST_RECEIVED_BEACON_DATA_def PZG_THREADED_SESSION_RECREATE_SOCKETS_def

definition bareMessage :: "u32 \<Rightarrow> 'm net_message" where
  "bareMessage code =
     \<lparr> what = code, userMessage = None, databaseID = 0, databaseUpdate = None, messageText = None,
       multicastTag = None, beaconField = None, peerIDField = None \<rparr>"

text \<open>\<^verbatim>\<open>AddFlat\<close> appends a value to a field and \<^verbatim>\<open>FindFlat\<close> finds the first one.\<close>

definition AddTag :: "PZGMulticastMessageTag \<Rightarrow> 'm net_message \<Rightarrow> 'm net_message" where
  "AddTag t msg = (if multicastTag msg = None then msg \<lparr> multicastTag := Some t \<rparr> else msg)"

definition CreateBeaconDataMessage :: "PZGBeaconData option \<Rightarrow> PZGMulticastMessageTag \<Rightarrow> 'm net_message" where
  "CreateBeaconDataMessage beaconData sourceTag =
     (let msg = (bareMessage PZG_NETWORK_COMMAND_SET_BEACON_DATA) \<lparr> beaconField := beaconData \<rparr>
      in if tag_IsValid sourceTag then AddTag sourceTag msg else msg)"

definition GetBeaconDataFromMessage :: "'m net_message \<Rightarrow> PZGBeaconData option" where
  "GetBeaconDataFromMessage msg = beaconField msg"

section \<open>The multicast thread\<close>

record 'm multicast_thread =
  recreateMulticastDataIORequested :: bool
  outgoingMulticastMessageTagCounter :: u32
  ptGateways :: "'m net_message list list"
  recentlyReceived :: "PZGMulticastMessageTag list"
  thread_seniorPeerID :: ZGPeerID
  outgoingBeaconMsg :: "'m net_message option"
  outgoingBeaconData :: "PZGBeaconData option"
  lastReceivedBeaconData :: "PZGBeaconData option"
  nextBeaconSendTime :: u64
  sentToOwner :: "'m net_message list"

record thread_settings =
  thread_localPeerID :: ZGPeerID
  compatibilityVersionCode :: u32
  beaconIntervalMicros :: u64

record 'm turn =
  msgFromOwner :: "'m net_message option option"
  turn_now :: u64
  turn_computerIsAsleep :: bool
  turn_IAmFullyAttached :: bool
  multicastDataIOs :: nat
  arrived :: "'m net_message list list"
  drained :: "nat list"

definition newMulticastThread :: "'m multicast_thread" where
  "newMulticastThread =
     \<lparr> recreateMulticastDataIORequested = True, outgoingMulticastMessageTagCounter = 0, ptGateways = [],
       recentlyReceived = [], thread_seniorPeerID = invalidPeerID, outgoingBeaconMsg = None,
       outgoingBeaconData = None, lastReceivedBeaconData = None, nextBeaconSendTime = MUSCLE_TIME_NEVER,
       sentToOwner = [] \<rparr>"

definition getBeaconIntervalMicros :: "u32 \<Rightarrow> u64" where
  "getBeaconIntervalMicros beaconsPerSecond = 1000000 div ucast (max 1 beaconsPerSecond)"

definition AddOutgoingMessageToAll :: "'m net_message \<Rightarrow> 'm multicast_thread \<Rightarrow> 'm multicast_thread" where
  "AddOutgoingMessageToAll msg t = t \<lparr> ptGateways := map (\<lambda>q. q @ [msg]) (ptGateways t) \<rparr>"

definition SendMessageToOwner :: "'m net_message \<Rightarrow> 'm multicast_thread \<Rightarrow> 'm multicast_thread" where
  "SendMessageToOwner msg t = t \<lparr> sentToOwner := sentToOwner t @ [msg] \<rparr>"

definition recreateGateways :: "nat \<Rightarrow> 'm multicast_thread \<Rightarrow> 'm multicast_thread" where
  "recreateGateways n t =
     (if recreateMulticastDataIORequested t
      then t \<lparr> recreateMulticastDataIORequested := False, ptGateways := replicate n [] \<rparr> else t)"

definition handleOwnerMessage ::
  "thread_settings \<Rightarrow> 'm net_message \<Rightarrow> 'm multicast_thread \<Rightarrow> 'm multicast_thread" where
  "handleOwnerMessage G msg t =
     (if what msg = PZG_THREADED_SESSION_RECREATE_SOCKETS then t \<lparr> recreateMulticastDataIORequested := True \<rparr>
      else if what msg = PZG_PEER_COMMAND_UPDATE_JUNIOR_DATABASE \<or> what msg = PZG_PEER_COMMAND_USER_MESSAGE then
        (let c = outgoingMulticastMessageTagCounter t + 1;
             tag = PZGMulticastMessageTag (thread_localPeerID G) (compatibilityVersionCode G) c
         in AddOutgoingMessageToAll (AddTag tag msg) (t \<lparr> outgoingMulticastMessageTagCounter := c \<rparr>))
      else if what msg = PZG_NETWORK_COMMAND_SET_SENIOR_PEER_ID then
        (case peerIDField msg of Some p \<Rightarrow> t \<lparr> thread_seniorPeerID := p \<rparr> | None \<Rightarrow> t)
      else if what msg = PZG_NETWORK_COMMAND_SET_BEACON_DATA then
        t \<lparr> outgoingBeaconMsg := None, outgoingBeaconData := GetBeaconDataFromMessage msg,
            nextBeaconSendTime := (if GetBeaconDataFromMessage msg = None then MUSCLE_TIME_NEVER else 0) \<rparr>
      else if what msg = PZG_NETWORK_COMMAND_INVALIDATE_LAST_RECEIVED_BEACON_DATA then
        t \<lparr> lastReceivedBeaconData := None \<rparr>
      else t)"

definition sendBeacon ::
  "thread_settings \<Rightarrow> u64 \<Rightarrow> bool \<Rightarrow> bool \<Rightarrow> 'm multicast_thread \<Rightarrow> 'm multicast_thread" where
  "sendBeacon G now computerIsAsleep fullyAttached t =
     (if now \<ge> nextBeaconSendTime t then
        (case outgoingBeaconData t of
           None \<Rightarrow> t \<lparr> nextBeaconSendTime := MUSCLE_TIME_NEVER \<rparr>
         | Some data \<Rightarrow>
             (let t1 = t \<lparr> nextBeaconSendTime := now + beaconIntervalMicros G \<rparr>
              in if \<not> computerIsAsleep \<and> fullyAttached then
                   (let msg = (case outgoingBeaconMsg t1 of
                                 Some m \<Rightarrow> m
                               | None \<Rightarrow> CreateBeaconDataMessage (Some data)
                                           (PZGMulticastMessageTag (thread_localPeerID G) (compatibilityVersionCode G) 0))
                    in AddOutgoingMessageToAll msg (t1 \<lparr> outgoingBeaconMsg := Some msg \<rparr>))
                 else t1))
      else t)"

definition MaxRecentlyReceived :: nat where
  "MaxRecentlyReceived = 1000"

function trimRecentlyReceived :: "PZGMulticastMessageTag list \<Rightarrow> PZGMulticastMessageTag list" where
  "trimRecentlyReceived tags =
     (if length tags > MaxRecentlyReceived then trimRecentlyReceived (tl tags) else tags)"
  by auto
termination
  by (relation "measure length") (auto simp: MaxRecentlyReceived_def)

declare trimRecentlyReceived.simps [simp del]

definition MoveToBack :: "PZGMulticastMessageTag \<Rightarrow> PZGMulticastMessageTag list \<Rightarrow> PZGMulticastMessageTag list" where
  "MoveToBack tag tags = (if tag \<in> set tags then filter (\<lambda>x. x \<noteq> tag) tags @ [tag] else tags)"

definition handleBeacon ::
  "PZGMulticastMessageTag \<Rightarrow> 'm net_message \<Rightarrow> 'm multicast_thread \<Rightarrow> 'm multicast_thread" where
  "handleBeacon tag msg t =
     (if IsValid (thread_seniorPeerID t) \<and> GetPeerID tag = thread_seniorPeerID t then
        (case GetBeaconDataFromMessage msg of
           None \<Rightarrow> t
         | Some incomingBeaconData \<Rightarrow>
             (if lastReceivedBeaconData t = Some incomingBeaconData then t
              else SendMessageToOwner (CreateBeaconDataMessage (Some incomingBeaconData) tag)
                     (t \<lparr> lastReceivedBeaconData := Some incomingBeaconData \<rparr>)))
      else t)"

definition handleArrival :: "thread_settings \<Rightarrow> 'm net_message \<Rightarrow> 'm multicast_thread \<Rightarrow> 'm multicast_thread" where
  "handleArrival G msg t =
     (case multicastTag msg of
        None \<Rightarrow> t
      | Some tag \<Rightarrow>
          (if GetCompatibilityVersionCode tag = compatibilityVersionCode G \<and> GetPeerID tag \<noteq> thread_localPeerID G \<and>
              (what msg = PZG_NETWORK_COMMAND_SET_BEACON_DATA \<or> tag \<notin> set (recentlyReceived t)) then
             (if what msg = PZG_NETWORK_COMMAND_SET_BEACON_DATA then handleBeacon tag msg t
              else
                (let t1 = t \<lparr> recentlyReceived := MoveToBack tag (tabPut id tag (recentlyReceived t)) \<rparr>;
                     t2 = SendMessageToOwner msg t1
                 in t2 \<lparr> recentlyReceived := trimRecentlyReceived (recentlyReceived t2) \<rparr>))
           else t))"

definition serveSocket ::
  "thread_settings \<Rightarrow> 'm turn \<Rightarrow> nat \<Rightarrow> 'm multicast_thread \<Rightarrow> 'm multicast_thread" where
  "serveSocket G E i t =
     (let t1 = (if i < length (arrived E) then fold (handleArrival G) (arrived E ! i) t else t)
      in if i < length (drained E)
         then t1 \<lparr> ptGateways := (ptGateways t1)[i := drop (drained E ! i) (ptGateways t1 ! i)] \<rparr> else t1)"

text \<open>One turn of the loop; \<open>None\<close> when the main thread's \<open>NULL\<close> message ends it.\<close>

definition threadTurn :: "thread_settings \<Rightarrow> 'm turn \<Rightarrow> 'm multicast_thread \<Rightarrow> 'm multicast_thread option" where
  "threadTurn G E t =
     (let t1 = recreateGateways (multicastDataIOs E) t
      in case msgFromOwner E of
           Some None \<Rightarrow> None
         | fromOwner \<Rightarrow>
             (let t2 = (case fromOwner of Some (Some msg) \<Rightarrow> handleOwnerMessage G msg t1 | _ \<Rightarrow> t1);
                  t3 = sendBeacon G (turn_now E) (turn_computerIsAsleep E) (turn_IAmFullyAttached E) t2
              in Some (fold (serveSocket G E) [0..<length (ptGateways t3)] t3)))"

fun threadRun :: "thread_settings \<Rightarrow> 'm turn list \<Rightarrow> 'm multicast_thread \<Rightarrow> 'm multicast_thread" where
  "threadRun G [] t = t"
| "threadRun G (E # Es) t = (case threadTurn G E t of None \<Rightarrow> t | Some t' \<Rightarrow> threadRun G Es t')"

section \<open>What the main thread hears\<close>

definition lastN :: "nat \<Rightarrow> 'a list \<Rightarrow> 'a list" where
  "lastN n xs = drop (length xs - n) xs"

definition isBeacon :: "'m net_message \<Rightarrow> bool" where
  "isBeacon msg \<longleftrightarrow> what msg = PZG_NETWORK_COMMAND_SET_BEACON_DATA"

definition acceptable :: "thread_settings \<Rightarrow> 'm net_message \<Rightarrow> bool" where
  "acceptable G msg \<longleftrightarrow>
     (case multicastTag msg of
        None \<Rightarrow> False
      | Some tag \<Rightarrow> GetCompatibilityVersionCode tag = compatibilityVersionCode G \<and> GetPeerID tag \<noteq> thread_localPeerID G)"

abbreviation tagOf :: "'m net_message \<Rightarrow> PZGMulticastMessageTag" where
  "tagOf msg \<equiv> the (multicastTag msg)"

definition forwarded :: "'m multicast_thread \<Rightarrow> 'm net_message list" where
  "forwarded t = filter (\<lambda>msg. \<not> isBeacon msg) (sentToOwner t)"

text \<open>
  The reference: a message is passed on exactly when it is acceptable and none of the last
  1000 messages passed on before it has its tag.
\<close>

fun passOn :: "thread_settings \<Rightarrow> 'm net_message list \<Rightarrow> 'm net_message list \<Rightarrow> 'm net_message list" where
  "passOn G earlier [] = earlier"
| "passOn G earlier (msg # msgs) =
     (if \<not> isBeacon msg \<and> acceptable G msg \<and> tagOf msg \<notin> set (lastN MaxRecentlyReceived (map tagOf earlier))
      then passOn G (earlier @ [msg]) msgs else passOn G earlier msgs)"

text \<open>The messages a turn takes from its sockets, in the order it takes them.\<close>

definition heard :: "'m turn \<Rightarrow> 'm multicast_thread \<Rightarrow> 'm net_message list" where
  "heard E t =
     (if msgFromOwner E = Some None then []
      else concat (take (length (ptGateways (recreateGateways (multicastDataIOs E) t))) (arrived E)))"

fun heardInRun :: "thread_settings \<Rightarrow> 'm turn list \<Rightarrow> 'm multicast_thread \<Rightarrow> 'm net_message list" where
  "heardInRun G [] t = []"
| "heardInRun G (E # Es) t =
     (case threadTurn G E t of None \<Rightarrow> [] | Some t' \<Rightarrow> heard E t @ heardInRun G Es t')"

definition cacheInv :: "'m multicast_thread \<Rightarrow> bool" where
  "cacheInv t \<longleftrightarrow> recentlyReceived t = lastN MaxRecentlyReceived (map tagOf (forwarded t)) \<and> distinct (recentlyReceived t)"

section \<open>Lemmas\<close>

lemma lastN_snoc: "lastN (Suc n) (xs @ [x]) = lastN n xs @ [x]"
  by (simp add: lastN_def Suc_diff_le)

lemma length_lastN [simp]: "length (lastN n xs) = min n (length xs)"
  by (simp add: lastN_def)

lemma lastN_all: "length xs \<le> n \<Longrightarrow> lastN n xs = xs"
  by (simp add: lastN_def)

lemma lastN_lastN_snoc: "lastN n (lastN n xs @ [x]) = lastN n (xs @ [x])"
  by (cases "length xs \<le> n") (simp_all add: lastN_def Suc_diff_le min_def)

lemma set_lastN_subset: "set (lastN n xs) \<subseteq> set xs"
  by (simp add: lastN_def set_drop_subset)

lemma distinct_lastN: "distinct xs \<Longrightarrow> distinct (lastN n xs)"
  by (simp add: lastN_def)

lemma trimRecentlyReceived_lastN: "trimRecentlyReceived tags = lastN MaxRecentlyReceived tags"
proof (induction tags rule: trimRecentlyReceived.induct)
  case (1 tags)
  show ?case
  proof (cases "length tags > MaxRecentlyReceived")
    case True
    then have "lastN MaxRecentlyReceived (tl tags) = lastN MaxRecentlyReceived tags"
      by (cases tags) (auto simp: lastN_def Suc_diff_le)
    with True show ?thesis
      using 1 by (subst trimRecentlyReceived.simps) simp
  next
    case False
    then show ?thesis
      by (subst trimRecentlyReceived.simps) (simp add: lastN_all)
  qed
qed

lemma MoveToBack_put: "tag \<notin> set tags \<Longrightarrow> MoveToBack tag (tabPut id tag tags) = tags @ [tag]"
  by (auto simp: MoveToBack_def tabPut_fresh intro!: filter_all_conv)

lemma handleArrival_plain:
  assumes "\<not> isBeacon msg"
  shows "handleArrival G msg t =
    (if acceptable G msg \<and> tagOf msg \<notin> set (recentlyReceived t)
     then t \<lparr> recentlyReceived := lastN MaxRecentlyReceived (recentlyReceived t @ [tagOf msg]),
              sentToOwner := sentToOwner t @ [msg] \<rparr>
     else t)"
  using assms
  by (auto simp: handleArrival_def isBeacon_def acceptable_def MoveToBack_put SendMessageToOwner_def
      trimRecentlyReceived_lastN Let_def split: option.splits)

lemma isBeacon_CreateBeaconDataMessage: "isBeacon (CreateBeaconDataMessage b tag)"
  by (simp add: isBeacon_def CreateBeaconDataMessage_def AddTag_def bareMessage_def Let_def)

lemma handleBeacon_frame [frame]:
  "recentlyReceived (handleBeacon tag msg t) = recentlyReceived t"
  "forwarded (handleBeacon tag msg t) = forwarded t"
  "ptGateways (handleBeacon tag msg t) = ptGateways t"
  "thread_seniorPeerID (handleBeacon tag msg t) = thread_seniorPeerID t"
  by (auto simp: handleBeacon_def SendMessageToOwner_def forwarded_def isBeacon_CreateBeaconDataMessage
      split: option.splits)

lemma handleArrival_beacon:
  "isBeacon msg \<Longrightarrow> handleArrival G msg t = (if acceptable G msg then handleBeacon (tagOf msg) msg t else t)"
  by (auto simp: handleArrival_def isBeacon_def acceptable_def split: option.splits)

lemma handleArrival_frame [frame]:
  "ptGateways (handleArrival G msg t) = ptGateways t"
  "thread_seniorPeerID (handleArrival G msg t) = thread_seniorPeerID t"
  by (cases "isBeacon msg"; simp add: handleArrival_beacon handleArrival_plain frame)+

lemma fold_handleArrival_frame [frame]:
  "ptGateways (fold (handleArrival G) msgs t) = ptGateways t"
  "thread_seniorPeerID (fold (handleArrival G) msgs t) = thread_seniorPeerID t"
  by (induction msgs arbitrary: t) (simp_all add: frame)

lemma handleArrival_cache:
  assumes "cacheInv t"
  shows "cacheInv (handleArrival G msg t)"
    and "forwarded (handleArrival G msg t) = passOn G (forwarded t) [msg]"
proof (atomize (full), cases "isBeacon msg")
  case True
  then show "cacheInv (handleArrival G msg t) \<and> forwarded (handleArrival G msg t) = passOn G (forwarded t) [msg]"
    using assms by (auto simp: handleArrival_beacon cacheInv_def frame)
next
  case False
  have "distinct (lastN MaxRecentlyReceived (recentlyReceived t @ [tagOf msg]))"
    if "tagOf msg \<notin> set (recentlyReceived t)"
    using assms that by (intro distinct_lastN) (auto simp: cacheInv_def)
  then show "cacheInv (handleArrival G msg t) \<and> forwarded (handleArrival G msg t) = passOn G (forwarded t) [msg]"
    using False assms by (auto simp: handleArrival_plain cacheInv_def forwarded_def lastN_lastN_snoc)
qed

lemma passOn_append: "passOn G earlier (xs @ ys) = passOn G (passOn G earlier xs) ys"
  by (induction xs arbitrary: earlier) auto

lemma fold_handleArrival_cache:
  "cacheInv t \<Longrightarrow> cacheInv (fold (handleArrival G) msgs t) \<and>
     forwarded (fold (handleArrival G) msgs t) = passOn G (forwarded t) msgs"
proof (induction msgs arbitrary: t)
  case (Cons msg msgs)
  have "passOn G (forwarded t) (msg # msgs) = passOn G (passOn G (forwarded t) [msg]) msgs"
    using passOn_append [of G "forwarded t" "[msg]" msgs] by simp
  then show ?case
    using Cons handleArrival_cache [OF Cons.prems] by simp
qed simp

lemma cacheInv_cong:
  "recentlyReceived t' = recentlyReceived t \<Longrightarrow> sentToOwner t' = sentToOwner t \<Longrightarrow> cacheInv t' = cacheInv t"
  by (simp add: cacheInv_def forwarded_def)

lemma serveSocket_cache:
  assumes "cacheInv t"
  shows "cacheInv (serveSocket G E i t) \<and>
    forwarded (serveSocket G E i t) = passOn G (forwarded t) (if i < length (arrived E) then arrived E ! i else []) \<and>
    length (ptGateways (serveSocket G E i t)) = length (ptGateways t)"
  using fold_handleArrival_cache [OF assms, of G "arrived E ! i"] assms
  by (auto simp: serveSocket_def Let_def frame cacheInv_def forwarded_def)

lemma serveSockets_cache:
  assumes "cacheInv t"
  shows "cacheInv (fold (serveSocket G E) [0..<n] t) \<and>
    forwarded (fold (serveSocket G E) [0..<n] t) = passOn G (forwarded t) (concat (take n (arrived E)))"
proof (induction n)
  case (Suc n)
  then show ?case
    using serveSocket_cache [of "fold (serveSocket G E) [0..<n] t" G E n]
    by (auto simp: take_Suc_conv_app_nth passOn_append)
qed (simp add: assms)

lemma owner_and_beacon_frame [frame]:
  "recentlyReceived (handleOwnerMessage G msg t) = recentlyReceived t"
  "sentToOwner (handleOwnerMessage G msg t) = sentToOwner t"
  "length (ptGateways (handleOwnerMessage G msg t)) = length (ptGateways t)"
  "recentlyReceived (sendBeacon G now asleep attached t) = recentlyReceived t"
  "sentToOwner (sendBeacon G now asleep attached t) = sentToOwner t"
  "length (ptGateways (sendBeacon G now asleep attached t)) = length (ptGateways t)"
  "recentlyReceived (recreateGateways n t) = recentlyReceived t"
  "sentToOwner (recreateGateways n t) = sentToOwner t"
  by (auto simp: handleOwnerMessage_def sendBeacon_def recreateGateways_def AddOutgoingMessageToAll_def Let_def
      split: option.split)

lemma threadTurn_cache:
  assumes "cacheInv t" "threadTurn G E t = Some t'"
  shows "cacheInv t' \<and> forwarded t' = passOn G (forwarded t) (heard E t)"
proof -
  obtain t3 where t3: "t' = fold (serveSocket G E) [0..<length (ptGateways t3)] t3"
      "recentlyReceived t3 = recentlyReceived t" "sentToOwner t3 = sentToOwner t"
      "length (ptGateways t3) = length (ptGateways (recreateGateways (multicastDataIOs E) t))"
    and "msgFromOwner E \<noteq> Some None"
    using assms(2) by (auto simp: threadTurn_def Let_def frame split: option.splits)
  moreover have "cacheInv t3" "forwarded t3 = forwarded t"
    using assms(1) t3 by (auto simp: cacheInv_def forwarded_def)
  ultimately show ?thesis
    using serveSockets_cache [of t3 G E "length (ptGateways t3)"] by (simp add: heard_def)
qed

lemma threadRun_cache:
  "cacheInv t \<Longrightarrow> cacheInv (threadRun G Es t) \<and>
     forwarded (threadRun G Es t) = passOn G (forwarded t) (heardInRun G Es t)"
proof (induction G Es t rule: threadRun.induct)
  case (2 G E Es t)
  show ?case
  proof (cases "threadTurn G E t")
    case (Some t')
    then show ?thesis
      using 2 threadTurn_cache [OF 2(2) Some] by (simp add: passOn_append)
  qed (simp add: 2(2))
qed simp

lemma cacheInv_new: "cacheInv newMulticastThread"
  by (simp add: cacheInv_def newMulticastThread_def forwarded_def lastN_def)

lemma windows_distinct:
  assumes "\<And>k. k \<le> length xs \<Longrightarrow> distinct (lastN n (take k xs))" "i < j" "j < length xs" "j - i < n"
  shows "xs ! i \<noteq> xs ! j"
proof -
  have d: "distinct (drop (Suc j - n) (take (Suc j) xs))"
    using assms(1) [of "Suc j"] assms(3) by (simp add: lastN_def min_absorb2)
  have "drop (Suc j - n) (take (Suc j) xs) ! (i - (Suc j - n)) = xs ! i"
    "drop (Suc j - n) (take (Suc j) xs) ! (j - (Suc j - n)) = xs ! j"
    using assms(2-4) by simp_all
  moreover have "i - (Suc j - n) < length (drop (Suc j - n) (take (Suc j) xs))"
    "j - (Suc j - n) < length (drop (Suc j - n) (take (Suc j) xs))" "i - (Suc j - n) \<noteq> j - (Suc j - n)"
    using assms(2-4) by auto
  ultimately show ?thesis
    using nth_eq_iff_index_eq [OF d, of "i - (Suc j - n)" "j - (Suc j - n)"] by metis
qed

lemma passOn_windows:
  assumes "\<And>k. k \<le> length earlier \<Longrightarrow> distinct (lastN MaxRecentlyReceived (take k (map tagOf earlier)))"
  shows "k \<le> length (passOn G earlier msgs) \<Longrightarrow>
    distinct (lastN MaxRecentlyReceived (take k (map tagOf (passOn G earlier msgs))))"
  using assms
proof (induction G earlier msgs rule: passOn.induct)
  case (2 G earlier msg msgs)
  show ?case
  proof (cases "\<not> isBeacon msg \<and> acceptable G msg \<and> tagOf msg \<notin> set (lastN MaxRecentlyReceived (map tagOf earlier))")
    case True
    have "distinct (lastN MaxRecentlyReceived (take j (map tagOf (earlier @ [msg]))))"
      if "j \<le> length (earlier @ [msg])" for j
    proof (cases "j \<le> length earlier")
      case False
      then have j: "take j (map tagOf (earlier @ [msg])) = map tagOf earlier @ [tagOf msg]"
        using that by simp
      have "distinct (lastN MaxRecentlyReceived (map tagOf earlier) @ [tagOf msg])"
        using True 2(4) [of "length earlier"] by simp
      then have "distinct (lastN MaxRecentlyReceived (lastN MaxRecentlyReceived (map tagOf earlier) @ [tagOf msg]))"
        by (rule distinct_lastN)
      then show ?thesis
        unfolding j lastN_lastN_snoc .
    qed (simp add: 2(4))
    with True 2(1) 2(3) show ?thesis
      by simp
  next
    case False
    with 2(2-4) show ?thesis
      by (simp add: if_not_P)
  qed
qed simp

lemma passOn_acceptable:
  "(\<And>msg. msg \<in> set earlier \<Longrightarrow> acceptable G msg) \<Longrightarrow> msg \<in> set (passOn G earlier msgs) \<Longrightarrow> acceptable G msg"
  by (induction G earlier msgs rule: passOn.induct) (auto split: if_splits)

lemma passOn_extends: "\<exists>new. passOn G earlier msgs = earlier @ new \<and> set new \<subseteq> set msgs"
proof (induction G earlier msgs rule: passOn.induct)
  case (2 G earlier msg msgs)
  then show ?case
    by (auto split: if_splits) blast+
qed simp

lemma passOn_few:
  assumes "distinct (map tagOf earlier)"
    "card (tagOf ` (set earlier \<union> set msgs)) \<le> MaxRecentlyReceived"
    "\<And>msg. msg \<in> set msgs \<Longrightarrow> \<not> isBeacon msg \<and> acceptable G msg"
  shows "distinct (map tagOf (passOn G earlier msgs)) \<and>
    tagOf ` set (passOn G earlier msgs) = tagOf ` (set earlier \<union> set msgs)"
  using assms
proof (induction G earlier msgs rule: passOn.induct)
  case (2 G earlier msg msgs)
  have "card (tagOf ` set earlier) \<le> card (tagOf ` (set earlier \<union> set (msg # msgs)))"
    by (intro card_mono) auto
  then have "length earlier \<le> MaxRecentlyReceived"
    using 2(3,4) distinct_card [OF 2(3)] by simp
  then have all: "lastN MaxRecentlyReceived (map tagOf earlier) = map tagOf earlier"
    by (intro lastN_all) simp
  have ok: "\<not> isBeacon msg \<and> acceptable G msg" and oks: "\<And>x. x \<in> set msgs \<Longrightarrow> \<not> isBeacon x \<and> acceptable G x"
    using 2(5) by simp_all
  show ?case
  proof (cases "tagOf msg \<in> set (map tagOf earlier)")
    case True
    then have same: "tagOf ` (set earlier \<union> set (msg # msgs)) = tagOf ` (set earlier \<union> set msgs)"
      by auto
    have "distinct (map tagOf (passOn G earlier msgs)) \<and>
        tagOf ` set (passOn G earlier msgs) = tagOf ` (set earlier \<union> set msgs)"
      by (rule 2(2)) (use True all oks 2(3,4) same in \<open>simp_all only: simp_thms\<close>)
    then show ?thesis
      unfolding same using True all by simp
  next
    case False
    have same: "tagOf ` (set earlier \<union> set (msg # msgs)) = tagOf ` (set (earlier @ [msg]) \<union> set msgs)"
      by auto
    have "distinct (map tagOf (earlier @ [msg]))"
      using False 2(3) by simp
    then have "distinct (map tagOf (passOn G (earlier @ [msg]) msgs)) \<and>
        tagOf ` set (passOn G (earlier @ [msg]) msgs) = tagOf ` (set (earlier @ [msg]) \<union> set msgs)"
      by (intro 2(1)) (use False all ok oks 2(4) same in \<open>simp_all only: simp_thms\<close>)
    then show ?thesis
      unfolding same using False all ok by simp
  qed
qed simp

text \<open>What the sending side puts on each of its sockets.\<close>

definition outgoingKind :: "'m net_message \<Rightarrow> bool" where
  "outgoingKind msg \<longleftrightarrow> what msg = PZG_PEER_COMMAND_UPDATE_JUNIOR_DATABASE \<or> what msg = PZG_PEER_COMMAND_USER_MESSAGE"

definition withTags :: "thread_settings \<Rightarrow> u32 \<Rightarrow> 'm net_message list \<Rightarrow> 'm net_message list" where
  "withTags G c msgs =
     map (\<lambda>i. (msgs ! i) \<lparr> multicastTag :=
       Some (PZGMulticastMessageTag (thread_localPeerID G) (compatibilityVersionCode G) (c + of_nat (Suc i))) \<rparr>)
       [0..<length msgs]"

lemma outgoingKind_not_beacon: "outgoingKind msg \<Longrightarrow> \<not> isBeacon msg"
  by (auto simp: outgoingKind_def isBeacon_def net_commands PZG_PEER_COMMAND_UPDATE_JUNIOR_DATABASE_def
      PZG_PEER_COMMAND_USER_MESSAGE_def)

lemma handleOwnerMessage_outgoing:
  "outgoingKind msg \<Longrightarrow>
   handleOwnerMessage G msg t =
     AddOutgoingMessageToAll
       (AddTag (PZGMulticastMessageTag (thread_localPeerID G) (compatibilityVersionCode G)
          (outgoingMulticastMessageTagCounter t + 1)) msg)
       (t \<lparr> outgoingMulticastMessageTagCounter := outgoingMulticastMessageTagCounter t + 1 \<rparr>)"
  by (auto simp: handleOwnerMessage_def outgoingKind_def net_commands PZG_PEER_COMMAND_UPDATE_JUNIOR_DATABASE_def
      PZG_PEER_COMMAND_USER_MESSAGE_def Let_def)

lemma withTags_Cons:
  "multicastTag msg = None \<Longrightarrow> withTags G c (msg # msgs) =
     AddTag (PZGMulticastMessageTag (thread_localPeerID G) (compatibilityVersionCode G) (c + 1)) msg # withTags G (c + 1) msgs"
  by (simp add: withTags_def AddTag_def upt_conv_Cons del: upt_Suc) (simp add: map_Suc_upt [symmetric] add.assoc del: upt_Suc)

lemma handleOwnerMessages_withTags:
  assumes "i < length (ptGateways t)" "\<And>msg. msg \<in> set msgs \<Longrightarrow> outgoingKind msg \<and> multicastTag msg = None"
  shows "ptGateways (fold (handleOwnerMessage G) msgs t) ! i =
    ptGateways t ! i @ withTags G (outgoingMulticastMessageTagCounter t) msgs"
  using assms
proof (induction msgs arbitrary: t)
  case (Cons msg msgs)
  then show ?case
    by (simp add: handleOwnerMessage_outgoing AddOutgoingMessageToAll_def withTags_Cons)
qed (simp add: withTags_def)

lemma withTags_inject:
  assumes "length msgs < 2 ^ 32" "x \<in> set (withTags G c msgs)" "y \<in> set (withTags G c msgs)" "tagOf x = tagOf y"
  shows "x = y"
proof -
  obtain i j where ij: "i < length msgs" "j < length msgs"
      "x = (msgs ! i) \<lparr> multicastTag := Some (PZGMulticastMessageTag (thread_localPeerID G) (compatibilityVersionCode G) (c + of_nat (Suc i))) \<rparr>"
      "y = (msgs ! j) \<lparr> multicastTag := Some (PZGMulticastMessageTag (thread_localPeerID G) (compatibilityVersionCode G) (c + of_nat (Suc j))) \<rparr>"
    using assms(2,3) by (auto simp: withTags_def)
  then have "(of_nat i :: u32) = of_nat j"
    using assms(4) by simp
  moreover have "unat (of_nat i :: u32) = i" "unat (of_nat j :: u32) = j"
    using ij(1,2) assms(1) by (simp_all add: unat_of_nat_small)
  ultimately have "i = j"
    by metis
  with ij show ?thesis
    by simp
qed

lemma withTags_facts:
  assumes "x \<in> set (withTags G c msgs)" "\<And>msg. msg \<in> set msgs \<Longrightarrow> outgoingKind msg"
  shows "\<not> isBeacon x \<and> multicastTag x \<noteq> None \<and> GetPeerID (tagOf x) = thread_localPeerID G \<and>
    GetCompatibilityVersionCode (tagOf x) = compatibilityVersionCode G"
proof -
  obtain i where i: "i < length msgs" "x = (msgs ! i) \<lparr> multicastTag := Some (PZGMulticastMessageTag (thread_localPeerID G)
      (compatibilityVersionCode G) (c + of_nat (Suc i))) \<rparr>"
    using assms(1) by (auto simp: withTags_def)
  then have "\<not> isBeacon (msgs ! i)"
    by (intro outgoingKind_not_beacon assms(2) nth_mem)
  with i show ?thesis
    by (simp add: isBeacon_def)
qed

text \<open>The beacons heard from one peer, and those of them that differ from the one before.\<close>

definition beaconsFrom :: "thread_settings \<Rightarrow> ZGPeerID \<Rightarrow> 'm net_message list \<Rightarrow> PZGBeaconData list" where
  "beaconsFrom G peer msgs =
     map (\<lambda>msg. the (beaconField msg))
       (filter (\<lambda>msg. isBeacon msg \<and> acceptable G msg \<and> GetPeerID (tagOf msg) = peer \<and> beaconField msg \<noteq> None) msgs)"

fun changes :: "PZGBeaconData option \<Rightarrow> PZGBeaconData list \<Rightarrow> PZGBeaconData list" where
  "changes prev [] = []"
| "changes prev (b # bs) = (if prev = Some b then changes prev bs else b # changes (Some b) bs)"

definition beaconsToOwner :: "'m multicast_thread \<Rightarrow> (PZGMulticastMessageTag option \<times> PZGBeaconData option) list" where
  "beaconsToOwner t = map (\<lambda>msg. (multicastTag msg, beaconField msg)) (filter isBeacon (sentToOwner t))"

lemma handleArrival_beacons:
  assumes "IsValid (thread_seniorPeerID t)"
  shows "map snd (beaconsToOwner (handleArrival G msg t)) =
      map snd (beaconsToOwner t) @ map Some (changes (lastReceivedBeaconData t) (beaconsFrom G (thread_seniorPeerID t) [msg])) \<and>
    lastReceivedBeaconData (handleArrival G msg t) =
      (case beaconsFrom G (thread_seniorPeerID t) [msg] of [] \<Rightarrow> lastReceivedBeaconData t | b # _ \<Rightarrow> Some b)"
proof (cases "isBeacon msg")
  case True
  have [simp]: "beaconField (CreateBeaconDataMessage b tag) = b" for b tag
    by (simp add: CreateBeaconDataMessage_def AddTag_def bareMessage_def Let_def)
  show ?thesis
    using True assms
    by (auto simp: handleArrival_beacon handleBeacon_def beaconsFrom_def beaconsToOwner_def SendMessageToOwner_def
        GetBeaconDataFromMessage_def isBeacon_CreateBeaconDataMessage split: option.splits)
next
  case False
  then show ?thesis
    by (simp add: handleArrival_plain beaconsFrom_def beaconsToOwner_def)
qed

section \<open>Properties\<close>

text \<open>
  C11: duplicates are removed as a reference says.  Whatever the main thread sends and
  whatever arrives on whichever sockets, the updates and user messages the multicast thread
  hands to the main thread are exactly those the reference \<open>passOn\<close> lets through: tagged with
  our version by another peer, and with a tag none of the last 1000 passed on has.
\<close>

theorem multicast_filter_reference:
  "forwarded (threadRun G Es newMulticastThread) = passOn G [] (heardInRun G Es newMulticastThread)"
  using threadRun_cache [OF cacheInv_new, of G Es]
  by (simp add: newMulticastThread_def forwarded_def)

text \<open>
  The duplicate cache stays small and does its work.  After any run of the thread the
  table holds at most 1000 tags, all different, and of any 1000 consecutive messages handed to
  the main thread no two have the same tag.
\<close>

theorem multicast_cache_bounds:
  "length (recentlyReceived (threadRun G Es newMulticastThread)) \<le> 1000 \<and>
   distinct (recentlyReceived (threadRun G Es newMulticastThread)) \<and>
   (\<forall>i j. i < j \<and> j < length (forwarded (threadRun G Es newMulticastThread)) \<and> j - i < 1000 \<longrightarrow>
      multicastTag (forwarded (threadRun G Es newMulticastThread) ! i) \<noteq>
      multicastTag (forwarded (threadRun G Es newMulticastThread) ! j))"
proof (intro conjI allI impI)
  let ?t = "threadRun G Es newMulticastThread"
  let ?out = "forwarded ?t"
  have inv: "cacheInv ?t" and out: "?out = passOn G [] (heardInRun G Es newMulticastThread)"
    using threadRun_cache [OF cacheInv_new, of G Es] by (simp_all add: newMulticastThread_def forwarded_def)
  show "length (recentlyReceived ?t) \<le> 1000" "distinct (recentlyReceived ?t)"
    using inv by (auto simp: cacheInv_def MaxRecentlyReceived_def)
  fix i j
  assume ij: "i < j \<and> j < length ?out \<and> j - i < 1000"
  have win: "\<And>k. k \<le> length (map tagOf ?out) \<Longrightarrow> distinct (lastN MaxRecentlyReceived (take k (map tagOf ?out)))"
    using passOn_windows [of "[]" _ G "heardInRun G Es newMulticastThread"] by (simp add: out lastN_def)
  have "map tagOf ?out ! i \<noteq> map tagOf ?out ! j"
    by (rule windows_distinct [OF win]) (use ij in \<open>simp_all add: MaxRecentlyReceived_def\<close>)
  then show "multicastTag (?out ! i) \<noteq> multicastTag (?out ! j)"
    using ij by auto
qed

text \<open>
  C10: a multicast message is delivered exactly once.  A peer's thread is handed at most 1000
  updates and user messages and puts them on its socket \<open>i\<close>.  Another peer of the same version
  hears them in any order, any of them any number of times, on any sockets.  Its main thread
  is then handed each message it heard once and nothing else.
\<close>

theorem multicast_exactly_once:
  assumes "i < length (ptGateways t)" "ptGateways t ! i = []" "length msgs \<le> 1000"
    and "\<forall>msg \<in> set msgs. outgoingKind msg \<and> multicastTag msg = None"
    and "set (heardInRun R Es newMulticastThread) \<subseteq> set (ptGateways (fold (handleOwnerMessage G) msgs t) ! i)"
    and "thread_localPeerID R \<noteq> thread_localPeerID G" "compatibilityVersionCode R = compatibilityVersionCode G"
  shows "distinct (forwarded (threadRun R Es newMulticastThread)) \<and>
    set (forwarded (threadRun R Es newMulticastThread)) = set (heardInRun R Es newMulticastThread)"
proof -
  let ?c = "outgoingMulticastMessageTagCounter t" and ?heard = "heardInRun R Es newMulticastThread"
  let ?out = "passOn R [] ?heard"
  have sub: "set ?heard \<subseteq> set (withTags G ?c msgs)"
    using assms(5) handleOwnerMessages_withTags [OF assms(1)] assms(2,4) by simp
  have ok: "\<not> isBeacon x \<and> acceptable R x" if "x \<in> set ?heard" for x
    using withTags_facts [of x G ?c msgs] that sub assms(4,6,7) by (fastforce simp: acceptable_def)
  have "card (tagOf ` set ?heard) \<le> card (set (withTags G ?c msgs))"
    using sub by (meson List.finite_set card_image_le card_mono finite_imageI image_mono order_trans)
  also have "\<dots> \<le> MaxRecentlyReceived"
    using card_length [of "withTags G ?c msgs"] assms(3) by (simp add: withTags_def MaxRecentlyReceived_def)
  finally have out: "distinct (map tagOf ?out)" "tagOf ` set ?out = tagOf ` set ?heard"
    using passOn_few [of "[]" ?heard R] ok by simp_all
  have inj: "x = y" if "x \<in> set ?heard" "y \<in> set ?heard" "tagOf x = tagOf y" for x y
    using that sub assms(3) by (intro withTags_inject [of msgs x G ?c y]) auto
  have "set ?out \<subseteq> set ?heard"
    using passOn_extends [of R "[]" ?heard] by auto
  then have "set ?out = set ?heard"
    using inj out(2) by blast
  then show ?thesis
    using out(1) threadRun_cache [OF cacheInv_new, of R Es]
    by (simp add: distinct_map newMulticastThread_def forwarded_def)
qed

text \<open>
  Beacons come from the senior peer and are passed on when they change.  While the thread
  knows the senior peer, the beacons it hands to the main thread for any sequence of arrivals
  are the beacons of that peer that differ from the one received before; while it knows none,
  it hands over no beacon at all.
\<close>

theorem beacons_passed_on_change:
  "map snd (beaconsToOwner (fold (handleArrival G) msgs t)) =
     map snd (beaconsToOwner t) @
     (if IsValid (thread_seniorPeerID t)
      then map Some (changes (lastReceivedBeaconData t) (beaconsFrom G (thread_seniorPeerID t) msgs)) else [])"
proof (induction msgs arbitrary: t)
  case (Cons msg msgs)
  let ?s = "thread_seniorPeerID t"
  show ?case
  proof (cases "IsValid ?s")
    case True
    have split: "beaconsFrom G ?s (msg # msgs) = beaconsFrom G ?s [msg] @ beaconsFrom G ?s msgs"
      by (simp add: beaconsFrom_def)
    have "length (beaconsFrom G ?s [msg]) \<le> 1"
      by (simp add: beaconsFrom_def)
    then consider "beaconsFrom G ?s [msg] = []" | b where "beaconsFrom G ?s [msg] = [b]"
      by (cases "beaconsFrom G ?s [msg]") auto
    then show ?thesis
      using handleArrival_beacons [OF True, of G msg] True
      by cases (simp_all add: Cons.IH frame split)
  next
    case False
    then have "map snd (beaconsToOwner (handleArrival G msg t)) = map snd (beaconsToOwner t)"
      by (cases "isBeacon msg")
        (simp_all add: handleArrival_beacon handleArrival_plain handleBeacon_def beaconsToOwner_def)
    then show ?thesis
      using False by (simp add: Cons.IH frame)
  qed
qed (simp add: beaconsFrom_def)

end
