(* ===== verification/ZG_NetworkIO.thy ===== *)
theory ZG_NetworkIO
  imports ZG_MulticastThread
begin

text \<open>
  The main-thread side of \<^verbatim>\<open>PZGNetworkIOSession\<close> and the TCP connections it keeps,
  \<^verbatim>\<open>PZGUnicastSession\<close>.

  Unicast sessions are objects, so they live in a store: \<open>unicastSessions\<close> maps the number of a
  session to its fields, and the two tables of the network session hold numbers.  The
  \<^verbatim>\<open>ZGPeerSession\<close> behind \<^verbatim>\<open>_master\<close> is the field \<open>net_master\<close>.  Its methods are called through
  the record \<open>master_calls\<close>; a method that may call back into the network session (a failed
  back-order makes a database ask for another one) is a function on the whole network state.
  \<open>sessionCalls\<close>, at the end of the definitions, fills that record with the methods of
  \<open>ZG_PeerSession\<close>.

  \<open>net_env\<close> holds the results of what MUSCLE does: handing a message to the connection and
  starting a connection.
\<close>

section \<open>Unicast sessions\<close>

datatype 'm unicast_message =
    ANNOUNCE_UNICAST_PEER_ID "ZGPeerID option"
  | REQUEST_BACK_ORDER "PZGUpdateBackOrderKey option" bool
  | REPLY_BACK_ORDER "PZGUpdateBackOrderKey option" "'m PZGDatabaseUpdate option"
  | PEER_MESSAGE "'m peer_message"

record 'm PZGUnicastSession =
  remotePeerID :: ZGPeerID
  hasMaster :: bool
  us_backorders :: "PZGUpdateBackOrderKey list"
  us_outgoing :: "'m unicast_message list"
  us_ended :: bool

type_synonym ip_address_and_port = "u64 \<times> u16"

definition newPZGUnicastSession :: "ZGPeerID \<Rightarrow> 'm PZGUnicastSession" where
  "newPZGUnicastSession peerID =
     \<lparr> remotePeerID = peerID, hasMaster = True, us_backorders = [], us_outgoing = [], us_ended = False \<rparr>"

section \<open>The network session\<close>

record ('m, 'p) network =
  net_localPeerID :: ZGPeerID
  hbSettings :: bool
  net_master :: "'p option"
  mainThreadPeers :: "(ZGPeerID \<times> ip_address_and_port list) list"
  namedUnicastSessions :: "(ZGPeerID \<times> nat list) list"
  registeredUnicastSessions :: "nat list"
  messagesSentToSelf :: "'m peer_message list"
  net_seniorPeerID :: ZGPeerID
  computerIsAsleep :: bool
  unicastSessions :: "nat \<Rightarrow> 'm PZGUnicastSession"
  nextUnicastSession :: nat
  toInternalThread :: "'m net_message list"

record 'm net_env =
  AddOutgoingResult :: "nat \<Rightarrow> 'm unicast_message \<Rightarrow> status_t"
  AddNewConnectResult :: "ip_address_and_port \<Rightarrow> status_t"
  iap_IsValid :: "ip_address_and_port \<Rightarrow> bool"

record ('m, 'p) master_calls =
  call_BackOrderResultReceived ::
    "PZGUpdateBackOrderKey \<Rightarrow> 'm PZGDatabaseUpdate option \<Rightarrow> ('m, 'p) network \<Rightarrow> ('m, 'p) network"
  call_GetDatabaseUpdateByID :: "u32 \<Rightarrow> u64 \<Rightarrow> 'p \<Rightarrow> 'm PZGDatabaseUpdate option"
  call_VerifyOrFixLocalDatabaseChecksum :: "u32 \<Rightarrow> 'p \<Rightarrow> 'p"
  call_PrivateMessageReceivedFromPeer :: "ZGPeerID \<Rightarrow> 'm peer_message \<Rightarrow> ('m, 'p) network \<Rightarrow> ('m, 'p) network"
  call_BeaconDataChanged :: "PZGBeaconData \<Rightarrow> ('m, 'p) network \<Rightarrow> ('m, 'p) network"
  call_PeerHasComeOnline :: "ZGPeerID \<Rightarrow> 'm option \<Rightarrow> 'p \<Rightarrow> 'p"
  call_PeerHasGoneOffline :: "ZGPeerID \<Rightarrow> 'p \<Rightarrow> 'p"
  call_SeniorPeerChanged :: "ZGPeerID \<Rightarrow> 'p \<Rightarrow> 'p"
  call_GetOnlinePeers :: "'p \<Rightarrow> (ZGPeerID \<times> 'm option) list"

definition newPZGNetworkIOSession :: "ZGPeerID \<Rightarrow> 'p \<Rightarrow> ('m, 'p) network" where
  "newPZGNetworkIOSession pid master =
     \<lparr> net_localPeerID = pid, hbSettings = False, net_master = Some master, mainThreadPeers = [],
       namedUnicastSessions = [], registeredUnicastSessions = [], messagesSentToSelf = [],
       net_seniorPeerID = invalidPeerID, computerIsAsleep = False,
       unicastSessions = (\<lambda>_. newPZGUnicastSession invalidPeerID), nextUnicastSession = 0, toInternalThread = [] \<rparr>"

definition updateSession ::
  "nat \<Rightarrow> ('m PZGUnicastSession \<Rightarrow> 'm PZGUnicastSession) \<Rightarrow> ('m, 'p) network \<Rightarrow> ('m, 'p) network" where
  "updateSession k f n = n \<lparr> unicastSessions := (unicastSessions n)(k := f (unicastSessions n k)) \<rparr>"

definition onMaster :: "('p \<Rightarrow> 'p) \<Rightarrow> ('m, 'p) network \<Rightarrow> ('m, 'p) network" where
  "onMaster f n = n \<lparr> net_master := map_option f (net_master n) \<rparr>"

definition SendMessageToInternalThread :: "'m net_message \<Rightarrow> ('m, 'p) network \<Rightarrow> ('m, 'p) network" where
  "SendMessageToInternalThread msg n = n \<lparr> toInternalThread := toInternalThread n @ [msg] \<rparr>"

section \<open>Registration\<close>

definition queueFor :: "ZGPeerID \<Rightarrow> ('m, 'p) network \<Rightarrow> nat list" where
  "queueFor peerID n = (case tabGet fst peerID (namedUnicastSessions n) of Some (_, q) \<Rightarrow> q | None \<Rightarrow> [])"

definition RegisterUnicastSession :: "nat \<Rightarrow> ('m, 'p) network \<Rightarrow> ('m, 'p) network" where
  "RegisterUnicastSession k n =
     (let peerID = remotePeerID (unicastSessions n k);
          n1 = n \<lparr> registeredUnicastSessions := tabPut id k (registeredUnicastSessions n) \<rparr>
      in if IsValid peerID
         then n1 \<lparr> namedUnicastSessions := tabPut fst (peerID, queueFor peerID n1 @ [k]) (namedUnicastSessions n1) \<rparr>
         else n1)"

definition UnregisterUnicastSession :: "nat \<Rightarrow> ('m, 'p) network \<Rightarrow> ('m, 'p) network" where
  "UnregisterUnicastSession k n =
     (let peerID = remotePeerID (unicastSessions n k);
          n1 = n \<lparr> registeredUnicastSessions := tabRemove id k (registeredUnicastSessions n) \<rparr>
      in if IsValid peerID then
           (case tabGet fst peerID (namedUnicastSessions n1) of
              Some (_, q) \<Rightarrow>
                (let q' = filter (\<lambda>s. s \<noteq> k) q
                 in if length q' < length q \<and> q' = []
                    then n1 \<lparr> namedUnicastSessions := tabRemove fst peerID (namedUnicastSessions n1) \<rparr>
                    else n1 \<lparr> namedUnicastSessions := tabPut fst (peerID, q') (namedUnicastSessions n1) \<rparr>)
            | None \<Rightarrow> n1)
         else n1)"

definition RegisterMyself :: "nat \<Rightarrow> ('m, 'p) network \<Rightarrow> ('m, 'p) network" where
  "RegisterMyself k n = (if hasMaster (unicastSessions n k) then RegisterUnicastSession k n else n)"

definition net_BackOrderResultReceived ::
  "('m, 'p) master_calls \<Rightarrow> PZGUpdateBackOrderKey \<Rightarrow> 'm PZGDatabaseUpdate option \<Rightarrow> ('m, 'p) network \<Rightarrow> ('m, 'p) network" where
  "net_BackOrderResultReceived M ubok optDBUp n =
     (if net_master n = None then n else call_BackOrderResultReceived M ubok optDBUp n)"

text \<open>
  The loop over \<open>_backorders\<close>: MUSCLE iterators stay valid while the table changes, and a key
  that is put during the loop goes to the end and is visited too.
\<close>

partial_function (option) failBackOrders ::
  "('m, 'p) master_calls \<Rightarrow> nat \<Rightarrow> nat \<Rightarrow> ('m, 'p) network \<Rightarrow> ('m, 'p) network option" where
  "failBackOrders M k pos n =
     (if pos < length (us_backorders (unicastSessions n k))
      then failBackOrders M k (Suc pos)
             (net_BackOrderResultReceived M (us_backorders (unicastSessions n k) ! pos) None n)
      else Some n)"

definition UnregisterMyself ::
  "('m, 'p) master_calls \<Rightarrow> nat \<Rightarrow> bool \<Rightarrow> ('m, 'p) network \<Rightarrow> ('m, 'p) network option" where
  "UnregisterMyself M k forGood n =
     (case (if hasMaster (unicastSessions n k) then failBackOrders M k 0 n else Some n) of
        None \<Rightarrow> None
      | Some n1 \<Rightarrow>
          (let n2 = updateSession k (\<lambda>s. s \<lparr> us_backorders := [] \<rparr>) n1
           in Some (if hasMaster (unicastSessions n2 k)
                    then (let n3 = UnregisterUnicastSession k n2
                          in if forGood then updateSession k (\<lambda>s. s \<lparr> hasMaster := False \<rparr>) n3 else n3)
                    else n2)))"

definition us_EndSession :: "('m, 'p) master_calls \<Rightarrow> nat \<Rightarrow> ('m, 'p) network \<Rightarrow> ('m, 'p) network option" where
  "us_EndSession M k n =
     map_option (updateSession k (\<lambda>s. s \<lparr> us_ended := True \<rparr>)) (UnregisterMyself M k True n)"

definition us_AboutToDetachFromServer ::
  "('m, 'p) master_calls \<Rightarrow> nat \<Rightarrow> ('m, 'p) network \<Rightarrow> ('m, 'p) network option" where
  "us_AboutToDetachFromServer M k n = UnregisterMyself M k True n"

section \<open>Sending\<close>

definition us_AddOutgoingMessage ::
  "'m net_env \<Rightarrow> nat \<Rightarrow> 'm unicast_message \<Rightarrow> ('m, 'p) network \<Rightarrow> status_t \<times> ('m, 'p) network" where
  "us_AddOutgoingMessage V k msg n =
     (let st = AddOutgoingResult V k msg
      in (st, if IsOK st then updateSession k (\<lambda>s. s \<lparr> us_outgoing := us_outgoing s @ [msg] \<rparr>) n else n))"

definition us_AttachedToServer :: "'m net_env \<Rightarrow> nat \<Rightarrow> ('m, 'p) network \<Rightarrow> ('m, 'p) network" where
  "us_AttachedToServer V k n =
     (let n1 = RegisterMyself k n
      in if IsValid (remotePeerID (unicastSessions n1 k))
         then snd (us_AddOutgoingMessage V k (ANNOUNCE_UNICAST_PEER_ID (Some (net_localPeerID n1))) n1)
         else n1)"

definition us_RequestBackOrderFromSeniorPeer ::
  "'m net_env \<Rightarrow> nat \<Rightarrow> PZGUpdateBackOrderKey \<Rightarrow> bool \<Rightarrow> ('m, 'p) network \<Rightarrow> status_t \<times> ('m, 'p) network" where
  "us_RequestBackOrderFromSeniorPeer V k ubok dueToChecksumError n =
     (if ubok \<in> set (us_backorders (unicastSessions n k)) then (B_NO_ERROR, n)
      else let (st, n1) = us_AddOutgoingMessage V k (REQUEST_BACK_ORDER (Some ubok) dueToChecksumError) n
           in if IsError st then (st, n1)
              else (B_NO_ERROR, updateSession k (\<lambda>s. s \<lparr> us_backorders := us_backorders s @ [ubok] \<rparr>) n1))"

definition GetUnicastIPAddressAndPortForPeerID ::
  "ZGPeerID \<Rightarrow> nat \<Rightarrow> ('m, 'p) network \<Rightarrow> ip_address_and_port option" where
  "GetUnicastIPAddressAndPortForPeerID peerID index n =
     (case tabGet fst peerID (mainThreadPeers n) of
        Some (_, packets) \<Rightarrow> if index \<ge> length packets then None else Some (packets ! index)
      | None \<Rightarrow> None)"

definition GetUnicastSessionForPeerID ::
  "'m net_env \<Rightarrow> ZGPeerID \<Rightarrow> bool \<Rightarrow> ('m, 'p) network \<Rightarrow> (status_t + nat) \<times> ('m, 'p) network" where
  "GetUnicastSessionForPeerID V peerID allocIfNecessary n =
     (case queueFor peerID n of
        k # _ \<Rightarrow> (Inr k, n)
      | [] \<Rightarrow>
          (if \<not> allocIfNecessary then (Inl B_DATA_NOT_FOUND, n)
           else case GetUnicastIPAddressAndPortForPeerID peerID 0 n of
                  None \<Rightarrow> (Inl B_DATA_NOT_FOUND, n)
                | Some iap \<Rightarrow>
                    (if \<not> iap_IsValid V iap then (Inl B_DATA_NOT_FOUND, n)
                     else let k = nextUnicastSession n;
                              st = AddNewConnectResult V iap;
                              n1 = n \<lparr> nextUnicastSession := Suc k,
                                       unicastSessions := (unicastSessions n)(k := newPZGUnicastSession peerID) \<rparr>
                          in if IsError st then (Inl st, n1) else (Inr k, us_AttachedToServer V k n1))))"

definition SendUnicastMessageToPeer ::
  "'m net_env \<Rightarrow> ZGPeerID \<Rightarrow> 'm peer_message \<Rightarrow> ('m, 'p) network \<Rightarrow> status_t \<times> ('m, 'p) network" where
  "SendUnicastMessageToPeer V peerID msg n =
     (if \<not> hbSettings n then (B_BAD_OBJECT, n)
      else if peerID = net_localPeerID n
      then (B_NO_ERROR, n \<lparr> messagesSentToSelf := messagesSentToSelf n @ [msg] \<rparr>)
      else case GetUnicastSessionForPeerID V peerID True n of
             (Inr k, n1) \<Rightarrow> us_AddOutgoingMessage V k (PEER_MESSAGE msg) n1
           | (Inl _, n1) \<Rightarrow> (B_DATA_NOT_FOUND, n1))"

fun sendToEach ::
  "'m net_env \<Rightarrow> bool \<Rightarrow> 'm peer_message \<Rightarrow> ZGPeerID list \<Rightarrow> ('m, 'p) network \<Rightarrow> status_t \<times> ('m, 'p) network" where
  "sendToEach V sendToSelf msg [] n = (B_NO_ERROR, n)"
| "sendToEach V sendToSelf msg (peerID # peerIDs) n =
     (if \<not> sendToSelf \<and> peerID = net_localPeerID n then sendToEach V sendToSelf msg peerIDs n
      else let (st, n1) = SendUnicastMessageToPeer V peerID msg n
           in if IsError st then (st, n1) else sendToEach V sendToSelf msg peerIDs n1)"

definition SendUnicastMessageToAllPeers ::
  "'m net_env \<Rightarrow> 'm peer_message \<Rightarrow> bool \<Rightarrow> ('m, 'p) network \<Rightarrow> status_t \<times> ('m, 'p) network" where
  "SendUnicastMessageToAllPeers V msg sendToSelf n = sendToEach V sendToSelf msg (map fst (mainThreadPeers n)) n"

definition net_RequestBackOrderFromSeniorPeer ::
  "'m net_env \<Rightarrow> PZGUpdateBackOrderKey \<Rightarrow> bool \<Rightarrow> ('m, 'p) network \<Rightarrow> status_t \<times> ('m, 'p) network" where
  "net_RequestBackOrderFromSeniorPeer V ubok dueToChecksumError n =
     (if \<not> hbSettings n then (B_BAD_OBJECT, n)
      else if GetTargetPeerID ubok = net_localPeerID n then (B_UNIMPLEMENTED, n)
      else case GetUnicastSessionForPeerID V (GetTargetPeerID ubok) True n of
             (Inr k, n1) \<Rightarrow> us_RequestBackOrderFromSeniorPeer V k ubok dueToChecksumError n1
           | (Inl _, n1) \<Rightarrow> (B_DATA_NOT_FOUND, n1))"

definition net_SetBeaconData :: "PZGBeaconData option \<Rightarrow> ('m, 'p) network \<Rightarrow> ('m, 'p) network" where
  "net_SetBeaconData optBeaconData n = SendMessageToInternalThread (CreateBeaconDataMessage optBeaconData noMulticastTag) n"

section \<open>Receiving\<close>

definition net_UnicastMessageReceivedFromPeer ::
  "('m, 'p) master_calls \<Rightarrow> ZGPeerID \<Rightarrow> 'm peer_message \<Rightarrow> ('m, 'p) network \<Rightarrow> ('m, 'p) network" where
  "net_UnicastMessageReceivedFromPeer M peerID msg n =
     (if net_master n = None then n else call_PrivateMessageReceivedFromPeer M peerID msg n)"

definition net_GetDatabaseUpdateByID ::
  "('m, 'p) master_calls \<Rightarrow> u32 \<Rightarrow> u64 \<Rightarrow> ('m, 'p) network \<Rightarrow> 'm PZGDatabaseUpdate option" where
  "net_GetDatabaseUpdateByID M whichDB uid n =
     (case net_master n of Some p \<Rightarrow> call_GetDatabaseUpdateByID M whichDB uid p | None \<Rightarrow> None)"

definition net_VerifyOrFixLocalDatabaseChecksum ::
  "('m, 'p) master_calls \<Rightarrow> u32 \<Rightarrow> ('m, 'p) network \<Rightarrow> ('m, 'p) network" where
  "net_VerifyOrFixLocalDatabaseChecksum M whichDB n = onMaster (call_VerifyOrFixLocalDatabaseChecksum M whichDB) n"

definition announceReceived ::
  "('m, 'p) master_calls \<Rightarrow> nat \<Rightarrow> ZGPeerID option \<Rightarrow> ('m, 'p) network \<Rightarrow> ('m, 'p) network option" where
  "announceReceived M k optPeerID n =
     (case UnregisterMyself M k False n of
        None \<Rightarrow> None
      | Some n1 \<Rightarrow>
          (case optPeerID of
             Some peerID \<Rightarrow>
               Some (RegisterMyself k (updateSession k (\<lambda>s. s \<lparr> us_backorders := [], remotePeerID := peerID \<rparr>) n1))
           | None \<Rightarrow> us_EndSession M k (updateSession k (\<lambda>s. s \<lparr> us_backorders := [] \<rparr>) n1)))"

definition backOrderRequested ::
  "('m, 'p) master_calls \<Rightarrow> 'm net_env \<Rightarrow> nat \<Rightarrow> PZGUpdateBackOrderKey \<Rightarrow> bool \<Rightarrow> ('m, 'p) network \<Rightarrow>
   ('m, 'p) network option" where
  "backOrderRequested M V k ubok checksumMismatch n =
     (let whichDB = GetDatabaseIndex ubok;
          uid = GetDatabaseUpdateID ubok;
          n1 = (if uid = DATABASE_UPDATE_ID_FULL_UPDATE \<and> checksumMismatch
                then net_VerifyOrFixLocalDatabaseChecksum M whichDB n else n);
          dbUp = net_GetDatabaseUpdateByID M whichDB uid n1;
          (st, n2) = us_AddOutgoingMessage V k (REPLY_BACK_ORDER (Some ubok) dbUp) n1
      in if IsError st then us_EndSession M k n2 else Some n2)"

definition backOrderReplied ::
  "('m, 'p) master_calls \<Rightarrow> nat \<Rightarrow> PZGUpdateBackOrderKey \<Rightarrow> 'm PZGDatabaseUpdate option \<Rightarrow> ('m, 'p) network \<Rightarrow>
   ('m, 'p) network" where
  "backOrderReplied M k ubok dbUp n =
     (if ubok \<in> set (us_backorders (unicastSessions n k))
      then net_BackOrderResultReceived M ubok dbUp
             (updateSession k (\<lambda>s. s \<lparr> us_backorders := filter (\<lambda>x. x \<noteq> ubok) (us_backorders s) \<rparr>) n)
      else n)"

definition us_MessageReceivedFromGateway ::
  "('m, 'p) master_calls \<Rightarrow> 'm net_env \<Rightarrow> nat \<Rightarrow> 'm unicast_message \<Rightarrow> ('m, 'p) network \<Rightarrow> ('m, 'p) network option" where
  "us_MessageReceivedFromGateway M V k msg n =
     (case msg of
        ANNOUNCE_UNICAST_PEER_ID optPeerID \<Rightarrow> announceReceived M k optPeerID n
      | REQUEST_BACK_ORDER (Some ubok) checksumMismatch \<Rightarrow> backOrderRequested M V k ubok checksumMismatch n
      | REPLY_BACK_ORDER (Some ubok) dbUp \<Rightarrow> Some (backOrderReplied M k ubok dbUp n)
      | REQUEST_BACK_ORDER None _ \<Rightarrow> Some n
      | REPLY_BACK_ORDER None _ \<Rightarrow> Some n
      | PEER_MESSAGE pmsg \<Rightarrow> Some (net_UnicastMessageReceivedFromPeer M (remotePeerID (unicastSessions n k)) pmsg n))"

definition MessageReceivedFromInternalThread ::
  "('m, 'p) master_calls \<Rightarrow> 'm net_message \<Rightarrow> ('m, 'p) network \<Rightarrow> ('m, 'p) network" where
  "MessageReceivedFromInternalThread M msg n =
     (case multicastTag msg of
        None \<Rightarrow> n
      | Some tag \<Rightarrow>
          (if what msg = PZG_NETWORK_COMMAND_SET_BEACON_DATA then
             (if GetPeerID tag = net_seniorPeerID n then
                (case GetBeaconDataFromMessage msg of
                   Some beaconData \<Rightarrow> call_BeaconDataChanged M beaconData n
                 | None \<Rightarrow> n)
              else SendMessageToInternalThread (bareMessage PZG_NETWORK_COMMAND_INVALIDATE_LAST_RECEIVED_BEACON_DATA) n)
           else call_PrivateMessageReceivedFromPeer M (GetPeerID tag) (peer_message.truncate msg) n))"

text \<open>The loop of \<open>Pulse\<close>: handling a message may send another one to ourselves.\<close>

partial_function (option) deliverToSelf ::
  "('m, 'p) master_calls \<Rightarrow> ('m, 'p) network \<Rightarrow> ('m, 'p) network option" where
  "deliverToSelf M n =
     (case messagesSentToSelf n of
        [] \<Rightarrow> Some n
      | msg # msgs \<Rightarrow>
          deliverToSelf M (net_UnicastMessageReceivedFromPeer M (net_localPeerID n) msg (n \<lparr> messagesSentToSelf := msgs \<rparr>)))"

definition net_Pulse :: "('m, 'p) master_calls \<Rightarrow> ('m, 'p) network \<Rightarrow> ('m, 'p) network option" where
  "net_Pulse M n = deliverToSelf M n"

section \<open>The roster\<close>

definition net_PeerHasComeOnline ::
  "('m, 'p) master_calls \<Rightarrow> ZGPeerID \<Rightarrow> 'm option \<Rightarrow> ('m, 'p) network \<Rightarrow> ('m, 'p) network" where
  "net_PeerHasComeOnline M peerID peerInfo n = onMaster (call_PeerHasComeOnline M peerID peerInfo) n"

fun endEach :: "('m, 'p) master_calls \<Rightarrow> nat list \<Rightarrow> ('m, 'p) network \<Rightarrow> ('m, 'p) network option" where
  "endEach M [] n = Some n"
| "endEach M (k # ks) n = (case us_EndSession M k n of None \<Rightarrow> None | Some n1 \<Rightarrow> endEach M ks n1)"

definition net_PeerHasGoneOffline ::
  "('m, 'p) master_calls \<Rightarrow> ZGPeerID \<Rightarrow> ('m, 'p) network \<Rightarrow> ('m, 'p) network option" where
  "net_PeerHasGoneOffline M peerID n =
     (let n1 = onMaster (call_PeerHasGoneOffline M peerID) n
      in endEach M (queueFor peerID n1) n1)"

definition net_SeniorPeerChanged ::
  "('m, 'p) master_calls \<Rightarrow> ZGPeerID \<Rightarrow> ('m, 'p) network \<Rightarrow> ('m, 'p) network" where
  "net_SeniorPeerChanged M newSeniorPeerID n =
     (if newSeniorPeerID \<noteq> net_seniorPeerID n
      then SendMessageToInternalThread
             ((bareMessage PZG_NETWORK_COMMAND_SET_SENIOR_PEER_ID) \<lparr> peerIDField := Some newSeniorPeerID \<rparr>)
             (onMaster (call_SeniorPeerChanged M newSeniorPeerID) (n \<lparr> net_seniorPeerID := newSeniorPeerID \<rparr>))
      else n)"

text \<open>The loop of \<open>ClearAllUnicastSessions\<close>: a session leaves the table while it is visited.\<close>

partial_function (option) clearLoop ::
  "('m, 'p) master_calls \<Rightarrow> nat list \<Rightarrow> ('m, 'p) network \<Rightarrow> ('m, 'p) network option" where
  "clearLoop M visited n =
     (case filter (\<lambda>k. k \<notin> set visited) (registeredUnicastSessions n) of
        [] \<Rightarrow> Some n
      | k # _ \<Rightarrow> (case us_EndSession M k n of None \<Rightarrow> None | Some n1 \<Rightarrow> clearLoop M (k # visited) n1))"

definition ClearAllUnicastSessions :: "('m, 'p) master_calls \<Rightarrow> ('m, 'p) network \<Rightarrow> ('m, 'p) network option" where
  "ClearAllUnicastSessions M n =
     map_option (\<lambda>n1. n1 \<lparr> registeredUnicastSessions := [], namedUnicastSessions := [] \<rparr>) (clearLoop M [] n)"

fun allOffline :: "('m, 'p) master_calls \<Rightarrow> ZGPeerID list \<Rightarrow> ('m, 'p) network \<Rightarrow> ('m, 'p) network option" where
  "allOffline M [] n = Some n"
| "allOffline M (peerID # peerIDs) n =
     (case net_PeerHasGoneOffline M peerID n of None \<Rightarrow> None | Some n1 \<Rightarrow> allOffline M peerIDs n1)"

definition net_ComputerIsAboutToSleep :: "('m, 'p) master_calls \<Rightarrow> ('m, 'p) network \<Rightarrow> ('m, 'p) network option" where
  "net_ComputerIsAboutToSleep M n =
     (case ClearAllUnicastSessions M (n \<lparr> mainThreadPeers := [] \<rparr>) of
        None \<Rightarrow> None
      | Some n1 \<Rightarrow>
          (let n2 = net_SeniorPeerChanged M invalidPeerID n1;
               peers = (case net_master n2 of Some p \<Rightarrow> map fst (call_GetOnlinePeers M p) | None \<Rightarrow> [])
           in map_option (\<lambda>n3. n3 \<lparr> computerIsAsleep := True \<rparr>) (allOffline M peers n2)))"

definition net_ComputerJustWokeUp :: "('m, 'p) network \<Rightarrow> ('m, 'p) network" where
  "net_ComputerJustWokeUp n = n \<lparr> computerIsAsleep := False \<rparr>"

definition net_ShutdownChildSessions :: "('m, 'p) master_calls \<Rightarrow> ('m, 'p) network \<Rightarrow> ('m, 'p) network option" where
  "net_ShutdownChildSessions M n =
     map_option (\<lambda>n1. n1 \<lparr> net_master := None \<rparr>)
       (ClearAllUnicastSessions M (n \<lparr> hbSettings := False, mainThreadPeers := [] \<rparr>))"

text \<open>The statuses are those of opening the TCP port, of adding the two child sessions and of starting the thread.\<close>

definition net_AttachedToServer ::
  "('m, 'p) master_calls \<Rightarrow> status_t \<Rightarrow> status_t \<Rightarrow> status_t \<Rightarrow> status_t \<Rightarrow> ('m, 'p) network \<Rightarrow>
   (status_t \<times> ('m, 'p) network) option" where
  "net_AttachedToServer M accept dncc heartbeat thread n =
     (if IsError accept then Some (accept, n)
      else let n1 = n \<lparr> hbSettings := True \<rparr>
           in if IsError dncc then map_option (Pair dncc) (net_ShutdownChildSessions M n1)
              else if IsError heartbeat then map_option (Pair heartbeat) (net_ShutdownChildSessions M n1)
              else Some (thread, n1))"

text \<open>\<^verbatim>\<open>PZGUnicastSessionFactory::CreateSession\<close>: a peer connects to us.\<close>

definition acceptUnicastSession :: "'m net_env \<Rightarrow> ('m, 'p) network \<Rightarrow> ('m, 'p) network" where
  "acceptUnicastSession V n =
     (let k = nextUnicastSession n
      in us_AttachedToServer V k
           (n \<lparr> nextUnicastSession := Suc k,
                unicastSessions := (unicastSessions n)(k := newPZGUnicastSession invalidPeerID) \<rparr>))"

section \<open>The peer session behind the network session\<close>

text \<open>
  What the calls of a database on the session become in the network session:
  \<^verbatim>\<open>SendDatabaseUpdateViaMulticast\<close> hands a message to the multicast thread and
  \<^verbatim>\<open>RequestBackOrderFromSeniorPeer\<close> uses a unicast session.
\<close>

definition updateMessage :: "'m PZGDatabaseUpdate \<Rightarrow> 'm net_message" where
  "updateMessage u = (bareMessage PZG_PEER_COMMAND_UPDATE_JUNIOR_DATABASE) \<lparr> databaseUpdate := Some u \<rparr>"

definition applyEffect :: "'m net_env \<Rightarrow> 'm effect \<Rightarrow> ('m, 'p) network \<Rightarrow> ('m, 'p) network" where
  "applyEffect V eff n =
     (case eff of
        MulticastUpdate u _ \<Rightarrow> SendMessageToInternalThread (updateMessage u) n
      | BackOrderRequested ubok dueToChecksumError _ \<Rightarrow> snd (net_RequestBackOrderFromSeniorPeer V ubok dueToChecksumError n)
      | ScheduledSetBeaconData \<Rightarrow> n)"

text \<open>
  A database asks the network in the state its earlier calls have left; \<open>callsBefore\<close> is the
  number of calls it had made when the method began.  Those requests neither read nor write
  the peer session, so it is put back when the method has ended.
\<close>

definition linkedEnv ::
  "'m net_env \<Rightarrow> ('m, 'p) network \<Rightarrow> nat \<Rightarrow> nat \<Rightarrow> ('db, 'm) session_env \<Rightarrow> ('db, 'm) session_env" where
  "linkedEnv V n callsBefore i E =
     E \<lparr> databaseEnv := (databaseEnv E)(i := (databaseEnv E i)
           \<lparr> SendDatabaseUpdateViaMulticast := (\<lambda>_ _. B_NO_ERROR),
             SendBackOrderRequest := (\<lambda>effs ubok dueToChecksumError.
               fst (net_RequestBackOrderFromSeniorPeer V ubok dueToChecksumError
                      (fold (applyEffect V) (drop callsBefore effs) n))) \<rparr>) \<rparr>"

type_synonym ('db, 'm) peer_network = "('m, ('db, 'm) ZGPeerSession) network"

definition linkedCall ::
  "'m net_env \<Rightarrow> ('db, 'm) session_env \<Rightarrow> nat \<Rightarrow>
   (('db, 'm) session_env \<Rightarrow> ('db, 'm) ZGPeerSession \<Rightarrow> ('db, 'm) ZGPeerSession option) \<Rightarrow>
   ('db, 'm) peer_network \<Rightarrow> ('db, 'm) peer_network option" where
  "linkedCall V E i method n =
     (case net_master n of
        None \<Rightarrow> Some n
      | Some p \<Rightarrow>
          (let callsBefore = length (effects (databases p ! i))
           in map_option
                (\<lambda>p'. (if networkIO p = None then n
                        else fold (applyEffect V) (drop callsBefore (effects (databases p' ! i))) n) \<lparr> net_master := Some p' \<rparr>)
                (method (linkedEnv V n callsBefore i E) p)))"

definition sessionCalls ::
  "'m net_env \<Rightarrow> ('db, 'm) session_env \<Rightarrow> ('m, ('db, 'm) ZGPeerSession) master_calls" where
  "sessionCalls V E =
     \<lparr> call_BackOrderResultReceived = (\<lambda>ubok u n.
         the (linkedCall V E (unat (GetDatabaseIndex ubok)) (\<lambda>E' p. Some (ps_BackOrderResultReceived E' ubok u p)) n)),
       call_GetDatabaseUpdateByID = ps_GetDatabaseUpdateByID E,
       call_VerifyOrFixLocalDatabaseChecksum = ps_VerifyOrFixLocalDatabaseChecksum E,
       call_PrivateMessageReceivedFromPeer = (\<lambda>peerID msg. onMaster (PrivateMessageReceivedFromPeer E peerID msg)),
       call_BeaconDataChanged = (\<lambda>beacon. onMaster (BeaconDataChanged E (Some beacon))),
       call_PeerHasComeOnline = ps_PeerHasComeOnline E,
       call_PeerHasGoneOffline = ps_PeerHasGoneOffline,
       call_SeniorPeerChanged = ps_SeniorPeerChanged,
       call_GetOnlinePeers = onlinePeers \<rparr>"

definition net_databasePulse ::
  "'m net_env \<Rightarrow> ('db, 'm) session_env \<Rightarrow> nat \<Rightarrow> ('db, 'm) peer_network \<Rightarrow> ('db, 'm) peer_network option" where
  "net_databasePulse V E i n = linkedCall V E i (\<lambda>E' p. databasePulse E' i p) n"

end
