(* ===== verification/ZG_BackOrders.thy ===== *)
theory ZG_BackOrders
  imports ZG_SessionReplication ZG_NetworkIO
begin

text \<open>
  Back-orders across three layers.  A database that misses an update writes a key into its own
  table of back-orders and asks the session, the network session picks a TCP connection, and
  that connection keeps the key until the reply arrives or the connection dies.  A database
  does not ask again while the key is in its table, so the tables must agree: this theory
  proves that in every reachable state the keys the databases wait for are exactly the keys
  that are outstanding on live connections.

  The hard case is a dying connection.  While it reports its keys as failed, each report may
  make a database ask for the full database, and that request goes to the dying connection
  itself.  What saves the situation is an order: on no connection does a request for a full
  database stand before a request for a single update of the same database (\<open>fullLast\<close>).
\<close>

section \<open>What a database asks for\<close>

definition isRequest :: "'m effect \<Rightarrow> bool" where
  "isRequest m \<longleftrightarrow> (\<exists>ubok b st. m = BackOrderRequested ubok b st)"

definition quiet :: "('db, 'm) PZGDatabaseState \<Rightarrow> ('db, 'm) PZGDatabaseState \<Rightarrow> bool" where
  "quiet s t \<longleftrightarrow> backorders t = backorders s \<and> whichDatabase t = whichDatabase s \<and>
     (\<exists>ms. effects t = effects s @ ms \<and> (\<forall>m \<in> set ms. \<not> isRequest m))"

definition mayAsk :: "('db, 'm) master \<Rightarrow> ('db, 'm) PZGDatabaseState \<Rightarrow> PZGUpdateBackOrderKey \<Rightarrow> bool" where
  "mayAsk e s ubok \<longleftrightarrow>
     ubok \<notin> set (backorders s) \<and> GetTargetPeerID ubok = GetSeniorPeerID e \<and> GetDatabaseIndex ubok = whichDatabase s \<and>
     (GetDatabaseUpdateID ubok = DATABASE_UPDATE_ID_FULL_UPDATE \<or> fullUpdateKey e s \<notin> set (backorders s))"

inductive asks :: "('db, 'm) master \<Rightarrow> ('db, 'm) PZGDatabaseState \<Rightarrow> ('db, 'm) PZGDatabaseState \<Rightarrow> bool"
  for e :: "('db, 'm) master" and s :: "('db, 'm) PZGDatabaseState" where
  asks_refl: "asks e s s"
| asks_quiet: "asks e s t \<Longrightarrow> quiet t u \<Longrightarrow> asks e s u"
| asks_request: "asks e s t \<Longrightarrow> mayAsk e t ubok \<Longrightarrow> asks e s (snd (RequestBackOrderFromSeniorPeer e ubok b t))"

lemma asks_trans: "asks e t u \<Longrightarrow> asks e s t \<Longrightarrow> asks e s u"
  by (induction rule: asks.induct) (auto intro: asks.intros)

lemma quiet_asks: "quiet s t \<Longrightarrow> asks e s t"
  by (blast intro: asks.intros)

lemma quiet_refl [simp]: "quiet s s"
  by (simp add: quiet_def)

lemma quiet_trans: "quiet s t \<Longrightarrow> quiet t u \<Longrightarrow> quiet s u"
  unfolding quiet_def by (metis Un_iff append_assoc set_append)

lemma quiet_same:
  "backorders t = backorders s \<Longrightarrow> whichDatabase t = whichDatabase s \<Longrightarrow> effects t = effects s \<Longrightarrow> quiet s t"
  by (simp add: quiet_def)

lemma RequestBackOrder_present:
  "ubok \<in> set (backorders s) \<Longrightarrow> RequestBackOrderFromSeniorPeer e ubok b s = (B_NO_ERROR, s)"
  by (simp add: RequestBackOrderFromSeniorPeer_def)

lemma asks_full: "asks e s (snd (RequestFullDatabaseResendFromSeniorPeer e b s))"
proof (cases "fullUpdateKey e s \<in> set (backorders s)")
  case True
  then show ?thesis
    by (simp add: RequestFullDatabaseResendFromSeniorPeer_def RequestBackOrder_present asks_refl)
next
  case False
  then show ?thesis
    unfolding RequestFullDatabaseResendFromSeniorPeer_def
    by (intro asks_request asks_refl) (simp add: mayAsk_def fullUpdateKey_def)
qed

lemma backOrderLoop_asks:
  assumes "backOrderLoop e target uid s = Some s'" "target \<noteq> - 1" "fullUpdateKey e s \<notin> set (backorders s)"
  shows "asks e s s'"
proof -
  have "target \<noteq> - 1 \<longrightarrow> fullUpdateKey e s \<notin> set (backorders s) \<longrightarrow> asks e s s'"
  proof (rule backOrderLoop.raw_induct [where P = "\<lambda>e target uid s s'. target \<noteq> - 1 \<longrightarrow>
      fullUpdateKey e s \<notin> set (backorders s) \<longrightarrow> asks e s s'", OF _ assms(1)], intro impI)
    fix f :: "('a, 'b) master \<Rightarrow> u64 \<Rightarrow> u64 \<Rightarrow> ('a, 'b) PZGDatabaseState \<Rightarrow> ('a, 'b) PZGDatabaseState option"
      and e :: "('a, 'b) master" and target uid :: u64 and s y :: "('a, 'b) PZGDatabaseState"
    let ?k = "PZGUpdateBackOrderKey (GetSeniorPeerID e) (whichDatabase s) uid"
    let ?r = "RequestBackOrderFromSeniorPeer e ?k False s"
    assume IH: "\<And>e target uid s y. f e target uid s = Some y \<Longrightarrow>
        target \<noteq> - 1 \<longrightarrow> fullUpdateKey e s \<notin> set (backorders s) \<longrightarrow> asks e s y"
      and step: "(if uid \<le> target
         then if tabHas updateID uid (updateLog s) then f e target (uid + 1) s
              else let ubok = ?k in
                   if ubok \<in> set (backorders s) then f e target (uid + 1) s
                   else let r = RequestBackOrderFromSeniorPeer e ubok False s in
                        if IsOK (fst r) then f e target (uid + 1) (snd r)
                        else Some (snd (RequestFullDatabaseResendFromSeniorPeer e False (snd r)))
         else Some s) = Some y"
      and target: "target \<noteq> - 1" and full: "fullUpdateKey e s \<notin> set (backorders s)"
    show "asks e s y"
    proof (cases "uid \<le> target \<and> \<not> tabHas updateID uid (updateLog s) \<and> ?k \<notin> set (backorders s)")
      case False
      then show ?thesis
        using step IH [of e target "uid + 1" s y] target full by (auto simp: Let_def asks_refl split: if_splits)
    next
      case True
      then have "uid \<noteq> - 1"
        using target by (metis word_order.extremum_uniqueI)
      then have ask: "asks e s (snd ?r)" and full': "fullUpdateKey e (snd ?r) \<notin> set (backorders (snd ?r))"
        using True full
        by (auto intro!: asks_request asks_refl simp: mayAsk_def)
          (auto simp: RequestBackOrderFromSeniorPeer_def fullUpdateKey_def Let_def split: if_splits)
      from True step consider "IsOK (fst ?r)" "f e target (uid + 1) (snd ?r) = Some y"
        | "y = snd (RequestFullDatabaseResendFromSeniorPeer e False (snd ?r))"
        by (auto simp: Let_def split: if_splits)
      then show ?thesis
        using IH [of e target "uid + 1" "snd ?r" y] target full' ask asks_full [of e "snd ?r" False]
        by cases (blast intro: asks_trans)+
    qed
  qed
  with assms show ?thesis
    by blast
qed

lemma JuniorAux_effects [simp]: "effects (snd (JuniorExecuteDatabaseUpdateAux e u s)) = effects s"
  by (simp add: JuniorExecuteDatabaseUpdateAux_def Let_def split: update_type.split option.split prod.split)

lemma JuniorExecute_quiet: "quiet s (snd (JuniorExecuteDatabaseUpdate e u s))"
  by (rule quiet_same) (simp_all add: JuniorExecuteDatabaseUpdate_def Let_def split_beta)

lemma JuniorReplace_quiet: "quiet s (snd (JuniorExecuteDatabaseReplace e u s))"
  by (rule quiet_same) (simp_all add: JuniorExecuteDatabaseReplace_def Let_def split_beta)

lemma juniorAdvance_asks:
  assumes "juniorAdvance e target s = Some s'" "target \<noteq> - 1" "fullUpdateKey e s \<notin> set (backorders s)"
  shows "asks e s s'"
  using assms
proof (induction e target s rule: juniorAdvance.induct)
  case (1 e target s)
  show ?case
  proof (cases "localDatabaseStateID s < target")
    case False
    then show ?thesis
      using 1(2) by (subst (asm) juniorAdvance.simps) (simp add: asks_refl)
  next
    case True
    show ?thesis
    proof (cases "logGet (localDatabaseStateID s + 1) (updateLog s)")
      case None
      then show ?thesis
        using True 1(2-4) by (subst (asm) juniorAdvance.simps)
          (auto simp: Let_def asks_refl asks_full split: if_splits intro: backOrderLoop_asks)
    next
      case (Some u)
      let ?r = "JuniorExecuteDatabaseUpdate e u s"
      have q: "quiet s (snd ?r)"
        by (rule JuniorExecute_quiet)
      show ?thesis
      proof (cases "IsOK (fst ?r)")
        case ok: True
        have "juniorAdvance e target (snd ?r) = Some s'"
          using True Some ok 1(2) by (subst (asm) juniorAdvance.simps) (simp add: Let_def)
        moreover have "fullUpdateKey e (snd ?r) \<notin> set (backorders (snd ?r))"
          using q 1(4) by (simp add: quiet_def fullUpdateKey_def)
        ultimately have "asks e (snd ?r) s'"
          using 1(1) [OF True refl Some refl ok] 1(3) by simp
        then show ?thesis
          using quiet_asks [OF q] by (rule asks_trans)
      next
        case False
        then have "s' = snd (RequestFullDatabaseResendFromSeniorPeer e True (snd ?r))"
          using True Some 1(2) by (subst (asm) juniorAdvance.simps) (simp add: Let_def)
        then show ?thesis
          using asks_full [of e "snd ?r" True] quiet_asks [OF q] by (simp add: asks_trans)
      qed
    qed
  qed
qed

lemma multicastIfUnsent_quiet: "quiet s (multicastIfUnsent e u s)"
  by (auto simp: quiet_def multicastIfUnsent_def isRequest_def Let_def)

lemma seniorScan_quiet: "quiet s (seniorScan e log oldest i bw s)"
proof (induction e log oldest i bw s rule: seniorScan.induct)
  case (1 e log oldest i bw s)
  define turned where "turned = (bw \<and> \<not> (updateID (log ! i) \<le> firstUnsentUpdateID s \<or> updateID (log ! i) = oldest))"
  have scan: "seniorScan e log oldest i bw s =
      (if i < length log
       then if turned then (if i = 0 then s else seniorScan e log oldest (i - 1) True s)
            else seniorScan e log oldest (i + 1) False (multicastIfUnsent e (log ! i) s)
       else s)"
    by (subst seniorScan.simps) (simp add: turned_def Let_def)
  show ?case
  proof (cases "i < length log \<and> \<not> turned")
    case True
    then have "quiet (multicastIfUnsent e (log ! i) s) (seniorScan e log oldest (i + 1) False (multicastIfUnsent e (log ! i) s))"
      using 1(2) [OF conjunct1 [OF True] refl refl refl, folded turned_def] by simp
    then show ?thesis
      using True quiet_trans [OF multicastIfUnsent_quiet] by (simp add: scan)
  next
    case False
    then show ?thesis
      using 1(1) [OF _ refl refl refl, folded turned_def] by (auto simp: scan)
  qed
qed

lemma trimSenior_quiet: "quiet s (trimSeniorLog e s)"
proof (induction e s rule: trimSeniorLog.induct)
  case (1 e s)
  then show ?case
    by (subst trimSeniorLog.simps) (auto simp: quiet_def)
qed

lemma trimJunior_quiet: "quiet s (trimJuniorLog e s)"
  by (rule quiet_same) simp_all

lemma RescanUpdateLog_asks:
  assumes "RescanUpdateLog e s = Some s'" "GetTargetDatabaseStateID s \<noteq> - 1"
  shows "asks e s s'"
proof (cases "IAmTheSeniorPeer e")
  case True
  then show ?thesis
    using assms(1) by (auto simp: RescanUpdateLog_def asks_refl split: if_splits
        intro: quiet_asks quiet_trans [OF seniorScan_quiet trimSenior_quiet])
next
  case False
  define s1 where "s1 = s \<lparr> firstUnsentUpdateID := localDatabaseStateID s + 1 \<rparr>"
  have q: "asks e s s1"
    by (intro quiet_asks quiet_same) (simp_all add: s1_def)
  have t: "GetTargetDatabaseStateID s1 \<noteq> - 1"
    using assms(2) by (simp add: s1_def GetTargetDatabaseStateID_def split: if_splits)
  have tail: "asks e s1 r \<Longrightarrow> asks e s (trimJuniorLog e r)" for r
    using q trimJunior_quiet by (blast intro: asks_trans asks_quiet)
  show ?thesis
    using assms(1) False
    by (auto simp: RescanUpdateLog_def s1_def [symmetric] Let_def IsAwaitingFullDatabaseResendReply_def asks_refl
        split: if_splits intro!: tail asks_full intro: juniorAdvance_asks [OF _ t])
qed

lemma RescanIfNecessary_asks:
  assumes "RescanUpdateLogIfNecessary e s = Some s'" "GetTargetDatabaseStateID s \<noteq> - 1"
  shows "asks e s s'"
proof (cases "rescanLogPending s")
  case True
  have "asks e s (s \<lparr> rescanLogPending := False \<rparr>)"
    by (intro quiet_asks quiet_same) simp_all
  moreover have "asks e (s \<lparr> rescanLogPending := False \<rparr>) s'"
    by (rule RescanUpdateLog_asks)
      (use True assms in \<open>simp_all add: RescanUpdateLogIfNecessary_def GetTargetDatabaseStateID_def split: if_splits\<close>)
  ultimately show ?thesis
    by (rule asks_trans [rotated])
qed (use assms in \<open>simp add: RescanUpdateLogIfNecessary_def asks_refl\<close>)

text \<open>A back-order result takes its key out of the table; the failure of a single update asks for the full database.\<close>

lemma BackOrderResult_asks:
  fixes ubok :: PZGUpdateBackOrderKey
  defines "\<And>s. withoutKey s \<equiv> (s :: ('db, 'm) PZGDatabaseState) \<lparr> backorders := filter (\<lambda>k. k \<noteq> ubok) (backorders s) \<rparr>"
  obtains t where "quiet (withoutKey s) t"
    and "BackOrderResultReceived e ubok u s = t \<or>
      (GetTargetPeerID ubok = GetSeniorPeerID e \<and> GetDatabaseUpdateID ubok \<noteq> DATABASE_UPDATE_ID_FULL_UPDATE \<and>
       BackOrderResultReceived e ubok u s = snd (RequestFullDatabaseResendFromSeniorPeer e False t))"
proof -
  note replace = JuniorReplace_quiet [of "withoutKey s" e]
  have sched: "quiet s1 (ScheduleLogContentsRescan e s1')" if "quiet s1 s1'" for s1 s1'
    using that by (simp add: quiet_def)
  have add: "quiet s1 (snd (AddDatabaseUpdateToUpdateLog e (Some v) s1))" for s1 v
    by (rule quiet_same) simp_all
  show thesis
  proof (cases "ubok \<in> set (backorders s) \<and> GetTargetPeerID ubok = GetSeniorPeerID e \<and> \<not> IAmTheSeniorPeer e")
    case False
    then show thesis
      by (intro that [of "withoutKey s"]) (auto simp: BackOrderResultReceived_def withoutKey_def Let_def)
  next
    case True
    show thesis
    proof (cases "GetDatabaseUpdateID ubok = DATABASE_UPDATE_ID_FULL_UPDATE")
      case full: True
      have "quiet (withoutKey s) (BackOrderResultReceived e ubok u s)"
        using True full replace
        by (auto simp: BackOrderResultReceived_def withoutKey_def [symmetric] Let_def split_beta
            intro!: sched split: option.split)
      then show thesis
        by (intro that) auto
    next
      case single: False
      show thesis
      proof (cases u)
        case None
        then show thesis
          using True single by (intro that [of "withoutKey s"])
            (simp_all add: BackOrderResultReceived_def withoutKey_def Let_def)
      next
        case (Some v)
        have "quiet (withoutKey s) (BackOrderResultReceived e ubok u s)"
          using True single Some add
          by (auto simp: BackOrderResultReceived_def withoutKey_def [symmetric] Let_def split_beta intro!: sched)
        then show thesis
          by (intro that) auto
      qed
    qed
  qed
qed

section \<open>Keys on connections\<close>

abbreviation keysOn :: "('m, 'p) network \<Rightarrow> nat \<Rightarrow> PZGUpdateBackOrderKey list" where
  "keysOn n k \<equiv> us_backorders (unicastSessions n k)"

definition blocks :: "PZGUpdateBackOrderKey \<Rightarrow> PZGUpdateBackOrderKey \<Rightarrow> bool" where
  "blocks x y \<longleftrightarrow> GetDatabaseUpdateID x = DATABASE_UPDATE_ID_FULL_UPDATE \<and>
     GetTargetPeerID x = GetTargetPeerID y \<and> GetDatabaseIndex x = GetDatabaseIndex y"

definition fullLast :: "PZGUpdateBackOrderKey list \<Rightarrow> bool" where
  "fullLast = sorted_wrt (\<lambda>x y. \<not> blocks x y)"

definition sentOn :: "'m PZGUnicastSession \<Rightarrow> PZGUpdateBackOrderKey \<Rightarrow> bool" where
  "sentOn s x \<longleftrightarrow> (\<exists>b. REQUEST_BACK_ORDER (Some x) b \<in> set (us_outgoing s))"

definition keysOK :: "('m, 'p) network \<Rightarrow> bool" where
  "keysOK n \<longleftrightarrow>
     (\<forall>k. distinct (keysOn n k) \<and> fullLast (keysOn n k) \<and>
          (\<forall>x \<in> set (keysOn n k). k \<in> set (registeredUnicastSessions n) \<and> sentOn (unicastSessions n k) x)) \<and>
     (\<forall>k k'. k \<noteq> k' \<longrightarrow> set (keysOn n k) \<inter> set (keysOn n k') = {})"

definition tablesOK :: "('m, 'p) network \<Rightarrow> bool" where
  "tablesOK n \<longleftrightarrow>
     (\<forall>k \<in> set (registeredUnicastSessions n). k < nextUnicastSession n \<and> hasMaster (unicastSessions n k)) \<and>
     (\<forall>peer. distinct (queueFor peer n) \<and> (\<forall>k \<in> set (queueFor peer n).
        k \<in> set (registeredUnicastSessions n) \<and> remotePeerID (unicastSessions n k) = peer \<and> IsValid peer))"

definition netOK :: "('m, 'p) network \<Rightarrow> bool" where
  "netOK n \<longleftrightarrow> keysOK n \<and> tablesOK n"

lemma unicastSessions_updateSession [simp]:
  "unicastSessions (updateSession k f n) = (unicastSessions n)(k := f (unicastSessions n k))"
  "registeredUnicastSessions (updateSession k f n) = registeredUnicastSessions n"
  "namedUnicastSessions (updateSession k f n) = namedUnicastSessions n"
  "nextUnicastSession (updateSession k f n) = nextUnicastSession n"
  "net_master (updateSession k f n) = net_master n"
  "queueFor peer (updateSession k f n) = queueFor peer n"
  by (simp_all add: updateSession_def queueFor_def)

lemma netOK_cong:
  assumes "unicastSessions n' = unicastSessions n" "registeredUnicastSessions n' = registeredUnicastSessions n"
    "namedUnicastSessions n' = namedUnicastSessions n" "nextUnicastSession n' = nextUnicastSession n"
  shows "netOK n' = netOK n"
  using assms by (simp add: netOK_def keysOK_def tablesOK_def queueFor_def)

lemma netOK_updateSession:
  assumes "netOK n" "us_backorders (f (unicastSessions n k)) = keysOn n k" "hasMaster (f (unicastSessions n k)) = hasMaster (unicastSessions n k)"
    "remotePeerID (f (unicastSessions n k)) = remotePeerID (unicastSessions n k)"
    "set (us_outgoing (unicastSessions n k)) \<subseteq> set (us_outgoing (f (unicastSessions n k)))"
  shows "netOK (updateSession k f n)" "keysOn (updateSession k f n) = keysOn n"
proof -
  show keys: "keysOn (updateSession k f n) = keysOn n"
    using assms(2) by auto
  have "sentOn (unicastSessions (updateSession k f n) j) x" if "sentOn (unicastSessions n j) x" for j x
    using that assms(5) by (auto simp: sentOn_def)
  then have "keysOK (updateSession k f n)"
    using assms(1) fun_cong [OF keys] by (simp add: netOK_def keysOK_def del: unicastSessions_updateSession(1))
  then show "netOK (updateSession k f n)"
    using assms by (auto simp: netOK_def tablesOK_def)
qed

lemma AddOutgoing_ok:
  assumes "netOK n" "us_AddOutgoingMessage V k msg n = (st, n')"
  shows "netOK n'" "keysOn n' = keysOn n" "net_master n' = net_master n"
    "registeredUnicastSessions n' = registeredUnicastSessions n" "hbSettings n' = hbSettings n"
    "IsOK st \<Longrightarrow> msg \<in> set (us_outgoing (unicastSessions n' k))"
proof -
  have n': "n' = (if IsOK st then updateSession k (\<lambda>s. s \<lparr> us_outgoing := us_outgoing s @ [msg] \<rparr>) n else n)"
    using assms(2) by (auto simp: us_AddOutgoingMessage_def Let_def)
  show "netOK n'"
    using netOK_updateSession(1) [OF assms(1), of "\<lambda>s. s \<lparr> us_outgoing := us_outgoing s @ [msg] \<rparr>" k] assms(1) n' by auto
  show "keysOn n' = keysOn n" "net_master n' = net_master n" "registeredUnicastSessions n' = registeredUnicastSessions n"
    "hbSettings n' = hbSettings n"
    "IsOK st \<Longrightarrow> msg \<in> set (us_outgoing (unicastSessions n' k))"
    by (auto simp: n' updateSession_def)
qed

lemma set_tabPut_id: "set (tabPut id k ks) = insert k (set ks)"
  by (induction ks) auto

lemma Register_ok:
  assumes "netOK n" "k < nextUnicastSession n" "hasMaster (unicastSessions n k)" "k \<notin> set (registeredUnicastSessions n)"
  shows "netOK (RegisterUnicastSession k n)" "unicastSessions (RegisterUnicastSession k n) = unicastSessions n"
    "k \<in> set (registeredUnicastSessions (RegisterUnicastSession k n))"
    "net_master (RegisterUnicastSession k n) = net_master n"
    "set (registeredUnicastSessions (RegisterUnicastSession k n)) = insert k (set (registeredUnicastSessions n))"
proof -
  let ?n = "RegisterUnicastSession k n"
  show s: "unicastSessions ?n = unicastSessions n" and "net_master ?n = net_master n"
    and r: "set (registeredUnicastSessions ?n) = insert k (set (registeredUnicastSessions n))"
    and "k \<in> set (registeredUnicastSessions ?n)"
    by (simp_all add: RegisterUnicastSession_def Let_def set_tabPut_id)
  have nx: "nextUnicastSession ?n = nextUnicastSession n"
    by (simp add: RegisterUnicastSession_def Let_def)
  have q: "queueFor peer ?n = (if IsValid peer \<and> peer = remotePeerID (unicastSessions n k)
      then queueFor peer n @ [k] else queueFor peer n)" for peer
    by (auto simp: RegisterUnicastSession_def Let_def queueFor_def tabGet_tabPut)
  have keys: "keysOK ?n"
    using assms(1) by (auto simp: netOK_def keysOK_def s r)
  have "k \<notin> set (queueFor peer n)" for peer
    using assms(1,4) by (auto simp: netOK_def tablesOK_def)
  then have "tablesOK ?n"
    using assms by (auto simp: netOK_def tablesOK_def s r nx q)
  with keys show "netOK ?n"
    by (simp add: netOK_def)
qed

lemma newSession_ok:
  assumes "netOK n" "n' = n \<lparr> nextUnicastSession := Suc (nextUnicastSession n),
      unicastSessions := (unicastSessions n)(nextUnicastSession n := newPZGUnicastSession peerID) \<rparr>"
  shows "netOK n'" "keysOn n' = keysOn n" "nextUnicastSession n \<notin> set (registeredUnicastSessions n')"
proof -
  let ?k = "nextUnicastSession n"
  show fresh: "?k \<notin> set (registeredUnicastSessions n')"
    using assms by (auto simp: netOK_def tablesOK_def)
  have "keysOn n ?k = []"
  proof (rule ccontr)
    assume "keysOn n ?k \<noteq> []"
    then obtain x where "x \<in> set (keysOn n ?k)"
      by (cases "keysOn n ?k") auto
    then show False
      using assms fresh by (auto simp: netOK_def keysOK_def)
  qed
  then show keys: "keysOn n' = keysOn n"
    using assms(2) by (auto simp: newPZGUnicastSession_def)
  have same: "unicastSessions n' k = unicastSessions n k" if "k \<in> set (registeredUnicastSessions n)" for k
    using fresh assms(2) that by auto
  have rest: "registeredUnicastSessions n' = registeredUnicastSessions n" "queueFor peer n' = queueFor peer n"
      "nextUnicastSession n' = Suc ?k" for peer
    by (simp_all add: assms(2) queueFor_def)
  have "keysOK n'"
    using assms(1) fun_cong [OF keys] same unfolding netOK_def keysOK_def rest by metis
  moreover have "tablesOK n'"
    using assms(1) same unfolding netOK_def tablesOK_def rest by (metis less_SucI)
  ultimately show "netOK n'"
    by (simp add: netOK_def)
qed

lemma Attached_ok:
  assumes "netOK n" "k < nextUnicastSession n" "hasMaster (unicastSessions n k)" "k \<notin> set (registeredUnicastSessions n)"
  shows "netOK (us_AttachedToServer V k n)" "keysOn (us_AttachedToServer V k n) = keysOn n"
    "net_master (us_AttachedToServer V k n) = net_master n"
    "set (registeredUnicastSessions (us_AttachedToServer V k n)) = insert k (set (registeredUnicastSessions n))"
proof -
  let ?n = "RegisterUnicastSession k n"
  let ?m = "us_AddOutgoingMessage V k (ANNOUNCE_UNICAST_PEER_ID (Some (net_localPeerID ?n))) ?n"
  have at: "us_AttachedToServer V k n = (if IsValid (remotePeerID (unicastSessions ?n k)) then snd ?m else ?n)"
    using assms(3) by (simp add: us_AttachedToServer_def RegisterMyself_def Let_def)
  note reg = Register_ok [OF assms]
  note add = AddOutgoing_ok [OF reg(1) prod.collapse [symmetric, of ?m]]
  show "netOK (us_AttachedToServer V k n)" "keysOn (us_AttachedToServer V k n) = keysOn n"
    "net_master (us_AttachedToServer V k n) = net_master n"
    "set (registeredUnicastSessions (us_AttachedToServer V k n)) = insert k (set (registeredUnicastSessions n))"
    unfolding at using add reg by simp_all
qed

lemma GetUnicastSession_ok:
  assumes "netOK n" "GetUnicastSessionForPeerID V peerID alloc n = (r, n')"
  shows "netOK n'" "keysOn n' = keysOn n" "net_master n' = net_master n"
    "r = Inr k \<Longrightarrow> k \<in> set (registeredUnicastSessions n')"
proof -
  define n1 where "n1 = n \<lparr> nextUnicastSession := Suc (nextUnicastSession n),
      unicastSessions := (unicastSessions n)(nextUnicastSession n := newPZGUnicastSession peerID) \<rparr>"
  let ?k = "nextUnicastSession n"
  note new = newSession_ok [OF assms(1) n1_def]
  have at: "?k < nextUnicastSession n1" "hasMaster (unicastSessions n1 ?k)" "net_master n1 = net_master n"
    by (simp_all add: n1_def newPZGUnicastSession_def)
  note att = Attached_ok [OF new(1) at(1,2) new(3), of V]
  have "(r, n') = (case queueFor peerID n of k # _ \<Rightarrow> (Inr k, n)
      | [] \<Rightarrow> (if \<not> alloc then (Inl B_DATA_NOT_FOUND, n)
           else case GetUnicastIPAddressAndPortForPeerID peerID 0 n of None \<Rightarrow> (Inl B_DATA_NOT_FOUND, n)
                | Some iap \<Rightarrow> (if \<not> iap_IsValid V iap then (Inl B_DATA_NOT_FOUND, n)
                     else if IsError (AddNewConnectResult V iap) then (Inl (AddNewConnectResult V iap), n1)
                     else (Inr ?k, us_AttachedToServer V ?k n1))))"
    unfolding assms(2) [symmetric] GetUnicastSessionForPeerID_def n1_def Let_def by (rule refl)
  then consider k q where "queueFor peerID n = k # q" "r = Inr k" "n' = n"
    | e where "r = Inl e" "n' = n" | e where "r = Inl e" "n' = n1" | "r = Inr ?k" "n' = us_AttachedToServer V ?k n1"
    by (simp split: list.splits if_splits option.splits)
  then have "netOK n' \<and> keysOn n' = keysOn n \<and> net_master n' = net_master n \<and>
      (\<forall>k. r = Inr k \<longrightarrow> k \<in> set (registeredUnicastSessions n'))"
  proof cases
    case 1
    then have "k \<in> set (queueFor peerID n)"
      by simp
    then have "k \<in> set (registeredUnicastSessions n)"
      using assms(1) by (auto simp: netOK_def tablesOK_def)
    then show ?thesis
      using 1 assms(1) by simp
  next
    case 4
    then show ?thesis
      using att new(2) at(3) by simp
  qed (use assms(1) new at in simp_all)
  then show "netOK n'" "keysOn n' = keysOn n" "net_master n' = net_master n"
    "r = Inr k \<Longrightarrow> k \<in> set (registeredUnicastSessions n')"
    by auto
qed

text \<open>A request puts a new key on some live connection, or leaves all keys alone and reports an error.\<close>

lemma fullLast_snoc: "fullLast (xs @ [x]) \<longleftrightarrow> fullLast xs \<and> (\<forall>y \<in> set xs. \<not> blocks y x)"
  by (auto simp: fullLast_def sorted_wrt_append)

lemma us_Request_ok:
  assumes "netOK n" "k \<in> set (registeredUnicastSessions n)" "\<forall>k. x \<notin> set (keysOn n k)"
    "\<forall>y \<in> set (keysOn n k). \<not> blocks y x" "us_RequestBackOrderFromSeniorPeer V k x b n = (st, n')"
  shows "netOK n' \<and> net_master n' = net_master n \<and>
    keysOn n' = (if IsOK st then (keysOn n)(k := keysOn n k @ [x]) else keysOn n)"
proof -
  obtain st1 n1 where add: "us_AddOutgoingMessage V k (REQUEST_BACK_ORDER (Some x) b) n = (st1, n1)"
    by fastforce
  note ok = AddOutgoing_ok [OF assms(1) add]
  show ?thesis
  proof (cases "IsOK st1")
    case False
    then show ?thesis
      using assms(3,5) ok by (simp add: us_RequestBackOrderFromSeniorPeer_def add)
  next
    case True
    then have res: "st = B_NO_ERROR" "n' = updateSession k (\<lambda>s. s \<lparr> us_backorders := us_backorders s @ [x] \<rparr>) n1"
      using assms(3,5) by (simp_all add: us_RequestBackOrderFromSeniorPeer_def add)
    have keys: "keysOn n' = (keysOn n)(k := keysOn n k @ [x])"
      using fun_cong [OF ok(2)] by (auto simp: res)
    have "keysOK n1"
      using ok(1) by (simp add: netOK_def)
    moreover have "sentOn (unicastSessions n1 k) x"
      using ok(6) [OF True] by (auto simp: sentOn_def)
    ultimately have "keysOK n'"
      using assms(2-4) ok(4) fun_cong [OF ok(2)]
      by (auto simp: keysOK_def res fullLast_snoc sentOn_def)
    moreover have "tablesOK n'"
      using ok(1) by (auto simp: netOK_def tablesOK_def res)
    ultimately show ?thesis
      using ok(3) keys res by (simp add: netOK_def)
  qed
qed

lemma net_Request_ok:
  assumes "netOK n" "\<forall>k. x \<notin> set (keysOn n k)" "\<forall>k. \<forall>y \<in> set (keysOn n k). \<not> blocks y x"
    "net_RequestBackOrderFromSeniorPeer V x b n = (st, n')"
  shows "netOK n' \<and> net_master n' = net_master n \<and>
    (if IsOK st then \<exists>k. keysOn n' = (keysOn n)(k := keysOn n k @ [x]) else keysOn n' = keysOn n)"
proof -
  obtain r n1 where get: "GetUnicastSessionForPeerID V (GetTargetPeerID x) True n = (r, n1)"
    by fastforce
  note ok = GetUnicastSession_ok [OF assms(1) get]
  consider "IsError st" "n' = n" | e where "r = Inl e" "IsError st" "n' = n1"
    | k where "r = Inr k" "us_RequestBackOrderFromSeniorPeer V k x b n1 = (st, n')"
    using assms(4) by (auto simp: net_RequestBackOrderFromSeniorPeer_def get split: if_splits sum.splits)
  then show ?thesis
  proof cases
    case 3
    then show ?thesis
      using us_Request_ok [OF ok(1) ok(4), of k x V b st n'] assms(2,3) ok(2,3) fun_cong [OF ok(2)] by auto
  qed (use assms(1) ok in auto)
qed

section \<open>The invariant\<close>

text \<open>
  \<open>live s pos\<close> are the keys on all connections, without the first \<open>pos\<close> of connection \<open>s\<close>,
  which have been reported as failed already; \<open>D\<close> are keys that have left their connection and
  whose result is about to be delivered.
\<close>

definition awaited :: "('db, 'm) ZGPeerSession \<Rightarrow> PZGUpdateBackOrderKey set" where
  "awaited p = (\<Union>i < length (databases p). set (backorders (databases p ! i)))"

definition live :: "nat \<Rightarrow> nat \<Rightarrow> ('m, 'p) network \<Rightarrow> PZGUpdateBackOrderKey set" where
  "live s pos n = (\<Union>k. set (drop (if k = s then pos else 0) (keysOn n k)))"

definition routed :: "('db, 'm) ZGPeerSession \<Rightarrow> bool" where
  "routed p \<longleftrightarrow> networkIO p \<noteq> None \<and> length (databases p) < 2 ^ 32 \<and>
     (\<forall>i < length (databases p). whichDatabase (databases p ! i) = of_nat i \<and>
        (\<forall>x \<in> set (backorders (databases p ! i)). GetDatabaseIndex x = of_nat i))"

definition linkInv ::
  "nat \<Rightarrow> nat \<Rightarrow> PZGUpdateBackOrderKey set \<Rightarrow> ('db, 'm) ZGPeerSession \<Rightarrow> ('m, 'p) network \<Rightarrow> bool" where
  "linkInv s pos D p n \<longleftrightarrow> netOK n \<and> routed p \<and> pos \<le> length (keysOn n s) \<and>
     awaited p = live s pos n \<union> D \<and> D \<inter> live s pos n = {}"

definition putDatabase :: "nat \<Rightarrow> ('db, 'm) PZGDatabaseState \<Rightarrow> ('db, 'm) ZGPeerSession \<Rightarrow> ('db, 'm) ZGPeerSession" where
  "putDatabase i t p = p \<lparr> databases := (databases p)[i := t] \<rparr>"

lemma of_nat_u32_inject:
  assumes "i < 2 ^ 32" "j < 2 ^ 32" "(of_nat i :: u32) = of_nat j"
  shows "i = j"
proof -
  have "unat (of_nat i :: u32) = i" "unat (of_nat j :: u32) = j"
    using assms(1,2) by (simp_all add: unat_of_nat_small)
  with assms(3) show ?thesis
    by metis
qed

lemma awaited_own:
  assumes "routed p" "i < length (databases p)" "x \<in> awaited p" "GetDatabaseIndex x = whichDatabase (databases p ! i)"
  shows "x \<in> set (backorders (databases p ! i))"
proof -
  obtain j where j: "j < length (databases p)" "x \<in> set (backorders (databases p ! j))"
    using assms(3) by (auto simp: awaited_def)
  then have "(of_nat i :: u32) = of_nat j" "i < 2 ^ 32" "j < 2 ^ 32"
    using assms by (auto simp: routed_def)
  then have "i = j"
    by (intro of_nat_u32_inject)
  with j show ?thesis
    by simp
qed

lemma awaited_putDatabase:
  assumes "i < length (databases p)"
  shows "x \<in> awaited (putDatabase i t p) \<longleftrightarrow>
    x \<in> set (backorders t) \<or> (\<exists>j < length (databases p). j \<noteq> i \<and> x \<in> set (backorders (databases p ! j)))"
  using assms by (auto simp: awaited_def putDatabase_def nth_list_update split: if_splits)

lemma awaited_putDatabase_eq:
  assumes "i < length (databases p)" "set (backorders t) = A \<union> set (backorders (databases p ! i))"
  shows "awaited (putDatabase i t p) = A \<union> awaited p"
proof (rule set_eqI)
  fix x
  show "x \<in> awaited (putDatabase i t p) \<longleftrightarrow> x \<in> A \<union> awaited p"
    unfolding awaited_putDatabase [OF assms(1)] using assms by (auto simp: awaited_def)
qed

lemma routed_putDatabase:
  assumes "routed p" "i < length (databases p)" "whichDatabase t = whichDatabase (databases p ! i)"
    "\<forall>x \<in> set (backorders t). GetDatabaseIndex x = whichDatabase t"
  shows "routed (putDatabase i t p)"
  using assms by (auto simp: routed_def putDatabase_def nth_list_update split: if_splits)

lemma linkInv_same:
  assumes "linkInv s pos D p n" "awaited p' = awaited p" "routed p'"
  shows "linkInv s pos D p' n"
  using assms by (simp add: linkInv_def)

lemma linkInv_network:
  assumes "linkInv s pos D p n" "netOK n'" "keysOn n' = keysOn n"
  shows "linkInv s pos D p n'"
  using assms fun_cong [OF assms(3)] by (simp add: linkInv_def live_def)

lemma linkInv_awaited_subset: "linkInv s pos D p n \<Longrightarrow> awaited p = live s pos n \<union> D"
  by (simp add: linkInv_def)

lemma keysOn_live: "k \<noteq> s \<Longrightarrow> set (keysOn n k) \<subseteq> live s pos n" "set (drop pos (keysOn n s)) \<subseteq> live s pos n"
  by (fastforce simp: live_def)+

lemma live_0: "live s 0 n = (\<Union>k. set (keysOn n k))"
  by (simp add: live_def)

lemma live_append:
  assumes "keysOn n' = (keysOn n)(k := keysOn n k @ [x])" "pos \<le> length (keysOn n s)"
  shows "live s pos n' = insert x (live s pos n)"
proof -
  have "set (drop (if j = s then pos else 0) (keysOn n' j)) =
      set (drop (if j = s then pos else 0) (keysOn n j)) \<union> (if j = k then {x} else {})" for j
    using fun_cong [OF assms(1), of j] assms(2) by auto
  then show ?thesis
    by (auto simp: live_def split: if_splits)
qed

lemma applyEffect_quiet:
  assumes "\<not> isRequest m"
  shows "netOK (applyEffect V m n) = netOK n" "keysOn (applyEffect V m n) = keysOn n"
proof -
  have "\<exists>msgs. applyEffect V m n = n \<lparr> toInternalThread := msgs \<rparr>"
  proof (cases m)
    case ScheduledSetBeaconData
    then show ?thesis
      by (intro exI [of _ "toInternalThread n"]) (simp add: applyEffect_def)
  qed (use assms in \<open>auto simp: applyEffect_def SendMessageToInternalThread_def isRequest_def\<close>)
  then obtain msgs where "applyEffect V m n = n \<lparr> toInternalThread := msgs \<rparr>"
    by blast
  then show "netOK (applyEffect V m n) = netOK n" "keysOn (applyEffect V m n) = keysOn n"
    by (simp_all add: netOK_cong [of "n \<lparr> toInternalThread := msgs \<rparr>" n])
qed

lemma applyEffects_quiet:
  "\<forall>m \<in> set ms. \<not> isRequest m \<Longrightarrow> netOK (fold (applyEffect V) ms n) = netOK n"
  "\<forall>m \<in> set ms. \<not> isRequest m \<Longrightarrow> keysOn (fold (applyEffect V) ms n) = keysOn n"
  by (induction ms arbitrary: n) (auto simp: applyEffect_quiet)

lemma link_quiet:
  assumes "linkInv s pos D p n" "i < length (databases p)" "quiet (databases p ! i) t"
    "effects t = effects (databases p ! i) @ ms"
  shows "linkInv s pos D (putDatabase i t p) (fold (applyEffect V) ms n)"
proof -
  have same: "backorders t = backorders (databases p ! i)" "whichDatabase t = whichDatabase (databases p ! i)"
    and ms: "\<forall>m \<in> set ms. \<not> isRequest m"
    using assms(3,4) by (auto simp: quiet_def)
  have aw: "awaited (putDatabase i t p) = awaited p"
    using awaited_putDatabase_eq [OF assms(2), of t "{}"] same by simp
  have "routed (putDatabase i t p)"
    by (rule routed_putDatabase) (use assms(1,2) same in \<open>auto simp: linkInv_def routed_def\<close>)
  then have "linkInv s pos D (putDatabase i t p) n"
    by (rule linkInv_same [OF assms(1) aw])
  then show ?thesis
    by (rule linkInv_network) (use applyEffects_quiet [OF ms] assms(1) in \<open>auto simp: linkInv_def\<close>)
qed

lemma link_request:
  assumes inv: "linkInv s pos D p n" and i: "i < length (databases p)"
    and x: "x \<notin> set (backorders (databases p ! i))" "GetDatabaseIndex x = whichDatabase (databases p ! i)"
    and order: "\<forall>k. \<forall>y \<in> set (keysOn n k). \<not> blocks y x" and dead: "x \<notin> set (take pos (keysOn n s))"
    and req: "net_RequestBackOrderFromSeniorPeer V x b n = (st, n')"
    and t: "whichDatabase t = whichDatabase (databases p ! i)"
      "backorders t = (if IsOK st then backorders (databases p ! i) @ [x] else backorders (databases p ! i))"
  shows "linkInv s pos D (putDatabase i t p) n'"
    "keysOn n' = keysOn n \<or> (\<exists>k. keysOn n' = (keysOn n)(k := keysOn n k @ [x]))"
proof -
  have away: "x \<notin> awaited p"
    using awaited_own [OF _ i _ x(2)] x(1) inv by (auto simp: linkInv_def)
  then have "x \<notin> live s pos n" "x \<notin> D"
    using inv by (auto simp: linkInv_def)
  then have fresh: "x \<notin> set (keysOn n k)" for k
  proof (cases "k = s")
    case True
    have "set (keysOn n s) = set (take pos (keysOn n s)) \<union> set (drop pos (keysOn n s))"
      by (simp flip: set_append)
    then show ?thesis
      using True dead keysOn_live(2) [of pos n s] \<open>x \<notin> live s pos n\<close> by blast
  qed (use keysOn_live(1) [of k s n pos] \<open>x \<notin> live s pos n\<close> in blast)
  have ok: "netOK n'" "if IsOK st then \<exists>k. keysOn n' = (keysOn n)(k := keysOn n k @ [x]) else keysOn n' = keysOn n"
    using net_Request_ok [OF _ _ order req] fresh inv by (auto simp: linkInv_def)
  then show "keysOn n' = keysOn n \<or> (\<exists>k. keysOn n' = (keysOn n)(k := keysOn n k @ [x]))"
    by (auto split: if_splits)
  have routed: "routed (putDatabase i t p)"
    by (rule routed_putDatabase) (use inv i t x(2) in \<open>auto simp: linkInv_def routed_def split: if_splits\<close>)
  show "linkInv s pos D (putDatabase i t p) n'"
  proof (cases "IsOK st")
    case True
    then obtain k where k: "keysOn n' = (keysOn n)(k := keysOn n k @ [x])"
      using ok(2) by auto
    have "awaited (putDatabase i t p) = insert x (awaited p)"
      using True t(2) awaited_putDatabase_eq [OF i, of t "{x}"] by simp
    moreover have "pos \<le> length (keysOn n' s)"
      using inv fun_cong [OF k, of s] by (auto simp: linkInv_def)
    moreover have "live s pos n' = insert x (live s pos n)"
      using inv by (intro live_append [OF k]) (simp add: linkInv_def)
    ultimately show ?thesis
      using inv ok(1) routed \<open>x \<notin> D\<close> by (auto simp: linkInv_def)
  next
    case False
    have "awaited (putDatabase i t p) = awaited p"
      using False t(2) awaited_putDatabase_eq [OF i, of t "{}"] by simp
    then show ?thesis
      using False ok routed linkInv_network [OF linkInv_same [OF inv]] by simp
  qed
qed

text \<open>A database that asks along \<open>asks\<close>, in the environment the network session gives it.\<close>

definition linked :: "'m net_env \<Rightarrow> ('m, 'p) network \<Rightarrow> ('db, 'm) PZGDatabaseState \<Rightarrow> ('db, 'm) master \<Rightarrow> bool" where
  "linked V n s0 e \<longleftrightarrow> (\<forall>effs x b. SendBackOrderRequest e effs x b =
     fst (net_RequestBackOrderFromSeniorPeer V x b (fold (applyEffect V) (drop (length (effects s0)) effs) n)))"

lemma putDatabase_simps [simp]:
  "databases (putDatabase i t p) = (databases p)[i := t]"
  "networkIO (putDatabase i t p) = networkIO p"
  "putDatabase i u (putDatabase i t p) = putDatabase i u p"
  "putDatabase i (databases p ! i) p = p"
  by (simp_all add: putDatabase_def)

lemma Request_absent:
  fixes e :: "('db, 'm) master" and b :: bool
  assumes "x \<notin> set (backorders t)"
  defines "st \<equiv> SendBackOrderRequest e (effects t) x b"
  shows "effects (snd (RequestBackOrderFromSeniorPeer e x b t)) = effects t @ [BackOrderRequested x b st]"
    "whichDatabase (snd (RequestBackOrderFromSeniorPeer e x b t)) = whichDatabase t"
    "backorders (snd (RequestBackOrderFromSeniorPeer e x b t)) = (if IsOK st then backorders t @ [x] else backorders t)"
  using assms(1) by (simp_all add: RequestBackOrderFromSeniorPeer_def st_def Let_def)

lemma applyEffect_request [simp]:
  "applyEffect V (BackOrderRequested x b st) n = snd (net_RequestBackOrderFromSeniorPeer V x b n)"
  by (simp add: applyEffect_def)

lemma link_asks:
  assumes "asks e (databases p ! i) t" "linkInv 0 0 {} p n" "i < length (databases p)" "linked V n (databases p ! i) e"
  shows "\<exists>evs. effects t = effects (databases p ! i) @ evs \<and>
    linkInv 0 0 {} (putDatabase i t p) (fold (applyEffect V) evs n)"
  using assms(1)
proof (induction rule: asks.induct)
  case asks_refl
  then show ?case
    using assms(2) by simp
next
  case (asks_quiet t u)
  then obtain evs where evs: "effects t = effects (databases p ! i) @ evs"
      "linkInv 0 0 {} (putDatabase i t p) (fold (applyEffect V) evs n)"
    by blast
  obtain ms where ms: "effects u = effects t @ ms"
    using asks_quiet by (auto simp: quiet_def)
  have "linkInv 0 0 {} (putDatabase i u (putDatabase i t p)) (fold (applyEffect V) ms (fold (applyEffect V) evs n))"
    by (rule link_quiet [OF evs(2)]) (use asks_quiet(2) ms assms(3) in simp_all)
  then show ?case
    using evs(1) ms by (intro exI [of _ "evs @ ms"]) simp
next
  case (asks_request t x b)
  then obtain evs where evs: "effects t = effects (databases p ! i) @ evs"
      "linkInv 0 0 {} (putDatabase i t p) (fold (applyEffect V) evs n)"
    by blast
  define N where "N = fold (applyEffect V) evs n"
  let ?t = "snd (RequestBackOrderFromSeniorPeer e x b t)"
  have x: "x \<notin> set (backorders t)" "GetTargetPeerID x = GetSeniorPeerID e" "GetDatabaseIndex x = whichDatabase t"
    "GetDatabaseUpdateID x = DATABASE_UPDATE_ID_FULL_UPDATE \<or> fullUpdateKey e t \<notin> set (backorders t)"
    using asks_request(2) by (auto simp: mayAsk_def)
  have st: "SendBackOrderRequest e (effects t) x b = fst (net_RequestBackOrderFromSeniorPeer V x b N)"
    using assms(4) evs(1) by (simp add: linked_def N_def)
  have order: "\<not> blocks y x" if "y \<in> set (keysOn N k)" for y k
  proof
    assume bl: "blocks y x"
    then have y: "y = fullUpdateKey e t"
      using x(2,3) by (cases y) (auto simp: blocks_def fullUpdateKey_def)
    have "y \<in> awaited (putDatabase i t p)"
      using that evs(2) by (auto simp: linkInv_def live_0 N_def)
    then have "y \<in> set (backorders (databases (putDatabase i t p) ! i))"
      by (intro awaited_own) (use evs(2) assms(3) y in \<open>auto simp: linkInv_def fullUpdateKey_def\<close>)
    then have "y \<in> set (backorders t)"
      using assms(3) by simp
    moreover have "x = y" if "GetDatabaseUpdateID x = DATABASE_UPDATE_ID_FULL_UPDATE"
      using that y x(2,3) by (cases x) (auto simp: fullUpdateKey_def)
    ultimately show False
      using x(1,4) y by auto
  qed
  have "linkInv 0 0 {} (putDatabase i ?t (putDatabase i t p)) (snd (net_RequestBackOrderFromSeniorPeer V x b N))"
    by (rule link_request(1) [OF evs(2) [folded N_def] _ _ _ _ _ prod.collapse [symmetric]])
      (use x assms(3) order Request_absent [OF x(1), of e b] st in auto)
  then show ?case
    using evs(1) Request_absent(1) [OF x(1), of e b]
    by (intro exI [of _ "evs @ [BackOrderRequested x b (SendBackOrderRequest e (effects t) x b)]"])
      (simp add: N_def)
qed

text \<open>A result takes the key out of the database; only a failed single update asks for more.\<close>

definition fullOf :: "PZGUpdateBackOrderKey \<Rightarrow> PZGUpdateBackOrderKey" where
  "fullOf x = PZGUpdateBackOrderKey (GetTargetPeerID x) (GetDatabaseIndex x) DATABASE_UPDATE_ID_FULL_UPDATE"

lemma blocks_fullOf: "blocks y x \<longleftrightarrow> y = fullOf x"
  by (cases y) (auto simp: blocks_def fullOf_def)

lemma fullOf_fullOf [simp]: "fullOf (fullOf x) = fullOf x"
  by (simp add: fullOf_def)

lemma linkInv_remove:
  assumes "linkInv s pos {x} p n"
  defines "i \<equiv> unat (GetDatabaseIndex x)"
  defines "w \<equiv> (databases p ! i) \<lparr> backorders := filter (\<lambda>k. k \<noteq> x) (backorders (databases p ! i)) \<rparr>"
  shows "i < length (databases p)" "GetDatabaseIndex x = whichDatabase (databases p ! i)"
    "linkInv s pos {} (putDatabase i w p) n"
proof -
  have routed: "routed p" and aw: "awaited p = insert x (live s pos n)" and out: "x \<notin> live s pos n"
    using assms(1) by (auto simp: linkInv_def)
  obtain j where j: "j < length (databases p)" "x \<in> set (backorders (databases p ! j))"
    using aw by (auto simp: awaited_def)
  then have "i = j"
    using routed by (auto simp: i_def routed_def unat_of_nat_small)
  then show i: "i < length (databases p)" and idx: "GetDatabaseIndex x = whichDatabase (databases p ! i)"
    using j routed by (auto simp: routed_def)
  have "x \<notin> set (backorders (databases p ! k))" if "k < length (databases p)" "k \<noteq> i" for k
  proof
    assume "x \<in> set (backorders (databases p ! k))"
    then have "(of_nat k :: u32) = of_nat i" "k < 2 ^ 32" "i < 2 ^ 32"
      using that(1) i idx routed by (auto simp: routed_def)
    then show False
      using of_nat_u32_inject that(2) by blast
  qed
  then have "y \<in> awaited (putDatabase i w p) \<longleftrightarrow> y \<in> awaited p - {x}" for y
    unfolding awaited_putDatabase [OF i] using i by (auto simp: w_def awaited_def)
  then have "awaited (putDatabase i w p) = awaited p - {x}"
    by blast
  moreover have "routed (putDatabase i w p)"
    by (rule routed_putDatabase [OF routed i]) (use routed i in \<open>auto simp: w_def routed_def\<close>)
  ultimately show "linkInv s pos {} (putDatabase i w p) n"
    using assms(1) aw out by (auto simp: linkInv_def)
qed

lemma link_result:
  fixes x :: PZGUpdateBackOrderKey and p :: "('db, 'm) ZGPeerSession"
  defines "i \<equiv> unat (GetDatabaseIndex x)"
  assumes inv: "linkInv s pos {x} p n" and e: "linked V n (databases p ! i) e"
    and dead: "GetDatabaseUpdateID x \<noteq> DATABASE_UPDATE_ID_FULL_UPDATE \<Longrightarrow> fullOf x \<notin> set (take pos (keysOn n s))"
  shows "\<exists>evs. effects (BackOrderResultReceived e x u (databases p ! i)) = effects (databases p ! i) @ evs \<and>
    linkInv s pos {} (putDatabase i (BackOrderResultReceived e x u (databases p ! i)) p) (fold (applyEffect V) evs n) \<and>
    (keysOn (fold (applyEffect V) evs n) = keysOn n \<or>
     (\<exists>k. keysOn (fold (applyEffect V) evs n) = (keysOn n)(k := keysOn n k @ [fullOf x])))"
proof -
  define w where "w = (databases p ! i) \<lparr> backorders := filter (\<lambda>k. k \<noteq> x) (backorders (databases p ! i)) \<rparr>"
  let ?r = "BackOrderResultReceived e x u (databases p ! i)"
  note rem = linkInv_remove [OF inv, folded i_def, folded w_def]
  obtain t where t: "quiet w t" and r: "?r = t \<or>
      (GetTargetPeerID x = GetSeniorPeerID e \<and> GetDatabaseUpdateID x \<noteq> DATABASE_UPDATE_ID_FULL_UPDATE \<and>
       ?r = snd (RequestFullDatabaseResendFromSeniorPeer e False t))"
    using BackOrderResult_asks [of x "databases p ! i" e u] unfolding w_def by blast
  obtain ms where ms: "effects t = effects (databases p ! i) @ ms" "\<forall>m \<in> set ms. \<not> isRequest m"
    using t by (auto simp: quiet_def w_def)
  define N where "N = fold (applyEffect V) ms n"
  have "linkInv s pos {} (putDatabase i t (putDatabase i w p)) N"
    unfolding N_def by (rule link_quiet [OF rem(3)]) (use t rem(1) ms(1) in \<open>simp_all add: w_def\<close>)
  then have link: "linkInv s pos {} (putDatabase i t p) N"
    by simp
  have keys: "keysOn N = keysOn n"
    using applyEffects_quiet(2) [OF ms(2)] by (simp add: N_def)
  show ?thesis
  proof (cases "?r = t")
    case True
    then show ?thesis
      using ms(1) link keys by (intro exI [of _ ms]) (simp add: N_def)
  next
    case False
    then have req: "GetTargetPeerID x = GetSeniorPeerID e" "GetDatabaseUpdateID x \<noteq> DATABASE_UPDATE_ID_FULL_UPDATE"
        "?r = snd (RequestBackOrderFromSeniorPeer e (fullUpdateKey e t) False t)"
      using r by (auto simp: RequestFullDatabaseResendFromSeniorPeer_def)
    have wt: "whichDatabase t = whichDatabase (databases p ! i)"
      using t by (simp add: quiet_def w_def)
    have F: "fullUpdateKey e t = fullOf x"
      using req(1) rem(2) wt by (simp add: fullUpdateKey_def fullOf_def)
    have absent: "fullOf x \<notin> set (backorders t)"
      using False req(3) F RequestBackOrder_present [of "fullOf x" t e False] by auto
    have away: "fullOf x \<notin> set (keysOn N k)" for k
    proof
      assume k: "fullOf x \<in> set (keysOn N k)"
      have "set (keysOn N s) = set (take pos (keysOn N s)) \<union> set (drop pos (keysOn N s))"
        by (simp flip: set_append)
      then have "fullOf x \<in> live s pos N"
        using k dead [OF req(2)] fun_cong [OF keys] keysOn_live(1) [of k s N pos] keysOn_live(2) [of pos N s]
        by (cases "k = s") auto
      then have "fullOf x \<in> awaited (putDatabase i t p)"
        using link by (simp add: linkInv_def)
      then have "fullOf x \<in> set (backorders (databases (putDatabase i t p) ! i))"
        by (intro awaited_own) (use link rem(1,2) wt in \<open>auto simp: linkInv_def fullOf_def\<close>)
      then show False
        using absent rem(1) by simp
    qed
    have order: "\<not> blocks y (fullOf x)" if "y \<in> set (keysOn N k)" for y k
      using that away by (auto simp: blocks_fullOf)
    let ?req = "net_RequestBackOrderFromSeniorPeer V (fullOf x) False N"
    have st: "SendBackOrderRequest e (effects t) (fullOf x) False = fst ?req"
      using e ms(1) by (simp add: linked_def N_def)
    have idx: "GetDatabaseIndex (fullOf x) = whichDatabase t"
      using rem(2) wt by (simp add: fullOf_def)
    have res: "linkInv s pos {} (putDatabase i ?r (putDatabase i t p)) (snd ?req)"
      by (rule link_request(1) [OF link _ _ _ _ _ prod.collapse [symmetric]])
        (use rem(1) idx absent order away Request_absent [OF absent, of e False] st req(3) F in \<open>auto dest!: in_set_takeD\<close>)
    have "netOK N"
      using link by (simp add: linkInv_def)
    then have res': "keysOn (snd ?req) = keysOn N \<or> (\<exists>k. keysOn (snd ?req) = (keysOn N)(k := keysOn N k @ [fullOf x]))"
      using net_Request_ok [of N "fullOf x" V False "fst ?req" "snd ?req"] away order
      by (metis prod.collapse)
    show ?thesis
      using res res' ms(1) Request_absent(1) [OF absent, of e False] req(3) F keys fun_cong [OF keys]
      by (intro exI [of _ "ms @ [BackOrderRequested (fullOf x) False (SendBackOrderRequest e (effects t) (fullOf x) False)]"])
        (simp add: N_def)
  qed
qed

section \<open>Results delivered to the peer session\<close>

lemma linkInv_session_cong:
  assumes "databases p' = databases p" "networkIO p' = networkIO p"
  shows "linkInv s pos D p' n = linkInv s pos D p n"
  using assms by (simp add: linkInv_def awaited_def routed_def)

lemma linkInv_master [simp]: "linkInv s pos D p (n \<lparr> net_master := q \<rparr>) = linkInv s pos D p n"
  by (simp add: linkInv_def live_def netOK_cong [of "n \<lparr> net_master := q \<rparr>" n])

lemma linked_masterFor:
  "networkIO p \<noteq> None \<Longrightarrow>
   linked V n (databases p ! i) (masterFor (linkedEnv V n (length (effects (databases p ! i))) i E) p i)"
  by (auto simp: linked_def masterFor_def linkedEnv_def)

lemma linkedCall_Some:
  assumes "net_master n = Some p" "networkIO p \<noteq> None"
    and "method (linkedEnv V n (length (effects (databases p ! i))) i E) p = Some p'"
    and "effects (databases p' ! i) = effects (databases p ! i) @ evs"
  shows "linkedCall V E i method n = Some ((fold (applyEffect V) evs n) \<lparr> net_master := Some p' \<rparr>)"
  using assms by (auto simp: linkedCall_def Let_def)

lemma call_result:
  fixes E :: "('db, 'm) session_env" and V :: "'m net_env" and u :: "'m PZGDatabaseUpdate option"
  assumes master: "net_master n = Some p" and inv: "linkInv s pos {x} p n"
    and dead: "GetDatabaseUpdateID x \<noteq> DATABASE_UPDATE_ID_FULL_UPDATE \<Longrightarrow> fullOf x \<notin> set (take pos (keysOn n s))"
  defines "n' \<equiv> net_BackOrderResultReceived (sessionCalls V E) x u n"
  shows "\<exists>p'. net_master n' = Some p' \<and> linkInv s pos {} p' n'"
    "keysOn n' = keysOn n \<or> (\<exists>k. keysOn n' = (keysOn n)(k := keysOn n k @ [fullOf x]))"
    "\<exists>evs q. n' = (fold (applyEffect V) evs n) \<lparr> net_master := q \<rparr>"
proof -
  define i where "i = unat (GetDatabaseIndex x)"
  define E' where "E' = linkedEnv V n (length (effects (databases p ! i))) i E"
  let ?r = "BackOrderResultReceived (masterFor E' p i) x u (databases p ! i)"
  have i: "i < length (databases p)" and io: "networkIO p \<noteq> None"
    using linkInv_remove(1) [OF inv] inv by (auto simp: i_def linkInv_def routed_def)
  obtain evs where evs: "effects ?r = effects (databases p ! i) @ evs"
      "linkInv s pos {} (putDatabase i ?r p) (fold (applyEffect V) evs n)"
      "keysOn (fold (applyEffect V) evs n) = keysOn n \<or>
       (\<exists>k. keysOn (fold (applyEffect V) evs n) = (keysOn n)(k := keysOn n k @ [fullOf x]))"
    using link_result [OF inv linked_masterFor [OF io, folded i_def] dead, folded i_def] unfolding E'_def by blast
  let ?p = "storeDatabase i ?r p"
  have "linkedCall V E i (\<lambda>E' p. Some (ps_BackOrderResultReceived E' x u p)) n =
      Some ((fold (applyEffect V) evs n) \<lparr> net_master := Some ?p \<rparr>)"
    by (rule linkedCall_Some [OF master io])
      (use i evs(1) in \<open>simp_all add: ps_BackOrderResultReceived_def forDatabase_def i_def [symmetric] E'_def\<close>)
  then have n': "n' = (fold (applyEffect V) evs n) \<lparr> net_master := Some ?p \<rparr>"
    using master by (simp add: n'_def net_BackOrderResultReceived_def sessionCalls_def i_def)
  have "linkInv s pos {} ?p (fold (applyEffect V) evs n)"
    using evs(2) by (subst linkInv_session_cong [of _ "putDatabase i ?r p"]) simp_all
  then show "\<exists>p'. net_master n' = Some p' \<and> linkInv s pos {} p' n'"
    by (simp add: n')
  show "keysOn n' = keysOn n \<or> (\<exists>k. keysOn n' = (keysOn n)(k := keysOn n k @ [fullOf x]))"
    using evs(3) by (simp add: n')
  show "\<exists>evs q. n' = (fold (applyEffect V) evs n) \<lparr> net_master := q \<rparr>"
    using n' by blast
qed

text \<open>Requests never unregister a connection, and register only new ones.\<close>

definition grows :: "('m, 'p) network \<Rightarrow> ('m, 'p) network \<Rightarrow> bool" where
  "grows n n' \<longleftrightarrow> set (registeredUnicastSessions n) \<subseteq> set (registeredUnicastSessions n') \<and>
     set (registeredUnicastSessions n') \<subseteq> set (registeredUnicastSessions n) \<union> {nextUnicastSession n..} \<and>
     nextUnicastSession n \<le> nextUnicastSession n'"

lemma grows_trans: "grows n n1 \<Longrightarrow> grows n1 n2 \<Longrightarrow> grows n n2"
  unfolding grows_def by fastforce

lemma grows_same:
  "registeredUnicastSessions n' = registeredUnicastSessions n \<Longrightarrow> nextUnicastSession n' = nextUnicastSession n \<Longrightarrow> grows n n'"
  by (simp add: grows_def)

lemma grows_master: "grows n (n' \<lparr> net_master := q \<rparr>) = grows n n'"
  by (simp add: grows_def)

lemma grows_AddOutgoing: "grows n (snd (us_AddOutgoingMessage V k msg n))"
  by (rule grows_same) (simp_all add: us_AddOutgoingMessage_def Let_def)

lemma Attached_tables:
  "set (registeredUnicastSessions (us_AttachedToServer V k n)) \<subseteq> insert k (set (registeredUnicastSessions n))"
  "set (registeredUnicastSessions n) \<subseteq> set (registeredUnicastSessions (us_AttachedToServer V k n))"
  "nextUnicastSession (us_AttachedToServer V k n) = nextUnicastSession n"
  by (auto simp: us_AttachedToServer_def RegisterMyself_def RegisterUnicastSession_def us_AddOutgoingMessage_def
      Let_def set_tabPut_id)

lemma grows_newSession:
  "grows n (us_AttachedToServer V (nextUnicastSession n) (n \<lparr> nextUnicastSession := Suc (nextUnicastSession n), unicastSessions := f \<rparr>))"
  using Attached_tables [where V = V and k = "nextUnicastSession n"
    and n = "n \<lparr> nextUnicastSession := Suc (nextUnicastSession n), unicastSessions := f \<rparr>"]
  by (auto simp: grows_def)

lemma grows_Get: "grows n (snd (GetUnicastSessionForPeerID V peerID alloc n))"
  using grows_newSession [of n V "(unicastSessions n)(nextUnicastSession n := newPZGUnicastSession peerID)"]
  by (auto simp: GetUnicastSessionForPeerID_def Let_def grows_def split: list.split option.split)

lemma grows_us_Request: "grows n (snd (us_RequestBackOrderFromSeniorPeer V k x b n))"
  by (rule grows_same) (simp_all add: us_RequestBackOrderFromSeniorPeer_def us_AddOutgoingMessage_def Let_def split_beta)

lemma grows_Request: "grows n (snd (net_RequestBackOrderFromSeniorPeer V x b n))"
proof -
  obtain r n1 where get: "GetUnicastSessionForPeerID V (GetTargetPeerID x) True n = (r, n1)"
    by fastforce
  then have "grows n n1"
    using grows_Get [of n V "GetTargetPeerID x" True] by simp
  then show ?thesis
    using grows_trans [OF _ grows_us_Request, of n n1]
    by (simp add: net_RequestBackOrderFromSeniorPeer_def get grows_same split: sum.split)
qed

lemma grows_applyEffect: "grows n (applyEffect V m n)"
  by (cases m) (simp_all add: applyEffect_def SendMessageToInternalThread_def grows_Request grows_same)

lemma grows_applyEffects: "grows n (fold (applyEffect V) evs n)"
proof (induction evs arbitrary: n)
  case (Cons m evs)
  show ?case
    using grows_trans [OF grows_applyEffect Cons.IH] by simp
qed (simp add: grows_same)

section \<open>A dying connection\<close>

lemma linkInv_next:
  assumes "linkInv s pos {} p n" "pos < length (keysOn n s)"
  shows "linkInv s (Suc pos) {keysOn n s ! pos} p n"
proof -
  let ?x = "keysOn n s ! pos"
  have ok: "distinct (keysOn n s)" "\<And>k. k \<noteq> s \<Longrightarrow> set (keysOn n k) \<inter> set (keysOn n s) = {}"
    using assms(1) by (auto simp: linkInv_def netOK_def keysOK_def)
  have drop: "drop pos (keysOn n s) = ?x # drop (Suc pos) (keysOn n s)"
    using assms(2) by (simp add: Cons_nth_drop_Suc)
  have "distinct (drop pos (keysOn n s))"
    using ok(1) by simp
  then have "?x \<notin> set (drop (Suc pos) (keysOn n s))"
    unfolding drop by simp
  moreover have "?x \<notin> set (keysOn n k)" if "k \<noteq> s" for k
    using ok(2) [OF that] assms(2) nth_mem [of pos "keysOn n s"] by blast
  ultimately have "?x \<notin> live s (Suc pos) n"
    by (auto simp: live_def split: if_splits)
  moreover have "live s pos n = insert ?x (live s (Suc pos) n)"
  proof -
    have "set (drop (if k = s then pos else 0) (keysOn n k)) =
        (if k = s then {?x} else {}) \<union> set (drop (if k = s then Suc pos else 0) (keysOn n k))" for k
      using drop by simp
    then show ?thesis
      by (auto simp: live_def split: if_splits)
  qed
  ultimately show ?thesis
    using assms by (auto simp: linkInv_def)
qed

lemma fullOf_not_before:
  assumes "fullLast L" "pos < length L" "GetDatabaseUpdateID (L ! pos) \<noteq> DATABASE_UPDATE_ID_FULL_UPDATE"
  shows "fullOf (L ! pos) \<notin> set (take (Suc pos) L)"
proof
  assume "fullOf (L ! pos) \<in> set (take (Suc pos) L)"
  then obtain j where j: "j < Suc pos" "L ! j = fullOf (L ! pos)"
    using assms(2) by (auto simp: in_set_conv_nth)
  then have "j \<noteq> pos"
    using assms(3) by (metis PZGUpdateBackOrderKey.sel(3) fullOf_def)
  then show False
    using assms(1,2) j sorted_wrt_nth_less [of "\<lambda>x y. \<not> blocks x y" L j pos] by (auto simp: fullLast_def blocks_fullOf)
qed

text \<open>How many keys a dying connection may still have to report.\<close>

definition toReport :: "('m, 'p) network \<Rightarrow> nat \<Rightarrow> nat" where
  "toReport n s = length (keysOn n s) + card (fullOf ` set (keysOn n s) - set (keysOn n s))"

lemma toReport_step:
  assumes "keysOn n' = keysOn n \<or> (\<exists>k. keysOn n' = (keysOn n)(k := keysOn n k @ [fullOf x]))"
    "x \<in> set (keysOn n s)" "distinct (keysOn n' s)"
  shows "toReport n' s = toReport n s"
proof (cases "keysOn n' s = keysOn n s")
  case False
  then have "keysOn n' \<noteq> keysOn n"
    by (metis (no_types))
  then obtain k where k: "keysOn n' = (keysOn n)(k := keysOn n k @ [fullOf x])"
    using assms(1) by blast
  then have L: "keysOn n' s = keysOn n s @ [fullOf x]"
    using False fun_cong [OF k, of s] by (auto split: if_splits)
  then have new: "fullOf x \<notin> set (keysOn n s)"
    using assms(3) by simp
  let ?A = "fullOf ` set (keysOn n s) - set (keysOn n s)"
  have "fullOf x \<in> ?A" "finite ?A"
    using new assms(2) by auto
  then have "card (?A - {fullOf x}) = card ?A - 1" "card ?A > 0"
    by (auto simp: card_gt_0_iff)
  moreover have "fullOf ` set (keysOn n' s) - set (keysOn n' s) = ?A - {fullOf x}"
    using L assms(2) by auto
  ultimately show ?thesis
    by (simp add: toReport_def L)
qed (simp add: toReport_def)

lemma failBackOrders_ok:
  assumes "net_master n = Some p" "linkInv s pos {} p n"
  shows "\<exists>n' p'. failBackOrders (sessionCalls V E) s pos n = Some n' \<and> net_master n' = Some p' \<and>
    linkInv s (length (keysOn n' s)) {} p' n' \<and> grows n n'"
  using assms
proof (induction "toReport n s - pos" arbitrary: n p pos rule: less_induct)
  case less
  show ?case
  proof (cases "pos < length (keysOn n s)")
    case False
    then show ?thesis
      using less(2,3) by (subst failBackOrders.simps) (auto simp: linkInv_def grows_same)
  next
    case True
    define x where "x = keysOn n s ! pos"
    define n1 where "n1 = net_BackOrderResultReceived (sessionCalls V E) x None n"
    have order: "fullLast (keysOn n s)"
      using less(3) by (auto simp: linkInv_def netOK_def keysOK_def)
    note res = call_result [OF less(2) linkInv_next [OF less(3) True], of V E None, folded x_def, folded n1_def,
        OF fullOf_not_before [OF order True, folded x_def]]
    obtain p1 where p1: "net_master n1 = Some p1" "linkInv s (Suc pos) {} p1 n1"
      using res(1) by blast
    have "distinct (keysOn n1 s)"
      using p1(2) by (auto simp: linkInv_def netOK_def keysOK_def)
    then have "toReport n1 s = toReport n s"
      using True by (intro toReport_step [OF res(2)]) (simp_all add: x_def)
    moreover have "pos < toReport n s"
      using True by (simp add: toReport_def)
    ultimately obtain n' p' where n': "failBackOrders (sessionCalls V E) s (Suc pos) n1 = Some n'" "net_master n' = Some p'"
        "linkInv s (length (keysOn n' s)) {} p' n'" "grows n1 n'"
      using less(1) [OF _ p1] by fastforce
    moreover have "grows n n1"
      using res(3) grows_applyEffects [of n V] by (metis grows_master)
    ultimately show ?thesis
      using True grows_trans [of n n1 n'] by (subst failBackOrders.simps) (auto simp: x_def n1_def)
  qed
qed

lemma Unregister_fields:
  "unicastSessions (UnregisterUnicastSession k n) = unicastSessions n"
  "net_master (UnregisterUnicastSession k n) = net_master n"
  "nextUnicastSession (UnregisterUnicastSession k n) = nextUnicastSession n"
  "registeredUnicastSessions (UnregisterUnicastSession k n) = tabRemove id k (registeredUnicastSessions n)"
  by (simp_all add: UnregisterUnicastSession_def Let_def split: option.split)

lemma Unregister_queue:
  assumes "tablesOK n"
  shows "queueFor peer (UnregisterUnicastSession k n) = filter (\<lambda>j. j \<noteq> k) (queueFor peer n)"
proof (cases "peer = remotePeerID (unicastSessions n k) \<and> IsValid peer")
  case True
  then show ?thesis
    by (auto simp: UnregisterUnicastSession_def queueFor_def Let_def tabGet_tabPut tabGet_tabRemove filter_empty_conv
        split: option.split)
next
  case False
  then have "k \<notin> set (queueFor peer n)"
    using assms by (auto simp: tablesOK_def)
  then have "filter (\<lambda>j. j \<noteq> k) (queueFor peer n) = queueFor peer n"
    by (intro filter_all_conv) auto
  moreover have "queueFor peer (UnregisterUnicastSession k n) = queueFor peer n"
    using False
    by (auto simp: UnregisterUnicastSession_def queueFor_def Let_def tabGet_tabPut tabGet_tabRemove split: option.split)
  ultimately show ?thesis
    by simp
qed

lemma Unregister_ok:
  assumes "netOK n" "keysOn n k = []"
  shows "netOK (UnregisterUnicastSession k n)" "k \<notin> set (registeredUnicastSessions (UnregisterUnicastSession k n))"
proof -
  have reg: "set (registeredUnicastSessions (UnregisterUnicastSession k n)) = set (registeredUnicastSessions n) - {k}"
    by (auto simp: Unregister_fields tabRemove_def)
  then show "k \<notin> set (registeredUnicastSessions (UnregisterUnicastSession k n))"
    by simp
  have "j \<noteq> k" if "x \<in> set (keysOn n j)" for x j
    using that assms(2) by auto
  then have "keysOK (UnregisterUnicastSession k n)"
    using assms(1) unfolding netOK_def keysOK_def reg Unregister_fields(1) by blast
  moreover have "tablesOK (UnregisterUnicastSession k n)"
    using assms(1) Unregister_queue [of n _ k] by (auto simp: netOK_def tablesOK_def reg Unregister_fields(1,3))
  ultimately show "netOK (UnregisterUnicastSession k n)"
    by (simp add: netOK_def)
qed

lemma netOK_unregistered:
  assumes "netOK n" "k \<notin> set (registeredUnicastSessions n)" "us_backorders (f (unicastSessions n k)) = []"
  shows "netOK (updateSession k f n)" "keysOn (updateSession k f n) = keysOn n"
proof -
  have "keysOn n k = []"
  proof (rule ccontr)
    assume "keysOn n k \<noteq> []"
    then have "hd (keysOn n k) \<in> set (keysOn n k)"
      by simp
    then show False
      using assms(1,2) by (auto simp: netOK_def keysOK_def)
  qed
  then show keys: "keysOn (updateSession k f n) = keysOn n"
    using assms(3) by auto
  have same: "unicastSessions (updateSession k f n) j = unicastSessions n j" if "j \<in> set (registeredUnicastSessions n)" for j
    using assms(2) that by auto
  have "keysOK (updateSession k f n)"
    using assms(1) fun_cong [OF keys] same unfolding netOK_def keysOK_def unicastSessions_updateSession(2) by metis
  moreover have "tablesOK (updateSession k f n)"
    using assms(1) same unfolding netOK_def tablesOK_def unicastSessions_updateSession(2,4,6) by metis
  ultimately show "netOK (updateSession k f n)"
    by (simp add: netOK_def)
qed

lemma linkInv_0: "linkInv s 0 D p n = linkInv 0 0 D p n"
  by (simp add: linkInv_def live_0)

lemma linkInv_clear:
  assumes "linkInv s (length (keysOn n s)) {} p n"
  shows "linkInv 0 0 {} p (updateSession s (\<lambda>x. x \<lparr> us_backorders := [] \<rparr>) n)"
proof -
  let ?n = "updateSession s (\<lambda>x. x \<lparr> us_backorders := [] \<rparr>) n"
  have "netOK n"
    using assms by (simp add: linkInv_def)
  then have "keysOK ?n" "tablesOK ?n"
    by (auto simp: netOK_def keysOK_def tablesOK_def fullLast_def sentOn_def)
  moreover have "live 0 0 ?n = live s (length (keysOn n s)) n"
    by (auto simp: live_def split: if_splits)
  ultimately show ?thesis
    using assms by (auto simp: linkInv_def netOK_def)
qed

text \<open>
  Unregistering a live connection ends, leaves no key on it, and keeps the tables of keys in
  agreement.
\<close>

lemma UnregisterMyself_ok:
  assumes "net_master n = Some p" "linkInv 0 0 {} p n" "k \<in> set (registeredUnicastSessions n)"
  shows "\<exists>n' p'. UnregisterMyself (sessionCalls V E) k forGood n = Some n' \<and> net_master n' = Some p' \<and>
    linkInv 0 0 {} p' n' \<and> k \<notin> set (registeredUnicastSessions n') \<and> k < nextUnicastSession n' \<and>
    hasMaster (unicastSessions n' k) = (\<not> forGood) \<and> keysOn n' k = [] \<and>
    (\<exists>m. grows n m \<and> set (registeredUnicastSessions n') = set (registeredUnicastSessions m) - {k} \<and>
         nextUnicastSession n' = nextUnicastSession m)"
proof -
  obtain n1 p1 where n1: "failBackOrders (sessionCalls V E) k 0 n = Some n1" "net_master n1 = Some p1"
      "linkInv k (length (keysOn n1 k)) {} p1 n1" "grows n n1"
    using failBackOrders_ok [OF assms(1), of k 0 V E] assms(2) by (auto simp: linkInv_0 [of k])
  have tables: "hasMaster (unicastSessions n k)" "hasMaster (unicastSessions n1 k)" "k < nextUnicastSession n1"
    using assms(2,3) n1(3,4) by (auto simp: linkInv_def netOK_def tablesOK_def grows_def)
  define n2 where "n2 = updateSession k (\<lambda>s. s \<lparr> us_backorders := [] \<rparr>) n1"
  have inv2: "linkInv 0 0 {} p1 n2"
    unfolding n2_def by (rule linkInv_clear [OF n1(3)])
  define n3 where "n3 = UnregisterUnicastSession k n2"
  have n2: "net_master n2 = Some p1" "hasMaster (unicastSessions n2 k)" "keysOn n2 k = []" "k < nextUnicastSession n2"
    using n1(2) tables by (simp_all add: n2_def)
  have n3: "netOK n3" "k \<notin> set (registeredUnicastSessions n3)"
    using Unregister_ok [OF _ n2(3)] inv2 by (auto simp: n3_def linkInv_def)
  have inv3: "linkInv 0 0 {} p1 n3"
    by (rule linkInv_network [OF inv2 n3(1)]) (simp add: n3_def Unregister_fields)
  let ?f = "\<lambda>s. s \<lparr> hasMaster := False \<rparr>"
  have inv4: "linkInv 0 0 {} p1 (updateSession k ?f n3)"
    by (rule linkInv_network [OF inv3]) (use netOK_unregistered [OF n3, of ?f] n2(3) in \<open>auto simp: n3_def Unregister_fields\<close>)
  have "UnregisterMyself (sessionCalls V E) k forGood n = Some (if forGood then updateSession k ?f n3 else n3)"
    using n1(1) tables(1) n2(2) by (simp add: UnregisterMyself_def Let_def n2_def [symmetric] n3_def [symmetric])
  moreover have "set (registeredUnicastSessions n3) = set (registeredUnicastSessions n1) - {k}"
    "nextUnicastSession n3 = nextUnicastSession n1"
    by (auto simp: n3_def n2_def Unregister_fields tabRemove_def)
  ultimately show ?thesis
    using inv3 inv4 n2 n3 n1(4) by (cases forGood) (auto simp: n3_def Unregister_fields)
qed

lemma EndSession_ok:
  assumes "net_master n = Some p" "linkInv 0 0 {} p n" "k \<in> set (registeredUnicastSessions n)"
  shows "\<exists>n' p'. us_EndSession (sessionCalls V E) k n = Some n' \<and> net_master n' = Some p' \<and> linkInv 0 0 {} p' n' \<and>
    (\<exists>m. grows n m \<and> set (registeredUnicastSessions n') = set (registeredUnicastSessions m) - {k} \<and>
         nextUnicastSession n' = nextUnicastSession m)"
proof -
  obtain n1 p1 where n1: "UnregisterMyself (sessionCalls V E) k True n = Some n1" "net_master n1 = Some p1"
      "linkInv 0 0 {} p1 n1" "k \<notin> set (registeredUnicastSessions n1)" "keysOn n1 k = []"
      and m: "\<exists>m. grows n m \<and> set (registeredUnicastSessions n1) = set (registeredUnicastSessions m) - {k} \<and>
         nextUnicastSession n1 = nextUnicastSession m"
    using UnregisterMyself_ok [OF assms, of V E True] by blast
  let ?f = "\<lambda>s. s \<lparr> us_ended := True \<rparr>"
  have "linkInv 0 0 {} p1 (updateSession k ?f n1)"
    by (rule linkInv_network [OF n1(3)])
      (use netOK_unregistered [OF _ n1(4), of ?f] n1(3,5) in \<open>auto simp: linkInv_def\<close>)
  then show ?thesis
    using n1 m by (simp add: us_EndSession_def)
qed

section \<open>Operations that ask for nothing\<close>

definition sameKeys :: "('db, 'm) PZGDatabaseState \<Rightarrow> ('db, 'm) PZGDatabaseState \<Rightarrow> bool" where
  "sameKeys s t \<longleftrightarrow> backorders t = backorders s \<and> whichDatabase t = whichDatabase s"

definition quietSession :: "('db, 'm) ZGPeerSession \<Rightarrow> ('db, 'm) ZGPeerSession \<Rightarrow> bool" where
  "quietSession p p' \<longleftrightarrow> networkIO p' = networkIO p \<and> length (databases p') = length (databases p) \<and>
     (\<forall>i < length (databases p). sameKeys (databases p ! i) (databases p' ! i))"

lemma quietSession_refl [simp]: "quietSession p p"
  by (simp add: quietSession_def sameKeys_def)

lemma link_quietSession:
  assumes "quietSession p p'" "linkInv s pos D p n"
  shows "linkInv s pos D p' n"
proof (rule linkInv_same [OF assms(2)])
  show "awaited p' = awaited p"
    using assms(1) by (auto simp: awaited_def quietSession_def sameKeys_def)
  show "routed p'"
    using assms by (auto simp: routed_def linkInv_def quietSession_def sameKeys_def)
qed

lemma sameKeys_request: "sameKeys s (snd (HandleDatabaseUpdateRequest e peerID msg opt s))"
proof -
  have "sameKeys s (snd (HandleResetSenior e peerID s))"
    by (simp add: HandleResetSenior_def sameKeys_def Let_def split_beta)
  moreover have "sameKeys s (snd (HandleReplaceSenior e peerID m s))" for m
    by (simp add: HandleReplaceSenior_def sameKeys_def Let_def split_beta split: option.split)
  moreover have "sameKeys s (snd (HandleUpdateSenior e peerID m s))" for m
    by (simp add: HandleUpdateSenior_def sameKeys_def Let_def split_beta split: option.split)
  ultimately show ?thesis
    by (simp add: HandleDatabaseUpdateRequest_def) (simp add: sameKeys_def split: option.split)
qed

lemma quiet_storeDatabase: "sameKeys (databases p ! i) s \<Longrightarrow> quietSession p (storeDatabase i s p)"
  by (cases "i < length (databases p)")
    (auto simp: quietSession_def sameKeys_def nth_list_update list_update_beyond split: if_splits)

lemma quiet_forAll:
  "(\<And>i e s. sameKeys s (f i e s)) \<Longrightarrow> quietSession p (forAllDatabases E f p)"
  by (simp add: quietSession_def forAllDatabases_databases)

lemma quiet_handle: "quietSession p (snd (ps_HandleDatabaseUpdateRequest E peerID msg b p))"
  unfolding ps_HandleDatabaseUpdateRequest_def Let_def
  by (simp add: split_beta quiet_storeDatabase [OF sameKeys_request])

lemma quiet_private: "quietSession p (PrivateMessageReceivedFromPeer E peerID msg p)"
proof -
  have "quietSession p (p \<lparr> sessionEffects := es \<rparr>)" for es
    by (simp add: quietSession_def sameKeys_def)
  then show ?thesis
    by (simp add: PrivateMessageReceivedFromPeer_def quiet_handle split: option.split)
qed

lemma quiet_beacon: "quietSession p (BeaconDataChanged E beacon p)"
  unfolding BeaconDataChanged_def Let_def
  by (simp add: quiet_forAll SeniorDatabaseStateInfoChanged_def sameKeys_def)

lemma quiet_verify: "quietSession p (ps_VerifyOrFixLocalDatabaseChecksum E whichDB p)"
  by (simp add: ps_VerifyOrFixLocalDatabaseChecksum_def forDatabase_def quiet_storeDatabase
      VerifyOrFixLocalDatabaseChecksum_def sameKeys_def Let_def)

lemma quiet_comesOnline: "quietSession p (ps_PeerHasComeOnline E peerID info p)"
  using quiet_forAll [of "\<lambda>_. ScheduleLogContentsRescan"
      "p \<lparr> onlinePeers := tabPut fst (peerID, info) (onlinePeers p), iAmFullyAttached := True \<rparr>" E]
  by (auto simp: ps_PeerHasComeOnline_def Let_def quietSession_def sameKeys_def)

lemma quiet_goesOffline: "quietSession p (ps_PeerHasGoneOffline peerID p)"
  by (simp add: ps_PeerHasGoneOffline_def quietSession_def sameKeys_def)

lemma quiet_seniorChanged: "quietSession p (ps_SeniorPeerChanged peerID p)"
  by (simp add: ps_SeniorPeerChanged_def ScheduleSetBeaconData_def quietSession_def sameKeys_def Let_def)

text \<open>A network state in which the tables of keys agree.\<close>

definition backOrdersAgree :: "('db, 'm) peer_network \<Rightarrow> bool" where
  "backOrdersAgree n \<longleftrightarrow> (\<exists>p. net_master n = Some p \<and> linkInv 0 0 {} p n)"

lemma agree_onMaster:
  "backOrdersAgree n \<Longrightarrow> (\<And>p. quietSession p (f p)) \<Longrightarrow> backOrdersAgree (onMaster f n)"
  unfolding backOrdersAgree_def onMaster_def by (auto intro: link_quietSession)

lemma agree_network:
  "backOrdersAgree n \<Longrightarrow> (netOK n \<Longrightarrow> netOK n' \<and> keysOn n' = keysOn n) \<Longrightarrow> net_master n' = net_master n \<Longrightarrow>
   backOrdersAgree n'"
  unfolding backOrdersAgree_def by (metis linkInv_def linkInv_network)

lemma agree_netOK: "backOrdersAgree n \<Longrightarrow> netOK n"
  by (auto simp: backOrdersAgree_def linkInv_def)

lemma agree_send:
  assumes "backOrdersAgree n"
  shows "backOrdersAgree (snd (SendUnicastMessageToPeer V peerID msg n))"
proof (rule agree_network [OF assms])
  obtain r n1 where get: "GetUnicastSessionForPeerID V peerID True n = (r, n1)"
    by fastforce
  note ok = GetUnicastSession_ok [OF agree_netOK [OF assms] get]
  have add: "netOK (snd (us_AddOutgoingMessage V k m n1)) \<and> keysOn (snd (us_AddOutgoingMessage V k m n1)) = keysOn n1 \<and>
      net_master (snd (us_AddOutgoingMessage V k m n1)) = net_master n1" for k m
    using AddOutgoing_ok(1-3) [OF ok(1) prod.collapse [symmetric]] by blast
  have self: "netOK (n \<lparr> messagesSentToSelf := ms \<rparr>) = netOK n" for ms
    by (rule netOK_cong) simp_all
  show "netOK (snd (SendUnicastMessageToPeer V peerID msg n)) \<and>
      keysOn (snd (SendUnicastMessageToPeer V peerID msg n)) = keysOn n" if "netOK n"
    using that add ok by (simp add: SendUnicastMessageToPeer_def get self split: sum.split)
  show "net_master (snd (SendUnicastMessageToPeer V peerID msg n)) = net_master n"
    using add ok(3) by (simp add: SendUnicastMessageToPeer_def get split: sum.split)
qed

lemma agree_accept: "backOrdersAgree n \<Longrightarrow> backOrdersAgree (acceptUnicastSession V n)"
proof (rule agree_network, assumption)
  let ?k = "nextUnicastSession n"
  define n1 where "n1 = n \<lparr> nextUnicastSession := Suc ?k,
      unicastSessions := (unicastSessions n)(?k := newPZGUnicastSession invalidPeerID) \<rparr>"
  assume "backOrdersAgree n"
  note new = newSession_ok [OF agree_netOK [OF this] n1_def]
  have at: "?k < nextUnicastSession n1" "hasMaster (unicastSessions n1 ?k)" "net_master n1 = net_master n"
    by (simp_all add: n1_def newPZGUnicastSession_def)
  have eq: "acceptUnicastSession V n = us_AttachedToServer V ?k n1"
    unfolding acceptUnicastSession_def n1_def Let_def by (rule refl)
  show "netOK (acceptUnicastSession V n) \<and> keysOn (acceptUnicastSession V n) = keysOn n"
    "net_master (acceptUnicastSession V n) = net_master n"
    unfolding eq using Attached_ok [OF new(1) at(1,2) new(3), of V] new(2) at(3) by simp_all
qed

lemma agree_reply: "backOrdersAgree n \<Longrightarrow> backOrdersAgree (backOrderReplied (sessionCalls V E) k x u n)"
proof (cases "x \<in> set (keysOn n k)")
  case True
  assume "backOrdersAgree n"
  then obtain p where p: "net_master n = Some p" "linkInv 0 0 {} p n"
    by (auto simp: backOrdersAgree_def)
  define n1 where "n1 = updateSession k (\<lambda>s. s \<lparr> us_backorders := filter (\<lambda>y. y \<noteq> x) (us_backorders s) \<rparr>) n"
  have keys: "keysOn n1 j = (if j = k then filter (\<lambda>y. y \<noteq> x) (keysOn n k) else keysOn n j)" for j
    by (simp add: n1_def)
  have ok: "netOK n"
    using p(2) by (simp add: linkInv_def)
  have only: "x \<notin> set (keysOn n j)" if "j \<noteq> k" for j
    using ok True that unfolding netOK_def keysOK_def by blast
  have sub: "set (keysOn n1 j) \<subseteq> set (keysOn n j)" "distinct (keysOn n1 j)" "fullLast (keysOn n1 j)"
      "sentOn (unicastSessions n1 j) = sentOn (unicastSessions n j)" for j
    using ok by (auto simp: keys netOK_def keysOK_def fullLast_def sorted_wrt_filter sentOn_def n1_def)
  have reg: "registeredUnicastSessions n1 = registeredUnicastSessions n"
    by (simp add: n1_def)
  have "keysOK n1"
    using ok sub unfolding netOK_def keysOK_def reg by (metis (no_types, lifting) disjoint_iff subsetD)
  moreover have "tablesOK n1"
    using ok by (auto simp: netOK_def tablesOK_def n1_def)
  moreover have "live 0 0 n1 = live 0 0 n - {x}" "x \<in> live 0 0 n"
    using only True by (auto simp: live_0 keys split: if_splits)
  ultimately have "linkInv 0 0 {x} p n1"
    using p(2) by (auto simp: linkInv_def netOK_def)
  then have "\<exists>p'. net_master (net_BackOrderResultReceived (sessionCalls V E) x u n1) = Some p' \<and>
      linkInv 0 0 {} p' (net_BackOrderResultReceived (sessionCalls V E) x u n1)"
    using p(1) by (intro call_result(1)) (simp_all add: n1_def)
  then show ?thesis
    using True by (simp add: backOrdersAgree_def backOrderReplied_def n1_def)
qed (simp add: backOrderReplied_def)

lemma agree_end:
  assumes "backOrdersAgree n" "k \<in> set (registeredUnicastSessions n)"
  shows "\<exists>n'. us_EndSession (sessionCalls V E) k n = Some n' \<and> backOrdersAgree n' \<and>
    (\<exists>m. grows n m \<and> set (registeredUnicastSessions n') = set (registeredUnicastSessions m) - {k} \<and>
         nextUnicastSession n' = nextUnicastSession m)"
proof -
  obtain p where "net_master n = Some p" "linkInv 0 0 {} p n"
    using assms(1) by (auto simp: backOrdersAgree_def)
  from EndSession_ok [OF this assms(2), of V E] show ?thesis
    unfolding backOrdersAgree_def by blast
qed

lemma agree_endEach:
  assumes "backOrdersAgree n" "distinct ks" "set ks \<subseteq> set (registeredUnicastSessions n)"
  shows "\<exists>n'. endEach (sessionCalls V E) ks n = Some n' \<and> backOrdersAgree n'"
  using assms
proof (induction ks arbitrary: n)
  case (Cons k ks)
  then obtain n1 where n1: "us_EndSession (sessionCalls V E) k n = Some n1" "backOrdersAgree n1"
      "\<exists>m. grows n m \<and> set (registeredUnicastSessions n1) = set (registeredUnicastSessions m) - {k}"
    using agree_end [of n k V E] by auto
  have "set ks \<subseteq> set (registeredUnicastSessions n1)"
    using Cons.prems n1(3) by (auto simp: grows_def)
  then show ?case
    using Cons n1 by auto
qed simp

lemma agree_offline:
  assumes "backOrdersAgree n"
  shows "\<exists>n'. net_PeerHasGoneOffline (sessionCalls V E) peerID n = Some n' \<and> backOrdersAgree n'"
proof -
  let ?n = "onMaster (call_PeerHasGoneOffline (sessionCalls V E) peerID) n"
  have agree: "backOrdersAgree ?n"
    by (rule agree_onMaster [OF assms]) (simp add: sessionCalls_def quiet_goesOffline)
  have "distinct (queueFor peerID ?n)" "set (queueFor peerID ?n) \<subseteq> set (registeredUnicastSessions ?n)"
    using agree_netOK [OF agree] by (auto simp: netOK_def tablesOK_def)
  then show ?thesis
    using agree_endEach [OF agree] by (simp add: net_PeerHasGoneOffline_def Let_def)
qed

lemma agree_frame [simp]:
  "backOrdersAgree (SendMessageToInternalThread msg n) = backOrdersAgree n"
  "backOrdersAgree (n \<lparr> net_seniorPeerID := peerID \<rparr>) = backOrdersAgree n"
  "backOrdersAgree (n \<lparr> mainThreadPeers := peers \<rparr>) = backOrdersAgree n"
  "backOrdersAgree (n \<lparr> computerIsAsleep := b \<rparr>) = backOrdersAgree n"
  "backOrdersAgree (n \<lparr> hbSettings := b \<rparr>) = backOrdersAgree n"
  by (simp_all add: backOrdersAgree_def SendMessageToInternalThread_def linkInv_def live_def
      netOK_cong [of "n \<lparr> toInternalThread := _ \<rparr>" n] netOK_cong [of "n \<lparr> net_seniorPeerID := _ \<rparr>" n]
      netOK_cong [of "n \<lparr> mainThreadPeers := _ \<rparr>" n] netOK_cong [of "n \<lparr> computerIsAsleep := _ \<rparr>" n]
      netOK_cong [of "n \<lparr> hbSettings := _ \<rparr>" n])

lemma agree_senior: "backOrdersAgree n \<Longrightarrow> backOrdersAgree (net_SeniorPeerChanged (sessionCalls V E) peerID n)"
  by (auto simp: net_SeniorPeerChanged_def sessionCalls_def intro!: agree_onMaster quiet_seniorChanged)

lemma agree_allOffline:
  "backOrdersAgree n \<Longrightarrow> \<exists>n'. allOffline (sessionCalls V E) peers n = Some n' \<and> backOrdersAgree n'"
proof (induction peers arbitrary: n)
  case (Cons peerID peers)
  then show ?case
    using agree_offline [OF Cons.prems, of V E peerID] by auto
qed simp

lemma agree_clearLoop:
  fixes V :: "'m net_env" and E :: "('db, 'm) session_env" and n n' :: "('db, 'm) peer_network"
  assumes "clearLoop (sessionCalls V E) visited n = Some n'" "backOrdersAgree n"
    "set visited \<inter> set (registeredUnicastSessions n) = {}" "\<forall>v \<in> set visited. v < nextUnicastSession n"
  shows "backOrdersAgree n' \<and> registeredUnicastSessions n' = []"
proof -
  let ?P = "\<lambda>M visited (n :: ('db, 'm) peer_network) (n' :: ('db, 'm) peer_network). M = sessionCalls V E \<longrightarrow> backOrdersAgree n \<longrightarrow>
    set visited \<inter> set (registeredUnicastSessions n) = {} \<longrightarrow> (\<forall>v \<in> set visited. v < nextUnicastSession n) \<longrightarrow>
    backOrdersAgree n' \<and> registeredUnicastSessions n' = []"
  have "?P (sessionCalls V E) visited n n'"
  proof (rule clearLoop.raw_induct [where P = ?P, OF _ assms(1)], intro impI)
    fix f :: "('m, ('db, 'm) ZGPeerSession) master_calls \<Rightarrow> nat list \<Rightarrow> ('db, 'm) peer_network \<Rightarrow> ('db, 'm) peer_network option"
      and M :: "('m, ('db, 'm) ZGPeerSession) master_calls" and visited and n n' :: "('db, 'm) peer_network"
    assume IH: "\<And>M visited n n'. f M visited n = Some n' \<Longrightarrow> ?P M visited n n'"
      and step: "(case filter (\<lambda>k. k \<notin> set visited) (registeredUnicastSessions n) of [] \<Rightarrow> Some n
        | k # _ \<Rightarrow> (case us_EndSession M k n of None \<Rightarrow> None | Some n1 \<Rightarrow> f M (k # visited) n1)) = Some n'"
      and M: "M = sessionCalls V E" and agree: "backOrdersAgree n"
      and fresh: "set visited \<inter> set (registeredUnicastSessions n) = {}"
      and old: "\<forall>v \<in> set visited. v < nextUnicastSession n"
    have all: "filter (\<lambda>k. k \<notin> set visited) (registeredUnicastSessions n) = registeredUnicastSessions n"
      using fresh by (intro filter_all_conv) auto
    show "backOrdersAgree n' \<and> registeredUnicastSessions n' = []"
    proof (cases "registeredUnicastSessions n")
      case Nil
      then show ?thesis
        using step agree by simp
    next
      case (Cons k ks)
      then have k: "k \<in> set (registeredUnicastSessions n)"
        by simp
      obtain n1 m where n1: "us_EndSession (sessionCalls V E) k n = Some n1" "backOrdersAgree n1" "grows n m"
          "set (registeredUnicastSessions n1) = set (registeredUnicastSessions m) - {k}"
          "nextUnicastSession n1 = nextUnicastSession m"
        using agree_end [OF agree k, of V E] by blast
      have "k < nextUnicastSession n"
        using agree_netOK [OF agree] k by (auto simp: netOK_def tablesOK_def)
      then have "set (k # visited) \<inter> set (registeredUnicastSessions n1) = {}" "\<forall>v \<in> set (k # visited). v < nextUnicastSession n1"
        using n1(3-5) fresh old by (fastforce simp: grows_def)+
      moreover have "f M (k # visited) n1 = Some n'"
        using step all Cons n1(1) M by simp
      ultimately show ?thesis
        using IH [of M "k # visited" n1 n'] M n1(2) by blast
    qed
  qed
  with assms show ?thesis
    by blast
qed

lemma agree_clear:
  assumes "backOrdersAgree n" "ClearAllUnicastSessions (sessionCalls V E) n = Some n'"
  shows "backOrdersAgree n'"
proof -
  obtain n1 where n1: "clearLoop (sessionCalls V E) [] n = Some n1"
      "n' = n1 \<lparr> registeredUnicastSessions := [], namedUnicastSessions := [] \<rparr>"
    using assms(2) by (auto simp: ClearAllUnicastSessions_def)
  have agree: "backOrdersAgree n1" and none: "registeredUnicastSessions n1 = []"
    using agree_clearLoop [OF n1(1) assms(1)] by auto
  show ?thesis
  proof (rule agree_network [OF agree])
    assume ok: "netOK n1"
    have "keysOn n1 k = []" for k
      using ok none by (cases "keysOn n1 k") (auto simp: netOK_def keysOK_def)
    then show "netOK n' \<and> keysOn n' = keysOn n1"
      by (simp add: n1(2) netOK_def keysOK_def tablesOK_def fullLast_def queueFor_def)
  qed (simp add: n1(2))
qed

lemma agree_request:
  assumes "backOrdersAgree n" "k \<in> set (registeredUnicastSessions n)"
  shows "\<exists>n'. backOrderRequested (sessionCalls V E) V k x b n = Some n' \<and> backOrdersAgree n'"
proof -
  define n1 where "n1 = (if GetDatabaseUpdateID x = DATABASE_UPDATE_ID_FULL_UPDATE \<and> b
      then net_VerifyOrFixLocalDatabaseChecksum (sessionCalls V E) (GetDatabaseIndex x) n else n)"
  have agree1: "backOrdersAgree n1"
    using assms(1) by (auto simp: n1_def net_VerifyOrFixLocalDatabaseChecksum_def sessionCalls_def
        intro!: agree_onMaster quiet_verify)
  have reg: "k \<in> set (registeredUnicastSessions n1)"
    using assms(2) by (simp add: n1_def net_VerifyOrFixLocalDatabaseChecksum_def onMaster_def)
  let ?msg = "REPLY_BACK_ORDER (Some x)
      (net_GetDatabaseUpdateByID (sessionCalls V E) (GetDatabaseIndex x) (GetDatabaseUpdateID x) n1)"
  obtain st n2 where add: "us_AddOutgoingMessage V k ?msg n1 = (st, n2)"
    by fastforce
  note ok = AddOutgoing_ok [OF agree_netOK [OF agree1] add]
  have agree2: "backOrdersAgree n2"
    using ok by (intro agree_network [OF agree1]) simp_all
  have "backOrderRequested (sessionCalls V E) V k x b n = (if IsError st then us_EndSession (sessionCalls V E) k n2 else Some n2)"
    unfolding backOrderRequested_def Let_def n1_def [symmetric] add by simp
  then show ?thesis
    using agree2 agree_end [OF agree2, of k V E] reg ok(4) by auto
qed

lemma agree_announce:
  assumes "backOrdersAgree n" "k \<in> set (registeredUnicastSessions n)"
    and res: "announceReceived (sessionCalls V E) k peer n = Some n'"
  shows "backOrdersAgree n'"
proof -
  obtain p where p: "net_master n = Some p" "linkInv 0 0 {} p n"
    using assms(1) by (auto simp: backOrdersAgree_def)
  obtain n1 p1 where n1: "UnregisterMyself (sessionCalls V E) k False n = Some n1" "net_master n1 = Some p1" "linkInv 0 0 {} p1 n1"
      "k \<notin> set (registeredUnicastSessions n1)" "k < nextUnicastSession n1" "hasMaster (unicastSessions n1 k)" "keysOn n1 k = []"
    using UnregisterMyself_ok [OF p assms(2), of V E False] by auto
  have ok1: "netOK n1"
    using n1(3) by (simp add: linkInv_def)
  show ?thesis
  proof (cases peer)
    case (Some peerID)
    let ?f = "\<lambda>s. s \<lparr> us_backorders := [], remotePeerID := peerID \<rparr>"
    let ?n = "updateSession k ?f n1"
    have un: "netOK ?n" "keysOn ?n = keysOn n1"
      by (rule netOK_unregistered [OF ok1 n1(4)]; simp)+
    have "netOK (RegisterUnicastSession k ?n)" "unicastSessions (RegisterUnicastSession k ?n) = unicastSessions ?n"
      "net_master (RegisterUnicastSession k ?n) = net_master ?n"
      by (rule Register_ok [OF un(1)]; use n1(4-6) in simp)+
    moreover have "n' = RegisterUnicastSession k ?n"
      using res n1(1,6) Some by (simp add: announceReceived_def RegisterMyself_def)
    ultimately show ?thesis
      using n1(2,3) un(2) linkInv_network [OF n1(3), of n'] by (simp add: backOrdersAgree_def)
  next
    case None
    let ?n = "updateSession k (\<lambda>s. s \<lparr> us_backorders := [] \<rparr>) n1"
    let ?m = "updateSession k (\<lambda>s. s \<lparr> us_backorders := [] \<rparr>) ?n"
    have un: "netOK ?n" "keysOn ?n = keysOn n1"
      by (rule netOK_unregistered [OF ok1 n1(4)]; simp)+
    have un2: "netOK ?m"
      by (rule netOK_unregistered [OF un(1)]) (use n1(4) in simp_all)
    have "us_EndSession (sessionCalls V E) k ?n = Some n'"
      using res n1(1) None by (simp add: announceReceived_def)
    moreover have "failBackOrders (sessionCalls V E) k 0 ?n = Some ?n"
      by (subst failBackOrders.simps) simp
    ultimately have n': "n' = updateSession k (\<lambda>s. s \<lparr> us_ended := True \<rparr>)
        (updateSession k (\<lambda>s. s \<lparr> hasMaster := False \<rparr>) (UnregisterUnicastSession k ?m))"
      using n1(6) by (auto simp: us_EndSession_def UnregisterMyself_def Let_def)
    have u: "netOK (UnregisterUnicastSession k ?m)" "k \<notin> set (registeredUnicastSessions (UnregisterUnicastSession k ?m))"
      by (rule Unregister_ok [OF un2]; simp)+
    have v: "netOK (updateSession k (\<lambda>s. s \<lparr> hasMaster := False \<rparr>) (UnregisterUnicastSession k ?m))"
      by (rule netOK_unregistered [OF u]) (simp add: Unregister_fields)
    have "netOK n'" "keysOn n' = keysOn n1"
      unfolding n' by (rule netOK_unregistered [OF v]) (use u(2) n1(7) in \<open>auto simp: Unregister_fields\<close>)
    moreover have "net_master n' = Some p1"
      using n1(2) by (simp add: n' Unregister_fields)
    ultimately show ?thesis
      using linkInv_network [OF n1(3), of n'] by (simp add: backOrdersAgree_def)
  qed
qed

section \<open>Every event of a network session\<close>

text \<open>
  Whatever the network does: the environments \<open>V\<close> and \<open>E\<close> are different at every step.  A
  database whose target state is the largest 64-bit number is excluded (its back-order loop
  would not end).
\<close>

inductive link_step :: "('db, 'm) peer_network \<Rightarrow> ('db, 'm) peer_network \<Rightarrow> bool" where
  SessionAttaches:
    "net_AttachedToServer (sessionCalls V E) B_NO_ERROR B_NO_ERROR B_NO_ERROR st n = Some (st', n') \<Longrightarrow> link_step n n'"
| DatabasePulses:
    "net_master n = Some p \<Longrightarrow> i < length (databases p) \<Longrightarrow> GetTargetDatabaseStateID (databases p ! i) \<noteq> - 1 \<Longrightarrow>
     net_databasePulse V E i n = Some n' \<Longrightarrow> link_step n n'"
| MessageArrives:
    "k \<in> set (registeredUnicastSessions n) \<Longrightarrow>
     us_MessageReceivedFromGateway (sessionCalls V E) V k msg n = Some n' \<Longrightarrow> link_step n n'"
| Disconnects:
    "k \<in> set (registeredUnicastSessions n) \<Longrightarrow>
     us_AboutToDetachFromServer (sessionCalls V E) k n = Some n' \<Longrightarrow> link_step n n'"
| SessionEnds:
    "k \<in> set (registeredUnicastSessions n) \<Longrightarrow> us_EndSession (sessionCalls V E) k n = Some n' \<Longrightarrow> link_step n n'"
| PeerConnects: "link_step n (acceptUnicastSession V n)"
| MessageSent: "link_step n (snd (SendUnicastMessageToPeer V peerID pmsg n))"
| MulticastArrives: "link_step n (MessageReceivedFromInternalThread (sessionCalls V E) nmsg n)"
| PeerComesOnline: "link_step n (net_PeerHasComeOnline (sessionCalls V E) peerID info n)"
| PeerGoesOffline: "net_PeerHasGoneOffline (sessionCalls V E) peerID n = Some n' \<Longrightarrow> link_step n n'"
| SeniorChanges: "link_step n (net_SeniorPeerChanged (sessionCalls V E) peerID n)"
| HeartbeatsArrive: "link_step n (n \<lparr> mainThreadPeers := peers \<rparr>)"
| FallsAsleep: "net_ComputerIsAboutToSleep (sessionCalls V E) n = Some n' \<Longrightarrow> link_step n n'"
| WakesUp: "link_step n (net_ComputerJustWokeUp n)"

inductive link_reach :: "('db, 'm) peer_network \<Rightarrow> ('db, 'm) peer_network \<Rightarrow> bool" for n0 :: "('db, 'm) peer_network" where
  link_init: "link_reach n0 n0"
| link_next: "link_reach n0 n \<Longrightarrow> link_step n n' \<Longrightarrow> link_reach n0 n'"

lemma agree_pulse:
  assumes "backOrdersAgree n" "net_master n = Some p" "i < length (databases p)"
    "GetTargetDatabaseStateID (databases p ! i) \<noteq> - 1" "net_databasePulse V E i n = Some n'"
  shows "backOrdersAgree n'"
proof -
  have inv: "linkInv 0 0 {} p n"
    using assms(1,2) by (auto simp: backOrdersAgree_def)
  then have io: "networkIO p \<noteq> None"
    by (auto simp: linkInv_def routed_def)
  define E' where "E' = linkedEnv V n (length (effects (databases p ! i))) i E"
  have linked: "linked V n (databases p ! i) (masterFor E' p i)"
    unfolding E'_def by (rule linked_masterFor [OF io])
  obtain s where s: "RescanUpdateLogIfNecessary (masterFor E' p i) (databases p ! i) = Some s"
    using assms(2,5) by (auto simp: net_databasePulse_def linkedCall_def databasePulse_def E'_def Let_def)
  obtain evs where evs: "effects s = effects (databases p ! i) @ evs"
      "linkInv 0 0 {} (putDatabase i s p) (fold (applyEffect V) evs n)"
    using link_asks [OF RescanIfNecessary_asks [OF s assms(4)] inv assms(3) linked] by blast
  have "linkedCall V E i (\<lambda>E' p. databasePulse E' i p) n =
      Some ((fold (applyEffect V) evs n) \<lparr> net_master := Some (storeDatabase i s p) \<rparr>)"
    by (rule linkedCall_Some [OF assms(2) io]) (use s evs(1) assms(3) in \<open>simp_all add: databasePulse_def E'_def\<close>)
  then have n': "n' = (fold (applyEffect V) evs n) \<lparr> net_master := Some (storeDatabase i s p) \<rparr>"
    using assms(5) by (simp add: net_databasePulse_def)
  have "linkInv 0 0 {} (storeDatabase i s p) (fold (applyEffect V) evs n)"
    using evs(2) by (subst linkInv_session_cong [of _ "putDatabase i s p"]) simp_all
  then show ?thesis
    by (simp add: n' backOrdersAgree_def)
qed

lemma agree_message:
  assumes "backOrdersAgree n" "k \<in> set (registeredUnicastSessions n)"
    "us_MessageReceivedFromGateway (sessionCalls V E) V k msg n = Some n'"
  shows "backOrdersAgree n'"
proof -
  have pm: "backOrdersAgree (net_UnicastMessageReceivedFromPeer (sessionCalls V E) peerID pmsg n)" for peerID pmsg
    using assms(1) by (auto simp: net_UnicastMessageReceivedFromPeer_def sessionCalls_def intro!: agree_onMaster quiet_private)
  show ?thesis
    using assms agree_announce [OF assms(1,2)] agree_request [OF assms(1,2), of V E] agree_reply [OF assms(1)] pm
    by (auto simp: us_MessageReceivedFromGateway_def split: unicast_message.splits option.splits) (metis option.inject)
qed

lemma agree_multicast: "backOrdersAgree n \<Longrightarrow> backOrdersAgree (MessageReceivedFromInternalThread (sessionCalls V E) msg n)"
  by (auto simp: MessageReceivedFromInternalThread_def sessionCalls_def
      intro!: agree_onMaster quiet_private quiet_beacon split: option.split)

lemma agree_unregister:
  assumes "backOrdersAgree n" "k \<in> set (registeredUnicastSessions n)"
  shows "\<exists>n'. us_AboutToDetachFromServer (sessionCalls V E) k n = Some n' \<and> backOrdersAgree n' \<and>
    k \<notin> set (registeredUnicastSessions n') \<and> keysOn n' k = []"
proof -
  obtain p where "net_master n = Some p" "linkInv 0 0 {} p n"
    using assms(1) by (auto simp: backOrdersAgree_def)
  from UnregisterMyself_ok [OF this assms(2), of V E True] show ?thesis
    unfolding us_AboutToDetachFromServer_def backOrdersAgree_def by blast
qed

lemma agree_sleep:
  assumes "backOrdersAgree n" "net_ComputerIsAboutToSleep (sessionCalls V E) n = Some n'"
  shows "backOrdersAgree n'"
proof -
  obtain n1 where n1: "ClearAllUnicastSessions (sessionCalls V E) (n \<lparr> mainThreadPeers := [] \<rparr>) = Some n1"
    using assms(2) by (auto simp: net_ComputerIsAboutToSleep_def split: option.splits)
  have "backOrdersAgree n1"
    by (rule agree_clear [OF _ n1]) (use assms(1) in simp)
  then have agree: "backOrdersAgree (net_SeniorPeerChanged (sessionCalls V E) invalidPeerID n1)"
    by (rule agree_senior)
  obtain peers n2 where n2: "allOffline (sessionCalls V E) peers (net_SeniorPeerChanged (sessionCalls V E) invalidPeerID n1) = Some n2"
      "n' = n2 \<lparr> computerIsAsleep := True \<rparr>"
    using assms(2) n1 by (auto simp: net_ComputerIsAboutToSleep_def Let_def)
  have "backOrdersAgree n2"
    using agree_allOffline [OF agree, of V E peers] n2(1) by auto
  then show ?thesis
    using n2(2) by simp
qed

lemma link_step_agree:
  assumes "link_step n n'" "backOrdersAgree n"
  shows "backOrdersAgree n'"
  using assms
proof (induction rule: link_step.induct)
  case (Disconnects k n V E n')
  then show ?case
    using agree_unregister [of n k V E] by auto
next
  case (SessionEnds k n V E n')
  then show ?case
    using agree_end [of n k V E] by auto
next
  case (PeerComesOnline n V E peerID info)
  then show ?case
    by (auto simp: net_PeerHasComeOnline_def sessionCalls_def intro!: agree_onMaster quiet_comesOnline)
next
  case (PeerGoesOffline V E peerID n n')
  then show ?case
    using agree_offline [of n V E peerID] by auto
qed (auto simp: net_ComputerJustWokeUp_def net_AttachedToServer_def
    intro: agree_pulse agree_message agree_accept agree_send agree_multicast agree_senior agree_sleep)

lemma link_reach_agree: "link_reach n0 n \<Longrightarrow> backOrdersAgree n0 \<Longrightarrow> backOrdersAgree n"
  by (induction rule: link_reach.induct) (auto intro: link_step_agree)

text \<open>Where it starts: a session that has just been attached to the server, with no connection yet.\<close>

lemma agree_new:
  assumes "networkIO p \<noteq> None" "length (databases p) < 2 ^ 32"
    "\<forall>i < length (databases p). whichDatabase (databases p ! i) = of_nat i \<and> backorders (databases p ! i) = []"
  shows "backOrdersAgree (newPZGNetworkIOSession pid p)"
proof -
  let ?n = "newPZGNetworkIOSession pid p :: ('a, 'b) peer_network"
  have "netOK ?n" "live 0 0 ?n = {}" "net_master ?n = Some p"
    by (simp_all add: netOK_def keysOK_def tablesOK_def newPZGNetworkIOSession_def newPZGUnicastSession_def
        fullLast_def queueFor_def live_def)
  moreover have "awaited p = {}"
    using assms(3) by (simp add: awaited_def)
  moreover have "routed p"
    using assms by (simp add: routed_def)
  ultimately show ?thesis
    by (simp add: backOrdersAgree_def linkInv_def)
qed

section \<open>Properties\<close>

text \<open>
  C8: no back-order is forgotten.  Start a network session for a peer whose databases have
  asked for nothing, attach it, and let anything happen: pulses, messages and failures on any connection,
  multicasts, peers coming and going, changes of the senior peer, sleep.  Then the keys the
  databases wait for are exactly the keys outstanding on registered connections, and each of
  them has really been requested on that connection; a database never waits for a reply that
  no connection owes it, even though a dying connection may itself be asked again while it
  reports its failures.
\<close>

theorem back_orders_outstanding:
  assumes "networkIO p0 \<noteq> None" "length (databases p0) < 2 ^ 32"
    and "\<forall>i < length (databases p0). whichDatabase (databases p0 ! i) = of_nat i \<and> backorders (databases p0 ! i) = []"
    and "link_reach (newPZGNetworkIOSession pid p0) n" "net_master n = Some p"
  shows "(\<Union>i < length (databases p). set (backorders (databases p ! i))) =
      {x. \<exists>k \<in> set (registeredUnicastSessions n). x \<in> set (us_backorders (unicastSessions n k)) \<and>
            (\<exists>b. REQUEST_BACK_ORDER (Some x) b \<in> set (us_outgoing (unicastSessions n k)))}"
proof -
  have "backOrdersAgree n"
    using link_reach_agree [OF assms(4)] agree_new [OF assms(1-3)] by blast
  then have inv: "netOK n" "awaited p = live 0 0 n"
    using assms(5) by (auto simp: backOrdersAgree_def linkInv_def)
  have "x \<in> live 0 0 n \<longleftrightarrow> (\<exists>k \<in> set (registeredUnicastSessions n). x \<in> set (keysOn n k) \<and> sentOn (unicastSessions n k) x)" for x
    using inv(1) by (auto simp: live_0 netOK_def keysOK_def)
  then show ?thesis
    using inv(2) by (auto simp: awaited_def sentOn_def)
qed

text \<open>
  C9: a connection can always be closed.  In every reachable state, ending any registered
  connection returns: the loop that reports its outstanding back-orders as failed ends although
  each report may put another key on that connection, and afterwards the connection is
  unregistered and owes nothing.
\<close>

theorem disconnect_returns:
  assumes "networkIO p0 \<noteq> None" "length (databases p0) < 2 ^ 32"
    and "\<forall>i < length (databases p0). whichDatabase (databases p0 ! i) = of_nat i \<and> backorders (databases p0 ! i) = []"
    and "link_reach (newPZGNetworkIOSession pid p0) n" "k \<in> set (registeredUnicastSessions n)"
  shows "\<exists>n'. us_AboutToDetachFromServer (sessionCalls V E) k n = Some n' \<and>
    k \<notin> set (registeredUnicastSessions n') \<and> us_backorders (unicastSessions n' k) = []"
  using agree_unregister [OF link_reach_agree [OF assms(4) agree_new [OF assms(1-3)]] assms(5), of V E] by blast

end
