(* ===== verification/ZG_NetWitnesses.thy ===== *)
theory ZG_NetWitnesses
  imports ZG_Witnesses ZG_BackOrders
begin

text \<open>
  Concrete instances at which the properties of the network session apply: a junior peer that
  misses two updates asks for both on a connection it opens for that purpose; and two peers
  exchange multicast messages, one of which arrives twice.
\<close>

section \<open>Back-orders\<close>

definition demoNetEnv :: "u8 net_env" where
  "demoNetEnv = \<lparr> AddOutgoingResult = (\<lambda>_ _. B_NO_ERROR), AddNewConnectResult = (\<lambda>_. B_NO_ERROR), iap_IsValid = (\<lambda>_. True) \<rparr>"

definition waitingPeer :: "(u8, u8) ZGPeerSession" where
  "waitingPeer = (juniorSession n0) \<lparr> databases := [laggingJunior \<lparr> rescanLogPending := True \<rparr>] \<rparr>"

definition net0 :: "(u8, u8) peer_network" where
  "net0 = newPZGNetworkIOSession (ZGPeerID 1 2) waitingPeer"

definition net1 :: "(u8, u8) peer_network" where
  "net1 = net0 \<lparr> hbSettings := True, mainThreadPeers := [(ZGPeerID 1 1, [(7, 8)])] \<rparr>"

definition net2 :: "(u8, u8) peer_network" where
  "net2 = the (net_databasePulse demoNetEnv (demoEnv False) 0 net1)"

lemma waitingPeer_start:
  "networkIO waitingPeer \<noteq> None" "length (databases waitingPeer) < 2 ^ 32"
  "\<forall>i < length (databases waitingPeer). whichDatabase (databases waitingPeer ! i) = of_nat i \<and> backorders (databases waitingPeer ! i) = []"
proof -
  show "networkIO waitingPeer \<noteq> None"
    by code_simp
  have len: "length (databases waitingPeer) = 1"
    by code_simp
  then show "length (databases waitingPeer) < 2 ^ 32"
    by simp
  have "whichDatabase (databases waitingPeer ! 0) = 0" "backorders (databases waitingPeer ! 0) = []"
    by code_simp+
  then show "\<forall>i < length (databases waitingPeer). whichDatabase (databases waitingPeer ! i) = of_nat i \<and> backorders (databases waitingPeer ! i) = []"
    by (simp add: len)
qed

lemma net2_reached: "link_reach (newPZGNetworkIOSession (ZGPeerID 1 2) waitingPeer) net2"
proof -
  have "net_AttachedToServer (sessionCalls demoNetEnv (demoEnv False)) B_NO_ERROR B_NO_ERROR B_NO_ERROR B_NO_ERROR net0 =
      Some (B_NO_ERROR, net0 \<lparr> hbSettings := True \<rparr>)"
    by (simp add: net_AttachedToServer_def)
  then have "link_step net0 (net0 \<lparr> hbSettings := True \<rparr>)"
    by (rule SessionAttaches)
  moreover have "link_step (net0 \<lparr> hbSettings := True \<rparr>) net1"
    using HeartbeatsArrive [of "net0 \<lparr> hbSettings := True \<rparr>" "[(ZGPeerID 1 1, [(7, 8)])]"] by (simp add: net1_def)
  moreover have "link_step net1 net2"
  proof (rule DatabasePulses)
    show "net_master net1 = Some waitingPeer"
      by (simp add: net1_def net0_def newPZGNetworkIOSession_def)
    show "0 < length (databases waitingPeer)" "GetTargetDatabaseStateID (databases waitingPeer ! 0) \<noteq> - 1"
      by code_simp+
    have "(case net_databasePulse demoNetEnv (demoEnv False) 0 net1 of None \<Rightarrow> False | Some _ \<Rightarrow> True)"
      by code_simp
    then show "net_databasePulse demoNetEnv (demoEnv False) 0 net1 = Some net2"
      by (auto simp: net2_def split: option.splits)
  qed
  ultimately show ?thesis
    unfolding net0_def [symmetric] by (blast intro: link_reach.intros)
qed

theorem back_orders_outstanding_witness:
  "\<exists>p. net_master net2 = Some p \<and> length (databases p) = 1 \<and>
     backorders (databases p ! 0) = [PZGUpdateBackOrderKey (ZGPeerID 1 1) 0 2, PZGUpdateBackOrderKey (ZGPeerID 1 1) 0 3] \<and>
     (\<Union>i < length (databases p). set (backorders (databases p ! i))) =
      {x. \<exists>k \<in> set (registeredUnicastSessions net2). x \<in> set (us_backorders (unicastSessions net2 k)) \<and>
            (\<exists>b. REQUEST_BACK_ORDER (Some x) b \<in> set (us_outgoing (unicastSessions net2 k)))}"
proof -
  have "map_option (\<lambda>p. map backorders (databases p)) (net_master net2) =
      Some [[PZGUpdateBackOrderKey (ZGPeerID 1 1) 0 2, PZGUpdateBackOrderKey (ZGPeerID 1 1) 0 3]]"
    by code_simp
  then obtain p where p: "net_master net2 = Some p"
      "map backorders (databases p) = [[PZGUpdateBackOrderKey (ZGPeerID 1 1) 0 2, PZGUpdateBackOrderKey (ZGPeerID 1 1) 0 3]]"
    by auto
  have "length (databases p) = 1" "backorders (databases p ! 0) = map backorders (databases p) ! 0"
    using p(2) by (metis One_nat_def length_map list.size(3,4) Suc_eq_plus1) (use p(2) in auto)
  then show ?thesis
    using back_orders_outstanding [OF waitingPeer_start net2_reached p(1)] p by (intro exI [of _ p]) simp
qed

theorem disconnect_returns_witness:
  "\<exists>n'. us_AboutToDetachFromServer (sessionCalls demoNetEnv (demoEnv False)) 0 net2 = Some n' \<and>
     0 \<notin> set (registeredUnicastSessions n') \<and> us_backorders (unicastSessions n' 0) = []"
proof -
  have "0 \<in> set (registeredUnicastSessions net2)"
    by code_simp
  then show ?thesis
    by (rule disconnect_returns [OF waitingPeer_start net2_reached])
qed

section \<open>Multicast\<close>

definition sendingPeer :: thread_settings where
  "sendingPeer = \<lparr> thread_localPeerID = ZGPeerID 1 1, compatibilityVersionCode = 5, beaconIntervalMicros = 500000 \<rparr>"

definition hearingPeer :: thread_settings where
  "hearingPeer = \<lparr> thread_localPeerID = ZGPeerID 1 2, compatibilityVersionCode = 5, beaconIntervalMicros = 500000 \<rparr>"

definition demoMessages :: "u8 net_message list" where
  "demoMessages = [(bareMessage PZG_PEER_COMMAND_USER_MESSAGE) \<lparr> userMessage := Some 3 \<rparr>,
     (bareMessage PZG_PEER_COMMAND_USER_MESSAGE) \<lparr> userMessage := Some 4 \<rparr>]"

definition sendingThread :: "u8 multicast_thread" where
  "sendingThread = newMulticastThread \<lparr> ptGateways := [[], []] \<rparr>"

definition sentMessages :: "u8 net_message list" where
  "sentMessages = ptGateways (fold (handleOwnerMessage sendingPeer) demoMessages sendingThread) ! 1"

definition demoTurn :: "u8 turn" where
  "demoTurn = \<lparr> msgFromOwner = None, turn_now = 9, turn_computerIsAsleep = False, turn_IAmFullyAttached = True,
     multicastDataIOs = 2, arrived = [[sentMessages ! 1, sentMessages ! 0], [sentMessages ! 1]], drained = [0, 0] \<rparr>"

theorem multicast_exactly_once_witness:
  "length (heardInRun hearingPeer [demoTurn] newMulticastThread) = 3 \<and>
   distinct (forwarded (threadRun hearingPeer [demoTurn] newMulticastThread)) \<and>
   set (forwarded (threadRun hearingPeer [demoTurn] newMulticastThread)) = set (heardInRun hearingPeer [demoTurn] newMulticastThread)"
proof
  show "length (heardInRun hearingPeer [demoTurn] newMulticastThread) = 3"
    by code_simp
  show "distinct (forwarded (threadRun hearingPeer [demoTurn] newMulticastThread)) \<and>
    set (forwarded (threadRun hearingPeer [demoTurn] newMulticastThread)) = set (heardInRun hearingPeer [demoTurn] newMulticastThread)"
  proof (rule multicast_exactly_once)
    show "1 < length (ptGateways sendingThread)" "ptGateways sendingThread ! 1 = []"
      "\<forall>msg \<in> set demoMessages. outgoingKind msg \<and> multicastTag msg = None"
      "set (heardInRun hearingPeer [demoTurn] newMulticastThread) \<subseteq>
       set (ptGateways (fold (handleOwnerMessage sendingPeer) demoMessages sendingThread) ! 1)"
      "thread_localPeerID hearingPeer \<noteq> thread_localPeerID sendingPeer"
      "compatibilityVersionCode hearingPeer = compatibilityVersionCode sendingPeer"
      by code_simp+
    show "length demoMessages \<le> 1000"
      by (simp add: demoMessages_def)
  qed
qed

theorem multicast_cache_bounds_witness:
  "length (recentlyReceived (threadRun hearingPeer [demoTurn] newMulticastThread)) \<le> 1000 \<and>
   multicastTag (forwarded (threadRun hearingPeer [demoTurn] newMulticastThread) ! 0) \<noteq>
   multicastTag (forwarded (threadRun hearingPeer [demoTurn] newMulticastThread) ! 1)"
proof -
  have "length (forwarded (threadRun hearingPeer [demoTurn] newMulticastThread)) = 2"
    by code_simp
  then show ?thesis
    using multicast_cache_bounds [of hearingPeer "[demoTurn]"] by simp
qed

end
