(* ===== verification/ZG_HeartbeatPacket.thy ===== *)
theory ZG_HeartbeatPacket
  imports ZG_Beacon
begin

text \<open>
  Heartbeats on the wire: \<^verbatim>\<open>PZGHeartbeatPeerInfo\<close> with its timing records,
  \<^verbatim>\<open>PZGHeartbeatPacket\<close> and the fields its receiver adds
  (\<^verbatim>\<open>PZGHeartbeatPacketWithMetaData\<close>), and the frame around a packet that
  \<^verbatim>\<open>PZGHeartbeatThreadState::SendHeartbeatPackets\<close> writes and
  \<^verbatim>\<open>ParseHeartbeatPacketBuffer\<close> reads.  The zlib codec and MUSCLE's checksum of a byte
  array are parameters.  IP addresses are the type variable \<open>'ip\<close>: the code only compares
  them and asks whether they are valid.
\<close>

section \<open>PZGHeartbeatPeerInfo\<close>

record PZGTimingInfo =
  ti_sourceTag :: u16
  ti_heartbeatPacketID :: u32
  ti_dwellTimeMicros :: u32

definition newPZGTimingInfo :: "u16 \<Rightarrow> u32 \<Rightarrow> u32 \<Rightarrow> PZGTimingInfo" where
  "newPZGTimingInfo sourceTag sourceHeartbeatPacketID dwellTimeMicros =
     \<lparr> ti_sourceTag = sourceTag, ti_heartbeatPacketID = sourceHeartbeatPacketID, ti_dwellTimeMicros = dwellTimeMicros \<rparr>"

definition ti_FlattenedSize :: nat where
  "ti_FlattenedSize = 2 + 2 + 4 + 4"

definition ti_Flatten :: "'u wire \<Rightarrow> PZGTimingInfo \<Rightarrow> bytes" where
  "ti_Flatten W ti =
     WriteInt16 W (ti_sourceTag ti) @ WriteInt16 W 0 @ WriteInt32 W (ti_heartbeatPacketID ti) @
     WriteInt32 W (ti_dwellTimeMicros ti)"

definition ti_Unflatten :: "'u wire \<Rightarrow> 'u \<Rightarrow> status_t \<times> PZGTimingInfo \<times> 'u" where
  "ti_Unflatten W u0 =
     (let (tag, u1) = ReadInt16 W u0;
          (_, u2) = ReadInt16 W u1;
          (pid, u3) = ReadInt32 W u2;
          (dwell, u4) = ReadInt32 W u3
      in (GetStatus W u4, newPZGTimingInfo tag pid dwell, u4))"

definition ti_CalculateChecksum :: "PZGTimingInfo \<Rightarrow> u32" where
  "ti_CalculateChecksum ti = ucast (ti_sourceTag ti) + ti_heartbeatPacketID ti + ti_dwellTimeMicros ti"

record PZGHeartbeatPeerInfo =
  pi_peerID :: ZGPeerID
  pi_timings :: "PZGTimingInfo list"

definition PutTimingInfo :: "u16 \<Rightarrow> u32 \<Rightarrow> u32 \<Rightarrow> PZGHeartbeatPeerInfo \<Rightarrow> PZGHeartbeatPeerInfo" where
  "PutTimingInfo srcTag sourceHeartbeatPacketID dwellTimeMicros i =
     i\<lparr> pi_timings := pi_timings i @ [newPZGTimingInfo srcTag sourceHeartbeatPacketID dwellTimeMicros] \<rparr>"

definition pi_CalculateChecksum :: "(u64 \<Rightarrow> u32) \<Rightarrow> PZGHeartbeatPeerInfo \<Rightarrow> u32" where
  "pi_CalculateChecksum pod i =
     fold (\<lambda>ti ret. ret + ti_CalculateChecksum ti) (pi_timings i) (peerID_CalculateChecksum pod (pi_peerID i))"

definition pi_FlattenedSize :: "PZGHeartbeatPeerInfo \<Rightarrow> u32" where
  "pi_FlattenedSize i = of_nat peerID_FlattenedSize + 4 + of_nat (length (pi_timings i)) * of_nat ti_FlattenedSize"

definition pi_Flatten :: "'u wire \<Rightarrow> PZGHeartbeatPeerInfo \<Rightarrow> bytes" where
  "pi_Flatten W i =
     peerID_Flatten W (pi_peerID i) @ WriteInt32 W (of_nat (length (pi_timings i))) @
     concat (map (ti_Flatten W) (pi_timings i))"

text \<open>The two loops of the decoders, over timing records and over peer records.\<close>

fun readTimings :: "'u wire \<Rightarrow> nat \<Rightarrow> 'u \<Rightarrow> status_t \<times> PZGTimingInfo list \<times> 'u" where
  "readTimings W 0 u = (GetStatus W u, [], u)"
| "readTimings W (Suc n) u =
     (let (st, ti, u1) = ti_Unflatten W u
      in if IsError st then (st, [], u1)
         else let (st', tis, u2) = readTimings W n u1 in (st', ti # tis, u2))"

definition pi_Unflatten ::
  "'u wire \<Rightarrow> (u32 \<Rightarrow> u32 \<Rightarrow> u32) \<Rightarrow> 'u \<Rightarrow> status_t \<times> PZGHeartbeatPeerInfo option \<times> 'u" where
  "pi_Unflatten W satmul u0 =
     (let (st, pid, u1) = peerID_Unflatten W u0
      in if IsError st then (st, None, u1)
         else let (numTimings, u2) = ReadInt32 W u1
              in if GetNumBytesAvailable W u2 < unat (satmul numTimings (of_nat ti_FlattenedSize)) then (B_BAD_DATA, None, u2)
                 else let (st', tis, u3) = readTimings W (unat numTimings) u2
                      in if IsError st' then (st', None, u3)
                         else (st', Some \<lparr> pi_peerID = pid, pi_timings = tis \<rparr>, u3))"

fun readPeerInfos ::
  "'u wire \<Rightarrow> (u32 \<Rightarrow> u32 \<Rightarrow> u32) \<Rightarrow> nat \<Rightarrow> 'u \<Rightarrow> status_t \<times> PZGHeartbeatPeerInfo list \<times> 'u" where
  "readPeerInfos W satmul 0 u = (B_NO_ERROR, [], u)"
| "readPeerInfos W satmul (Suc n) u =
     (case pi_Unflatten W satmul u of
        (st, None, u1) \<Rightarrow> (st, [], u1)
      | (st, Some i, u1) \<Rightarrow>
          if IsError st then (st, [], u1)
          else let (st', is, u2) = readPeerInfos W satmul n u1 in (st', i # is, u2))"

section \<open>PZGHeartbeatPacket\<close>

record hb_settings =
  hbs_versionCode :: u32
  hbs_systemKey :: u64
  hbs_dataTCPPort :: u16
  hbs_peerType :: u16
  hbs_localPeerID :: ZGPeerID
  hbs_peerAttributesBuf :: "bytes option"
  hbs_heartbeatsPerSecond :: u32
  hbs_maxNumMissingHeartbeats :: u32
  hbs_heartbeatsBeforeFullyAttached :: u32

record PZGHeartbeatPacket =
  hb_heartbeatPacketID :: u32
  hb_versionCode :: u32
  hb_systemKey :: u64
  hb_networkSendTimeMicros :: u64
  hb_tcpAcceptPort :: u16
  hb_peerType :: u16
  hb_peerUptimeSeconds :: u32
  hb_sourcePeerID :: ZGPeerID
  hb_orderedPeersList :: "PZGHeartbeatPeerInfo list"
  hb_isFullyAttached :: bool
  hb_peerAttributesBuf :: "bytes option"

record 'ip PZGHeartbeatPacketWithMetaData = PZGHeartbeatPacket +
  hb_localReceiveTimeMicros :: u64
  hb_packetSource :: 'ip
  hb_sourceTag :: u16
  hb_haveSentTimingReply :: bool

definition PZG_HEARTBEAT_PACKET_TYPE_CODE :: u32 where
  "PZG_HEARTBEAT_PACKET_TYPE_CODE = 2053597282"

definition newPZGHeartbeatPacket :: PZGHeartbeatPacket where
  "newPZGHeartbeatPacket = \<lparr>
     hb_heartbeatPacketID = 0, hb_versionCode = 0, hb_systemKey = 0, hb_networkSendTimeMicros = 0,
     hb_tcpAcceptPort = 0, hb_peerType = 0, hb_peerUptimeSeconds = 0, hb_sourcePeerID = invalidPeerID,
     hb_orderedPeersList = [], hb_isFullyAttached = False, hb_peerAttributesBuf = None \<rparr>"

definition hb_Initialize :: "hb_settings \<Rightarrow> u32 \<Rightarrow> bool \<Rightarrow> u32 \<Rightarrow> PZGHeartbeatPacket \<Rightarrow> PZGHeartbeatPacket" where
  "hb_Initialize hbSettings uptimeSeconds isFullyAttached packetID p = p\<lparr>
     hb_heartbeatPacketID := packetID,
     hb_versionCode := hbs_versionCode hbSettings,
     hb_systemKey := hbs_systemKey hbSettings,
     hb_networkSendTimeMicros := 0,
     hb_tcpAcceptPort := hbs_dataTCPPort hbSettings,
     hb_peerType := hbs_peerType hbSettings,
     hb_peerUptimeSeconds := uptimeSeconds,
     hb_sourcePeerID := hbs_localPeerID hbSettings,
     hb_isFullyAttached := isFullyAttached,
     hb_peerAttributesBuf := hbs_peerAttributesBuf hbSettings \<rparr>"

text \<open>\<open>csum\<close> is MUSCLE's checksum of a byte array.\<close>

definition hb_CalculateChecksum :: "(u64 \<Rightarrow> u32) \<Rightarrow> (bytes \<Rightarrow> u32) \<Rightarrow> 'b PZGHeartbeatPacket_scheme \<Rightarrow> u32" where
  "hb_CalculateChecksum pod csum p =
     (let ret = hb_heartbeatPacketID p + hb_versionCode p + pod (hb_systemKey p) + ucast (hb_tcpAcceptPort p) +
                hb_peerUptimeSeconds p + (if hb_isFullyAttached p then 666 else 0) +
                peerID_CalculateChecksum pod (hb_sourcePeerID p) + ucast (hb_peerType p);
          ret' = fold (\<lambda>i r. r + (of_nat i + 1) * pi_CalculateChecksum pod (hb_orderedPeersList p ! i))
                   [0..<length (hb_orderedPeersList p)] ret
      in case hb_peerAttributesBuf p of None \<Rightarrow> ret' | Some b \<Rightarrow> ret' + csum b)"

definition hb_FlattenedSizeNotIncludingVariableLengthData :: nat where
  "hb_FlattenedSizeNotIncludingVariableLengthData = 4 + 4 + 4 + 8 + 2 + 4 + peerID_FlattenedSize + 2 + 2 + 2 + 2"

definition hb_FlattenedSize :: "PZGHeartbeatPacket \<Rightarrow> u32" where
  "hb_FlattenedSize p =
     fold (\<lambda>i ret. ret + pi_FlattenedSize i) (hb_orderedPeersList p) (of_nat hb_FlattenedSizeNotIncludingVariableLengthData) +
     (case hb_peerAttributesBuf p of None \<Rightarrow> 0 | Some b \<Rightarrow> of_nat (length b))"

definition hb_Flatten :: "'u wire \<Rightarrow> PZGHeartbeatPacket \<Rightarrow> bytes" where
  "hb_Flatten W p =
     (let opListItemCount = (of_nat (length (hb_orderedPeersList p)) :: u32);
          attribBufSize = (case hb_peerAttributesBuf p of None \<Rightarrow> (0 :: u32) | Some b \<Rightarrow> of_nat (length b))
      in WriteInt32 W PZG_HEARTBEAT_PACKET_TYPE_CODE @
         WriteInt32 W (hb_heartbeatPacketID p) @
         WriteInt32 W (hb_versionCode p) @
         WriteInt64 W (hb_systemKey p) @
         WriteInt16 W (hb_tcpAcceptPort p) @
         WriteInt32 W (hb_peerUptimeSeconds p) @
         peerID_Flatten W (hb_sourcePeerID p) @
         WriteInt16 W (hb_peerType p OR (if hb_isFullyAttached p then 0x8000 else 0)) @
         WriteInt16 W (ucast opListItemCount) @
         WriteInt16 W (ucast attribBufSize) @
         WriteInt16 W 0 @
         concat (map (pi_Flatten W) (hb_orderedPeersList p)) @
         (if attribBufSize > 0 then the (hb_peerAttributesBuf p) else []))"

text \<open>The bytes of the attributes, of which the header gives the number.\<close>

definition readAttributes :: "'u wire \<Rightarrow> u32 \<Rightarrow> 'u \<Rightarrow> status_t \<times> bytes option \<times> 'u" where
  "readAttributes W attribBufSize u =
     (if attribBufSize > 0 then
        if unat attribBufSize > GetNumBytesAvailable W u then (B_BAD_DATA, None, u)
        else let buf = CurrentBytes W (unat attribBufSize) u;
                 (st, u') = SeekRelative W (unat attribBufSize) u
             in (st, Some buf, u')
      else (B_NO_ERROR, None, u))"

definition hb_Unflatten ::
  "'u wire \<Rightarrow> (u32 \<Rightarrow> u32 \<Rightarrow> u32) \<Rightarrow> 'u \<Rightarrow> status_t \<times> PZGHeartbeatPacket option \<times> 'u" where
  "hb_Unflatten W satmul u =
     (if GetNumBytesAvailable W u < hb_FlattenedSizeNotIncludingVariableLengthData then (B_BAD_DATA, None, u)
      else let (typeCode, u0) = ReadInt32 W u
      in if typeCode \<noteq> PZG_HEARTBEAT_PACKET_TYPE_CODE then (B_BAD_DATA, None, u0)
      else let (packetID, u1) = ReadInt32 W u0;
               (version, u2) = ReadInt32 W u1;
               (sysKey, u3) = ReadInt64 W u2;
               (port, u4) = ReadInt16 W u3;
               (uptime, u5) = ReadInt32 W u4;
               (st, pid, u6) = peerID_Unflatten W u5
      in if IsError st then (st, None, u6)
      else let (ptype, u7) = ReadInt16 W u6;
               (opListItemCount, u8) = ReadInt16 W u7;
               (attribBufSize, u9) = ReadInt16 W u8;
               (_, u10) = ReadInt16 W u9;
               (st1, infos, u11) = readPeerInfos W satmul (unat opListItemCount) u10
      in if IsError st1 then (st1, None, u11)
      else let (st2, attribs, u12) = readAttributes W (ucast attribBufSize) u11
      in if IsError st2 then (st2, None, u12)
      else (GetStatus W u12,
            Some \<lparr> hb_heartbeatPacketID = packetID, hb_versionCode = version, hb_systemKey = sysKey,
              hb_networkSendTimeMicros = 0, hb_tcpAcceptPort = port, hb_peerType = ptype AND NOT 0x8000,
              hb_peerUptimeSeconds = uptime, hb_sourcePeerID = pid, hb_orderedPeersList = infos,
              hb_isFullyAttached = (ptype AND 0x8000 \<noteq> 0), hb_peerAttributesBuf = attribs \<rparr>, u12))"

definition AreByteBufferRefsEqual :: "bytes option \<Rightarrow> bytes option \<Rightarrow> bool" where
  "AreByteBufferRefsEqual optBB1 optBB2 \<longleftrightarrow>
     (if (optBB1 \<noteq> None) \<noteq> (optBB2 \<noteq> None) then False else optBB1 = None \<or> the optBB1 = the optBB2)"

definition IsEqualIgnoreTransients ::
  "'b PZGHeartbeatPacket_scheme \<Rightarrow> 'b PZGHeartbeatPacket_scheme \<Rightarrow> bool" where
  "IsEqualIgnoreTransients p rhs \<longleftrightarrow>
     hb_systemKey p = hb_systemKey rhs \<and> hb_tcpAcceptPort p = hb_tcpAcceptPort rhs \<and>
     hb_peerType p = hb_peerType rhs \<and> hb_sourcePeerID p = hb_sourcePeerID rhs \<and>
     AreByteBufferRefsEqual (hb_peerAttributesBuf p) (hb_peerAttributesBuf rhs)"

section \<open>The frame\<close>

definition HB_HEADER_SIZE :: nat where
  "HB_HEADER_SIZE = 2 + 2 + 8 + 4"

definition HB_HEADER_MAGIC :: u16 where
  "HB_HEADER_MAGIC = 25874"

text \<open>
  The header the sender exports in front of the deflated packet; \<open>tag\<close> and \<open>sendTime\<close> are
  written anew for every destination.
\<close>

definition exportHeartbeat :: "'u wire \<Rightarrow> (bytes \<Rightarrow> u32) \<Rightarrow> u16 \<Rightarrow> u64 \<Rightarrow> bytes \<Rightarrow> bytes" where
  "exportHeartbeat W csum tag sendTime deflated =
     WriteInt16 W HB_HEADER_MAGIC @ WriteInt16 W tag @ WriteInt64 W sendTime @ WriteInt32 W (csum deflated) @ deflated"

definition ParseHeartbeatPacketBuffer ::
  "'u wire \<Rightarrow> (u32 \<Rightarrow> u32 \<Rightarrow> u32) \<Rightarrow> (bytes \<Rightarrow> u32) \<Rightarrow> (bytes \<Rightarrow> status_t + bytes) \<Rightarrow>
   bytes \<Rightarrow> 'ip \<Rightarrow> u64 \<Rightarrow> status_t + 'ip PZGHeartbeatPacketWithMetaData" where
  "ParseHeartbeatPacketBuffer W satmul csum inflate defBuf sourceIAP localReceiveTimeMicros =
     (if length defBuf < HB_HEADER_SIZE then Inl B_BAD_DATA
      else if fst (ReadInt16 W (OpenUnflattener W defBuf)) \<noteq> HB_HEADER_MAGIC then Inl B_BAD_DATA
      else if fst (ReadInt32 W (OpenUnflattener W (drop (2 * 2 + 8) defBuf))) \<noteq> csum (drop HB_HEADER_SIZE defBuf)
      then Inl B_BAD_DATA
      else case inflate (drop HB_HEADER_SIZE defBuf) of
          Inl st \<Rightarrow> Inl st
        | Inr raw \<Rightarrow>
            (case hb_Unflatten W satmul (OpenUnflattener W raw) of
               (st, None, _) \<Rightarrow> Inl st
             | (st, Some p, _) \<Rightarrow>
                 if IsError st then Inl st
                 else Inr (PZGHeartbeatPacket.extend
                   (p\<lparr> hb_networkSendTimeMicros := fst (ReadInt64 W (OpenUnflattener W (drop (2 + 2) defBuf))) \<rparr>)
                   \<lparr> hb_localReceiveTimeMicros = localReceiveTimeMicros, hb_packetSource = sourceIAP,
                     hb_sourceTag = fst (ReadInt16 W (OpenUnflattener W (drop 2 defBuf))),
                     hb_haveSentTimingReply = False \<rparr>)))"

section \<open>Round trips\<close>

text \<open>What fits the wire format: its counts are 16 bits wide and one bit of the peer type is taken.\<close>

definition hb_fits :: "PZGHeartbeatPacket \<Rightarrow> bool" where
  "hb_fits p \<longleftrightarrow>
     length (hb_orderedPeersList p) < 2 ^ 16 \<and>
     (\<forall>i \<in> set (hb_orderedPeersList p). length (pi_timings i) < 2 ^ 32) \<and>
     (case hb_peerAttributesBuf p of None \<Rightarrow> True | Some b \<Rightarrow> b \<noteq> [] \<and> length b < 2 ^ 16) \<and>
     hb_peerType p AND 0x8000 = 0"

context wire_codec
begin

lemma ti_size: "length (ti_Flatten W ti) = ti_FlattenedSize"
  by (simp add: ti_Flatten_def ti_FlattenedSize_def wire_sizes)

lemma ti_roundtrip: "ti_Unflatten W (OpenUnflattener W (ti_Flatten W ti @ bs)) = (B_NO_ERROR, ti, OpenUnflattener W bs)"
  by (simp add: ti_Unflatten_def ti_Flatten_def newPZGTimingInfo_def wire_reads)

lemma timings_size: "length (concat (map (ti_Flatten W) tis)) = length tis * ti_FlattenedSize"
  by (induction tis) (simp_all add: ti_size)

lemma readTimings_roundtrip:
  "readTimings W (length tis) (OpenUnflattener W (concat (map (ti_Flatten W) tis) @ bs)) =
   (B_NO_ERROR, tis, OpenUnflattener W bs)"
  by (induction tis) (simp_all add: ti_roundtrip status_open)

lemma attributes_roundtrip:
  assumes "case att of None \<Rightarrow> n = 0 | Some b \<Rightarrow> b \<noteq> [] \<and> unat n = length b"
  shows "readAttributes W n (OpenUnflattener W ((if n > 0 then the att else []) @ bs)) =
         (B_NO_ERROR, att, OpenUnflattener W bs)"
proof (cases att)
  case (Some b)
  moreover from this assms have "n > 0"
    by (auto simp: word_greater_zero_iff)
  ultimately show ?thesis
    using assms by (simp add: readAttributes_def wire_reads)
qed (use assms in \<open>simp add: readAttributes_def\<close>)

end

context beacon_codec
begin

lemma pi_roundtrip:
  assumes "length (pi_timings i) < 2 ^ 32"
  shows "pi_Unflatten W satmul (OpenUnflattener W (pi_Flatten W i @ bs)) = (B_NO_ERROR, Some i, OpenUnflattener W bs)"
proof -
  have len: "unat (of_nat (length (pi_timings i)) :: u32) = length (pi_timings i)"
    using assms by (intro unat_of_nat_small) simp
  have "\<not> length (concat (map (ti_Flatten W) (pi_timings i)) @ bs)
          < unat (satmul (of_nat (length (pi_timings i))) (of_nat ti_FlattenedSize))"
    by (simp add: satmul len timings_size ti_FlattenedSize_def)
  then show ?thesis
    by (simp add: pi_Unflatten_def pi_Flatten_def peerID_roundtrip wire_reads len readTimings_roundtrip)
qed

lemma readPeerInfos_roundtrip:
  "\<forall>i \<in> set infos. length (pi_timings i) < 2 ^ 32 \<Longrightarrow>
   readPeerInfos W satmul (length infos) (OpenUnflattener W (concat (map (pi_Flatten W) infos) @ bs)) =
   (B_NO_ERROR, infos, OpenUnflattener W bs)"
  by (induction infos) (simp_all add: pi_roundtrip)

lemma hb_static_size:
  "hb_FlattenedSizeNotIncludingVariableLengthData \<le> length (hb_Flatten W p)"
  by (simp add: hb_Flatten_def hb_FlattenedSizeNotIncludingVariableLengthData_def wire_sizes peerID_size
      peerID_FlattenedSize_def Let_def)

lemma peerType_bits:
  assumes "pt AND 0x8000 = (0 :: u16)"
  shows "(pt OR (if att then 0x8000 else 0)) AND NOT 0x8000 = pt"
    and "(pt OR (if att then 0x8000 else 0)) AND 0x8000 \<noteq> 0 \<longleftrightarrow> att"
proof -
  have "(pt AND 0x8000) OR (pt AND NOT 0x8000) = pt"
    by (simp add: bit.conj_disj_distrib [symmetric])
  then have keep: "pt AND NOT 0x8000 = pt"
    using assms by simp
  show "(pt OR (if att then 0x8000 else 0)) AND NOT 0x8000 = pt"
    using keep by (simp add: bit.conj_disj_distrib2)
  show "(pt OR (if att then 0x8000 else 0)) AND 0x8000 \<noteq> 0 \<longleftrightarrow> att"
    using assms by (simp add: bit.conj_disj_distrib2)
qed

lemma hb_roundtrip:
  assumes "hb_fits p"
  shows "hb_Unflatten W satmul (OpenUnflattener W (hb_Flatten W p @ bs)) =
         (B_NO_ERROR, Some (p\<lparr> hb_networkSendTimeMicros := 0 \<rparr>), OpenUnflattener W bs)"
proof -
  let ?n = "length (hb_orderedPeersList p)"
  let ?a = "case hb_peerAttributesBuf p of None \<Rightarrow> 0 | Some b \<Rightarrow> (of_nat (length b) :: u32)"
  have n: "unat (ucast (of_nat ?n :: u32) :: u16) = ?n"
    using assms by (simp add: hb_fits_def unsigned_of_nat take_bit_nat_eq_self)
  have a: "(ucast (ucast ?a :: u16) :: u32) = ?a"
    using assms by (intro ucast_down_up)
      (auto simp: hb_fits_def unsigned_of_nat take_bit_nat_eq_self split: option.splits)
  have att: "readAttributes W ?a (OpenUnflattener W ((if ?a > 0 then the (hb_peerAttributesBuf p) else []) @ bs)) =
      (B_NO_ERROR, hb_peerAttributesBuf p, OpenUnflattener W bs)"
    using assms by (intro attributes_roundtrip)
      (auto simp: hb_fits_def unsigned_of_nat take_bit_nat_eq_self split: option.splits)
  have infos: "readPeerInfos W satmul ?n (OpenUnflattener W (concat (map (pi_Flatten W) (hb_orderedPeersList p)) @ cs)) =
      (B_NO_ERROR, hb_orderedPeersList p, OpenUnflattener W cs)" for cs
    using assms by (intro readPeerInfos_roundtrip) (simp add: hb_fits_def)
  have "hb_peerType p AND 0x8000 = 0"
    using assms by (simp add: hb_fits_def)
  note peerType_bits [OF this, of True, simplified] peerType_bits [OF this, of False, simplified]
  note pt' = this
  have "\<not> length (hb_Flatten W p @ bs) < hb_FlattenedSizeNotIncludingVariableLengthData"
    using hb_static_size [of p] by simp
  then show ?thesis
    by (simp add: hb_Unflatten_def avail)
      (auto simp: hb_Flatten_def Let_def wire_reads peerID_roundtrip n a infos att pt'
        intro!: PZGHeartbeatPacket.equality)
qed

lemma export_parts:
  fixes csum :: "bytes \<Rightarrow> u32" and tag :: u16 and sendTime :: u64 and d :: bytes
  defines "buf \<equiv> exportHeartbeat W csum tag sendTime d"
  shows "drop HB_HEADER_SIZE buf = d" "HB_HEADER_SIZE \<le> length buf"
    "fst (ReadInt16 W (OpenUnflattener W (buf @ bs))) = HB_HEADER_MAGIC"
    "fst (ReadInt16 W (OpenUnflattener W (drop 2 buf))) = tag"
    "fst (ReadInt64 W (OpenUnflattener W (drop (2 + 2) buf))) = sendTime"
    "fst (ReadInt32 W (OpenUnflattener W (drop (2 * 2 + 8) buf))) = csum d"
proof -
  note defs = buf_def exportHeartbeat_def HB_HEADER_SIZE_def
  show "drop HB_HEADER_SIZE buf = d" "HB_HEADER_SIZE \<le> length buf"
    "fst (ReadInt16 W (OpenUnflattener W (drop 2 buf))) = tag"
    "fst (ReadInt64 W (OpenUnflattener W (drop (2 + 2) buf))) = sendTime"
    "fst (ReadInt32 W (OpenUnflattener W (drop (2 * 2 + 8) buf))) = csum d"
    by (simp_all add: defs wire_sizes wire_reads)
  show "fst (ReadInt16 W (OpenUnflattener W (buf @ bs))) = HB_HEADER_MAGIC"
    by (simp add: defs wire_reads)
qed

lemma parse_export:
  assumes "hb_fits p" "inflate d = Inr (hb_Flatten W p)"
  shows "ParseHeartbeatPacketBuffer W satmul csum inflate (exportHeartbeat W csum tag sendTime d) ip now =
    Inr (PZGHeartbeatPacket.extend (p\<lparr> hb_networkSendTimeMicros := sendTime \<rparr>)
      \<lparr> hb_localReceiveTimeMicros = now, hb_packetSource = ip, hb_sourceTag = tag, hb_haveSentTimingReply = False \<rparr>)"
proof -
  let ?b = "exportHeartbeat W csum tag sendTime d"
  have "\<not> length ?b < HB_HEADER_SIZE"
    using export_parts(2) [of csum tag sendTime d] by simp
  moreover have "fst (ReadInt16 W (OpenUnflattener W ?b)) = HB_HEADER_MAGIC"
    using export_parts(3) [of csum tag sendTime d "[]"] by simp
  moreover note hb_roundtrip [OF assms(1), of "[]", simplified]
  ultimately show ?thesis
    unfolding ParseHeartbeatPacketBuffer_def export_parts(1,4,5,6)
    by (simp add: assms(2))
qed

lemma parse_corrupt:
  assumes "csum d' \<noteq> csum d"
  shows "ParseHeartbeatPacketBuffer W satmul csum inflate
           (take HB_HEADER_SIZE (exportHeartbeat W csum tag sendTime d) @ d') ip now = Inl B_BAD_DATA"
proof -
  let ?h = "take HB_HEADER_SIZE (exportHeartbeat W csum tag sendTime d)"
  have len: "length ?h = HB_HEADER_SIZE"
    using export_parts(2) [of csum tag sendTime d] by simp
  have h: "?h @ d' = WriteInt16 W HB_HEADER_MAGIC @ WriteInt16 W tag @ WriteInt64 W sendTime @ WriteInt32 W (csum d) @ d'"
    by (simp add: exportHeartbeat_def HB_HEADER_SIZE_def wire_sizes)
  have "fst (ReadInt32 W (OpenUnflattener W (drop (2 * 2 + 8) (?h @ d')))) = csum d"
    unfolding h by (simp add: wire_sizes wire_reads)
  moreover have "drop HB_HEADER_SIZE (?h @ d') = d'"
    using len by simp
  ultimately show ?thesis
    unfolding ParseHeartbeatPacketBuffer_def using assms by simp
qed

end

section \<open>Properties\<close>

text \<open>
  C17: a heartbeat survives the network.  A packet within the limits of the wire format, framed
  for a destination at a send time, parses at its receiver to the same packet with that send
  time, the destination's tag, and the receiver's clock and source address; when the payload
  is replaced by bytes of another checksum, the receiver rejects the datagram.
\<close>

theorem heartbeat_roundtrip:
  assumes "beacon_codec W satmul"
  shows "(hb_fits p \<and> inflate d = Inr (hb_Flatten W p) \<longrightarrow>
      ParseHeartbeatPacketBuffer W satmul csum inflate (exportHeartbeat W csum tag sendTime d) ip now =
        Inr (PZGHeartbeatPacket.extend (p\<lparr> hb_networkSendTimeMicros := sendTime \<rparr>)
          \<lparr> hb_localReceiveTimeMicros = now, hb_packetSource = ip, hb_sourceTag = tag, hb_haveSentTimingReply = False \<rparr>)) \<and>
    (csum d' \<noteq> csum d \<longrightarrow>
      ParseHeartbeatPacketBuffer W satmul csum inflate
        (take HB_HEADER_SIZE (exportHeartbeat W csum tag sendTime d) @ d') ip now = Inl B_BAD_DATA)"
proof (intro conjI impI; (elim conjE)?)
  assume "hb_fits p" "inflate d = Inr (hb_Flatten W p)"
  then show "ParseHeartbeatPacketBuffer W satmul csum inflate (exportHeartbeat W csum tag sendTime d) ip now =
      Inr (PZGHeartbeatPacket.extend (p\<lparr> hb_networkSendTimeMicros := sendTime \<rparr>)
        \<lparr> hb_localReceiveTimeMicros = now, hb_packetSource = ip, hb_sourceTag = tag, hb_haveSentTimingReply = False \<rparr>)"
    by (rule beacon_codec.parse_export [OF assms])
next
  assume "csum d' \<noteq> csum d"
  then show "ParseHeartbeatPacketBuffer W satmul csum inflate
      (take HB_HEADER_SIZE (exportHeartbeat W csum tag sendTime d) @ d') ip now = Inl B_BAD_DATA"
    by (rule beacon_codec.parse_corrupt [OF assms])
qed

definition sampleHeartbeat :: PZGHeartbeatPacket where
  "sampleHeartbeat = newPZGHeartbeatPacket\<lparr> hb_heartbeatPacketID := 7, hb_peerType := 1, hb_isFullyAttached := True,
     hb_sourcePeerID := ZGPeerID 3 4, hb_peerAttributesBuf := Some [9, 8],
     hb_orderedPeersList := [PutTimingInfo 1 6 250 \<lparr> pi_peerID = ZGPeerID 1 2, pi_timings = [] \<rparr>,
                             \<lparr> pi_peerID = ZGPeerID 3 4, pi_timings = [] \<rparr>] \<rparr>"

lemma sampleHeartbeat_fits: "hb_fits sampleHeartbeat"
  by (simp add: hb_fits_def sampleHeartbeat_def newPZGHeartbeatPacket_def PutTimingInfo_def newPZGTimingInfo_def)

theorem heartbeat_roundtrip_witness:
  "ParseHeartbeatPacketBuffer le_wire satmul32 (\<lambda>bs. fold (\<lambda>b s. s + ucast b) bs 0) Inr
     (exportHeartbeat le_wire (\<lambda>bs. fold (\<lambda>b s. s + ucast b) bs 0) 5 1000 (hb_Flatten le_wire sampleHeartbeat)) (8 :: nat) 1200 =
   Inr (PZGHeartbeatPacket.extend (sampleHeartbeat\<lparr> hb_networkSendTimeMicros := 1000 \<rparr>)
     \<lparr> hb_localReceiveTimeMicros = 1200, hb_packetSource = 8, hb_sourceTag = 5, hb_haveSentTimingReply = False \<rparr>)"
  by (rule heartbeat_roundtrip [OF leb.beacon_codec_axioms, THEN conjunct1, THEN mp]) (simp add: sampleHeartbeat_fits)

end
