(* ===== verification/ZG_TimeAverager.thy ===== *)
theory ZG_TimeAverager
  imports ZG_Peer
begin

text \<open>
  \<^verbatim>\<open>ZGTimeAverager\<close>, the running average of the last round-trip times that clock
  synchronisation rests on.  The parameters are MUSCLE's saturating 64-bit operations and
  \<open>deviation\<close>, the expression \<^verbatim>\<open>(int64)(maxDeviations*sqrt(((double)sumOfDiffs)/n))\<close> of the
  code; the locale \<open>averaging\<close> states what is known of them.  Up to \<^term>\<open>2 ^ 53 :: nat\<close> the
  sum is exact as a double, and as rounding is monotone and leaves squares and roots that are
  whole numbers of this size alone, neither the quotient nor the root falls below a whole number
  it is not below exactly.  Above, the rounding of the sum may take the truncated root one below
  the true deviation, and nothing is assumed.  The loop of \<^verbatim>\<open>AddMeasurement\<close> that makes room
  is a partial function: with a capacity of zero it would not end.
\<close>

section \<open>The averager\<close>

record ZGTimeAverager =
  ta_maxMeasurements :: u32
  ta_measurements :: "u64 list"
  ta_totalMicros :: u64
  ta_lastMeasurementTime :: u64
  ta_cachedAverageWithoutOutliers :: u64

definition newZGTimeAverager :: "u32 \<Rightarrow> ZGTimeAverager" where
  "newZGTimeAverager maxMeasurements = \<lparr>
     ta_maxMeasurements = maxMeasurements, ta_measurements = [], ta_totalMicros = 0,
     ta_lastMeasurementTime = 0, ta_cachedAverageWithoutOutliers = - 1 \<rparr>"

definition RemoveOldMeasurement :: "ZGTimeAverager \<Rightarrow> ZGTimeAverager" where
  "RemoveOldMeasurement a =
     (case ta_measurements a of
        [] \<Rightarrow> a
      | oldMeasurement # rest \<Rightarrow> a\<lparr>
          ta_measurements := rest,
          ta_totalMicros := (if ta_totalMicros a > oldMeasurement then ta_totalMicros a - oldMeasurement else 0),
          ta_cachedAverageWithoutOutliers := - 1 \<rparr>)"

partial_function (option) makeRoom :: "ZGTimeAverager \<Rightarrow> ZGTimeAverager option" where
  "makeRoom a =
     (if unat (ta_maxMeasurements a) \<le> length (ta_measurements a) then makeRoom (RemoveOldMeasurement a) else Some a)"

declare makeRoom.simps [code]

definition ta_AddMeasurement :: "(u64 \<Rightarrow> u64 \<Rightarrow> u64) \<Rightarrow> u64 \<Rightarrow> u64 \<Rightarrow> ZGTimeAverager \<Rightarrow> ZGTimeAverager option" where
  "ta_AddMeasurement satadd newMeasurementMicros now a =
     map_option (\<lambda>b. b\<lparr>
       ta_measurements := ta_measurements b @ [newMeasurementMicros],
       ta_totalMicros := satadd (ta_totalMicros b) newMeasurementMicros,
       ta_lastMeasurementTime := now,
       ta_cachedAverageWithoutOutliers := - 1 \<rparr>) (makeRoom a)"

definition GetRawAverageValue :: "ZGTimeAverager \<Rightarrow> u64" where
  "GetRawAverageValue a =
     (if ta_measurements a \<noteq> [] then ta_totalMicros a div of_nat (length (ta_measurements a)) else 0)"

text \<open>\<open>muscleAbs\<close> of a signed 64-bit value.\<close>

definition muscleAbs :: "u64 \<Rightarrow> u64" where
  "muscleAbs d = (if sint d < 0 then - d else d)"

definition sumOfDiffs :: "(u64 \<Rightarrow> u64 \<Rightarrow> u64) \<Rightarrow> (u64 \<Rightarrow> u64 \<Rightarrow> u64) \<Rightarrow> u64 \<Rightarrow> u64 list \<Rightarrow> u64" where
  "sumOfDiffs satadd satmul rawAverage ms =
     fold (\<lambda>m s. let diff = muscleAbs (m - rawAverage) in satadd s (satmul diff diff)) ms 0"

definition GetAverageValueIgnoringOutliersAux ::
  "(u64 \<Rightarrow> u64 \<Rightarrow> u64) \<Rightarrow> (u64 \<Rightarrow> u64 \<Rightarrow> u64) \<Rightarrow> (u64 \<Rightarrow> nat \<Rightarrow> int) \<Rightarrow> ZGTimeAverager \<Rightarrow> u64" where
  "GetAverageValueIgnoringOutliersAux satadd satmul deviation a =
     (let ms = ta_measurements a
      in if ms = [] then 0
         else let rawAverage = GetRawAverageValue a;
                  maxDelta = deviation (sumOfDiffs satadd satmul rawAverage ms) (length ms);
                  (newSum, newCount) =
                    fold (\<lambda>m (s, c). if sint (muscleAbs (m - rawAverage)) \<le> maxDelta then (s + m, c + 1) else (s, c))
                      ms (0, 0 :: u32)
              in if newCount > 0 then newSum div ucast newCount else 0)"

definition GetAverageValueIgnoringOutliers ::
  "(u64 \<Rightarrow> u64 \<Rightarrow> u64) \<Rightarrow> (u64 \<Rightarrow> u64 \<Rightarrow> u64) \<Rightarrow> (u64 \<Rightarrow> nat \<Rightarrow> int) \<Rightarrow> ZGTimeAverager \<Rightarrow> u64 \<times> ZGTimeAverager" where
  "GetAverageValueIgnoringOutliers satadd satmul deviation a =
     (let a' = (if ta_cachedAverageWithoutOutliers a = - 1
                then a\<lparr> ta_cachedAverageWithoutOutliers := GetAverageValueIgnoringOutliersAux satadd satmul deviation a \<rparr>
                else a)
      in (ta_cachedAverageWithoutOutliers a', a'))"

definition ta_Clear :: "ZGTimeAverager \<Rightarrow> ZGTimeAverager" where
  "ta_Clear a = a\<lparr> ta_measurements := [], ta_totalMicros := 0, ta_cachedAverageWithoutOutliers := - 1, ta_lastMeasurementTime := 0 \<rparr>"

text \<open>A history of measurements, each with the time it was added.\<close>

fun addMeasurements :: "(u64 \<Rightarrow> u64 \<Rightarrow> u64) \<Rightarrow> (u64 \<times> u64) list \<Rightarrow> ZGTimeAverager \<Rightarrow> ZGTimeAverager option" where
  "addMeasurements satadd [] a = Some a"
| "addMeasurements satadd ((m, now) # ms) a = Option.bind (ta_AddMeasurement satadd m now a) (addMeasurements satadd ms)"

section \<open>Sums of bounded measurements\<close>

abbreviation natSum :: "u64 list \<Rightarrow> nat" where
  "natSum ms \<equiv> sum_list (map unat ms)"

lemma natSum_le: "\<forall>m \<in> set ms. unat m \<le> M \<Longrightarrow> natSum ms \<le> length ms * M"
  by (induction ms) auto

lemma natSum_ge: "\<forall>m \<in> set ms. L \<le> unat m \<Longrightarrow> length ms * L \<le> natSum ms"
  by (induction ms) auto

lemma mean_bounds:
  assumes "ms \<noteq> []" "\<forall>m \<in> set ms. L \<le> unat m \<and> unat m \<le> M"
  shows "L \<le> natSum ms div length ms" "natSum ms div length ms \<le> M"
proof -
  have pos: "0 < length ms"
    using assms(1) by simp
  have "length ms * L \<le> natSum ms" "natSum ms \<le> length ms * M"
    using assms(2) by (simp_all add: natSum_le natSum_ge)
  then show "L \<le> natSum ms div length ms" "natSum ms div length ms \<le> M"
    using pos div_le_mono [of "length ms * L" "natSum ms" "length ms"]
      div_le_mono [of "natSum ms" "length ms * M" "length ms"] by simp_all
qed

section \<open>Making room\<close>

lemma makeRoom_full:
  assumes "0 < unat (ta_maxMeasurements a)" "length (ta_measurements a) \<le> unat (ta_maxMeasurements a)"
  shows "makeRoom a = Some (if length (ta_measurements a) = unat (ta_maxMeasurements a) then RemoveOldMeasurement a else a)"
proof (cases "length (ta_measurements a) = unat (ta_maxMeasurements a)")
  case True
  then obtain m rest where m: "ta_measurements a = m # rest"
    using assms(1) by (cases "ta_measurements a") auto
  have "makeRoom (RemoveOldMeasurement a) = Some (RemoveOldMeasurement a)"
    using True m by (subst makeRoom.simps) (simp add: RemoveOldMeasurement_def)
  then show ?thesis
    using True by (subst makeRoom.simps) simp
qed (use assms in \<open>subst makeRoom.simps, simp\<close>)

text \<open>A capacity of zero makes the loop spin: nothing is left to remove and the condition stays true.\<close>

lemma makeRoom_zero: "ta_maxMeasurements a = 0 \<Longrightarrow> makeRoom a = None"
proof (rule ccontr)
  assume zero: "ta_maxMeasurements a = 0" and "makeRoom a \<noteq> None"
  then obtain b where b: "makeRoom a = Some b"
    by auto
  have "ta_maxMeasurements a \<noteq> 0"
    by (rule makeRoom.raw_induct [where P = "\<lambda>a _. ta_maxMeasurements a \<noteq> 0", OF _ b])
      (fastforce simp: RemoveOldMeasurement_def split: if_splits list.splits)
  then show False
    using zero by simp
qed

text \<open>
  The averager after a history: it holds the last \<open>maxMeasurements\<close> of them and their sum,
  as long as that sum cannot reach the width of the total.
\<close>

definition averagerHolds :: "nat \<Rightarrow> u64 list \<Rightarrow> ZGTimeAverager \<Rightarrow> bool" where
  "averagerHolds M ms a \<longleftrightarrow>
     ta_measurements a = drop (length ms - unat (ta_maxMeasurements a)) ms \<and>
     unat (ta_totalMicros a) = natSum (ta_measurements a) \<and>
     (\<forall>m \<in> set ms. unat m \<le> M) \<and>
     0 < unat (ta_maxMeasurements a) \<and> unat (ta_maxMeasurements a) * M < 2 ^ 64"

lemma averagerHolds_length: "averagerHolds M ms a \<Longrightarrow> length (ta_measurements a) \<le> unat (ta_maxMeasurements a)"
  by (simp add: averagerHolds_def)

lemma drop_snoc_window:
  "0 < n \<Longrightarrow> drop (Suc (length ms) - n) (ms @ [m]) =
   (if n \<le> length ms then tl (drop (length ms - n) ms) else ms) @ [m]"
  by (auto simp: Suc_diff_le drop_Suc tl_drop)

lemma in_set_tlD: "x \<in> set (tl xs) \<Longrightarrow> x \<in> set xs"
  by (cases xs) auto

lemma RemoveOldMeasurement_total:
  assumes "unat (ta_totalMicros a) = natSum (ta_measurements a)" "ta_measurements a \<noteq> []"
  shows "unat (ta_totalMicros (RemoveOldMeasurement a)) = natSum (tl (ta_measurements a))"
    "ta_measurements (RemoveOldMeasurement a) = tl (ta_measurements a)"
    "ta_maxMeasurements (RemoveOldMeasurement a) = ta_maxMeasurements a"
proof -
  obtain m rest where m: "ta_measurements a = m # rest"
    using assms(2) by (cases "ta_measurements a") auto
  have "unat (ta_totalMicros a - m) = natSum rest" if "m < ta_totalMicros a"
    using assms(1) m that by (simp add: unat_sub less_imp_le)
  then show "unat (ta_totalMicros (RemoveOldMeasurement a)) = natSum (tl (ta_measurements a))"
    using assms(1) by (auto simp: RemoveOldMeasurement_def m word_less_nat_alt)
  show "ta_measurements (RemoveOldMeasurement a) = tl (ta_measurements a)"
    "ta_maxMeasurements (RemoveOldMeasurement a) = ta_maxMeasurements a"
    by (simp_all add: RemoveOldMeasurement_def m)
qed

section \<open>Averages\<close>

definition absDiff :: "u64 \<Rightarrow> u64 \<Rightarrow> nat" where
  "absDiff m r = (if unat m < unat r then unat r - unat m else unat m - unat r)"

lemma absDiff_le: "unat m \<le> M \<Longrightarrow> unat r \<le> M \<Longrightarrow> absDiff m r \<le> M"
  unfolding absDiff_def by (cases "unat m < unat r") (simp_all only: if_True if_False le_diff_conv trans_le_add1)

lemma signed_range:
  assumes "a < (2 :: nat) ^ 63" "b < (2 :: nat) ^ 63"
  shows "- (2 ^ 63) \<le> int a - int b" "int a - int b < 2 ^ 63"
proof -
  have "int a < 2 ^ 63" "int b < 2 ^ 63"
    using assms by simp_all
  then show "- (2 ^ 63) \<le> int a - int b" "int a - int b < 2 ^ 63"
    by linarith+
qed

lemma sint_small:
  assumes "unat (m :: u64) < 2 ^ 63"
  shows "sint m = int (unat m)"
proof -
  have "signed_take_bit 63 (int (unat m)) = int (unat m)"
    using signed_range [OF assms, of 0] by (intro signed_take_bit_int_eq_self) simp_all
  then show ?thesis
    by (simp add: sint_uint)
qed

lemma muscleAbs_diff:
  assumes "unat m < 2 ^ 63" "unat r < 2 ^ 63"
  shows "unat (muscleAbs (m - r)) = absDiff m r" "sint (muscleAbs (m - r)) = int (absDiff m r)"
proof -
  have "signed_take_bit 63 (int (unat m) - int (unat r)) = int (unat m) - int (unat r)"
    using signed_range [OF assms] by (rule signed_take_bit_int_eq_self)
  then have "sint (m - r) = int (unat m) - int (unat r)"
    using sint_word_ariths(2) [of m r] by (simp add: sint_small [OF assms(1)] sint_small [OF assms(2)])
  then have "muscleAbs (m - r) = (if unat m < unat r then r - m else m - r)"
    unfolding muscleAbs_def by (simp only: minus_diff_eq diff_less_0_iff_less of_nat_less_iff)
  then show 1: "unat (muscleAbs (m - r)) = absDiff m r"
    by (auto simp: absDiff_def unat_sub word_le_nat_alt)
  have "absDiff m r < 2 ^ 63"
    unfolding absDiff_def using assms by (auto intro: le_less_trans [OF diff_le_self])
  then show "sint (muscleAbs (m - r)) = int (absDiff m r)"
    using 1 by (simp add: sint_small)
qed

lemma fold_filter_count:
  "fold (\<lambda>m (s, c). if P m then (s + m, c + 1) else (s, c)) ms (s0 :: u64, c0 :: u32) =
   (s0 + sum_list (filter P ms), c0 + of_nat (length (filter P ms)))"
  by (induction ms arbitrary: s0 c0) (auto simp: algebra_simps)

lemma unat_sum_list: "natSum ms < 2 ^ 64 \<Longrightarrow> unat (sum_list ms) = natSum ms"
  by (induction ms) (auto simp: unat_word_ariths)

lemma some_below_mean:
  fixes f :: "'a \<Rightarrow> nat"
  assumes "ms \<noteq> []"
  shows "\<exists>m \<in> set ms. f m * f m * length ms \<le> sum_list (map (\<lambda>m. f m * f m) ms)"
proof -
  define k where "k = Min (f ` set ms)"
  have "k \<in> f ` set ms"
    using assms by (simp add: k_def)
  then obtain m where m: "m \<in> set ms" "k = f m"
    by auto
  have "\<forall>x \<in> set ms. k \<le> f x"
    by (simp add: k_def)
  then have "length ms * (k * k) \<le> sum_list (map (\<lambda>m. f m * f m) ms)"
    by (induction ms) (auto simp: mult_le_mono add_le_mono)
  then show ?thesis
    using m by (auto simp: algebra_simps)
qed

lemma sum_squares_le:
  fixes f :: "'a \<Rightarrow> nat"
  shows "\<forall>m \<in> set ms. f m \<le> M \<Longrightarrow> sum_list (map (\<lambda>m. f m * f m) ms) \<le> length ms * (M * M)"
  by (induction ms) (auto simp: mult_le_mono add_le_mono)

locale averaging =
  fixes satadd satmul :: "u64 \<Rightarrow> u64 \<Rightarrow> u64"
    and deviation :: "u64 \<Rightarrow> nat \<Rightarrow> int"
  assumes satadd: "unat (satadd x y) = min (2 ^ 64 - 1) (unat x + unat y)"
    and satmul: "unat (satmul x y) = min (2 ^ 64 - 1) (unat x * unat y)"
    and deviation: "0 < n \<Longrightarrow> unat s \<le> 2 ^ 53 \<Longrightarrow> k * k * n \<le> unat s \<Longrightarrow> int k \<le> deviation s n"
begin

lemma AddMeasurement_holds:
  assumes "averagerHolds M ms a" "unat m \<le> M"
  obtains b where "ta_AddMeasurement satadd m now a = Some b" "averagerHolds M (ms @ [m]) b"
    "ta_lastMeasurementTime b = now" "ta_cachedAverageWithoutOutliers b = - 1"
    "ta_maxMeasurements b = ta_maxMeasurements a"
proof -
  let ?n = "unat (ta_maxMeasurements a)"
  let ?full = "length (ta_measurements a) = ?n"
  define c where "c = (if ?full then RemoveOldMeasurement a else a)"
  have n: "0 < ?n" and len: "length (ta_measurements a) \<le> ?n" and sum: "unat (ta_totalMicros a) = natSum (ta_measurements a)"
    and win: "ta_measurements a = drop (length ms - ?n) ms" and le: "\<forall>m \<in> set ms. unat m \<le> M" and cap: "?n * M < 2 ^ 64"
    using assms averagerHolds_length [OF assms(1)] by (auto simp: averagerHolds_def)
  have full_iff: "?full \<longleftrightarrow> ?n \<le> length ms"
    using n by (auto simp: win)
  have room: "makeRoom a = Some c"
    unfolding c_def using n len by (rule makeRoom_full)
  have nonempty: "?full \<Longrightarrow> ta_measurements a \<noteq> []"
    using n by auto
  have c: "ta_measurements c = (if ?full then tl (ta_measurements a) else ta_measurements a)"
    "unat (ta_totalMicros c) = natSum (ta_measurements c)" "ta_maxMeasurements c = ta_maxMeasurements a"
    using RemoveOldMeasurement_total [OF sum nonempty] sum by (auto simp: c_def)
  have "natSum (ta_measurements c) \<le> length (ta_measurements c) * M"
    using le by (intro natSum_le) (auto simp: c(1) win dest!: in_set_tlD dest: in_set_dropD)
  moreover have "length (ta_measurements c) + 1 \<le> ?n"
    using len n by (auto simp: c(1))
  ultimately have "natSum (ta_measurements c) + unat m \<le> ?n * M"
    using assms(2) mult_le_mono1 [of "length (ta_measurements c) + 1" ?n M] by simp
  then have total: "unat (satadd (ta_totalMicros c) m) = natSum (ta_measurements c) + unat m"
    using cap by (simp add: satadd c(2))
  have "ta_measurements c @ [m] = drop (Suc (length ms) - ?n) (ms @ [m])"
    using drop_snoc_window [OF n, of ms m] full_iff by (auto simp: c(1) win)
  then show thesis
    by (intro that [of "c\<lparr> ta_measurements := ta_measurements c @ [m], ta_totalMicros := satadd (ta_totalMicros c) m,
        ta_lastMeasurementTime := now, ta_cachedAverageWithoutOutliers := - 1 \<rparr>"])
      (use total le cap n assms(2) in \<open>simp_all add: ta_AddMeasurement_def room averagerHolds_def c(3)\<close>)
qed

lemma addMeasurements_holds:
  "averagerHolds M ms a \<Longrightarrow> \<forall>(m, now) \<in> set qs. unat m \<le> M \<Longrightarrow>
   \<exists>b. addMeasurements satadd qs a = Some b \<and> averagerHolds M (ms @ map fst qs) b \<and>
       ta_maxMeasurements b = ta_maxMeasurements a \<and> (qs \<noteq> [] \<longrightarrow> ta_cachedAverageWithoutOutliers b = - 1)"
proof (induction qs arbitrary: ms a)
  case (Cons q qs)
  obtain m now where q: "q = (m, now)"
    by (cases q)
  obtain b where b: "ta_AddMeasurement satadd m now a = Some b" "averagerHolds M (ms @ [m]) b"
    "ta_cachedAverageWithoutOutliers b = - 1" "ta_maxMeasurements b = ta_maxMeasurements a"
    using AddMeasurement_holds [OF Cons.prems(1), of m now] Cons.prems(2) q by auto
  have "\<forall>(m, now) \<in> set qs. unat m \<le> M"
    using Cons.prems(2) by simp
  from Cons.IH [OF b(2) this] show ?case
    using b by (cases qs) (auto simp: q)
qed simp

lemma sumOfDiffs_exact:
  assumes "\<forall>m \<in> set ms. unat m \<le> M" "unat r \<le> M" "M < 2 ^ 63" "length ms * (M * M) < 2 ^ 64"
  shows "unat (sumOfDiffs satadd satmul r ms) = sum_list (map (\<lambda>m. absDiff m r * absDiff m r) ms)"
proof -
  let ?sq = "\<lambda>m. absDiff m r * absDiff m r"
  have "unat s0 + sum_list (map ?sq ms) < 2 ^ 64 \<Longrightarrow> \<forall>m \<in> set ms. unat m < 2 ^ 63 \<Longrightarrow>
    unat (fold (\<lambda>m s. let diff = muscleAbs (m - r) in satadd s (satmul diff diff)) ms s0) = unat s0 + sum_list (map ?sq ms)" for s0
  proof (induction ms arbitrary: s0)
    case (Cons m ms)
    have d: "unat (muscleAbs (m - r)) = absDiff m r"
      using Cons.prems assms(2,3) by (intro muscleAbs_diff) auto
    have "unat (satadd s0 (satmul (muscleAbs (m - r)) (muscleAbs (m - r)))) = unat s0 + ?sq m"
      using Cons.prems(1) by (simp add: satadd satmul d)
    then show ?case
      using Cons by (simp add: Let_def)
  qed simp
  moreover have "sum_list (map ?sq ms) \<le> length ms * (M * M)"
    using assms(1,2) by (intro sum_squares_le) (simp add: absDiff_le)
  ultimately show ?thesis
    using assms unfolding sumOfDiffs_def by (metis (no_types, lifting) add_0 le_less_trans unat_0)
qed

lemma averages_between:
  assumes hold: "averagerHolds M ms a" and ne: "ms \<noteq> []"
    and M: "M < 2 ^ 63" "unat (ta_maxMeasurements a) * (M * M) < 2 ^ 64"
    and lo: "\<forall>m \<in> set (ta_measurements a). L \<le> unat m" and hi: "\<forall>m \<in> set (ta_measurements a). unat m \<le> H"
  shows "L \<le> unat (GetRawAverageValue a)" "unat (GetRawAverageValue a) \<le> H"
    and "L \<le> unat (GetAverageValueIgnoringOutliersAux satadd satmul deviation a) \<and>
        unat (GetAverageValueIgnoringOutliersAux satadd satmul deviation a) \<le> H \<or>
      GetAverageValueIgnoringOutliersAux satadd satmul deviation a = 0 \<and> 2 ^ 53 < unat (ta_maxMeasurements a) * (M * M)"
proof -
  let ?ms = "ta_measurements a" and ?r = "GetRawAverageValue a"
  let ?d = "deviation (sumOfDiffs satadd satmul ?r ?ms) (length ?ms)"
  let ?P = "\<lambda>m. sint (muscleAbs (m - ?r)) \<le> ?d"
  have "length ?ms = min (length ms) (unat (ta_maxMeasurements a))" "0 < unat (ta_maxMeasurements a)"
    using hold by (simp_all add: averagerHolds_def min_def)
  then have ne': "?ms \<noteq> []"
    using ne by (metis length_0_conv length_greater_0_conv min_less_iff_conj)
  have len: "length ?ms \<le> unat (ta_maxMeasurements a)"
    using averagerHolds_length [OF hold] .
  have len32: "length ?ms < 2 ^ 32"
    using len unsigned_less [of "ta_maxMeasurements a", where ?'a = nat] by simp
  have le: "\<forall>m \<in> set ?ms. unat m \<le> M"
    using hold by (auto simp: averagerHolds_def dest: in_set_dropD)
  have raw: "unat ?r = natSum ?ms div length ?ms"
  proof -
    have "unat (ta_totalMicros a) = natSum ?ms"
      using hold by (simp add: averagerHolds_def)
    then show ?thesis
      using ne' len32 by (simp add: GetRawAverageValue_def unat_div unsigned_of_nat take_bit_nat_eq_self)
  qed
  show "L \<le> unat ?r" "unat ?r \<le> H"
    unfolding raw using ne' lo hi by (simp_all add: mean_bounds)
  have rM: "unat ?r \<le> M"
    unfolding raw using ne' le by (intro mean_bounds) auto
  have sq: "sum_list (map (\<lambda>m. absDiff m ?r * absDiff m ?r) ?ms) = unat (sumOfDiffs satadd satmul ?r ?ms)"
    using le rM M len by (intro sumOfDiffs_exact [symmetric]) (auto intro: le_less_trans [OF mult_le_mono1])
  have "sum_list (map (\<lambda>m. absDiff m ?r * absDiff m ?r) ?ms) \<le> length ?ms * (M * M)"
    using le rM by (intro sum_squares_le) (simp add: absDiff_le)
  also have "\<dots> \<le> unat (ta_maxMeasurements a) * (M * M)"
    using len by (rule mult_le_mono1)
  finally have small: "unat (sumOfDiffs satadd satmul ?r ?ms) \<le> unat (ta_maxMeasurements a) * (M * M)"
    by (simp only: sq)
  define gs where "gs = filter ?P ?ms"
  have nonempty: "gs \<noteq> []" if "unat (ta_maxMeasurements a) * (M * M) \<le> 2 ^ 53"
  proof -
    obtain m where m: "m \<in> set ?ms" "absDiff m ?r * absDiff m ?r * length ?ms \<le> unat (sumOfDiffs satadd satmul ?r ?ms)"
      using some_below_mean [OF ne', of "\<lambda>m. absDiff m ?r"] sq by auto
    have "sint (muscleAbs (m - ?r)) = int (absDiff m ?r)"
      using le m(1) rM M by (intro muscleAbs_diff) auto
    then have "?P m"
      using deviation [OF _ order_trans [OF small that] m(2)] ne' by simp
    then show ?thesis
      using m(1) by (auto simp: gs_def filter_empty_conv)
  qed
  have gs: "set gs \<subseteq> set ?ms" "length gs \<le> length ?ms"
    by (auto simp: gs_def)
  have "natSum gs \<le> length gs * M"
    using le gs(1) by (intro natSum_le) auto
  also have "\<dots> \<le> unat (ta_maxMeasurements a) * M"
    using gs(2) len by (intro mult_le_mono1) simp
  also have "\<dots> < 2 ^ 64"
    using hold by (simp add: averagerHolds_def)
  finally have sum: "unat (sum_list gs) = natSum gs"
    by (rule unat_sum_list)
  have aux: "GetAverageValueIgnoringOutliersAux satadd satmul deviation a =
      (if (of_nat (length gs) :: u32) > 0 then sum_list gs div ucast (of_nat (length gs) :: u32) else 0)"
    using ne' by (simp add: GetAverageValueIgnoringOutliersAux_def Let_def fold_filter_count gs_def)
  show "L \<le> unat (GetAverageValueIgnoringOutliersAux satadd satmul deviation a) \<and>
        unat (GetAverageValueIgnoringOutliersAux satadd satmul deviation a) \<le> H \<or>
      GetAverageValueIgnoringOutliersAux satadd satmul deviation a = 0 \<and> 2 ^ 53 < unat (ta_maxMeasurements a) * (M * M)"
  proof (cases "gs = []")
    case True
    then show ?thesis
      using nonempty aux by (auto simp: not_le [symmetric])
  next
    case False
    have cnt: "unat (ucast (of_nat (length gs) :: u32) :: u64) = length gs" "(of_nat (length gs) :: u32) > 0"
      using False gs(2) len32 by (auto simp: unsigned_of_nat take_bit_nat_eq_self word_less_nat_alt)
    then have avg: "unat (GetAverageValueIgnoringOutliersAux satadd satmul deviation a) = natSum gs div length gs"
      by (simp add: aux unat_div sum)
    show ?thesis
      unfolding avg using False gs(1) lo hi by (auto intro!: mean_bounds)
  qed
qed

end

section \<open>Properties\<close>

text \<open>
  C18: the round-trip average is sound.  An averager of non-zero capacity N takes any history of
  measurements up to some M for which N squares of M stay below 64 bits, and holds the last N of
  them.  Its raw average lies between the smallest and the largest measurement held.  So does its
  average without outliers as long as N squares of M do not exceed \<^term>\<open>2 ^ 53 :: nat\<close>, what a
  double can count exactly; above, the only other value it can have is 0, when the rounded
  deviation makes an outlier of every measurement.  With capacity zero adding a measurement never
  returns.
\<close>

theorem averager_sound:
  assumes "averaging satadd satmul deviation"
    and "qs \<noteq> []" "\<forall>(m, now) \<in> set qs. unat m \<le> M" "unat maxMeasurements * (M * M) < 2 ^ 64"
  shows "(maxMeasurements \<noteq> 0 \<longrightarrow> (\<exists>a. addMeasurements satadd qs (newZGTimeAverager maxMeasurements) = Some a \<and>
      ta_measurements a = map fst (drop (length qs - unat maxMeasurements) qs) \<and>
      (\<forall>L H. (\<forall>m \<in> set (ta_measurements a). L \<le> m \<and> m \<le> H) \<longrightarrow>
        L \<le> GetRawAverageValue a \<and> GetRawAverageValue a \<le> H \<and>
        (L \<le> fst (GetAverageValueIgnoringOutliers satadd satmul deviation a) \<and>
           fst (GetAverageValueIgnoringOutliers satadd satmul deviation a) \<le> H \<or>
         fst (GetAverageValueIgnoringOutliers satadd satmul deviation a) = 0 \<and> 2 ^ 53 < unat maxMeasurements * (M * M))))) \<and>
    (maxMeasurements = 0 \<longrightarrow> addMeasurements satadd qs (newZGTimeAverager maxMeasurements) = None)"
proof (intro conjI impI)
  let ?new = "newZGTimeAverager maxMeasurements"
  let ?avg = "\<lambda>a. GetAverageValueIgnoringOutliersAux satadd satmul deviation a"
  assume "maxMeasurements \<noteq> 0"
  then have n: "1 \<le> unat maxMeasurements"
    by (simp add: Suc_le_eq unat_gt_0)
  have "M * M \<le> unat maxMeasurements * (M * M)"
    using n by (cases "unat maxMeasurements") auto
  then have "M * M < 2 ^ 64"
    using assms(4) by (rule le_less_trans)
  then have M: "M < 2 ^ 63"
    by (rule contrapos_pp) (use mult_le_mono [of "2 ^ 63" M "2 ^ 63" M] in simp)
  have "unat maxMeasurements * M \<le> unat maxMeasurements * (M * M)"
    by (cases M) simp_all
  then have "unat maxMeasurements * M < 2 ^ 64"
    using assms(4) by (rule le_less_trans)
  then have "averagerHolds M [] ?new"
    using n by (simp add: averagerHolds_def newZGTimeAverager_def)
  then obtain a where a: "addMeasurements satadd qs ?new = Some a" "averagerHolds M (map fst qs) a"
    "ta_maxMeasurements a = maxMeasurements" "ta_cachedAverageWithoutOutliers a = - 1"
    using averaging.addMeasurements_holds [OF assms(1), of M "[]" ?new qs] assms(2,3) by (auto simp: newZGTimeAverager_def)
  have ne: "map fst qs \<noteq> []" and cap: "unat (ta_maxMeasurements a) * (M * M) < 2 ^ 64"
    using assms(2,4) a(3) by simp_all
  have avg: "fst (GetAverageValueIgnoringOutliers satadd satmul deviation a) = ?avg a"
    using a(4) by (simp add: GetAverageValueIgnoringOutliers_def)
  have "L \<le> GetRawAverageValue a \<and> GetRawAverageValue a \<le> H \<and>
      (L \<le> ?avg a \<and> ?avg a \<le> H \<or> ?avg a = 0 \<and> 2 ^ 53 < unat maxMeasurements * (M * M))"
    if "\<forall>m \<in> set (ta_measurements a). L \<le> m \<and> m \<le> H" for L H
    using averaging.averages_between [OF assms(1) a(2) ne M cap, of "unat L" "unat H"] that a(3)
    unfolding word_le_nat_alt by blast
  moreover have "ta_measurements a = map fst (drop (length qs - unat maxMeasurements) qs)"
    using a(2,3) by (simp add: averagerHolds_def drop_map)
  ultimately show "\<exists>a. addMeasurements satadd qs ?new = Some a \<and>
      ta_measurements a = map fst (drop (length qs - unat maxMeasurements) qs) \<and>
      (\<forall>L H. (\<forall>m \<in> set (ta_measurements a). L \<le> m \<and> m \<le> H) \<longrightarrow>
        L \<le> GetRawAverageValue a \<and> GetRawAverageValue a \<le> H \<and>
        (L \<le> fst (GetAverageValueIgnoringOutliers satadd satmul deviation a) \<and>
           fst (GetAverageValueIgnoringOutliers satadd satmul deviation a) \<le> H \<or>
         fst (GetAverageValueIgnoringOutliers satadd satmul deviation a) = 0 \<and> 2 ^ 53 < unat maxMeasurements * (M * M)))"
    using a(1) by (intro exI [of _ a]) (simp only: avg simp_thms, blast)
next
  assume "maxMeasurements = 0"
  then show "addMeasurements satadd qs (newZGTimeAverager maxMeasurements) = None"
    using assms(2) by (cases qs)
      (auto simp: ta_AddMeasurement_def makeRoom_zero newZGTimeAverager_def)
qed

text \<open>Saturating operations and an integer root that meet the locale's laws.\<close>

definition satadd64 :: "u64 \<Rightarrow> u64 \<Rightarrow> u64" where
  "satadd64 a b = of_nat (min (2 ^ 64 - 1) (unat a + unat b))"

definition satmul64 :: "u64 \<Rightarrow> u64 \<Rightarrow> u64" where
  "satmul64 a b = of_nat (min (2 ^ 64 - 1) (unat a * unat b))"

definition rootMean :: "u64 \<Rightarrow> nat \<Rightarrow> int" where
  "rootMean s n = int (Max (insert 0 {k \<in> {0..unat s}. k * k * n \<le> unat s}))"

interpretation avg64: averaging satadd64 satmul64 rootMean
proof unfold_locales
  fix x y :: u64
  have small: "min (2 ^ 64 - 1) j < (2 :: nat) ^ 64" for j
    by (simp add: min_def)
  show "unat (satadd64 x y) = min (2 ^ 64 - 1) (unat x + unat y)"
    "unat (satmul64 x y) = min (2 ^ 64 - 1) (unat x * unat y)"
    unfolding satadd64_def satmul64_def by (rule unat_of_nat_small, use small in simp)+
next
  fix n k :: nat and s :: u64
  assume n: "0 < n" and le: "k * k * n \<le> unat s"
  have "k \<le> k * k * n"
    using n by (cases k; cases n) simp_all
  with le have "k \<le> unat s"
    by (rule order_trans [rotated])
  with le have "k \<in> insert 0 {k \<in> {0..unat s}. k * k * n \<le> unat s}"
    by simp
  moreover have "finite (insert 0 {k \<in> {0..unat s}. k * k * n \<le> unat s})"
    by simp
  ultimately show "int k \<le> rootMean s n"
    unfolding rootMean_def of_nat_le_iff by (intro Max_ge)
qed

theorem averager_sound_witness:
  "\<exists>a. addMeasurements satadd64 [(700, 1), (100, 2), (110, 3), (400, 4)] (newZGTimeAverager 3) = Some a \<and>
     ta_measurements a = [100, 110, 400] \<and> 100 \<le> GetRawAverageValue a \<and>
     100 \<le> fst (GetAverageValueIgnoringOutliers satadd64 satmul64 rootMean a) \<and>
     fst (GetAverageValueIgnoringOutliers satadd64 satmul64 rootMean a) \<le> 400"
proof -
  let ?qs = "[(700, 1), (100, 2), (110, 3), (400, 4)] :: (u64 \<times> u64) list"
  let ?avg = "\<lambda>a. fst (GetAverageValueIgnoringOutliers satadd64 satmul64 rootMean a)"
  have "\<exists>a. addMeasurements satadd64 ?qs (newZGTimeAverager 3) = Some a \<and>
      ta_measurements a = map fst (drop (length ?qs - unat (3 :: u32)) ?qs) \<and>
      (\<forall>L H. (\<forall>m \<in> set (ta_measurements a). L \<le> m \<and> m \<le> H) \<longrightarrow>
        L \<le> GetRawAverageValue a \<and> GetRawAverageValue a \<le> H \<and>
        (L \<le> ?avg a \<and> ?avg a \<le> H \<or> ?avg a = 0 \<and> 2 ^ 53 < unat (3 :: u32) * (1000 * 1000)))"
    by (rule averager_sound [OF avg64.averaging_axioms, of ?qs 1000 3, THEN conjunct1, THEN mp]) simp_all
  moreover have "\<not> 2 ^ 53 < unat (3 :: u32) * (1000 * 1000)"
    by simp
  ultimately obtain a where a: "addMeasurements satadd64 ?qs (newZGTimeAverager 3) = Some a"
    "ta_measurements a = map fst (drop (length ?qs - unat (3 :: u32)) ?qs)"
    and avg: "\<And>L H. \<forall>m \<in> set (ta_measurements a). L \<le> m \<and> m \<le> H \<Longrightarrow>
      L \<le> GetRawAverageValue a \<and> L \<le> ?avg a \<and> ?avg a \<le> H"
    by blast
  have ms: "ta_measurements a = [100, 110, 400]"
    using a(2) by simp
  show ?thesis
    using a(1) ms avg [of 100 400] by (intro exI [of _ a]) simp
qed

end
