(* ===== verification/ZG_HeartbeatThread.thy ===== *)
theory ZG_HeartbeatThread
  imports ZG_HeartbeatPacket ZG_TimeAverager
begin

text \<open>
  The heartbeat thread (\<^verbatim>\<open>PZGHeartbeatThreadState\<close>, \<^verbatim>\<open>PZGHeartbeatSourceState\<close>): which
  sources are heard, the peers they belong to, who orders the peers, the round-trip times and
  the offset to the network clock, what is sent and what the main thread is told.

  The system calls are inputs: the time a turn starts at (\<open>_now\<close>), the datagrams a socket
  returns with their sources and receive times, and the clock when each packet is written.
  Sending cannot be observed to fail by the code, so the datagrams written are an output.  The
  libraries the thread calls are the fields of the record \<open>hb_lib\<close>.  The operations that add a
  measurement return an option, \<open>None\<close> if the loop inside would not end.
\<close>

section \<open>Source keys and source states\<close>

datatype 'ip PZGHeartbeatSourceKey =
  PZGHeartbeatSourceKey (src_address: 'ip) (src_peerID: ZGPeerID)

record 'ip PZGHeartbeatSourceState =
  ss_maxMeasurements :: u32
  ss_rttAveragers :: "('ip \<times> ZGTimeAverager) list"
  ss_hbPacket :: "'ip PZGHeartbeatPacketWithMetaData"
  ss_localExpirationTimeMicros :: u64

record ('u, 'ip) hb_lib =
  hl_wire :: "'u wire"
  hl_satmul32 :: "u32 \<Rightarrow> u32 \<Rightarrow> u32"
  hl_csum :: "bytes \<Rightarrow> u32"
  hl_deflate :: "bytes \<Rightarrow> status_t + bytes"
  hl_inflate :: "bytes \<Rightarrow> status_t + bytes"
  hl_satadd :: "u64 \<Rightarrow> u64 \<Rightarrow> u64"
  hl_satmul :: "u64 \<Rightarrow> u64 \<Rightarrow> u64"
  hl_deviation :: "u64 \<Rightarrow> nat \<Rightarrow> int"
  hl_ipValid :: "'ip \<Rightarrow> bool"
  hl_sameTable :: "'ip PZGHeartbeatSourceKey list \<Rightarrow> 'ip PZGHeartbeatSourceKey list \<Rightarrow> bool"

text \<open>
  A source state enters the table with its packet set (\<open>IntroduceSource\<close>), so the packet
  reference is never null.
\<close>

definition SetHeartbeatPacket ::
  "'ip PZGHeartbeatPacketWithMetaData \<Rightarrow> u64 \<Rightarrow> 'ip PZGHeartbeatSourceState \<Rightarrow> 'ip PZGHeartbeatSourceState" where
  "SetHeartbeatPacket hbPacket localExpirationTimeMicros ss =
     ss\<lparr> ss_hbPacket := hbPacket, ss_localExpirationTimeMicros := localExpirationTimeMicros \<rparr>"

definition newPZGHeartbeatSourceState ::
  "u32 \<Rightarrow> 'ip PZGHeartbeatPacketWithMetaData \<Rightarrow> u64 \<Rightarrow> 'ip PZGHeartbeatSourceState" where
  "newPZGHeartbeatSourceState maxMeasurements hbPacket localExpirationTimeMicros = \<lparr>
     ss_maxMeasurements = maxMeasurements, ss_rttAveragers = [],
     ss_hbPacket = hbPacket, ss_localExpirationTimeMicros = localExpirationTimeMicros \<rparr>"

definition ss_AddMeasurement ::
  "(u64 \<Rightarrow> u64 \<Rightarrow> u64) \<Rightarrow> 'ip \<Rightarrow> u64 \<Rightarrow> u64 \<Rightarrow> 'ip PZGHeartbeatSourceState \<Rightarrow> 'ip PZGHeartbeatSourceState option" where
  "ss_AddMeasurement satadd multicastAddr newMeasurementMicros now ss =
     (let rtt = (case tabGet fst multicastAddr (ss_rttAveragers ss) of
                   None \<Rightarrow> newZGTimeAverager (ss_maxMeasurements ss)
                 | Some (_, r) \<Rightarrow> r)
      in map_option (\<lambda>r. ss\<lparr> ss_rttAveragers := tabPut fst (multicastAddr, r) (ss_rttAveragers ss) \<rparr>)
           (ta_AddMeasurement satadd newMeasurementMicros now rtt))"

definition DiscardRoundTripTimeAverager :: "'ip \<Rightarrow> 'ip PZGHeartbeatSourceState \<Rightarrow> 'ip PZGHeartbeatSourceState" where
  "DiscardRoundTripTimeAverager multicastAddress ss =
     ss\<lparr> ss_rttAveragers := tabRemove fst multicastAddress (ss_rttAveragers ss) \<rparr>"

text \<open>
  The first averager with a recent enough measurement; those in front of it move behind the
  others, in their order, so that the choice does not flap.
\<close>

definition GetPreferredAverageValue ::
  "('u, 'ip) hb_lib \<Rightarrow> u64 \<Rightarrow> 'ip PZGHeartbeatSourceState \<Rightarrow> u64 \<times> 'ip PZGHeartbeatSourceState" where
  "GetPreferredAverageValue L mustHaveMeasurementsAfterThisTime ss =
     (let stale = (\<lambda>(_, r). ta_lastMeasurementTime r < mustHaveMeasurementsAfterThisTime);
          unfit = takeWhile stale (ss_rttAveragers ss)
      in case dropWhile stale (ss_rttAveragers ss) of
           [] \<Rightarrow> (0, ss)
         | (ip, r) # rest \<Rightarrow>
             let (ret, r') = GetAverageValueIgnoringOutliers (hl_satadd L) (hl_satmul L) (hl_deviation L) r
             in (ret, ss\<lparr> ss_rttAveragers := (ip, r') # rest @ unfit \<rparr>))"

section \<open>The state of the thread\<close>

record 'ip mdio =
  dio_ref :: nat
  dio_dest :: 'ip

record 'ip hb_thread =
  ht_hbSettings :: hb_settings
  ht_outgoingPacketIDCounter :: u32
  ht_birthdate :: u64
  ht_heartbeatPingInterval :: u64
  ht_heartbeatExpirationTimeMicros :: u64
  ht_nextSendHeartbeatTime :: u64
  ht_now :: u64
  ht_halfAttachedTime :: u64
  ht_fullyAttachedTime :: u64
  ht_fullAttachmentReported :: bool
  ht_toNetworkTimeOffset :: u64
  ht_mainThreadToNetworkTimeOffset :: u64
  ht_updateToNetworkTimeOffsetPending :: bool
  ht_multicastDataIOs :: "'ip mdio list"
  ht_recreateMulticastDataIOsRequested :: bool
  ht_recentlySentHeartbeatLocalSendTimes :: "(u32 \<times> u64) list"
  ht_onlineSources :: "('ip PZGHeartbeatSourceKey \<times> 'ip PZGHeartbeatSourceState) list"
  ht_peerIDToIPAddresses :: "(ZGPeerID \<times> 'ip list) list"
  ht_updateOfficialPeersListPending :: bool
  ht_forceOfficialPeersUpdate :: bool
  ht_lastSourcesSentToMaster :: "'ip PZGHeartbeatSourceKey list"
  ht_heartbeatSourceTagCounter :: u16
  ht_mdioKeys :: "'ip mdio list"
  ht_heartbeatSourceTagToDest :: "(u16 \<times> 'ip) list"
  ht_heartbeatSourceDestToTag :: "('ip \<times> u16) list"
  ht_mainThreadLatencies :: "(ZGPeerID \<times> u64) list"

definition PEER_TYPE_FULL_PEER :: u16 where
  "PEER_TYPE_FULL_PEER = 0"

definition PEER_TYPE_JUNIOR_ONLY :: u16 where
  "PEER_TYPE_JUNIOR_ONLY = 1"

definition MICROS_PER_SECOND :: u64 where
  "MICROS_PER_SECOND = 1000000"

definition ht_Initialize :: "hb_settings \<Rightarrow> u64 \<Rightarrow> 'ip hb_thread \<Rightarrow> 'ip hb_thread" where
  "ht_Initialize hbSettings startTime t =
     (let ping = MICROS_PER_SECOND div ucast (max 1 (hbs_heartbeatsPerSecond hbSettings));
          attach = ucast (hbs_heartbeatsBeforeFullyAttached hbSettings) * ping
      in t\<lparr> ht_hbSettings := hbSettings, ht_birthdate := startTime,
            ht_heartbeatPingInterval := ping,
            ht_heartbeatExpirationTimeMicros := ping * ucast (hbs_maxNumMissingHeartbeats hbSettings),
            ht_nextSendHeartbeatTime := startTime, ht_now := startTime,
            ht_halfAttachedTime := startTime + attach div 2, ht_fullyAttachedTime := startTime + attach div 1,
            ht_fullAttachmentReported := False,
            ht_toNetworkTimeOffset := INVALID_TIME_OFFSET, ht_mainThreadToNetworkTimeOffset := INVALID_TIME_OFFSET,
            ht_updateToNetworkTimeOffsetPending := False, ht_recreateMulticastDataIOsRequested := True,
            ht_updateOfficialPeersListPending := False, ht_forceOfficialPeersUpdate := False,
            ht_heartbeatSourceTagCounter := 0, ht_mdioKeys := [] \<rparr>)"

definition GetPulseTime :: "'ip hb_thread \<Rightarrow> u64" where
  "GetPulseTime t =
     (if ht_updateOfficialPeersListPending t \<or> ht_updateToNetworkTimeOffsetPending t then 0
      else fold (\<lambda>(_, ss) ret. min ret (ss_localExpirationTimeMicros ss)) (ht_onlineSources t) (ht_nextSendHeartbeatTime t))"

definition ScheduleUpdateOfficialPeersList :: "bool \<Rightarrow> 'ip hb_thread \<Rightarrow> 'ip hb_thread" where
  "ScheduleUpdateOfficialPeersList forceUpdate t =
     t\<lparr> ht_updateOfficialPeersListPending := True,
        ht_forceOfficialPeersUpdate := (forceUpdate \<or> ht_forceOfficialPeersUpdate t) \<rparr>"

definition ScheduleUpdateToNetworkTimeOffset :: "'ip hb_thread \<Rightarrow> 'ip hb_thread" where
  "ScheduleUpdateToNetworkTimeOffset t = t\<lparr> ht_updateToNetworkTimeOffsetPending := True \<rparr>"

definition thread_GetSeniorPeerID :: "'ip hb_thread \<Rightarrow> ZGPeerID" where
  "thread_GetSeniorPeerID t =
     (case ht_lastSourcesSentToMaster t of [] \<Rightarrow> invalidPeerID | k # _ \<Rightarrow> src_peerID k)"

definition IAmTheSeniorPeer :: "'ip hb_thread \<Rightarrow> bool" where
  "IAmTheSeniorPeer t \<longleftrightarrow> thread_GetSeniorPeerID t = hbs_localPeerID (ht_hbSettings t)"

definition IsAtLeastHalfAttached :: "'ip hb_thread \<Rightarrow> bool" where
  "IsAtLeastHalfAttached t \<longleftrightarrow> ht_now t \<ge> ht_halfAttachedTime t"

definition IsFullyAttached :: "'ip hb_thread \<Rightarrow> bool" where
  "IsFullyAttached t \<longleftrightarrow> ht_now t \<ge> ht_fullyAttachedTime t"

definition ht_GetNetworkTime64ForRunTime64 :: "'ip hb_thread \<Rightarrow> u64 \<Rightarrow> u64" where
  "ht_GetNetworkTime64ForRunTime64 t runTime64TimeStamp =
     (if ht_toNetworkTimeOffset t = INVALID_TIME_OFFSET \<or> runTime64TimeStamp = MUSCLE_TIME_NEVER
      then MUSCLE_TIME_NEVER else runTime64TimeStamp + ht_toNetworkTimeOffset t)"

definition ht_GetRunTime64ForNetworkTime64 :: "'ip hb_thread \<Rightarrow> u64 \<Rightarrow> u64" where
  "ht_GetRunTime64ForNetworkTime64 t networkTime64TimeStamp =
     (if ht_toNetworkTimeOffset t = INVALID_TIME_OFFSET \<or> networkTime64TimeStamp = MUSCLE_TIME_NEVER
      then MUSCLE_TIME_NEVER else networkTime64TimeStamp - ht_toNetworkTimeOffset t)"

definition ht_GetNetworkTime64 :: "u64 \<Rightarrow> 'ip hb_thread \<Rightarrow> u64" where
  "ht_GetNetworkTime64 runTime t = (if IsFullyAttached t then ht_GetNetworkTime64ForRunTime64 t runTime else 0)"

definition GetEstimatedLatencyToPeer :: "ZGPeerID \<Rightarrow> 'ip hb_thread \<Rightarrow> u64" where
  "GetEstimatedLatencyToPeer peerID t =
     (case tabGet fst peerID (ht_mainThreadLatencies t) of None \<Rightarrow> MUSCLE_TIME_NEVER | Some (_, l) \<Rightarrow> l)"

section \<open>Who orders the peers\<close>

definition PeersListMatchesIgnoreOrdering :: "PZGHeartbeatPeerInfo list \<Rightarrow> 'ip hb_thread \<Rightarrow> bool" where
  "PeersListMatchesIgnoreOrdering infoQ t \<longleftrightarrow>
     length infoQ = length (ht_peerIDToIPAddresses t) \<and>
     (\<forall>i \<in> set infoQ. tabHas fst (pi_peerID i) (ht_peerIDToIPAddresses t))"

text \<open>The loops of \<open>GetKingmakerPeerID\<close> and \<open>GetKingmakerPeerSource\<close>; no source is the default key.\<close>

definition GetKingmakerPeerID :: "'ip hb_thread \<Rightarrow> ZGPeerID" where
  "GetKingmakerPeerID t =
     fold (\<lambda>(_, ss) minPeerID.
         let hbPacket = ss_hbPacket ss; nextPID = hb_sourcePeerID hbPacket
         in if (\<not> IsValid minPeerID \<or> nextPID < minPeerID) \<and> PeersListMatchesIgnoreOrdering (hb_orderedPeersList hbPacket) t
            then nextPID else minPeerID)
       (ht_onlineSources t) invalidPeerID"

definition GetKingmakerPeerSource :: "'ip hb_thread \<Rightarrow> 'ip PZGHeartbeatSourceKey option" where
  "GetKingmakerPeerSource t =
     fst (fold (\<lambda>(k, ss) (ret, minPeerID).
         let hbPacket = ss_hbPacket ss; nextPID = hb_sourcePeerID hbPacket
         in if (\<not> IsValid minPeerID \<or> nextPID < minPeerID) \<and> PeersListMatchesIgnoreOrdering (hb_orderedPeersList hbPacket) t
            then (Some k, nextPID) else (ret, minPeerID))
       (ht_onlineSources t) (None, invalidPeerID))"

definition sourcePacket :: "ZGPeerID \<Rightarrow> 'ip hb_thread \<Rightarrow> 'ip \<Rightarrow> 'ip PZGHeartbeatPacketWithMetaData option" where
  "sourcePacket pid t ip = map_option (\<lambda>(_, ss). ss_hbPacket ss) (tabGet fst (PZGHeartbeatSourceKey ip pid) (ht_onlineSources t))"

definition GetPeerTypeFromQueue :: "ZGPeerID \<Rightarrow> 'ip list \<Rightarrow> 'ip hb_thread \<Rightarrow> u16" where
  "GetPeerTypeFromQueue pid q t =
     fold (\<lambda>ip ret. case sourcePacket pid t ip of Some hb \<Rightarrow> max ret (hb_peerType hb) | None \<Rightarrow> ret) q 0"

definition GetPeerUptimeSecondsFromQueue :: "ZGPeerID \<Rightarrow> 'ip list \<Rightarrow> 'ip hb_thread \<Rightarrow> u32" where
  "GetPeerUptimeSecondsFromQueue pid q t =
     fold (\<lambda>ip ret. case sourcePacket pid t ip of Some hb \<Rightarrow> max ret (hb_peerUptimeSeconds hb) | None \<Rightarrow> ret) q 0"

definition muscleCompare :: "'a::linorder \<Rightarrow> 'a \<Rightarrow> int" where
  "muscleCompare a b = (if a < b then - 1 else if b < a then 1 else 0)"

definition ComparePeerIDsBySeniority :: "'ip hb_thread \<Rightarrow> ZGPeerID \<Rightarrow> ZGPeerID \<Rightarrow> int" where
  "ComparePeerIDsBySeniority t pid1 pid2 =
     (case (tabGet fst pid1 (ht_peerIDToIPAddresses t), tabGet fst pid2 (ht_peerIDToIPAddresses t)) of
        (Some (_, q1), Some (_, q2)) \<Rightarrow>
          (let ret = - muscleCompare (GetPeerTypeFromQueue pid1 q1 t) (GetPeerTypeFromQueue pid2 q2 t)
           in if ret \<noteq> 0 then ret
              else let ret = - muscleCompare (GetPeerUptimeSecondsFromQueue pid1 q1 t) (GetPeerUptimeSecondsFromQueue pid2 q2 t)
                   in if ret \<noteq> 0 then ret else - muscleCompare pid1 pid2)
      | _ \<Rightarrow> 0)"

text \<open>
  \<^verbatim>\<open>Hashtable::SortByKey\<close> with a comparison function; as the comparison is a strict order on the
  keys of the table, every sorting method gives this list.
\<close>

fun insertByKey :: "('k \<Rightarrow> 'k \<Rightarrow> int) \<Rightarrow> 'k \<times> 'v \<Rightarrow> ('k \<times> 'v) list \<Rightarrow> ('k \<times> 'v) list" where
  "insertByKey cmp x [] = [x]"
| "insertByKey cmp x (y # ys) = (if cmp (fst x) (fst y) \<le> 0 then x # y # ys else y # insertByKey cmp x ys)"

definition SortByKey :: "('k \<Rightarrow> 'k \<Rightarrow> int) \<Rightarrow> ('k \<times> 'v) list \<Rightarrow> ('k \<times> 'v) list" where
  "SortByKey cmp xs = foldr (insertByKey cmp) xs []"

definition CalculateOrderedPeersList :: "('u, 'ip) hb_lib \<Rightarrow> 'ip hb_thread \<Rightarrow> ZGPeerID list \<times> 'ip hb_thread" where
  "CalculateOrderedPeersList L t =
     (case GetKingmakerPeerSource t of
        Some kmSource \<Rightarrow>
          if hl_ipValid L (src_address kmSource) \<and> IsValid (src_peerID kmSource)
          then (case tabGet fst kmSource (ht_onlineSources t) of
                  Some (_, ss) \<Rightarrow> (map pi_peerID (hb_orderedPeersList (ss_hbPacket ss)), t)
                | None \<Rightarrow> ([], t))
          else let ps = SortByKey (ComparePeerIDsBySeniority t) (ht_peerIDToIPAddresses t)
               in (map fst ps, t\<lparr> ht_peerIDToIPAddresses := ps \<rparr>)
      | None \<Rightarrow>
          let ps = SortByKey (ComparePeerIDsBySeniority t) (ht_peerIDToIPAddresses t)
          in (map fst ps, t\<lparr> ht_peerIDToIPAddresses := ps \<rparr>))"

section \<open>Timing replies\<close>

text \<open>One turn of the loop of \<open>GetPZGHeartbeatPeerInfoRefFor\<close>: each packet is replied to once.\<close>

definition putTimingReply ::
  "u64 \<Rightarrow> ZGPeerID \<Rightarrow> 'ip \<Rightarrow> PZGHeartbeatPeerInfo \<times> 'ip hb_thread \<Rightarrow> PZGHeartbeatPeerInfo \<times> 'ip hb_thread" where
  "putTimingReply now peerID ip r =
     (case r of (info, t) \<Rightarrow>
        let key = PZGHeartbeatSourceKey ip peerID
        in (case tabGet fst key (ht_onlineSources t) of
             None \<Rightarrow> (info, t)
           | Some (_, ss) \<Rightarrow>
               let phb = ss_hbPacket ss
               in if hb_haveSentTimingReply phb then (info, t)
                  else (PutTimingInfo (hb_sourceTag phb) (hb_heartbeatPacketID phb)
                          (ucast (min (now - hb_localReceiveTimeMicros phb) (ucast (- 1 :: u32)))) info,
                        t\<lparr> ht_onlineSources := tabPut fst (key, ss\<lparr> ss_hbPacket := phb\<lparr> hb_haveSentTimingReply := True \<rparr> \<rparr>)
                                                (ht_onlineSources t) \<rparr>)))"

definition GetPZGHeartbeatPeerInfoRefFor :: "u64 \<Rightarrow> ZGPeerID \<Rightarrow> 'ip hb_thread \<Rightarrow> PZGHeartbeatPeerInfo \<times> 'ip hb_thread" where
  "GetPZGHeartbeatPeerInfoRefFor now peerID t =
     (case tabGet fst peerID (ht_peerIDToIPAddresses t) of
        None \<Rightarrow> (\<lparr> pi_peerID = peerID, pi_timings = [] \<rparr>, t)
      | Some (_, sources) \<Rightarrow> fold (putTimingReply now peerID) sources (\<lparr> pi_peerID = peerID, pi_timings = [] \<rparr>, t))"

section \<open>Sources come and go\<close>

definition ExpireSource :: "'ip PZGHeartbeatSourceKey \<Rightarrow> 'ip hb_thread \<Rightarrow> 'ip hb_thread" where
  "ExpireSource source t =
     (case tabGet fst source (ht_onlineSources t) of
        None \<Rightarrow> t
      | Some (_, sourceInfo) \<Rightarrow>
          let pid = hb_sourcePeerID (ss_hbPacket sourceInfo);
              t1 = (case tabGet fst pid (ht_peerIDToIPAddresses t) of
                      None \<Rightarrow> t
                    | Some (_, q) \<Rightarrow>
                        if src_address source \<in> set q
                        then let q' = remove1 (src_address source) q
                             in if q' = []
                                then t\<lparr> ht_peerIDToIPAddresses := tabRemove fst pid (ht_peerIDToIPAddresses t),
                                        ht_mainThreadLatencies := tabRemove fst pid (ht_mainThreadLatencies t) \<rparr>
                                else t\<lparr> ht_peerIDToIPAddresses := tabPut fst (pid, q') (ht_peerIDToIPAddresses t) \<rparr>
                        else t)
          in ScheduleUpdateOfficialPeersList True
               (t1\<lparr> ht_onlineSources := tabRemove fst source (ht_onlineSources t1) \<rparr>))"

definition IntroduceSource ::
  "'ip PZGHeartbeatSourceKey \<Rightarrow> 'ip PZGHeartbeatPacketWithMetaData \<Rightarrow> u64 \<Rightarrow> 'ip hb_thread \<Rightarrow> 'ip hb_thread" where
  "IntroduceSource source newHB localExpirationTimeMicros t =
     (let newSource = newPZGHeartbeatSourceState 20 newHB localExpirationTimeMicros;
          pid = hb_sourcePeerID newHB;
          q = (case tabGet fst pid (ht_peerIDToIPAddresses t) of None \<Rightarrow> [] | Some (_, q) \<Rightarrow> q)
      in ScheduleUpdateOfficialPeersList True
           (t\<lparr> ht_onlineSources := tabPut fst (source, newSource) (ht_onlineSources t),
               ht_peerIDToIPAddresses := tabPut fst (pid, q @ [src_address source]) (ht_peerIDToIPAddresses t) \<rparr>))"

section \<open>Receiving\<close>

text \<open>
  The two nested loops that look for a timing reply to one of our packets: the entry of this
  peer, and in it the first record whose tag is one of our destinations.
\<close>

definition measureRoundTrip ::
  "('u, 'ip) hb_lib \<Rightarrow> 'ip PZGHeartbeatSourceKey \<Rightarrow> 'ip PZGHeartbeatPacketWithMetaData \<Rightarrow> u64 \<Rightarrow> 'ip hb_thread \<Rightarrow> 'ip hb_thread option" where
  "measureRoundTrip L source newHB localReceiveTimeMicros t =
     (case List.find (\<lambda>i. pi_peerID i = hbs_localPeerID (ht_hbSettings t)) (hb_orderedPeersList newHB) of
        None \<Rightarrow> Some t
      | Some i \<Rightarrow>
          (case List.find (\<lambda>ti. tabHas fst (ti_sourceTag ti) (ht_heartbeatSourceTagToDest t)) (pi_timings i) of
             None \<Rightarrow> Some t
           | Some ti \<Rightarrow>
               let multicastIAP = snd (the (tabGet fst (ti_sourceTag ti) (ht_heartbeatSourceTagToDest t)));
                   dwellTime = ti_dwellTimeMicros ti;
                   packetLocalSendTime = (if dwellTime = - 1 then None
                     else tabGet fst (ti_heartbeatPacketID ti) (ht_recentlySentHeartbeatLocalSendTimes t))
               in (case packetLocalSendTime of
                    None \<Rightarrow> Some t
                  | Some (_, sendTime) \<Rightarrow>
                      (case tabGet fst source (ht_onlineSources t) of
                         None \<Rightarrow> Some t
                       | Some (_, ss) \<Rightarrow>
                           map_option (\<lambda>ss'. t\<lparr> ht_onlineSources := tabPut fst (source, ss') (ht_onlineSources t) \<rparr>)
                             (ss_AddMeasurement (hl_satadd L) multicastIAP
                               (localReceiveTimeMicros - (sendTime + ucast dwellTime)) (ht_now t) ss)))))"

definition noteHeartbeat ::
  "'ip PZGHeartbeatSourceKey \<Rightarrow> 'ip PZGHeartbeatPacketWithMetaData \<Rightarrow> u64 \<Rightarrow> 'ip hb_thread \<Rightarrow> 'ip hb_thread" where
  "noteHeartbeat source newHB localReceiveTimeMicros t =
     (let pid = hb_sourcePeerID newHB;
          localExpirationTimeMicros = (if pid = hbs_localPeerID (ht_hbSettings t) then MUSCLE_TIME_NEVER
            else localReceiveTimeMicros + ht_heartbeatExpirationTimeMicros t);
          t1 = (case tabGet fst source (ht_onlineSources t) of
                  Some (_, oldSource) \<Rightarrow>
                    let oldHB = ss_hbPacket oldSource
                    in if IsEqualIgnoreTransients newHB oldHB
                       then let t' = (if hb_isFullyAttached oldHB \<noteq> hb_isFullyAttached newHB
                                      then ScheduleUpdateOfficialPeersList True t else t)
                            in t'\<lparr> ht_onlineSources :=
                                  tabPut fst (source, SetHeartbeatPacket newHB localExpirationTimeMicros oldSource) (ht_onlineSources t') \<rparr>
                       else IntroduceSource source newHB localExpirationTimeMicros (ExpireSource source t)
                | None \<Rightarrow> IntroduceSource source newHB localExpirationTimeMicros t);
          t2 = (if \<not> ht_updateOfficialPeersListPending t1 \<and> pid = GetKingmakerPeerID t1
                then ScheduleUpdateOfficialPeersList False t1 else t1)
      in if pid = thread_GetSeniorPeerID t2 then ScheduleUpdateToNetworkTimeOffset t2 else t2)"

definition receiveDatagram ::
  "('u, 'ip) hb_lib \<Rightarrow> bytes \<Rightarrow> 'ip \<Rightarrow> u64 \<Rightarrow> 'ip hb_thread \<Rightarrow> 'ip hb_thread option" where
  "receiveDatagram L buf sourceIAP localReceiveTimeMicros t =
     (case ParseHeartbeatPacketBuffer (hl_wire L) (hl_satmul32 L) (hl_csum L) (hl_inflate L) buf sourceIAP localReceiveTimeMicros of
        Inl _ \<Rightarrow> Some t
      | Inr newHB \<Rightarrow>
          if hb_versionCode newHB \<noteq> hbs_versionCode (ht_hbSettings t) then Some t
          else if hb_systemKey newHB = hbs_systemKey (ht_hbSettings t)
          then let source = PZGHeartbeatSourceKey sourceIAP (hb_sourcePeerID newHB)
               in map_option (noteHeartbeat source newHB localReceiveTimeMicros)
                    (measureRoundTrip L source newHB localReceiveTimeMicros t)
          else Some t)"

text \<open>What \<open>Read\<close> returns on a socket, each with its source address and the clock afterwards.\<close>

datatype 'ip read_result = ReadBytes bytes 'ip u64 | ReadError

fun ReceiveMulticastTraffic :: "('u, 'ip) hb_lib \<Rightarrow> 'ip read_result list \<Rightarrow> 'ip hb_thread \<Rightarrow> 'ip hb_thread option" where
  "ReceiveMulticastTraffic L [] t = Some t"
| "ReceiveMulticastTraffic L (ReadError # rs) t = Some t"
| "ReceiveMulticastTraffic L (ReadBytes buf ip now # rs) t =
     (if buf = [] then Some t
      else Option.bind (receiveDatagram L buf ip now t) (ReceiveMulticastTraffic L rs))"

section \<open>Sending\<close>

text \<open>The loop of \<open>EnsureHeartbeatSourceTagsTableUpdated\<close> over destinations that have gone.\<close>

definition dropDestination :: "'ip list \<Rightarrow> 'ip \<times> u16 \<Rightarrow> 'ip hb_thread \<Rightarrow> 'ip hb_thread" where
  "dropDestination dests e t =
     (case e of (iap, tag) \<Rightarrow>
        if iap \<in> set dests then t
        else t\<lparr> ht_onlineSources := map (\<lambda>(k, ss). (k, DiscardRoundTripTimeAverager iap ss)) (ht_onlineSources t),
                ht_heartbeatSourceDestToTag := tabRemove fst iap (ht_heartbeatSourceDestToTag t),
                ht_heartbeatSourceTagToDest := tabRemove fst tag (ht_heartbeatSourceTagToDest t) \<rparr>)"

definition addDestination :: "'ip \<Rightarrow> 'ip hb_thread \<Rightarrow> 'ip hb_thread" where
  "addDestination iap t =
     (if tabHas fst iap (ht_heartbeatSourceDestToTag t) then t
      else let counter = ht_heartbeatSourceTagCounter t + 1;
               nextTag = (if counter = 0 then 1 else counter)
           in t\<lparr> ht_heartbeatSourceTagCounter := nextTag,
                 ht_heartbeatSourceTagToDest := tabPut fst (nextTag, iap) (ht_heartbeatSourceTagToDest t),
                 ht_heartbeatSourceDestToTag := tabPut fst (iap, nextTag) (ht_heartbeatSourceDestToTag t) \<rparr>)"

definition EnsureHeartbeatSourceTagsTableUpdated :: "('u, 'ip) hb_lib \<Rightarrow> 'ip hb_thread \<Rightarrow> 'ip hb_thread" where
  "EnsureHeartbeatSourceTagsTableUpdated L t =
     (if ht_multicastDataIOs t = ht_mdioKeys t then t
      else let t1 = t\<lparr> ht_mdioKeys := ht_multicastDataIOs t \<rparr>;
               dests = filter (hl_ipValid L) (map dio_dest (ht_multicastDataIOs t1));
               t2 = fold (dropDestination dests) (ht_heartbeatSourceDestToTag t1) t1
           in if ht_multicastDataIOs t2 \<noteq> [] then fold addDestination dests t2 else t2)"

text \<open>The peers a full, half-attached peer lists in its packet, each with its timing replies.\<close>

fun listPeers :: "ZGPeerID list \<Rightarrow> 'ip hb_thread \<Rightarrow> PZGHeartbeatPeerInfo list \<times> 'ip hb_thread" where
  "listPeers [] t = ([], t)"
| "listPeers (pid # pids) t =
     (let (info, t1) = GetPZGHeartbeatPeerInfoRefFor (ht_now t) pid t;
          (infos, t2) = listPeers pids t1
      in (info # infos, t2))"

definition sendTimesPut :: "u32 \<Rightarrow> u64 \<Rightarrow> (u32 \<times> u64) list \<Rightarrow> (u32 \<times> u64) list" where
  "sendTimesPut packetID now sent =
     (let sent' = tabPut fst (packetID, now) sent in if length sent' > 100 then tl sent' else sent')"

text \<open>
  \<open>SendHeartbeatPackets\<close> returns its status and the datagrams written, each with its
  destination; \<open>clock\<close> is the local time at each write.
\<close>

definition SendHeartbeatPackets ::
  "('u, 'ip) hb_lib \<Rightarrow> (nat \<Rightarrow> u64) \<Rightarrow> 'ip hb_thread \<Rightarrow> status_t \<times> ('ip \<times> bytes) list \<times> 'ip hb_thread" where
  "SendHeartbeatPackets L clock t0 =
     (if ht_multicastDataIOs t0 = [] then (B_NO_ERROR, [], t0)
      else let packetID = ht_outgoingPacketIDCounter t0 + 1;
               t = t0\<lparr> ht_outgoingPacketIDCounter := packetID \<rparr>;
               hb = hb_Initialize (ht_hbSettings t)
                      (ucast ((ht_now t - ht_birthdate t) div MICROS_PER_SECOND)) (IsFullyAttached t) packetID newPZGHeartbeatPacket;
               (infos, t1) = (if hbs_peerType (ht_hbSettings t) = PEER_TYPE_FULL_PEER \<and> ht_now t \<ge> ht_halfAttachedTime t
                              then let (pids, t') = CalculateOrderedPeersList L t in listPeers pids t'
                              else ([], t));
               hb' = hb\<lparr> hb_orderedPeersList := infos \<rparr>
           in (case hl_deflate L (hb_Flatten (hl_wire L) hb') of
                 Inl st \<Rightarrow> (st, [], t1)
               | Inr deflated \<Rightarrow>
                   let t2 = EnsureHeartbeatSourceTagsTableUpdated L t1;
                       writes = concat (map (\<lambda>i.
                         let dest = dio_dest (ht_multicastDataIOs t2 ! i)
                         in (case tabGet fst dest (ht_heartbeatSourceDestToTag t2) of
                               None \<Rightarrow> []
                             | Some (_, tag) \<Rightarrow>
                                 [(dest, exportHeartbeat (hl_wire L) (hl_csum L) tag
                                           (ht_GetNetworkTime64ForRunTime64 t2 (clock i)) deflated)]))
                         [0..<length (ht_multicastDataIOs t2)])
                   in (B_NO_ERROR, writes,
                       t2\<lparr> ht_recentlySentHeartbeatLocalSendTimes :=
                             sendTimesPut packetID (ht_now t2) (ht_recentlySentHeartbeatLocalSendTimes t2) \<rparr>)))"

section \<open>The network clock and the official list\<close>

text \<open>The preferred average of one source; the averager caches its result and may be moved.\<close>

definition sourceAverage ::
  "('u, 'ip) hb_lib \<Rightarrow> u64 \<Rightarrow> 'ip PZGHeartbeatSourceKey \<Rightarrow> 'ip PZGHeartbeatSourceState \<Rightarrow> 'ip hb_thread \<Rightarrow> u64 \<times> 'ip hb_thread" where
  "sourceAverage L since key ss t =
     (let (avg, ss') = GetPreferredAverageValue L since ss
      in (avg, t\<lparr> ht_onlineSources := tabPut fst (key, ss') (ht_onlineSources t) \<rparr>))"

definition firstSource :: "ZGPeerID \<Rightarrow> 'ip hb_thread \<Rightarrow> ('ip PZGHeartbeatSourceKey \<times> 'ip PZGHeartbeatSourceState) option" where
  "firstSource pid t =
     (case tabGet fst pid (ht_peerIDToIPAddresses t) of
        Some (_, ip # _) \<Rightarrow> tabGet fst (PZGHeartbeatSourceKey ip pid) (ht_onlineSources t)
      | _ \<Rightarrow> None)"

definition UpdateToNetworkTimeOffset :: "('u, 'ip) hb_lib \<Rightarrow> 'ip hb_thread \<Rightarrow> 'ip hb_thread" where
  "UpdateToNetworkTimeOffset L t0 =
     (let t = t0\<lparr> ht_updateToNetworkTimeOffsetPending := False \<rparr>
      in if \<not> IsAtLeastHalfAttached t then t
         else if IAmTheSeniorPeer t then t\<lparr> ht_toNetworkTimeOffset := 0, ht_mainThreadToNetworkTimeOffset := 0 \<rparr>
         else (case firstSource (thread_GetSeniorPeerID t) t of
                 None \<Rightarrow> t
               | Some (key, hss) \<Rightarrow>
                   let (roundTripTimeMicros, t1) = sourceAverage L (ht_now t - ht_heartbeatExpirationTimeMicros t) key hss t;
                       seniorHB = ss_hbPacket hss;
                       offset = hb_networkSendTimeMicros seniorHB - (hb_localReceiveTimeMicros seniorHB - roundTripTimeMicros div 2)
                   in t1\<lparr> ht_toNetworkTimeOffset := offset, ht_mainThreadToNetworkTimeOffset := offset \<rparr>))"

definition sourcesOf :: "ZGPeerID list \<Rightarrow> 'ip hb_thread \<Rightarrow> 'ip PZGHeartbeatSourceKey list" where
  "sourcesOf idQ t =
     fold (\<lambda>pid peers. case tabGet fst pid (ht_peerIDToIPAddresses t) of
         None \<Rightarrow> peers
       | Some (_, q) \<Rightarrow> fold (\<lambda>ip. tabPut id (PZGHeartbeatSourceKey ip pid)) q peers) idQ []"

text \<open>The packets of a \<^verbatim>\<open>PZG_HEARTBEAT_COMMAND_PEERS_UPDATE\<close> message, if one is due.\<close>

definition UpdateOfficialPeersList ::
  "('u, 'ip) hb_lib \<Rightarrow> bool \<Rightarrow> 'ip hb_thread \<Rightarrow> 'ip PZGHeartbeatPacketWithMetaData list option \<times> 'ip hb_thread" where
  "UpdateOfficialPeersList L forceUpdate t0 =
     (let (idQ, t) = CalculateOrderedPeersList L t0;
          newPeers = sourcesOf idQ t;
          (ret, t1) =
            (if forceUpdate \<or> \<not> hl_sameTable L newPeers (ht_lastSourcesSentToMaster t)
             then let t' = t\<lparr> ht_lastSourcesSentToMaster := newPeers \<rparr>
                  in (if IsFullyAttached t'
                      then Some (filter hb_isFullyAttached
                             (map (\<lambda>(_, ss). ss_hbPacket ss) (List.map_filter (\<lambda>k. tabGet fst k (ht_onlineSources t')) newPeers)))
                      else None, t')
             else (None, t))
      in (ret, UpdateToNetworkTimeOffset L t1))"

section \<open>Pulse\<close>

definition updateLatency :: "('u, 'ip) hb_lib \<Rightarrow> ZGPeerID \<Rightarrow> 'ip hb_thread \<Rightarrow> 'ip hb_thread" where
  "updateLatency L pid t =
     (let (l, t1) = (case firstSource pid t of
                       None \<Rightarrow> (MUSCLE_TIME_NEVER, t)
                     | Some (key, hss) \<Rightarrow> sourceAverage L 0 key hss t)
      in t1\<lparr> ht_mainThreadLatencies := tabPut fst (pid, l) (ht_mainThreadLatencies t1) \<rparr>)"

definition expireSources :: "'ip hb_thread \<Rightarrow> 'ip hb_thread" where
  "expireSources t =
     fold (\<lambda>(k, ss) t'. if ht_now t' \<ge> ss_localExpirationTimeMicros ss then ExpireSource k t' else t') (ht_onlineSources t) t"

definition ht_Pulse ::
  "('u, 'ip) hb_lib \<Rightarrow> (nat \<Rightarrow> u64) \<Rightarrow> 'ip hb_thread \<Rightarrow>
   'ip PZGHeartbeatPacketWithMetaData list option \<times> ('ip \<times> bytes) list \<times> 'ip hb_thread" where
  "ht_Pulse L clock t =
     (let (msg, t1) =
            (if ht_updateOfficialPeersListPending t
             then UpdateOfficialPeersList L (ht_forceOfficialPeersUpdate t)
                    (t\<lparr> ht_updateOfficialPeersListPending := False, ht_forceOfficialPeersUpdate := False \<rparr>)
             else (None, t));
          t2 = (if ht_updateToNetworkTimeOffsetPending t1 then UpdateToNetworkTimeOffset L t1 else t1);
          (writes, t3) =
            (if ht_now t2 \<ge> ht_nextSendHeartbeatTime t2
             then let (_, writes, t') = SendHeartbeatPackets L clock
                        (t2\<lparr> ht_nextSendHeartbeatTime := ht_now t2 + ht_heartbeatPingInterval t2 \<rparr>)
                  in (writes, fold (updateLatency L) (map fst (ht_peerIDToIPAddresses t')) t')
             else ([], t2));
          t4 = expireSources t3;
          t5 = (if \<not> ht_fullAttachmentReported t4 \<and> IsFullyAttached t4
                then ScheduleUpdateOfficialPeersList True (t4\<lparr> ht_fullAttachmentReported := True \<rparr>) else t4)
      in (msg, writes, t5))"

definition ht_MessageReceivedFromOwner :: "u32 \<Rightarrow> 'ip hb_thread \<Rightarrow> 'ip hb_thread" where
  "ht_MessageReceivedFromOwner code t =
     (if code = PZG_THREADED_SESSION_RECREATE_SOCKETS then t\<lparr> ht_recreateMulticastDataIOsRequested := True \<rparr> else t)"

section \<open>One turn of the thread\<close>

text \<open>
  The inputs of a turn of \<^verbatim>\<open>PZGHeartbeatSession::InternalThreadEntry\<close>: the sockets a
  recreation gives, the clock after the wait and at each write, the message that ended the
  wait, and what the ready sockets return.  The turn gives the message and the datagrams
  \<open>Pulse\<close> produced and the new state.  The time-synchronisation socket is not modelled.
\<close>

record 'ip hb_turn =
  turn_newDataIOs :: "'ip mdio list"
  turn_time :: u64
  turn_clock :: "nat \<Rightarrow> u64"
  turn_ownerMessage :: "u32 option"
  turn_reads :: "'ip read_result list list"

fun serveSockets :: "('u, 'ip) hb_lib \<Rightarrow> 'ip read_result list list \<Rightarrow> 'ip hb_thread \<Rightarrow> 'ip hb_thread option" where
  "serveSockets L [] t = Some t"
| "serveSockets L (rs # rss) t = Option.bind (ReceiveMulticastTraffic L rs t) (serveSockets L rss)"

definition hbTurn ::
  "('u, 'ip) hb_lib \<Rightarrow> 'ip hb_turn \<Rightarrow> 'ip hb_thread \<Rightarrow>
   ('ip PZGHeartbeatPacketWithMetaData list option \<times> ('ip \<times> bytes) list \<times> 'ip hb_thread) option" where
  "hbTurn L i t =
     (let t1 = (if ht_recreateMulticastDataIOsRequested t
                then t\<lparr> ht_recreateMulticastDataIOsRequested := False, ht_multicastDataIOs := turn_newDataIOs i \<rparr> else t);
          pulseTime = GetPulseTime t1;
          t2 = t1\<lparr> ht_now := turn_time i \<rparr>;
          (msg, writes, t3) = (if ht_now t2 \<ge> pulseTime then ht_Pulse L (turn_clock i) t2 else (None, [], t2));
          t4 = (case turn_ownerMessage i of None \<Rightarrow> t3 | Some code \<Rightarrow> ht_MessageReceivedFromOwner code t3)
      in map_option (\<lambda>t5. (msg, writes, t5)) (serveSockets L (turn_reads i) t4))"

end
