(* ===== verification/ZG_Heartbeat.thy ===== *)
theory ZG_Heartbeat
  imports ZG_HeartbeatThread "HOL-Library.Multiset"
begin

text \<open>
  What the heartbeat thread keeps true.  \<open>hbOK\<close> ties its tables together: a peer is listed
  exactly with the addresses it is heard from, every source is stored under the ID its packet
  names, latencies are kept for known peers only, and the caches respect their limits.  Every
  operation preserves it and every turn returns.  Then: the order of the peers and the
  kingmaker rule, expiry of silent sources, and the offset to the network clock.
\<close>

section \<open>The invariant\<close>

definition ssOK :: "'ip PZGHeartbeatSourceState \<Rightarrow> bool" where
  "ssOK ss \<longleftrightarrow> ss_maxMeasurements ss = 20 \<and>
     (\<forall>(ip, r) \<in> set (ss_rttAveragers ss). ta_maxMeasurements r = 20 \<and> length (ta_measurements r) \<le> 20)"

definition hbOK :: "'ip hb_thread \<Rightarrow> bool" where
  "hbOK t \<longleftrightarrow>
     tabInv fst (ht_onlineSources t) \<and> tabInv fst (ht_peerIDToIPAddresses t) \<and>
     (\<forall>k k' ss. tabGet fst k (ht_onlineSources t) = Some (k', ss) \<longrightarrow>
        hb_sourcePeerID (ss_hbPacket ss) = src_peerID k \<and> ssOK ss) \<and>
     (\<forall>pid pid' ips. tabGet fst pid (ht_peerIDToIPAddresses t) = Some (pid', ips) \<longrightarrow> ips \<noteq> [] \<and> distinct ips) \<and>
     (\<forall>ip pid. tabHas fst (PZGHeartbeatSourceKey ip pid) (ht_onlineSources t) \<longleftrightarrow>
        (\<exists>ips. tabGet fst pid (ht_peerIDToIPAddresses t) = Some (pid, ips) \<and> ip \<in> set ips)) \<and>
     (\<forall>pid. tabHas fst pid (ht_mainThreadLatencies t) \<longrightarrow> tabHas fst pid (ht_peerIDToIPAddresses t)) \<and>
     length (ht_recentlySentHeartbeatLocalSendTimes t) \<le> 100"

text \<open>\<open>hbOK\<close> depends on four tables only.\<close>

lemma hbOK_cong:
  "ht_onlineSources t' = ht_onlineSources t \<Longrightarrow> ht_peerIDToIPAddresses t' = ht_peerIDToIPAddresses t \<Longrightarrow>
   ht_mainThreadLatencies t' = ht_mainThreadLatencies t \<Longrightarrow>
   ht_recentlySentHeartbeatLocalSendTimes t' = ht_recentlySentHeartbeatLocalSendTimes t \<Longrightarrow> hbOK t' \<longleftrightarrow> hbOK t"
  by (simp add: hbOK_def)

lemma hbOK_updates [simp]:
  "hbOK (t\<lparr> ht_hbSettings := s \<rparr>) = hbOK t" "hbOK (t\<lparr> ht_outgoingPacketIDCounter := c \<rparr>) = hbOK t"
  "hbOK (t\<lparr> ht_nextSendHeartbeatTime := n \<rparr>) = hbOK t" "hbOK (t\<lparr> ht_now := n \<rparr>) = hbOK t"
  "hbOK (t\<lparr> ht_fullAttachmentReported := b \<rparr>) = hbOK t" "hbOK (t\<lparr> ht_toNetworkTimeOffset := n \<rparr>) = hbOK t"
  "hbOK (t\<lparr> ht_mainThreadToNetworkTimeOffset := n \<rparr>) = hbOK t"
  "hbOK (t\<lparr> ht_updateToNetworkTimeOffsetPending := b \<rparr>) = hbOK t" "hbOK (t\<lparr> ht_multicastDataIOs := ds \<rparr>) = hbOK t"
  "hbOK (t\<lparr> ht_recreateMulticastDataIOsRequested := b \<rparr>) = hbOK t"
  "hbOK (t\<lparr> ht_updateOfficialPeersListPending := b \<rparr>) = hbOK t" "hbOK (t\<lparr> ht_forceOfficialPeersUpdate := b \<rparr>) = hbOK t"
  "hbOK (t\<lparr> ht_lastSourcesSentToMaster := ks \<rparr>) = hbOK t" "hbOK (t\<lparr> ht_heartbeatSourceTagCounter := u \<rparr>) = hbOK t"
  "hbOK (t\<lparr> ht_mdioKeys := ds \<rparr>) = hbOK t" "hbOK (t\<lparr> ht_heartbeatSourceTagToDest := td \<rparr>) = hbOK t"
  "hbOK (t\<lparr> ht_heartbeatSourceDestToTag := dt \<rparr>) = hbOK t"
  by (rule hbOK_cong; simp)+

lemma ScheduleUpdateOfficialPeersList_OK [simp]: "hbOK (ScheduleUpdateOfficialPeersList b t) = hbOK t"
  by (simp add: ScheduleUpdateOfficialPeersList_def)

lemma ScheduleUpdateToNetworkTimeOffset_OK [simp]: "hbOK (ScheduleUpdateToNetworkTimeOffset t) = hbOK t"
  by (simp add: ScheduleUpdateToNetworkTimeOffset_def)

lemma hbOK_source:
  "hbOK t \<Longrightarrow> tabGet fst k (ht_onlineSources t) = Some (k', ss) \<Longrightarrow> k' = k \<and> hb_sourcePeerID (ss_hbPacket ss) = src_peerID k \<and> ssOK ss"
  by (auto simp: hbOK_def dest: tabGet_SomeD)

text \<open>Replacing the state of a known source.\<close>

lemma hbOK_replace:
  assumes "hbOK t" "tabHas fst k (ht_onlineSources t)" "hb_sourcePeerID (ss_hbPacket ss) = src_peerID k" "ssOK ss"
  shows "hbOK (t\<lparr> ht_onlineSources := tabPut fst (k, ss) (ht_onlineSources t) \<rparr>)"
proof -
  have "tabHas fst k' (tabPut fst (k, ss) (ht_onlineSources t)) \<longleftrightarrow> tabHas fst k' (ht_onlineSources t)" for k'
    using assms(2) by (simp add: tabGet_tabPut del: not_None_eq)
  then show ?thesis
    using assms unfolding hbOK_def by (simp add: tabGet_tabPut tabInv_tabPut del: not_None_eq)
qed

section \<open>Averagers of a source\<close>

lemma AddMeasurement_returns:
  assumes "ta_maxMeasurements r = 20" "length (ta_measurements r) \<le> 20"
  shows "\<exists>r'. ta_AddMeasurement satadd m now r = Some r' \<and> ta_maxMeasurements r' = 20 \<and> length (ta_measurements r') \<le> 20"
proof -
  have "makeRoom r = Some (if length (ta_measurements r) = 20 then RemoveOldMeasurement r else r)"
    using makeRoom_full [of r] assms by simp
  then show ?thesis
    using assms by (auto simp: ta_AddMeasurement_def RemoveOldMeasurement_def split: list.splits)
qed

lemma in_tabPut: "e \<in> set (tabPut key x es) \<Longrightarrow> e = x \<or> e \<in> set es"
  by (induction es) (auto split: if_splits)

lemma ss_AddMeasurement_returns:
  assumes "ssOK ss"
  shows "\<exists>ss'. ss_AddMeasurement satadd ip m now ss = Some ss' \<and> ssOK ss' \<and> ss_hbPacket ss' = ss_hbPacket ss"
proof -
  define r where "r = (case tabGet fst ip (ss_rttAveragers ss) of None \<Rightarrow> newZGTimeAverager (ss_maxMeasurements ss) | Some (_, r) \<Rightarrow> r)"
  have "ta_maxMeasurements r = 20" "length (ta_measurements r) \<le> 20"
    using assms by (auto simp: r_def ssOK_def newZGTimeAverager_def split: option.splits dest: tabGet_SomeD)
  then obtain r' where "ta_AddMeasurement satadd m now r = Some r'" "ta_maxMeasurements r' = 20" "length (ta_measurements r') \<le> 20"
    using AddMeasurement_returns by blast
  then show ?thesis
    using assms by (auto simp: ss_AddMeasurement_def ssOK_def r_def [symmetric] dest!: in_tabPut)
qed

lemma GetPreferredAverageValue_OK:
  assumes "GetPreferredAverageValue L since ss = (avg, ss')" "ssOK ss"
  shows "ssOK ss' \<and> ss_hbPacket ss' = ss_hbPacket ss \<and> ss_localExpirationTimeMicros ss' = ss_localExpirationTimeMicros ss"
proof -
  let ?stale = "\<lambda>(_, r). ta_lastMeasurementTime r < since"
  have sub: "set (takeWhile ?stale (ss_rttAveragers ss)) \<subseteq> set (ss_rttAveragers ss)"
    "set (dropWhile ?stale (ss_rttAveragers ss)) \<subseteq> set (ss_rttAveragers ss)"
    by (auto dest: set_takeWhileD set_dropWhileD)
  show ?thesis
  proof (cases "dropWhile ?stale (ss_rttAveragers ss)")
    case Nil
    show ?thesis
      using assms by (simp add: GetPreferredAverageValue_def Let_def Nil del: dropWhile_eq_Nil_conv)
  next
    case (Cons e rest)
    obtain ip r where e: "e = (ip, r)"
      by (cases e)
    obtain a r' where r': "GetAverageValueIgnoringOutliers (hl_satadd L) (hl_satmul L) (hl_deviation L) r = (a, r')"
      by (cases "GetAverageValueIgnoringOutliers (hl_satadd L) (hl_satmul L) (hl_deviation L) r")
    then have same: "ta_maxMeasurements r' = ta_maxMeasurements r" "ta_measurements r' = ta_measurements r"
      by (auto simp: GetAverageValueIgnoringOutliers_def Let_def)
    have ss': "ss' = ss\<lparr> ss_rttAveragers := (ip, r') # rest @ takeWhile ?stale (ss_rttAveragers ss) \<rparr>"
      using assms(1) by (simp add: GetPreferredAverageValue_def Let_def Cons e r')
    have "(ip, r) \<in> set (ss_rttAveragers ss)" "set rest \<subseteq> set (ss_rttAveragers ss)"
      using sub(2) Cons e by auto
    then show ?thesis
      using assms(2) same sub(1) unfolding ss' by (fastforce simp: ssOK_def)
  qed
qed

section \<open>Sorting the peers\<close>

lemma tabGet_perm:
  assumes "tabInv key xs" "mset ys = mset xs"
  shows "tabGet key k ys = tabGet key k xs" "tabInv key ys"
proof -
  have "mset (map key ys) = mset (map key xs)"
    using assms(2) by simp
  then show inv: "tabInv key ys"
    using assms(1) unfolding tabInv_def by (metis mset_eq_imp_distinct_iff)
  have set: "set ys = set xs"
    using assms(2) by (rule mset_eq_setD)
  show "tabGet key k ys = tabGet key k xs"
  proof (cases "tabGet key k xs")
    case None
    then have "tabGet key k ys = None"
      using set by (simp add: tabGet_eq_None)
    with None show ?thesis
      by simp
  next
    case (Some e)
    then show ?thesis
      using tabGet_mem [OF inv, of e] set tabGet_SomeD [OF Some] by auto
  qed
qed

lemma mset_insertByKey: "mset (insertByKey cmp x ys) = add_mset x (mset ys)"
  by (induction ys) auto

lemma mset_SortByKey: "mset (SortByKey cmp xs) = mset xs"
  by (induction xs) (auto simp: SortByKey_def mset_insertByKey)

lemma hbOK_sorted:
  assumes "hbOK t"
  shows "hbOK (t\<lparr> ht_peerIDToIPAddresses := SortByKey cmp (ht_peerIDToIPAddresses t) \<rparr>)"
proof -
  have "tabInv fst (ht_peerIDToIPAddresses t)"
    using assms by (simp add: hbOK_def)
  note perm = tabGet_perm [OF this mset_SortByKey]
  show ?thesis
    using assms unfolding hbOK_def by (simp add: perm)
qed

lemma CalculateOrderedPeersList_keeps:
  assumes "CalculateOrderedPeersList L t = (pids, t')"
  shows "(\<exists>ps. mset ps = mset (ht_peerIDToIPAddresses t) \<and> t' = t\<lparr> ht_peerIDToIPAddresses := ps \<rparr>) \<and> (hbOK t \<longrightarrow> hbOK t')"
proof -
  let ?ps = "SortByKey (ComparePeerIDsBySeniority t) (ht_peerIDToIPAddresses t)"
  have "t' = t \<or> t' = t\<lparr> ht_peerIDToIPAddresses := ?ps \<rparr>"
    using assms by (auto simp: CalculateOrderedPeersList_def Let_def split: option.splits if_splits)
  then show ?thesis
  proof
    assume "t' = t"
    then show ?thesis
      by (intro conjI exI [of _ "ht_peerIDToIPAddresses t"]) simp_all
  next
    assume "t' = t\<lparr> ht_peerIDToIPAddresses := ?ps \<rparr>"
    then show ?thesis
      using hbOK_sorted [of t "ComparePeerIDsBySeniority t"] mset_SortByKey by blast
  qed
qed

section \<open>Preservation by the operations\<close>

lemma putTimingReply_OK:
  assumes "hbOK (snd r)"
  shows "hbOK (snd (putTimingReply now pid ip r))"
    and "ht_now (snd (putTimingReply now pid ip r)) = ht_now (snd r)"
proof -
  obtain info t where r: "r = (info, t)"
    by (cases r)
  let ?k = "PZGHeartbeatSourceKey ip pid"
  show "hbOK (snd (putTimingReply now pid ip r))"
  proof (cases "tabGet fst ?k (ht_onlineSources t)")
    case None
    then show ?thesis
      using assms r by (simp add: putTimingReply_def)
  next
    case (Some e)
    then obtain ss where e: "tabGet fst ?k (ht_onlineSources t) = Some (?k, ss)"
      using hbOK_source [of t ?k] assms r by (cases e) auto
    then have "hb_sourcePeerID (ss_hbPacket ss) = src_peerID ?k" "ssOK ss"
      using hbOK_source [of t ?k] assms r by auto
    then have "hbOK (t\<lparr> ht_onlineSources := tabPut fst (?k, ss\<lparr> ss_hbPacket := ss_hbPacket ss\<lparr> hb_haveSentTimingReply := True \<rparr> \<rparr>)
        (ht_onlineSources t) \<rparr>)"
      using assms r e by (intro hbOK_replace) (auto simp: ssOK_def)
    then show ?thesis
      using assms r e by (simp add: putTimingReply_def Let_def)
  qed
  show "ht_now (snd (putTimingReply now pid ip r)) = ht_now (snd r)"
    by (simp add: putTimingReply_def r Let_def split: option.splits)
qed

lemma putTimingReplies_OK:
  "hbOK (snd r) \<Longrightarrow> hbOK (snd (fold (putTimingReply now pid) ips r)) \<and>
     ht_now (snd (fold (putTimingReply now pid) ips r)) = ht_now (snd r)"
  by (induction ips arbitrary: r) (simp_all add: putTimingReply_OK)

lemma GetPZGHeartbeatPeerInfoRefFor_OK:
  "GetPZGHeartbeatPeerInfoRefFor now pid t = (info, t') \<Longrightarrow> hbOK t \<Longrightarrow> hbOK t' \<and> ht_now t' = ht_now t"
  using putTimingReplies_OK [of "(\<lparr> pi_peerID = pid, pi_timings = [] \<rparr>, t)" now pid]
  by (auto simp: GetPZGHeartbeatPeerInfoRefFor_def split: option.splits) (metis snd_conv)+

lemma listPeers_OK: "listPeers pids t = (infos, t') \<Longrightarrow> hbOK t \<Longrightarrow> hbOK t' \<and> ht_now t' = ht_now t"
  by (induction pids arbitrary: t infos)
    (auto simp: Let_def split: prod.splits dest!: GetPZGHeartbeatPeerInfoRefFor_OK)

lemma hbOK_mapSources:
  assumes "hbOK t" "\<And>ss. ssOK ss \<Longrightarrow> ssOK (f ss)" "\<And>ss. ss_hbPacket (f ss) = ss_hbPacket ss"
  shows "hbOK (t\<lparr> ht_onlineSources := map (\<lambda>(k, ss). (k, f ss)) (ht_onlineSources t) \<rparr>)"
proof -
  let ?g = "\<lambda>(k, ss). (k, f ss)"
  have get: "tabGet fst k (map ?g es) = map_option ?g (tabGet fst k es)" for k and es :: "('a PZGHeartbeatSourceKey \<times> 'a PZGHeartbeatSourceState) list"
    by (induction es) auto
  have "map fst (map ?g es) = map fst es" for es :: "('a PZGHeartbeatSourceKey \<times> 'a PZGHeartbeatSourceState) list"
    by (induction es) auto
  then have "tabInv fst (map ?g (ht_onlineSources t)) = tabInv fst (ht_onlineSources t)"
    by (simp only: tabInv_def)
  then show ?thesis
    using assms unfolding hbOK_def by (auto simp: get)
qed

lemma Discard_OK: "ssOK ss \<Longrightarrow> ssOK (DiscardRoundTripTimeAverager ip ss)"
  by (auto simp: ssOK_def DiscardRoundTripTimeAverager_def tabRemove_def)

lemma dropDestination_OK:
  assumes "hbOK t"
  shows "hbOK (dropDestination dests e t)"
proof -
  have "hbOK (t\<lparr> ht_onlineSources := map (\<lambda>(k, ss). (k, DiscardRoundTripTimeAverager ip ss)) (ht_onlineSources t) \<rparr>)" for ip
    using assms by (rule hbOK_mapSources) (simp_all add: Discard_OK, simp add: DiscardRoundTripTimeAverager_def)
  then show ?thesis
    using assms by (cases e) (simp add: dropDestination_def)
qed

lemma addDestination_OK: "hbOK t \<Longrightarrow> hbOK (addDestination ip t)"
  by (simp add: addDestination_def Let_def)

lemma fold_OK: "(\<And>x t. hbOK t \<Longrightarrow> hbOK (f x t)) \<Longrightarrow> hbOK t \<Longrightarrow> hbOK (fold f xs t)"
  by (induction xs arbitrary: t) auto

lemma EnsureTags_OK: "hbOK t \<Longrightarrow> hbOK (EnsureHeartbeatSourceTagsTableUpdated L t)"
  by (simp add: EnsureHeartbeatSourceTagsTableUpdated_def Let_def fold_OK [OF dropDestination_OK] fold_OK [OF addDestination_OK])

lemma length_tabPut: "length (tabPut key x es) \<le> Suc (length es)"
  by (induction es) auto

lemma sendTimesPut_bound: "length sent \<le> 100 \<Longrightarrow> length (sendTimesPut p now sent) \<le> 100"
  using length_tabPut [of fst "(p, now)" sent] by (auto simp: sendTimesPut_def Let_def)

lemma hbOK_sendTimes:
  "hbOK t \<Longrightarrow> hbOK (t\<lparr> ht_recentlySentHeartbeatLocalSendTimes := sendTimesPut p now (ht_recentlySentHeartbeatLocalSendTimes t) \<rparr>)"
  by (simp add: hbOK_def sendTimesPut_bound)

lemma fold_now: "(\<And>x t. ht_now (f x t) = ht_now t) \<Longrightarrow> ht_now (fold f xs t) = ht_now t"
  by (induction xs arbitrary: t) auto

lemma EnsureTags_now: "ht_now (EnsureHeartbeatSourceTagsTableUpdated L t) = ht_now t"
  by (auto simp: EnsureHeartbeatSourceTagsTableUpdated_def Let_def dropDestination_def addDestination_def
      intro!: trans [OF fold_now] split: prod.splits)

lemma SendHeartbeatPackets_OK:
  assumes "SendHeartbeatPackets L clock t = (st, writes, t')" "hbOK t"
  shows "hbOK t' \<and> ht_now t' = ht_now t"
proof (cases "ht_multicastDataIOs t = []")
  case True
  then show ?thesis
    using assms by (simp add: SendHeartbeatPackets_def)
next
  case False
  let ?t = "t\<lparr> ht_outgoingPacketIDCounter := ht_outgoingPacketIDCounter t + 1 \<rparr>"
  define lp where "lp = (if hbs_peerType (ht_hbSettings ?t) = PEER_TYPE_FULL_PEER \<and> ht_now ?t \<ge> ht_halfAttachedTime ?t
    then let (pids, t') = CalculateOrderedPeersList L ?t in listPeers pids t' else ([], ?t))"
  obtain infos t1 where lp': "lp = (infos, t1)"
    by (cases lp)
  obtain pids t'' where ord: "CalculateOrderedPeersList L ?t = (pids, t'')"
    by (cases "CalculateOrderedPeersList L ?t")
  have ok: "hbOK t1" and now: "ht_now t1 = ht_now t"
    using lp' assms(2) CalculateOrderedPeersList_keeps [OF ord] listPeers_OK [of pids t'' infos t1]
    by (auto simp: lp_def ord split: if_splits)
  have "t' = t1 \<or> (\<exists>p now. t' = (EnsureHeartbeatSourceTagsTableUpdated L t1)\<lparr> ht_recentlySentHeartbeatLocalSendTimes :=
      sendTimesPut p now (ht_recentlySentHeartbeatLocalSendTimes (EnsureHeartbeatSourceTagsTableUpdated L t1)) \<rparr>)"
    using assms(1) False unfolding SendHeartbeatPackets_def Let_def lp_def [unfolded Let_def, symmetric] lp'
    by (auto split: sum.splits)
  then show ?thesis
    using ok now hbOK_sendTimes [OF EnsureTags_OK [OF ok, of L]] by (auto simp: EnsureTags_now)
qed

lemma firstSource_has:
  "hbOK t \<Longrightarrow> firstSource pid t = Some (k, ss) \<Longrightarrow>
     tabGet fst k (ht_onlineSources t) = Some (k, ss) \<and> src_peerID k = pid"
  by (auto simp: firstSource_def split: option.splits list.splits) (use hbOK_source in fastforce)+

lemma sourceAverage_OK:
  assumes "sourceAverage L since k ss t = (avg, t')" "hbOK t" "tabGet fst k (ht_onlineSources t) = Some (k, ss)"
  shows "hbOK t' \<and> ht_now t' = ht_now t \<and> ht_peerIDToIPAddresses t' = ht_peerIDToIPAddresses t"
proof -
  obtain a ss' where ss': "GetPreferredAverageValue L since ss = (a, ss')"
    by (cases "GetPreferredAverageValue L since ss")
  have ss: "hb_sourcePeerID (ss_hbPacket ss) = src_peerID k" "ssOK ss"
    using hbOK_source [OF assms(2,3)] by auto
  have "hbOK (t\<lparr> ht_onlineSources := tabPut fst (k, ss') (ht_onlineSources t) \<rparr>)"
    using GetPreferredAverageValue_OK [OF ss' ss(2)] ss(1) assms(2,3) by (intro hbOK_replace) auto
  then show ?thesis
    using assms(1) ss' by (auto simp: sourceAverage_def)
qed

lemma UpdateToNetworkTimeOffset_OK:
  assumes "hbOK t"
  shows "hbOK (UpdateToNetworkTimeOffset L t)" "ht_now (UpdateToNetworkTimeOffset L t) = ht_now t"
proof -
  let ?t = "t\<lparr> ht_updateToNetworkTimeOffsetPending := False \<rparr>"
  have "hbOK (UpdateToNetworkTimeOffset L t) \<and> ht_now (UpdateToNetworkTimeOffset L t) = ht_now t"
  proof (cases "firstSource (thread_GetSeniorPeerID ?t) ?t")
    case None
    then show ?thesis
      using assms by (simp add: UpdateToNetworkTimeOffset_def Let_def)
  next
    case (Some e)
    obtain k ss where e: "e = (k, ss)"
      by (cases e)
    obtain avg t1 where t1: "sourceAverage L (ht_now ?t - ht_heartbeatExpirationTimeMicros ?t) k ss ?t = (avg, t1)"
      by (cases "sourceAverage L (ht_now ?t - ht_heartbeatExpirationTimeMicros ?t) k ss ?t")
    have "hbOK t1 \<and> ht_now t1 = ht_now t"
      using sourceAverage_OK [OF t1] firstSource_has [of ?t] Some e assms by auto
    then show ?thesis
      using assms Some e t1 by (simp add: UpdateToNetworkTimeOffset_def Let_def)
  qed
  then show "hbOK (UpdateToNetworkTimeOffset L t)" "ht_now (UpdateToNetworkTimeOffset L t) = ht_now t"
    by auto
qed

lemma UpdateOfficialPeersList_OK:
  assumes "UpdateOfficialPeersList L force t = (msg, t')" "hbOK t"
  shows "hbOK t' \<and> ht_now t' = ht_now t"
proof -
  obtain idQ t1 where t1: "CalculateOrderedPeersList L t = (idQ, t1)"
    by (cases "CalculateOrderedPeersList L t")
  have ok: "hbOK t1" and now: "ht_now t1 = ht_now t"
    using CalculateOrderedPeersList_keeps [OF t1] assms(2) by auto
  have "t' = UpdateToNetworkTimeOffset L t1 \<or>
      t' = UpdateToNetworkTimeOffset L (t1\<lparr> ht_lastSourcesSentToMaster := sourcesOf idQ t1 \<rparr>)"
    using assms(1) by (auto simp: UpdateOfficialPeersList_def Let_def t1 split: if_splits)
  moreover have "hbOK (t1\<lparr> ht_lastSourcesSentToMaster := sourcesOf idQ t1 \<rparr>)"
    using ok by simp
  ultimately show ?thesis
    using ok now UpdateToNetworkTimeOffset_OK [of t1 L]
      UpdateToNetworkTimeOffset_OK [of "t1\<lparr> ht_lastSourcesSentToMaster := sourcesOf idQ t1 \<rparr>" L] by auto
qed

lemma updateLatency_OK:
  assumes "hbOK t" "pid \<in> fst ` set (ht_peerIDToIPAddresses t)"
  shows "hbOK (updateLatency L pid t) \<and> ht_now (updateLatency L pid t) = ht_now t \<and>
         ht_peerIDToIPAddresses (updateLatency L pid t) = ht_peerIDToIPAddresses t"
proof -
  obtain l t1 where t1: "(case firstSource pid t of None \<Rightarrow> (MUSCLE_TIME_NEVER, t)
      | Some (key, hss) \<Rightarrow> sourceAverage L 0 key hss t) = (l, t1)"
    by fastforce
  have ok: "hbOK t1 \<and> ht_now t1 = ht_now t \<and> ht_peerIDToIPAddresses t1 = ht_peerIDToIPAddresses t"
  proof (cases "firstSource pid t")
    case (Some e)
    obtain k ss where e: "e = (k, ss)"
      by (cases e)
    then have avg: "sourceAverage L 0 k ss t = (l, t1)"
      using t1 Some by simp
    show ?thesis
      using sourceAverage_OK [OF avg assms(1)] firstSource_has [OF assms(1)] Some e by simp
  qed (use t1 assms(1) in simp)
  have "tabHas fst pid (ht_peerIDToIPAddresses t1)"
    using assms(2) ok by (simp add: tabGet_eq_None)
  then have "hbOK (t1\<lparr> ht_mainThreadLatencies := tabPut fst (pid, l) (ht_mainThreadLatencies t1) \<rparr>)"
    using conjunct1 [OF ok] unfolding hbOK_def by (auto simp: tabGet_tabPut simp del: not_None_eq)
  then show ?thesis
    using ok t1 by (simp add: updateLatency_def Let_def)
qed

lemma updateLatencies_OK:
  "hbOK t \<Longrightarrow> set pids \<subseteq> fst ` set (ht_peerIDToIPAddresses t) \<Longrightarrow>
   hbOK (fold (updateLatency L) pids t) \<and> ht_now (fold (updateLatency L) pids t) = ht_now t"
proof (induction pids arbitrary: t)
  case (Cons pid pids)
  then show ?case
    using updateLatency_OK [of t pid L] by simp
qed simp

section \<open>Sources that go and come\<close>

lemma ExpireSource_tables:
  "ht_onlineSources (ExpireSource k t) = tabRemove fst k (ht_onlineSources t)"
  "ht_now (ExpireSource k t) = ht_now t"
  by (auto simp: ExpireSource_def ScheduleUpdateOfficialPeersList_def Let_def tabRemove_def tabGet_eq_None
      split: option.splits intro!: filter_all_conv [symmetric])

lemma ExpireSource_known:
  assumes "tabGet fst (PZGHeartbeatSourceKey ip pid) (ht_onlineSources t) = Some (k, ss)" "hb_sourcePeerID (ss_hbPacket ss) = pid"
    and "tabGet fst pid (ht_peerIDToIPAddresses t) = Some (pid, ips)" "ip \<in> set ips"
  shows "ExpireSource (PZGHeartbeatSourceKey ip pid) t = ScheduleUpdateOfficialPeersList True (t\<lparr>
     ht_onlineSources := tabRemove fst (PZGHeartbeatSourceKey ip pid) (ht_onlineSources t),
     ht_peerIDToIPAddresses := (if remove1 ip ips = [] then tabRemove fst pid (ht_peerIDToIPAddresses t)
       else tabPut fst (pid, remove1 ip ips) (ht_peerIDToIPAddresses t)),
     ht_mainThreadLatencies := (if remove1 ip ips = [] then tabRemove fst pid (ht_mainThreadLatencies t)
       else ht_mainThreadLatencies t) \<rparr>)"
  using assms by (auto simp: ExpireSource_def Let_def intro!: arg_cong [where f = "ScheduleUpdateOfficialPeersList True"])

lemma ExpireSource_OK:
  assumes "hbOK t"
  shows "hbOK (ExpireSource k t)"
proof (cases "tabGet fst k (ht_onlineSources t)")
  case None
  then show ?thesis
    using assms by (simp add: ExpireSource_def)
next
  case (Some e)
  obtain ip pid where k: "k = PZGHeartbeatSourceKey ip pid"
    by (cases k)
  obtain k' ss where e: "tabGet fst (PZGHeartbeatSourceKey ip pid) (ht_onlineSources t) = Some (k', ss)"
    using Some k by (cases e) auto
  have pid: "hb_sourcePeerID (ss_hbPacket ss) = pid"
    using hbOK_source [OF assms e] by simp
  have "tabHas fst (PZGHeartbeatSourceKey ip pid) (ht_onlineSources t)"
    using e by simp
  then obtain ips where ips: "tabGet fst pid (ht_peerIDToIPAddresses t) = Some (pid, ips)" "ip \<in> set ips"
    using assms unfolding hbOK_def by blast
  have dist: "distinct ips"
    using assms ips(1) unfolding hbOK_def by blast
  have mem: "set (remove1 ip ips) = set ips - {ip}" "distinct (remove1 ip ips)"
    using dist by simp_all
  have empty: "remove1 ip ips = [] \<Longrightarrow> set ips = {ip}"
    using mem(1) ips(2) by auto
  have has: "tabHas fst (PZGHeartbeatSourceKey ip' pid') (ht_onlineSources t) \<longleftrightarrow>
      (\<exists>ips. tabGet fst pid' (ht_peerIDToIPAddresses t) = Some (pid', ips) \<and> ip' \<in> set ips)" for ip' pid'
    using assms unfolding hbOK_def by blast
  show ?thesis
    unfolding k ExpireSource_known [OF e pid ips] ScheduleUpdateOfficialPeersList_OK
    using assms ips mem empty unfolding hbOK_def
    by (auto simp: tabGet_tabRemove tabGet_tabPut tabInv_tabRemove tabInv_tabPut has simp del: not_None_eq)
qed

lemma expireSources_fold:
  "ht_onlineSources (fold (\<lambda>(k, ss) t'. if ht_now t' \<ge> ss_localExpirationTimeMicros ss then ExpireSource k t' else t') xs t) =
     filter (\<lambda>(k, _). \<forall>(k', ss') \<in> set xs. k' = k \<longrightarrow> ht_now t < ss_localExpirationTimeMicros ss') (ht_onlineSources t) \<and>
   ht_now (fold (\<lambda>(k, ss) t'. if ht_now t' \<ge> ss_localExpirationTimeMicros ss then ExpireSource k t' else t') xs t) = ht_now t"
proof (induction xs arbitrary: t)
  case (Cons x xs)
  obtain k ss where x: "x = (k, ss)"
    by (cases x)
  show ?case
    by (auto simp: Cons x ExpireSource_tables tabRemove_def not_le intro!: filter_cong)
qed (simp add: case_prod_beta)

lemma expireSources_OK:
  assumes "hbOK t"
  shows "hbOK (expireSources t)" "ht_now (expireSources t) = ht_now t"
    "tabGet fst k (ht_onlineSources (expireSources t)) = Some (k', ss) \<Longrightarrow> ht_now t < ss_localExpirationTimeMicros ss"
proof -
  show "hbOK (expireSources t)"
    unfolding expireSources_def using assms by (intro fold_OK) (auto simp: ExpireSource_OK)
  show "ht_now (expireSources t) = ht_now t"
    using expireSources_fold [of "ht_onlineSources t" t] unfolding expireSources_def by blast
  assume "tabGet fst k (ht_onlineSources (expireSources t)) = Some (k', ss)"
  then show "ht_now t < ss_localExpirationTimeMicros ss"
    using expireSources_fold [of "ht_onlineSources t" t] unfolding expireSources_def
    by (fastforce dest: tabGet_SomeD)
qed

lemma IntroduceSource_OK:
  assumes "hbOK t" "\<not> tabHas fst k (ht_onlineSources t)" "hb_sourcePeerID newHB = src_peerID k"
  shows "hbOK (IntroduceSource k newHB expiry t)"
proof -
  obtain ip pid where k: "k = PZGHeartbeatSourceKey ip pid"
    by (cases k)
  define q where "q = (case tabGet fst pid (ht_peerIDToIPAddresses t) of None \<Rightarrow> [] | Some (_, q) \<Rightarrow> q)"
  have pids: "tabGet fst pid' (ht_peerIDToIPAddresses t) = Some (p, ips) \<Longrightarrow> p = pid'" for pid' p ips
    by (auto dest: tabGet_SomeD)
  have has: "tabHas fst (PZGHeartbeatSourceKey ip' pid') (ht_onlineSources t) \<longleftrightarrow>
      (\<exists>ips. tabGet fst pid' (ht_peerIDToIPAddresses t) = Some (pid', ips) \<and> ip' \<in> set ips)" for ip' pid'
    using assms(1) unfolding hbOK_def by blast
  have q: "distinct q \<and>
      (\<forall>ip'. ip' \<in> set q \<longleftrightarrow> (\<exists>ips. tabGet fst pid (ht_peerIDToIPAddresses t) = Some (pid, ips) \<and> ip' \<in> set ips))"
  proof (cases "tabGet fst pid (ht_peerIDToIPAddresses t)")
    case (Some e)
    then obtain ips where e: "e = (pid, ips)"
      using pids by (cases e) auto
    have "distinct ips"
      using assms(1) Some e unfolding hbOK_def by blast
    then show ?thesis
      using Some e by (simp add: q_def)
  qed (simp add: q_def)
  have "ip \<notin> set q"
    using assms(2) has [of ip pid] q k by blast
  moreover have "ssOK (newPZGHeartbeatSourceState 20 newHB expiry)"
    by (simp add: ssOK_def newPZGHeartbeatSourceState_def)
  moreover have "ss_hbPacket (newPZGHeartbeatSourceState 20 newHB expiry) = newHB"
    by (simp add: newPZGHeartbeatSourceState_def)
  moreover have "IntroduceSource k newHB expiry t = ScheduleUpdateOfficialPeersList True (t\<lparr>
      ht_onlineSources := tabPut fst (k, newPZGHeartbeatSourceState 20 newHB expiry) (ht_onlineSources t),
      ht_peerIDToIPAddresses := tabPut fst (pid, q @ [ip]) (ht_peerIDToIPAddresses t) \<rparr>)"
    using assms(3) by (simp add: IntroduceSource_def Let_def k q_def)
  ultimately show ?thesis
    using assms(1,3) q unfolding hbOK_def
    by (auto simp: tabGet_tabPut tabInv_tabPut has k ScheduleUpdateOfficialPeersList_def simp del: not_None_eq)
qed

lemma noteHeartbeat_OK:
  assumes "hbOK t" "hb_sourcePeerID newHB = src_peerID k"
  shows "hbOK (noteHeartbeat k newHB now t)"
proof -
  let ?exp = "if hb_sourcePeerID newHB = hbs_localPeerID (ht_hbSettings t) then MUSCLE_TIME_NEVER
            else now + ht_heartbeatExpirationTimeMicros t"
  have replace: "hbOK (t'\<lparr> ht_onlineSources := tabPut fst (k, SetHeartbeatPacket newHB e ss) (ht_onlineSources t') \<rparr>)"
    if "hbOK t'" "tabGet fst k (ht_onlineSources t') = Some (k', ss)" for t' k' ss e
    using that assms(2) hbOK_source [OF that] by (intro hbOK_replace) (auto simp: SetHeartbeatPacket_def ssOK_def)
  have known: "hbOK (IntroduceSource k newHB ?exp (ExpireSource k t))"
    using assms by (intro IntroduceSource_OK) (simp_all add: ExpireSource_OK ExpireSource_tables tabGet_tabRemove)
  have fresh: "hbOK (IntroduceSource k newHB ?exp t)" if "tabGet fst k (ht_onlineSources t) = None"
    using assms that by (intro IntroduceSource_OK) simp_all
  show ?thesis
    unfolding noteHeartbeat_def Let_def
    using assms known fresh replace [of t] replace [of "ScheduleUpdateOfficialPeersList True t"]
    by (auto simp: ScheduleUpdateOfficialPeersList_def split: option.splits)
qed

lemma measureRoundTrip_returns:
  assumes "hbOK t"
  shows "\<exists>t'. measureRoundTrip L k newHB now t = Some t' \<and> hbOK t'"
proof -
  have add: "\<exists>t'. map_option (\<lambda>ss'. t\<lparr> ht_onlineSources := tabPut fst (k, ss') (ht_onlineSources t) \<rparr>)
      (ss_AddMeasurement sa ip m n ss) = Some t' \<and> hbOK t'"
    if get: "tabGet fst k (ht_onlineSources t) = Some (k', ss)" for sa ip m n k' ss
  proof -
    have ss: "hb_sourcePeerID (ss_hbPacket ss) = src_peerID k" "ssOK ss"
      using hbOK_source [OF assms get] by auto
    obtain ss' where "ss_AddMeasurement sa ip m n ss = Some ss'" "ssOK ss'" "ss_hbPacket ss' = ss_hbPacket ss"
      using ss_AddMeasurement_returns [OF ss(2)] by blast
    then show ?thesis
      using assms get ss by (auto intro!: hbOK_replace)
  qed
  show ?thesis
    using assms add unfolding measureRoundTrip_def Let_def by (auto split: option.splits)
qed

lemma receiveDatagram_returns:
  assumes "hbOK t"
  shows "\<exists>t'. receiveDatagram L buf ip now t = Some t' \<and> hbOK t'"
proof (cases "ParseHeartbeatPacketBuffer (hl_wire L) (hl_satmul32 L) (hl_csum L) (hl_inflate L) buf ip now")
  case (Inr newHB)
  let ?k = "PZGHeartbeatSourceKey ip (hb_sourcePeerID newHB)"
  obtain t1 where "measureRoundTrip L ?k newHB now t = Some t1" "hbOK t1"
    using measureRoundTrip_returns [OF assms] by blast
  then show ?thesis
    using Inr assms noteHeartbeat_OK [of t1 newHB ?k now] by (simp add: receiveDatagram_def Let_def)
qed (use assms in \<open>simp add: receiveDatagram_def\<close>)

lemma ReceiveMulticastTraffic_returns: "hbOK t \<Longrightarrow> \<exists>t'. ReceiveMulticastTraffic L rs t = Some t' \<and> hbOK t'"
proof (induction L rs t rule: ReceiveMulticastTraffic.induct)
  case (3 L buf ip now rs t)
  then show ?case
    using receiveDatagram_returns [OF "3.prems", of L buf ip now] by auto
qed simp_all

lemma serveSockets_returns: "hbOK t \<Longrightarrow> \<exists>t'. serveSockets L rss t = Some t' \<and> hbOK t'"
proof (induction rss arbitrary: t)
  case (Cons rs rss)
  then show ?case
    using ReceiveMulticastTraffic_returns [of t L rs] by auto
qed simp

section \<open>Pulse and turn\<close>

text \<open>The stages of \<open>Pulse\<close>, up to the state in which the sources that have been silent too long are expired.\<close>

definition pulseUpdates :: "('u, 'ip) hb_lib \<Rightarrow> 'ip hb_thread \<Rightarrow> 'ip PZGHeartbeatPacketWithMetaData list option \<times> 'ip hb_thread" where
  "pulseUpdates L t =
     (if ht_updateOfficialPeersListPending t
      then UpdateOfficialPeersList L (ht_forceOfficialPeersUpdate t)
             (t\<lparr> ht_updateOfficialPeersListPending := False, ht_forceOfficialPeersUpdate := False \<rparr>)
      else (None, t))"

lemma ht_Pulse_stages:
  assumes "ht_Pulse L clock t = (msg, writes, t')"
  obtains m t1 t2 st ws s t3 where "pulseUpdates L t = (m, t1)"
    "t2 = (if ht_updateToNetworkTimeOffsetPending t1 then UpdateToNetworkTimeOffset L t1 else t1)"
    "SendHeartbeatPackets L clock (t2\<lparr> ht_nextSendHeartbeatTime := ht_now t2 + ht_heartbeatPingInterval t2 \<rparr>) = (st, ws, s)"
    "t3 = t2 \<or> t3 = fold (updateLatency L) (map fst (ht_peerIDToIPAddresses s)) s"
    "t' = expireSources t3 \<or> t' = ScheduleUpdateOfficialPeersList True ((expireSources t3)\<lparr> ht_fullAttachmentReported := True \<rparr>)"
proof -
  obtain m t1 where u: "pulseUpdates L t = (m, t1)"
    by (cases "pulseUpdates L t")
  define t2 where "t2 = (if ht_updateToNetworkTimeOffsetPending t1 then UpdateToNetworkTimeOffset L t1 else t1)"
  let ?t2 = "t2\<lparr> ht_nextSendHeartbeatTime := ht_now t2 + ht_heartbeatPingInterval t2 \<rparr>"
  obtain st ws s where s: "SendHeartbeatPackets L clock ?t2 = (st, ws, s)"
    by (cases "SendHeartbeatPackets L clock ?t2")
  define t3 where "t3 = (if ht_now t2 \<ge> ht_nextSendHeartbeatTime t2
    then fold (updateLatency L) (map fst (ht_peerIDToIPAddresses s)) s else t2)"
  have "t' = (if \<not> ht_fullAttachmentReported (expireSources t3) \<and> IsFullyAttached (expireSources t3)
      then ScheduleUpdateOfficialPeersList True ((expireSources t3)\<lparr> ht_fullAttachmentReported := True \<rparr>) else expireSources t3)"
    using assms unfolding ht_Pulse_def Let_def pulseUpdates_def [symmetric] u prod.case t2_def [symmetric] s t3_def
    by (auto split: if_splits)
  then show thesis
    by (intro that [OF u t2_def s, of t3]) (auto simp: t3_def)
qed

lemma pulseUpdates_OK: "pulseUpdates L t = (m, t1) \<Longrightarrow> hbOK t \<Longrightarrow> hbOK t1 \<and> ht_now t1 = ht_now t"
  by (fastforce simp: pulseUpdates_def split: if_splits dest: UpdateOfficialPeersList_OK)

lemma ht_Pulse_expires:
  assumes "ht_Pulse L clock t = (msg, writes, t')" "hbOK t"
  obtains t3 where "hbOK t3" "ht_now t3 = ht_now t" "t' = expireSources t3 \<or>
    t' = ScheduleUpdateOfficialPeersList True ((expireSources t3)\<lparr> ht_fullAttachmentReported := True \<rparr>)"
proof -
  obtain m t1 t2 st ws s t3 where stages: "pulseUpdates L t = (m, t1)"
    "t2 = (if ht_updateToNetworkTimeOffsetPending t1 then UpdateToNetworkTimeOffset L t1 else t1)"
    "SendHeartbeatPackets L clock (t2\<lparr> ht_nextSendHeartbeatTime := ht_now t2 + ht_heartbeatPingInterval t2 \<rparr>) = (st, ws, s)"
    "t3 = t2 \<or> t3 = fold (updateLatency L) (map fst (ht_peerIDToIPAddresses s)) s"
    "t' = expireSources t3 \<or> t' = ScheduleUpdateOfficialPeersList True ((expireSources t3)\<lparr> ht_fullAttachmentReported := True \<rparr>)"
    using ht_Pulse_stages [OF assms(1)] .
  have 2: "hbOK t2 \<and> ht_now t2 = ht_now t"
    using pulseUpdates_OK [OF stages(1) assms(2)] by (simp add: stages(2) UpdateToNetworkTimeOffset_OK)
  then have "hbOK s \<and> ht_now s = ht_now t"
    using SendHeartbeatPackets_OK [OF stages(3)] by simp
  then have "hbOK t3 \<and> ht_now t3 = ht_now t"
    using 2 stages(4) updateLatencies_OK [of s "map fst (ht_peerIDToIPAddresses s)" L] by auto
  then show thesis
    using stages(5) by (intro that [of t3]) blast+
qed

lemma ht_Pulse_OK:
  assumes "ht_Pulse L clock t = (msg, writes, t')" "hbOK t"
  shows "hbOK t'" "ht_now t' = ht_now t"
    "tabGet fst k (ht_onlineSources t') = Some (k', ss) \<Longrightarrow> ht_now t < ss_localExpirationTimeMicros ss"
proof -
  obtain t3 where t3: "hbOK t3" "ht_now t3 = ht_now t" "t' = expireSources t3 \<or>
    t' = ScheduleUpdateOfficialPeersList True ((expireSources t3)\<lparr> ht_fullAttachmentReported := True \<rparr>)"
    using ht_Pulse_expires [OF assms] by blast
  note e = expireSources_OK [OF t3(1)]
  show "hbOK t'"
    using t3(3) e(1) by auto
  show "ht_now t' = ht_now t"
    using t3(2,3) e(2) by (auto simp: ScheduleUpdateOfficialPeersList_def)
  have "ht_onlineSources t' = ht_onlineSources (expireSources t3)"
    using t3(3) by (auto simp: ScheduleUpdateOfficialPeersList_def)
  then show "tabGet fst k (ht_onlineSources t') = Some (k', ss) \<Longrightarrow> ht_now t < ss_localExpirationTimeMicros ss"
    using e(3) t3(2) by simp
qed

lemma hbTurn_returns:
  assumes "hbOK t"
  shows "\<exists>msg writes t'. hbTurn L i t = Some (msg, writes, t') \<and> hbOK t'"
proof -
  define t1 where "t1 = (if ht_recreateMulticastDataIOsRequested t
                then t\<lparr> ht_recreateMulticastDataIOsRequested := False, ht_multicastDataIOs := turn_newDataIOs i \<rparr> else t)"
  let ?t2 = "t1\<lparr> ht_now := turn_time i \<rparr>"
  define p where "p = (if ht_now ?t2 \<ge> GetPulseTime t1 then ht_Pulse L (turn_clock i) ?t2 else (None, [], ?t2))"
  obtain msg writes t3 where p: "p = (msg, writes, t3)"
    by (cases p)
  have "hbOK t3"
    using p assms ht_Pulse_OK by (fastforce simp: p_def t1_def split: if_splits)
  then have "hbOK (case turn_ownerMessage i of None \<Rightarrow> t3 | Some code \<Rightarrow> ht_MessageReceivedFromOwner code t3)"
    by (simp add: ht_MessageReceivedFromOwner_def split: option.splits)
  then obtain t5 where "serveSockets L (turn_reads i)
      (case turn_ownerMessage i of None \<Rightarrow> t3 | Some code \<Rightarrow> ht_MessageReceivedFromOwner code t3) = Some t5" "hbOK t5"
    using serveSockets_returns by blast
  then show ?thesis
    unfolding hbTurn_def Let_def t1_def [symmetric] p_def [symmetric] p by simp
qed

section \<open>Reachable states\<close>

text \<open>A constructed thread object; \<open>Initialize\<close> sets the fields that are not tables.\<close>

definition blankThread :: "hb_settings \<Rightarrow> 'ip hb_thread" where
  "blankThread settings = \<lparr>
     ht_hbSettings = settings, ht_outgoingPacketIDCounter = 0, ht_birthdate = 0, ht_heartbeatPingInterval = 0,
     ht_heartbeatExpirationTimeMicros = 0, ht_nextSendHeartbeatTime = 0, ht_now = 0, ht_halfAttachedTime = 0,
     ht_fullyAttachedTime = 0, ht_fullAttachmentReported = False, ht_toNetworkTimeOffset = 0,
     ht_mainThreadToNetworkTimeOffset = 0, ht_updateToNetworkTimeOffsetPending = False, ht_multicastDataIOs = [],
     ht_recreateMulticastDataIOsRequested = False, ht_recentlySentHeartbeatLocalSendTimes = [], ht_onlineSources = [],
     ht_peerIDToIPAddresses = [], ht_updateOfficialPeersListPending = False, ht_forceOfficialPeersUpdate = False,
     ht_lastSourcesSentToMaster = [], ht_heartbeatSourceTagCounter = 0, ht_mdioKeys = [],
     ht_heartbeatSourceTagToDest = [], ht_heartbeatSourceDestToTag = [], ht_mainThreadLatencies = [] \<rparr>"

inductive hb_reach :: "('u, 'ip) hb_lib \<Rightarrow> 'ip hb_thread \<Rightarrow> bool" for L where
  hb_start: "hb_reach L (ht_Initialize settings startTime (blankThread settings))"
| hb_turn: "hb_reach L t \<Longrightarrow> hbTurn L i t = Some (msg, writes, t') \<Longrightarrow> hb_reach L t'"

lemma hb_reach_OK: "hb_reach L t \<Longrightarrow> hbOK t"
proof (induction rule: hb_reach.induct)
  case (hb_start settings startTime)
  show ?case
    by (simp add: hbOK_def ht_Initialize_def blankThread_def Let_def tabInv_def)
next
  case (hb_turn t i msg writes t')
  then show ?case
    using hbTurn_returns [of t L i] by auto
qed

section \<open>The time of the next turn\<close>

lemma fold_min_le:
  "x \<in> set xs \<Longrightarrow> fold (\<lambda>(_, ss) ret. min ret (f ss)) xs r \<le> f (snd x)"
  "fold (\<lambda>(_, ss) ret. min ret (f ss)) xs r \<le> (r :: u64)"
proof (induction xs arbitrary: r)
  case (Cons y ys)
  {
    case 1
    then show ?case
      using Cons(1) Cons(2) [of "min r (f (snd y))"] by (auto simp: case_prod_beta intro: order_trans)
  next
    case 2
    then show ?case
      using Cons(2) [of "min r (f (snd y))"] by (auto simp: case_prod_beta)
  }
qed simp_all

lemma GetPulseTime_le:
  "tabGet fst k (ht_onlineSources t) = Some (k', ss) \<Longrightarrow> GetPulseTime t \<le> ss_localExpirationTimeMicros ss"
  using fold_min_le(1) [of "(k', ss)" "ht_onlineSources t" ss_localExpirationTimeMicros] tabGet_SomeD
  by (fastforce simp: GetPulseTime_def)

section \<open>The kingmaker\<close>

definition advertised :: "'ip PZGHeartbeatSourceState \<Rightarrow> ZGPeerID list" where
  "advertised ss = map pi_peerID (hb_orderedPeersList (ss_hbPacket ss))"

text \<open>A source is eligible when the peers it lists are those this thread knows.\<close>

definition eligible :: "'ip hb_thread \<Rightarrow> 'ip PZGHeartbeatSourceState \<Rightarrow> bool" where
  "eligible t ss \<longleftrightarrow> PeersListMatchesIgnoreOrdering (hb_orderedPeersList (ss_hbPacket ss)) t"

lemma eligible_iff:
  "eligible t ss \<longleftrightarrow> length (advertised ss) = length (ht_peerIDToIPAddresses t) \<and>
     set (advertised ss) \<subseteq> fst ` set (ht_peerIDToIPAddresses t)"
  by (auto simp: eligible_def advertised_def PeersListMatchesIgnoreOrdering_def tabGet_eq_None simp del: not_None_eq)

lemma kingmaker_fold:
  fixes t :: "'ip hb_thread"
  assumes "\<forall>(k, ss) \<in> set xs. hb_sourcePeerID (ss_hbPacket ss) = src_peerID k \<and> IsValid (src_peerID k)"
  defines "f \<equiv> \<lambda>(k, ss) (ret, minPeerID).
         let hbPacket = ss_hbPacket ss; nextPID = hb_sourcePeerID hbPacket
         in if (\<not> IsValid minPeerID \<or> nextPID < minPeerID) \<and> PeersListMatchesIgnoreOrdering (hb_orderedPeersList hbPacket) t
            then (Some k, nextPID) else (ret, minPeerID)"
  shows "(fold f xs (None, invalidPeerID) = (None, invalidPeerID) \<and> (\<forall>(k, ss) \<in> set xs. \<not> eligible t ss)) \<or>
    (\<exists>k ss. fold f xs (None, invalidPeerID) = (Some k, src_peerID k) \<and> (k, ss) \<in> set xs \<and> eligible t ss \<and>
      (\<forall>(k', ss') \<in> set xs. eligible t ss' \<longrightarrow> src_peerID k \<le> src_peerID k'))"
  using assms(1)
proof (induction xs rule: rev_induct)
  case (snoc x xs)
  obtain kx sx where x: "x = (kx, sx)"
    by (cases x)
  have valid: "IsValid (src_peerID kx)" "hb_sourcePeerID (ss_hbPacket sx) = src_peerID kx"
    using snoc.prems x by auto
  from snoc consider
      "fold f xs (None, invalidPeerID) = (None, invalidPeerID)" "\<forall>(k, ss) \<in> set xs. \<not> eligible t ss"
    | k ss where "fold f xs (None, invalidPeerID) = (Some k, src_peerID k)" "(k, ss) \<in> set xs" "eligible t ss"
        "\<forall>(k', ss') \<in> set xs. eligible t ss' \<longrightarrow> src_peerID k \<le> src_peerID k'"
    by fastforce
  then show ?case
  proof cases
    case 1
    then show ?thesis
      using valid x by (auto simp: f_def eligible_def [symmetric] IsValid_iff)
  next
    case (2 k ss)
    then have "IsValid (src_peerID k)"
      using snoc.prems by auto
    show ?thesis
    proof (cases "eligible t sx \<and> src_peerID kx < src_peerID k")
      case True
      then have "fold f (xs @ [x]) (None, invalidPeerID) = (Some kx, src_peerID kx)"
        using 2(1) valid x by (simp add: f_def eligible_def)
      moreover have "\<forall>(k', ss') \<in> set (xs @ [x]). eligible t ss' \<longrightarrow> src_peerID kx \<le> src_peerID k'"
        using 2(4) True x by (auto dest: less_imp_le intro: order_trans)
      ultimately show ?thesis
        using True x by (intro disjI2 exI [of _ kx] exI [of _ sx]) simp
    next
      case False
      then have "fold f (xs @ [x]) (None, invalidPeerID) = (Some k, src_peerID k)"
        using 2(1) valid x \<open>IsValid (src_peerID k)\<close> by (auto simp: f_def eligible_def)
      then show ?thesis
        using 2 False x by (intro disjI2 exI [of _ k] exI [of _ ss]) auto
    qed
  qed
qed simp

lemma hbOK_members:
  "hbOK t \<Longrightarrow> (k, ss) \<in> set (ht_onlineSources t) \<Longrightarrow> hb_sourcePeerID (ss_hbPacket ss) = src_peerID k"
  using tabGet_mem [of fst "ht_onlineSources t" "(k, ss)"] by (auto simp: hbOK_def)

lemma kingmaker_order:
  assumes "hbOK t" "\<forall>(k, ss) \<in> set (ht_onlineSources t). hl_ipValid L (src_address k) \<and> IsValid (src_peerID k)"
    and "(k0, ss0) \<in> set (ht_onlineSources t)" "eligible t ss0"
  obtains k ss where "(k, ss) \<in> set (ht_onlineSources t)" "eligible t ss"
    "\<And>k' ss'. (k', ss') \<in> set (ht_onlineSources t) \<Longrightarrow> eligible t ss' \<Longrightarrow> src_peerID k \<le> src_peerID k'"
    "CalculateOrderedPeersList L t = (advertised ss, t)"
proof -
  have "\<forall>(k, ss) \<in> set (ht_onlineSources t). hb_sourcePeerID (ss_hbPacket ss) = src_peerID k \<and> IsValid (src_peerID k)"
    using assms(2) hbOK_members [OF assms(1)] by auto
  from kingmaker_fold [OF this] assms(3,4) obtain k ss where
    km: "GetKingmakerPeerSource t = Some k" "(k, ss) \<in> set (ht_onlineSources t)" "eligible t ss"
      "\<forall>(k', ss') \<in> set (ht_onlineSources t). eligible t ss' \<longrightarrow> src_peerID k \<le> src_peerID k'"
    unfolding GetKingmakerPeerSource_def by fastforce
  have "tabGet fst k (ht_onlineSources t) = Some (k, ss)"
    using tabGet_mem [of fst "ht_onlineSources t" "(k, ss)"] km(2) assms(1) by (simp add: hbOK_def)
  then have "CalculateOrderedPeersList L t = (advertised ss, t)"
    using assms(2) km(1,2) by (auto simp: CalculateOrderedPeersList_def advertised_def)
  then show thesis
    using km by (intro that [of k ss]) auto
qed

lemma online_peers:
  assumes "hbOK t"
  shows "src_peerID ` fst ` set (ht_onlineSources t) = fst ` set (ht_peerIDToIPAddresses t)"
proof -
  have keys: "pid \<in> src_peerID ` K \<longleftrightarrow> (\<exists>ip. PZGHeartbeatSourceKey ip pid \<in> K)" for pid and K :: "'a PZGHeartbeatSourceKey set"
    by (auto simp: image_iff) (metis PZGHeartbeatSourceKey.collapse, metis PZGHeartbeatSourceKey.sel(2))
  have has: "k \<in> fst ` set es \<longleftrightarrow> tabHas fst k es" for k :: 'c and es :: "('c \<times> 'd) list"
    by (simp add: tabGet_eq_None del: not_None_eq)
  have nonempty: "(\<exists>ip ips. tabGet fst pid (ht_peerIDToIPAddresses t) = Some (pid, ips) \<and> ip \<in> set ips) \<longleftrightarrow>
      tabHas fst pid (ht_peerIDToIPAddresses t)" for pid
  proof
    assume "tabHas fst pid (ht_peerIDToIPAddresses t)"
    then obtain p ips where p: "tabGet fst pid (ht_peerIDToIPAddresses t) = Some (p, ips)"
      by auto
    then have ips: "tabGet fst pid (ht_peerIDToIPAddresses t) = Some (pid, ips)"
      using tabGet_SomeD [OF p] by simp
    then have "ips \<noteq> []"
      using assms unfolding hbOK_def by blast
    then show "\<exists>ip ips. tabGet fst pid (ht_peerIDToIPAddresses t) = Some (pid, ips) \<and> ip \<in> set ips"
      using ips by (auto intro: hd_in_set)
  qed auto
  have "tabHas fst (PZGHeartbeatSourceKey ip pid) (ht_onlineSources t) \<longleftrightarrow>
      (\<exists>ips. tabGet fst pid (ht_peerIDToIPAddresses t) = Some (pid, ips) \<and> ip \<in> set ips)" for ip pid
    using assms unfolding hbOK_def by blast
  then show ?thesis
    unfolding set_eq_iff keys has using nonempty by blast
qed

lemma kingmaker_agreement:
  assumes ok: "hbOK t" "hbOK t'"
    and peers: "fst ` set (ht_peerIDToIPAddresses t) = fst ` set (ht_peerIDToIPAddresses t')"
    and adverts: "\<forall>(k, ss) \<in> set (ht_onlineSources t). \<forall>(k', ss') \<in> set (ht_onlineSources t').
      src_peerID k = src_peerID k' \<longrightarrow> advertised ss = advertised ss'"
    and valid: "\<forall>(k, ss) \<in> set (ht_onlineSources t) \<union> set (ht_onlineSources t'). hl_ipValid L (src_address k) \<and> IsValid (src_peerID k)"
    and some: "(k0, ss0) \<in> set (ht_onlineSources t)" "eligible t ss0"
  obtains k ss where "(k, ss) \<in> set (ht_onlineSources t)" "eligible t ss"
    "\<And>k' ss'. (k', ss') \<in> set (ht_onlineSources t) \<Longrightarrow> eligible t ss' \<Longrightarrow> src_peerID k \<le> src_peerID k'"
    "fst (CalculateOrderedPeersList L t) = advertised ss" "fst (CalculateOrderedPeersList L t') = advertised ss"
proof -
  have same: "(k, ss) \<in> set (ht_onlineSources t) \<Longrightarrow> (k', ss') \<in> set (ht_onlineSources t') \<Longrightarrow>
      src_peerID k = src_peerID k' \<Longrightarrow> advertised ss = advertised ss'" for k ss k' ss'
    using adverts by blast
  have len: "length (ht_peerIDToIPAddresses t) = length (ht_peerIDToIPAddresses t')"
    using peers ok by (metis (no_types, lifting) distinct_card hbOK_def length_map list.set_map tabInv_def)
  have elig: "eligible t ss \<longleftrightarrow> eligible t' ss'" if "advertised ss = advertised ss'" for ss ss'
    using that len peers by (simp add: eligible_iff)
  have online: "src_peerID ` fst ` set (ht_onlineSources t) = src_peerID ` fst ` set (ht_onlineSources t')"
    using online_peers [OF ok(1)] online_peers [OF ok(2)] peers by simp
  have partner: "\<exists>k' ss'. (k', ss') \<in> set (ht_onlineSources t') \<and> src_peerID k' = src_peerID k"
    if "(k, ss) \<in> set (ht_onlineSources t)" for k ss
  proof -
    have "src_peerID k \<in> src_peerID ` fst ` set (ht_onlineSources t')"
      unfolding online [symmetric] using that by force
    then show ?thesis
      by fastforce
  qed
  have partner': "\<exists>k' ss'. (k', ss') \<in> set (ht_onlineSources t) \<and> src_peerID k' = src_peerID k"
    if "(k, ss) \<in> set (ht_onlineSources t')" for k ss
  proof -
    have "src_peerID k \<in> src_peerID ` fst ` set (ht_onlineSources t)"
      unfolding online using that by force
    then show ?thesis
      by fastforce
  qed
  have v: "\<forall>(k, ss) \<in> set (ht_onlineSources t). hl_ipValid L (src_address k) \<and> IsValid (src_peerID k)"
    "\<forall>(k, ss) \<in> set (ht_onlineSources t'). hl_ipValid L (src_address k) \<and> IsValid (src_peerID k)"
    using valid by auto
  obtain k ss where k: "(k, ss) \<in> set (ht_onlineSources t)" "eligible t ss"
    "\<And>k' ss'. (k', ss') \<in> set (ht_onlineSources t) \<Longrightarrow> eligible t ss' \<Longrightarrow> src_peerID k \<le> src_peerID k'"
    "CalculateOrderedPeersList L t = (advertised ss, t)"
    using kingmaker_order [OF ok(1) v(1) some] by blast
  obtain k' ss' where k': "(k', ss') \<in> set (ht_onlineSources t')" "src_peerID k' = src_peerID k"
    using partner [OF k(1)] by blast
  have "eligible t' ss'"
    using elig [OF same [OF k(1) k'(1)]] k(2) k'(2) by simp
  then obtain m sm where m: "(m, sm) \<in> set (ht_onlineSources t')" "eligible t' sm" "src_peerID m \<le> src_peerID k"
    "CalculateOrderedPeersList L t' = (advertised sm, t')"
    using kingmaker_order [OF ok(2) v(2) k'(1)] k' by metis
  obtain n sn where n: "(n, sn) \<in> set (ht_onlineSources t)" "src_peerID n = src_peerID m"
    using partner' [OF m(1)] by blast
  have "eligible t sn"
    using elig [OF same [OF n(1) m(1) n(2)]] m(2) by simp
  then have "src_peerID k = src_peerID m"
    using k(3) [OF n(1)] n(2) m(3) by simp
  then have "advertised ss = advertised sm"
    by (rule same [OF k(1) m(1)])
  then show thesis
    using k m(4) by (intro that [of k ss]) auto
qed

section \<open>The order without a kingmaker\<close>

definition peerTypeOf :: "'ip hb_thread \<Rightarrow> ZGPeerID \<Rightarrow> u16" where
  "peerTypeOf t pid = (case tabGet fst pid (ht_peerIDToIPAddresses t) of None \<Rightarrow> 0 | Some (_, q) \<Rightarrow> GetPeerTypeFromQueue pid q t)"

definition uptimeOf :: "'ip hb_thread \<Rightarrow> ZGPeerID \<Rightarrow> u32" where
  "uptimeOf t pid = (case tabGet fst pid (ht_peerIDToIPAddresses t) of None \<Rightarrow> 0 | Some (_, q) \<Rightarrow> GetPeerUptimeSecondsFromQueue pid q t)"

text \<open>The order the comparison function induces: by type, then uptime, then ID, the larger first.\<close>

definition inFrontOf :: "'ip hb_thread \<Rightarrow> ZGPeerID \<Rightarrow> ZGPeerID \<Rightarrow> bool" where
  "inFrontOf t p q \<longleftrightarrow> peerTypeOf t q < peerTypeOf t p \<or> peerTypeOf t q = peerTypeOf t p \<and>
     (uptimeOf t q < uptimeOf t p \<or> uptimeOf t q = uptimeOf t p \<and> q \<le> p)"

lemma muscleCompare_cases:
  "muscleCompare a b = 0 \<longleftrightarrow> a = b" "0 \<le> muscleCompare a b \<longleftrightarrow> b \<le> a"
  by (auto simp: muscleCompare_def)

lemma Compare_le_iff:
  assumes "tabHas fst p (ht_peerIDToIPAddresses t)" "tabHas fst q (ht_peerIDToIPAddresses t)"
  shows "ComparePeerIDsBySeniority t p q \<le> 0 \<longleftrightarrow> inFrontOf t p q"
proof -
  obtain p' ps q' qs where get: "tabGet fst p (ht_peerIDToIPAddresses t) = Some (p', ps)" "tabGet fst q (ht_peerIDToIPAddresses t) = Some (q', qs)"
    using assms by auto
  show ?thesis
    unfolding ComparePeerIDsBySeniority_def inFrontOf_def peerTypeOf_def uptimeOf_def Let_def get
    by (auto simp: muscleCompare_cases)
qed

lemma inFrontOf_total: "inFrontOf t p q \<or> inFrontOf t q p"
  by (auto simp: inFrontOf_def)

lemma inFrontOf_trans: "inFrontOf t p q \<Longrightarrow> inFrontOf t q r \<Longrightarrow> inFrontOf t p r"
  by (auto simp: inFrontOf_def)

lemma fst_insertByKey: "fst ` set (insertByKey cmp x ys) = insert (fst x) (fst ` set ys)"
  by (induction ys) auto

lemma SortByKey_sorted:
  assumes le: "\<And>a b. a \<in> K \<Longrightarrow> b \<in> K \<Longrightarrow> cmp a b \<le> 0 \<longleftrightarrow> R a b"
    and total: "\<And>a b. R a b \<or> R b a" and trans: "\<And>a b c. R a b \<Longrightarrow> R b c \<Longrightarrow> R a c"
    and "fst ` set xs \<subseteq> K"
  shows "sorted_wrt R (map fst (SortByKey cmp (xs :: ('a \<times> 'b) list)))"
proof -
  have ins: "sorted_wrt R (map fst ys) \<Longrightarrow> fst x \<in> K \<Longrightarrow> fst ` set ys \<subseteq> K \<Longrightarrow> sorted_wrt R (map fst (insertByKey cmp x ys))" for x :: "'a \<times> 'b" and ys
  proof (induction ys)
    case (Cons y ys)
    have front: "R (fst x) z" if "R (fst x) (fst y)" "z \<in> insert (fst y) (fst ` set ys)" for z
      using that Cons.prems(1) trans by auto
    have behind: "R (fst y) z" if "\<not> R (fst x) (fst y)" "z \<in> insert (fst x) (fst ` set ys)" for z
      using that Cons.prems(1) total by auto
    show ?case
      using Cons front behind le [of "fst x" "fst y"] fst_insertByKey [of cmp x ys] by (auto simp: image_iff)
  qed simp
  have mem: "fst ` set (foldr (insertByKey cmp) xs []) = fst ` set xs" for xs :: "('a \<times> 'b) list"
    by (induction xs) (simp_all add: fst_insertByKey)
  show ?thesis
    using assms(4) unfolding SortByKey_def by (induction xs) (simp_all add: ins mem)
qed

section \<open>Properties\<close>

text \<open>
  C14: peers agree on who is senior.  Take two reachable threads that know the same peers, have
  the same peer list from each of them, have no source with an invalid address or ID, and of
  which the first hears a source that lists exactly the peers it knows.  Then there is a
  kingmaker, the source with the least ID among those that list exactly the known peers, and both
  threads order the peers the way the kingmaker's packet lists them, although their tables may
  differ in every other respect.  The list is as long as the number of known peers and names
  known peers only.
\<close>

theorem peers_agree_on_order:
  assumes "hb_reach L t" "hb_reach L t'"
    and "fst ` set (ht_peerIDToIPAddresses t) = fst ` set (ht_peerIDToIPAddresses t')"
    and "\<forall>(k, ss) \<in> set (ht_onlineSources t). \<forall>(k', ss') \<in> set (ht_onlineSources t').
      src_peerID k = src_peerID k' \<longrightarrow> advertised ss = advertised ss'"
    and "\<forall>(k, ss) \<in> set (ht_onlineSources t) \<union> set (ht_onlineSources t'). hl_ipValid L (src_address k) \<and> IsValid (src_peerID k)"
    and "(k0, ss0) \<in> set (ht_onlineSources t)" "PeersListMatchesIgnoreOrdering (hb_orderedPeersList (ss_hbPacket ss0)) t"
  shows "\<exists>k ss. (k, ss) \<in> set (ht_onlineSources t) \<and>
    PeersListMatchesIgnoreOrdering (hb_orderedPeersList (ss_hbPacket ss)) t \<and>
    (\<forall>(k', ss') \<in> set (ht_onlineSources t).
      PeersListMatchesIgnoreOrdering (hb_orderedPeersList (ss_hbPacket ss')) t \<longrightarrow> src_peerID k \<le> src_peerID k') \<and>
    fst (CalculateOrderedPeersList L t) = map pi_peerID (hb_orderedPeersList (ss_hbPacket ss)) \<and>
    fst (CalculateOrderedPeersList L t') = map pi_peerID (hb_orderedPeersList (ss_hbPacket ss)) \<and>
    length (fst (CalculateOrderedPeersList L t)) = length (ht_peerIDToIPAddresses t) \<and>
    set (fst (CalculateOrderedPeersList L t)) \<subseteq> fst ` set (ht_peerIDToIPAddresses t)"
proof -
  have some: "eligible t ss0"
    using assms(7) by (simp add: eligible_def)
  obtain k ss where km: "(k, ss) \<in> set (ht_onlineSources t)" "eligible t ss"
    "\<And>k' ss'. (k', ss') \<in> set (ht_onlineSources t) \<Longrightarrow> eligible t ss' \<Longrightarrow> src_peerID k \<le> src_peerID k'"
    "fst (CalculateOrderedPeersList L t) = advertised ss" "fst (CalculateOrderedPeersList L t') = advertised ss"
    using kingmaker_agreement [OF hb_reach_OK [OF assms(1)] hb_reach_OK [OF assms(2)] assms(3,4,5,6) some] by blast
  have "length (advertised ss) = length (ht_peerIDToIPAddresses t) \<and> set (advertised ss) \<subseteq> fst ` set (ht_peerIDToIPAddresses t)"
    using km(2) by (simp add: eligible_iff)
  then show ?thesis
    using km unfolding eligible_def advertised_def by (intro exI [of _ k] exI [of _ ss]) auto
qed

text \<open>
  Without a kingmaker the peers are listed by the largest type code, then the longest
  uptime, then the largest ID.  As the code of a junior-only peer is larger than that of a full
  peer, junior-only peers come first, not last as the comment in
  \<^verbatim>\<open>ComparePeerIDsBySeniority\<close> and the reading of the list in
  \<^verbatim>\<open>PZGHeartbeatSession::GetSeniorPeerID\<close> have it.
\<close>

theorem order_without_kingmaker:
  assumes "hb_reach L t" "GetKingmakerPeerSource t = None"
  shows "mset (fst (CalculateOrderedPeersList L t)) = mset (map fst (ht_peerIDToIPAddresses t)) \<and>
    sorted_wrt (inFrontOf t) (fst (CalculateOrderedPeersList L t)) \<and>
    (peerTypeOf t p = PEER_TYPE_JUNIOR_ONLY \<and> peerTypeOf t q = PEER_TYPE_FULL_PEER \<longrightarrow>
      inFrontOf t p q \<and> \<not> inFrontOf t q p)"
proof -
  let ?ps = "ht_peerIDToIPAddresses t"
  have list: "fst (CalculateOrderedPeersList L t) = map fst (SortByKey (ComparePeerIDsBySeniority t) ?ps)"
    using assms(2) by (simp add: CalculateOrderedPeersList_def Let_def)
  have "sorted_wrt (inFrontOf t) (map fst (SortByKey (ComparePeerIDsBySeniority t) ?ps))"
  proof (rule SortByKey_sorted [where K = "fst ` set ?ps"])
    show "ComparePeerIDsBySeniority t a b \<le> 0 \<longleftrightarrow> inFrontOf t a b"
      if "a \<in> fst ` set ?ps" "b \<in> fst ` set ?ps" for a b
      using that by (intro Compare_le_iff) (simp_all add: tabGet_eq_None del: not_None_eq)
  qed (use inFrontOf_total inFrontOf_trans in blast)+
  then show ?thesis
    unfolding list by (simp add: mset_SortByKey inFrontOf_def PEER_TYPE_FULL_PEER_def PEER_TYPE_JUNIOR_ONLY_def)
qed

text \<open>
  C16: clock synchronisation is exact when the delay is symmetric.  If the senior peer's network
  clock runs \<open>\<delta>\<close> ahead of the local clock, its last heartbeat took \<open>d\<close> microseconds to arrive and
  the average round trip is twice that, then after an update of the offset network times computed
  from local times are those of the senior peer, and converting them back returns the local time.
  A senior peer's own offset is zero.
\<close>

theorem network_clock_exact:
  assumes "ht_halfAttachedTime t \<le> ht_now t" "\<delta> \<noteq> INVALID_TIME_OFFSET"
    and "thread_GetSeniorPeerID t \<noteq> hbs_localPeerID (ht_hbSettings t) \<longrightarrow>
      firstSource (thread_GetSeniorPeerID t) t = Some (k, ss) \<and>
      fst (GetPreferredAverageValue L (ht_now t - ht_heartbeatExpirationTimeMicros t) ss) div 2 = d \<and>
      hb_localReceiveTimeMicros (ss_hbPacket ss) + \<delta> = hb_networkSendTimeMicros (ss_hbPacket ss) + d"
    and "thread_GetSeniorPeerID t = hbs_localPeerID (ht_hbSettings t) \<longrightarrow> \<delta> = 0"
    and "x \<noteq> MUSCLE_TIME_NEVER" "x + \<delta> \<noteq> MUSCLE_TIME_NEVER"
  shows "ht_GetNetworkTime64ForRunTime64 (UpdateToNetworkTimeOffset L t) x = x + \<delta> \<and>
    ht_GetRunTime64ForNetworkTime64 (UpdateToNetworkTimeOffset L t) (x + \<delta>) = x"
proof -
  let ?t = "t\<lparr> ht_updateToNetworkTimeOffsetPending := False \<rparr>"
  have same: "IsAtLeastHalfAttached ?t" "IAmTheSeniorPeer ?t \<longleftrightarrow> thread_GetSeniorPeerID t = hbs_localPeerID (ht_hbSettings t)"
    "thread_GetSeniorPeerID ?t = thread_GetSeniorPeerID t" "firstSource pid ?t = firstSource pid t" for pid
    using assms(1) by (auto simp: IsAtLeastHalfAttached_def IAmTheSeniorPeer_def thread_GetSeniorPeerID_def firstSource_def
        split: option.splits list.splits)
  have "ht_toNetworkTimeOffset (UpdateToNetworkTimeOffset L t) = \<delta>"
  proof (cases "thread_GetSeniorPeerID t = hbs_localPeerID (ht_hbSettings t)")
    case True
    then show ?thesis
      using assms(4) by (simp add: UpdateToNetworkTimeOffset_def same)
  next
    case False
    then have src: "firstSource (thread_GetSeniorPeerID t) t = Some (k, ss)"
      and avg: "fst (GetPreferredAverageValue L (ht_now t - ht_heartbeatExpirationTimeMicros t) ss) div 2 = d"
      and sync: "\<delta> = hb_networkSendTimeMicros (ss_hbPacket ss) - (hb_localReceiveTimeMicros (ss_hbPacket ss) - d)"
      using assms(3) by (auto simp: algebra_simps)
    then show ?thesis
      using False by (auto simp: UpdateToNetworkTimeOffset_def same Let_def sourceAverage_def split: prod.splits)
  qed
  then show ?thesis
    using assms(2,5,6) by (simp add: ht_GetNetworkTime64ForRunTime64_def ht_GetRunTime64ForNetworkTime64_def)
qed

end
