(* ===== verification/ZG_HeartbeatSession.thy ===== *)
theory ZG_HeartbeatSession
  imports ZG_Heartbeat
begin

text \<open>
  The main-thread half of \<^verbatim>\<open>PZGHeartbeatSession\<close>: the roster of peers and what the network
  session is told when the heartbeat thread reports a new official list.  The calls to the
  master are the output, each with the roster at that moment, since the callbacks read it.
  Reading the peer attributes out of their compressed form is the parameter \<open>attributes\<close>.
\<close>

section \<open>The roster\<close>

type_synonym 'ip roster = "(ZGPeerID \<times> 'ip PZGHeartbeatPacketWithMetaData list) list"

datatype ('ip, 'm) master_call =
    PeerHasComeOnline ZGPeerID "'m option" "'ip roster"
  | PeerHasGoneOffline ZGPeerID "'m option" "'ip roster"
  | SeniorPeerChanged ZGPeerID ZGPeerID "'ip roster"

text \<open>\<^verbatim>\<open>Hashtable::MoveToFront\<close> and \<^verbatim>\<open>MoveToBehind\<close> of a present key.\<close>

definition MoveToFront :: "'k \<Rightarrow> ('k \<times> 'v) list \<Rightarrow> ('k \<times> 'v) list" where
  "MoveToFront k es = filter (\<lambda>e. fst e = k) es @ filter (\<lambda>e. fst e \<noteq> k) es"

fun insertBehind :: "'k \<Rightarrow> ('k \<times> 'v) list \<Rightarrow> ('k \<times> 'v) list \<Rightarrow> ('k \<times> 'v) list" where
  "insertBehind p xs [] = xs"
| "insertBehind p xs (e # es) = (if fst e = p then e # xs @ es else e # insertBehind p xs es)"

definition MoveToBehind :: "'k \<Rightarrow> 'k \<Rightarrow> ('k \<times> 'v) list \<Rightarrow> ('k \<times> 'v) list" where
  "MoveToBehind k p es =
     (if p = k \<or> \<not> tabHas fst p es then es
      else insertBehind p (filter (\<lambda>e. fst e = k) es) (filter (\<lambda>e. fst e \<noteq> k) es))"

definition roster_GetSeniorPeerID :: "'ip roster \<Rightarrow> ZGPeerID" where
  "roster_GetSeniorPeerID peers =
     (case peers of
        [] \<Rightarrow> invalidPeerID
      | (firstPeer, q) # _ \<Rightarrow> if hb_peerType (hd q) = PEER_TYPE_FULL_PEER then firstPeer else invalidPeerID)"

section \<open>A new official list\<close>

definition groupByPeer :: "'ip PZGHeartbeatPacketWithMetaData list \<Rightarrow> 'ip roster" where
  "groupByPeer hbs =
     fold (\<lambda>hb peers.
         let pid = hb_sourcePeerID hb;
             q = (case tabGet fst pid peers of None \<Rightarrow> [] | Some (_, q) \<Rightarrow> q)
         in tabPut fst (pid, q @ [hb]) peers) hbs []"

text \<open>The first loop, over the roster as it was.\<close>

definition takeOffline ::
  "(bytes option \<Rightarrow> 'm option) \<Rightarrow> 'ip roster \<Rightarrow> ZGPeerID \<times> 'ip PZGHeartbeatPacketWithMetaData list \<Rightarrow>
   'ip roster \<times> ('ip, 'm) master_call list \<Rightarrow> 'ip roster \<times> ('ip, 'm) master_call list" where
  "takeOffline attributes newPeers entry r =
     (case (entry, r) of ((peerID, oldInfoQ), (peers, calls)) \<Rightarrow>
        let gone = (case tabGet fst peerID newPeers of
                      None \<Rightarrow> True
                    | Some (_, newInfoQ) \<Rightarrow> \<not> IsEqualIgnoreTransients (hd newInfoQ) (hd oldInfoQ))
        in if gone
           then let peers' = tabRemove fst peerID peers
                in (peers', calls @ [PeerHasGoneOffline peerID (attributes (hb_peerAttributesBuf (hd oldInfoQ))) peers'])
           else (peers, calls))"

text \<open>The second loop, over the new peers, with the peer before the current one.\<close>

fun bringOnline ::
  "(bytes option \<Rightarrow> 'm option) \<Rightarrow> ZGPeerID option \<Rightarrow> 'ip roster \<Rightarrow>
   'ip roster \<times> ('ip, 'm) master_call list \<Rightarrow> 'ip roster \<times> ('ip, 'm) master_call list" where
  "bringOnline attributes optPrevID [] r = r"
| "bringOnline attributes optPrevID ((peerID, newRefQ) # news) (peers, calls) =
     bringOnline attributes (Some peerID) news
       (if tabHas fst peerID peers
        then (tabPut fst (peerID, newRefQ) peers, calls)
        else let put = tabPut fst (peerID, newRefQ) peers;
                 peers' = (case optPrevID of None \<Rightarrow> MoveToFront peerID put | Some p \<Rightarrow> MoveToBehind peerID p put)
             in (peers', calls @ [PeerHasComeOnline peerID (attributes (hb_peerAttributesBuf (hd newRefQ))) peers']))"

definition PeersUpdate ::
  "(bytes option \<Rightarrow> 'm option) \<Rightarrow> 'ip PZGHeartbeatPacketWithMetaData list \<Rightarrow> 'ip roster \<Rightarrow>
   'ip roster \<times> ('ip, 'm) master_call list" where
  "PeersUpdate attributes hbs peers =
     (let newPeers = groupByPeer hbs;
          oldSeniorPeerID = roster_GetSeniorPeerID peers;
          (peers1, calls1) = fold (takeOffline attributes newPeers) peers (peers, []);
          (peers2, calls2) = bringOnline attributes None newPeers (peers1, calls1);
          newSeniorPeerID = roster_GetSeniorPeerID peers2
      in (peers2, calls2 @ (if newSeniorPeerID \<noteq> oldSeniorPeerID
                            then [SeniorPeerChanged oldSeniorPeerID newSeniorPeerID peers2] else [])))"

text \<open>
  Messages from the heartbeat thread by their code; without a master (after
  \<open>EndSession\<close> or \<open>AboutToDetachFromServer\<close>) an update is dropped.
\<close>

definition PZG_HEARTBEAT_COMMAND_PEERS_UPDATE :: u32 where
  "PZG_HEARTBEAT_COMMAND_PEERS_UPDATE = 1751281781"

record 'ip hb_session =
  hbs_master :: bool
  hbs_mainThreadPeers :: "'ip roster"

definition hbs_MessageReceivedFromInternalThread ::
  "(bytes option \<Rightarrow> 'm option) \<Rightarrow> u32 \<Rightarrow> 'ip PZGHeartbeatPacketWithMetaData list \<Rightarrow> 'ip hb_session \<Rightarrow>
   'ip hb_session \<times> ('ip, 'm) master_call list" where
  "hbs_MessageReceivedFromInternalThread attributes code hbs s =
     (if code = PZG_HEARTBEAT_COMMAND_PEERS_UPDATE \<and> hbs_master s
      then let (peers, calls) = PeersUpdate attributes hbs (hbs_mainThreadPeers s)
           in (s\<lparr> hbs_mainThreadPeers := peers \<rparr>, calls)
      else (s, []))"

definition hbs_EndSession :: "'ip hb_session \<Rightarrow> 'ip hb_session" where
  "hbs_EndSession s = s\<lparr> hbs_master := False \<rparr>"

definition hbs_AboutToDetachFromServer :: "'ip hb_session \<Rightarrow> 'ip hb_session" where
  "hbs_AboutToDetachFromServer s = s\<lparr> hbs_master := False \<rparr>"

section \<open>What the master sees\<close>

text \<open>
  The peers a listener that believes the calls holds online.  A call out of order (a peer
  coming online twice, or leaving without having come) gives \<open>None\<close>, as does a senior-peer
  call whose old ID is not the senior the listener was told last.
\<close>

fun listen :: "('ip, 'm) master_call \<Rightarrow> ZGPeerID set \<times> ZGPeerID \<Rightarrow> (ZGPeerID set \<times> ZGPeerID) option" where
  "listen (PeerHasComeOnline p _ _) (on, senior) = (if p \<in> on then None else Some (insert p on, senior))"
| "listen (PeerHasGoneOffline p _ _) (on, senior) = (if p \<in> on then Some (on - {p}, senior) else None)"
| "listen (SeniorPeerChanged old new _) (on, senior) =
     (if old = senior \<and> new \<noteq> old \<and> (IsValid new \<longrightarrow> new \<in> on) then Some (on, new) else None)"

fun listenAll :: "('ip, 'm) master_call list \<Rightarrow> ZGPeerID set \<times> ZGPeerID \<Rightarrow> (ZGPeerID set \<times> ZGPeerID) option" where
  "listenAll [] v = Some v"
| "listenAll (c # cs) v = Option.bind (listen c v) (listenAll cs)"

lemma listenAll_append: "listenAll (cs @ ds) v = Option.bind (listenAll cs v) (listenAll ds)"
  by (induction cs arbitrary: v) (auto split: bind_splits simp: bind_eq_Some_conv)

abbreviation rosterKeys :: "'ip roster \<Rightarrow> ZGPeerID set" where
  "rosterKeys peers \<equiv> fst ` set peers"

section \<open>The loops\<close>

lemma groupByPeer_inv: "tabInv fst (groupByPeer hbs)" "rosterKeys (groupByPeer hbs) = hb_sourcePeerID ` set hbs"
proof -
  define f where "f = (\<lambda>(hb :: 'a PZGHeartbeatPacketWithMetaData) peers.
         let pid = hb_sourcePeerID hb;
             q = (case tabGet fst pid peers of None \<Rightarrow> [] | Some (_, q) \<Rightarrow> q)
         in tabPut fst (pid, q @ [hb]) peers)"
  have "tabInv fst (fold f hbs peers) \<and> rosterKeys (fold f hbs peers) = rosterKeys peers \<union> hb_sourcePeerID ` set hbs"
    if "tabInv fst peers" for peers
    using that
  proof (induction hbs arbitrary: peers)
    case (Cons hb hbs)
    have "tabInv fst (f hb peers)" "rosterKeys (f hb peers) = insert (hb_sourcePeerID hb) (rosterKeys peers)"
      using Cons.prems by (simp_all add: f_def Let_def tabInv_tabPut keys_tabPut)
    then show ?case
      using Cons.IH [of "f hb peers"] by simp
  qed simp
  from this [of "[]"] show "tabInv fst (groupByPeer hbs)" "rosterKeys (groupByPeer hbs) = hb_sourcePeerID ` set hbs"
    by (simp_all add: groupByPeer_def f_def tabInv_def)
qed

lemma mset_insertBehind: "tabHas fst p es \<Longrightarrow> mset (insertBehind p xs es) = mset xs + mset es"
proof (induction es)
  case (Cons e es)
  show ?case
  proof (cases "fst e = p")
    case False
    then have "tabHas fst p es"
      using Cons.prems by simp
    then show ?thesis
      using Cons.IH False by simp
  qed simp
qed simp

lemma mset_Move:
  "mset (MoveToFront k es) = mset es" "mset (MoveToBehind k p es) = mset es"
proof -
  have parts: "mset (filter (\<lambda>e. fst e = k) es) + mset (filter (\<lambda>e. fst e \<noteq> k) es) = mset es"
    by (induction es) auto
  then show "mset (MoveToFront k es) = mset es"
    by (simp add: MoveToFront_def)
  have "tabHas fst p (filter (\<lambda>e. fst e \<noteq> k) es)" if "p \<noteq> k" "tabHas fst p es"
    using that by (simp add: tabGet_eq_None del: not_None_eq) (metis (mono_tags, lifting) imageE image_eqI mem_Collect_eq)
  then show "mset (MoveToBehind k p es) = mset es"
    using parts by (auto simp: MoveToBehind_def mset_insertBehind simp del: not_None_eq)
qed

text \<open>Going offline: the roster keeps the peers that are listed again unchanged.\<close>

definition stays :: "'ip roster \<Rightarrow> ZGPeerID \<times> 'ip PZGHeartbeatPacketWithMetaData list \<Rightarrow> bool" where
  "stays newPeers entry \<longleftrightarrow>
     (case tabGet fst (fst entry) newPeers of
        None \<Rightarrow> False
      | Some (_, newInfoQ) \<Rightarrow> IsEqualIgnoreTransients (hd newInfoQ) (hd (snd entry)))"

lemma takeOffline_step:
  "takeOffline attributes newPeers (p, q) (peers, calls) =
     (if stays newPeers (p, q) then (peers, calls)
      else (tabRemove fst p peers,
            calls @ [PeerHasGoneOffline p (attributes (hb_peerAttributesBuf (hd q))) (tabRemove fst p peers)]))"
  by (auto simp: takeOffline_def stays_def Let_def split: option.splits)

lemma takeOffline_fold:
  assumes "distinct (map fst ys)" "fst ` set ys \<subseteq> rosterKeys peers"
  shows "\<exists>cs. fold (takeOffline attributes newPeers) ys (peers, calls) =
      (filter (\<lambda>e. fst e \<notin> fst ` {y \<in> set ys. \<not> stays newPeers y}) peers, calls @ cs) \<and>
    listenAll cs (rosterKeys peers, senior) = Some (rosterKeys peers - fst ` {y \<in> set ys. \<not> stays newPeers y}, senior) \<and>
    ((\<forall>y \<in> set ys. stays newPeers y) \<longrightarrow> cs = [])"
  using assms
proof (induction ys arbitrary: peers calls)
  case (Cons y ys)
  obtain p q where y: "y = (p, q)"
    by (cases y)
  show ?case
  proof (cases "stays newPeers y")
    case True
    then have "{z \<in> set (y # ys). \<not> stays newPeers z} = {z \<in> set ys. \<not> stays newPeers z}"
      by auto
    then show ?thesis
      using Cons.IH [of peers calls] Cons.prems True by (simp add: y takeOffline_step)
  next
    case False
    let ?peers = "tabRemove fst p peers"
    let ?call = "PeerHasGoneOffline p (attributes (hb_peerAttributesBuf (hd q))) ?peers"
    have keys: "rosterKeys ?peers = rosterKeys peers - {p}"
      by (auto simp: tabRemove_def)
    have "distinct (map fst ys)" "fst ` set ys \<subseteq> rosterKeys ?peers"
      using Cons.prems by (force simp: keys y)+
    from Cons.IH [OF this, of "calls @ [?call]"] obtain cs where
      cs: "fold (takeOffline attributes newPeers) ys (?peers, calls @ [?call]) =
        (filter (\<lambda>e. fst e \<notin> fst ` {y \<in> set ys. \<not> stays newPeers y}) ?peers, (calls @ [?call]) @ cs)"
        "listenAll cs (rosterKeys ?peers, senior) = Some (rosterKeys ?peers - fst ` {y \<in> set ys. \<not> stays newPeers y}, senior)"
      by blast
    have gone: "fst ` {z \<in> set (y # ys). \<not> stays newPeers z} = insert p (fst ` {y \<in> set ys. \<not> stays newPeers y})"
      using False by (force simp: y)
    have "filter (\<lambda>e. fst e \<notin> fst ` {y \<in> set ys. \<not> stays newPeers y}) ?peers =
        filter (\<lambda>e. fst e \<notin> fst ` {z \<in> set (y # ys). \<not> stays newPeers z}) peers"
      unfolding gone by (auto simp: tabRemove_def intro: filter_cong)
    moreover have "p \<in> rosterKeys peers"
      using Cons.prems(2) y by simp
    moreover have "rosterKeys peers - {p} - fst ` {y \<in> set ys. \<not> stays newPeers y} =
        rosterKeys peers - fst ` {z \<in> set (y # ys). \<not> stays newPeers z}"
      unfolding gone by blast
    ultimately show ?thesis
      using cs False by (intro exI [of _ "?call # cs"]) (simp add: y takeOffline_step keys)
  qed
qed (auto simp: filter_id_conv)

text \<open>Coming online.\<close>

lemma tabInv_put_moved:
  assumes "tabInv fst peers" "mset peers' = mset (tabPut fst (p, q) peers)"
  shows "tabInv fst peers'" "rosterKeys peers' = insert p (rosterKeys peers)"
    "tabGet fst k peers' = (if k = p then Some (p, q) else tabGet fst k peers)"
proof -
  have put: "tabInv fst (tabPut fst (p, q) peers)"
    using assms(1) by (rule tabInv_tabPut)
  show "tabInv fst peers'"
    by (rule tabGet_perm(2) [OF put assms(2)])
  show "tabGet fst k peers' = (if k = p then Some (p, q) else tabGet fst k peers)"
    by (simp add: tabGet_perm(1) [OF put assms(2)] tabGet_tabPut)
  have "set peers' = set (tabPut fst (p, q) peers)"
    using assms(2) by (rule mset_eq_setD)
  then show "rosterKeys peers' = insert p (rosterKeys peers)"
    using keys_tabPut [of fst "(p, q)" peers] by simp
qed

lemma bringOnline_steps:
  assumes "tabInv fst peers" "distinct (map fst news)"
  shows "\<exists>peers' cs. bringOnline attributes prev news (peers, calls) = (peers', calls @ cs) \<and>
    tabInv fst peers' \<and> rosterKeys peers' = rosterKeys peers \<union> fst ` set news \<and>
    (\<forall>(p, q) \<in> set news. tabGet fst p peers' = Some (p, q)) \<and>
    (\<forall>k. k \<notin> fst ` set news \<longrightarrow> tabGet fst k peers' = tabGet fst k peers) \<and>
    listenAll cs (rosterKeys peers, senior) = Some (rosterKeys peers', senior) \<and>
    (fst ` set news \<subseteq> rosterKeys peers \<longrightarrow> cs = [] \<and> map fst peers' = map fst peers)"
  using assms
proof (induction news arbitrary: prev peers calls)
  case (Cons n news)
  obtain p q where n: "n = (p, q)"
    by (cases n)
  define put where "put = tabPut fst (p, q) peers"
  define moved where "moved = (if tabHas fst p peers then put
    else case prev of None \<Rightarrow> MoveToFront p put | Some p' \<Rightarrow> MoveToBehind p p' put)"
  let ?new = "if tabHas fst p peers then []
    else [PeerHasComeOnline p (attributes (hb_peerAttributesBuf (hd q))) moved]"
  have has: "tabHas fst p peers \<longleftrightarrow> p \<in> rosterKeys peers"
    by (simp add: tabGet_eq_None del: not_None_eq)
  have "mset moved = mset put"
    by (simp add: moved_def mset_Move split: option.splits)
  note m = tabInv_put_moved [OF Cons.prems(1) this [unfolded put_def]]
  have step: "bringOnline attributes prev (n # news) (peers, calls) =
      bringOnline attributes (Some p) news (moved, calls @ ?new)"
    by (simp add: n put_def moved_def Let_def split: option.splits)
  have "distinct (map fst news)"
    using Cons.prems(2) by simp
  from Cons.IH [OF m(1) this, of "Some p" "calls @ ?new"] obtain peers' cs where
    r: "bringOnline attributes (Some p) news (moved, calls @ ?new) = (peers', (calls @ ?new) @ cs)"
      "tabInv fst peers'" "rosterKeys peers' = rosterKeys moved \<union> fst ` set news"
      "\<forall>(p, q) \<in> set news. tabGet fst p peers' = Some (p, q)"
      "\<forall>k. k \<notin> fst ` set news \<longrightarrow> tabGet fst k peers' = tabGet fst k moved"
      "listenAll cs (rosterKeys moved, senior) = Some (rosterKeys peers', senior)"
      "fst ` set news \<subseteq> rosterKeys moved \<longrightarrow> cs = [] \<and> map fst peers' = map fst moved"
    by blast
  show ?case
  proof (intro exI conjI)
    show "bringOnline attributes prev (n # news) (peers, calls) = (peers', calls @ ?new @ cs)"
      using r(1) step by simp
    show "tabInv fst peers'"
      by (rule r(2))
    show "rosterKeys peers' = rosterKeys peers \<union> fst ` set (n # news)"
      using r(3) m(2) n by auto
    have "tabGet fst p peers' = Some (p, q)"
      using r(5) m(3) [of p] Cons.prems(2) n by auto
    then show "\<forall>(p, q) \<in> set (n # news). tabGet fst p peers' = Some (p, q)"
      using r(4) n by auto
    show "\<forall>k. k \<notin> fst ` set (n # news) \<longrightarrow> tabGet fst k peers' = tabGet fst k peers"
      using r(5) m(3) n by auto
    have "listenAll ?new (rosterKeys peers, senior) = Some (rosterKeys moved, senior)"
      using m(2) has by (auto simp del: not_None_eq)
    then show "listenAll (?new @ cs) (rosterKeys peers, senior) = Some (rosterKeys peers', senior)"
      using r(6) by (simp add: listenAll_append)
    show "fst ` set (n # news) \<subseteq> rosterKeys peers \<longrightarrow> ?new @ cs = [] \<and> map fst peers' = map fst peers"
    proof
      assume sub: "fst ` set (n # news) \<subseteq> rosterKeys peers"
      then have in_p: "tabHas fst p peers" "fst ` set news \<subseteq> rosterKeys moved"
        using has m(2) n by (auto simp del: not_None_eq)
      have "map fst (tabPut fst (p, q) peers) = map fst peers" if "p \<in> rosterKeys peers" for peers :: "'a roster"
        using that by (induction peers) auto
      then have "map fst moved = map fst peers"
        using in_p(1) has by (simp add: moved_def put_def del: not_None_eq)
      then show "?new @ cs = [] \<and> map fst peers' = map fst peers"
        using r(7) in_p by (simp del: not_None_eq)
    qed
  qed
qed simp

section \<open>One update\<close>

lemma GetSeniorPeerID_mem: "IsValid (roster_GetSeniorPeerID peers) \<Longrightarrow> roster_GetSeniorPeerID peers \<in> rosterKeys peers"
  by (auto simp: roster_GetSeniorPeerID_def IsValid_iff split: list.splits if_splits)

lemma stays_listed: "stays newPeers e \<Longrightarrow> fst e \<in> rosterKeys newPeers"
  unfolding stays_def by (auto split: option.splits dest!: tabGet_SomeD) (metis fst_conv image_eqI)

lemma PeersUpdate_tells:
  fixes attributes :: "bytes option \<Rightarrow> 'm option" and peers peers' :: "'ip roster" and calls :: "('ip, 'm) master_call list"
  assumes "tabInv fst peers" "PeersUpdate attributes hbs peers = (peers', calls)"
  shows "tabInv fst peers'" "rosterKeys peers' = hb_sourcePeerID ` set hbs"
    and "\<forall>(p, q) \<in> set (groupByPeer hbs). tabGet fst p peers' = Some (p, q)"
    and "listenAll calls (rosterKeys peers, roster_GetSeniorPeerID peers) = Some (rosterKeys peers', roster_GetSeniorPeerID peers')"
    and "rosterKeys peers = rosterKeys (groupByPeer hbs) \<and> (\<forall>e \<in> set peers. stays (groupByPeer hbs) e) \<Longrightarrow>
      map fst peers' = map fst peers \<and> (roster_GetSeniorPeerID peers' = roster_GetSeniorPeerID peers \<longrightarrow> calls = [])"
proof -
  let ?new = "groupByPeer hbs" and ?gone = "fst ` {y \<in> set peers. \<not> stays (groupByPeer hbs) y}"
  let ?kept = "filter (\<lambda>e. fst e \<notin> ?gone) peers" and ?s = "roster_GetSeniorPeerID peers"
  have new: "distinct (map fst ?new)"
    using groupByPeer_inv(1) [of hbs] by (simp add: tabInv_def)
  obtain cs1 where off: "fold (takeOffline attributes ?new) peers (peers, []) = (?kept, cs1)"
      "listenAll cs1 (rosterKeys peers, ?s) = Some (rosterKeys peers - ?gone, ?s)"
      "(\<forall>y \<in> set peers. stays ?new y) \<longrightarrow> cs1 = []"
    using takeOffline_fold [of peers peers attributes ?new "[]" ?s] assms(1) by (auto simp: tabInv_def)
  have kept: "tabInv fst ?kept" "rosterKeys ?kept = rosterKeys peers - ?gone"
    using assms(1) by (auto simp: tabInv_def distinct_map_filter)
  obtain peers2 cs2 where on: "bringOnline attributes None ?new (?kept, cs1) = (peers2, cs1 @ cs2)"
      "tabInv fst peers2" "rosterKeys peers2 = rosterKeys ?kept \<union> fst ` set ?new"
      "\<forall>(p, q) \<in> set ?new. tabGet fst p peers2 = Some (p, q)"
      "listenAll cs2 (rosterKeys ?kept, ?s) = Some (rosterKeys peers2, ?s)"
      "fst ` set ?new \<subseteq> rosterKeys ?kept \<longrightarrow> cs2 = [] \<and> map fst peers2 = map fst ?kept"
    using bringOnline_steps [OF kept(1) new, of attributes None cs1 ?s] by blast
  define cs3 :: "('ip, 'm) master_call list" where "cs3 = (if roster_GetSeniorPeerID peers2 \<noteq> ?s then [SeniorPeerChanged ?s (roster_GetSeniorPeerID peers2) peers2] else [])"
  have r: "peers' = peers2" "calls = (cs1 @ cs2) @ cs3"
    using assms(2) by (auto simp: PeersUpdate_def Let_def off(1) on(1) cs3_def)
  show "tabInv fst peers'"
    using on(2) r by simp
  have "rosterKeys ?kept \<subseteq> rosterKeys ?new"
  proof
    fix p assume "p \<in> rosterKeys ?kept"
    then obtain e where e: "e \<in> set peers" "fst e \<notin> ?gone" "p = fst e"
      by auto
    then have "stays ?new e"
      by blast
    then show "p \<in> rosterKeys ?new"
      using stays_listed e(3) by blast
  qed
  then show keys: "rosterKeys peers' = hb_sourcePeerID ` set hbs"
    unfolding r(1) on(3) groupByPeer_inv(2) [symmetric] by (rule Un_absorb1)
  show "\<forall>(p, q) \<in> set ?new. tabGet fst p peers' = Some (p, q)"
    using on(4) r by simp
  have "listenAll cs3 (rosterKeys peers2, ?s) = Some (rosterKeys peers2, roster_GetSeniorPeerID peers2)"
    using GetSeniorPeerID_mem [of peers2] by (auto simp: cs3_def)
  then show "listenAll calls (rosterKeys peers, ?s) = Some (rosterKeys peers', roster_GetSeniorPeerID peers')"
    using off(2) on(5) kept(2) r by (simp add: listenAll_append)
  assume same: "rosterKeys peers = rosterKeys ?new \<and> (\<forall>e \<in> set peers. stays ?new e)"
  then have "?kept = peers" "cs1 = []"
    using off(3) by (auto simp: filter_id_conv)
  then show "map fst peers' = map fst peers \<and> (roster_GetSeniorPeerID peers' = ?s \<longrightarrow> calls = [])"
    using on(6) r same by (auto simp: cs3_def)
qed

text \<open>A session over any sequence of messages, with all its calls.\<close>

fun runMessages ::
  "(bytes option \<Rightarrow> 'm option) \<Rightarrow> (u32 \<times> 'ip PZGHeartbeatPacketWithMetaData list) list \<Rightarrow> 'ip hb_session \<Rightarrow>
   'ip hb_session \<times> ('ip, 'm) master_call list" where
  "runMessages attributes [] s = (s, [])"
| "runMessages attributes ((code, hbs) # ms) s =
     (let (s1, calls1) = hbs_MessageReceivedFromInternalThread attributes code hbs s;
          (s2, calls2) = runMessages attributes ms s1
      in (s2, calls1 @ calls2))"

lemma runMessages_tells:
  "tabInv fst (hbs_mainThreadPeers s) \<Longrightarrow> runMessages attributes ms s = (s', calls) \<Longrightarrow>
   listenAll calls (rosterKeys (hbs_mainThreadPeers s), roster_GetSeniorPeerID (hbs_mainThreadPeers s)) =
     Some (rosterKeys (hbs_mainThreadPeers s'), roster_GetSeniorPeerID (hbs_mainThreadPeers s')) \<and>
   tabInv fst (hbs_mainThreadPeers s')"
proof (induction ms arbitrary: s s' calls)
  case (Cons m ms)
  obtain code hbs where m: "m = (code, hbs)"
    by (cases m)
  obtain s1 calls1 where 1: "hbs_MessageReceivedFromInternalThread attributes code hbs s = (s1, calls1)"
    by fastforce
  obtain s2 calls2 where 2: "runMessages attributes ms s1 = (s2, calls2)"
    by fastforce
  have first: "tabInv fst (hbs_mainThreadPeers s1) \<and>
      listenAll calls1 (rosterKeys (hbs_mainThreadPeers s), roster_GetSeniorPeerID (hbs_mainThreadPeers s)) =
        Some (rosterKeys (hbs_mainThreadPeers s1), roster_GetSeniorPeerID (hbs_mainThreadPeers s1))"
  proof (cases "code = PZG_HEARTBEAT_COMMAND_PEERS_UPDATE \<and> hbs_master s")
    case True
    obtain peers cs where u: "PeersUpdate attributes hbs (hbs_mainThreadPeers s) = (peers, cs)"
      by fastforce
    show ?thesis
      using PeersUpdate_tells(1,4) [OF Cons.prems(1) u] 1 True
      by (auto simp: hbs_MessageReceivedFromInternalThread_def u)
  next
    case False
    then show ?thesis
      using 1 Cons.prems(1) by (auto simp: hbs_MessageReceivedFromInternalThread_def)
  qed
  show ?case
    using Cons.IH [OF conjunct1 [OF first] 2] first Cons.prems(2) by (auto simp: m 1 2 listenAll_append)
qed simp

lemma fst_runMessages:
  "fst (runMessages attributes (m # ms) s) =
     fst (runMessages attributes ms (fst (hbs_MessageReceivedFromInternalThread attributes (fst m) (snd m) s)))"
  by (cases m) (simp add: Let_def case_prod_beta)

lemma runMessages_append:
  "fst (runMessages attributes (ms @ ms') s) = fst (runMessages attributes ms' (fst (runMessages attributes ms s)))"
proof (induction ms arbitrary: s)
  case (Cons m ms)
  show ?case
    by (simp only: append_Cons fst_runMessages Cons)
qed simp

lemma runMessages_master: "hbs_master (fst (runMessages attributes ms s)) = hbs_master s"
proof (induction ms arbitrary: s)
  case (Cons m ms)
  show ?case
    unfolding fst_runMessages Cons
    by (simp add: hbs_MessageReceivedFromInternalThread_def split: prod.splits)
qed simp

section \<open>Properties\<close>

text \<open>
  C15: the network session is told the truth.  Over any sequence of messages from the heartbeat
  thread, a listener that starts with no peers and follows the calls one by one never sees a
  call out of order (no peer comes online twice or leaves without having come, every change of
  the senior starts from the senior announced last and names a peer that is online) and ends
  with exactly the peers of the roster and its senior peer; after an official list has been
  taken in, these are the peers of that list.
\<close>

theorem master_is_told:
  fixes attributes :: "bytes option \<Rightarrow> 'm option" and ms :: "(u32 \<times> 'ip PZGHeartbeatPacketWithMetaData list) list"
  defines "s0 \<equiv> \<lparr> hbs_master = True, hbs_mainThreadPeers = [] \<rparr>"
  shows "listenAll (snd (runMessages attributes ms s0)) ({}, invalidPeerID) =
      Some (rosterKeys (hbs_mainThreadPeers (fst (runMessages attributes ms s0))),
            roster_GetSeniorPeerID (hbs_mainThreadPeers (fst (runMessages attributes ms s0)))) \<and>
    rosterKeys (hbs_mainThreadPeers (fst (runMessages attributes (ms @ [(PZG_HEARTBEAT_COMMAND_PEERS_UPDATE, hbs)]) s0))) =
      hb_sourcePeerID ` set hbs"
proof
  have inv: "tabInv fst (hbs_mainThreadPeers s0)"
    by (simp add: s0_def tabInv_def)
  obtain s calls where s: "runMessages attributes ms s0 = (s, calls)"
    by fastforce
  show "listenAll (snd (runMessages attributes ms s0)) ({}, invalidPeerID) =
      Some (rosterKeys (hbs_mainThreadPeers (fst (runMessages attributes ms s0))),
            roster_GetSeniorPeerID (hbs_mainThreadPeers (fst (runMessages attributes ms s0))))"
    using runMessages_tells [OF inv s] s by (simp add: s0_def roster_GetSeniorPeerID_def)
  have "hbs_master s" "tabInv fst (hbs_mainThreadPeers s)"
    using runMessages_master [of attributes ms s0] runMessages_tells [OF inv s] s by (auto simp: s0_def)
  moreover obtain peers cs where u: "PeersUpdate attributes hbs (hbs_mainThreadPeers s) = (peers, cs)"
    by fastforce
  ultimately show "rosterKeys (hbs_mainThreadPeers (fst (runMessages attributes (ms @ [(PZG_HEARTBEAT_COMMAND_PEERS_UPDATE, hbs)]) s0))) =
      hb_sourcePeerID ` set hbs"
    using PeersUpdate_tells(2) [of "hbs_mainThreadPeers s" attributes hbs peers cs] s
    by (simp add: runMessages_append hbs_MessageReceivedFromInternalThread_def)
qed

end
