(* ===== verification/ZG_HeartbeatSources.thy ===== *)
theory ZG_HeartbeatSources
  imports ZG_Heartbeat
begin

text \<open>
  The sources of the heartbeat thread over time.  Housekeeping (ordering the peers, timing
  replies, averages, sending) leaves them as they are; a source is taken out when its expiration
  time has come and put in, behind the others, when it is heard.  So the addresses of a peer are
  listed in the order its sources came online, and a source stays exactly until it has not been
  heard for the expiration time.
\<close>

section \<open>What housekeeping keeps of the sources\<close>

text \<open>
  The sources in the order of the table, each with its expiration time and the time its last
  packet was received.
\<close>

definition heardView :: "'ip hb_thread \<Rightarrow> ('ip PZGHeartbeatSourceKey \<times> u64 \<times> u64) list" where
  "heardView t = map (\<lambda>(k, ss). (k, ss_localExpirationTimeMicros ss, hb_localReceiveTimeMicros (ss_hbPacket ss))) (ht_onlineSources t)"

definition sameSources :: "'ip hb_thread \<Rightarrow> 'ip hb_thread \<Rightarrow> bool" where
  "sameSources t t' \<longleftrightarrow> heardView t' = heardView t \<and>
     (\<forall>pid. tabGet fst pid (ht_peerIDToIPAddresses t') = tabGet fst pid (ht_peerIDToIPAddresses t)) \<and>
     ht_hbSettings t' = ht_hbSettings t \<and> ht_heartbeatExpirationTimeMicros t' = ht_heartbeatExpirationTimeMicros t"

lemma sameSources_refl [simp]: "sameSources t t"
  by (simp add: sameSources_def)

lemma sameSources_trans: "sameSources t t' \<Longrightarrow> sameSources t' t'' \<Longrightarrow> sameSources t t''"
  by (simp add: sameSources_def)

lemma sameSources_same:
  "ht_onlineSources t' = ht_onlineSources t \<Longrightarrow> ht_peerIDToIPAddresses t' = ht_peerIDToIPAddresses t \<Longrightarrow>
   ht_hbSettings t' = ht_hbSettings t \<Longrightarrow> ht_heartbeatExpirationTimeMicros t' = ht_heartbeatExpirationTimeMicros t \<Longrightarrow>
   sameSources t t'"
  by (simp add: sameSources_def heardView_def)

lemma map_tabPut_same:
  "tabGet fst k es = Some (k', ss) \<Longrightarrow> g ss' = g ss \<Longrightarrow>
   map (\<lambda>(k, ss). (k, g ss)) (tabPut fst (k, ss') es) = map (\<lambda>(k, ss). (k, g ss)) es"
  by (induction es) (auto split: if_splits)

lemma sameSources_put:
  assumes "tabGet fst k (ht_onlineSources t) = Some (k', ss)"
    and "ss_localExpirationTimeMicros ss' = ss_localExpirationTimeMicros ss"
    and "hb_localReceiveTimeMicros (ss_hbPacket ss') = hb_localReceiveTimeMicros (ss_hbPacket ss)"
  shows "sameSources t (t\<lparr> ht_onlineSources := tabPut fst (k, ss') (ht_onlineSources t) \<rparr>)"
  using map_tabPut_same [OF assms(1), of "\<lambda>ss. (ss_localExpirationTimeMicros ss, hb_localReceiveTimeMicros (ss_hbPacket ss))" ss'] assms(2,3)
  by (simp add: sameSources_def heardView_def)

lemma sameSources_map:
  assumes "\<And>ss. ss_localExpirationTimeMicros (f ss) = ss_localExpirationTimeMicros ss" "\<And>ss. ss_hbPacket (f ss) = ss_hbPacket ss"
  shows "sameSources t (t\<lparr> ht_onlineSources := map (\<lambda>(k, ss). (k, f ss)) (ht_onlineSources t) \<rparr>)"
  using assms by (simp add: sameSources_def heardView_def case_prod_unfold)

lemma CalculateOrderedPeersList_sources:
  assumes "CalculateOrderedPeersList L t = (pids, t')" "hbOK t"
  shows "sameSources t t'"
proof -
  obtain ps where ps: "mset ps = mset (ht_peerIDToIPAddresses t)" "t' = t\<lparr> ht_peerIDToIPAddresses := ps \<rparr>"
    using CalculateOrderedPeersList_keeps [OF assms(1)] by blast
  have inv: "tabInv fst (ht_peerIDToIPAddresses t)"
    using assms(2) by (simp add: hbOK_def)
  show ?thesis
    using tabGet_perm(1) [OF inv ps(1)] by (simp add: ps(2) sameSources_def heardView_def)
qed

lemma putTimingReply_sources: "sameSources (snd r) (snd (putTimingReply now pid ip r))"
proof -
  obtain info t where r: "r = (info, t)"
    by (cases r)
  show ?thesis
    unfolding r putTimingReply_def Let_def
    by (simp split: option.split) (auto intro!: sameSources_put)
qed

lemma putTimingReplies_sources: "sameSources (snd r) (snd (fold (putTimingReply now pid) ips r))"
proof (induction ips arbitrary: r)
  case (Cons ip ips)
  show ?case
    using sameSources_trans [OF putTimingReply_sources Cons] by simp
qed simp

lemma GetPZGHeartbeatPeerInfoRefFor_sources:
  "GetPZGHeartbeatPeerInfoRefFor now pid t = (info, t') \<Longrightarrow> sameSources t t'"
  using putTimingReplies_sources [of "(\<lparr> pi_peerID = pid, pi_timings = [] \<rparr>, t)" now pid]
  by (auto simp: GetPZGHeartbeatPeerInfoRefFor_def split: option.splits) (metis snd_conv)

lemma listPeers_sources: "listPeers pids t = (infos, t') \<Longrightarrow> sameSources t t'"
  by (induction pids arbitrary: t infos)
    (auto simp: Let_def split: prod.splits dest!: GetPZGHeartbeatPeerInfoRefFor_sources intro: sameSources_trans)

lemma fold_sources: "(\<And>x t. sameSources t (f x t)) \<Longrightarrow> sameSources t (fold f xs t)"
proof (induction xs arbitrary: t)
  case (Cons x xs)
  show ?case
    using sameSources_trans [OF Cons.prems Cons.IH [OF Cons.prems]] by simp
qed simp

lemma EnsureTags_sources:
  fixes t :: "'ip hb_thread"
  shows "sameSources t (EnsureHeartbeatSourceTagsTableUpdated L t)"
proof -
  have drop: "sameSources t (dropDestination dests e t)" for dests e and t :: "'ip hb_thread"
  proof -
    have "sameSources t (t\<lparr> ht_onlineSources := map (\<lambda>(k, ss). (k, DiscardRoundTripTimeAverager (fst e) ss)) (ht_onlineSources t) \<rparr>)"
      by (rule sameSources_map) (simp_all add: DiscardRoundTripTimeAverager_def)
    then show ?thesis
      by (cases e) (simp add: dropDestination_def sameSources_def heardView_def)
  qed
  have add: "sameSources t (addDestination ip t)" for ip and t :: "'ip hb_thread"
    by (rule sameSources_same) (simp_all add: addDestination_def Let_def)
  let ?t1 = "t\<lparr> ht_mdioKeys := ht_multicastDataIOs t \<rparr>"
  let ?d = "filter (hl_ipValid L) (map dio_dest (ht_multicastDataIOs t))"
  let ?t2 = "fold (dropDestination ?d) (ht_heartbeatSourceDestToTag t) ?t1"
  have "sameSources t ?t1"
    by (rule sameSources_same) simp_all
  then have t2: "sameSources t ?t2"
    by (rule sameSources_trans) (rule fold_sources, rule drop)
  have "sameSources ?t2 (fold addDestination ?d ?t2)"
    by (rule fold_sources) (rule add)
  with t2 have "sameSources t (fold addDestination ?d ?t2)"
    by (rule sameSources_trans)
  with t2 show ?thesis
    by (simp add: EnsureHeartbeatSourceTagsTableUpdated_def Let_def)
qed

lemma SendHeartbeatPackets_sources:
  assumes "SendHeartbeatPackets L clock t = (st, writes, t')" "hbOK t"
  shows "sameSources t t'"
proof (cases "ht_multicastDataIOs t = []")
  case True
  then show ?thesis
    using assms by (simp add: SendHeartbeatPackets_def)
next
  case False
  let ?t = "t\<lparr> ht_outgoingPacketIDCounter := ht_outgoingPacketIDCounter t + 1 \<rparr>"
  define lp where "lp = (if hbs_peerType (ht_hbSettings ?t) = PEER_TYPE_FULL_PEER \<and> ht_now ?t \<ge> ht_halfAttachedTime ?t
    then let (pids, t') = CalculateOrderedPeersList L ?t in listPeers pids t' else ([], ?t))"
  obtain infos t1 where lp': "lp = (infos, t1)"
    by (cases lp)
  obtain pids t'' where ord: "CalculateOrderedPeersList L ?t = (pids, t'')"
    by (cases "CalculateOrderedPeersList L ?t")
  have ok: "hbOK ?t"
    using assms(2) by simp
  have start: "sameSources t ?t"
    by (rule sameSources_same) simp_all
  have "sameSources ?t t1"
  proof (cases "hbs_peerType (ht_hbSettings ?t) = PEER_TYPE_FULL_PEER \<and> ht_now ?t \<ge> ht_halfAttachedTime ?t")
    case True
    then have "listPeers pids t'' = (infos, t1)"
      using lp' ord unfolding lp_def by simp
    then show ?thesis
      using sameSources_trans [OF CalculateOrderedPeersList_sources [OF ord ok] listPeers_sources] by blast
  next
    case False
    then have "t1 = ?t"
      using lp' unfolding lp_def by (simp only: if_False prod.inject)
    then show ?thesis
      by simp
  qed
  then have t1: "sameSources t t1"
    by (rule sameSources_trans [OF start])
  let ?e = "EnsureHeartbeatSourceTagsTableUpdated L t1"
  have "t' = t1 \<or> (\<exists>p now. t' = ?e\<lparr> ht_recentlySentHeartbeatLocalSendTimes :=
      sendTimesPut p now (ht_recentlySentHeartbeatLocalSendTimes ?e) \<rparr>)"
    using assms(1) False unfolding SendHeartbeatPackets_def Let_def lp_def [unfolded Let_def, symmetric] lp'
    by (auto split: sum.splits)
  moreover have "sameSources ?e (?e\<lparr> ht_recentlySentHeartbeatLocalSendTimes := x \<rparr>)" for x
    by (rule sameSources_same) simp_all
  ultimately show ?thesis
    using t1 sameSources_trans [OF sameSources_trans [OF t1 EnsureTags_sources]] by blast
qed

lemma sourceAverage_sources:
  assumes "sourceAverage L since k ss t = (avg, t')" "hbOK t" "tabGet fst k (ht_onlineSources t) = Some (k, ss)"
  shows "sameSources t t'"
proof -
  obtain a ss' where ss': "GetPreferredAverageValue L since ss = (a, ss')"
    by (cases "GetPreferredAverageValue L since ss")
  have "ssOK ss"
    using hbOK_source [OF assms(2,3)] by auto
  from GetPreferredAverageValue_OK [OF ss' this] show ?thesis
    using assms(1,3) ss' by (auto simp: sourceAverage_def intro!: sameSources_put)
qed

lemma UpdateToNetworkTimeOffset_sources:
  fixes t :: "'ip hb_thread"
  assumes "hbOK t"
  shows "sameSources t (UpdateToNetworkTimeOffset L t)"
proof -
  let ?t = "t\<lparr> ht_updateToNetworkTimeOffsetPending := False \<rparr>"
  have start: "sameSources t ?t" "sameSources t (?t\<lparr> ht_toNetworkTimeOffset := a, ht_mainThreadToNetworkTimeOffset := b \<rparr>)" for a b
    by (rule sameSources_same; simp)+
  have fin: "sameSources u (u\<lparr> ht_toNetworkTimeOffset := a, ht_mainThreadToNetworkTimeOffset := b \<rparr>)" for u :: "'ip hb_thread" and a b
    by (rule sameSources_same) simp_all
  show ?thesis
  proof (cases "firstSource (thread_GetSeniorPeerID ?t) ?t")
    case None
    then show ?thesis
      using start by (simp add: UpdateToNetworkTimeOffset_def Let_def)
  next
    case (Some e)
    obtain k ss where e: "e = (k, ss)"
      by (cases e)
    obtain avg t1 where t1: "sourceAverage L (ht_now ?t - ht_heartbeatExpirationTimeMicros ?t) k ss ?t = (avg, t1)"
      by (cases "sourceAverage L (ht_now ?t - ht_heartbeatExpirationTimeMicros ?t) k ss ?t")
    have "sameSources ?t t1"
      using sourceAverage_sources [OF t1] firstSource_has [of ?t] Some e assms by auto
    then have "sameSources t t1"
      by (rule sameSources_trans [OF start(1)])
    then show ?thesis
      using start Some e t1 sameSources_trans [OF _ fin] by (simp add: UpdateToNetworkTimeOffset_def Let_def)
  qed
qed

lemma UpdateOfficialPeersList_sources:
  assumes "UpdateOfficialPeersList L force t = (msg, t')" "hbOK t"
  shows "sameSources t t'"
proof -
  obtain idQ t1 where t1: "CalculateOrderedPeersList L t = (idQ, t1)"
    by (cases "CalculateOrderedPeersList L t")
  let ?u = "t1\<lparr> ht_lastSourcesSentToMaster := sourcesOf idQ t1 \<rparr>"
  have ok: "hbOK t1"
    using CalculateOrderedPeersList_keeps [OF t1] assms(2) by auto
  have 1: "sameSources t t1"
    by (rule CalculateOrderedPeersList_sources [OF t1 assms(2)])
  have "sameSources t1 ?u"
    by (rule sameSources_same) simp_all
  with 1 have 2: "sameSources t ?u"
    by (rule sameSources_trans)
  have "t' = UpdateToNetworkTimeOffset L t1 \<or> t' = UpdateToNetworkTimeOffset L ?u"
    using assms(1) by (auto simp: UpdateOfficialPeersList_def Let_def t1 split: if_splits)
  moreover have "hbOK ?u"
    using ok by simp
  ultimately show ?thesis
    using sameSources_trans [OF 1 UpdateToNetworkTimeOffset_sources [OF ok]]
      sameSources_trans [OF 2 UpdateToNetworkTimeOffset_sources [of ?u]] by blast
qed

lemma updateLatency_sources:
  assumes "hbOK t"
  shows "sameSources t (updateLatency L pid t)"
proof -
  obtain l t1 where t1: "(case firstSource pid t of None \<Rightarrow> (MUSCLE_TIME_NEVER, t)
      | Some (key, hss) \<Rightarrow> sourceAverage L 0 key hss t) = (l, t1)"
    by fastforce
  have "sameSources t t1"
  proof (cases "firstSource pid t")
    case (Some e)
    obtain k ss where e: "e = (k, ss)"
      by (cases e)
    then have avg: "sourceAverage L 0 k ss t = (l, t1)"
      using t1 Some by simp
    show ?thesis
      using sourceAverage_sources [OF avg assms] firstSource_has [OF assms] Some e by simp
  qed (use t1 in simp)
  moreover have "sameSources t1 (t1\<lparr> ht_mainThreadLatencies := x \<rparr>)" for x
    by (rule sameSources_same) simp_all
  ultimately have "sameSources t (t1\<lparr> ht_mainThreadLatencies := x \<rparr>)" for x
    by (rule sameSources_trans)
  then show ?thesis
    using t1 by (simp add: updateLatency_def Let_def)
qed

lemma updateLatencies_sources:
  "hbOK t \<Longrightarrow> set pids \<subseteq> fst ` set (ht_peerIDToIPAddresses t) \<Longrightarrow> sameSources t (fold (updateLatency L) pids t)"
proof (induction pids arbitrary: t)
  case (Cons pid pids)
  then have "hbOK (updateLatency L pid t)" "set pids \<subseteq> fst ` set (ht_peerIDToIPAddresses (updateLatency L pid t))"
    using updateLatency_OK [of t pid L] by auto
  then show ?case
    using sameSources_trans [OF updateLatency_sources Cons.IH] Cons.prems by simp
qed simp


lemma map_fst_view: "map fst (heardView t) = map fst (ht_onlineSources t)"
  by (simp add: heardView_def case_prod_unfold o_def)

lemma sameSources_lookup:
  assumes "sameSources t t'"
  shows "map fst (ht_onlineSources t') = map fst (ht_onlineSources t)"
    and "(\<exists>ss. (k, ss) \<in> set (ht_onlineSources t') \<and> P (ss_localExpirationTimeMicros ss) (hb_localReceiveTimeMicros (ss_hbPacket ss))) \<longleftrightarrow>
      (\<exists>ss. (k, ss) \<in> set (ht_onlineSources t) \<and> P (ss_localExpirationTimeMicros ss) (hb_localReceiveTimeMicros (ss_hbPacket ss)))"
proof -
  have view: "heardView t' = heardView t"
    using assms by (simp add: sameSources_def)
  show "map fst (ht_onlineSources t') = map fst (ht_onlineSources t)"
    using view map_fst_view by metis
  have "(\<exists>ss. (k, ss) \<in> set (ht_onlineSources u) \<and> P (ss_localExpirationTimeMicros ss) (hb_localReceiveTimeMicros (ss_hbPacket ss))) \<longleftrightarrow>
      (\<exists>e r. (k, e, r) \<in> set (heardView u) \<and> P e r)" for u
    by (force simp: heardView_def)
  then show "(\<exists>ss. (k, ss) \<in> set (ht_onlineSources t') \<and> P (ss_localExpirationTimeMicros ss) (hb_localReceiveTimeMicros (ss_hbPacket ss))) \<longleftrightarrow>
      (\<exists>ss. (k, ss) \<in> set (ht_onlineSources t) \<and> P (ss_localExpirationTimeMicros ss) (hb_localReceiveTimeMicros (ss_hbPacket ss)))"
    by (simp only: view)
qed

section \<open>Addresses and expiration times\<close>

definition addressesOf :: "'ip hb_thread \<Rightarrow> ZGPeerID \<Rightarrow> 'ip list" where
  "addressesOf t pid = (case tabGet fst pid (ht_peerIDToIPAddresses t) of None \<Rightarrow> [] | Some (_, q) \<Rightarrow> q)"

text \<open>When the source of a packet expires: the peer's own heartbeats never do.\<close>

definition expiresAt :: "'ip hb_thread \<Rightarrow> 'ip PZGHeartbeatSourceKey \<Rightarrow> u64 \<Rightarrow> u64" where
  "expiresAt t k received =
     (if src_peerID k = hbs_localPeerID (ht_hbSettings t) then MUSCLE_TIME_NEVER
      else received + ht_heartbeatExpirationTimeMicros t)"

definition hbHeard :: "'ip hb_thread \<Rightarrow> bool" where
  "hbHeard t \<longleftrightarrow>
     (\<forall>pid. addressesOf t pid = map src_address (filter (\<lambda>k. src_peerID k = pid) (map fst (ht_onlineSources t)))) \<and>
     (\<forall>k e r. (k, e, r) \<in> set (heardView t) \<longrightarrow> e = expiresAt t k r)"

lemma hbHeard_same:
  assumes "sameSources t t'" "hbHeard t"
  shows "hbHeard t'"
proof -
  have "addressesOf t' = addressesOf t" "expiresAt t' = expiresAt t" "heardView t' = heardView t"
    using assms(1) by (simp_all add: sameSources_def addressesOf_def expiresAt_def fun_eq_iff)
  then show ?thesis
    using assms(2) sameSources_lookup(1) [OF assms(1)] by (simp add: hbHeard_def)
qed

lemma hbHeard_source:
  "hbHeard t \<Longrightarrow> (k, ss) \<in> set (ht_onlineSources t) \<Longrightarrow>
   ss_localExpirationTimeMicros ss = expiresAt t k (hb_localReceiveTimeMicros (ss_hbPacket ss))"
  unfolding hbHeard_def heardView_def by fastforce

text \<open>Taking one source out, and adding one at the end.\<close>

lemma remove1_addresses:
  "distinct ks \<Longrightarrow> map src_address (filter (\<lambda>k'. src_peerID k' = pid) (filter (\<lambda>k'. k' \<noteq> PZGHeartbeatSourceKey ip pid) ks)) =
     remove1 ip (map src_address (filter (\<lambda>k'. src_peerID k' = pid) ks))"
proof (induction ks)
  case (Cons k ks)
  show ?case
  proof (cases "k = PZGHeartbeatSourceKey ip pid")
    case True
    then have "filter (\<lambda>k'. k' \<noteq> k) ks = ks"
      using Cons.prems by (auto simp: filter_id_conv)
    then show ?thesis
      using True by simp
  next
    case False
    then have "src_peerID k = pid \<Longrightarrow> src_address k \<noteq> ip"
      by (cases k) auto
    then show ?thesis
      using Cons False by auto
  qed
qed simp

lemma other_addresses:
  "pid' \<noteq> pid \<Longrightarrow> filter (\<lambda>k'. k' \<noteq> PZGHeartbeatSourceKey ip pid \<and> src_peerID k' = pid') ks =
     filter (\<lambda>k'. src_peerID k' = pid') ks"
  by (induction ks) auto

lemma map_fst_tabRemove: "map fst (tabRemove fst k es) = filter (\<lambda>k'. k' \<noteq> k) (map fst es)"
  by (simp add: tabRemove_def filter_map o_def)

lemma ExpireSource_heard:
  assumes "hbOK t" "hbHeard t"
  shows "hbHeard (ExpireSource k t)"
proof (cases "tabGet fst k (ht_onlineSources t)")
  case None
  then show ?thesis
    using assms by (simp add: ExpireSource_def)
next
  case (Some e)
  obtain ip pid where k: "k = PZGHeartbeatSourceKey ip pid"
    by (cases k)
  obtain k' ss where e: "tabGet fst (PZGHeartbeatSourceKey ip pid) (ht_onlineSources t) = Some (k', ss)"
    using Some k by (cases e) auto
  have pid: "hb_sourcePeerID (ss_hbPacket ss) = pid"
    using hbOK_source [OF assms(1) e] by simp
  have "tabHas fst (PZGHeartbeatSourceKey ip pid) (ht_onlineSources t)"
    using e by simp
  then obtain ips where ips: "tabGet fst pid (ht_peerIDToIPAddresses t) = Some (pid, ips)" "ip \<in> set ips"
    using assms(1) unfolding hbOK_def by blast
  let ?t = "ExpireSource (PZGHeartbeatSourceKey ip pid) t"
  note known = ExpireSource_known [OF e pid ips]
  have dist: "distinct (map fst (ht_onlineSources t))"
    using assms(1) by (simp add: hbOK_def tabInv_def)
  have addr: "addressesOf t pid' = map src_address (filter (\<lambda>k. src_peerID k = pid') (map fst (ht_onlineSources t)))" for pid'
    using assms(2) unfolding hbHeard_def by blast
  have "addressesOf ?t pid' = (if pid' = pid then remove1 ip (addressesOf t pid) else addressesOf t pid')" for pid'
    unfolding known by (simp add: addressesOf_def ScheduleUpdateOfficialPeersList_def tabGet_tabRemove tabGet_tabPut ips(1))
  moreover have "map fst (ht_onlineSources ?t) = filter (\<lambda>k'. k' \<noteq> PZGHeartbeatSourceKey ip pid) (map fst (ht_onlineSources t))"
    by (simp only: ExpireSource_tables map_fst_tabRemove)
  ultimately have "addressesOf ?t pid' = map src_address (filter (\<lambda>k. src_peerID k = pid') (map fst (ht_onlineSources ?t)))" for pid'
    using remove1_addresses [OF dist] by (cases "pid' = pid") (simp_all add: addr other_addresses)
  moreover have "set (heardView ?t) \<subseteq> set (heardView t)"
    by (auto simp: heardView_def ExpireSource_tables tabRemove_def)
  moreover have "expiresAt ?t = expiresAt t"
    unfolding known by (simp add: expiresAt_def ScheduleUpdateOfficialPeersList_def fun_eq_iff)
  ultimately show ?thesis
    using assms(2) unfolding k hbHeard_def by (auto simp: subset_iff)
qed

lemma IntroduceSource_heard:
  assumes "hbHeard t" "\<not> tabHas fst k (ht_onlineSources t)" "hb_sourcePeerID newHB = src_peerID k"
    and "expiry = expiresAt t k (hb_localReceiveTimeMicros newHB)"
  shows "hbHeard (IntroduceSource k newHB expiry t)"
proof -
  let ?t = "IntroduceSource k newHB expiry t"
  have new: "ht_onlineSources ?t = ht_onlineSources t @ [(k, newPZGHeartbeatSourceState 20 newHB expiry)]"
    using assms(2) tabPut_fresh [of fst "(k, newPZGHeartbeatSourceState 20 newHB expiry)" "ht_onlineSources t"]
    by (simp add: IntroduceSource_def Let_def ScheduleUpdateOfficialPeersList_def tabGet_eq_None)
  have "addressesOf ?t pid = addressesOf t pid @ (if pid = src_peerID k then [src_address k] else [])" for pid
    using assms(3) by (simp add: addressesOf_def IntroduceSource_def Let_def ScheduleUpdateOfficialPeersList_def tabGet_tabPut split: option.split)
  then have "addressesOf ?t pid = map src_address (filter (\<lambda>k. src_peerID k = pid) (map fst (ht_onlineSources ?t)))" for pid
    using assms(1) by (simp add: hbHeard_def new)
  moreover have "expiresAt ?t = expiresAt t"
    by (simp add: expiresAt_def IntroduceSource_def Let_def ScheduleUpdateOfficialPeersList_def fun_eq_iff)
  moreover have "heardView ?t = heardView t @ [(k, expiry, hb_localReceiveTimeMicros newHB)]"
    by (simp add: heardView_def new newPZGHeartbeatSourceState_def)
  ultimately show ?thesis
    using assms(1,4) by (auto simp: hbHeard_def)
qed


lemma SetHeartbeatPacket_heard:
  assumes "hbHeard t" "tabGet fst k (ht_onlineSources t) = Some (k', ss)"
    and "expiry = expiresAt t k (hb_localReceiveTimeMicros newHB)"
  shows "hbHeard (t\<lparr> ht_onlineSources := tabPut fst (k, SetHeartbeatPacket newHB expiry ss) (ht_onlineSources t) \<rparr>)"
proof -
  define ss' where "ss' = SetHeartbeatPacket newHB expiry ss"
  define t' where "t' = t\<lparr> ht_onlineSources := tabPut fst (k, ss') (ht_onlineSources t) \<rparr>"
  have ss': "ss_localExpirationTimeMicros ss' = expiry" "ss_hbPacket ss' = newHB"
    by (simp_all add: ss'_def SetHeartbeatPacket_def)
  have "map fst (tabPut fst (k, ss') es) = map fst es" if "tabGet fst k es = Some (k', ss)" for es
    using that by (induction es) (auto split: if_splits)
  then have keys: "map fst (ht_onlineSources t') = map fst (ht_onlineSources t)"
    using assms(2) by (simp add: t'_def)
  have view: "(k2, e, r) \<in> set (heardView t') \<Longrightarrow>
      (k2, e, r) = (k, expiry, hb_localReceiveTimeMicros newHB) \<or> (k2, e, r) \<in> set (heardView t)" for k2 e r
    using ss' by (auto simp: heardView_def t'_def image_iff dest!: in_tabPut)
  have same: "addressesOf t' = addressesOf t" "expiresAt t' = expiresAt t"
    by (simp_all add: addressesOf_def expiresAt_def fun_eq_iff t'_def)
  have "e = expiresAt t k2 r" if "(k2, e, r) \<in> set (heardView t')" for k2 e r
    using view [OF that] assms(1,3) unfolding hbHeard_def by blast
  then have "hbHeard t'"
    using assms(1) unfolding hbHeard_def same keys by blast
  then show ?thesis
    unfolding t'_def ss'_def .
qed

lemma Schedule_sources:
  "sameSources t (ScheduleUpdateOfficialPeersList b t)" "sameSources t (ScheduleUpdateToNetworkTimeOffset t)"
  by (rule sameSources_same; simp add: ScheduleUpdateOfficialPeersList_def ScheduleUpdateToNetworkTimeOffset_def)+

lemma noteHeartbeat_heard:
  assumes "hbOK t" "hbHeard t" "hb_sourcePeerID newHB = src_peerID k" "hb_localReceiveTimeMicros newHB = now"
  shows "hbHeard (noteHeartbeat k newHB now t)"
proof -
  let ?exp = "if hb_sourcePeerID newHB = hbs_localPeerID (ht_hbSettings t) then MUSCLE_TIME_NEVER
            else now + ht_heartbeatExpirationTimeMicros t"
  define xp where "xp = ?exp"
  have exp: "xp = expiresAt t k (hb_localReceiveTimeMicros newHB)"
    using assms(3,4) by (simp add: expiresAt_def xp_def)
  define t1 where "t1 = (case tabGet fst k (ht_onlineSources t) of
                  Some (_, oldSource) \<Rightarrow>
                    let oldHB = ss_hbPacket oldSource
                    in if IsEqualIgnoreTransients newHB oldHB
                       then let t' = (if hb_isFullyAttached oldHB \<noteq> hb_isFullyAttached newHB
                                      then ScheduleUpdateOfficialPeersList True t else t)
                            in t'\<lparr> ht_onlineSources := tabPut fst (k, SetHeartbeatPacket newHB xp oldSource) (ht_onlineSources t') \<rparr>
                       else IntroduceSource k newHB xp (ExpireSource k t)
                | None \<Rightarrow> IntroduceSource k newHB xp t)"
  have "expiresAt (ExpireSource k t) = expiresAt t"
    by (auto simp: expiresAt_def fun_eq_iff ExpireSource_def Let_def ScheduleUpdateOfficialPeersList_def split: option.splits)
  then have known: "hbHeard (IntroduceSource k newHB xp (ExpireSource k t))"
    using assms(3) exp
    by (intro IntroduceSource_heard ExpireSource_heard assms(1,2)) (simp_all add: ExpireSource_tables tabGet_tabRemove)
  have fresh: "hbHeard (IntroduceSource k newHB xp t)" if "tabGet fst k (ht_onlineSources t) = None"
    using that assms(2,3) exp by (intro IntroduceSource_heard) simp_all
  have replace: "hbHeard (t'\<lparr> ht_onlineSources := tabPut fst (k, SetHeartbeatPacket newHB xp ss) (ht_onlineSources t') \<rparr>)"
    if "tabGet fst k (ht_onlineSources t) = Some (k', ss)" "t' = t \<or> t' = ScheduleUpdateOfficialPeersList True t" for t' k' ss
  proof (rule SetHeartbeatPacket_heard)
    show "hbHeard t'"
      using that(2) assms(2) hbHeard_same [OF Schedule_sources(1)] by auto
    show "tabGet fst k (ht_onlineSources t') = Some (k', ss)"
      using that by (auto simp: ScheduleUpdateOfficialPeersList_def)
    show "xp = expiresAt t' k (hb_localReceiveTimeMicros newHB)"
      using that(2) exp by (auto simp: expiresAt_def ScheduleUpdateOfficialPeersList_def)
  qed
  have t1: "hbHeard t1"
  proof (cases "tabGet fst k (ht_onlineSources t)")
    case None
    then show ?thesis
      using fresh by (simp add: t1_def)
  next
    case (Some e)
    obtain k' ss where e: "e = (k', ss)"
      by (cases e)
    let ?put = "\<lambda>t'. t'\<lparr> ht_onlineSources := tabPut fst (k, SetHeartbeatPacket newHB xp ss) (ht_onlineSources t') \<rparr>"
    have "t1 = ?put (ScheduleUpdateOfficialPeersList True t) \<or> t1 = ?put t \<or> t1 = IntroduceSource k newHB xp (ExpireSource k t)"
      unfolding t1_def Some e option.case prod.case Let_def by (cases "IsEqualIgnoreTransients newHB (ss_hbPacket ss)") (simp_all only: if_True if_False simp_thms split: if_split)
    then show ?thesis
      using known replace [OF Some [unfolded e]] by blast
  qed
  define t2 where "t2 = (if \<not> ht_updateOfficialPeersListPending t1 \<and> hb_sourcePeerID newHB = GetKingmakerPeerID t1
                then ScheduleUpdateOfficialPeersList False t1 else t1)"
  have t2: "hbHeard t2"
    using t1 hbHeard_same [OF Schedule_sources(1)] by (auto simp: t2_def)
  have "noteHeartbeat k newHB now t =
      (if hb_sourcePeerID newHB = thread_GetSeniorPeerID t2 then ScheduleUpdateToNetworkTimeOffset t2 else t2)"
    unfolding noteHeartbeat_def Let_def t2_def t1_def xp_def by (rule refl)
  then show ?thesis
    using t2 hbHeard_same [OF Schedule_sources(2)] by auto
qed

lemma noteHeartbeat_other:
  assumes "k' \<noteq> k"
  shows "tabGet fst k' (ht_onlineSources (noteHeartbeat k newHB now t)) = tabGet fst k' (ht_onlineSources t)"
  using assms
  by (auto simp: noteHeartbeat_def Let_def ScheduleUpdateOfficialPeersList_def ScheduleUpdateToNetworkTimeOffset_def
      IntroduceSource_def ExpireSource_tables tabGet_tabPut tabGet_tabRemove split: option.split)

lemma ss_AddMeasurement_keeps:
  "ss_AddMeasurement sa ip m now ss = Some ss' \<Longrightarrow>
   ss_localExpirationTimeMicros ss' = ss_localExpirationTimeMicros ss \<and> ss_hbPacket ss' = ss_hbPacket ss"
  by (auto simp: ss_AddMeasurement_def Let_def)

lemma measureRoundTrip_sources:
  "measureRoundTrip L k newHB now t = Some t' \<Longrightarrow> sameSources t t'"
  unfolding measureRoundTrip_def Let_def
  by (auto split: option.splits dest!: ss_AddMeasurement_keeps intro!: sameSources_put)

lemma measureRoundTrip_other:
  "measureRoundTrip L k newHB now t = Some t' \<Longrightarrow> k' \<noteq> k \<Longrightarrow>
   tabGet fst k' (ht_onlineSources t') = tabGet fst k' (ht_onlineSources t)"
  unfolding measureRoundTrip_def Let_def by (auto simp: tabGet_tabPut split: option.splits)

lemma measureRoundTrip_settings:
  "measureRoundTrip L k newHB now t = Some t' \<Longrightarrow> ht_hbSettings t' = ht_hbSettings t"
  unfolding measureRoundTrip_def Let_def by (auto split: option.splits)

lemma noteHeartbeat_settings: "ht_hbSettings (noteHeartbeat k newHB now t) = ht_hbSettings t"
  by (auto simp: noteHeartbeat_def Let_def ScheduleUpdateOfficialPeersList_def ScheduleUpdateToNetworkTimeOffset_def
      IntroduceSource_def ExpireSource_def split: option.split)

section \<open>What is heard in a turn\<close>

text \<open>The source a \<open>Read\<close> hears: a well-formed heartbeat of the same version and system.\<close>

fun heardIn :: "('u, 'ip) hb_lib \<Rightarrow> hb_settings \<Rightarrow> 'ip read_result \<Rightarrow> 'ip PZGHeartbeatSourceKey option" where
  "heardIn L s ReadError = None"
| "heardIn L s (ReadBytes buf ip now) =
     (case ParseHeartbeatPacketBuffer (hl_wire L) (hl_satmul32 L) (hl_csum L) (hl_inflate L) buf ip now of
        Inl _ \<Rightarrow> None
      | Inr newHB \<Rightarrow>
          (if hb_versionCode newHB = hbs_versionCode s \<and> hb_systemKey newHB = hbs_systemKey s
           then Some (PZGHeartbeatSourceKey ip (hb_sourcePeerID newHB)) else None))"

lemma Parse_receive_time:
  "ParseHeartbeatPacketBuffer W satmul csum inflate buf ip now = Inr hb \<Longrightarrow> hb_localReceiveTimeMicros hb = now"
  by (auto simp: ParseHeartbeatPacketBuffer_def PZGHeartbeatPacket.extend_def split: if_splits sum.splits prod.splits option.splits)

lemma receiveDatagram_cases:
  assumes "receiveDatagram L buf ip now t = Some t'"
  obtains "t' = t" "heardIn L (ht_hbSettings t) (ReadBytes buf ip now) = None"
  | newHB t1 where "ParseHeartbeatPacketBuffer (hl_wire L) (hl_satmul32 L) (hl_csum L) (hl_inflate L) buf ip now = Inr newHB"
      "heardIn L (ht_hbSettings t) (ReadBytes buf ip now) = Some (PZGHeartbeatSourceKey ip (hb_sourcePeerID newHB))"
      "measureRoundTrip L (PZGHeartbeatSourceKey ip (hb_sourcePeerID newHB)) newHB now t = Some t1"
      "t' = noteHeartbeat (PZGHeartbeatSourceKey ip (hb_sourcePeerID newHB)) newHB now t1"
  using assms by (auto simp: receiveDatagram_def Let_def split: sum.splits if_splits)

lemma receiveDatagram_heard:
  assumes "receiveDatagram L buf ip now t = Some t'" "hbOK t" "hbHeard t"
  shows "hbHeard t' \<and> ht_hbSettings t' = ht_hbSettings t \<and>
    (heardIn L (ht_hbSettings t) (ReadBytes buf ip now) \<noteq> Some k \<longrightarrow>
       tabGet fst k (ht_onlineSources t') = tabGet fst k (ht_onlineSources t))"
  using assms(1)
proof (cases rule: receiveDatagram_cases)
  case (2 newHB t1)
  let ?k = "PZGHeartbeatSourceKey ip (hb_sourcePeerID newHB)"
  have t1: "hbOK t1" "hbHeard t1"
    using measureRoundTrip_returns [OF assms(2), of L ?k newHB now] 2(3) hbHeard_same [OF measureRoundTrip_sources [OF 2(3)] assms(3)]
    by auto
  then have "hbHeard t'"
    unfolding 2(4) using Parse_receive_time [OF 2(1)] by (intro noteHeartbeat_heard) simp_all
  moreover have "ht_hbSettings t' = ht_hbSettings t"
    unfolding 2(4) noteHeartbeat_settings by (rule measureRoundTrip_settings [OF 2(3)])
  moreover have "tabGet fst k (ht_onlineSources t') = tabGet fst k (ht_onlineSources t)"
    if "heardIn L (ht_hbSettings t) (ReadBytes buf ip now) \<noteq> Some k"
  proof -
    have "k \<noteq> ?k"
      using that 2(2) by auto
    then show ?thesis
      unfolding 2(4) by (simp add: noteHeartbeat_other measureRoundTrip_other [OF 2(3)])
  qed
  ultimately show ?thesis
    by blast
qed (use assms(3) in simp_all)

definition quietReads :: "('u, 'ip) hb_lib \<Rightarrow> hb_settings \<Rightarrow> 'ip PZGHeartbeatSourceKey \<Rightarrow> 'ip read_result list \<Rightarrow> bool" where
  "quietReads L s k rs \<longleftrightarrow> (\<forall>r \<in> set rs. heardIn L s r \<noteq> Some k)"

lemma ReceiveMulticastTraffic_heard:
  "ReceiveMulticastTraffic L rs t = Some t' \<Longrightarrow> hbOK t \<Longrightarrow> hbHeard t \<Longrightarrow>
   hbHeard t' \<and> ht_hbSettings t' = ht_hbSettings t \<and>
   (quietReads L (ht_hbSettings t) k rs \<longrightarrow> tabGet fst k (ht_onlineSources t') = tabGet fst k (ht_onlineSources t))"
proof (induction L rs t arbitrary: t' rule: ReceiveMulticastTraffic.induct)
  case (3 L buf ip now rs t)
  show ?case
  proof (cases "buf = []")
    case False
    then obtain t1 where t1: "receiveDatagram L buf ip now t = Some t1" "ReceiveMulticastTraffic L rs t1 = Some t'"
      using "3.prems"(1) by (auto simp: bind_eq_Some_conv)
    have ok: "hbOK t1"
      using receiveDatagram_returns [OF "3.prems"(2), of L buf ip now] t1(1) by auto
    note one = receiveDatagram_heard [OF t1(1) "3.prems"(2,3), of k]
    show ?thesis
      using "3.IH" [OF False t1 ok conjunct1 [OF one]] one by (simp add: quietReads_def)
  qed (use "3.prems" in simp)
qed simp_all

lemma serveSockets_heard:
  "serveSockets L rss t = Some t' \<Longrightarrow> hbOK t \<Longrightarrow> hbHeard t \<Longrightarrow>
   hbHeard t' \<and> (quietReads L (ht_hbSettings t) k (concat rss) \<longrightarrow> tabGet fst k (ht_onlineSources t') = tabGet fst k (ht_onlineSources t))"
proof (induction rss arbitrary: t)
  case (Cons rs rss)
  obtain t1 where t1: "ReceiveMulticastTraffic L rs t = Some t1" "serveSockets L rss t1 = Some t'"
    using Cons.prems(1) by (auto simp: bind_eq_Some_conv)
  have ok: "hbOK t1"
    using ReceiveMulticastTraffic_returns [OF Cons.prems(2), of L rs] t1(1) by auto
  note one = ReceiveMulticastTraffic_heard [OF t1(1) Cons.prems(2,3), of k]
  show ?case
    using Cons.IH [OF t1(2) ok conjunct1 [OF one]] one by (auto simp: quietReads_def)
qed simp


section \<open>Pulse and turn\<close>

lemma pulseUpdates_sources:
  assumes "pulseUpdates L t = (m, t1)" "hbOK t"
  shows "sameSources t t1"
proof (cases "ht_updateOfficialPeersListPending t")
  case True
  let ?t = "t\<lparr> ht_updateOfficialPeersListPending := False, ht_forceOfficialPeersUpdate := False \<rparr>"
  have "UpdateOfficialPeersList L (ht_forceOfficialPeersUpdate t) ?t = (m, t1)"
    using assms(1) True by (simp add: pulseUpdates_def)
  then have "sameSources ?t t1"
    by (rule UpdateOfficialPeersList_sources) (simp add: assms(2))
  moreover have "sameSources t ?t"
    by (rule sameSources_same) simp_all
  ultimately show ?thesis
    using sameSources_trans by blast
qed (use assms(1) in \<open>simp add: pulseUpdates_def\<close>)

lemma ht_Pulse_sources:
  assumes "ht_Pulse L clock t = (msg, writes, t')" "hbOK t"
  obtains t3 where "hbOK t3" "ht_now t3 = ht_now t" "sameSources t t3" "sameSources (expireSources t3) t'"
proof -
  obtain m t1 t2 st ws s t3 where stages: "pulseUpdates L t = (m, t1)"
    "t2 = (if ht_updateToNetworkTimeOffsetPending t1 then UpdateToNetworkTimeOffset L t1 else t1)"
    "SendHeartbeatPackets L clock (t2\<lparr> ht_nextSendHeartbeatTime := ht_now t2 + ht_heartbeatPingInterval t2 \<rparr>) = (st, ws, s)"
    "t3 = t2 \<or> t3 = fold (updateLatency L) (map fst (ht_peerIDToIPAddresses s)) s"
    "t' = expireSources t3 \<or> t' = ScheduleUpdateOfficialPeersList True ((expireSources t3)\<lparr> ht_fullAttachmentReported := True \<rparr>)"
    using ht_Pulse_stages [OF assms(1)] .
  let ?t2 = "t2\<lparr> ht_nextSendHeartbeatTime := ht_now t2 + ht_heartbeatPingInterval t2 \<rparr>"
  have 1: "hbOK t1" "ht_now t1 = ht_now t" "sameSources t t1"
    using pulseUpdates_OK [OF stages(1) assms(2)] pulseUpdates_sources [OF stages(1) assms(2)] by auto
  have 2: "hbOK t2" "ht_now t2 = ht_now t" "sameSources t t2"
    using 1 sameSources_trans [OF 1(3) UpdateToNetworkTimeOffset_sources [OF 1(1), of L]] by (simp_all add: stages(2) UpdateToNetworkTimeOffset_OK)
  have "sameSources t2 ?t2"
    by (rule sameSources_same) simp_all
  moreover have s: "hbOK s" "ht_now s = ht_now t" "sameSources ?t2 s"
    using SendHeartbeatPackets_OK [OF stages(3)] SendHeartbeatPackets_sources [OF stages(3)] 2 by simp_all
  ultimately have "sameSources t s"
    using 2(3) sameSources_trans by blast
  then have "sameSources t (fold (updateLatency L) (map fst (ht_peerIDToIPAddresses s)) s)"
    by (rule sameSources_trans) (rule updateLatencies_sources [OF s(1)], simp)
  then have 3: "hbOK t3" "ht_now t3 = ht_now t" "sameSources t t3"
    using stages(4) 2 s(2) updateLatencies_OK [OF s(1), of "map fst (ht_peerIDToIPAddresses s)" L] by auto
  have "sameSources (expireSources t3)
      (ScheduleUpdateOfficialPeersList True ((expireSources t3)\<lparr> ht_fullAttachmentReported := True \<rparr>))"
    by (rule sameSources_same) (simp_all add: ScheduleUpdateOfficialPeersList_def)
  then have "sameSources (expireSources t3) t'"
    using stages(5) by auto
  with 3 show thesis
    by (rule that)
qed

lemma expireSources_heard:
  assumes "hbOK t" "hbHeard t"
  shows "hbHeard (expireSources t)" "ht_hbSettings (expireSources t) = ht_hbSettings t"
proof -
  have settings: "ht_hbSettings (ExpireSource k u) = ht_hbSettings u" for k and u :: "'a hb_thread"
    by (auto simp: ExpireSource_def Let_def ScheduleUpdateOfficialPeersList_def split: option.splits)
  have "hbOK u \<and> hbHeard u \<Longrightarrow>
      hbHeard (fold (\<lambda>(k, ss) t'. if ht_now t' \<ge> ss_localExpirationTimeMicros ss then ExpireSource k t' else t') xs u) \<and>
      ht_hbSettings (fold (\<lambda>(k, ss) t'. if ht_now t' \<ge> ss_localExpirationTimeMicros ss then ExpireSource k t' else t') xs u) = ht_hbSettings u"
    for xs :: "('a PZGHeartbeatSourceKey \<times> 'a PZGHeartbeatSourceState) list" and u
  proof (induction xs arbitrary: u)
    case (Cons x xs)
    obtain k ss where x: "x = (k, ss)"
      by (cases x)
    show ?case
      using Cons.IH [of "ExpireSource k u"] Cons.IH [of u] Cons.prems ExpireSource_OK [of u k] ExpireSource_heard [of u k]
      by (simp add: x settings)
  qed simp
  then show "hbHeard (expireSources t)" "ht_hbSettings (expireSources t) = ht_hbSettings t"
    using assms unfolding expireSources_def by blast+
qed

lemma tabGet_filter_key: "tabGet fst k (filter (\<lambda>(k, _). P k) es) = (if P k then tabGet fst k es else None)"
  by (induction es) auto

lemma expireSources_exact:
  assumes "hbOK t"
  shows "tabHas fst k (ht_onlineSources (expireSources t)) \<longleftrightarrow>
    (\<exists>ss. (k, ss) \<in> set (ht_onlineSources t) \<and> ht_now t < ss_localExpirationTimeMicros ss)"
proof -
  have inv: "tabInv fst (ht_onlineSources t)"
    using assms by (simp add: hbOK_def)
  have unique: "(k, ss) \<in> set (ht_onlineSources t) \<Longrightarrow> (k, ss') \<in> set (ht_onlineSources t) \<Longrightarrow> ss' = ss" for ss ss'
    using tabGet_mem [OF inv, of "(k, ss)"] tabGet_mem [OF inv, of "(k, ss')"] by simp
  let ?P = "\<lambda>k. \<forall>(k', ss') \<in> set (ht_onlineSources t). k' = k \<longrightarrow> ht_now t < ss_localExpirationTimeMicros ss'"
  have "ht_onlineSources (expireSources t) = filter (\<lambda>(k, _). ?P k) (ht_onlineSources t)"
    using expireSources_fold [of "ht_onlineSources t" t] unfolding expireSources_def by blast
  then have "tabHas fst k (ht_onlineSources (expireSources t)) \<longleftrightarrow> ?P k \<and> k \<in> fst ` set (ht_onlineSources t)"
    using tabGet_filter_key [of k ?P "ht_onlineSources t"] by (simp add: tabGet_eq_None del: not_None_eq)
  also have "\<dots> \<longleftrightarrow> (\<exists>ss. (k, ss) \<in> set (ht_onlineSources t) \<and> ht_now t < ss_localExpirationTimeMicros ss)"
  proof
    assume "?P k \<and> k \<in> fst ` set (ht_onlineSources t)"
    then obtain ss where "(k, ss) \<in> set (ht_onlineSources t)" "?P k"
      by auto
    then show "\<exists>ss. (k, ss) \<in> set (ht_onlineSources t) \<and> ht_now t < ss_localExpirationTimeMicros ss"
      by blast
  next
    assume "\<exists>ss. (k, ss) \<in> set (ht_onlineSources t) \<and> ht_now t < ss_localExpirationTimeMicros ss"
    then obtain ss where ss: "(k, ss) \<in> set (ht_onlineSources t)" "ht_now t < ss_localExpirationTimeMicros ss"
      by blast
    then have "?P k"
      using unique [OF ss(1)] by blast
    moreover have "k \<in> fst ` set (ht_onlineSources t)"
      using ss(1) by (rule rev_image_eqI) simp
    ultimately show "?P k \<and> k \<in> fst ` set (ht_onlineSources t)"
      by blast
  qed
  finally show ?thesis .
qed

lemma hbTurn_heard:
  assumes "hbTurn L i t = Some (msg, writes, t')" "hbOK t" "hbHeard t"
  shows "hbHeard t' \<and> (quietReads L (ht_hbSettings t) k (concat (turn_reads i)) \<longrightarrow>
    (tabHas fst k (ht_onlineSources t') \<longleftrightarrow>
      (\<exists>ss. (k, ss) \<in> set (ht_onlineSources t) \<and> turn_time i < ss_localExpirationTimeMicros ss)))"
proof -
  define t1 where "t1 = (if ht_recreateMulticastDataIOsRequested t
                then t\<lparr> ht_recreateMulticastDataIOsRequested := False, ht_multicastDataIOs := turn_newDataIOs i \<rparr> else t)"
  define t2 where "t2 = t1\<lparr> ht_now := turn_time i \<rparr>"
  define p where "p = (if ht_now t2 \<ge> GetPulseTime t1 then ht_Pulse L (turn_clock i) t2 else (None, [], t2))"
  obtain m w t3 where p: "p = (m, w, t3)"
    by (cases p)
  define t4 where "t4 = (case turn_ownerMessage i of None \<Rightarrow> t3 | Some code \<Rightarrow> ht_MessageReceivedFromOwner code t3)"
  have served: "serveSockets L (turn_reads i) t4 = Some t'"
    using assms(1) unfolding hbTurn_def Let_def t1_def [symmetric] t2_def [symmetric] p_def [symmetric] p prod.case t4_def [symmetric]
    by simp
  have two: "sameSources t t2" "hbOK t2" "ht_onlineSources t1 = ht_onlineSources t" "ht_now t2 = turn_time i"
    using assms(2) by (simp_all add: t2_def t1_def sameSources_def heardView_def)
  then have h2: "hbHeard t2"
    using hbHeard_same assms(3) by blast
  have three: "hbOK t3 \<and> hbHeard t3 \<and> ht_hbSettings t3 = ht_hbSettings t \<and>
      (tabHas fst k (ht_onlineSources t3) \<longleftrightarrow> (\<exists>ss. (k, ss) \<in> set (ht_onlineSources t) \<and> turn_time i < ss_localExpirationTimeMicros ss))"
  proof (cases "ht_now t2 \<ge> GetPulseTime t1")
    case True
    then have pulse: "ht_Pulse L (turn_clock i) t2 = (m, w, t3)"
      using p by (simp add: p_def)
    obtain u where u: "hbOK u" "ht_now u = ht_now t2" "sameSources t2 u" "sameSources (expireSources u) t3"
      using ht_Pulse_sources [OF pulse two(2)] by blast
    have tu: "sameSources t u"
      by (rule sameSources_trans [OF two(1) u(3)])
    have hu: "hbHeard (expireSources u)" "ht_hbSettings (expireSources u) = ht_hbSettings u"
      using expireSources_heard [OF u(1) hbHeard_same [OF tu assms(3)]] by blast+
    have keys: "tabHas fst k (ht_onlineSources t3) \<longleftrightarrow> tabHas fst k (ht_onlineSources (expireSources u))"
      using sameSources_lookup(1) [OF u(4)] unfolding tabGet_eq_None not_not by (metis image_set)
    have "hbOK t3"
      by (rule ht_Pulse_OK(1) [OF pulse two(2)])
    moreover have "hbHeard t3"
      by (rule hbHeard_same [OF u(4) hu(1)])
    moreover have "ht_hbSettings t3 = ht_hbSettings t"
      using u(4) hu(2) tu by (simp add: sameSources_def)
    moreover have "tabHas fst k (ht_onlineSources t3) \<longleftrightarrow>
        (\<exists>ss. (k, ss) \<in> set (ht_onlineSources t) \<and> turn_time i < ss_localExpirationTimeMicros ss)"
      unfolding keys expireSources_exact [OF u(1)] u(2) two(4)
      by (rule sameSources_lookup(2) [OF tu, of k "\<lambda>e r. turn_time i < e"])
    ultimately show ?thesis
      by blast
  next
    case False
    then have t3: "t3 = t2"
      using p by (simp add: p_def)
    have inv: "tabInv fst (ht_onlineSources t)"
      using assms(2) by (simp add: hbOK_def)
    have "turn_time i < ss_localExpirationTimeMicros ss" if "(k, ss) \<in> set (ht_onlineSources t)" for ss
      using GetPulseTime_le [of k t1 k ss] tabGet_mem [OF inv that] False two(3,4) by simp
    moreover have "tabHas fst k (ht_onlineSources t2) \<longleftrightarrow> (\<exists>ss. (k, ss) \<in> set (ht_onlineSources t))"
      using two(3) by (force simp: tabGet_eq_None t2_def simp del: not_None_eq)
    ultimately show ?thesis
      using two(2) h2 two(1) unfolding t3 sameSources_def by blast
  qed
  have "ht_onlineSources t4 = ht_onlineSources t3" "sameSources t3 t4" "hbOK t4" "ht_hbSettings t4 = ht_hbSettings t3"
    using three by (simp_all add: t4_def ht_MessageReceivedFromOwner_def sameSources_def heardView_def split: option.split)
  moreover from this have "hbHeard t4"
    using hbHeard_same three by blast
  ultimately show ?thesis
    using serveSockets_heard [OF served, of k] three by simp
qed

lemma hb_reach_heard: "hb_reach L t \<Longrightarrow> hbHeard t"
proof (induction rule: hb_reach.induct)
  case (hb_start settings startTime)
  show ?case
    by (simp add: hbHeard_def heardView_def addressesOf_def ht_Initialize_def blankThread_def Let_def)
next
  case (hb_turn t i msg writes t')
  then show ?case
    using hbTurn_heard [OF hb_turn.hyps(2) hb_reach_OK [OF hb_turn.hyps(1)]] by blast
qed


section \<open>Properties\<close>

text \<open>
  C12: the tables of the heartbeat thread agree in every reachable state, whatever arrives.
  The addresses listed for a peer are those of its online sources, in the order of the source
  table, which is the order the sources came online in; so a source is online exactly when its
  address is listed for its peer.  A listed peer has at least one address and none twice; a
  source is stored under the peer ID its packet names; latencies are kept for listed peers only;
  at most 100 send times are remembered; and the next turn of the thread returns, whatever its
  inputs are.
\<close>

theorem heartbeat_tables_agree:
  assumes "hb_reach L t"
  shows "(\<forall>pid. (case tabGet fst pid (ht_peerIDToIPAddresses t) of None \<Rightarrow> [] | Some (_, ips) \<Rightarrow> ips) =
        map src_address (filter (\<lambda>k. src_peerID k = pid) (map fst (ht_onlineSources t)))) \<and>
    (\<forall>ip pid. tabHas fst (PZGHeartbeatSourceKey ip pid) (ht_onlineSources t) \<longleftrightarrow>
        (\<exists>ips. tabGet fst pid (ht_peerIDToIPAddresses t) = Some (pid, ips) \<and> ip \<in> set ips)) \<and>
    (\<forall>pid ips. tabGet fst pid (ht_peerIDToIPAddresses t) = Some (pid, ips) \<longrightarrow> ips \<noteq> [] \<and> distinct ips) \<and>
    (\<forall>k ss. tabGet fst k (ht_onlineSources t) = Some (k, ss) \<longrightarrow> hb_sourcePeerID (ss_hbPacket ss) = src_peerID k) \<and>
    (\<forall>pid. tabHas fst pid (ht_mainThreadLatencies t) \<longrightarrow> tabHas fst pid (ht_peerIDToIPAddresses t)) \<and>
    length (ht_recentlySentHeartbeatLocalSendTimes t) \<le> 100 \<and>
    (\<forall>i. \<exists>msg writes t'. hbTurn L i t = Some (msg, writes, t'))"
proof -
  have ok: "hbOK t"
    using assms by (rule hb_reach_OK)
  have "\<exists>msg writes t'. hbTurn L i t = Some (msg, writes, t')" for i
    using hbTurn_returns [OF ok, of L i] by blast
  moreover have "(case tabGet fst pid (ht_peerIDToIPAddresses t) of None \<Rightarrow> [] | Some (_, ips) \<Rightarrow> ips) =
      map src_address (filter (\<lambda>k. src_peerID k = pid) (map fst (ht_onlineSources t)))" for pid
    using hb_reach_heard [OF assms] unfolding hbHeard_def addressesOf_def by blast
  ultimately show ?thesis
    using ok unfolding hbOK_def by blast
qed

text \<open>
  C13: silent sources are dropped, and only they.  Take a turn of a reachable thread in which no
  well-formed heartbeat of this version and system arrives from a source; others may.  After the
  turn the source is online exactly if it was before and the time of the turn is still before the
  expiration time: the time its last heartbeat was received plus the expiration interval, or
  never for the peer's own heartbeats.  No pending work is needed for that, since the thread
  never sleeps past an expiration.
\<close>

theorem silent_sources_expire:
  assumes "hb_reach L t" "hbTurn L i t = Some (msg, writes, t')"
    and "\<forall>r \<in> set (concat (turn_reads i)). heardIn L (ht_hbSettings t) r \<noteq> Some k"
  shows "tabHas fst k (ht_onlineSources t') \<longleftrightarrow>
    (\<exists>ss. tabGet fst k (ht_onlineSources t) = Some (k, ss) \<and>
      turn_time i < (if src_peerID k = hbs_localPeerID (ht_hbSettings t) then MUSCLE_TIME_NEVER
        else hb_localReceiveTimeMicros (ss_hbPacket ss) + ht_heartbeatExpirationTimeMicros t))"
proof -
  have ok: "hbOK t" and heard: "hbHeard t"
    using assms(1) hb_reach_OK hb_reach_heard by blast+
  have inv: "tabInv fst (ht_onlineSources t)"
    using ok by (simp add: hbOK_def)
  have mem: "(k, ss) \<in> set (ht_onlineSources t) \<longleftrightarrow> tabGet fst k (ht_onlineSources t) = Some (k, ss)" for ss
    using tabGet_mem [OF inv, of "(k, ss)"] tabGet_SomeD [of fst k "ht_onlineSources t" "(k, ss)"] by auto
  have "quietReads L (ht_hbSettings t) k (concat (turn_reads i))"
    using assms(3) by (simp add: quietReads_def)
  then have "tabHas fst k (ht_onlineSources t') \<longleftrightarrow>
      (\<exists>ss. (k, ss) \<in> set (ht_onlineSources t) \<and> turn_time i < ss_localExpirationTimeMicros ss)"
    using hbTurn_heard [OF assms(2) ok heard] by blast
  also have "\<dots> \<longleftrightarrow> (\<exists>ss. (k, ss) \<in> set (ht_onlineSources t) \<and>
      turn_time i < expiresAt t k (hb_localReceiveTimeMicros (ss_hbPacket ss)))"
    using hbHeard_source [OF heard] by metis
  finally show ?thesis
    unfolding mem expiresAt_def .
qed

end
