(* ===== verification/ZG_HeartbeatWitnesses.thy ===== *)
theory ZG_HeartbeatWitnesses
  imports ZG_HeartbeatSession ZG_HeartbeatSources
begin

text \<open>
  Witnesses for the properties of the heartbeat theories: a library over the little-endian wire
  without compression, and threads that hear the heartbeats of one or two peers.
\<close>

section \<open>Hearing a peer\<close>

definition demoLib :: "(bytes \<times> bool, nat) hb_lib" where
  "demoLib = \<lparr> hl_wire = le_wire, hl_satmul32 = satmul32, hl_csum = (\<lambda>bs. fold (\<lambda>b s. s + ucast b) bs 0),
     hl_deflate = Inr, hl_inflate = Inr, hl_satadd = satadd64, hl_satmul = satmul64, hl_deviation = rootMean,
     hl_ipValid = (\<lambda>ip. ip \<noteq> 0), hl_sameTable = (\<lambda>ks ks'. ks = ks') \<rparr>"

definition demoSettings :: "ZGPeerID \<Rightarrow> hb_settings" where
  "demoSettings pid = \<lparr> hbs_versionCode = 0, hbs_systemKey = 0, hbs_dataTCPPort = 5, hbs_peerType = 0,
     hbs_localPeerID = pid, hbs_peerAttributesBuf = None, hbs_heartbeatsPerSecond = 6,
     hbs_maxNumMissingHeartbeats = 3, hbs_heartbeatsBeforeFullyAttached = 4 \<rparr>"

definition demoPacket :: "ZGPeerID \<Rightarrow> u16 \<Rightarrow> ZGPeerID list \<Rightarrow> PZGHeartbeatPacket" where
  "demoPacket pid ptype listed = newPZGHeartbeatPacket\<lparr> hb_heartbeatPacketID := 7, hb_peerType := ptype,
     hb_sourcePeerID := pid, hb_isFullyAttached := True,
     hb_orderedPeersList := map (\<lambda>p. \<lparr> pi_peerID = p, pi_timings = [] \<rparr>) listed \<rparr>"

definition demoDatagram :: "PZGHeartbeatPacket \<Rightarrow> bytes" where
  "demoDatagram p = exportHeartbeat le_wire (hl_csum demoLib) 5 1000 (hb_Flatten le_wire p)"

lemma demoPacket_fits:
  "length listed < 2 ^ 16 \<Longrightarrow> ptype AND 0x8000 = 0 \<Longrightarrow> hb_fits (demoPacket pid ptype listed)"
  by (simp add: hb_fits_def demoPacket_def newPZGHeartbeatPacket_def)

definition received :: "PZGHeartbeatPacket \<Rightarrow> nat \<Rightarrow> u64 \<Rightarrow> nat PZGHeartbeatPacketWithMetaData" where
  "received p ip now = PZGHeartbeatPacket.extend (p\<lparr> hb_networkSendTimeMicros := 1000 \<rparr>)
     \<lparr> hb_localReceiveTimeMicros = now, hb_packetSource = ip, hb_sourceTag = 5, hb_haveSentTimingReply = False \<rparr>"

lemma received_simps [simp]:
  "hb_sourcePeerID (received (demoPacket pid ptype listed) ip now) = pid"
  "hb_versionCode (received (demoPacket pid ptype listed) ip now) = 0"
  "hb_systemKey (received (demoPacket pid ptype listed) ip now) = 0"
  "hb_peerType (received (demoPacket pid ptype listed) ip now) = ptype"
  "hb_peerUptimeSeconds (received (demoPacket pid ptype listed) ip now) = 0"
  "map pi_peerID (hb_orderedPeersList (received (demoPacket pid ptype listed) ip now)) = listed"
  "hb_networkSendTimeMicros (received p ip now) = 1000" "hb_localReceiveTimeMicros (received p ip now) = now"
  by (simp_all add: received_def demoPacket_def newPZGHeartbeatPacket_def PZGHeartbeatPacket.extend_def o_def)

lemma unlisted:
  "map f xs = ys \<Longrightarrow> a \<notin> set ys \<Longrightarrow> List.find (\<lambda>x. f x = a) xs = None"
  by (auto simp: find_None_iff)

lemma hears:
  assumes "hb_fits (demoPacket pid ptype listed)" "hbs_localPeerID (ht_hbSettings t) \<notin> set listed"
    and "hbs_versionCode (ht_hbSettings t) = 0" "hbs_systemKey (ht_hbSettings t) = 0"
  shows "receiveDatagram demoLib (demoDatagram (demoPacket pid ptype listed)) ip now t =
    Some (noteHeartbeat (PZGHeartbeatSourceKey ip pid) (received (demoPacket pid ptype listed) ip now) now t)"
proof -
  let ?hb = "received (demoPacket pid ptype listed) ip now"
  have parse: "ParseHeartbeatPacketBuffer le_wire satmul32 (hl_csum demoLib) Inr (demoDatagram (demoPacket pid ptype listed)) ip now = Inr ?hb"
    unfolding demoDatagram_def received_def by (rule leb.parse_export [OF assms(1)]) simp
  have "List.find (\<lambda>i. pi_peerID i = hbs_localPeerID (ht_hbSettings t)) (hb_orderedPeersList ?hb) = None"
    by (rule unlisted [OF received_simps(6) assms(2)])
  then have "measureRoundTrip demoLib (PZGHeartbeatSourceKey ip pid) ?hb now t = Some t"
    by (simp add: measureRoundTrip_def)
  then show ?thesis
    using parse assms(3,4) by (simp add: receiveDatagram_def demoLib_def)
qed

text \<open>A turn that only receives: no sockets to send on, nothing pending.\<close>

definition hearing :: "u64 \<Rightarrow> (nat \<times> PZGHeartbeatPacket) list \<Rightarrow> nat hb_turn" where
  "hearing now ps = \<lparr> turn_newDataIOs = [], turn_time = now, turn_clock = (\<lambda>_. now), turn_ownerMessage = None,
     turn_reads = [map (\<lambda>(ip, p). ReadBytes (demoDatagram p) ip now) ps] \<rparr>"

definition demoStart :: "ZGPeerID \<Rightarrow> nat hb_thread" where
  "demoStart pid = ht_Initialize (demoSettings pid) 100 (blankThread (demoSettings pid))"

definition quietStart :: "ZGPeerID \<Rightarrow> nat hb_thread" where
  "quietStart pid = (demoStart pid)\<lparr> ht_recreateMulticastDataIOsRequested := False, ht_nextSendHeartbeatTime := 166766 \<rparr>"

lemma demoStart_reach: "hb_reach demoLib (demoStart pid)"
  unfolding demoStart_def by (rule hb_start)

lemma hearing_turn:
  "hbTurn demoLib (hearing 100 ps) (demoStart pid) =
     map_option (\<lambda>t. (None, [], t)) (ReceiveMulticastTraffic demoLib (turn_reads (hearing 100 ps) ! 0) (quietStart pid))"
proof -
  let ?t = "(demoStart pid)\<lparr> ht_recreateMulticastDataIOsRequested := False, ht_multicastDataIOs := [], ht_now := 100 \<rparr>"
  note start = demoStart_def quietStart_def ht_Initialize_def blankThread_def Let_def demoSettings_def MICROS_PER_SECOND_def
  have pulse: "ht_Pulse demoLib (turn_clock (hearing 100 ps)) ?t = (None, [], quietStart pid)"
    by (simp add: ht_Pulse_def start SendHeartbeatPackets_def expireSources_def IsFullyAttached_def)
  have due: "GetPulseTime ((demoStart pid)\<lparr> ht_recreateMulticastDataIOsRequested := False, ht_multicastDataIOs := [] \<rparr>) = 100"
    by (simp add: GetPulseTime_def start)
  have "ht_recreateMulticastDataIOsRequested (demoStart pid)" "serveSockets demoLib [] = Some"
    by (simp add: start) (rule ext, simp)
  then show ?thesis
    using pulse due by (simp add: hbTurn_def Let_def hearing_def)
qed

lemma heard_reach:
  "ReceiveMulticastTraffic demoLib (turn_reads (hearing 100 ps) ! 0) (quietStart pid) = Some t \<Longrightarrow> hb_reach demoLib t"
  using hb_turn [OF demoStart_reach [of pid], of "hearing 100 ps" None "[]" t] by (simp add: hearing_turn)

text \<open>One peer is heard.\<close>

definition hearsOne :: "ZGPeerID \<Rightarrow> nat \<Rightarrow> PZGHeartbeatPacket \<Rightarrow> nat hb_thread" where
  "hearsOne local ip p = noteHeartbeat (PZGHeartbeatSourceKey ip (hb_sourcePeerID p)) (received p ip 100) 100 (quietStart local)"

lemma quietStart_settings:
  "ht_hbSettings (quietStart pid) = demoSettings pid" "ht_onlineSources (quietStart pid) = []"
  "ht_peerIDToIPAddresses (quietStart pid) = []" "ht_heartbeatExpirationTimeMicros (quietStart pid) = 499998"
  "ht_updateOfficialPeersListPending (quietStart pid) = False" "ht_now (quietStart pid) = 100"
  "ht_lastSourcesSentToMaster (quietStart pid) = []"
  by (simp_all add: demoStart_def quietStart_def ht_Initialize_def blankThread_def Let_def demoSettings_def MICROS_PER_SECOND_def)

lemma demoPacket_pid [simp]: "hb_sourcePeerID (demoPacket pid ptype listed) = pid"
  by (simp add: demoPacket_def)

lemma datagram_nonempty: "demoDatagram p \<noteq> []"
  using leb.export_parts(2) [of "hl_csum demoLib" 5 1000 "hb_Flatten le_wire p"]
  by (auto simp: demoDatagram_def HB_HEADER_SIZE_def)

lemma hearsOne_tables:
  assumes "local \<notin> set listed" "length listed < 2 ^ 16" "ptype AND 0x8000 = 0" "pid \<noteq> local"
  shows "hb_reach demoLib (hearsOne local ip (demoPacket pid ptype listed))"
    "ht_onlineSources (hearsOne local ip (demoPacket pid ptype listed)) =
       [(PZGHeartbeatSourceKey ip pid, newPZGHeartbeatSourceState 20 (received (demoPacket pid ptype listed) ip 100) 500098)]"
    "ht_peerIDToIPAddresses (hearsOne local ip (demoPacket pid ptype listed)) = [(pid, [ip])]"
proof -
  let ?p = "demoPacket pid ptype listed"
  have "receiveDatagram demoLib (demoDatagram ?p) ip 100 (quietStart local) = Some (hearsOne local ip ?p)"
    using assms hears [OF demoPacket_fits [OF assms(2,3)], of "quietStart local" pid ip 100]
    by (simp add: hearsOne_def quietStart_settings demoSettings_def)
  then show "hb_reach demoLib (hearsOne local ip ?p)"
    by (intro heard_reach [of "[(ip, ?p)]" local]) (simp add: hearing_def datagram_nonempty)
  show "ht_onlineSources (hearsOne local ip ?p) =
      [(PZGHeartbeatSourceKey ip pid, newPZGHeartbeatSourceState 20 (received ?p ip 100) 500098)]"
    "ht_peerIDToIPAddresses (hearsOne local ip ?p) = [(pid, [ip])]"
    using assms(4) by (simp_all add: hearsOne_def noteHeartbeat_def IntroduceSource_def quietStart_settings Let_def
        ScheduleUpdateOfficialPeersList_def ScheduleUpdateToNetworkTimeOffset_def demoSettings_def)
qed

section \<open>Witnesses\<close>

abbreviation (input) peerA :: ZGPeerID where "peerA \<equiv> ZGPeerID 1 1"
abbreviation (input) peerB :: ZGPeerID where "peerB \<equiv> ZGPeerID 2 2"
abbreviation (input) peerC :: ZGPeerID where "peerC \<equiv> ZGPeerID 3 3"

theorem heartbeat_tables_agree_witness:
  "ht_peerIDToIPAddresses (hearsOne peerA 8 (demoPacket peerC 0 [])) = [(peerC, [8])] \<and>
   map src_address (filter (\<lambda>k. src_peerID k = peerC) (map fst (ht_onlineSources (hearsOne peerA 8 (demoPacket peerC 0 []))))) = [8] \<and>
   (\<exists>msg writes t'. hbTurn demoLib (hearing 200 [(9, demoPacket peerC 0 [])]) (hearsOne peerA 8 (demoPacket peerC 0 [])) =
     Some (msg, writes, t'))"
proof -
  let ?t = "hearsOne peerA 8 (demoPacket peerC 0 [])"
  have tab: "ht_peerIDToIPAddresses ?t = [(peerC, [8])]"
    by (rule hearsOne_tables(3)) simp_all
  have "hb_reach demoLib ?t"
    by (rule hearsOne_tables(1)) simp_all
  note agree = heartbeat_tables_agree [OF this]
  have "map src_address (filter (\<lambda>k. src_peerID k = peerC) (map fst (ht_onlineSources ?t))) = [8]"
    using spec [OF conjunct1 [OF agree], of peerC] tab by simp
  then show ?thesis
    using agree tab by blast
qed

text \<open>Another peer is heard on another socket; the first has been silent for its half second.\<close>

theorem silent_sources_expire_witness:
  "\<exists>msg writes t'. hbTurn demoLib (hearing 600000 [(9, demoPacket peerB 0 [])]) (hearsOne peerA 8 (demoPacket peerC 0 [])) =
       Some (msg, writes, t') \<and> \<not> tabHas fst (PZGHeartbeatSourceKey 8 peerC) (ht_onlineSources t')"
proof -
  let ?i = "hearing 600000 [(9, demoPacket peerB 0 [])]" and ?t = "hearsOne peerA 8 (demoPacket peerC 0 [])"
  have r: "hb_reach demoLib ?t"
    by (rule hearsOne_tables(1)) simp_all
  obtain msg writes t' where turn: "hbTurn demoLib ?i ?t = Some (msg, writes, t')"
    using hbTurn_returns [OF hb_reach_OK [OF r]] by blast
  have reads: "concat (turn_reads ?i) = [ReadBytes (demoDatagram (demoPacket peerB 0 [])) 9 600000]" "turn_time ?i = 600000"
    by (simp_all add: hearing_def)
  have "heardIn demoLib s (ReadBytes buf 9 now) \<noteq> Some (PZGHeartbeatSourceKey 8 peerC)" for s buf now
    by (simp split: sum.split)
  then have "\<forall>x \<in> set (concat (turn_reads ?i)). heardIn demoLib (ht_hbSettings ?t) x \<noteq> Some (PZGHeartbeatSourceKey 8 peerC)"
    unfolding reads by (simp del: heardIn.simps)
  note silent = silent_sources_expire [OF r turn this]
  have settings: "hbs_localPeerID (ht_hbSettings ?t) = peerA" "ht_heartbeatExpirationTimeMicros ?t = 499998"
    by (simp_all add: hearsOne_def noteHeartbeat_def IntroduceSource_def quietStart_settings Let_def
        ScheduleUpdateOfficialPeersList_def ScheduleUpdateToNetworkTimeOffset_def demoSettings_def)
  have src: "ht_onlineSources ?t = [(PZGHeartbeatSourceKey 8 peerC, newPZGHeartbeatSourceState 20 (received (demoPacket peerC 0 []) 8 100) 500098)]"
    by (rule hearsOne_tables(2)) simp_all
  have "\<not> tabHas fst (PZGHeartbeatSourceKey 8 peerC) (ht_onlineSources t')"
    unfolding silent src settings by (simp add: reads newPZGHeartbeatSourceState_def received_def PZGHeartbeatPacket.extend_def)
  with turn show ?thesis
    by blast
qed

text \<open>Two peers are heard; the first lists some peers, the second is of some type.\<close>

definition hearsBoth :: "ZGPeerID \<Rightarrow> ZGPeerID list \<Rightarrow> u16 \<Rightarrow> nat hb_thread" where
  "hearsBoth local listed ptype = noteHeartbeat (PZGHeartbeatSourceKey 9 peerB) (received (demoPacket peerB ptype []) 9 100) 100
     (hearsOne local 8 (demoPacket peerC 0 listed))"

lemma hearsBoth_tables:
  assumes "local \<notin> set listed" "length listed < 2 ^ 16" "ptype AND 0x8000 = 0" "peerC \<noteq> local" "peerB \<noteq> local"
  shows "hb_reach demoLib (hearsBoth local listed ptype)"
    "ht_onlineSources (hearsBoth local listed ptype) =
     [(PZGHeartbeatSourceKey 8 peerC, newPZGHeartbeatSourceState 20 (received (demoPacket peerC 0 listed) 8 100) 500098),
      (PZGHeartbeatSourceKey 9 peerB, newPZGHeartbeatSourceState 20 (received (demoPacket peerB ptype []) 9 100) 500098)]"
    "ht_peerIDToIPAddresses (hearsBoth local listed ptype) = [(peerC, [8]), (peerB, [9])]"
proof -
  let ?one = "hearsOne local 8 (demoPacket peerC 0 listed)"
  have one: "receiveDatagram demoLib (demoDatagram (demoPacket peerC 0 listed)) 8 100 (quietStart local) = Some ?one"
    using hears [OF demoPacket_fits [OF assms(2)], of 0 "quietStart local" peerC 8 100] assms(1)
    by (simp add: hearsOne_def quietStart_settings demoSettings_def)
  have settings: "ht_hbSettings ?one = demoSettings local" "ht_heartbeatExpirationTimeMicros ?one = 499998"
    "ht_updateOfficialPeersListPending ?one"
    by (simp_all add: hearsOne_def noteHeartbeat_def IntroduceSource_def quietStart_settings Let_def
        ScheduleUpdateOfficialPeersList_def ScheduleUpdateToNetworkTimeOffset_def demoSettings_def)
  have two: "receiveDatagram demoLib (demoDatagram (demoPacket peerB ptype [])) 9 100 ?one = Some (hearsBoth local listed ptype)"
    using hears [OF demoPacket_fits, of "[]" ptype ?one peerB 9 100] assms(3) by (simp add: hearsBoth_def settings demoSettings_def)
  show "hb_reach demoLib (hearsBoth local listed ptype)"
    by (rule heard_reach [of "[(8, demoPacket peerC 0 listed), (9, demoPacket peerB ptype [])]" local])
      (simp add: hearing_def datagram_nonempty one two)
  have tables: "ht_onlineSources ?one =
      [(PZGHeartbeatSourceKey 8 peerC, newPZGHeartbeatSourceState 20 (received (demoPacket peerC 0 listed) 8 100) 500098)]"
    "ht_peerIDToIPAddresses ?one = [(peerC, [8])]"
    using hearsOne_tables(2,3) [OF assms(1,2) _ assms(4), of 0 8] by simp_all
  show "ht_onlineSources (hearsBoth local listed ptype) =
     [(PZGHeartbeatSourceKey 8 peerC, newPZGHeartbeatSourceState 20 (received (demoPacket peerC 0 listed) 8 100) 500098),
      (PZGHeartbeatSourceKey 9 peerB, newPZGHeartbeatSourceState 20 (received (demoPacket peerB ptype []) 9 100) 500098)]"
    "ht_peerIDToIPAddresses (hearsBoth local listed ptype) = [(peerC, [8]), (peerB, [9])]"
    using assms(5) by (simp_all add: hearsBoth_def noteHeartbeat_def IntroduceSource_def Let_def tables settings
        ScheduleUpdateOfficialPeersList_def ScheduleUpdateToNetworkTimeOffset_def demoSettings_def)
qed

theorem peers_agree_on_order_witness:
  "fst (CalculateOrderedPeersList demoLib (hearsBoth (ZGPeerID 1 1) [peerB, peerC] 0)) = [peerB, peerC] \<and>
   fst (CalculateOrderedPeersList demoLib (hearsBoth (ZGPeerID 4 4) [peerB, peerC] 0)) = [peerB, peerC]"
proof -
  let ?t = "hearsBoth (ZGPeerID 1 1) [peerB, peerC] 0" and ?t' = "hearsBoth (ZGPeerID 4 4) [peerB, peerC] 0"
  let ?C = "newPZGHeartbeatSourceState 20 (received (demoPacket peerC 0 [peerB, peerC]) 8 100) 500098"
  let ?B = "newPZGHeartbeatSourceState 20 (received (demoPacket peerB 0 []) 9 100) 500098"
  have reach: "hb_reach demoLib ?t" "hb_reach demoLib ?t'"
    by (rule hearsBoth_tables; simp)+
  have tables: "ht_onlineSources ?t = [(PZGHeartbeatSourceKey 8 peerC, ?C), (PZGHeartbeatSourceKey 9 peerB, ?B)]"
    "ht_onlineSources ?t' = [(PZGHeartbeatSourceKey 8 peerC, ?C), (PZGHeartbeatSourceKey 9 peerB, ?B)]"
    "ht_peerIDToIPAddresses ?t = [(peerC, [8]), (peerB, [9])]" "ht_peerIDToIPAddresses ?t' = [(peerC, [8]), (peerB, [9])]"
    by (rule hearsBoth_tables; simp)+
  have adv: "map pi_peerID (hb_orderedPeersList (ss_hbPacket ?C)) = [peerB, peerC]"
    "map pi_peerID (hb_orderedPeersList (ss_hbPacket ?B)) = []"
    by (simp_all add: newPZGHeartbeatSourceState_def)
  have elig: "PeersListMatchesIgnoreOrdering (hb_orderedPeersList (ss_hbPacket ss)) ?t \<longleftrightarrow>
      length (advertised ss) = 2 \<and> set (advertised ss) \<subseteq> {peerB, peerC}" for ss :: "nat PZGHeartbeatSourceState"
    unfolding eligible_def [symmetric] eligible_iff tables by auto
  have "\<exists>k ss. (k, ss) \<in> set (ht_onlineSources ?t) \<and>
      PeersListMatchesIgnoreOrdering (hb_orderedPeersList (ss_hbPacket ss)) ?t \<and>
      (\<forall>(k', ss') \<in> set (ht_onlineSources ?t).
        PeersListMatchesIgnoreOrdering (hb_orderedPeersList (ss_hbPacket ss')) ?t \<longrightarrow> src_peerID k \<le> src_peerID k') \<and>
      fst (CalculateOrderedPeersList demoLib ?t) = map pi_peerID (hb_orderedPeersList (ss_hbPacket ss)) \<and>
      fst (CalculateOrderedPeersList demoLib ?t') = map pi_peerID (hb_orderedPeersList (ss_hbPacket ss)) \<and>
      length (fst (CalculateOrderedPeersList demoLib ?t)) = length (ht_peerIDToIPAddresses ?t) \<and>
      set (fst (CalculateOrderedPeersList demoLib ?t)) \<subseteq> fst ` set (ht_peerIDToIPAddresses ?t)"
  proof (rule peers_agree_on_order [OF reach, of "PZGHeartbeatSourceKey 8 peerC" ?C])
    show "fst ` set (ht_peerIDToIPAddresses ?t) = fst ` set (ht_peerIDToIPAddresses ?t')"
      by (simp add: tables)
    show "\<forall>(k, ss) \<in> set (ht_onlineSources ?t). \<forall>(k', ss') \<in> set (ht_onlineSources ?t').
        src_peerID k = src_peerID k' \<longrightarrow> advertised ss = advertised ss'"
      by (simp add: tables)
    show "\<forall>(k, ss) \<in> set (ht_onlineSources ?t) \<union> set (ht_onlineSources ?t'). hl_ipValid demoLib (src_address k) \<and> IsValid (src_peerID k)"
      by (simp add: tables demoLib_def IsValid_def)
    show "(PZGHeartbeatSourceKey 8 peerC, ?C) \<in> set (ht_onlineSources ?t)"
      by (simp add: tables)
    show "PeersListMatchesIgnoreOrdering (hb_orderedPeersList (ss_hbPacket ?C)) ?t"
      by (simp add: elig advertised_def adv)
  qed
  then obtain k ss where k: "(k, ss) \<in> set (ht_onlineSources ?t)"
    "PeersListMatchesIgnoreOrdering (hb_orderedPeersList (ss_hbPacket ss)) ?t"
    "fst (CalculateOrderedPeersList demoLib ?t) = map pi_peerID (hb_orderedPeersList (ss_hbPacket ss))"
    "fst (CalculateOrderedPeersList demoLib ?t') = map pi_peerID (hb_orderedPeersList (ss_hbPacket ss))"
    by blast
  have "advertised ?B = []"
    by (simp only: advertised_def adv)
  then have "\<not> PeersListMatchesIgnoreOrdering (hb_orderedPeersList (ss_hbPacket ?B)) ?t"
    unfolding elig by simp
  then have "ss = ?C"
    using k(1,2) unfolding tables by (metis Pair_inject empty_iff empty_set insert_iff list.simps(15))
  then show ?thesis
    using k(3,4) adv(1) by simp
qed

text \<open>The second peer is junior-only, and the first lists nobody.\<close>

definition hearsTwo :: "nat hb_thread" where
  "hearsTwo = hearsBoth peerA [] 1"

lemma hearsTwo_tables:
  "hb_reach demoLib hearsTwo"
  "ht_onlineSources hearsTwo =
     [(PZGHeartbeatSourceKey 8 peerC, newPZGHeartbeatSourceState 20 (received (demoPacket peerC 0 []) 8 100) 500098),
      (PZGHeartbeatSourceKey 9 peerB, newPZGHeartbeatSourceState 20 (received (demoPacket peerB 1 []) 9 100) 500098)]"
  "ht_peerIDToIPAddresses hearsTwo = [(peerC, [8]), (peerB, [9])]"
proof -
  have "(1 :: u16) AND 0x8000 = 0"
    by code_simp
  note tables = hearsBoth_tables [OF _ _ this, of peerA "[]"]
  show "hb_reach demoLib hearsTwo"
    "ht_onlineSources hearsTwo =
     [(PZGHeartbeatSourceKey 8 peerC, newPZGHeartbeatSourceState 20 (received (demoPacket peerC 0 []) 8 100) 500098),
      (PZGHeartbeatSourceKey 9 peerB, newPZGHeartbeatSourceState 20 (received (demoPacket peerB 1 []) 9 100) 500098)]"
    "ht_peerIDToIPAddresses hearsTwo = [(peerC, [8]), (peerB, [9])]"
    unfolding hearsTwo_def using tables by simp_all
qed

theorem order_without_kingmaker_witness:
  "mset (fst (CalculateOrderedPeersList demoLib hearsTwo)) = {#peerC, peerB#} \<and>
   sorted_wrt (inFrontOf hearsTwo) (fst (CalculateOrderedPeersList demoLib hearsTwo)) \<and>
   inFrontOf hearsTwo peerB peerC \<and> \<not> inFrontOf hearsTwo peerC peerB"
proof -
  have "GetKingmakerPeerSource hearsTwo = None"
    by (simp add: GetKingmakerPeerSource_def hearsTwo_tables PeersListMatchesIgnoreOrdering_def Let_def)
      (simp add: newPZGHeartbeatSourceState_def received_def demoPacket_def newPZGHeartbeatPacket_def PZGHeartbeatPacket.extend_def)
  moreover have "peerTypeOf hearsTwo peerB = PEER_TYPE_JUNIOR_ONLY" "peerTypeOf hearsTwo peerC = PEER_TYPE_FULL_PEER"
    by (simp_all add: peerTypeOf_def hearsTwo_tables GetPeerTypeFromQueue_def sourcePacket_def newPZGHeartbeatSourceState_def
        PEER_TYPE_JUNIOR_ONLY_def PEER_TYPE_FULL_PEER_def)
  ultimately show ?thesis
    using order_without_kingmaker [OF hearsTwo_tables(1), of peerB peerC] by (simp add: hearsTwo_tables)
qed

text \<open>A half-attached thread with one measured round trip of 20 microseconds to its senior peer.\<close>

definition synchronised :: "nat hb_thread" where
  "synchronised = (hearsOne peerA 8 (demoPacket peerC 0 []))\<lparr> ht_now := 1000000,
     ht_lastSourcesSentToMaster := [PZGHeartbeatSourceKey 8 peerC],
     ht_onlineSources := [(PZGHeartbeatSourceKey 8 peerC,
       (newPZGHeartbeatSourceState 20 (received (demoPacket peerC 0 []) 8 100) 500098)\<lparr>
         ss_rttAveragers := [(9, (newZGTimeAverager 20)\<lparr> ta_measurements := [20], ta_totalMicros := 20,
           ta_lastMeasurementTime := 999000, ta_cachedAverageWithoutOutliers := 20 \<rparr>)] \<rparr>)] \<rparr>"

theorem network_clock_exact_witness:
  "ht_GetNetworkTime64ForRunTime64 (UpdateToNetworkTimeOffset demoLib synchronised) 5 = 915"
proof -
  let ?ss = "snd (hd (ht_onlineSources synchronised))"
  have settings: "ht_halfAttachedTime synchronised = 333432" "ht_hbSettings synchronised = demoSettings peerA"
    "ht_heartbeatExpirationTimeMicros synchronised = 499998" "ht_peerIDToIPAddresses synchronised = [(peerC, [8])]"
    using hearsOne_tables(3) [of peerA "[]" 0 peerC 8]
    by (simp_all add: synchronised_def hearsOne_def noteHeartbeat_def IntroduceSource_def quietStart_def demoStart_def ht_Initialize_def
        blankThread_def Let_def ScheduleUpdateOfficialPeersList_def ScheduleUpdateToNetworkTimeOffset_def demoSettings_def MICROS_PER_SECOND_def)
  have "ht_GetNetworkTime64ForRunTime64 (UpdateToNetworkTimeOffset demoLib synchronised) 5 = 5 + 910 \<and>
      ht_GetRunTime64ForNetworkTime64 (UpdateToNetworkTimeOffset demoLib synchronised) (5 + 910) = 5"
    by (rule network_clock_exact [where k = "PZGHeartbeatSourceKey 8 peerC" and ss = ?ss and d = 10])
      (simp_all add: settings, simp_all add: synchronised_def INVALID_TIME_OFFSET_def firstSource_def settings [unfolded synchronised_def, simplified]
        thread_GetSeniorPeerID_def GetPreferredAverageValue_def GetAverageValueIgnoringOutliers_def newPZGHeartbeatSourceState_def
        demoSettings_def)
  then show ?thesis
    by simp
qed

end
