(* ===== verification/ZG_TreeGateway.thy ===== *)
theory ZG_TreeGateway
  imports ZG_Tables
begin

text \<open>
  The message-tree gateway interface.  A subscriber calls the gateway it is registered with
  (\<^verbatim>\<open>ITreeGatewaySubscriber.cpp\<close>), a gateway is called with the subscriber that did
  (\<^verbatim>\<open>ITreeGateway.h\<close>), and calls its subscribers back.  The three kinds of call are the
  constructors of \<open>subscriber_call\<close>, \<open>gateway_call\<close> and \<open>tree_callback\<close>, with
  the arguments in the order of the code.  Messages and query filters are not looked into by
  most of the code and are type parameters \<open>'m\<close> and \<open>'f\<close>; a reference that may be
  NULL is an option.

  The theory also holds what every gateway shares: the registration tables of
  \<^verbatim>\<open>IGateway.h\<close>, the forwarding of \<^verbatim>\<open>ProxyTreeGateway.cpp\<close> and the refusals
  of \<^verbatim>\<open>DummyTreeGateway.h\<close>.
\<close>

section \<open>Calls and callbacks\<close>

text \<open>A \<^verbatim>\<open>TreeGatewayFlags\<close> is a bit-chord of the eight flags.\<close>

type_synonym flags = u8

definition TREE_GATEWAY_FLAG_INDEXED :: nat where
  "TREE_GATEWAY_FLAG_INDEXED = 0"

definition TREE_GATEWAY_FLAG_NOREPLY :: nat where
  "TREE_GATEWAY_FLAG_NOREPLY = 1"

definition TREE_GATEWAY_FLAG_INTERIM :: nat where
  "TREE_GATEWAY_FLAG_INTERIM = 2"

definition TREE_GATEWAY_FLAG_SYNC :: nat where
  "TREE_GATEWAY_FLAG_SYNC = 3"

definition TREE_GATEWAY_FLAG_DONTCREATENODE :: nat where
  "TREE_GATEWAY_FLAG_DONTCREATENODE = 4"

definition TREE_GATEWAY_FLAG_DONTOVERWRITEDATA :: nat where
  "TREE_GATEWAY_FLAG_DONTOVERWRITEDATA = 5"

definition TREE_GATEWAY_FLAG_ENABLESUPERCEDE :: nat where
  "TREE_GATEWAY_FLAG_ENABLESUPERCEDE = 6"

definition TREE_GATEWAY_FLAG_TRAVERSE_SYMLINK :: nat where
  "TREE_GATEWAY_FLAG_TRAVERSE_SYMLINK = 7"

definition flagsWith :: "nat \<Rightarrow> flags" where
  "flagsWith b = set_bit b 0"

text \<open>A number printed with \<^verbatim>\<open>UINT32_FORMAT_SPEC\<close>.\<close>

definition digitChar :: "nat \<Rightarrow> char" where
  "digitChar d = char_of (48 + d)"

fun decimal :: "nat \<Rightarrow> string" where
  "decimal n = (if n < 10 then [digitChar n] else decimal (n div 10) @ [digitChar (n mod 10)])"

declare decimal.simps [simp del]

text \<open>\<open>MUSCLE_NO_LIMIT\<close>, the default depth of a subtree request.\<close>

definition MUSCLE_NO_LIMIT :: u32 where
  "MUSCLE_NO_LIMIT = - 1"

datatype ('m, 'f) subscriber_call =
    AddTreeSubscription string "'f option" flags
  | RemoveTreeSubscription string "'f option" flags
  | RemoveAllTreeSubscriptions flags
  | RequestTreeNodeValues string "'f option" flags string
  | RequestTreeNodeSubtrees "string list" "'f option list" string u32 flags
  | UploadTreeNodeValue string "'m option" flags string string
  | UploadTreeNodeSubtree string "'m option" flags string
  | RequestDeleteTreeNodes string "'f option" flags string
  | RequestMoveTreeIndexEntry string string "'f option" flags string
  | PingTreeLocalPeer string flags
  | PingTreeSeniorPeer string u32 flags
  | SendMessageToTreeSeniorPeer "'m option" u32 string
  | SendMessageToSubscriber string "'m option" "'f option" string
  | BeginUndoSequence string u32
  | EndUndoSequence string u32
  | RequestUndo u32 string
  | RequestRedo u32 string

datatype ('m, 'f) gateway_call =
    TreeGateway_AddSubscription string "'f option" flags
  | TreeGateway_RemoveSubscription string "'f option" flags
  | TreeGateway_RemoveAllSubscriptions flags
  | TreeGateway_RequestNodeValues string "'f option" flags string
  | TreeGateway_RequestNodeSubtrees "string list" "'f option list" string u32 flags
  | TreeGateway_UploadNodeValue string "'m option" flags string string
  | TreeGateway_UploadNodeSubtree string "'m option" flags string
  | TreeGateway_RequestDeleteNodes string "'f option" flags string
  | TreeGateway_RequestMoveIndexEntry string string "'f option" flags string
  | TreeGateway_PingLocalPeer string flags
  | TreeGateway_PingSeniorPeer string u32 flags
  | TreeGateway_SendMessageToSeniorPeer "'m option" u32 string
  | TreeGateway_SendMessageToSubscriber string "'m option" "'f option" string
  | TreeGateway_BeginUndoSequence string u32
  | TreeGateway_EndUndoSequence string u32
  | TreeGateway_RequestUndo u32 string
  | TreeGateway_RequestRedo u32 string

text \<open>The callbacks; the database number of a message from the senior peer is an \<^verbatim>\<open>int32\<close>.\<close>

datatype 'm tree_callback =
    TreeNodeUpdated string "'m option" string
  | TreeNodeIndexCleared string string
  | TreeNodeIndexEntryInserted string u32 string string
  | TreeNodeIndexEntryRemoved string u32 string string
  | TreeLocalPeerPonged string
  | TreeSeniorPeerPonged string u32
  | MessageReceivedFromTreeSeniorPeer u32 string "'m option"
  | MessageReceivedFromSubscriber string "'m option" string
  | SubtreesRequestResultReturned string "'m option"
  | TreeGatewayConnectionStateChanged
  | TreeGatewayShuttingDown
  | CallbackBatchBegins
  | CallbackBatchEnds

section \<open>From a subscriber to its gateway\<close>

text \<open>The methods of \<^verbatim>\<open>ITreeGatewaySubscriber\<close>: each calls its gateway.\<close>

fun onGateway :: "('m, 'f) subscriber_call \<Rightarrow> ('m, 'f) gateway_call" where
  "onGateway (AddTreeSubscription subscriptionPath optFilterRef flags) =
     TreeGateway_AddSubscription subscriptionPath optFilterRef flags"
| "onGateway (RemoveTreeSubscription subscriptionPath optFilterRef flags) =
     TreeGateway_RemoveSubscription subscriptionPath optFilterRef flags"
| "onGateway (RemoveAllTreeSubscriptions flags) = TreeGateway_RemoveAllSubscriptions flags"
| "onGateway (RequestTreeNodeValues queryString optFilterRef flags tag) =
     TreeGateway_RequestNodeValues queryString optFilterRef flags tag"
| "onGateway (RequestTreeNodeSubtrees queryStrings queryFilters tag maxDepth flags) =
     TreeGateway_RequestNodeSubtrees queryStrings queryFilters tag maxDepth flags"
| "onGateway (UploadTreeNodeValue path optPayload flags optBefore optOpTag) =
     TreeGateway_UploadNodeValue path optPayload flags optBefore optOpTag"
| "onGateway (UploadTreeNodeSubtree basePath valuesMsg flags optOpTag) =
     TreeGateway_UploadNodeSubtree basePath valuesMsg flags optOpTag"
| "onGateway (RequestDeleteTreeNodes path optFilterRef flags optOpTag) =
     TreeGateway_RequestDeleteNodes path optFilterRef flags optOpTag"
| "onGateway (RequestMoveTreeIndexEntry path optBefore optFilterRef flags optOpTag) =
     TreeGateway_RequestMoveIndexEntry path optBefore optFilterRef flags optOpTag"
| "onGateway (PingTreeLocalPeer tag flags) = TreeGateway_PingLocalPeer tag flags"
| "onGateway (PingTreeSeniorPeer tag whichDB flags) = TreeGateway_PingSeniorPeer tag whichDB flags"
| "onGateway (SendMessageToTreeSeniorPeer msg whichDB optTag) = TreeGateway_SendMessageToSeniorPeer msg whichDB optTag"
| "onGateway (SendMessageToSubscriber subscriberPath msg optFilterRef tag) =
     TreeGateway_SendMessageToSubscriber subscriberPath msg optFilterRef tag"
| "onGateway (BeginUndoSequence optSequenceLabel whichDB) = TreeGateway_BeginUndoSequence optSequenceLabel whichDB"
| "onGateway (EndUndoSequence optSequenceLabel whichDB) = TreeGateway_EndUndoSequence optSequenceLabel whichDB"
| "onGateway (RequestUndo whichDB optOpTag) = TreeGateway_RequestUndo whichDB optOpTag"
| "onGateway (RequestRedo whichDB optOpTag) = TreeGateway_RequestRedo whichDB optOpTag"

section \<open>ProxyTreeGateway\<close>

text \<open>Calls go up unchanged; the proxy is itself the subscriber that makes them.\<close>

fun proxy_call :: "('m, 'f) gateway_call \<Rightarrow> ('m, 'f) subscriber_call" where
  "proxy_call (TreeGateway_AddSubscription subscriptionPath optFilterRef flags) =
     AddTreeSubscription subscriptionPath optFilterRef flags"
| "proxy_call (TreeGateway_RemoveSubscription subscriptionPath optFilterRef flags) =
     RemoveTreeSubscription subscriptionPath optFilterRef flags"
| "proxy_call (TreeGateway_RemoveAllSubscriptions flags) = RemoveAllTreeSubscriptions flags"
| "proxy_call (TreeGateway_RequestNodeValues queryString optFilterRef flags tag) =
     RequestTreeNodeValues queryString optFilterRef flags tag"
| "proxy_call (TreeGateway_RequestNodeSubtrees queryStrings queryFilters tag maxDepth flags) =
     RequestTreeNodeSubtrees queryStrings queryFilters tag maxDepth flags"
| "proxy_call (TreeGateway_UploadNodeValue path optPayload flags optBefore optOpTag) =
     UploadTreeNodeValue path optPayload flags optBefore optOpTag"
| "proxy_call (TreeGateway_UploadNodeSubtree basePath valuesMsg flags optOpTag) =
     UploadTreeNodeSubtree basePath valuesMsg flags optOpTag"
| "proxy_call (TreeGateway_RequestDeleteNodes path optFilterRef flags optOpTag) =
     RequestDeleteTreeNodes path optFilterRef flags optOpTag"
| "proxy_call (TreeGateway_RequestMoveIndexEntry path optBefore optFilterRef flags optOpTag) =
     RequestMoveTreeIndexEntry path optBefore optFilterRef flags optOpTag"
| "proxy_call (TreeGateway_PingLocalPeer tag flags) = PingTreeLocalPeer tag flags"
| "proxy_call (TreeGateway_PingSeniorPeer tag whichDB flags) = PingTreeSeniorPeer tag whichDB flags"
| "proxy_call (TreeGateway_SendMessageToSeniorPeer msg whichDB tag) = SendMessageToTreeSeniorPeer msg whichDB tag"
| "proxy_call (TreeGateway_SendMessageToSubscriber subscriberPath msg optFilterRef tag) =
     SendMessageToSubscriber subscriberPath msg optFilterRef tag"
| "proxy_call (TreeGateway_BeginUndoSequence optSequenceLabel whichDB) = BeginUndoSequence optSequenceLabel whichDB"
| "proxy_call (TreeGateway_EndUndoSequence optSequenceLabel whichDB) = EndUndoSequence optSequenceLabel whichDB"
| "proxy_call (TreeGateway_RequestUndo whichDB optOpTag) = RequestUndo whichDB optOpTag"
| "proxy_call (TreeGateway_RequestRedo whichDB optOpTag) = RequestRedo whichDB optOpTag"

lemma onGateway_proxy_call [simp]: "onGateway (proxy_call c) = c"
  by (cases c) simp_all

lemma proxy_call_onGateway [simp]: "proxy_call (onGateway c) = c"
  by (cases c) simp_all

section \<open>IGateway: registrations\<close>

text \<open>
  A subscriber is an object; its identity is a number here.  \<open>RegisterSubscriber\<close>
  numbers subscribers from 1 on, and keeps both directions of the numbering.
\<close>

type_synonym subscriber = nat

record registrations =
  registrationIDCounter :: u32
  registeredSubscribers :: "(subscriber \<times> u32) list"
  registrationIDs :: "(u32 \<times> subscriber) list"

definition newRegistrations :: registrations where
  "newRegistrations = \<lparr> registrationIDCounter = 0, registeredSubscribers = [], registrationIDs = [] \<rparr>"

definition IGateway_RegisterSubscriber :: "subscriber \<Rightarrow> 'b registrations_scheme \<Rightarrow> 'b registrations_scheme" where
  "IGateway_RegisterSubscriber s g =
     (let registrationID = registrationIDCounter g + 1
      in g\<lparr> registrationIDCounter := registrationID,
            registeredSubscribers := tabPut fst (s, registrationID) (registeredSubscribers g),
            registrationIDs := tabPut fst (registrationID, s) (registrationIDs g) \<rparr>)"

text \<open>Unregistering an unknown subscriber crashes the program; callers never do.\<close>

definition IGateway_UnregisterSubscriber :: "subscriber \<Rightarrow> 'b registrations_scheme \<Rightarrow> 'b registrations_scheme" where
  "IGateway_UnregisterSubscriber s g =
     (case tabGet fst s (registeredSubscribers g) of
        None \<Rightarrow> g
      | Some (_, registrationID) \<Rightarrow>
          g\<lparr> registeredSubscribers := tabRemove fst s (registeredSubscribers g),
             registrationIDs := tabRemove fst registrationID (registrationIDs g) \<rparr>)"

text \<open>What a proxy does with a callback: it passes it to every subscriber, in order of registration.\<close>

definition proxy_callback :: "'m tree_callback \<Rightarrow> 'b registrations_scheme \<Rightarrow> (subscriber \<times> 'm tree_callback) list" where
  "proxy_callback cb g = map (\<lambda>(s, _). (s, cb)) (registeredSubscribers g)"

section \<open>DummyTreeGateway\<close>

text \<open>The gateway of a subscriber that has none: it registers nobody and refuses every call.\<close>

definition dummy_call :: "status_t \<Rightarrow> ('m, 'f) gateway_call \<Rightarrow> status_t" where
  "dummy_call returnValue c = returnValue"

text \<open>
  The numbering is one-to-one as long as fewer than \<^term>\<open>2 ^ 32 :: nat\<close> registrations were made:
  every number is at most the counter, and the two tables are inverse to each other.
\<close>

definition registrationsOK :: "'b registrations_scheme \<Rightarrow> bool" where
  "registrationsOK g \<longleftrightarrow>
     tabInv fst (registeredSubscribers g) \<and> tabInv fst (registrationIDs g) \<and>
     (\<forall>s r. tabGet fst s (registeredSubscribers g) = Some (s, r) \<longleftrightarrow> tabGet fst r (registrationIDs g) = Some (r, s)) \<and>
     (\<forall>(r, s) \<in> set (registrationIDs g). 1 \<le> r \<and> r \<le> registrationIDCounter g)"

lemma tabGet_fst_Some: "tabGet fst k es = Some e \<Longrightarrow> fst e = k"
  by (auto dest: tabGet_SomeD)

lemma tabGet_fst_iff: "tabInv fst es \<Longrightarrow> tabGet fst k es = Some (k, v) \<longleftrightarrow> (k, v) \<in> set es"
  using tabGet_mem [of fst es "(k, v)"] by (auto dest: tabGet_SomeD)

lemma registrationsOK_new: "registrationsOK newRegistrations"
  by (simp add: registrationsOK_def newRegistrations_def tabInv_def)

lemma registrationsOK_register:
  assumes ok: "registrationsOK g" and new: "\<not> tabHas fst s (registeredSubscribers g)"
    and room: "registrationIDCounter g \<noteq> - 1"
  shows "registrationsOK (IGateway_RegisterSubscriber s g)"
proof -
  let ?r = "registrationIDCounter g + 1"
  have inv: "tabInv fst (registeredSubscribers g)" "tabInv fst (registrationIDs g)"
    and iff: "\<And>s r. tabGet fst s (registeredSubscribers g) = Some (s, r) \<longleftrightarrow> tabGet fst r (registrationIDs g) = Some (r, s)"
    and range: "\<forall>(r, s) \<in> set (registrationIDs g). 1 \<le> r \<and> r \<le> registrationIDCounter g"
    using ok by (auto simp: registrationsOK_def)
  have less: "registrationIDCounter g < ?r"
    using room by (rule word_less_Suc)
  then have fresh: "tabGet fst ?r (registrationIDs g) = None"
    using range by (force simp: tabGet_eq_None)
  have "1 \<le> ?r"
    using less by (simp add: word_le_nat_alt word_less_nat_alt)
  moreover have "\<forall>(r, s) \<in> set (tabPut fst (?r, s) (registrationIDs g)). 1 \<le> r \<and> r \<le> ?r"
    using range less fresh \<open>1 \<le> ?r\<close> by (subst tabPut_fresh) (auto simp: tabGet_eq_None)
  moreover have "tabGet fst s' (tabPut fst (s, ?r) (registeredSubscribers g)) = Some (s', r) \<longleftrightarrow>
      tabGet fst r (tabPut fst (?r, s) (registrationIDs g)) = Some (r, s')" for s' r
    using iff [of s' r] iff [of s r] iff [of s' ?r] new fresh by (auto simp: tabGet_tabPut)
  ultimately show ?thesis
    using inv by (simp add: registrationsOK_def IGateway_RegisterSubscriber_def Let_def tabInv_tabPut)
qed

lemma registrationsOK_unregister:
  assumes ok: "registrationsOK g"
  shows "registrationsOK (IGateway_UnregisterSubscriber s g)"
proof (cases "tabGet fst s (registeredSubscribers g)")
  case None
  then show ?thesis
    using ok by (simp add: IGateway_UnregisterSubscriber_def)
next
  case (Some e)
  obtain r where e: "e = (s, r)"
    using tabGet_fst_Some [OF Some] by (cases e) simp
  have iff: "\<And>s r. tabGet fst s (registeredSubscribers g) = Some (s, r) \<longleftrightarrow> tabGet fst r (registrationIDs g) = Some (r, s)"
    using ok by (auto simp: registrationsOK_def)
  have "tabGet fst s' (tabRemove fst s (registeredSubscribers g)) = Some (s', r') \<longleftrightarrow>
      tabGet fst r' (tabRemove fst r (registrationIDs g)) = Some (r', s')" for s' r'
    using iff [of s' r'] iff [of s r] iff [of s' r] Some e by (auto simp: tabGet_tabRemove)
  moreover have "\<forall>(r', s') \<in> set (tabRemove fst r (registrationIDs g)). 1 \<le> r' \<and> r' \<le> registrationIDCounter g"
    using ok by (auto simp: registrationsOK_def tabRemove_def)
  moreover have "IGateway_UnregisterSubscriber s g = g\<lparr> registeredSubscribers := tabRemove fst s (registeredSubscribers g),
      registrationIDs := tabRemove fst r (registrationIDs g) \<rparr>"
    using Some e by (simp add: IGateway_UnregisterSubscriber_def)
  ultimately show ?thesis
    using ok by (simp add: registrationsOK_def tabInv_tabRemove)
qed

end
