(* ===== verification/ZG_MuxGateway.thy ===== *)
theory ZG_MuxGateway
  imports ZG_TreeGateway "HOL-Library.Char_ord"
begin

text \<open>
  \<^verbatim>\<open>MuxTreeGateway\<close>: many subscribers share one subscription to the gateway above.  It
  joins their subscriptions to a path into one with a filter that admits what any of them wants,
  marks requests with the requester's number so that replies find their way back, and passes
  every node update only to those whose subscriptions match it.

  Calls to the gateway above are recorded in a log with the status it returned; a function of
  the log so far gives that status.  Callbacks to subscribers are recorded in the same log.  A
  subscriber that calls the gateway from within a callback, and a gateway above that calls back
  from within a call, are not modelled: both act between the operations here, as they do when
  the gateway above is the network.

  MUSCLE's path matcher, its query filters and its string matcher are the fields of
  \<open>tree_lib\<close>.  A query filter is a reference, and two references are equal when they are the
  same object.
\<close>

section \<open>Strings\<close>

text \<open>\<^verbatim>\<open>atol\<close>.  A value \<^verbatim>\<open>atol\<close> cannot represent is undefined in C and wraps here.\<close>

definition isDigit :: "char \<Rightarrow> bool" where
  "isDigit c \<longleftrightarrow> 48 \<le> (of_char c :: nat) \<and> (of_char c :: nat) \<le> 57"

definition digitsValue :: "string \<Rightarrow> nat" where
  "digitsValue s = foldl (\<lambda>v c. 10 * v + ((of_char c :: nat) - 48)) 0 (takeWhile isDigit s)"

definition isSpace :: "char \<Rightarrow> bool" where
  "isSpace c \<longleftrightarrow> (of_char c :: nat) \<in> {9, 10, 11, 12, 13, 32}"

definition atol :: "string \<Rightarrow> int" where
  "atol s =
     (case dropWhile isSpace s of
        [] \<Rightarrow> 0
      | c # cs \<Rightarrow>
          (if c = CHR ''-'' then - int (digitsValue cs)
           else if c = CHR ''+'' then int (digitsValue cs) else int (digitsValue (c # cs))))"

definition StartsWith :: "string \<Rightarrow> string \<Rightarrow> bool" where
  "StartsWith prefix s \<longleftrightarrow> take (length prefix) s = prefix"

text \<open>The text after the first colon, with the text before it.\<close>

definition atColon :: "string \<Rightarrow> (string \<times> string) option" where
  "atColon s =
     (if CHR '':'' \<in> set s
      then Some (takeWhile (\<lambda>c. c \<noteq> CHR '':'') s, tl (dropWhile (\<lambda>c. c \<noteq> CHR '':'') s)) else None)"

definition WithoutPrefixSlash :: "string \<Rightarrow> string" where
  "WithoutPrefixSlash s = dropWhile (\<lambda>c. c = CHR ''/'') s"

definition numSegments :: "string \<Rightarrow> u32" where
  "numSegments path = of_nat (length (filter (\<lambda>c. c = CHR ''/'') path) + 1)"

section \<open>State\<close>

record 'f SubscriptionInfo =
  si_sub :: subscriber
  si_qfRef :: "'f option"
  si_flags :: flags

record 'p TreeSubscriberInfo =
  tsi_matcher :: 'p
  tsi_receivedPaths :: "(string \<times> u32) list"

datatype ('m, 'f) mux_event =
    UpCall "('m, 'f) subscriber_call" status_t
  | UpBeginCommandBatch
  | UpEndCommandBatch
  | UpShutdownGateway
  | ToSubscriber subscriber "'m tree_callback"

record ('m, 'f, 'p) tree_lib =
  pm_new :: 'p
  pm_PutPathString :: "string \<Rightarrow> 'f option \<Rightarrow> 'p \<Rightarrow> status_t \<times> 'p"
  pm_RemovePathString :: "string \<Rightarrow> 'p \<Rightarrow> 'p"
  pm_GetEntries :: "'p \<Rightarrow> (string \<times> 'f option) list"
  pm_MatchesPath :: "'p \<Rightarrow> string \<Rightarrow> 'm option \<Rightarrow> bool"
  qf_Or :: "'f list \<Rightarrow> 'f"
  ssm_Match :: "string \<Rightarrow> string \<Rightarrow> bool"
  tok_commas :: "string \<Rightarrow> string list"
  msg_nodeValues :: "'m \<Rightarrow> (string \<times> 'm) list"

record ('m, 'f, 'p) mux = registrations +
  mux_idPrefix :: string
  subscriberInfos :: "(subscriber \<times> 'p TreeSubscriberInfo option) list"
  needsCallbackBatchEndsCall :: "subscriber list"
  requestedSubtrees :: "(subscriber \<times> string list) list"
  subscribedStrings :: "(string \<times> 'f SubscriptionInfo list) list"
  mux_isConnected :: bool
  allowedCallbacks :: "subscriber list"
  dummySubscriber :: subscriber
  commandBatchCounter :: nat
  callbackBatchCounter :: nat
  subscriberBatch :: "subscriber \<Rightarrow> nat"
  mux_log :: "('m, 'f) mux_event list"

type_synonym ('m, 'f) upstream = "('m, 'f) mux_event list \<Rightarrow> ('m, 'f) subscriber_call \<Rightarrow> status_t"

definition newMuxTreeGateway :: "string \<Rightarrow> subscriber \<Rightarrow> ('m, 'f, 'p) mux" where
  "newMuxTreeGateway muxTreeGatewayIDPrefix dummy = registrations.extend newRegistrations
     \<lparr> mux_idPrefix = muxTreeGatewayIDPrefix, subscriberInfos = [], needsCallbackBatchEndsCall = [],
       requestedSubtrees = [], subscribedStrings = [], mux_isConnected = False, allowedCallbacks = [],
       dummySubscriber = dummy, commandBatchCounter = 0, callbackBatchCounter = 0, subscriberBatch = (\<lambda>_. 0), mux_log = [] \<rparr>"

section \<open>Batches and outgoing calls\<close>

definition emit :: "('m, 'f) mux_event \<Rightarrow> ('m, 'f, 'p) mux \<Rightarrow> ('m, 'f, 'p) mux" where
  "emit e m = m\<lparr> mux_log := mux_log m @ [e] \<rparr>"

text \<open>A method the gateway calls on itself as a subscriber of the gateway above.\<close>

definition upCall ::
  "('m, 'f) upstream \<Rightarrow> ('m, 'f) subscriber_call \<Rightarrow> ('m, 'f, 'p) mux \<Rightarrow> status_t \<times> ('m, 'f, 'p) mux" where
  "upCall U c m = (let st = U (mux_log m) c in (st, emit (UpCall c st) m))"

definition mux_BeginCommandBatch :: "('m, 'f, 'p) mux \<Rightarrow> ('m, 'f, 'p) mux" where
  "mux_BeginCommandBatch m =
     (let m1 = m\<lparr> commandBatchCounter := commandBatchCounter m + 1 \<rparr>
      in if commandBatchCounter m = 0 then emit UpBeginCommandBatch m1 else m1)"

definition mux_EndCommandBatch :: "('m, 'f, 'p) mux \<Rightarrow> ('m, 'f, 'p) mux" where
  "mux_EndCommandBatch m =
     (let m1 = (if commandBatchCounter m = 1 then emit UpEndCommandBatch m else m)
      in m1\<lparr> commandBatchCounter := commandBatchCounter m1 - 1 \<rparr>)"

definition sub_BeginCallbackBatch :: "subscriber \<Rightarrow> ('m, 'f, 'p) mux \<Rightarrow> ('m, 'f, 'p) mux" where
  "sub_BeginCallbackBatch s m =
     (let n = subscriberBatch m s; m1 = m\<lparr> subscriberBatch := (subscriberBatch m)(s := n + 1) \<rparr>
      in if n = 0 then emit (ToSubscriber s CallbackBatchBegins) (mux_BeginCommandBatch m1) else m1)"

definition sub_EndCallbackBatch :: "subscriber \<Rightarrow> ('m, 'f, 'p) mux \<Rightarrow> ('m, 'f, 'p) mux" where
  "sub_EndCallbackBatch s m =
     (let n = subscriberBatch m s;
          m1 = (if n = 1 then mux_EndCommandBatch (emit (ToSubscriber s CallbackBatchEnds) m) else m)
      in m1\<lparr> subscriberBatch := (subscriberBatch m1)(s := n - 1) \<rparr>)"

definition EnsureSubscriberInBatchGroup :: "subscriber \<Rightarrow> ('m, 'f, 'p) mux \<Rightarrow> ('m, 'f, 'p) mux" where
  "EnsureSubscriberInBatchGroup sub m =
     (if callbackBatchCounter m > 0 \<and> sub \<notin> set (needsCallbackBatchEndsCall m)
      then sub_BeginCallbackBatch sub (m\<lparr> needsCallbackBatchEndsCall := tabPut id sub (needsCallbackBatchEndsCall m) \<rparr>)
      else m)"

text \<open>The loop of \<open>CallbackBatchEnds\<close>: everybody whose batch was opened, in that order.\<close>

definition mux_CallbackBatchEnds :: "('m, 'f, 'p) mux \<Rightarrow> ('m, 'f, 'p) mux" where
  "mux_CallbackBatchEnds m =
     (fold sub_EndCallbackBatch (needsCallbackBatchEndsCall m) m)\<lparr> needsCallbackBatchEndsCall := [] \<rparr>"

text \<open>The gateway's own callback batch, opened and closed by the gateway above.\<close>

definition mux_BeginCallbackBatch :: "('m, 'f, 'p) mux \<Rightarrow> ('m, 'f, 'p) mux" where
  "mux_BeginCallbackBatch m =
     (let m1 = m\<lparr> callbackBatchCounter := callbackBatchCounter m + 1 \<rparr>
      in if callbackBatchCounter m = 0 then emit UpBeginCommandBatch m1 else m1)"

definition mux_EndCallbackBatch :: "('m, 'f, 'p) mux \<Rightarrow> ('m, 'f, 'p) mux" where
  "mux_EndCallbackBatch m =
     (let m1 = (if callbackBatchCounter m = 1 then emit UpEndCommandBatch (mux_CallbackBatchEnds m) else m)
      in m1\<lparr> callbackBatchCounter := callbackBatchCounter m1 - 1 \<rparr>)"

section \<open>Registration numbers in tags\<close>

definition GetRegistrationIDPrefix :: "char \<Rightarrow> subscriber \<Rightarrow> ('m, 'f, 'p) mux \<Rightarrow> string" where
  "GetRegistrationIDPrefix markerChar sub m =
     markerChar # decimal (unat (case tabGet fst sub (registeredSubscribers m) of None \<Rightarrow> 0 | Some (_, r) \<Rightarrow> r)) @ [markerChar]"

definition PrependRegistrationIDPrefix :: "char \<Rightarrow> subscriber \<Rightarrow> string \<Rightarrow> ('m, 'f, 'p) mux \<Rightarrow> string" where
  "PrependRegistrationIDPrefix markerChar sub s m = GetRegistrationIDPrefix markerChar sub m @ CHR '':'' # s"

definition ParseRegistrationID :: "char \<Rightarrow> string \<Rightarrow> ('m, 'f, 'p) mux \<Rightarrow> subscriber option" where
  "ParseRegistrationID markerChar ascii m =
     (if ascii \<noteq> '''' \<and> hd ascii = markerChar \<and> last ascii = markerChar
      then map_option snd (tabGet fst (word_of_int (atol (tl ascii))) (registrationIDs m)) else None)"

definition ParseRegistrationIDPrefix :: "char \<Rightarrow> string \<Rightarrow> ('m, 'f, 'p) mux \<Rightarrow> subscriber option \<times> string" where
  "ParseRegistrationIDPrefix markerChar s m =
     (case atColon s of
        None \<Rightarrow> (None, '''')
      | Some (prefix, suffix) \<Rightarrow> (ParseRegistrationID markerChar prefix m, suffix))"

definition TagToExcludeClientFromReplies :: "subscriber \<Rightarrow> string \<Rightarrow> ('m, 'f, 'p) mux \<Rightarrow> string" where
  "TagToExcludeClientFromReplies excludeMe optOpTag m =
     mux_idPrefix m @ PrependRegistrationIDPrefix (CHR ''!'') excludeMe optOpTag m"

section \<open>Subscriptions\<close>

text \<open>The filter sent for all subscriptions to one path, the last of them first.\<close>

fun composeFilter :: "('f list \<Rightarrow> 'f) \<Rightarrow> 'f option list \<Rightarrow> 'f list \<Rightarrow> 'f option" where
  "composeFilter orOf [] fs = (case fs of [] \<Rightarrow> None | [f] \<Rightarrow> Some f | _ \<Rightarrow> Some (orOf fs))"
| "composeFilter orOf (None # qs) fs = None"
| "composeFilter orOf (Some f # qs) fs = composeFilter orOf qs (fs @ [f])"

fun joinCommas :: "string list \<Rightarrow> string" where
  "joinCommas [] = ''''"
| "joinCommas [s] = s"
| "joinCommas (s # ss) = s @ CHR '','' # joinCommas ss"

definition subscriptionsTo :: "string \<Rightarrow> ('m, 'f, 'p) mux \<Rightarrow> 'f SubscriptionInfo list" where
  "subscriptionsTo path m = (case tabGet fst path (subscribedStrings m) of None \<Rightarrow> [] | Some (_, q) \<Rightarrow> q)"

definition UpdateSubscription ::
  "('m, 'f) upstream \<Rightarrow> ('m, 'f, 'p) tree_lib \<Rightarrow> string \<Rightarrow> subscriber option \<Rightarrow> flags \<Rightarrow> ('m, 'f, 'p) mux \<Rightarrow>
   status_t \<times> ('m, 'f, 'p) mux" where
  "UpdateSubscription U L subscriptionPath optSubscriber flags m =
     (let q = subscriptionsTo subscriptionPath m
      in if q = [] then upCall U (RemoveTreeSubscription subscriptionPath None 0) m
         else
           let obss = (case optSubscriber of
                         Some s \<Rightarrow> GetRegistrationIDPrefix (CHR ''_'') s m
                       | None \<Rightarrow> joinCommas (map (\<lambda>si. GetRegistrationIDPrefix (CHR ''_'') (si_sub si) m) (rev q)));
               sendFilter = composeFilter (qf_Or L) (map si_qfRef (rev q)) [];
               (st1, m1) = (if obss \<noteq> '''' then upCall U (PingTreeLocalPeer (''obss:'' @ obss) 0) m else (B_NO_ERROR, m))
           in if IsError st1 then (st1, m1)
              else let (st2, m2) = upCall U (AddTreeSubscription subscriptionPath sendFilter flags) m1
                   in if IsError st2 then (st2, m2)
                      else if obss \<noteq> '''' then upCall U (PingTreeLocalPeer ''obss:'' 0) m2 else (B_NO_ERROR, m2))"

definition setInfo :: "subscriber \<Rightarrow> 'p TreeSubscriberInfo option \<Rightarrow> ('m, 'f, 'p) mux \<Rightarrow> ('m, 'f, 'p) mux" where
  "setInfo s info m = m\<lparr> subscriberInfos := tabPut fst (s, info) (subscriberInfos m) \<rparr>"

definition infoOf :: "subscriber \<Rightarrow> ('m, 'f, 'p) mux \<Rightarrow> 'p TreeSubscriberInfo option" where
  "infoOf s m = (case tabGet fst s (subscriberInfos m) of Some (_, info) \<Rightarrow> info | None \<Rightarrow> None)"

definition setSubscriptions :: "string \<Rightarrow> 'f SubscriptionInfo list \<Rightarrow> ('m, 'f, 'p) mux \<Rightarrow> ('m, 'f, 'p) mux" where
  "setSubscriptions path q m = m\<lparr> subscribedStrings := tabPut fst (path, q) (subscribedStrings m) \<rparr>"

definition dropIfEmpty :: "string \<Rightarrow> ('m, 'f, 'p) mux \<Rightarrow> ('m, 'f, 'p) mux" where
  "dropIfEmpty path m =
     (if subscriptionsTo path m = [] then m\<lparr> subscribedStrings := tabRemove fst path (subscribedStrings m) \<rparr> else m)"

definition clearInfoIfEmpty :: "('m, 'f, 'p) tree_lib \<Rightarrow> subscriber \<Rightarrow> ('m, 'f, 'p) mux \<Rightarrow> ('m, 'f, 'p) mux" where
  "clearInfoIfEmpty L s m =
     (case infoOf s m of
        Some info \<Rightarrow> (if pm_GetEntries L (tsi_matcher info) = [] then setInfo s None m else m)
      | None \<Rightarrow> m)"

definition mux_AddSubscription ::
  "('m, 'f) upstream \<Rightarrow> ('m, 'f, 'p) tree_lib \<Rightarrow> subscriber \<Rightarrow> string \<Rightarrow> 'f option \<Rightarrow> flags \<Rightarrow> ('m, 'f, 'p) mux \<Rightarrow>
   status_t \<times> ('m, 'f, 'p) mux" where
  "mux_AddSubscription U L calledBy subscriptionPath optFilterRef flags m =
     (if \<not> tabHas fst calledBy (subscriberInfos m) then (B_BAD_ARGUMENT, m)
      else
        let si = \<lparr> si_sub = calledBy, si_qfRef = optFilterRef, si_flags = flags \<rparr>;
            m1 = setSubscriptions subscriptionPath (subscriptionsTo subscriptionPath m @ [si]) m;
            m2 = (if infoOf calledBy m1 = None
                  then let m' = setInfo calledBy (Some \<lparr> tsi_matcher = pm_new L, tsi_receivedPaths = [] \<rparr>) m1
                       in if mux_isConnected m' then emit (ToSubscriber calledBy TreeGatewayConnectionStateChanged) m' else m'
                  else m1);
            info = the (infoOf calledBy m2);
            ps = WithoutPrefixSlash subscriptionPath;
            (ret1, pm) = pm_PutPathString L ps optFilterRef (tsi_matcher info);
            m3 = setInfo calledBy (Some (info\<lparr> tsi_matcher := pm \<rparr>)) m2;
            (ret, m4) = (if IsError ret1 then (ret1, m3)
                         else if mux_isConnected m3 then UpdateSubscription U L subscriptionPath (Some calledBy) flags m3
                         else (B_NO_ERROR, m3))
        in if IsOK ret then (B_NO_ERROR, m4)
           else
             let info4 = the (infoOf calledBy m4);
                 m5 = setInfo calledBy (Some (info4\<lparr> tsi_matcher := pm_RemovePathString L ps (tsi_matcher info4) \<rparr>)) m4;
                 m6 = clearInfoIfEmpty L calledBy m5;
                 m7 = setSubscriptions subscriptionPath (butlast (subscriptionsTo subscriptionPath m6)) m6
             in (ret, dropIfEmpty subscriptionPath m7))"

text \<open>What is left of a subscriber's matcher and received paths after one path is taken out.\<close>

definition dropPath :: "('m, 'f, 'p) tree_lib \<Rightarrow> subscriber \<Rightarrow> string \<Rightarrow> ('m, 'f, 'p) mux \<Rightarrow> ('m, 'f, 'p) mux" where
  "dropPath L s ps m =
     (case infoOf s m of
        None \<Rightarrow> m
      | Some info \<Rightarrow>
          let pm = pm_RemovePathString L ps (tsi_matcher info);
              kept = filter (\<lambda>(p, _). pm_MatchesPath L pm p None) (tsi_receivedPaths info)
          in clearInfoIfEmpty L s (setInfo s (Some \<lparr> tsi_matcher = pm, tsi_receivedPaths = kept \<rparr>) m))"

definition mux_RemoveSubscription ::
  "('m, 'f) upstream \<Rightarrow> ('m, 'f, 'p) tree_lib \<Rightarrow> subscriber \<Rightarrow> string \<Rightarrow> 'f option \<Rightarrow> flags \<Rightarrow> ('m, 'f, 'p) mux \<Rightarrow>
   status_t \<times> ('m, 'f, 'p) mux" where
  "mux_RemoveSubscription U L calledBy subscriptionPath optFilterRef flags m =
     (case tabGet fst subscriptionPath (subscribedStrings m) of
        None \<Rightarrow> (B_NO_ERROR, m)
      | Some (_, q) \<Rightarrow>
          (let si = \<lparr> si_sub = calledBy, si_qfRef = optFilterRef, si_flags = flags \<rparr>
           in if si \<notin> set q then (B_DATA_NOT_FOUND, m)
              else
                let m1 = setSubscriptions subscriptionPath (remove1 si q) m;
                    m2 = snd (UpdateSubscription U L subscriptionPath (Some calledBy) 0 m1);
                    m3 = dropIfEmpty subscriptionPath m2
                in (B_NO_ERROR, dropPath L calledBy (WithoutPrefixSlash subscriptionPath) m3)))"

text \<open>The loop of \<open>RemoveAllSubscriptions\<close> over a copy of the entries; an error is kept, and the loop goes on.\<close>

fun removeEach ::
  "('m, 'f) upstream \<Rightarrow> ('m, 'f, 'p) tree_lib \<Rightarrow> subscriber \<Rightarrow> (string \<times> 'f option) list \<Rightarrow> status_t \<Rightarrow> ('m, 'f, 'p) mux \<Rightarrow>
   status_t \<times> ('m, 'f, 'p) mux" where
  "removeEach U L calledBy [] ret m = (ret, m)"
| "removeEach U L calledBy ((path, f) # es) ret m =
     (let (st, m1) = mux_RemoveSubscription U L calledBy path f 0 m
      in removeEach U L calledBy es (if IsError st then st else ret) m1)"

definition mux_RemoveAllSubscriptions ::
  "('m, 'f) upstream \<Rightarrow> ('m, 'f, 'p) tree_lib \<Rightarrow> subscriber \<Rightarrow> ('m, 'f, 'p) mux \<Rightarrow> status_t \<times> ('m, 'f, 'p) mux" where
  "mux_RemoveAllSubscriptions U L calledBy m =
     (let m1 = mux_BeginCommandBatch m;
          (ret, m2) =
            (if \<not> tabHas fst calledBy (subscriberInfos m1) then (B_DATA_NOT_FOUND, m1)
             else case infoOf calledBy m1 of
                    None \<Rightarrow> (B_NO_ERROR, m1)
                  | Some info \<Rightarrow> removeEach U L calledBy (pm_GetEntries L (tsi_matcher info)) B_NO_ERROR m1)
      in (ret, mux_EndCommandBatch m2))"

section \<open>Requests\<close>

definition requestsOf :: "subscriber \<Rightarrow> ('m, 'f, 'p) mux \<Rightarrow> string list" where
  "requestsOf s m = (case tabGet fst s (requestedSubtrees m) of None \<Rightarrow> [] | Some (_, q) \<Rightarrow> q)"

definition setRequests :: "subscriber \<Rightarrow> string list \<Rightarrow> ('m, 'f, 'p) mux \<Rightarrow> ('m, 'f, 'p) mux" where
  "setRequests s q m =
     (if q = [] then m\<lparr> requestedSubtrees := tabRemove fst s (requestedSubtrees m) \<rparr>
      else m\<lparr> requestedSubtrees := tabPut fst (s, q) (requestedSubtrees m) \<rparr>)"

definition mux_RequestNodeSubtreesAux ::
  "('m, 'f) upstream \<Rightarrow> subscriber \<Rightarrow> string list \<Rightarrow> 'f option list \<Rightarrow> string \<Rightarrow> u32 \<Rightarrow> flags \<Rightarrow> char \<Rightarrow> ('m, 'f, 'p) mux \<Rightarrow>
   status_t \<times> ('m, 'f, 'p) mux" where
  "mux_RequestNodeSubtreesAux U calledBy queryStrings queryFilters tag maxDepth flags markerChar m =
     (if \<not> mux_isConnected m then (B_BAD_OBJECT, m)
      else
        let q = requestsOf calledBy m;
            (ret, m1) = upCall U (RequestTreeNodeSubtrees queryStrings queryFilters
                          (PrependRegistrationIDPrefix markerChar calledBy tag m) maxDepth flags) (setRequests calledBy (q @ [tag]) m)
        in if IsOK ret then (ret, m1) else (ret, setRequests calledBy q m1))"

definition mux_UploadNodeValue ::
  "('m, 'f) upstream \<Rightarrow> subscriber \<Rightarrow> string \<Rightarrow> 'm option \<Rightarrow> flags \<Rightarrow> string \<Rightarrow> string \<Rightarrow> ('m, 'f, 'p) mux \<Rightarrow>
   status_t \<times> ('m, 'f, 'p) mux" where
  "mux_UploadNodeValue U calledBy path optPayload flags optBefore optOpTag m =
     upCall U (UploadTreeNodeValue path optPayload (unset_bit TREE_GATEWAY_FLAG_NOREPLY flags) optBefore
       (if bit flags TREE_GATEWAY_FLAG_NOREPLY then TagToExcludeClientFromReplies calledBy optOpTag m else optOpTag)) m"

text \<open>Pings and messages wait for a connection, and carry the caller's number.\<close>

definition whenConnected ::
  "('m, 'f) upstream \<Rightarrow> (string \<Rightarrow> ('m, 'f) subscriber_call) \<Rightarrow> subscriber \<Rightarrow> string \<Rightarrow> ('m, 'f, 'p) mux \<Rightarrow>
   status_t \<times> ('m, 'f, 'p) mux" where
  "whenConnected U call calledBy tag m =
     (if mux_isConnected m then upCall U (call (PrependRegistrationIDPrefix (CHR ''_'') calledBy tag m)) m else (B_BAD_OBJECT, m))"

text \<open>The calls \<^verbatim>\<open>MuxTreeGateway\<close> overrides; the others are the proxy's.\<close>

fun mux_call ::
  "('m, 'f) upstream \<Rightarrow> ('m, 'f, 'p) tree_lib \<Rightarrow> subscriber \<Rightarrow> ('m, 'f) gateway_call \<Rightarrow> ('m, 'f, 'p) mux \<Rightarrow>
   status_t \<times> ('m, 'f, 'p) mux" where
  "mux_call U L calledBy (TreeGateway_AddSubscription subscriptionPath optFilterRef flags) m =
     mux_AddSubscription U L calledBy subscriptionPath optFilterRef flags m"
| "mux_call U L calledBy (TreeGateway_RemoveSubscription subscriptionPath optFilterRef flags) m =
     mux_RemoveSubscription U L calledBy subscriptionPath optFilterRef flags m"
| "mux_call U L calledBy (TreeGateway_RemoveAllSubscriptions flags) m = mux_RemoveAllSubscriptions U L calledBy m"
| "mux_call U L calledBy (TreeGateway_RequestNodeSubtrees queryStrings queryFilters tag maxDepth flags) m =
     mux_RequestNodeSubtreesAux U calledBy queryStrings queryFilters tag maxDepth flags (CHR ''_'') m"
| "mux_call U L calledBy (TreeGateway_RequestNodeValues queryString optFilterRef flags tag) m =
     mux_RequestNodeSubtreesAux U calledBy [queryString] (case optFilterRef of None \<Rightarrow> [] | Some f \<Rightarrow> [Some f]) tag 1 flags (CHR ''='') m"
| "mux_call U L calledBy (TreeGateway_UploadNodeValue path optPayload flags optBefore optOpTag) m =
     mux_UploadNodeValue U calledBy path optPayload flags optBefore optOpTag m"
| "mux_call U L calledBy (TreeGateway_PingLocalPeer tag flags) m =
     whenConnected U (\<lambda>t. PingTreeLocalPeer t flags) calledBy tag m"
| "mux_call U L calledBy (TreeGateway_PingSeniorPeer tag whichDB flags) m =
     whenConnected U (\<lambda>t. PingTreeSeniorPeer t whichDB flags) calledBy tag m"
| "mux_call U L calledBy (TreeGateway_SendMessageToSeniorPeer msg whichDB tag) m =
     whenConnected U (SendMessageToTreeSeniorPeer msg whichDB) calledBy tag m"
| "mux_call U L calledBy (TreeGateway_SendMessageToSubscriber subscriberPath msg optFilterRef tag) m =
     whenConnected U (SendMessageToSubscriber subscriberPath msg optFilterRef) calledBy tag m"
| "mux_call U L calledBy c m = upCall U (proxy_call c) m"

section \<open>Callbacks\<close>

definition DoesPathMatch ::
  "('m, 'f, 'p) tree_lib \<Rightarrow> subscriber \<Rightarrow> 'p TreeSubscriberInfo option \<Rightarrow> string \<Rightarrow> 'm option \<Rightarrow> ('m, 'f, 'p) mux \<Rightarrow> bool" where
  "DoesPathMatch L sub pm path optMessage m =
     (case pm of
        Some info \<Rightarrow> (allowedCallbacks m = [] \<or> sub \<in> set (allowedCallbacks m)) \<and> pm_MatchesPath L (tsi_matcher info) path optMessage
      | None \<Rightarrow> False)"

definition UpdateSubscriber ::
  "subscriber \<Rightarrow> string \<Rightarrow> 'm option \<Rightarrow> string \<Rightarrow> ('m, 'f, 'p) mux \<Rightarrow> ('m, 'f, 'p) mux" where
  "UpdateSubscriber sub path msgRef optOpTag m =
     (case infoOf sub m of
        None \<Rightarrow> m
      | Some info \<Rightarrow>
          (if msgRef \<noteq> None then
             let m1 = EnsureSubscriberInBatchGroup sub m;
                 m2 = setInfo sub (Some (info\<lparr> tsi_receivedPaths := tabPut fst (path, numSegments path) (tsi_receivedPaths info) \<rparr>)) m1
             in emit (ToSubscriber sub (TreeNodeUpdated path msgRef optOpTag)) m2
           else if tabHas fst path (tsi_receivedPaths info) then
             let m1 = setInfo sub (Some (info\<lparr> tsi_receivedPaths := tabRemove fst path (tsi_receivedPaths info) \<rparr>)) m;
                 m2 = EnsureSubscriberInBatchGroup sub m1
             in emit (ToSubscriber sub (TreeNodeUpdated path msgRef optOpTag)) m2
           else m))"

text \<open>Whom the loops of the callbacks visit.\<close>

definition candidates :: "('m, 'f, 'p) mux \<Rightarrow> subscriber list" where
  "candidates m = (if allowedCallbacks m \<noteq> [] then allowedCallbacks m else map fst (subscriberInfos m))"

definition TreeNodeUpdatedAux ::
  "('m, 'f, 'p) tree_lib \<Rightarrow> string \<Rightarrow> 'm option \<Rightarrow> string \<Rightarrow> subscriber option \<Rightarrow> ('m, 'f, 'p) mux \<Rightarrow> ('m, 'f, 'p) mux" where
  "TreeNodeUpdatedAux L path msgRef optOpTag optDontNotify m =
     fold (\<lambda>sub m'.
         if infoOf sub m' \<noteq> None \<and> optDontNotify \<noteq> Some sub
         then UpdateSubscriber sub path (if DoesPathMatch L sub (infoOf sub m') path msgRef m' then msgRef else None) optOpTag m'
         else m')
       (candidates m) m"

definition mux_TreeNodeUpdated ::
  "('m, 'f, 'p) tree_lib \<Rightarrow> string \<Rightarrow> 'm option \<Rightarrow> string \<Rightarrow> ('m, 'f, 'p) mux \<Rightarrow> ('m, 'f, 'p) mux" where
  "mux_TreeNodeUpdated L path nodeMsg optOpTag m =
     (if StartsWith (mux_idPrefix m) optOpTag then
        let (dontNotifyMe, effectiveTag) = ParseRegistrationIDPrefix (CHR ''!'') (drop (length (mux_idPrefix m)) optOpTag) m
        in TreeNodeUpdatedAux L path nodeMsg effectiveTag dontNotifyMe m
      else if StartsWith ''[MUX'' optOpTag then
        TreeNodeUpdatedAux L path nodeMsg (case atColon optOpTag of Some (_, suffix) \<Rightarrow> suffix | None \<Rightarrow> optOpTag) None m
      else TreeNodeUpdatedAux L path nodeMsg optOpTag None m)"

text \<open>The three index callbacks differ in what is passed on only.\<close>

definition DoIndexNotifications ::
  "('m, 'f, 'p) tree_lib \<Rightarrow> string \<Rightarrow> 'm tree_callback \<Rightarrow> ('m, 'f, 'p) mux \<Rightarrow> ('m, 'f, 'p) mux" where
  "DoIndexNotifications L path cb m =
     fold (\<lambda>sub m'.
         if DoesPathMatch L sub (infoOf sub m') path None m'
         then emit (ToSubscriber sub cb) (EnsureSubscriberInBatchGroup sub m') else m')
       (candidates m) m"

text \<open>
  A pong of one of the gateway's own pings says which subscribers the updates that follow are
  for.  A number that is not registered any more stands for nobody, not for everybody.
\<close>

definition toRequester :: "string \<Rightarrow> (string \<Rightarrow> 'm tree_callback) \<Rightarrow> ('m, 'f, 'p) mux \<Rightarrow> ('m, 'f, 'p) mux" where
  "toRequester tag cb m =
     (case ParseRegistrationIDPrefix (CHR ''_'') tag m of
        (Some s, suffix) \<Rightarrow> emit (ToSubscriber s (cb suffix)) m
      | (None, _) \<Rightarrow> m)"

definition mux_TreeLocalPeerPonged :: "('m, 'f, 'p) tree_lib \<Rightarrow> string \<Rightarrow> ('m, 'f, 'p) mux \<Rightarrow> ('m, 'f, 'p) mux" where
  "mux_TreeLocalPeerPonged L tag m =
     (if StartsWith ''obss:'' tag then
        m\<lparr> allowedCallbacks := fold (\<lambda>t subs. tabPut id
            (case ParseRegistrationID (CHR ''_'') t m of Some s \<Rightarrow> s | None \<Rightarrow> dummySubscriber m) subs)
          (tok_commas L (drop 5 tag)) [] \<rparr>
      else toRequester tag TreeLocalPeerPonged m)"

text \<open>The number is read without a bound; \<^verbatim>\<open>atoi\<close> is undefined on numbers from \<^term>\<open>2 ^ 31 :: nat\<close> on.\<close>

definition IsReturnAddress :: "string \<Rightarrow> bool" where
  "IsReturnAddress path \<longleftrightarrow>
     StartsWith ''_'' path \<and> length path > 1 \<and> isDigit (path ! 1) \<and>
     StartsWith (CHR ''_'' # decimal (digitsValue (tl path)) @ ''_:'') path"

definition mux_MessageReceivedFromSubscriber ::
  "('m, 'f, 'p) tree_lib \<Rightarrow> string \<Rightarrow> 'm option \<Rightarrow> string \<Rightarrow> ('m, 'f, 'p) mux \<Rightarrow> ('m, 'f, 'p) mux" where
  "mux_MessageReceivedFromSubscriber L nodePath payload returnAddress m =
     (if IsReturnAddress nodePath then toRequester nodePath (\<lambda>suffix. MessageReceivedFromSubscriber suffix payload returnAddress) m
      else
        let hit = (\<lambda>sub. case infoOf sub m of
                 None \<Rightarrow> None
               | Some info \<Rightarrow> List.find (\<lambda>(p, n). n = numSegments nodePath \<and> ssm_Match L nodePath p) (tsi_receivedPaths info))
        in fold (\<lambda>sub m'. case hit sub of
               None \<Rightarrow> m'
             | Some (p, _) \<Rightarrow> emit (ToSubscriber sub (MessageReceivedFromSubscriber p payload returnAddress)) m')
             (map fst (subscriberInfos m)) m)"

definition mux_SubtreesRequestResultReturned ::
  "('m, 'f, 'p) tree_lib \<Rightarrow> string \<Rightarrow> 'm option \<Rightarrow> ('m, 'f, 'p) mux \<Rightarrow> ('m, 'f, 'p) mux" where
  "mux_SubtreesRequestResultReturned L tag subtreeData m =
     (let (s1, suffix) = ParseRegistrationIDPrefix (CHR ''_'') tag m;
          known = (\<lambda>s. case s of None \<Rightarrow> False | Some sub \<Rightarrow> tabHas fst sub (requestedSubtrees m));
          isValues = (\<not> known s1);
          sub = (if isValues then fst (ParseRegistrationIDPrefix (CHR ''='') tag m) else s1)
      in case sub of
           None \<Rightarrow> m
         | Some s \<Rightarrow>
             (if suffix \<notin> set (requestsOf s m) then m
              else
                let q = remove1 suffix (requestsOf s m);
                    m1 = m\<lparr> requestedSubtrees := tabPut fst (s, q) (requestedSubtrees m) \<rparr>;
                    m2 = (if isValues then
                            (case subtreeData of
                               None \<Rightarrow> m1
                             | Some d \<Rightarrow> fold (\<lambda>(path, payload) m'. emit (ToSubscriber s (TreeNodeUpdated path (Some payload) suffix)) m')
                                 (msg_nodeValues L d) (EnsureSubscriberInBatchGroup s m1))
                          else emit (ToSubscriber s (SubtreesRequestResultReturned suffix subtreeData)) m1)
                in setRequests s q m2))"

section \<open>Connection, registration, shutdown\<close>

definition toAll :: "'m tree_callback \<Rightarrow> ('m, 'f, 'p) mux \<Rightarrow> ('m, 'f, 'p) mux" where
  "toAll cb m = fold (\<lambda>(s, cb') m'. emit (ToSubscriber s cb') m') (proxy_callback cb m) m"

text \<open>\<open>up\<close> says whether the gateway above is connected now.\<close>

definition mux_TreeGatewayConnectionStateChanged ::
  "('m, 'f) upstream \<Rightarrow> ('m, 'f, 'p) tree_lib \<Rightarrow> bool \<Rightarrow> ('m, 'f, 'p) mux \<Rightarrow> ('m, 'f, 'p) mux" where
  "mux_TreeGatewayConnectionStateChanged U L up m =
     (if up = mux_isConnected m then m
      else
        let m1 = emit UpBeginCommandBatch (m\<lparr> mux_isConnected := up \<rparr>);
            m2 = (if up then
                    fold (\<lambda>(path, q) m'. snd (UpdateSubscription U L path None
                        (if \<forall>si \<in> set q. bit (si_flags si) TREE_GATEWAY_FLAG_NOREPLY then flagsWith TREE_GATEWAY_FLAG_NOREPLY else 0) m'))
                      (subscribedStrings m1) m1
                  else (snd (upCall U (RemoveAllTreeSubscriptions 0) m1))\<lparr> requestedSubtrees := [] \<rparr>)
        in emit UpEndCommandBatch (toAll TreeGatewayConnectionStateChanged m2))"

definition mux_RegisterSubscriber :: "subscriber \<Rightarrow> ('m, 'f, 'p) mux \<Rightarrow> ('m, 'f, 'p) mux" where
  "mux_RegisterSubscriber s m = setInfo s None (IGateway_RegisterSubscriber s m)"

definition mux_UnregisterSubscriber ::
  "('m, 'f) upstream \<Rightarrow> ('m, 'f, 'p) tree_lib \<Rightarrow> subscriber \<Rightarrow> ('m, 'f, 'p) mux \<Rightarrow> ('m, 'f, 'p) mux" where
  "mux_UnregisterSubscriber U L s m =
     IGateway_UnregisterSubscriber s
       (if tabHas fst s (subscriberInfos m) then
          let m1 = snd (mux_RemoveAllSubscriptions U L s m);
              m2 = (if s \<in> set (allowedCallbacks m1)
                    then m1\<lparr> allowedCallbacks := tabPut id (dummySubscriber m1) (tabRemove id s (allowedCallbacks m1)) \<rparr> else m1)
          in m2\<lparr> needsCallbackBatchEndsCall := tabRemove id s (needsCallbackBatchEndsCall m2),
                 subscriberInfos := tabRemove fst s (subscriberInfos m2),
                 requestedSubtrees := tabRemove fst s (requestedSubtrees m2) \<rparr>
        else m)"

text \<open>
  \<^verbatim>\<open>IGatewaySubscriber::SetGateway\<close>, to this gateway and away from it.  A subscriber that
  leaves first closes the callback batches it is in.
\<close>

definition attachSubscriber :: "subscriber \<Rightarrow> ('m, 'f, 'p) mux \<Rightarrow> ('m, 'f, 'p) mux" where
  "attachSubscriber s m = (if tabHas fst s (registeredSubscribers m) then m else mux_RegisterSubscriber s m)"

definition detachSubscriber ::
  "('m, 'f) upstream \<Rightarrow> ('m, 'f, 'p) tree_lib \<Rightarrow> subscriber \<Rightarrow> ('m, 'f, 'p) mux \<Rightarrow> ('m, 'f, 'p) mux" where
  "detachSubscriber U L s m =
     (if tabHas fst s (registeredSubscribers m)
      then mux_UnregisterSubscriber U L s ((sub_EndCallbackBatch s ^^ subscriberBatch m s) m) else m)"

definition mux_TreeGatewayShuttingDown ::
  "('m, 'f) upstream \<Rightarrow> ('m, 'f, 'p) tree_lib \<Rightarrow> ('m, 'f, 'p) mux \<Rightarrow> ('m, 'f, 'p) mux" where
  "mux_TreeGatewayShuttingDown U L m =
     fold (\<lambda>s m'. detachSubscriber U L s (emit (ToSubscriber s TreeGatewayShuttingDown) m')) (map fst (registeredSubscribers m)) m"

definition mux_ShutdownGateway ::
  "('m, 'f) upstream \<Rightarrow> ('m, 'f, 'p) tree_lib \<Rightarrow> ('m, 'f, 'p) mux \<Rightarrow> ('m, 'f, 'p) mux" where
  "mux_ShutdownGateway U L m =
     (let m1 = emit UpShutdownGateway (mux_TreeGatewayShuttingDown U L m);
          m2 = fold (detachSubscriber U L) (map fst (registeredSubscribers m1)) m1
      in m2\<lparr> subscriberInfos := [], needsCallbackBatchEndsCall := [], subscribedStrings := [], requestedSubtrees := [] \<rparr>)"

section \<open>The gateway as a whole\<close>

text \<open>What can happen to a gateway: a subscriber comes, goes or calls; the gateway above calls back; the owner shuts it down.\<close>

datatype ('m, 'f) mux_input =
    Attach subscriber
  | Detach subscriber
  | Calls subscriber "('m, 'f) gateway_call"
  | CallsBack "'m tree_callback"
  | Connection bool
  | Shutdown

fun mux_callback ::
  "('m, 'f) upstream \<Rightarrow> ('m, 'f, 'p) tree_lib \<Rightarrow> 'm tree_callback \<Rightarrow> ('m, 'f, 'p) mux \<Rightarrow> ('m, 'f, 'p) mux" where
  "mux_callback U L (TreeNodeUpdated path nodeMsg optOpTag) m = mux_TreeNodeUpdated L path nodeMsg optOpTag m"
| "mux_callback U L (TreeNodeIndexCleared path optOpTag) m = DoIndexNotifications L path (TreeNodeIndexCleared path optOpTag) m"
| "mux_callback U L (TreeNodeIndexEntryInserted path idx nodeName optOpTag) m =
     DoIndexNotifications L path (TreeNodeIndexEntryInserted path idx nodeName optOpTag) m"
| "mux_callback U L (TreeNodeIndexEntryRemoved path idx nodeName optOpTag) m =
     DoIndexNotifications L path (TreeNodeIndexEntryRemoved path idx nodeName optOpTag) m"
| "mux_callback U L (TreeLocalPeerPonged tag) m = mux_TreeLocalPeerPonged L tag m"
| "mux_callback U L (TreeSeniorPeerPonged tag whichDB) m = toRequester tag (\<lambda>suffix. TreeSeniorPeerPonged suffix whichDB) m"
| "mux_callback U L (MessageReceivedFromTreeSeniorPeer whichDB tag payload) m =
     toRequester tag (\<lambda>suffix. MessageReceivedFromTreeSeniorPeer whichDB suffix payload) m"
| "mux_callback U L (MessageReceivedFromSubscriber nodePath payload returnAddress) m =
     mux_MessageReceivedFromSubscriber L nodePath payload returnAddress m"
| "mux_callback U L (SubtreesRequestResultReturned tag subtreeData) m = mux_SubtreesRequestResultReturned L tag subtreeData m"
| "mux_callback U L TreeGatewayConnectionStateChanged m = mux_TreeGatewayConnectionStateChanged U L (mux_isConnected m) m"
| "mux_callback U L TreeGatewayShuttingDown m = mux_TreeGatewayShuttingDown U L m"
| "mux_callback U L CallbackBatchBegins m = mux_BeginCallbackBatch m"
| "mux_callback U L CallbackBatchEnds m = mux_EndCallbackBatch m"

fun mux_step ::
  "('m, 'f) upstream \<Rightarrow> ('m, 'f, 'p) tree_lib \<Rightarrow> ('m, 'f) mux_input \<Rightarrow> ('m, 'f, 'p) mux \<Rightarrow> ('m, 'f, 'p) mux" where
  "mux_step U L (Attach s) m = attachSubscriber s m"
| "mux_step U L (Detach s) m = detachSubscriber U L s m"
| "mux_step U L (Calls s c) m = snd (mux_call U L s c m)"
| "mux_step U L (CallsBack cb) m = mux_callback U L cb m"
| "mux_step U L (Connection up) m = mux_TreeGatewayConnectionStateChanged U L up m"
| "mux_step U L Shutdown m = mux_ShutdownGateway U L m"

text \<open>
  Only registered subscribers call; none of them is the dummy subscriber, which is a member of
  the gateway; and registration numbers do not run out.
\<close>

definition mux_allowed :: "('m, 'f) mux_input \<Rightarrow> ('m, 'f, 'p) mux \<Rightarrow> bool" where
  "mux_allowed i m =
     (case i of
        Attach s \<Rightarrow> s \<noteq> dummySubscriber m \<and> registrationIDCounter m \<noteq> - 1
      | Calls s c \<Rightarrow> tabHas fst s (registeredSubscribers m)
      | _ \<Rightarrow> True)"

inductive mux_reach :: "('m, 'f) upstream \<Rightarrow> ('m, 'f, 'p) tree_lib \<Rightarrow> ('m, 'f, 'p) mux \<Rightarrow> bool" for U L where
  mux_start: "mux_reach U L (newMuxTreeGateway idPrefix dummy)"
| mux_next: "mux_reach U L m \<Longrightarrow> mux_allowed i m \<Longrightarrow> mux_reach U L (mux_step U L i m)"

end
