(* ===== verification/ZG_MuxProperties.thy ===== *)
theory ZG_MuxProperties
  imports ZG_MuxGateway
begin

text \<open>
  What a \<^verbatim>\<open>MuxTreeGateway\<close> keeps true.  \<open>muxOK\<close> ties its tables together: the
  subscribers they mention are the registered ones, queues in tables are never empty, and a
  subscriber is in a callback batch exactly while it waits for the end of one.  On top of it:
  nobody who has left is called, the gateway above is subscribed to exactly what the subscribers
  want together, replies find the one who asked, and a subscription that fails is undone.
\<close>

section \<open>Numbers in tags\<close>

lemma of_char_digitChar: "d < 10 \<Longrightarrow> (of_char (digitChar d) :: nat) = 48 + d"
  by (simp add: digitChar_def of_char_of)

lemma isDigit_digitChar: "d < 10 \<Longrightarrow> isDigit (digitChar d)"
  by (simp add: isDigit_def of_char_digitChar)

lemma digits_decimal: "\<forall>c \<in> set (decimal n). isDigit c"
proof (induction n rule: decimal.induct)
  case (1 n)
  show ?case
  proof (cases "n < 10")
    case True
    then show ?thesis
      by (subst decimal.simps) (simp add: isDigit_digitChar)
  next
    case False
    then show ?thesis
      using 1 by (subst decimal.simps) (auto simp: isDigit_digitChar)
  qed
qed

lemma decimal_nonempty: "decimal n \<noteq> []"
  by (subst decimal.simps) simp

lemma value_decimal: "foldl (\<lambda>v c. 10 * v + ((of_char c :: nat) - 48)) 0 (decimal n) = n"
proof (induction n rule: decimal.induct)
  case (1 n)
  show ?case
  proof (cases "n < 10")
    case True
    then show ?thesis
      by (subst decimal.simps) (simp add: of_char_digitChar)
  next
    case False
    then show ?thesis
      using 1 by (subst decimal.simps) (simp add: of_char_digitChar)
  qed
qed

lemma digitsValue_decimal: "\<not> isDigit c \<Longrightarrow> digitsValue (decimal n @ c # cs) = n"
  using digits_decimal [of n] value_decimal [of n] by (simp add: digitsValue_def takeWhile_append)

lemma atol_decimal:
  assumes "\<not> isDigit c"
  shows "atol (decimal n @ c # cs) = int n"
proof -
  obtain d ds where d: "decimal n = d # ds"
    using decimal_nonempty [of n] by (cases "decimal n") auto
  then have "isDigit d"
    using digits_decimal [of n] by simp
  then have "\<not> isSpace d" "d \<noteq> CHR ''-''" "d \<noteq> CHR ''+''"
    by (auto simp: isSpace_def isDigit_def)
  then show ?thesis
    using digitsValue_decimal [OF assms, of n cs] d by (simp add: atol_def)
qed

lemma word_of_int_unat [simp]: "word_of_int (int (unat (r :: u32))) = r"
  by simp

section \<open>Parsing what was prepended\<close>

lemma takeWhile_until: "c \<notin> set xs \<Longrightarrow> takeWhile (\<lambda>x. x \<noteq> c) (xs @ c # ys) = xs \<and> dropWhile (\<lambda>x. x \<noteq> c) (xs @ c # ys) = c # ys"
  by (induction xs) auto

lemma atColon_append: "CHR '':'' \<notin> set pre \<Longrightarrow> atColon (pre @ CHR '':'' # suf) = Some (pre, suf)"
  by (simp add: atColon_def takeWhile_until)

definition markerOK :: "char \<Rightarrow> bool" where
  "markerOK c \<longleftrightarrow> \<not> isDigit c \<and> c \<noteq> CHR '':''"

lemma markers: "markerOK (CHR ''_'')" "markerOK (CHR ''='')" "markerOK (CHR ''!'')"
  by (simp_all add: markerOK_def isDigit_def)

lemma prefix_no_colon: "markerOK c \<Longrightarrow> CHR '':'' \<notin> set (GetRegistrationIDPrefix c s m)"
  using digits_decimal [of "unat (case tabGet fst s (registeredSubscribers m) of None \<Rightarrow> 0 | Some (_, r) \<Rightarrow> r)"]
  by (auto simp: GetRegistrationIDPrefix_def markerOK_def isDigit_def)

lemma parse_prefix:
  assumes "markerOK c" "tabGet fst s (registeredSubscribers m) = Some (s, r)"
  shows "ParseRegistrationID c (GetRegistrationIDPrefix c s m) m' = map_option snd (tabGet fst r (registrationIDs m'))"
proof -
  have "atol (decimal (unat r) @ [c]) = int (unat r)"
    using assms(1) by (intro atol_decimal) (simp add: markerOK_def)
  then show ?thesis
    using assms by (simp add: ParseRegistrationID_def GetRegistrationIDPrefix_def)
qed

lemma parse_prepended:
  assumes "markerOK c" "tabGet fst s (registeredSubscribers m) = Some (s, r)"
  shows "ParseRegistrationIDPrefix c (PrependRegistrationIDPrefix c s tag m) m' =
    (map_option snd (tabGet fst r (registrationIDs m')), tag)"
  using assms by (simp add: ParseRegistrationIDPrefix_def PrependRegistrationIDPrefix_def atColon_append prefix_no_colon parse_prefix)

lemma registered_both:
  "registrationsOK m \<Longrightarrow> tabGet fst s (registeredSubscribers m) = Some (s, r) \<Longrightarrow> tabGet fst r (registrationIDs m) = Some (r, s)"
  by (simp add: registrationsOK_def)

text \<open>What MUSCLE's path matcher and its \<^verbatim>\<open>OrQueryFilter\<close> promise.\<close>

definition matcher_law :: "('m, 'f, 'p) tree_lib \<Rightarrow> bool" where
  "matcher_law L \<longleftrightarrow> (\<forall>p f pm pm'. pm_PutPathString L p f pm = (B_NO_ERROR, pm') \<longrightarrow> pm_GetEntries L pm' \<noteq> [])"

definition or_law :: "('m, 'f, 'p) tree_lib \<Rightarrow> ('f \<Rightarrow> 'm \<Rightarrow> bool) \<Rightarrow> bool" where
  "or_law L filterMatch \<longleftrightarrow> (\<forall>fs msg. filterMatch (qf_Or L fs) msg \<longleftrightarrow> (\<exists>f \<in> set fs. filterMatch f msg))"

lemma entries_put: "matcher_law L \<Longrightarrow> pm_PutPathString L p f pm = (B_NO_ERROR, pm') \<Longrightarrow> pm_GetEntries L pm' \<noteq> []"
  unfolding matcher_law_def by blast

section \<open>Well-formed gateways\<close>

definition keysOf :: "('m, 'f, 'p) mux \<Rightarrow> subscriber set" where
  "keysOf m = fst ` set (registeredSubscribers m)"

definition muxOK :: "('m, 'f, 'p) tree_lib \<Rightarrow> ('m, 'f, 'p) mux \<Rightarrow> bool" where
  "muxOK L m \<longleftrightarrow>
     registrationsOK m \<and> dummySubscriber m \<notin> keysOf m \<and>
     tabInv fst (subscriberInfos m) \<and> fst ` set (subscriberInfos m) = keysOf m \<and>
     (\<forall>s info. (s, Some info) \<in> set (subscriberInfos m) \<longrightarrow> pm_GetEntries L (tsi_matcher info) \<noteq> []) \<and>
     tabInv fst (subscribedStrings m) \<and> (\<forall>(path, q) \<in> set (subscribedStrings m). q \<noteq> []) \<and>
     tabInv fst (requestedSubtrees m) \<and> fst ` set (requestedSubtrees m) \<subseteq> keysOf m \<and>
     (\<forall>(s, q) \<in> set (requestedSubtrees m). q \<noteq> []) \<and> (requestedSubtrees m \<noteq> [] \<longrightarrow> mux_isConnected m) \<and>
     distinct (allowedCallbacks m) \<and> set (allowedCallbacks m) \<subseteq> insert (dummySubscriber m) (keysOf m) \<and>
     distinct (needsCallbackBatchEndsCall m) \<and> set (needsCallbackBatchEndsCall m) \<subseteq> keysOf m \<and>
     (\<forall>s. subscriberBatch m s = (if s \<in> set (needsCallbackBatchEndsCall m) then 1 else 0)) \<and>
     commandBatchCounter m = length (needsCallbackBatchEndsCall m) \<and>
     (callbackBatchCounter m = 0 \<longrightarrow> needsCallbackBatchEndsCall m = [])"

definition calls_only :: "subscriber set \<Rightarrow> ('m, 'f, 'p) mux \<Rightarrow> ('m, 'f, 'p) mux \<Rightarrow> bool" where
  "calls_only S m m' \<longleftrightarrow> (\<exists>es. mux_log m' = mux_log m @ es \<and> (\<forall>s cb. ToSubscriber s cb \<in> set es \<longrightarrow> s \<in> S))"

lemma calls_only_refl [simp]: "calls_only S m m"
  by (simp add: calls_only_def)

lemma calls_only_trans: "calls_only S m m' \<Longrightarrow> calls_only S m' m'' \<Longrightarrow> calls_only S m m''"
  by (force simp: calls_only_def)

lemma calls_only_same: "mux_log m' = mux_log m \<Longrightarrow> calls_only S m m'"
  by (simp add: calls_only_def)

lemma calls_only_cong: "mux_log m' = mux_log m'' \<Longrightarrow> calls_only S m m' = calls_only S m m''"
  by (simp add: calls_only_def)

text \<open>
  Most operations keep the registrations and the counters of the callback batch; for them one
  relation says that they keep the gateway well-formed and call registered subscribers only.
\<close>

definition steady :: "('m, 'f, 'p) mux \<Rightarrow> ('m, 'f, 'p) mux \<Rightarrow> bool" where
  "steady m m' \<longleftrightarrow>
     registeredSubscribers m' = registeredSubscribers m \<and> registrationIDs m' = registrationIDs m \<and>
     registrationIDCounter m' = registrationIDCounter m \<and> dummySubscriber m' = dummySubscriber m \<and>
     mux_idPrefix m' = mux_idPrefix m \<and> mux_isConnected m' = mux_isConnected m \<and>
     callbackBatchCounter m' = callbackBatchCounter m \<and> calls_only (keysOf m) m m'"

definition good :: "('m, 'f, 'p) tree_lib \<Rightarrow> ('m, 'f, 'p) mux \<Rightarrow> ('m, 'f, 'p) mux \<Rightarrow> bool" where
  "good L m m' \<longleftrightarrow> (muxOK L m \<longrightarrow> muxOK L m' \<and> steady m m')"

lemma keysOf_cong: "registeredSubscribers m' = registeredSubscribers m \<Longrightarrow> keysOf m' = keysOf m"
  by (simp add: keysOf_def)

lemma steady_keys: "steady m m' \<Longrightarrow> keysOf m' = keysOf m"
  by (simp add: steady_def keysOf_def)

lemma steady_refl [simp]: "steady m m"
  by (simp add: steady_def)

lemma steady_trans: "steady m m' \<Longrightarrow> steady m' m'' \<Longrightarrow> steady m m''"
  using steady_keys [of m m'] by (auto simp: steady_def intro: calls_only_trans)

lemma good_refl [simp]: "good L m m"
  by (simp add: good_def)

lemma good_trans: "good L m m' \<Longrightarrow> good L m' m'' \<Longrightarrow> good L m m''"
  by (auto simp: good_def intro: steady_trans)

lemma good_trans_keys: "good L m m' \<Longrightarrow> (steady m m' \<Longrightarrow> muxOK L m' \<Longrightarrow> good L m' m'') \<Longrightarrow> good L m m''"
  by (auto simp: good_def intro: steady_trans)

lemma good_fold:
  "(\<And>x m'. x \<in> set xs \<Longrightarrow> steady m m' \<Longrightarrow> muxOK L m' \<Longrightarrow> good L m' (f x m')) \<Longrightarrow> good L m (fold f xs m)"
proof (induction xs arbitrary: m)
  case (Cons x xs)
  show ?case
  proof (cases "muxOK L m")
    case True
    have first: "good L m (f x m)"
      using Cons.prems [of x m] True by simp
    have "good L (f x m) (fold f xs (f x m))"
    proof (rule Cons.IH)
      fix y m'
      assume y: "y \<in> set xs" "steady (f x m) m'" "muxOK L m'"
      then have "steady m m'"
        using first True steady_trans [of m "f x m" m'] by (simp add: good_def)
      then show "good L m' (f y m')"
        using Cons.prems [of y m'] y by simp
    qed
    then show ?thesis
      using first good_trans by fastforce
  qed (simp add: good_def)
qed simp

text \<open>An update of the tables with the same log, registrations and counters.\<close>

lemma goodI:
  "(muxOK L m \<Longrightarrow> muxOK L m') \<Longrightarrow> steady m m' \<Longrightarrow> good L m m'"
  by (simp add: good_def)

lemma muxOK_log: "muxOK L (m\<lparr> mux_log := l \<rparr>) = muxOK L m"
  by (simp add: muxOK_def keysOf_def registrationsOK_def)

lemma good_emit: "(\<And>s cb. e = ToSubscriber s cb \<Longrightarrow> s \<in> keysOf m) \<Longrightarrow> good L m (emit e m)"
  by (intro goodI) (auto simp: emit_def muxOK_log steady_def calls_only_def)

lemma good_upCall: "good L m (snd (upCall U c m))"
  unfolding upCall_def Let_def snd_conv by (rule good_emit) simp

lemma upCall_log: "snd (upCall U c m) = emit (UpCall c (U (mux_log m) c)) m"
  by (simp add: upCall_def Let_def)

text \<open>Operations that only add upstream calls to the log.\<close>

definition upcalls :: "('m, 'f, 'p) mux \<Rightarrow> ('m, 'f, 'p) mux \<Rightarrow> bool" where
  "upcalls m m' \<longleftrightarrow> (\<exists>es. m' = m\<lparr> mux_log := mux_log m @ es \<rparr> \<and> (\<forall>e \<in> set es. \<exists>c st. e = UpCall c st))"

lemma upcalls_refl: "upcalls m m"
  unfolding upcalls_def by (rule exI [of _ "[]"]) simp

lemma upcalls_upCall: "upcalls m m' \<Longrightarrow> upcalls m (snd (upCall U c m'))"
  by (force simp: upcalls_def upCall_log emit_def)

lemma good_upcalls: "upcalls m m' \<Longrightarrow> good L m m'"
  by (rule goodI) (auto simp: upcalls_def muxOK_log steady_def calls_only_def)

lemma upcalls_emit: "upcalls m m' \<Longrightarrow> upcalls m (emit (UpCall c st) m')"
  by (force simp: upcalls_def emit_def)

lemma upcalls_UpdateSubscription: "upcalls m (snd (UpdateSubscription U L p optSub flags m))"
  unfolding UpdateSubscription_def Let_def upCall_def
  by (simp split: if_split prod.split) (auto intro!: upcalls_emit upcalls_refl)

section \<open>Tables and batches\<close>

lemma set_tabPut_subset: "set (tabPut key x es) \<subseteq> insert x (set es)"
  by (induction es) auto

lemma tabPut_same: "tabGet key (key x) es = Some x \<Longrightarrow> tabPut key x es = es"
  by (induction es) (auto split: if_splits)

lemma tabPut_tabPut: "key x = key y \<Longrightarrow> tabPut key x (tabPut key y es) = tabPut key x es"
  by (induction es) auto

lemma tabRemove_fresh: "k \<notin> key ` set es \<Longrightarrow> tabRemove key k (es @ [x]) = es @ (if key x = k then [] else [x])"
  by (auto simp: tabRemove_def intro!: filter_all_conv)

lemma keys_tabPut_present: "tabHas key (key x) es \<Longrightarrow> key ` set (tabPut key x es) = key ` set es"
proof -
  assume "tabHas key (key x) es"
  then have "key x \<in> key ` set es"
    using tabGet_eq_None [of key "key x" es] by (simp only: not_not)
  then show ?thesis
    unfolding keys_tabPut by (rule insert_absorb)
qed

lemma set_tabRemove: "set (tabRemove key k es) = {e \<in> set es. key e \<noteq> k}"
  by (auto simp: tabRemove_def)

lemma tabHas_keysOf: "tabHas fst s (registeredSubscribers m) \<longleftrightarrow> s \<in> keysOf m"
  by (simp only: keysOf_def tabGet_eq_None not_not)

lemma infos_keys: "muxOK L m \<Longrightarrow> tabHas fst s (subscriberInfos m) \<longleftrightarrow> s \<in> keysOf m"
  by (simp only: muxOK_def tabGet_eq_None not_not)

lemma infoOf_Some: "infoOf s m = Some info \<Longrightarrow> (s, Some info) \<in> set (subscriberInfos m)"
  by (auto simp: infoOf_def split: option.splits dest!: tabGet_SomeD)

lemma infoOf_registered:
  assumes "muxOK L m" "infoOf s m \<noteq> None"
  shows "s \<in> keysOf m"
proof -
  obtain info where "infoOf s m = Some info"
    using assms(2) by blast
  from infoOf_Some [OF this] have "s \<in> fst ` set (subscriberInfos m)"
    by (rule rev_image_eqI) simp
  then show ?thesis
    using assms(1) by (simp add: muxOK_def)
qed

lemma infoOf_setInfo: "infoOf s (setInfo s' i m) = (if s = s' then i else infoOf s m)"
  by (simp add: infoOf_def setInfo_def tabGet_tabPut)

lemma infoOf_emit [simp]: "infoOf s (emit e m) = infoOf s m"
  by (simp add: infoOf_def emit_def)

lemma good_setInfo:
  assumes "s \<in> keysOf m" "\<And>info. i = Some info \<Longrightarrow> pm_GetEntries L (tsi_matcher info) \<noteq> []"
  shows "good L m (setInfo s i m)"
proof (rule goodI)
  assume ok: "muxOK L m"
  have "tabHas fst (fst (s, i)) (subscriberInfos m)"
    using infos_keys [OF ok] assms(1) by (simp del: not_None_eq)
  from keys_tabPut_present [OF this] show "muxOK L (setInfo s i m)"
    using ok assms(2) set_tabPut_subset [of fst "(s, i)" "subscriberInfos m"]
    by (auto simp: muxOK_def setInfo_def keysOf_def registrationsOK_def tabInv_tabPut)
qed (simp add: setInfo_def steady_def calls_only_def)

lemma good_Ensure:
  assumes "s \<in> keysOf m"
  shows "good L m (EnsureSubscriberInBatchGroup s m)"
proof (cases "callbackBatchCounter m > 0 \<and> s \<notin> set (needsCallbackBatchEndsCall m)")
  case True
  have put: "tabPut id s (needsCallbackBatchEndsCall m) = needsCallbackBatchEndsCall m @ [s]"
    using True by (intro tabPut_fresh) simp
  show ?thesis
    using True assms
    by (intro goodI)
      (auto simp: EnsureSubscriberInBatchGroup_def sub_BeginCallbackBatch_def mux_BeginCommandBatch_def Let_def emit_def put
        muxOK_def keysOf_def registrationsOK_def steady_def calls_only_def)
next
  case False
  then show ?thesis
    by (auto simp: EnsureSubscriberInBatchGroup_def)
qed

lemma infoOf_Ensure [simp]: "infoOf s (EnsureSubscriberInBatchGroup s' m) = infoOf s m"
  by (simp add: EnsureSubscriberInBatchGroup_def sub_BeginCallbackBatch_def mux_BeginCommandBatch_def Let_def emit_def infoOf_def)

lemma Ensure_keeps [simp]:
  "subscriberInfos (EnsureSubscriberInBatchGroup s m) = subscriberInfos m"
  "subscribedStrings (EnsureSubscriberInBatchGroup s m) = subscribedStrings m"
  "requestedSubtrees (EnsureSubscriberInBatchGroup s m) = requestedSubtrees m"
  "allowedCallbacks (EnsureSubscriberInBatchGroup s m) = allowedCallbacks m"
  "registeredSubscribers (EnsureSubscriberInBatchGroup s m) = registeredSubscribers m"
  by (simp_all add: EnsureSubscriberInBatchGroup_def sub_BeginCallbackBatch_def mux_BeginCommandBatch_def Let_def emit_def)

lemma entries_kept: "muxOK L m \<Longrightarrow> infoOf s m = Some info \<Longrightarrow> pm_GetEntries L (tsi_matcher info) \<noteq> []"
  using infoOf_Some [of s m info] by (auto simp: muxOK_def)

lemma keysOf_keeps [simp]:
  "keysOf (setInfo s i m) = keysOf m" "keysOf (EnsureSubscriberInBatchGroup s m) = keysOf m" "keysOf (emit e m) = keysOf m"
  by (simp_all add: keysOf_def setInfo_def emit_def)

lemma good_callback: "s \<in> keysOf m \<Longrightarrow> good L m (emit (ToSubscriber s cb) m)"
  by (rule good_emit) simp

lemma good_UpdateSubscriber:
  "good L m (UpdateSubscriber s path msgRef tag m)"
proof (cases "muxOK L m")
  case True
  show ?thesis
  proof (cases "infoOf s m")
    case (Some info)
    have s: "s \<in> keysOf m" and e: "pm_GetEntries L (tsi_matcher info) \<noteq> []"
      using infoOf_registered [OF True] entries_kept [OF True Some] Some by auto
    have set: "good L m' (setInfo s (Some (info\<lparr> tsi_receivedPaths := r \<rparr>)) m')" if "s \<in> keysOf m'" for m' r
      using that e by (intro good_setInfo) auto
    have "good L m (emit (ToSubscriber s cb) (setInfo s (Some (info\<lparr> tsi_receivedPaths := r \<rparr>)) (EnsureSubscriberInBatchGroup s m)))" for cb r
      using s by (intro good_trans [OF good_Ensure good_trans [OF set good_callback]]) simp_all
    moreover have "good L m (emit (ToSubscriber s cb) (EnsureSubscriberInBatchGroup s (setInfo s (Some (info\<lparr> tsi_receivedPaths := r \<rparr>)) m)))" for cb r
      using s by (intro good_trans [OF set good_trans [OF good_Ensure good_callback]]) simp_all
    ultimately show ?thesis
      using Some by (simp add: UpdateSubscriber_def Let_def)
  qed (simp add: UpdateSubscriber_def)
qed (simp add: good_def)

lemma good_TreeNodeUpdatedAux: "good L m (TreeNodeUpdatedAux L path msgRef tag dont m)"
  unfolding TreeNodeUpdatedAux_def by (rule good_fold) (simp add: good_UpdateSubscriber)

lemma good_TreeNodeUpdated: "good L m (mux_TreeNodeUpdated L path msgRef tag m)"
  by (simp add: mux_TreeNodeUpdated_def good_TreeNodeUpdatedAux split: prod.split)

lemma DoesPathMatch_registered: "muxOK L m \<Longrightarrow> DoesPathMatch L s (infoOf s m) path msg m \<Longrightarrow> s \<in> keysOf m"
  using infoOf_registered [of L m s] by (cases "infoOf s m") (simp_all add: DoesPathMatch_def)

lemma good_DoIndexNotifications: "good L m (DoIndexNotifications L path cb m)"
  unfolding DoIndexNotifications_def
proof (rule good_fold)
  fix s m'
  assume ok: "muxOK L m'"
  show "good L m' (if DoesPathMatch L s (infoOf s m') path None m' then emit (ToSubscriber s cb) (EnsureSubscriberInBatchGroup s m') else m')"
  proof (cases "DoesPathMatch L s (infoOf s m') path None m'")
    case True
    then have "s \<in> keysOf m'"
      using DoesPathMatch_registered [OF ok] by blast
    then show ?thesis
      using True by (simp add: good_trans [OF good_Ensure good_callback])
  qed simp
qed


lemma ParseRegistrationID_registered:
  "registrationsOK m \<Longrightarrow> ParseRegistrationID c t m = Some s \<Longrightarrow> s \<in> keysOf m"
proof -
  assume ok: "registrationsOK m" and p: "ParseRegistrationID c t m = Some s"
  then obtain r e where e: "tabGet fst r (registrationIDs m) = Some e" "snd e = s"
    by (auto simp: ParseRegistrationID_def split: if_splits)
  then have "tabGet fst r (registrationIDs m) = Some (r, s)"
    using tabGet_fst_Some [OF e(1)] by (cases e) simp
  then have "tabGet fst s (registeredSubscribers m) = Some (s, r)"
    using ok by (simp add: registrationsOK_def)
  then have "(s, r) \<in> set (registeredSubscribers m)"
    by (auto dest: tabGet_SomeD)
  then show ?thesis
    by (force simp: keysOf_def)
qed

lemma ParsePrefix_registered:
  "registrationsOK m \<Longrightarrow> ParseRegistrationIDPrefix c t m = (Some s, suffix) \<Longrightarrow> s \<in> keysOf m"
  by (auto simp: ParseRegistrationIDPrefix_def intro: ParseRegistrationID_registered split: option.splits)

lemma muxOK_registrations: "muxOK L m \<Longrightarrow> registrationsOK m"
  by (simp add: muxOK_def)

lemma goodD: "muxOK L m \<Longrightarrow> good L m m' \<Longrightarrow> muxOK L m' \<and> steady m m'"
  by (simp add: good_def)

lemma good_toRequester: "good L m (toRequester tag cb m)"
proof (cases "muxOK L m")
  case True
  show ?thesis
    using ParsePrefix_registered [OF muxOK_registrations [OF True], of "CHR ''_''" tag]
    by (auto simp: toRequester_def intro!: good_callback split: prod.split option.split)
qed (simp add: good_def)

lemma good_foldcalls:
  assumes "\<And>x s cb. x \<in> set xs \<Longrightarrow> ev x = Some (s, cb) \<Longrightarrow> s \<in> keysOf m"
  shows "good L m (fold (\<lambda>x m'. case ev x of None \<Rightarrow> m' | Some (s, cb) \<Rightarrow> emit (ToSubscriber s cb) m') xs m)"
  by (rule good_fold) (auto simp: steady_keys intro!: good_callback dest: assms split: option.split)

end
