(* ===== verification/ZG_MuxReach.thy ===== *)
theory ZG_MuxReach
  imports ZG_MuxProperties
begin

text \<open>
  Every step a \<^verbatim>\<open>MuxTreeGateway\<close> can make keeps it well-formed and calls back nobody
  but the subscribers that were registered before the step.
\<close>

definition sound :: "('m, 'f, 'p) tree_lib \<Rightarrow> ('m, 'f, 'p) mux \<Rightarrow> ('m, 'f, 'p) mux \<Rightarrow> bool" where
  "sound L m m' \<longleftrightarrow> (muxOK L m \<longrightarrow> muxOK L m' \<and> calls_only (keysOf m) m m')"

lemma soundI: "(muxOK L m \<Longrightarrow> muxOK L m') \<Longrightarrow> (muxOK L m \<Longrightarrow> calls_only (keysOf m) m m') \<Longrightarrow> sound L m m'"
  by (simp add: sound_def)

lemma good_sound: "good L m m' \<Longrightarrow> sound L m m'"
  by (auto simp: good_def sound_def steady_def)

lemma calls_only_mono: "calls_only S m m' \<Longrightarrow> S \<subseteq> T \<Longrightarrow> calls_only T m m'"
  by (auto simp: calls_only_def)

lemma sound_trans: "sound L m m' \<Longrightarrow> sound L m' m'' \<Longrightarrow> (muxOK L m \<Longrightarrow> keysOf m' \<subseteq> keysOf m) \<Longrightarrow> sound L m m''"
  unfolding sound_def by (meson calls_only_mono calls_only_trans)

section \<open>Batches from above\<close>

lemma sub_EndCallbackBatch_last:
  "subscriberBatch m s = 1 \<Longrightarrow> sub_EndCallbackBatch s m =
     m\<lparr> subscriberBatch := (subscriberBatch m)(s := 0), commandBatchCounter := commandBatchCounter m - 1,
        mux_log := mux_log m @ ToSubscriber s CallbackBatchEnds # (if commandBatchCounter m = 1 then [UpEndCommandBatch] else []) \<rparr>"
  by (simp add: sub_EndCallbackBatch_def mux_EndCommandBatch_def Let_def emit_def)

lemma fold_sub_EndCallbackBatch:
  "distinct xs \<Longrightarrow> (\<forall>s. subscriberBatch m s = (if s \<in> set xs then 1 else 0)) \<Longrightarrow> commandBatchCounter m = length xs \<Longrightarrow>
   \<exists>es. fold sub_EndCallbackBatch xs m =
      m\<lparr> subscriberBatch := (\<lambda>_. 0), commandBatchCounter := 0, mux_log := mux_log m @ es \<rparr> \<and>
     (\<forall>s cb. ToSubscriber s cb \<in> set es \<longrightarrow> s \<in> set xs)"
proof (induction xs arbitrary: m)
  case Nil
  have "m = m\<lparr> subscriberBatch := (\<lambda>_. 0), commandBatchCounter := 0, mux_log := mux_log m @ [] \<rparr>"
    using Nil by (intro mux.equality) (auto simp: fun_eq_iff)
  then show ?case
    by (intro exI [of _ "[]"]) simp
next
  case (Cons x xs)
  let ?m = "sub_EndCallbackBatch x m"
  have m': "?m = m\<lparr> subscriberBatch := (subscriberBatch m)(x := 0), commandBatchCounter := commandBatchCounter m - 1,
        mux_log := mux_log m @ ToSubscriber x CallbackBatchEnds # (if commandBatchCounter m = 1 then [UpEndCommandBatch] else []) \<rparr>"
    using Cons.prems by (intro sub_EndCallbackBatch_last) simp
  have "\<exists>es. fold sub_EndCallbackBatch xs ?m =
      ?m\<lparr> subscriberBatch := (\<lambda>_. 0), commandBatchCounter := 0, mux_log := mux_log ?m @ es \<rparr> \<and>
     (\<forall>s cb. ToSubscriber s cb \<in> set es \<longrightarrow> s \<in> set xs)"
    using Cons.prems by (intro Cons.IH) (auto simp: m')
  then obtain es where es: "fold sub_EndCallbackBatch xs ?m =
      ?m\<lparr> subscriberBatch := (\<lambda>_. 0), commandBatchCounter := 0, mux_log := mux_log ?m @ es \<rparr>"
    "\<forall>s cb. ToSubscriber s cb \<in> set es \<longrightarrow> s \<in> set xs"
    by blast
  show ?case
    by (rule exI [of _ "ToSubscriber x CallbackBatchEnds # (if commandBatchCounter m = 1 then [UpEndCommandBatch] else []) @ es"])
      (use es in \<open>simp add: m'\<close>)
qed

lemma CallbackBatchEnds_result:
  assumes "muxOK L m"
  obtains es where "mux_CallbackBatchEnds m =
      m\<lparr> subscriberBatch := (\<lambda>_. 0), commandBatchCounter := 0, needsCallbackBatchEndsCall := [], mux_log := mux_log m @ es \<rparr>"
    "\<forall>s cb. ToSubscriber s cb \<in> set es \<longrightarrow> s \<in> keysOf m"
proof -
  have "distinct (needsCallbackBatchEndsCall m)" "set (needsCallbackBatchEndsCall m) \<subseteq> keysOf m"
    "\<forall>s. subscriberBatch m s = (if s \<in> set (needsCallbackBatchEndsCall m) then 1 else 0)"
    "commandBatchCounter m = length (needsCallbackBatchEndsCall m)"
    using assms by (auto simp: muxOK_def)
  with fold_sub_EndCallbackBatch [of "needsCallbackBatchEndsCall m" m] obtain es where
    "fold sub_EndCallbackBatch (needsCallbackBatchEndsCall m) m =
      m\<lparr> subscriberBatch := (\<lambda>_. 0), commandBatchCounter := 0, mux_log := mux_log m @ es \<rparr>"
    "\<forall>s cb. ToSubscriber s cb \<in> set es \<longrightarrow> s \<in> keysOf m"
    by blast
  then show thesis
    by (intro that [of es]) (simp_all add: mux_CallbackBatchEnds_def)
qed

lemma sound_BeginCallbackBatch: "sound L m (mux_BeginCallbackBatch m)"
  by (auto simp: sound_def mux_BeginCallbackBatch_def Let_def emit_def muxOK_def keysOf_def registrationsOK_def calls_only_def)

lemma sound_EndCallbackBatch: "sound L m (mux_EndCallbackBatch m)"
proof (cases "muxOK L m")
  case ok: True
  obtain es where es: "mux_CallbackBatchEnds m =
      m\<lparr> subscriberBatch := (\<lambda>_. 0), commandBatchCounter := 0, needsCallbackBatchEndsCall := [], mux_log := mux_log m @ es \<rparr>"
    "\<forall>s cb. ToSubscriber s cb \<in> set es \<longrightarrow> s \<in> keysOf m"
    using ok by (rule CallbackBatchEnds_result)
  show ?thesis
  proof (cases "callbackBatchCounter m = 1")
    case True
    then show ?thesis
      using ok es
      by (simp add: sound_def mux_EndCallbackBatch_def emit_def muxOK_def keysOf_def registrationsOK_def calls_only_def)
  next
    case False
    then have "callbackBatchCounter m - 1 = 0 \<longrightarrow> callbackBatchCounter m = 0"
      by simp
    then show ?thesis
      using False ok
      by (simp add: sound_def mux_EndCallbackBatch_def muxOK_def keysOf_def registrationsOK_def calls_only_def)
  qed
qed (simp add: sound_def)

section \<open>Callbacks\<close>

lemma keys_fold_tabPut: "key ` set (fold (\<lambda>t. tabPut key (f t)) ts es) = (\<lambda>t. key (f t)) ` set ts \<union> key ` set es"
  by (induction ts arbitrary: es) (auto simp: keys_tabPut)

lemma tabInv_fold_tabPut: "tabInv key es \<Longrightarrow> tabInv key (fold (\<lambda>t. tabPut key (f t)) ts es)"
  by (induction ts arbitrary: es) (auto simp: tabInv_tabPut)

lemmas set_fold_tabPut = keys_fold_tabPut [where key = "\<lambda>x. x", simplified]
lemmas distinct_fold_tabPut = tabInv_fold_tabPut [where key = "\<lambda>x. x", unfolded tabInv_def, simplified]

lemma good_allowed:
  assumes "distinct a" "muxOK L m \<Longrightarrow> set a \<subseteq> insert (dummySubscriber m) (keysOf m)"
  shows "good L m (m\<lparr> allowedCallbacks := a \<rparr>)"
  using assms by (intro goodI) (auto simp: muxOK_def keysOf_def registrationsOK_def steady_def calls_only_def)

lemma good_TreeLocalPeerPonged: "good L m (mux_TreeLocalPeerPonged L tag m)"
proof -
  let ?f = "\<lambda>t. case ParseRegistrationID (CHR ''_'') t m of Some s \<Rightarrow> s | None \<Rightarrow> dummySubscriber m"
  have "good L m (m\<lparr> allowedCallbacks := fold (\<lambda>t. tabPut (\<lambda>x. x) (?f t)) (tok_commas L (drop 5 tag)) [] \<rparr>)"
    by (rule good_allowed)
      (auto simp: distinct_fold_tabPut set_fold_tabPut split: option.splits
        dest!: muxOK_registrations intro: ParseRegistrationID_registered)
  then show ?thesis
    by (simp add: mux_TreeLocalPeerPonged_def good_toRequester id_def)
qed

lemma good_fold_emit:
  assumes "\<And>x. x \<in> set xs \<Longrightarrow> use x \<Longrightarrow> to x \<in> keysOf m"
  shows "good L m (fold (\<lambda>x m'. if use x then emit (ToSubscriber (to x) (cb x)) m' else m') xs m)"
  by (rule good_fold) (auto simp: steady_keys intro!: good_callback assms)

lemma good_MessageReceivedFromSubscriber: "good L m (mux_MessageReceivedFromSubscriber L path payload ret m)"
proof (cases "muxOK L m")
  case True
  let ?hit = "\<lambda>sub. case infoOf sub m of
                 None \<Rightarrow> None
               | Some info \<Rightarrow> List.find (\<lambda>(p, n). n = numSegments path \<and> ssm_Match L path p) (tsi_receivedPaths info)"
  have *: "fold (\<lambda>sub m'. case ?hit sub of None \<Rightarrow> m' | Some (p, _) \<Rightarrow> emit (ToSubscriber sub (MessageReceivedFromSubscriber p payload ret)) m') xs m0 =
      fold (\<lambda>sub m'. if ?hit sub \<noteq> None then emit (ToSubscriber sub (MessageReceivedFromSubscriber (fst (the (?hit sub))) payload ret)) m' else m') xs m0" for xs and m0 :: "('a, 'b, 'c) mux"
    by (rule fold_cong) (auto split: option.split)
  have "good L m (fold (\<lambda>sub m'. if ?hit sub \<noteq> None then emit (ToSubscriber sub (MessageReceivedFromSubscriber (fst (the (?hit sub))) payload ret)) m' else m')
      (map fst (subscriberInfos m)) m)"
    using True by (intro good_fold_emit) (simp add: muxOK_def del: not_None_eq)
  then show ?thesis
    unfolding mux_MessageReceivedFromSubscriber_def Let_def * by (simp add: good_toRequester del: not_None_eq)
qed (simp add: good_def)

lemma muxOK_requests:
  assumes "muxOK L m"
  shows "tabInv fst (requestedSubtrees m)" "fst ` set (requestedSubtrees m) \<subseteq> keysOf m"
    "\<forall>(s, q) \<in> set (requestedSubtrees m). q \<noteq> []" "requestedSubtrees m \<noteq> [] \<longrightarrow> mux_isConnected m"
  using assms unfolding muxOK_def by blast+

lemma good_requestedSubtrees:
  assumes "muxOK L m \<Longrightarrow> tabInv fst r \<and> fst ` set r \<subseteq> keysOf m \<and> (\<forall>(s, q) \<in> set r. q \<noteq> []) \<and> (r \<noteq> [] \<longrightarrow> mux_isConnected m)"
  shows "good L m (m\<lparr> requestedSubtrees := r \<rparr>)"
proof (rule goodI)
  assume ok: "muxOK L m"
  show "muxOK L (m\<lparr> requestedSubtrees := r \<rparr>)"
    using ok assms [OF ok] unfolding muxOK_def keysOf_def registrationsOK_def by simp
qed (simp add: steady_def calls_only_def)

lemma good_setRequests:
  assumes "s \<in> keysOf m" "q \<noteq> [] \<longrightarrow> mux_isConnected m"
  shows "good L m (setRequests s q m)"
proof (cases "q = []")
  case True
  have "good L m (m\<lparr> requestedSubtrees := tabRemove fst s (requestedSubtrees m) \<rparr>)"
  proof (rule good_requestedSubtrees)
    assume "muxOK L m"
    note r = muxOK_requests [OF this]
    have "tabRemove fst s (requestedSubtrees m) \<noteq> [] \<Longrightarrow> requestedSubtrees m \<noteq> []"
      by (cases "requestedSubtrees m") (simp_all add: tabRemove_def)
    moreover have "set (tabRemove fst s (requestedSubtrees m)) \<subseteq> set (requestedSubtrees m)"
      unfolding set_tabRemove by blast
    ultimately show "tabInv fst (tabRemove fst s (requestedSubtrees m)) \<and> fst ` set (tabRemove fst s (requestedSubtrees m)) \<subseteq> keysOf m \<and>
      (\<forall>(s, q) \<in> set (tabRemove fst s (requestedSubtrees m)). q \<noteq> []) \<and>
      (tabRemove fst s (requestedSubtrees m) \<noteq> [] \<longrightarrow> mux_isConnected m)"
      using tabInv_tabRemove [OF r(1)] r(2-4) by blast
  qed
  then show ?thesis
    using True by (simp add: setRequests_def)
next
  case False
  have "good L m (m\<lparr> requestedSubtrees := tabPut fst (s, q) (requestedSubtrees m) \<rparr>)"
  proof (rule good_requestedSubtrees)
    assume "muxOK L m"
    note r = muxOK_requests [OF this]
    have "fst ` set (tabPut fst (s, q) (requestedSubtrees m)) \<subseteq> keysOf m"
      using r(2) assms(1) unfolding keys_tabPut by simp
    then show "tabInv fst (tabPut fst (s, q) (requestedSubtrees m)) \<and> fst ` set (tabPut fst (s, q) (requestedSubtrees m)) \<subseteq> keysOf m \<and>
      (\<forall>(s, q) \<in> set (tabPut fst (s, q) (requestedSubtrees m)). q \<noteq> []) \<and>
      (tabPut fst (s, q) (requestedSubtrees m) \<noteq> [] \<longrightarrow> mux_isConnected m)"
      using tabInv_tabPut [OF r(1), of "(s, q)"] r(3) False assms(2) set_tabPut_subset [of fst "(s, q)" "requestedSubtrees m"]
      by blast
  qed
  then show ?thesis
    using False by (simp add: setRequests_def)
qed

lemma requestsOf_registered: "muxOK L m \<Longrightarrow> requestsOf s m \<noteq> [] \<Longrightarrow> s \<in> keysOf m \<and> mux_isConnected m"
proof -
  assume ok: "muxOK L m" and q: "requestsOf s m \<noteq> []"
  then obtain e where e: "tabGet fst s (requestedSubtrees m) = Some e"
    by (auto simp: requestsOf_def split: option.splits)
  then have "e \<in> set (requestedSubtrees m)" "fst e = s"
    by (auto dest: tabGet_SomeD)
  then have "s \<in> fst ` set (requestedSubtrees m)" "requestedSubtrees m \<noteq> []"
    by auto
  then show ?thesis
    using ok by (auto simp: muxOK_def)
qed

text \<open>Callbacks do not look at the requests that are pending.\<close>

definition keepsRequests :: "(('m, 'f, 'p) mux \<Rightarrow> ('m, 'f, 'p) mux) \<Rightarrow> bool" where
  "keepsRequests F \<longleftrightarrow> (\<forall>m r. F (m\<lparr> requestedSubtrees := r \<rparr>) = (F m)\<lparr> requestedSubtrees := r \<rparr> \<and> requestedSubtrees (F m) = requestedSubtrees m)"

lemma keepsRequests_comp: "keepsRequests F \<Longrightarrow> keepsRequests G \<Longrightarrow> keepsRequests (\<lambda>m. G (F m))"
  by (simp add: keepsRequests_def)

lemma keepsRequests_emit: "keepsRequests (emit e)"
  by (simp add: keepsRequests_def emit_def)

lemma keepsRequests_Ensure: "keepsRequests (EnsureSubscriberInBatchGroup s)"
  by (simp add: keepsRequests_def EnsureSubscriberInBatchGroup_def sub_BeginCallbackBatch_def mux_BeginCommandBatch_def Let_def emit_def)

lemma keepsRequests_fold: "(\<And>x. x \<in> set xs \<Longrightarrow> keepsRequests (f x)) \<Longrightarrow> keepsRequests (fold f xs)"
  by (induction xs) (simp_all add: keepsRequests_def)

lemma setRequests_again:
  assumes "keepsRequests F"
  shows "setRequests s q (F (m\<lparr> requestedSubtrees := tabPut fst (s, q) (requestedSubtrees m) \<rparr>)) = setRequests s q (F m)"
proof -
  have rem: "tabRemove fst s (tabPut fst (s, q) es) = tabRemove fst s es" for es :: "(subscriber \<times> string list) list"
    by (induction es) (auto simp: tabRemove_def)
  have F: "F (m\<lparr> requestedSubtrees := r \<rparr>) = (F m)\<lparr> requestedSubtrees := r \<rparr>" "requestedSubtrees (F m) = requestedSubtrees m" for r
    using assms by (simp_all add: keepsRequests_def)
  show ?thesis
    by (cases "q = []") (use rem in \<open>simp_all add: F setRequests_def tabPut_tabPut\<close>)
qed

definition deliverResult :: "('m, 'f, 'p) tree_lib \<Rightarrow> subscriber \<Rightarrow> string \<Rightarrow> bool \<Rightarrow> 'm option \<Rightarrow> ('m, 'f, 'p) mux \<Rightarrow> ('m, 'f, 'p) mux" where
  "deliverResult L s suffix isValues subtreeData m =
     (if isValues then
        (case subtreeData of
           None \<Rightarrow> m
         | Some d \<Rightarrow> fold (\<lambda>(path, payload). emit (ToSubscriber s (TreeNodeUpdated path (Some payload) suffix)))
             (msg_nodeValues L d) (EnsureSubscriberInBatchGroup s m))
      else emit (ToSubscriber s (SubtreesRequestResultReturned suffix subtreeData)) m)"

lemma deliverResult_cases:
  "deliverResult L s suffix isValues d =
     (if isValues then (case d of None \<Rightarrow> (\<lambda>m. m)
        | Some d' \<Rightarrow> (\<lambda>m. fold (\<lambda>(path, payload). emit (ToSubscriber s (TreeNodeUpdated path (Some payload) suffix)))
             (msg_nodeValues L d') (EnsureSubscriberInBatchGroup s m)))
      else emit (ToSubscriber s (SubtreesRequestResultReturned suffix d)))"
  by (rule ext) (simp add: deliverResult_def split: option.split)

lemma keepsRequests_deliver:
  fixes L :: "('m, 'f, 'p) tree_lib"
  shows "keepsRequests (deliverResult L s suffix isValues subtreeData)"
proof -
  have "keepsRequests (fold (\<lambda>(path, payload). emit (ToSubscriber s (TreeNodeUpdated path (Some payload) suffix))) xs :: ('m, 'f, 'p) mux \<Rightarrow> _)"
    for xs :: "(string \<times> 'm) list"
    by (rule keepsRequests_fold) (simp add: keepsRequests_emit case_prod_unfold)
  note comp = keepsRequests_comp [OF keepsRequests_Ensure this]
  have id: "keepsRequests (\<lambda>m :: ('m, 'f, 'p) mux. m)"
    by (simp add: keepsRequests_def)
  show ?thesis
    unfolding deliverResult_cases by (cases subtreeData) (simp_all add: keepsRequests_emit comp id)
qed

lemma good_deliver:
  fixes m :: "('m, 'f, 'p) mux"
  assumes s: "s \<in> keysOf m"
  shows "good L m (deliverResult L s suffix isValues subtreeData m)"
proof -
  have "good L m (fold (\<lambda>x. emit (ToSubscriber s (TreeNodeUpdated (fst x) (Some (snd x)) suffix))) xs
      (EnsureSubscriberInBatchGroup s m))" for xs :: "(string \<times> 'm) list"
  proof (rule good_trans [OF good_Ensure [OF s] good_fold])
    fix x :: "string \<times> 'm" and m' :: "('m, 'f, 'p) mux"
    assume "steady (EnsureSubscriberInBatchGroup s m) m'"
    from steady_keys [OF this] have "s \<in> keysOf m'"
      using s by simp
    then show "good L m' (emit (ToSubscriber s (TreeNodeUpdated (fst x) (Some (snd x)) suffix)) m')"
      by (rule good_callback)
  qed
  then show ?thesis
    using good_callback [OF s] by (cases subtreeData) (simp_all add: deliverResult_def case_prod_unfold)
qed

lemma SubtreesRequestResult_cases:
  "\<exists>s suffix isValues q. mux_SubtreesRequestResultReturned L tag d m = m \<or>
     suffix \<in> set (requestsOf s m) \<and> q = remove1 suffix (requestsOf s m) \<and>
     mux_SubtreesRequestResultReturned L tag d m = setRequests s q (deliverResult L s suffix isValues d m)"
proof -
  obtain s1 suffix where p: "ParseRegistrationIDPrefix (CHR ''_'') tag m = (s1, suffix)"
    by (cases "ParseRegistrationIDPrefix (CHR ''_'') tag m") simp
  define isValues where "isValues \<longleftrightarrow> \<not> (case s1 of None \<Rightarrow> False | Some sub \<Rightarrow> tabHas fst sub (requestedSubtrees m))"
  define sub where "sub = (if isValues then fst (ParseRegistrationIDPrefix (CHR ''='') tag m) else s1)"
  have *: "mux_SubtreesRequestResultReturned L tag d m =
      (case sub of None \<Rightarrow> m | Some s \<Rightarrow> if suffix \<notin> set (requestsOf s m) then m else
         let q = remove1 suffix (requestsOf s m) in setRequests s q
           (deliverResult L s suffix isValues d (m\<lparr> requestedSubtrees := tabPut fst (s, q) (requestedSubtrees m) \<rparr>)))"
    unfolding mux_SubtreesRequestResultReturned_def deliverResult_def p Let_def sub_def isValues_def
    by (simp split: option.splits add: case_prod_unfold)
  show ?thesis
    unfolding * Let_def setRequests_again [OF keepsRequests_deliver] by (cases sub) auto
qed

lemma good_SubtreesRequestResultReturned: "good L m (mux_SubtreesRequestResultReturned L tag d m)"
proof (cases "muxOK L m")
  case True
  obtain s suffix isValues q where "mux_SubtreesRequestResultReturned L tag d m = m \<or>
     suffix \<in> set (requestsOf s m) \<and> q = remove1 suffix (requestsOf s m) \<and>
     mux_SubtreesRequestResultReturned L tag d m = setRequests s q (deliverResult L s suffix isValues d m)"
    using SubtreesRequestResult_cases [of L tag d m] by blast
  then show ?thesis
  proof
    assume r: "suffix \<in> set (requestsOf s m) \<and> q = remove1 suffix (requestsOf s m) \<and>
     mux_SubtreesRequestResultReturned L tag d m = setRequests s q (deliverResult L s suffix isValues d m)"
    then have "requestsOf s m \<noteq> []"
      by auto
    then have s: "s \<in> keysOf m" "mux_isConnected m"
      using requestsOf_registered [OF True] by blast+
    have d: "good L m (deliverResult L s suffix isValues d m)"
      using s by (intro good_deliver)
    then have "steady m (deliverResult L s suffix isValues d m)"
      using goodD [OF True] by blast
    then have "good L (deliverResult L s suffix isValues d m) (setRequests s q (deliverResult L s suffix isValues d m))"
      using s steady_keys by (intro good_setRequests) (simp_all add: steady_def keysOf_def)
    then have "good L m (setRequests s q (deliverResult L s suffix isValues d m))"
      by (rule good_trans [OF d])
    then show ?thesis
      using r by simp
  qed simp
qed (simp add: good_def)

end
