(* ===== verification/ZG_MuxSubscriptions.thy ===== *)
theory ZG_MuxSubscriptions
  imports ZG_MuxReach
begin

text \<open>
  Subscribing, unsubscribing and leaving keep a \<^verbatim>\<open>MuxTreeGateway\<close> well-formed.  In the
  middle of these operations a queue or a matcher may be empty for a moment: \<open>infosOK\<close> and
  \<open>subsOK\<close> name the exceptions.
\<close>

definition infosOK :: "('m, 'f, 'p) tree_lib \<Rightarrow> subscriber set \<Rightarrow> ('m, 'f, 'p) mux \<Rightarrow> bool" where
  "infosOK L X m \<longleftrightarrow> tabInv fst (subscriberInfos m) \<and> fst ` set (subscriberInfos m) = keysOf m \<and>
     (\<forall>s info. infoOf s m = Some info \<longrightarrow> s \<in> X \<or> pm_GetEntries L (tsi_matcher info) \<noteq> [])"

definition subsOK :: "string set \<Rightarrow> ('m, 'f, 'p) mux \<Rightarrow> bool" where
  "subsOK X m \<longleftrightarrow> tabInv fst (subscribedStrings m) \<and> (\<forall>(path, q) \<in> set (subscribedStrings m). path \<in> X \<or> q \<noteq> [])"

definition restOK :: "('m, 'f, 'p) mux \<Rightarrow> bool" where
  "restOK m \<longleftrightarrow> registrationsOK m \<and> dummySubscriber m \<notin> keysOf m \<and>
     tabInv fst (requestedSubtrees m) \<and> fst ` set (requestedSubtrees m) \<subseteq> keysOf m \<and>
     (\<forall>(s, q) \<in> set (requestedSubtrees m). q \<noteq> []) \<and> (requestedSubtrees m \<noteq> [] \<longrightarrow> mux_isConnected m) \<and>
     distinct (allowedCallbacks m) \<and> set (allowedCallbacks m) \<subseteq> insert (dummySubscriber m) (keysOf m)"

definition batchesOK :: "('m, 'f, 'p) mux \<Rightarrow> bool" where
  "batchesOK m \<longleftrightarrow> distinct (needsCallbackBatchEndsCall m) \<and> set (needsCallbackBatchEndsCall m) \<subseteq> keysOf m \<and>
     (\<forall>s. subscriberBatch m s = (if s \<in> set (needsCallbackBatchEndsCall m) then 1 else 0)) \<and>
     commandBatchCounter m = length (needsCallbackBatchEndsCall m) \<and>
     (callbackBatchCounter m = 0 \<longrightarrow> needsCallbackBatchEndsCall m = [])"

lemma infos_Some:
  assumes "tabInv fst (subscriberInfos m)"
  shows "infoOf s m = Some info \<longleftrightarrow> (s, Some info) \<in> set (subscriberInfos m)"
  using tabGet_fst_iff [OF assms, of s "Some info"] tabGet_fst_Some [of s "subscriberInfos m"]
  by (auto simp: infoOf_def split: option.splits)

lemma muxOK_split: "muxOK L m \<longleftrightarrow> restOK m \<and> infosOK L {} m \<and> subsOK {} m \<and> batchesOK m"
proof -
  have "tabInv fst (subscriberInfos m) \<Longrightarrow>
    (\<forall>s info. infoOf s m = Some info \<longrightarrow> s \<in> {} \<or> pm_GetEntries L (tsi_matcher info) \<noteq> []) \<longleftrightarrow>
    (\<forall>s info. (s, Some info) \<in> set (subscriberInfos m) \<longrightarrow> pm_GetEntries L (tsi_matcher info) \<noteq> [])"
    by (simp add: infos_Some)
  then show ?thesis
    unfolding muxOK_def restOK_def infosOK_def subsOK_def batchesOK_def by simp blast
qed

text \<open>What the operations on subscriptions leave alone.\<close>

definition subsOnly :: "subscriber set \<Rightarrow> ('m, 'f, 'p) mux \<Rightarrow> ('m, 'f, 'p) mux \<Rightarrow> bool" where
  "subsOnly S m m' \<longleftrightarrow> (\<exists>infos subs es. m' = m\<lparr> subscriberInfos := infos, subscribedStrings := subs, mux_log := mux_log m @ es \<rparr> \<and>
     (\<forall>s cb. ToSubscriber s cb \<in> set es \<longrightarrow> s \<in> S))"

lemma subsOnlyI:
  "m' = m\<lparr> subscriberInfos := infos, subscribedStrings := subs, mux_log := mux_log m @ es \<rparr> \<Longrightarrow>
   (\<And>s cb. ToSubscriber s cb \<in> set es \<Longrightarrow> s \<in> S) \<Longrightarrow> subsOnly S m m'"
  unfolding subsOnly_def by blast

lemma subsOnly_refl: "subsOnly S m m"
  by (rule subsOnlyI [where infos = "subscriberInfos m" and subs = "subscribedStrings m" and es = "[]"]) simp_all

lemma subsOnly_trans: "subsOnly S m m' \<Longrightarrow> subsOnly S m' m'' \<Longrightarrow> subsOnly S m m''"
proof -
  assume "subsOnly S m m'" "subsOnly S m' m''"
  then obtain i u es i' u' es' where
    "m' = m\<lparr> subscriberInfos := i, subscribedStrings := u, mux_log := mux_log m @ es \<rparr>"
    "m'' = m'\<lparr> subscriberInfos := i', subscribedStrings := u', mux_log := mux_log m' @ es' \<rparr>"
    "\<forall>s cb. ToSubscriber s cb \<in> set (es @ es') \<longrightarrow> s \<in> S"
    unfolding subsOnly_def set_append by blast
  then show ?thesis
    by (intro subsOnlyI [where infos = i' and subs = u' and es = "es @ es'"]) (simp, blast)
qed

lemma subsOnly_fields:
  assumes "subsOnly S m m'"
  shows "keysOf m' = keysOf m" "restOK m' = restOK m" "batchesOK m' = batchesOK m" "mux_isConnected m' = mux_isConnected m"
    "commandBatchCounter m' = commandBatchCounter m" "calls_only S m m'"
proof -
  obtain i u es where m': "m' = m\<lparr> subscriberInfos := i, subscribedStrings := u, mux_log := mux_log m @ es \<rparr>"
    and es: "\<forall>s cb. ToSubscriber s cb \<in> set es \<longrightarrow> s \<in> S"
    using assms unfolding subsOnly_def by blast
  show "keysOf m' = keysOf m" "restOK m' = restOK m" "batchesOK m' = batchesOK m" "mux_isConnected m' = mux_isConnected m"
    "commandBatchCounter m' = commandBatchCounter m"
    unfolding m' by (simp_all add: keysOf_def restOK_def batchesOK_def registrationsOK_def)
  show "calls_only S m m'"
    using es unfolding m' calls_only_def by simp
qed

lemma subsOnly_setInfo: "subsOnly S m (setInfo s i m)"
  by (rule subsOnlyI [where infos = "tabPut fst (s, i) (subscriberInfos m)" and subs = "subscribedStrings m" and es = "[]"]) (simp_all add: setInfo_def)

lemma subsOnly_setSubscriptions: "subsOnly S m (setSubscriptions p q m)"
  by (rule subsOnlyI [where infos = "subscriberInfos m" and subs = "tabPut fst (p, q) (subscribedStrings m)" and es = "[]"]) (simp_all add: setSubscriptions_def)

lemma subsOnly_emit: "s \<in> S \<Longrightarrow> subsOnly S m (emit (ToSubscriber s cb) m)"
  by (rule subsOnlyI [where infos = "subscriberInfos m" and subs = "subscribedStrings m" and es = "[ToSubscriber s cb]"]) (simp_all add: emit_def)

lemma subsOnly_upcalls: "upcalls m m' \<Longrightarrow> subsOnly S m m'"
proof -
  assume "upcalls m m'"
  then obtain es where "m' = m\<lparr> mux_log := mux_log m @ es \<rparr>" "\<forall>e \<in> set es. \<exists>c st. e = UpCall c st"
    unfolding upcalls_def by blast
  then show ?thesis
    by (intro subsOnlyI [where infos = "subscriberInfos m" and subs = "subscribedStrings m" and es = es]) (simp, blast)
qed

lemma subsOnly_dropIfEmpty: "subsOnly S m (dropIfEmpty p m)"
  using subsOnly_refl [of S m]
    subsOnlyI [where m = m and infos = "subscriberInfos m" and subs = "tabRemove fst p (subscribedStrings m)" and es = "[]", OF refl]
  by (simp add: dropIfEmpty_def)

lemma subsOnly_clearInfoIfEmpty: "subsOnly S m (clearInfoIfEmpty L s m)"
  by (simp add: clearInfoIfEmpty_def subsOnly_refl subsOnly_setInfo split: option.split)

section \<open>Matchers and queues\<close>

lemma infosOK_mono: "infosOK L X m \<Longrightarrow> X \<subseteq> Y \<Longrightarrow> infosOK L Y m"
  unfolding infosOK_def by blast

lemma infosOK_entries: "infosOK L X m \<Longrightarrow> infoOf s m = Some info \<Longrightarrow> s \<notin> X \<Longrightarrow> pm_GetEntries L (tsi_matcher info) \<noteq> []"
  unfolding infosOK_def by blast

lemma infosOK_has: "infosOK L X m \<Longrightarrow> tabHas fst s (subscriberInfos m) \<longleftrightarrow> s \<in> keysOf m"
  unfolding infosOK_def by (simp only: tabGet_eq_None not_not)

lemma infosOK_setInfo:
  assumes ok: "infosOK L X m" and s: "s \<in> keysOf m"
    and new: "s \<in> Y \<or> (\<forall>info. i = Some info \<longrightarrow> pm_GetEntries L (tsi_matcher info) \<noteq> [])" and sub: "X - {s} \<subseteq> Y"
  shows "infosOK L Y (setInfo s i m)"
proof -
  have "fst ` set (tabPut fst (s, i) (subscriberInfos m)) = keysOf m"
    using keys_tabPut_present [of fst "(s, i)" "subscriberInfos m"] infosOK_has [OF ok, of s] s ok
    by (simp add: infosOK_def del: not_None_eq)
  moreover have "infoOf s' (setInfo s i m) = Some info \<longrightarrow> s' \<in> Y \<or> pm_GetEntries L (tsi_matcher info) \<noteq> []" for s' info
    using infosOK_entries [OF ok, of s' info] new sub by (auto simp: infoOf_setInfo)
  ultimately show ?thesis
    using ok by (simp add: infosOK_def tabInv_tabPut setInfo_def keysOf_def)
qed

lemma infosOK_same: "subscriberInfos m' = subscriberInfos m \<Longrightarrow> keysOf m' = keysOf m \<Longrightarrow> infosOK L X m' = infosOK L X m"
  by (simp add: infosOK_def infoOf_def)

lemma infosOK_clearInfoIfEmpty:
  assumes "infosOK L {s} m" "s \<in> keysOf m"
  shows "infosOK L {} (clearInfoIfEmpty L s m)"
proof (cases "infoOf s m = None \<or> pm_GetEntries L (tsi_matcher (the (infoOf s m))) \<noteq> []")
  case True
  then have "clearInfoIfEmpty L s m = m"
    by (auto simp: clearInfoIfEmpty_def split: option.split)
  moreover have "pm_GetEntries L (tsi_matcher info) \<noteq> []" if "infoOf s' m = Some info" for s' info
    using that True infosOK_entries [OF assms(1) that] by (cases "s' = s") auto
  then have "infosOK L {} m"
    using assms(1) unfolding infosOK_def by blast
  ultimately show ?thesis
    by simp
next
  case False
  then have "clearInfoIfEmpty L s m = setInfo s None m"
    by (auto simp: clearInfoIfEmpty_def split: option.split)
  then show ?thesis
    using infosOK_setInfo [OF assms, of "{}" None] by simp
qed

lemma subsOK_mono: "subsOK X m \<Longrightarrow> X \<subseteq> Y \<Longrightarrow> subsOK Y m"
  unfolding subsOK_def by blast

lemma subsOK_same: "subscribedStrings m' = subscribedStrings m \<Longrightarrow> subsOK X m' = subsOK X m"
  by (simp add: subsOK_def)

lemma subsOK_setSubscriptions:
  "subsOK X m \<Longrightarrow> X \<subseteq> Y \<Longrightarrow> path \<in> Y \<or> q \<noteq> [] \<Longrightarrow> subsOK Y (setSubscriptions path q m)"
  using set_tabPut_subset [of fst "(path, q)" "subscribedStrings m"]
  by (fastforce simp: subsOK_def setSubscriptions_def tabInv_tabPut)

lemma subsOK_dropIfEmpty:
  assumes ok: "subsOK {path} m"
  shows "subsOK {} (dropIfEmpty path m)"
proof (cases "subscriptionsTo path m = []")
  case True
  then show ?thesis
    using ok by (auto simp: subsOK_def dropIfEmpty_def tabInv_tabRemove set_tabRemove)
next
  case False
  have "q \<noteq> []" if "(p, q) \<in> set (subscribedStrings m)" for p q
  proof (cases "p = path")
    case True
    then show ?thesis
      using False ok that tabGet_fst_iff [of "subscribedStrings m" path q] by (simp add: subsOK_def subscriptionsTo_def)
  qed (use ok that in \<open>auto simp: subsOK_def\<close>)
  then show ?thesis
    using False ok by (auto simp: subsOK_def dropIfEmpty_def)
qed

lemma same_fields [simp]:
  "subscriberInfos (setSubscriptions p q m) = subscriberInfos m" "subscribedStrings (setInfo s i m) = subscribedStrings m"
  "keysOf (setSubscriptions p q m) = keysOf m"
  "subscriberInfos (dropIfEmpty p m) = subscriberInfos m" "keysOf (dropIfEmpty p m) = keysOf m"
  "subscriberInfos (emit e m) = subscriberInfos m" "subscribedStrings (emit e m) = subscribedStrings m"
  "subscribedStrings (clearInfoIfEmpty L s m) = subscribedStrings m" "keysOf (clearInfoIfEmpty L s m) = keysOf m"
  by (simp_all add: setSubscriptions_def setInfo_def keysOf_def dropIfEmpty_def emit_def clearInfoIfEmpty_def split: option.split)

lemma same_UpdateSubscription [simp]:
  "subscriberInfos (snd (UpdateSubscription U L p s f m)) = subscriberInfos m"
  "subscribedStrings (snd (UpdateSubscription U L p s f m)) = subscribedStrings m"
  "keysOf (snd (UpdateSubscription U L p s f m)) = keysOf m"
  using upcalls_UpdateSubscription [of m U L p s f] by (auto simp: upcalls_def keysOf_def)

text \<open>The tables of a gateway and the operations on subscriptions, in one relation.\<close>

definition subsStep :: "('m, 'f, 'p) tree_lib \<Rightarrow> subscriber \<Rightarrow> ('m, 'f, 'p) mux \<Rightarrow> ('m, 'f, 'p) mux \<Rightarrow> bool" where
  "subsStep L s m m' \<longleftrightarrow> subsOnly {s} m m' \<and> (infosOK L {} m \<longrightarrow> subsOK {} m \<longrightarrow> infosOK L {} m' \<and> subsOK {} m')"

lemma subsStep_refl: "subsStep L s m m"
  by (simp add: subsStep_def subsOnly_refl)

lemma subsStep_trans: "subsStep L s m m' \<Longrightarrow> subsStep L s m' m'' \<Longrightarrow> subsStep L s m m''"
  unfolding subsStep_def using subsOnly_trans by blast

lemma good_subsStep:
  assumes "subsStep L s m m'" "s \<in> keysOf m"
  shows "good L m m'"
proof -
  have o: "subsOnly {s} m m'" and keep: "infosOK L {} m \<Longrightarrow> subsOK {} m \<Longrightarrow> infosOK L {} m' \<and> subsOK {} m'"
    using assms(1) unfolding subsStep_def by blast+
  have "steady m m'"
  proof -
    have "calls_only (keysOf m) m m'"
      using subsOnly_fields(6) [OF o] calls_only_mono assms(2) by blast
    then show ?thesis
      using o unfolding subsOnly_def by (auto simp: steady_def)
  qed
  then show ?thesis
    using keep subsOnly_fields(2,3) [OF o] unfolding good_def muxOK_split by blast
qed

section \<open>Subscribing and unsubscribing\<close>

lemma subsStep_dropPath:
  assumes "s \<in> keysOf m"
  shows "subsStep L s m (dropPath L s ps m)"
proof (cases "infoOf s m")
  case (Some info)
  let ?pm = "pm_RemovePathString L ps (tsi_matcher info)"
  let ?m1 = "setInfo s (Some \<lparr> tsi_matcher = ?pm, tsi_receivedPaths = filter (\<lambda>(p, _). pm_MatchesPath L ?pm p None) (tsi_receivedPaths info) \<rparr>) m"
  have d: "dropPath L s ps m = clearInfoIfEmpty L s ?m1"
    using Some by (simp add: dropPath_def Let_def)
  have "subsOnly {s} m (clearInfoIfEmpty L s ?m1)"
    by (rule subsOnly_trans [OF subsOnly_setInfo subsOnly_clearInfoIfEmpty])
  moreover have "infosOK L {} m \<Longrightarrow> infosOK L {} (clearInfoIfEmpty L s ?m1)"
    using assms by (intro infosOK_clearInfoIfEmpty infosOK_setInfo [where X = "{}"]) auto
  ultimately show ?thesis
    unfolding d subsStep_def using subsOK_same [of "clearInfoIfEmpty L s ?m1" m "{}"] by simp
qed (simp add: dropPath_def subsStep_refl)

lemma RemoveSubscription_cases:
  "\<exists>q q'. snd (mux_RemoveSubscription U L s p f fl m) = m \<or>
     snd (mux_RemoveSubscription U L s p f fl m) = dropPath L s (WithoutPrefixSlash p)
       (dropIfEmpty p (snd (UpdateSubscription U L p (Some s) 0 (setSubscriptions p (remove1 q' q) m))))"
  by (auto simp: mux_RemoveSubscription_def Let_def split: option.split)

lemma subsStep_RemoveSubscription:
  assumes "s \<in> keysOf m"
  shows "subsStep L s m (snd (mux_RemoveSubscription U L s p f fl m))"
proof -
  obtain q q' where *: "snd (mux_RemoveSubscription U L s p f fl m) = m \<or>
     snd (mux_RemoveSubscription U L s p f fl m) = dropPath L s (WithoutPrefixSlash p)
       (dropIfEmpty p (snd (UpdateSubscription U L p (Some s) 0 (setSubscriptions p (remove1 q' q) m))))"
    using RemoveSubscription_cases [of U L s p f fl m] by blast
  let ?m2 = "snd (UpdateSubscription U L p (Some s) 0 (setSubscriptions p (remove1 q' q) m))"
  have "subsOnly {s} m (dropIfEmpty p ?m2)"
    by (rule subsOnly_trans [OF subsOnly_trans [OF subsOnly_setSubscriptions subsOnly_upcalls [OF upcalls_UpdateSubscription]]
        subsOnly_dropIfEmpty])
  moreover have "infosOK L {} m \<Longrightarrow> infosOK L {} (dropIfEmpty p ?m2)"
    using infosOK_same [of "dropIfEmpty p ?m2" m L "{}"] by simp
  moreover have "subsOK {} m \<Longrightarrow> subsOK {} (dropIfEmpty p ?m2)"
    using subsOK_setSubscriptions [of "{}" m "{p}" p] subsOK_same [of ?m2 "setSubscriptions p (remove1 q' q) m" "{p}"]
    by (intro subsOK_dropIfEmpty) simp
  ultimately have "subsStep L s m (dropIfEmpty p ?m2)"
    unfolding subsStep_def by blast
  then have "subsStep L s m (dropPath L s (WithoutPrefixSlash p) (dropIfEmpty p ?m2))"
    using assms by (intro subsStep_trans [OF _ subsStep_dropPath]) simp_all
  with * subsStep_refl [of L s m] show ?thesis
    by auto
qed

text \<open>Adding a subscription, as three parts: the tables, what the gateway above says, and the way back.\<close>

definition addedInfo :: "('m, 'f, 'p) tree_lib \<Rightarrow> subscriber \<Rightarrow> ('m, 'f, 'p) mux \<Rightarrow> ('m, 'f, 'p) mux" where
  "addedInfo L s m =
     (if infoOf s m = None
      then let m' = setInfo s (Some \<lparr> tsi_matcher = pm_new L, tsi_receivedPaths = [] \<rparr>) m
           in if mux_isConnected m' then emit (ToSubscriber s TreeGatewayConnectionStateChanged) m' else m'
      else m)"

definition undoAdd :: "('m, 'f, 'p) tree_lib \<Rightarrow> subscriber \<Rightarrow> string \<Rightarrow> ('m, 'f, 'p) mux \<Rightarrow> ('m, 'f, 'p) mux" where
  "undoAdd L s p m =
     (let info = the (infoOf s m);
          m6 = clearInfoIfEmpty L s
            (setInfo s (Some (info\<lparr> tsi_matcher := pm_RemovePathString L (WithoutPrefixSlash p) (tsi_matcher info) \<rparr>)) m)
      in dropIfEmpty p (setSubscriptions p (butlast (subscriptionsTo p m6)) m6))"

lemma AddSubscription_alt:
  "mux_AddSubscription U L s p f fl m =
     (if \<not> tabHas fst s (subscriberInfos m) then (B_BAD_ARGUMENT, m)
      else
        let m2 = addedInfo L s (setSubscriptions p (subscriptionsTo p m @ [\<lparr> si_sub = s, si_qfRef = f, si_flags = fl \<rparr>]) m);
            info = the (infoOf s m2);
            (ret1, pm) = pm_PutPathString L (WithoutPrefixSlash p) f (tsi_matcher info);
            m3 = setInfo s (Some (info\<lparr> tsi_matcher := pm \<rparr>)) m2;
            (ret, m4) = (if IsError ret1 then (ret1, m3)
                         else if mux_isConnected m3 then UpdateSubscription U L p (Some s) fl m3 else (B_NO_ERROR, m3))
        in if IsOK ret then (B_NO_ERROR, m4) else (ret, undoAdd L s p m4))"
  unfolding mux_AddSubscription_def addedInfo_def undoAdd_def Let_def by (simp add: case_prod_unfold)

lemma subsOnly_addedInfo: "subsOnly {s} m (addedInfo L s m)"
  using subsOnly_setInfo [of "{s}" m s] subsOnly_trans [OF subsOnly_setInfo [of "{s}" m s] subsOnly_emit [of s]] subsOnly_refl [of "{s}" m]
  by (simp add: addedInfo_def Let_def)

lemma infosOK_addedInfo:
  assumes "infosOK L X m" "s \<in> keysOf m"
  shows "infosOK L (insert s X) (addedInfo L s m)"
proof -
  have *: "infosOK L (insert s X) (setInfo s i m)" for i
    using assms by (intro infosOK_setInfo [OF assms]) auto
  have "infosOK L (insert s X) m"
    by (rule infosOK_mono [OF assms(1)]) blast
  with * show ?thesis
    using infosOK_same [of "emit _ (setInfo s _ m)" "setInfo s _ m"] by (simp add: addedInfo_def Let_def)
qed

lemma subsStep_undoAdd:
  assumes s: "s \<in> keysOf m" and infos: "infosOK L {s} m" and subs: "subsOK {} m"
  shows "subsOnly {s} m (undoAdd L s p m) \<and> infosOK L {} (undoAdd L s p m) \<and> subsOK {} (undoAdd L s p m)"
proof -
  let ?m5 = "setInfo s (Some ((the (infoOf s m))\<lparr> tsi_matcher := pm_RemovePathString L (WithoutPrefixSlash p) (tsi_matcher (the (infoOf s m))) \<rparr>)) m"
  let ?m6 = "clearInfoIfEmpty L s ?m5"
  let ?m7 = "setSubscriptions p (butlast (subscriptionsTo p ?m6)) ?m6"
  have u: "undoAdd L s p m = dropIfEmpty p ?m7"
    by (simp add: undoAdd_def Let_def)
  have "subsOnly {s} m (dropIfEmpty p ?m7)"
    by (rule subsOnly_trans [OF subsOnly_trans [OF subsOnly_trans [OF subsOnly_setInfo subsOnly_clearInfoIfEmpty]
        subsOnly_setSubscriptions] subsOnly_dropIfEmpty])
  moreover have "infosOK L {} ?m6"
    using s by (intro infosOK_clearInfoIfEmpty infosOK_setInfo [OF infos]) auto
  then have "infosOK L {} (dropIfEmpty p ?m7)"
    using infosOK_same [of "dropIfEmpty p ?m7" ?m6 L "{}"] by simp
  moreover have "subsOK {} ?m6"
    using subs subsOK_same [of ?m6 m "{}"] by simp
  then have "subsOK {} (dropIfEmpty p ?m7)"
    by (intro subsOK_dropIfEmpty subsOK_setSubscriptions) auto
  ultimately show ?thesis
    unfolding u by blast
qed

lemma subsStep_AddSubscription:
  assumes law: "matcher_law L" and s: "s \<in> keysOf m"
  shows "subsStep L s m (snd (mux_AddSubscription U L s p f fl m))"
proof (cases "tabHas fst s (subscriberInfos m)")
  case True
  let ?m1 = "setSubscriptions p (subscriptionsTo p m @ [\<lparr> si_sub = s, si_qfRef = f, si_flags = fl \<rparr>]) m"
  define m2 where "m2 = addedInfo L s ?m1"
  define info where "info = the (infoOf s m2)"
  obtain ret1 pm where put: "pm_PutPathString L (WithoutPrefixSlash p) f (tsi_matcher info) = (ret1, pm)"
    by (cases "pm_PutPathString L (WithoutPrefixSlash p) f (tsi_matcher info)") simp
  define m3 where "m3 = setInfo s (Some (info\<lparr> tsi_matcher := pm \<rparr>)) m2"
  obtain ret m4 where r: "(if IsError ret1 then (ret1, m3)
      else if mux_isConnected m3 then UpdateSubscription U L p (Some s) fl m3 else (B_NO_ERROR, m3)) = (ret, m4)"
    by (metis surj_pair)
  have res: "snd (mux_AddSubscription U L s p f fl m) = (if IsOK ret then m4 else undoAdd L s p m4)"
    using True unfolding AddSubscription_alt Let_def m2_def [symmetric] info_def [symmetric] put prod.case m3_def [symmetric] r
    by (simp del: not_None_eq)
  have o3: "subsOnly {s} m m3"
    unfolding m3_def m2_def by (intro subsOnly_trans [OF subsOnly_setSubscriptions subsOnly_trans [OF subsOnly_addedInfo subsOnly_setInfo]])
  have up: "upcalls m3 m4"
    using r upcalls_UpdateSubscription [of m3 U L p "Some s" fl] upcalls_refl [of m3] by (auto split: if_splits)
  then have same: "subscriberInfos m4 = subscriberInfos m3" "subscribedStrings m4 = subscribedStrings m3" "keysOf m4 = keysOf m3"
    unfolding upcalls_def keysOf_def by auto
  have o4: "subsOnly {s} m m4"
    using o3 subsOnly_upcalls [OF up] by (rule subsOnly_trans)
  have key: "s \<in> keysOf m2"
    using s subsOnly_fields(1) [OF subsOnly_addedInfo [of s ?m1 L]] by (simp add: m2_def)
  have key3: "s \<in> keysOf m3"
    using key by (simp add: m3_def)
  have infos: "infosOK L {s} m3 \<and> (IsOK ret1 \<longrightarrow> infosOK L {} m3)" if "infosOK L {} m"
  proof -
    have "infosOK L {} ?m1"
      using that infosOK_same [of ?m1 m L "{}"] by simp
    then have i2: "infosOK L {s} m2"
      using infosOK_addedInfo [of L "{}" ?m1 s] s by (simp add: m2_def)
    have "IsOK ret1 \<Longrightarrow> pm_GetEntries L pm \<noteq> []"
      using entries_put [OF law, of "WithoutPrefixSlash p" f "tsi_matcher info" pm] put by simp
    then show ?thesis
      using infosOK_setInfo [OF i2 key, of "{s}"] infosOK_setInfo [OF i2 key, of "{}" "Some (info\<lparr> tsi_matcher := pm \<rparr>)"]
      by (simp add: m3_def)
  qed
  have subs: "subsOK {} m4" if "subsOK {} m"
  proof -
    have "subsOK {} ?m1"
      by (rule subsOK_setSubscriptions [OF that]) simp_all
    moreover have "subscribedStrings m4 = subscribedStrings ?m1"
      using same by (simp add: m3_def m2_def addedInfo_def Let_def)
    ultimately show ?thesis
      using subsOK_same by blast
  qed
  show ?thesis
  proof (cases "IsOK ret")
    case True
    then have "IsOK ret1"
      using r by (auto split: if_splits)
    then show ?thesis
      using o4 infos subs infosOK_same [OF same(1,3), of L "{}"] True unfolding res subsStep_def by simp
  next
    case False
    have "infosOK L {} m \<Longrightarrow> infosOK L {s} m4"
      using infos infosOK_same [OF same(1,3), of L "{s}"] by simp
    then have "infosOK L {} m \<Longrightarrow> subsOK {} m \<Longrightarrow> infosOK L {} (undoAdd L s p m4) \<and> subsOK {} (undoAdd L s p m4)"
      using subsStep_undoAdd [of s m4 L p] subs key3 same(3) by simp
    moreover have "subsOnly {s} m4 (undoAdd L s p m4)"
      unfolding undoAdd_def Let_def
      by (rule subsOnly_trans [OF subsOnly_trans [OF subsOnly_trans [OF subsOnly_setInfo subsOnly_clearInfoIfEmpty]
        subsOnly_setSubscriptions] subsOnly_dropIfEmpty])
    ultimately show ?thesis
      using False subsOnly_trans [OF o4] unfolding res subsStep_def by simp
  qed
qed (simp add: mux_AddSubscription_def subsStep_refl)

end
