(* ===== verification/ZG_MuxSteps.thy ===== *)
theory ZG_MuxSteps
  imports ZG_MuxSubscriptions
begin

text \<open>
  The steps of a \<^verbatim>\<open>MuxTreeGateway\<close>, one by one, and the states it can reach.
\<close>

section \<open>Calls\<close>

lemma subsStep_removeEach:
  "s \<in> keysOf m \<Longrightarrow> subsStep L s m (snd (removeEach U L s es ret m))"
proof (induction es arbitrary: m ret)
  case (Cons e es)
  obtain p f where e: "e = (p, f)"
    by (cases e)
  obtain st m1 where r: "mux_RemoveSubscription U L s p f 0 m = (st, m1)"
    by (metis surj_pair)
  have step: "subsStep L s m m1"
    using subsStep_RemoveSubscription [OF Cons.prems, of L U p f 0] r by simp
  then have "s \<in> keysOf m1"
    using Cons.prems subsOnly_fields(1) unfolding subsStep_def by blast
  then show ?case
    using subsStep_trans [OF step Cons.IH] by (simp add: e r)
qed (simp add: subsStep_refl)

lemma batch_around:
  assumes "subsOnly S (mux_BeginCommandBatch m) m'"
  shows "\<exists>i u es. mux_EndCommandBatch m' = m\<lparr> subscriberInfos := i, subscribedStrings := u, mux_log := mux_log m @ es \<rparr> \<and>
    i = subscriberInfos m' \<and> u = subscribedStrings m' \<and> (\<forall>s cb. ToSubscriber s cb \<in> set es \<longrightarrow> s \<in> S)"
proof -
  let ?b = "if commandBatchCounter m = 0 then [UpBeginCommandBatch] else []"
  let ?e = "if commandBatchCounter m = 0 then [UpEndCommandBatch] else []"
  have B: "mux_BeginCommandBatch m = m\<lparr> commandBatchCounter := commandBatchCounter m + 1, mux_log := mux_log m @ ?b \<rparr>"
    by (simp add: mux_BeginCommandBatch_def emit_def Let_def)
  obtain i u es where m': "m' = (mux_BeginCommandBatch m)\<lparr> subscriberInfos := i, subscribedStrings := u,
      mux_log := mux_log (mux_BeginCommandBatch m) @ es \<rparr>" and es: "\<forall>s cb. ToSubscriber s cb \<in> set es \<longrightarrow> s \<in> S"
    using assms unfolding subsOnly_def by blast
  have "mux_EndCommandBatch m' = m\<lparr> subscriberInfos := i, subscribedStrings := u, mux_log := mux_log m @ ?b @ es @ ?e \<rparr>"
    unfolding m' B by (simp add: mux_EndCommandBatch_def emit_def Let_def)
  moreover have "\<forall>s cb. ToSubscriber s cb \<in> set (?b @ es @ ?e) \<longrightarrow> s \<in> S"
    using es by simp
  moreover have "i = subscriberInfos m'" "u = subscribedStrings m'"
    unfolding m' by simp_all
  ultimately show ?thesis
    by blast
qed

lemma RemoveAll_cases:
  "\<exists>es ret. snd (mux_RemoveAllSubscriptions U L s m) = mux_EndCommandBatch (snd (removeEach U L s es ret (mux_BeginCommandBatch m)))"
proof (cases "tabHas fst s (subscriberInfos (mux_BeginCommandBatch m)) \<and> infoOf s (mux_BeginCommandBatch m) \<noteq> None")
  case True
  then obtain info where "infoOf s (mux_BeginCommandBatch m) = Some info"
    by blast
  then show ?thesis
    using True by (auto simp: mux_RemoveAllSubscriptions_def Let_def case_prod_unfold)
next
  case False
  then show ?thesis
    by (intro exI [of _ "[]"]) (auto simp: mux_RemoveAllSubscriptions_def Let_def split: option.split)
qed

lemma subsStep_RemoveAll:
  assumes s: "s \<in> keysOf m"
  shows "subsStep L s m (snd (mux_RemoveAllSubscriptions U L s m))"
proof -
  obtain es ret where r: "snd (mux_RemoveAllSubscriptions U L s m) = mux_EndCommandBatch (snd (removeEach U L s es ret (mux_BeginCommandBatch m)))"
    using RemoveAll_cases by blast
  let ?m1 = "mux_BeginCommandBatch m"
  let ?m2 = "snd (removeEach U L s es ret ?m1)"
  have b: "keysOf ?m1 = keysOf m" "subscriberInfos ?m1 = subscriberInfos m" "subscribedStrings ?m1 = subscribedStrings m"
    by (simp_all add: mux_BeginCommandBatch_def emit_def keysOf_def Let_def)
  have step: "subsStep L s ?m1 ?m2"
    using s by (intro subsStep_removeEach) (simp add: b)
  then have o: "subsOnly {s} ?m1 ?m2"
    unfolding subsStep_def by blast
  obtain i u es' where e: "mux_EndCommandBatch ?m2 = m\<lparr> subscriberInfos := i, subscribedStrings := u, mux_log := mux_log m @ es' \<rparr>"
    and iu: "i = subscriberInfos ?m2" "u = subscribedStrings ?m2" and es': "\<forall>s' cb. ToSubscriber s' cb \<in> set es' \<longrightarrow> s' \<in> {s}"
    using batch_around [OF o] by blast
  have so: "subsOnly {s} m (mux_EndCommandBatch ?m2)"
    using e es' by (intro subsOnlyI) blast+
  have f: "subscriberInfos (mux_EndCommandBatch ?m2) = subscriberInfos ?m2" "subscribedStrings (mux_EndCommandBatch ?m2) = subscribedStrings ?m2"
    using iu unfolding e by simp_all
  have k: "keysOf (mux_EndCommandBatch ?m2) = keysOf ?m2"
    using subsOnly_fields(1) [OF so] subsOnly_fields(1) [OF o] b by simp
  have "infosOK L {} m \<Longrightarrow> subsOK {} m \<Longrightarrow> infosOK L {} (mux_EndCommandBatch ?m2) \<and> subsOK {} (mux_EndCommandBatch ?m2)"
    using step infosOK_same [OF b(2,1), of L "{}"] subsOK_same [OF b(3), of "{}"] infosOK_same [OF f(1) k, of L "{}"] subsOK_same [OF f(2), of "{}"]
    unfolding subsStep_def by blast
  then show ?thesis
    using so unfolding r subsStep_def by blast
qed

lemma good_RequestNodeSubtreesAux:
  assumes s: "s \<in> keysOf m"
  shows "good L m (snd (mux_RequestNodeSubtreesAux U s qs fs tag d fl c m))"
proof (cases "mux_isConnected m")
  case True
  let ?q = "requestsOf s m"
  let ?m0 = "setRequests s (?q @ [tag]) m"
  define m1 where "m1 = snd (upCall U (RequestTreeNodeSubtrees qs fs (PrependRegistrationIDPrefix c s tag m) d fl) ?m0)"
  have "good L m ?m0"
    using s True by (intro good_setRequests) simp_all
  then have one: "good L m m1"
    unfolding m1_def by (rule good_trans [OF _ good_upCall])
  have "keysOf m1 = keysOf m" "mux_isConnected m1 = mux_isConnected m"
    by (simp_all add: m1_def upCall_log emit_def keysOf_def setRequests_def)
  then have two: "good L m (setRequests s ?q m1)"
    using s True by (intro good_trans [OF one good_setRequests]) simp_all
  have "snd (mux_RequestNodeSubtreesAux U s qs fs tag d fl c m) \<in> {m1, setRequests s ?q m1}"
    using True by (simp add: mux_RequestNodeSubtreesAux_def m1_def Let_def case_prod_unfold)
  then show ?thesis
    using one two by auto
qed (simp add: mux_RequestNodeSubtreesAux_def)

lemma good_whenConnected: "good L m (snd (whenConnected U call s tag m))"
  by (simp add: whenConnected_def good_upCall)

lemma good_RemoveSubscription: "s \<in> keysOf m \<Longrightarrow> good L m (snd (mux_RemoveSubscription U L s p f fl m))"
  by (rule good_subsStep [OF subsStep_RemoveSubscription])

lemma good_RemoveAll: "s \<in> keysOf m \<Longrightarrow> good L m (snd (mux_RemoveAllSubscriptions U L s m))"
  by (rule good_subsStep [OF subsStep_RemoveAll])

lemma good_call:
  assumes law: "matcher_law L" and "s \<in> keysOf m"
  shows "good L m (snd (mux_call U L s c m))"
proof (cases c)
  case (TreeGateway_AddSubscription p f fl)
  then show ?thesis
    using good_subsStep [OF subsStep_AddSubscription [OF assms] assms(2)] by simp
qed (use assms in \<open>simp_all add: good_RemoveSubscription good_RemoveAll good_RequestNodeSubtreesAux good_whenConnected good_upCall mux_UploadNodeValue_def\<close>)

section \<open>Connection\<close>

lemma good_toAll: "good L m (toAll cb m)"
proof -
  have "good L m (fold (\<lambda>x. emit (ToSubscriber (fst x) (snd x))) (proxy_callback cb m) m)"
  proof (rule good_fold)
    fix x and m' :: "('a, 'b, 'c) mux"
    assume "x \<in> set (proxy_callback cb m)" "steady m m'"
    then have "fst x \<in> keysOf m'"
      using steady_keys by (force simp: proxy_callback_def keysOf_def)
    then show "good L m' (emit (ToSubscriber (fst x) (snd x)) m')"
      by (rule good_callback)
  qed
  then show ?thesis
    by (simp add: toAll_def case_prod_unfold)
qed

lemma muxOK_connected:
  assumes "muxOK L m" "\<not> mux_isConnected m"
  shows "muxOK L (m\<lparr> mux_isConnected := True, mux_log := l \<rparr>)"
  using assms unfolding muxOK_def keysOf_def registrationsOK_def by (simp, simp add: tabInv_def)

lemma muxOK_disconnected:
  assumes "muxOK L m"
  shows "muxOK L (m\<lparr> mux_isConnected := False, requestedSubtrees := [], mux_log := l \<rparr>)"
  using assms unfolding muxOK_def keysOf_def registrationsOK_def tabInv_def by simp

lemma good_resubscribe: "good L m (fold (\<lambda>(p, q) m'. snd (UpdateSubscription U L p None (flags q) m')) subs m)"
  by (rule good_fold) (simp add: case_prod_unfold good_upcalls [OF upcalls_UpdateSubscription])

lemma sound_finish: "good L m (emit UpEndCommandBatch (toAll cb m))"
  by (rule good_trans [OF good_toAll good_emit]) simp

lemma soundI2:
  assumes "muxOK L m \<Longrightarrow> muxOK L m1 \<and> keysOf m1 = keysOf m \<and> calls_only (keysOf m) m m1" "muxOK L m \<Longrightarrow> good L m1 m'"
  shows "sound L m m'"
  unfolding sound_def
proof
  assume ok: "muxOK L m"
  then have 1: "muxOK L m1" "keysOf m1 = keysOf m" "calls_only (keysOf m) m m1" and "good L m1 m'"
    using assms by blast+
  then have "muxOK L m'" "calls_only (keysOf m1) m1 m'"
    unfolding good_def steady_def by blast+
  then show "muxOK L m' \<and> calls_only (keysOf m) m m'"
    using 1 calls_only_trans by metis
qed

lemma sound_Connection: "sound L m (mux_TreeGatewayConnectionStateChanged U L up m)"
proof (cases "up = mux_isConnected m")
  case True
  then show ?thesis
    by (simp add: mux_TreeGatewayConnectionStateChanged_def sound_def)
next
  case new: False
  show ?thesis
  proof (cases up)
    case True
    let ?m1 = "emit UpBeginCommandBatch (m\<lparr> mux_isConnected := True \<rparr>)"
    have "muxOK L m \<Longrightarrow> muxOK L ?m1 \<and> keysOf ?m1 = keysOf m \<and> calls_only (keysOf m) m ?m1"
      using muxOK_connected [of L m "mux_log m @ [UpBeginCommandBatch]"] new True by (simp add: emit_def keysOf_def calls_only_def)
    moreover have "good L ?m1 (mux_TreeGatewayConnectionStateChanged U L up m)"
      unfolding mux_TreeGatewayConnectionStateChanged_def Let_def
      using new True by (simp add: good_trans [OF good_resubscribe sound_finish])
    ultimately show ?thesis
      by (rule soundI2)
  next
    case False
    let ?m2 = "(snd (upCall U (RemoveAllTreeSubscriptions 0) (emit UpBeginCommandBatch (m\<lparr> mux_isConnected := False \<rparr>))))\<lparr> requestedSubtrees := [] \<rparr>"
    have "?m2 = m\<lparr> mux_isConnected := False, requestedSubtrees := [], mux_log := mux_log ?m2 \<rparr>"
      by (simp add: upCall_log emit_def)
    then have "muxOK L m \<Longrightarrow> muxOK L ?m2"
      using muxOK_disconnected by metis
    moreover have "keysOf ?m2 = keysOf m" "calls_only (keysOf m) m ?m2"
      by (simp_all add: upCall_log emit_def keysOf_def calls_only_def)
    moreover have "good L ?m2 (mux_TreeGatewayConnectionStateChanged U L up m)"
      unfolding mux_TreeGatewayConnectionStateChanged_def Let_def
      using new False by (simp add: sound_finish)
    ultimately show ?thesis
      by (intro soundI2) blast+
  qed
qed

section \<open>Coming and going\<close>

lemma keysOf_Register: "keysOf (mux_RegisterSubscriber s m) = insert s (keysOf m)"
  by (simp add: mux_RegisterSubscriber_def IGateway_RegisterSubscriber_def Let_def keysOf_def setInfo_def keys_tabPut)

lemma sound_attach:
  assumes "s \<noteq> dummySubscriber m" "registrationIDCounter m \<noteq> - 1"
  shows "sound L m (attachSubscriber s m)"
proof (cases "tabHas fst s (registeredSubscribers m)")
  case False
  let ?m = "mux_RegisterSubscriber s m"
  have "muxOK L ?m" if ok: "muxOK L m"
  proof -
    have new: "s \<notin> keysOf m"
      using False tabHas_keysOf by blast
    have keys: "keysOf ?m = insert s (keysOf m)"
      by (rule keysOf_Register)
    have f: "registeredSubscribers ?m = registeredSubscribers (IGateway_RegisterSubscriber s m)"
      "registrationIDs ?m = registrationIDs (IGateway_RegisterSubscriber s m)"
      "registrationIDCounter ?m = registrationIDCounter (IGateway_RegisterSubscriber s m)"
      "subscriberInfos ?m = tabPut fst (s, None) (subscriberInfos m)" "subscribedStrings ?m = subscribedStrings m"
      "requestedSubtrees ?m = requestedSubtrees m" "dummySubscriber ?m = dummySubscriber m" "allowedCallbacks ?m = allowedCallbacks m"
      "mux_isConnected ?m = mux_isConnected m" "needsCallbackBatchEndsCall ?m = needsCallbackBatchEndsCall m"
      "subscriberBatch ?m = subscriberBatch m" "commandBatchCounter ?m = commandBatchCounter m" "callbackBatchCounter ?m = callbackBatchCounter m"
      by (simp_all add: mux_RegisterSubscriber_def setInfo_def IGateway_RegisterSubscriber_def Let_def)
    have reg: "registrationsOK ?m"
      using registrationsOK_register [OF muxOK_registrations [OF ok], of s] False assms(2) f unfolding registrationsOK_def by simp
    have "restOK ?m \<and> batchesOK ?m \<and> subsOK {} ?m"
      using ok reg assms(1) unfolding muxOK_split restOK_def batchesOK_def subsOK_def f keys by blast
    have i: "infosOK L {} m"
      using ok unfolding muxOK_split by blast
    have "infoOf s' ?m = Some info \<Longrightarrow> infoOf s' m = Some info" for s' info
      by (simp add: infoOf_def f tabGet_tabPut split: if_splits)
    then have "pm_GetEntries L (tsi_matcher info) \<noteq> []" if "infoOf s' ?m = Some info" for s' info
      using that infosOK_entries [OF i] by blast
    moreover have "tabInv fst (subscriberInfos ?m)" "fst ` set (subscriberInfos ?m) = keysOf ?m"
      using i unfolding infosOK_def f keys keys_tabPut by (simp_all add: tabInv_tabPut)
    ultimately have "infosOK L {} ?m"
      unfolding infosOK_def by blast
    with \<open>restOK ?m \<and> batchesOK ?m \<and> subsOK {} ?m\<close> show "muxOK L ?m"
      unfolding muxOK_split by blast
  qed
  moreover have "mux_log ?m = mux_log m"
    by (simp add: mux_RegisterSubscriber_def setInfo_def IGateway_RegisterSubscriber_def Let_def)
  ultimately show ?thesis
    using False by (simp add: sound_def attachSubscriber_def calls_only_same del: not_None_eq)
qed (simp add: attachSubscriber_def sound_def)

text \<open>A subscriber that leaves closes its batch first; then nothing mentions it any more.\<close>

lemma gatewayUnregister_fields:
  "subscriberInfos (IGateway_UnregisterSubscriber s m) = subscriberInfos m" "subscribedStrings (IGateway_UnregisterSubscriber s m) = subscribedStrings m"
  "requestedSubtrees (IGateway_UnregisterSubscriber s m) = requestedSubtrees m" "dummySubscriber (IGateway_UnregisterSubscriber s m) = dummySubscriber m"
  "allowedCallbacks (IGateway_UnregisterSubscriber s m) = allowedCallbacks m" "mux_isConnected (IGateway_UnregisterSubscriber s m) = mux_isConnected m"
  "needsCallbackBatchEndsCall (IGateway_UnregisterSubscriber s m) = needsCallbackBatchEndsCall m"
  "subscriberBatch (IGateway_UnregisterSubscriber s m) = subscriberBatch m" "commandBatchCounter (IGateway_UnregisterSubscriber s m) = commandBatchCounter m"
  "callbackBatchCounter (IGateway_UnregisterSubscriber s m) = callbackBatchCounter m" "mux_log (IGateway_UnregisterSubscriber s m) = mux_log m"
  by (simp_all add: IGateway_UnregisterSubscriber_def split: option.split)

lemma keysOf_Unregister: "keysOf (IGateway_UnregisterSubscriber s m) = keysOf m - {s}"
proof (cases "tabGet fst s (registeredSubscribers m)")
  case None
  then show ?thesis
    using tabHas_keysOf [of s m] by (simp add: IGateway_UnregisterSubscriber_def)
next
  case (Some e)
  then have "keysOf (IGateway_UnregisterSubscriber s m) = fst ` set (tabRemove fst s (registeredSubscribers m))"
    by (cases e) (simp add: IGateway_UnregisterSubscriber_def keysOf_def)
  then show ?thesis
    unfolding keysOf_def set_tabRemove by auto
qed

text \<open>The state of a subscriber that has closed its batch.\<close>

definition leaving :: "('m, 'f, 'p) tree_lib \<Rightarrow> subscriber \<Rightarrow> ('m, 'f, 'p) mux \<Rightarrow> bool" where
  "leaving L s m \<longleftrightarrow> s \<in> keysOf m \<and> restOK m \<and> infosOK L {} m \<and> subsOK {} m \<and>
     distinct (needsCallbackBatchEndsCall m) \<and> set (needsCallbackBatchEndsCall m) \<subseteq> keysOf m \<and>
     (\<forall>s'. subscriberBatch m s' = (if s' \<in> set (needsCallbackBatchEndsCall m) - {s} then 1 else 0)) \<and>
     commandBatchCounter m = length (filter (\<lambda>s'. s' \<noteq> s) (needsCallbackBatchEndsCall m)) \<and>
     (callbackBatchCounter m = 0 \<longrightarrow> needsCallbackBatchEndsCall m = [])"

lemma length_without: "distinct xs \<Longrightarrow> length (filter (\<lambda>x. x \<noteq> s) xs) = length xs - (if s \<in> set xs then 1 else 0)"
  using distinct_card [of xs] distinct_card [of "filter (\<lambda>x. x \<noteq> s) xs"] card_Diff_singleton_if [of "set xs" s]
  by (simp add: set_diff_eq split: if_splits)

lemma leaving_closed:
  assumes ok: "muxOK L m" and s: "s \<in> keysOf m"
  shows "leaving L s ((sub_EndCallbackBatch s ^^ subscriberBatch m s) m)"
    "keysOf ((sub_EndCallbackBatch s ^^ subscriberBatch m s) m) = keysOf m"
    "calls_only (keysOf m) m ((sub_EndCallbackBatch s ^^ subscriberBatch m s) m)"
proof -
  let ?m = "(sub_EndCallbackBatch s ^^ subscriberBatch m s) m"
  let ?n = "if s \<in> set (needsCallbackBatchEndsCall m) then 1 else 0 :: nat"
  have b: "distinct (needsCallbackBatchEndsCall m)" "set (needsCallbackBatchEndsCall m) \<subseteq> keysOf m"
    "\<And>s'. subscriberBatch m s' = (if s' \<in> set (needsCallbackBatchEndsCall m) then 1 else 0)"
    "commandBatchCounter m = length (needsCallbackBatchEndsCall m)"
    "callbackBatchCounter m = 0 \<longrightarrow> needsCallbackBatchEndsCall m = []"
    using ok unfolding muxOK_split batchesOK_def by blast+
  obtain es where m': "?m = m\<lparr> subscriberBatch := (subscriberBatch m)(s := 0), commandBatchCounter := commandBatchCounter m - ?n, mux_log := mux_log m @ es \<rparr>"
    and es: "\<forall>s' cb. ToSubscriber s' cb \<in> set es \<longrightarrow> s' = s"
  proof (cases "subscriberBatch m s = 1")
    case True
    then have m'': "?m = m\<lparr> subscriberBatch := (subscriberBatch m)(s := 0), commandBatchCounter := commandBatchCounter m - ?n,
        mux_log := mux_log m @ ToSubscriber s CallbackBatchEnds # (if commandBatchCounter m = 1 then [UpEndCommandBatch] else []) \<rparr>"
      using b(3) [of s] by (simp add: sub_EndCallbackBatch_last split: if_splits)
    show thesis
      by (rule that [OF m'']) simp
  next
    case False
    then have "subscriberBatch m s = 0" "?n = 0"
      using b(3) [of s] by (simp_all split: if_splits)
    then have "?m = m\<lparr> subscriberBatch := (subscriberBatch m)(s := 0), commandBatchCounter := commandBatchCounter m - ?n, mux_log := mux_log m @ [] \<rparr>"
      by simp (metis fun_upd_triv mux.surjective mux.update_convs(11))
    then show thesis
      by (rule that) simp
  qed
  have f: "restOK ?m = restOK m" "infosOK L {} ?m = infosOK L {} m" "subsOK {} ?m = subsOK {} m" "keysOf ?m = keysOf m"
    unfolding m' by (simp_all add: restOK_def infosOK_def subsOK_def keysOf_def registrationsOK_def infoOf_def)
  then show "keysOf ?m = keysOf m"
    by blast
  show "calls_only (keysOf m) m ?m"
    using es s unfolding m' calls_only_def by auto
  show "leaving L s ?m"
    unfolding leaving_def f using ok s b unfolding m' muxOK_split by (simp add: length_without)
qed

lemma leaving_subsStep:
  assumes "leaving L s m" "subsStep L s m m'"
  shows "leaving L s m'"
proof -
  have o: "subsOnly {s} m m'" and keep: "infosOK L {} m \<Longrightarrow> subsOK {} m \<Longrightarrow> infosOK L {} m' \<and> subsOK {} m'"
    using assms(2) unfolding subsStep_def by blast+
  have "needsCallbackBatchEndsCall m' = needsCallbackBatchEndsCall m" "subscriberBatch m' = subscriberBatch m"
    "callbackBatchCounter m' = callbackBatchCounter m"
    using o unfolding subsOnly_def by auto
  then show ?thesis
    using assms(1) keep subsOnly_fields(1,2,5) [OF o] unfolding leaving_def by simp
qed

text \<open>The tables after a subscriber has been taken out of them.\<close>

definition takenOut :: "subscriber \<Rightarrow> ('m, 'f, 'p) mux \<Rightarrow> ('m, 'f, 'p) mux" where
  "takenOut s m =
     (let m2 = (if s \<in> set (allowedCallbacks m)
                then m\<lparr> allowedCallbacks := tabPut id (dummySubscriber m) (tabRemove id s (allowedCallbacks m)) \<rparr> else m)
      in m2\<lparr> needsCallbackBatchEndsCall := tabRemove id s (needsCallbackBatchEndsCall m2),
             subscriberInfos := tabRemove fst s (subscriberInfos m2),
             requestedSubtrees := tabRemove fst s (requestedSubtrees m2) \<rparr>)"

lemma takenOut_fields:
  "registeredSubscribers (takenOut s m) = registeredSubscribers m" "registrationIDs (takenOut s m) = registrationIDs m"
  "registrationIDCounter (takenOut s m) = registrationIDCounter m" "dummySubscriber (takenOut s m) = dummySubscriber m"
  "subscribedStrings (takenOut s m) = subscribedStrings m" "mux_isConnected (takenOut s m) = mux_isConnected m"
  "subscriberBatch (takenOut s m) = subscriberBatch m" "commandBatchCounter (takenOut s m) = commandBatchCounter m"
  "callbackBatchCounter (takenOut s m) = callbackBatchCounter m" "mux_log (takenOut s m) = mux_log m"
  "subscriberInfos (takenOut s m) = tabRemove fst s (subscriberInfos m)"
  "requestedSubtrees (takenOut s m) = tabRemove fst s (requestedSubtrees m)"
  "needsCallbackBatchEndsCall (takenOut s m) = filter (\<lambda>s'. s' \<noteq> s) (needsCallbackBatchEndsCall m)"
  by (simp_all add: takenOut_def Let_def tabRemove_def)

lemma takenOut_allowed:
  assumes "restOK m"
  shows "distinct (allowedCallbacks (takenOut s m))" "set (allowedCallbacks (takenOut s m)) \<subseteq> insert (dummySubscriber m) (keysOf m - {s})"
proof -
  have d: "distinct (allowedCallbacks m)" and sub: "set (allowedCallbacks m) \<subseteq> insert (dummySubscriber m) (keysOf m)"
    and dummy: "dummySubscriber m \<notin> keysOf m"
    using assms unfolding restOK_def by blast+
  let ?r = "tabPut id (dummySubscriber m) (tabRemove id s (allowedCallbacks m))"
  have "distinct ?r"
    using d tabInv_tabPut [of id "tabRemove id s (allowedCallbacks m)"] by (simp add: tabInv_def tabRemove_def)
  moreover have "set ?r = insert (dummySubscriber m) (set (allowedCallbacks m) - {s})"
    using keys_tabPut [of id "dummySubscriber m" "tabRemove id s (allowedCallbacks m)"] set_tabRemove [of id s "allowedCallbacks m"]
    by auto
  ultimately show "distinct (allowedCallbacks (takenOut s m))" "set (allowedCallbacks (takenOut s m)) \<subseteq> insert (dummySubscriber m) (keysOf m - {s})"
    using d sub by (auto simp: takenOut_def Let_def)
qed

lemma muxOK_takenOut:
  assumes l: "leaving L s m"
  shows "muxOK L (IGateway_UnregisterSubscriber s (takenOut s m))"
proof -
  let ?m = "IGateway_UnregisterSubscriber s (takenOut s m)"
  note f = gatewayUnregister_fields [of s "takenOut s m"] takenOut_fields [of s m]
  have rest: "restOK m" and infos: "infosOK L {} m" and subs: "subsOK {} m"
    using l unfolding leaving_def by blast+
  have keys: "keysOf ?m = keysOf m - {s}"
    unfolding keysOf_Unregister by (simp add: keysOf_def takenOut_fields)
  have "registrationsOK (takenOut s m)"
    using rest unfolding restOK_def registrationsOK_def f by blast
  then have reg: "registrationsOK ?m"
    by (rule registrationsOK_unregister)
  have "fst ` set (tabRemove fst s (requestedSubtrees m)) \<subseteq> keysOf m - {s}"
    using rest unfolding restOK_def set_tabRemove by auto
  moreover have "tabRemove fst s (requestedSubtrees m) \<noteq> [] \<Longrightarrow> requestedSubtrees m \<noteq> []"
    by (auto simp: tabRemove_def)
  moreover have "\<forall>(s', q) \<in> set (tabRemove fst s (requestedSubtrees m)). q \<noteq> []"
    using rest unfolding restOK_def set_tabRemove by auto
  moreover have "tabInv fst (tabRemove fst s (requestedSubtrees m))" "dummySubscriber m \<notin> keysOf m - {s}"
    "requestedSubtrees m \<noteq> [] \<longrightarrow> mux_isConnected m"
    using rest unfolding restOK_def by (simp_all add: tabInv_tabRemove)
  ultimately have "restOK ?m"
    using reg takenOut_allowed [OF rest] unfolding restOK_def keys f by blast
  moreover have "infosOK L {} ?m"
  proof -
    have "fst ` set (tabRemove fst s (subscriberInfos m)) = keysOf m - {s}"
      using infos unfolding infosOK_def set_tabRemove by auto
    moreover have "infoOf s' ?m = Some info \<Longrightarrow> infoOf s' m = Some info" for s' info
      by (simp add: infoOf_def f tabGet_tabRemove split: if_splits)
    then have "pm_GetEntries L (tsi_matcher info) \<noteq> []" if "infoOf s' ?m = Some info" for s' info
      using that infosOK_entries [OF infos] by blast
    moreover have "tabInv fst (tabRemove fst s (subscriberInfos m))"
      using infos by (simp add: infosOK_def tabInv_tabRemove)
    ultimately show ?thesis
      unfolding infosOK_def keys f by blast
  qed
  moreover have "subsOK {} ?m"
    using subs unfolding subsOK_def f .
  moreover have "batchesOK ?m"
    using l unfolding leaving_def batchesOK_def keys f by auto
  ultimately show ?thesis
    unfolding muxOK_split by blast
qed

lemma detach_result:
  assumes ok: "muxOK L m"
  shows "muxOK L (detachSubscriber U L s m) \<and> keysOf (detachSubscriber U L s m) = keysOf m - {s} \<and>
    calls_only (keysOf m) m (detachSubscriber U L s m)"
proof (cases "tabHas fst s (registeredSubscribers m)")
  case True
  then have s: "s \<in> keysOf m"
    using tabHas_keysOf by blast
  let ?m = "(sub_EndCallbackBatch s ^^ subscriberBatch m s) m"
  let ?m1 = "snd (mux_RemoveAllSubscriptions U L s ?m)"
  note c = leaving_closed [OF ok s]
  have has: "tabHas fst s (subscriberInfos ?m)"
    using c(1) infosOK_has [of L "{}" ?m s] unfolding leaving_def by blast
  have step: "subsStep L s ?m ?m1"
    using s c(2) by (intro subsStep_RemoveAll) simp
  then have o: "subsOnly {s} ?m ?m1"
    unfolding subsStep_def by blast
  have d: "detachSubscriber U L s m = IGateway_UnregisterSubscriber s (takenOut s ?m1)"
    using True has by (simp add: detachSubscriber_def mux_UnregisterSubscriber_def takenOut_def Let_def del: not_None_eq)
  have "muxOK L (detachSubscriber U L s m)"
    unfolding d by (rule muxOK_takenOut [OF leaving_subsStep [OF c(1) step]])
  moreover have "keysOf (detachSubscriber U L s m) = keysOf m - {s}"
    unfolding d keysOf_Unregister using subsOnly_fields(1) [OF o] c(2) by (simp add: keysOf_def takenOut_fields)
  moreover have "calls_only (keysOf m) ?m ?m1"
    using subsOnly_fields(6) [OF o] calls_only_mono s by blast
  then have "calls_only (keysOf m) m ?m1"
    using c(3) calls_only_trans by blast
  then have "calls_only (keysOf m) m (detachSubscriber U L s m)"
    using calls_only_cong [of "detachSubscriber U L s m" ?m1] unfolding d gatewayUnregister_fields takenOut_fields by blast
  ultimately show ?thesis
    by blast
next
  case False
  then have "s \<notin> keysOf m" "detachSubscriber U L s m = m"
    using tabHas_keysOf [of s m] by (simp_all add: detachSubscriber_def del: not_None_eq)
  then show ?thesis
    using ok by simp
qed

text \<open>A loop that detaches subscribers, after a farewell to each or without one.\<close>

lemma detach_all:
  fixes m :: "('m, 'f, 'p) mux"
  assumes f: "\<And>s m'. f s m' = detachSubscriber U L s (if say then emit (ToSubscriber s TreeGatewayShuttingDown) m' else m')"
  shows "muxOK L m \<Longrightarrow> distinct ss \<Longrightarrow> set ss \<subseteq> keysOf m \<Longrightarrow>
    muxOK L (fold f ss m) \<and> keysOf (fold f ss m) = keysOf m - set ss \<and> calls_only (keysOf m) m (fold f ss m)"
proof (induction ss arbitrary: m)
  case (Cons s ss)
  let ?e = "if say then emit (ToSubscriber s TreeGatewayShuttingDown) m else m"
  have s: "s \<in> keysOf m"
    using Cons.prems by simp
  have e: "muxOK L ?e" "keysOf ?e = keysOf m" "calls_only (keysOf m) m ?e"
    using goodD [OF Cons.prems(1) good_callback [OF s]] Cons.prems(1) by (simp_all add: steady_def)
  have d: "muxOK L (f s m)" "keysOf (f s m) = keysOf m - {s}" "calls_only (keysOf m) m (f s m)"
    using detach_result [OF e(1), of U s] e(2) calls_only_trans [OF e(3)] unfolding f by auto
  have "muxOK L (fold f ss (f s m)) \<and> keysOf (fold f ss (f s m)) = keysOf (f s m) - set ss \<and>
      calls_only (keysOf (f s m)) (f s m) (fold f ss (f s m))"
    using Cons.prems d by (intro Cons.IH) auto
  then have r: "muxOK L (fold f ss (f s m))" "keysOf (fold f ss (f s m)) = keysOf (f s m) - set ss"
    "calls_only (keysOf (f s m)) (f s m) (fold f ss (f s m))"
    by blast+
  have "calls_only (keysOf m) (f s m) (fold f ss (f s m))"
    by (rule calls_only_mono [OF r(3)]) (use d(2) in blast)
  then have "calls_only (keysOf m) m (fold f ss (f s m))"
    by (rule calls_only_trans [OF d(3)])
  moreover have "keysOf (fold f ss (f s m)) = keysOf m - set (s # ss)"
    unfolding r(2) d(2) by auto
  ultimately show ?case
    using r(1) by simp
qed simp

lemma registered_distinct: "muxOK L m \<Longrightarrow> distinct (map fst (registeredSubscribers m)) \<and> set (map fst (registeredSubscribers m)) = keysOf m"
  unfolding muxOK_def registrationsOK_def tabInv_def keysOf_def by simp

lemma ShuttingDown_result:
  assumes ok: "muxOK L m"
  shows "muxOK L (mux_TreeGatewayShuttingDown U L m) \<and> keysOf (mux_TreeGatewayShuttingDown U L m) = {} \<and>
    calls_only (keysOf m) m (mux_TreeGatewayShuttingDown U L m)"
proof -
  have f: "detachSubscriber U L s (emit (ToSubscriber s TreeGatewayShuttingDown) m') =
      detachSubscriber U L s (if True then emit (ToSubscriber s TreeGatewayShuttingDown) m' else m')" for s m'
    by simp
  have r: "distinct (map fst (registeredSubscribers m))" "set (map fst (registeredSubscribers m)) = keysOf m"
    using registered_distinct [OF ok] by blast+
  have sub: "set (map fst (registeredSubscribers m)) \<subseteq> keysOf m"
    using r(2) by simp
  show ?thesis
    using detach_all [OF f ok r(1) sub] unfolding mux_TreeGatewayShuttingDown_def r(2) by simp
qed

lemma muxOK_cleared:
  assumes "muxOK L m" "keysOf m = {}"
  shows "muxOK L (m\<lparr> subscriberInfos := [], needsCallbackBatchEndsCall := [], subscribedStrings := [], requestedSubtrees := [] \<rparr>)"
proof -
  have b: "batchesOK m" "restOK m" "infosOK L {} m"
    using assms(1) unfolding muxOK_split by blast+
  then have n: "needsCallbackBatchEndsCall m = []" "requestedSubtrees m = []" "subscriberInfos m = []"
    using assms(2) unfolding batchesOK_def restOK_def infosOK_def by simp_all
  let ?m = "m\<lparr> subscriberInfos := [], needsCallbackBatchEndsCall := [], subscribedStrings := [], requestedSubtrees := [] \<rparr>"
  have "restOK ?m = restOK m" "infosOK L {} ?m = infosOK L {} m" "batchesOK ?m = batchesOK m"
    using n by (simp_all add: restOK_def infosOK_def batchesOK_def keysOf_def registrationsOK_def infoOf_def)
  moreover have "subsOK {} ?m"
    by (simp add: subsOK_def tabInv_def)
  ultimately show ?thesis
    using b unfolding muxOK_split by blast
qed

lemma Shutdown_result:
  assumes ok: "muxOK L m"
  shows "muxOK L (mux_ShutdownGateway U L m) \<and> keysOf (mux_ShutdownGateway U L m) = {} \<and>
    calls_only (keysOf m) m (mux_ShutdownGateway U L m)"
proof -
  let ?m1 = "emit UpShutdownGateway (mux_TreeGatewayShuttingDown U L m)"
  have "good L (mux_TreeGatewayShuttingDown U L m) ?m1"
    by (rule good_emit) simp
  then have 1: "muxOK L ?m1" "keysOf ?m1 = {}" "calls_only (keysOf m) m ?m1"
    using ShuttingDown_result [OF ok, of U] calls_only_trans calls_only_mono [of "{}" "mux_TreeGatewayShuttingDown U L m" ?m1 "keysOf m"]
    unfolding good_def steady_def by auto
  then have none: "registeredSubscribers ?m1 = []"
    unfolding keysOf_def by simp
  have "mux_ShutdownGateway U L m = ?m1\<lparr> subscriberInfos := [], needsCallbackBatchEndsCall := [], subscribedStrings := [], requestedSubtrees := [] \<rparr>"
    using none by (simp add: mux_ShutdownGateway_def Let_def)
  then show ?thesis
    using muxOK_cleared [OF 1(1,2)] 1 by (simp add: keysOf_def calls_only_def)
qed

section \<open>Reachable gateways\<close>

lemma sound_callback: "sound L m (mux_callback U L cb m)"
proof (cases cb)
  case TreeGatewayShuttingDown
  then show ?thesis
    using ShuttingDown_result [of L m U] by (simp add: sound_def)
qed (simp_all add: good_sound good_TreeNodeUpdated good_DoIndexNotifications good_TreeLocalPeerPonged good_toRequester
    good_MessageReceivedFromSubscriber good_SubtreesRequestResultReturned sound_Connection sound_BeginCallbackBatch sound_EndCallbackBatch)

lemma sound_detach: "sound L m (detachSubscriber U L s m)"
  using detach_result [of L m U s] by (simp add: sound_def)

lemma sound_Shutdown: "sound L m (mux_ShutdownGateway U L m)"
  using Shutdown_result [of L m U] by (simp add: sound_def)

lemma muxOK_new: "muxOK L (newMuxTreeGateway idPrefix dummy)"
  using registrationsOK_new
  by (simp add: muxOK_def newMuxTreeGateway_def registrations.extend_def newRegistrations_def keysOf_def tabInv_def registrationsOK_def)

lemma sound_step:
  assumes law: "matcher_law L" and "mux_allowed i m"
  shows "sound L m (mux_step U L i m)"
proof (cases i)
  case (Attach s)
  then show ?thesis
    using assms sound_attach [of s m L] by (simp add: mux_allowed_def)
next
  case (Calls s c)
  then show ?thesis
    using assms tabHas_keysOf [of s m] good_sound [OF good_call [OF law], of s m U c] by (simp add: mux_allowed_def del: not_None_eq)
qed (simp_all add: sound_detach sound_callback sound_Connection sound_Shutdown)

lemma muxOK_reach: "mux_reach U L m \<Longrightarrow> matcher_law L \<Longrightarrow> muxOK L m"
proof (induction rule: mux_reach.induct)
  case (mux_start idPrefix dummy)
  show ?case
    by (rule muxOK_new)
next
  case (mux_next m i)
  then show ?case
    using sound_step unfolding sound_def by blast
qed

end
