(* ===== verification/ZG_MuxUpstream.thy ===== *)
theory ZG_MuxUpstream
  imports ZG_MuxSteps
begin

text \<open>
  What the gateway above is asked for.  \<open>upView\<close> reads the log of a
  \<^verbatim>\<open>MuxTreeGateway\<close> as the gateway above does: a filter for each path it is subscribed
  to.  While the calls succeed it is the union of what the subscribers want.
\<close>

section \<open>The subscriptions of the gateway above\<close>

fun upApply :: "('m, 'f) mux_event \<Rightarrow> (string \<Rightarrow> 'f option option) \<Rightarrow> string \<Rightarrow> 'f option option" where
  "upApply (UpCall (AddTreeSubscription p f fl) st) v = (if IsOK st then v(p := Some f) else v)"
| "upApply (UpCall (RemoveTreeSubscription p f fl) st) v = (if IsOK st then v(p := None) else v)"
| "upApply (UpCall (RemoveAllTreeSubscriptions fl) st) v = (if IsOK st then (\<lambda>_. None) else v)"
| "upApply UpShutdownGateway v = (\<lambda>_. None)"
| "upApply e v = v"

definition upView :: "('m, 'f) mux_event list \<Rightarrow> string \<Rightarrow> 'f option option" where
  "upView es = fold upApply es (\<lambda>_. None)"

text \<open>A filter that is absent admits everything, a subscription that is absent nothing.\<close>

definition wants :: "('f \<Rightarrow> 'm \<Rightarrow> bool) \<Rightarrow> 'f option \<Rightarrow> 'm \<Rightarrow> bool" where
  "wants filterMatch f msg = (case f of None \<Rightarrow> True | Some f' \<Rightarrow> filterMatch f' msg)"

definition admits :: "('f \<Rightarrow> 'm \<Rightarrow> bool) \<Rightarrow> 'f option option \<Rightarrow> 'm \<Rightarrow> bool" where
  "admits filterMatch v msg = (case v of None \<Rightarrow> False | Some f \<Rightarrow> wants filterMatch f msg)"


lemma composeFilter_wants:
  assumes "\<And>fs msg. filterMatch (orOf fs) msg \<longleftrightarrow> (\<exists>f \<in> set fs. filterMatch f msg)"
  shows "qs \<noteq> [] \<or> fs \<noteq> [] \<Longrightarrow>
    wants filterMatch (composeFilter orOf qs fs) msg \<longleftrightarrow> (\<exists>f \<in> set fs. filterMatch f msg) \<or> (\<exists>q \<in> set qs. wants filterMatch q msg)"
proof (induction qs arbitrary: fs)
  case Nil
  then show ?case
    by (auto simp: wants_def assms split: list.split)
next
  case (Cons q qs)
  then show ?case
    by (cases q) (auto simp: wants_def)
qed

section \<open>What the operations do to it\<close>

type_synonym 'f observed = "(string \<Rightarrow> 'f SubscriptionInfo list) \<times> bool \<times> (string \<Rightarrow> 'f option option)"

definition obs :: "('m, 'f, 'p) mux \<Rightarrow> 'f observed" where
  "obs m = ((\<lambda>p. subscriptionsTo p m), mux_isConnected m, upView (mux_log m))"

definition composed :: "('f list \<Rightarrow> 'f) \<Rightarrow> 'f SubscriptionInfo list \<Rightarrow> 'f option option" where
  "composed orOf q = (if q = [] then None else Some (composeFilter orOf (map si_qfRef (rev q)) []))"

fun covers :: "('f list \<Rightarrow> 'f) \<Rightarrow> 'f observed \<Rightarrow> bool" where
  "covers orOf (subs, conn, view) \<longleftrightarrow>
     (\<forall>p. subs p = [] \<longrightarrow> view p = None) \<and> (conn \<longrightarrow> (\<forall>p. view p = composed orOf (subs p)))"

abbreviation accepting :: "('m, 'f) upstream" where
  "accepting \<equiv> (\<lambda>_ _. B_NO_ERROR)"

lemma upView_snoc: "upView (es @ [e]) = upApply e (upView es)"
  by (simp add: upView_def)

lemma obs_emit: "(\<And>v. upApply e v = v) \<Longrightarrow> obs (emit e m) = obs m"
  by (simp add: obs_def emit_def upView_snoc subscriptionsTo_def)

lemma obs_emits [simp]:
  "obs (emit (ToSubscriber s cb) m) = obs m" "obs (emit UpBeginCommandBatch m) = obs m" "obs (emit UpEndCommandBatch m) = obs m"
  by (rule obs_emit; simp)+

lemma obs_same:
  "subscribedStrings m' = subscribedStrings m \<Longrightarrow> mux_isConnected m' = mux_isConnected m \<Longrightarrow> mux_log m' = mux_log m \<Longrightarrow> obs m' = obs m"
  by (simp add: obs_def subscriptionsTo_def)

lemma obs_setInfo [simp]: "obs (setInfo s i m) = obs m"
  by (rule obs_same) (simp_all add: setInfo_def)

lemma obs_setRequests [simp]: "obs (setRequests s q m) = obs m"
  by (rule obs_same) (simp_all add: setRequests_def)

lemma obs_counters [simp]:
  "obs (m\<lparr> needsCallbackBatchEndsCall := n \<rparr>) = obs m" "obs (m\<lparr> subscriberBatch := b \<rparr>) = obs m"
  "obs (m\<lparr> commandBatchCounter := c \<rparr>) = obs m" "obs (m\<lparr> callbackBatchCounter := c \<rparr>) = obs m" "obs (m\<lparr> allowedCallbacks := n \<rparr>) = obs m"
  by (rule obs_same; simp)+

lemma obs_requestedSubtrees [simp]: "obs (m\<lparr> requestedSubtrees := r \<rparr>) = obs m"
  by (rule obs_same) simp_all

lemma obs_counters2 [simp]:
  "obs (m\<lparr> needsCallbackBatchEndsCall := n, subscriberBatch := b \<rparr>) = obs m"
  "obs (m\<lparr> needsCallbackBatchEndsCall := n, subscriberBatch := b, commandBatchCounter := c \<rparr>) = obs m"
  "obs (m\<lparr> subscriberBatch := b, commandBatchCounter := c \<rparr>) = obs m"
  by (rule obs_same; simp)+

lemma obs_Ensure [simp]: "obs (EnsureSubscriberInBatchGroup s m) = obs m"
  by (simp add: EnsureSubscriberInBatchGroup_def sub_BeginCallbackBatch_def mux_BeginCommandBatch_def Let_def)

lemma obs_fold: "(\<And>x m'. obs (f x m') = obs m') \<Longrightarrow> obs (fold f xs m) = obs m"
  by (induction xs arbitrary: m) simp_all

lemma obs_UpdateSubscriber [simp]: "obs (UpdateSubscriber s p msg tag m) = obs m"
  by (simp add: UpdateSubscriber_def Let_def split: option.split)

lemma obs_TreeNodeUpdated [simp]: "obs (mux_TreeNodeUpdated L p msg tag m) = obs m"
proof -
  have "obs (TreeNodeUpdatedAux L p msg t d m) = obs m" for t d
    unfolding TreeNodeUpdatedAux_def by (rule obs_fold) simp
  then show ?thesis
    by (simp add: mux_TreeNodeUpdated_def split: prod.split)
qed

lemma obs_DoIndexNotifications [simp]: "obs (DoIndexNotifications L p cb m) = obs m"
  unfolding DoIndexNotifications_def by (rule obs_fold) simp

lemma obs_toRequester [simp]: "obs (toRequester tag cb m) = obs m"
  by (simp add: toRequester_def split: prod.split option.split)

lemma obs_TreeLocalPeerPonged [simp]: "obs (mux_TreeLocalPeerPonged L tag m) = obs m"
  by (simp add: mux_TreeLocalPeerPonged_def)

lemma obs_MessageReceived [simp]: "obs (mux_MessageReceivedFromSubscriber L p payload r m) = obs m"
  unfolding mux_MessageReceivedFromSubscriber_def Let_def
  by (auto intro!: obs_fold split: option.split)

lemma obs_deliver [simp]: "obs (deliverResult L s suffix isValues d m) = obs m"
proof (cases d)
  case (Some d')
  have "obs (fold (\<lambda>(path, payload). emit (ToSubscriber s (TreeNodeUpdated path (Some payload) suffix))) (msg_nodeValues L d')
      (EnsureSubscriberInBatchGroup s m)) = obs m"
    using obs_fold [of "\<lambda>(path, payload). emit (ToSubscriber s (TreeNodeUpdated path (Some payload) suffix))" "msg_nodeValues L d'"
      "EnsureSubscriberInBatchGroup s m"] by (simp add: case_prod_unfold)
  then show ?thesis
    using Some by (simp add: deliverResult_def)
qed (simp add: deliverResult_def)

lemma obs_SubtreesRequestResult [simp]: "obs (mux_SubtreesRequestResultReturned L tag d m) = obs m"
proof -
  obtain s suffix isValues q where "mux_SubtreesRequestResultReturned L tag d m = m \<or>
     suffix \<in> set (requestsOf s m) \<and> q = remove1 suffix (requestsOf s m) \<and>
     mux_SubtreesRequestResultReturned L tag d m = setRequests s q (deliverResult L s suffix isValues d m)"
    using SubtreesRequestResult_cases [of L tag d m] by blast
  then show ?thesis
    by auto
qed

lemma obs_batches [simp]: "obs (mux_BeginCommandBatch m) = obs m" "obs (mux_EndCommandBatch m) = obs m"
  by (simp_all add: mux_BeginCommandBatch_def mux_EndCommandBatch_def Let_def)

lemma obs_EndBatch [simp]: "obs (sub_EndCallbackBatch s m) = obs m"
  by (simp add: sub_EndCallbackBatch_def Let_def)

lemma obs_callback_batches [simp]: "obs (mux_BeginCallbackBatch m) = obs m" "obs (mux_EndCallbackBatch m) = obs m"
proof -
  have "obs (mux_CallbackBatchEnds m) = obs m"
    unfolding mux_CallbackBatchEnds_def by (simp add: obs_fold)
  then show "obs (mux_BeginCallbackBatch m) = obs m" "obs (mux_EndCallbackBatch m) = obs m"
    by (simp_all add: mux_BeginCallbackBatch_def mux_EndCallbackBatch_def Let_def)
qed

lemma obs_leave [simp]: "obs (IGateway_UnregisterSubscriber s (takenOut s' m)) = obs m"
  by (rule obs_same) (simp_all add: gatewayUnregister_fields takenOut_fields)

lemma obs_Register [simp]: "obs (attachSubscriber s m) = obs m"
  by (rule obs_same) (simp_all add: attachSubscriber_def mux_RegisterSubscriber_def setInfo_def IGateway_RegisterSubscriber_def Let_def)

lemma obs_toAll [simp]: "obs (toAll cb m) = obs m"
  unfolding toAll_def by (rule obs_fold) (simp add: case_prod_unfold)

lemma obs_addedInfo [simp]: "obs (addedInfo L s m) = obs m"
  by (simp add: addedInfo_def Let_def)

lemma obs_clearInfoIfEmpty [simp]: "obs (clearInfoIfEmpty L s m) = obs m"
  by (simp add: clearInfoIfEmpty_def split: option.split)

lemma obs_dropPath [simp]: "obs (dropPath L s p m) = obs m"
  by (simp add: dropPath_def Let_def split: option.split)

section \<open>Subscriptions as the gateway above sees them\<close>

lemma upCall_accepting: "upCall accepting c m = (B_NO_ERROR, emit (UpCall c B_NO_ERROR) m)"
  by (simp add: upCall_def Let_def)

lemma obs_emit_log: "obs (emit e m) = (fst (obs m), fst (snd (obs m)), upApply e (snd (snd (obs m))))"
  by (simp add: obs_def emit_def upView_snoc subscriptionsTo_def)

lemma UpdateSubscription_accepting:
  "fst (UpdateSubscription accepting L p s f m) = B_NO_ERROR"
  "obs (snd (UpdateSubscription accepting L p s f m)) =
     (fst (obs m), fst (snd (obs m)), (snd (snd (obs m)))(p := composed (qf_Or L) (subscriptionsTo p m)))"
  by (simp_all add: UpdateSubscription_def Let_def upCall_accepting obs_emit_log composed_def)

lemma obs_setSubscriptions: "obs (setSubscriptions p q m) = ((fst (obs m))(p := q), snd (obs m))"
  by (simp add: obs_def setSubscriptions_def subscriptionsTo_def tabGet_tabPut fun_eq_iff)

lemma obs_dropIfEmpty [simp]: "obs (dropIfEmpty p m) = obs m"
  by (auto simp: obs_def dropIfEmpty_def subscriptionsTo_def tabGet_tabRemove fun_eq_iff)

lemma obs_subs: "fst (obs m) p = subscriptionsTo p m"
  by (simp add: obs_def)

lemma covers_RemoveSubscription:
  assumes "covers (qf_Or L) (obs m)"
  shows "covers (qf_Or L) (obs (snd (mux_RemoveSubscription accepting L s p f fl m)))"
proof -
  obtain q q' where *: "snd (mux_RemoveSubscription accepting L s p f fl m) = m \<or>
     snd (mux_RemoveSubscription accepting L s p f fl m) = dropPath L s (WithoutPrefixSlash p)
       (dropIfEmpty p (snd (UpdateSubscription accepting L p (Some s) 0 (setSubscriptions p (remove1 q' q) m))))"
    using RemoveSubscription_cases [of accepting L s p f fl m] by blast
  let ?m = "setSubscriptions p (remove1 q' q) m"
  have sub: "subscriptionsTo p ?m = remove1 q' q"
    using obs_subs [of ?m p] by (simp add: obs_setSubscriptions)
  obtain subs conn view where o: "obs m = (subs, conn, view)"
    by (cases "obs m")
  have "covers (qf_Or L) (subs(p := q0), conn, view(p := composed (qf_Or L) q0))" for q0
    using assms unfolding o by (simp add: composed_def)
  then show ?thesis
    using * assms by (auto simp: UpdateSubscription_accepting obs_setSubscriptions sub o)
qed

lemma covers_removeEach:
  "covers (qf_Or L) (obs m) \<Longrightarrow> covers (qf_Or L) (obs (snd (removeEach accepting L s es ret m)))"
proof (induction es arbitrary: m ret)
  case (Cons e es)
  obtain p f where e: "e = (p, f)"
    by (cases e)
  show ?case
    using Cons.IH covers_RemoveSubscription [OF Cons.prems, of s p f 0] by (simp add: e case_prod_unfold Let_def)
qed simp

lemma covers_RemoveAll:
  assumes "covers (qf_Or L) (obs m)"
  shows "covers (qf_Or L) (obs (snd (mux_RemoveAllSubscriptions accepting L s m)))"
proof -
  obtain es ret where r: "snd (mux_RemoveAllSubscriptions accepting L s m) =
      mux_EndCommandBatch (snd (removeEach accepting L s es ret (mux_BeginCommandBatch m)))"
    using RemoveAll_cases by blast
  show ?thesis
    unfolding r using covers_removeEach [of L "mux_BeginCommandBatch m"] assms by simp
qed

lemma subs_cong: "obs m' = obs m \<Longrightarrow> subscriptionsTo p m' = subscriptionsTo p m"
  by (metis obs_subs)

lemma obs_undoAdd: "obs (undoAdd L s p m) = ((fst (obs m))(p := butlast (subscriptionsTo p m)), snd (obs m))"
  using subs_cong [of "clearInfoIfEmpty L s (setInfo s _ m)" m p] by (simp add: undoAdd_def Let_def obs_setSubscriptions)

lemma covers_AddSubscription:
  assumes "covers (qf_Or L) (obs m)"
  shows "covers (qf_Or L) (obs (snd (mux_AddSubscription accepting L s p f fl m)))"
proof (cases "tabHas fst s (subscriberInfos m)")
  case True
  let ?si = "\<lparr> si_sub = s, si_qfRef = f, si_flags = fl \<rparr>"
  let ?m1 = "setSubscriptions p (subscriptionsTo p m @ [?si]) m"
  define m2 where "m2 = addedInfo L s ?m1"
  define info where "info = the (infoOf s m2)"
  obtain ret1 pm where put: "pm_PutPathString L (WithoutPrefixSlash p) f (tsi_matcher info) = (ret1, pm)"
    by (cases "pm_PutPathString L (WithoutPrefixSlash p) f (tsi_matcher info)") simp
  define m3 where "m3 = setInfo s (Some (info\<lparr> tsi_matcher := pm \<rparr>)) m2"
  obtain subs conn view where o: "obs m = (subs, conn, view)"
    by (cases "obs m")
  have o3: "obs m3 = (subs(p := subs p @ [?si]), conn, view)"
    using obs_subs [of m p] by (simp add: m3_def m2_def obs_setSubscriptions o)
  have sub3: "subscriptionsTo p m3 = subs p @ [?si]" and conn3: "mux_isConnected m3 = conn"
    using obs_subs [of m3 p] o3 by (simp, simp add: obs_def)
  consider "IsError ret1" | "IsOK ret1" "conn" | "IsOK ret1" "\<not> conn"
    by blast
  then show ?thesis
  proof cases
    case 1
    then have "snd (mux_AddSubscription accepting L s p f fl m) = undoAdd L s p m3"
      using True unfolding AddSubscription_alt Let_def m2_def [symmetric] info_def [symmetric] put prod.case m3_def [symmetric]
      by (simp del: not_None_eq)
    then show ?thesis
      using assms sub3 o3 by (simp add: obs_undoAdd o)
  next
    case 2
    then have "snd (mux_AddSubscription accepting L s p f fl m) = snd (UpdateSubscription accepting L p (Some s) fl m3)"
      using True conn3 UpdateSubscription_accepting(1) [of L p "Some s" fl m3]
      unfolding AddSubscription_alt Let_def m2_def [symmetric] info_def [symmetric] put prod.case m3_def [symmetric]
      by (simp add: case_prod_unfold del: not_None_eq)
    then show ?thesis
      using assms sub3 o3 by (simp add: UpdateSubscription_accepting o composed_def)
  next
    case 3
    then have "snd (mux_AddSubscription accepting L s p f fl m) = m3"
      using True conn3 unfolding AddSubscription_alt Let_def m2_def [symmetric] info_def [symmetric] put prod.case m3_def [symmetric]
      by (simp del: not_None_eq)
    then show ?thesis
      using assms 3 o3 by (simp add: o)
  qed
qed (simp add: mux_AddSubscription_def assms)

definition otherCall :: "('m, 'f) subscriber_call \<Rightarrow> bool" where
  "otherCall c \<longleftrightarrow> (case c of AddTreeSubscription _ _ _ \<Rightarrow> False | RemoveTreeSubscription _ _ _ \<Rightarrow> False
     | RemoveAllTreeSubscriptions _ \<Rightarrow> False | _ \<Rightarrow> True)"

lemma obs_upCall: "otherCall c \<Longrightarrow> obs (snd (upCall U c m)) = obs m"
  by (cases c) (simp_all add: otherCall_def upCall_log obs_emit_log)

lemma obs_RequestAux [simp]: "obs (snd (mux_RequestNodeSubtreesAux U s qs fs tag d fl c m)) = obs m"
  by (simp add: mux_RequestNodeSubtreesAux_def Let_def case_prod_unfold obs_upCall otherCall_def)

lemma covers_call:
  assumes "covers (qf_Or L) (obs m)"
  shows "covers (qf_Or L) (obs (snd (mux_call accepting L s c m)))"
  using assms covers_AddSubscription [OF assms] covers_RemoveSubscription [OF assms] covers_RemoveAll [OF assms]
  by (cases c) (simp_all add: mux_UploadNodeValue_def whenConnected_def obs_upCall otherCall_def)

lemma covers_detach:
  assumes "covers (qf_Or L) (obs m)" "muxOK L m"
  shows "covers (qf_Or L) (obs (detachSubscriber accepting L s m))"
proof (cases "tabHas fst s (registeredSubscribers m)")
  case True
  then have s: "s \<in> keysOf m"
    using tabHas_keysOf by blast
  let ?m = "(sub_EndCallbackBatch s ^^ subscriberBatch m s) m"
  have "tabHas fst s (subscriberInfos ?m)"
    using leaving_closed [OF assms(2) s] s infosOK_has [of L "{}" ?m s] unfolding leaving_def by blast
  then have d: "detachSubscriber accepting L s m = IGateway_UnregisterSubscriber s (takenOut s (snd (mux_RemoveAllSubscriptions accepting L s ?m)))"
    using True by (simp add: detachSubscriber_def mux_UnregisterSubscriber_def takenOut_def Let_def del: not_None_eq)
  have "obs ((sub_EndCallbackBatch s ^^ n) m) = obs m" for n
    by (induction n) simp_all
  then show ?thesis
    unfolding d using covers_RemoveAll [of L ?m s] assms(1) by simp
qed (use assms in \<open>simp add: detachSubscriber_def\<close>)

lemma covers_detach_all:
  assumes f: "\<And>s m'. f s m' = detachSubscriber accepting L s (emit (ToSubscriber s TreeGatewayShuttingDown) m')"
  shows "muxOK L m \<Longrightarrow> distinct ss \<Longrightarrow> set ss \<subseteq> keysOf m \<Longrightarrow> covers (qf_Or L) (obs m) \<Longrightarrow> covers (qf_Or L) (obs (fold f ss m))"
proof (induction ss arbitrary: m)
  case (Cons s ss)
  let ?e = "emit (ToSubscriber s TreeGatewayShuttingDown) m"
  have "muxOK L ?e"
    using goodD [OF Cons.prems(1) good_callback, of s] Cons.prems(3) by simp
  then have "muxOK L (f s m)" "keysOf (f s m) = keysOf m - {s}" "covers (qf_Or L) (obs (f s m))"
    using detach_result [of L ?e accepting s] covers_detach [of L ?e s] Cons.prems(4) unfolding f by simp_all
  then show ?case
    using Cons.IH [of "f s m"] Cons.prems by auto
qed simp

lemma covers_ShuttingDown:
  assumes "muxOK L m" "covers (qf_Or L) (obs m)"
  shows "covers (qf_Or L) (obs (mux_TreeGatewayShuttingDown accepting L m))"
proof -
  have "set (map fst (registeredSubscribers m)) \<subseteq> keysOf m"
    using registered_distinct [OF assms(1)] by blast
  then show ?thesis
    unfolding mux_TreeGatewayShuttingDown_def
    using registered_distinct [OF assms(1)] by (intro covers_detach_all [OF refl assms(1) _ _ assms(2)]) blast+
qed

lemma covers_Shutdown:
  assumes "muxOK L m"
  shows "covers (qf_Or L) (obs (mux_ShutdownGateway accepting L m))"
proof -
  let ?m1 = "emit UpShutdownGateway (mux_TreeGatewayShuttingDown accepting L m)"
  have "registeredSubscribers ?m1 = []"
    using ShuttingDown_result [OF assms, of accepting] by (simp add: keysOf_def emit_def)
  then have "mux_ShutdownGateway accepting L m = ?m1\<lparr> subscriberInfos := [], needsCallbackBatchEndsCall := [], subscribedStrings := [], requestedSubtrees := [] \<rparr>"
    by (simp add: mux_ShutdownGateway_def Let_def)
  then show ?thesis
    by (simp add: obs_def subscriptionsTo_def emit_def upView_snoc composed_def)
qed

text \<open>Connecting: every path is asked for again.\<close>

lemma resubscribe_result:
  fixes subs :: "(string \<times> 'f SubscriptionInfo list) list"
  shows "obs (fold (\<lambda>(p, q) m'. snd (UpdateSubscription accepting L p None (flags q) m')) subs m) =
    (fst (obs m), fst (snd (obs m)), \<lambda>p. if p \<in> fst ` set subs then composed (qf_Or L) (fst (obs m) p) else snd (snd (obs m)) p)"
proof (induction subs arbitrary: m)
  case (Cons e subs)
  obtain p q where e: "e = (p, q)"
    by (cases e)
  show ?case
    using Cons.IH [of "snd (UpdateSubscription accepting L p None (flags q) m)"]
    by (auto simp: e UpdateSubscription_accepting obs_subs fun_eq_iff)
qed simp

lemma covers_Connection:
  assumes "covers (qf_Or L) (obs m)"
  shows "covers (qf_Or L) (obs (mux_TreeGatewayConnectionStateChanged accepting L up m))"
proof (cases "up = mux_isConnected m")
  case new: False
  obtain subs conn view where o: "obs m = (subs, conn, view)"
    by (cases "obs m")
  have conn: "obs (m\<lparr> mux_isConnected := b \<rparr>) = (subs, b, view)" for b
    using o by (simp add: obs_def subscriptionsTo_def)
  show ?thesis
  proof (cases up)
    case True
    have "p \<notin> fst ` set (subscribedStrings m) \<Longrightarrow> subs p = []" for p
      using obs_subs [of m p] tabGet_eq_None [of fst p "subscribedStrings m"] by (simp add: o subscriptionsTo_def)
    then show ?thesis
      using new True assms unfolding mux_TreeGatewayConnectionStateChanged_def Let_def
      by (simp add: resubscribe_result conn o composed_def)
  next
    case False
    then show ?thesis
      using new False unfolding mux_TreeGatewayConnectionStateChanged_def Let_def
      by (simp add: upCall_accepting obs_emit_log conn)
  qed
qed (use assms in \<open>simp add: mux_TreeGatewayConnectionStateChanged_def\<close>)

lemma covers_callback:
  assumes "muxOK L m" "covers (qf_Or L) (obs m)"
  shows "covers (qf_Or L) (obs (mux_callback accepting L cb m))"
  using assms covers_ShuttingDown [OF assms] covers_Connection [OF assms(2), of "mux_isConnected m"] by (cases cb) simp_all

lemma covers_step:
  assumes "muxOK L m" "covers (qf_Or L) (obs m)"
  shows "covers (qf_Or L) (obs (mux_step accepting L i m))"
  using assms covers_detach [OF assms(2,1)] covers_call [OF assms(2)] covers_callback [OF assms] covers_Connection [OF assms(2)]
    covers_Shutdown [OF assms(1)]
  by (cases i) simp_all

lemma covers_new: "covers orOf (obs (newMuxTreeGateway idPrefix dummy))"
  by (simp add: obs_def newMuxTreeGateway_def registrations.extend_def subscriptionsTo_def upView_def)

lemma covers_reach: "mux_reach accepting L m \<Longrightarrow> matcher_law L \<Longrightarrow> covers (qf_Or L) (obs m)"
proof (induction rule: mux_reach.induct)
  case (mux_start idPrefix dummy)
  show ?case
    by (rule covers_new)
next
  case (mux_next m i)
  show ?case
    by (rule covers_step [OF muxOK_reach [OF mux_next.hyps(1) mux_next.prems] mux_next.IH [OF mux_next.prems]])
qed

lemma reach_admits:
  assumes "mux_reach accepting L m" "matcher_law L" "or_law L filterMatch" "mux_isConnected m"
  shows "admits filterMatch (upView (mux_log m) p) msg \<longleftrightarrow> (\<exists>si \<in> set (subscriptionsTo p m). wants filterMatch (si_qfRef si) msg)"
proof -
  have "upView (mux_log m) p = composed (qf_Or L) (subscriptionsTo p m)"
    using covers_reach [OF assms(1,2)] assms(4) by (simp add: obs_def)
  then show ?thesis
    using composeFilter_wants [of filterMatch "qf_Or L" "map si_qfRef (rev (subscriptionsTo p m))" "[]" msg] assms(3) unfolding or_law_def
    by (auto simp: admits_def composed_def)
qed

end
