(* ===== verification/ZG_MuxRouting.thy ===== *)
theory ZG_MuxRouting
  imports ZG_MuxUpstream
begin

text \<open>
  Who hears what from a \<^verbatim>\<open>MuxTreeGateway\<close>: replies find the subscriber who asked,
  updates go to those whose subscriptions match, and a subscription that fails leaves nothing
  behind for the others.
\<close>

section \<open>Replies\<close>

lemma parse_gone:
  assumes "markerOK c" "tabGet fst s (registeredSubscribers m) = Some (s, r)" "tabGet fst r (registrationIDs m') = None"
  shows "ParseRegistrationIDPrefix c (PrependRegistrationIDPrefix c s tag m) m' = (None, tag)"
  using parse_prepended [OF assms(1,2), of tag m'] assms(3) by simp

lemma parse_there:
  assumes "markerOK c" "tabGet fst s (registeredSubscribers m) = Some (s, r)" "tabGet fst r (registrationIDs m') = Some (r, s)"
  shows "ParseRegistrationIDPrefix c (PrependRegistrationIDPrefix c s tag m) m' = (Some s, tag)"
  using parse_prepended [OF assms(1,2), of tag m'] assms(3) by simp

text \<open>
  The callback that answers a call, when there is one; the other side chooses its payload, and
  may name any database.
\<close>

fun answerTo :: "('m, 'f) gateway_call \<Rightarrow> u32 \<Rightarrow> 'm option \<Rightarrow> (string \<Rightarrow> 'm tree_callback) option" where
  "answerTo (TreeGateway_PingLocalPeer tag fl) db payload = Some TreeLocalPeerPonged"
| "answerTo (TreeGateway_PingSeniorPeer tag whichDB fl) db payload = Some (\<lambda>t. TreeSeniorPeerPonged t db)"
| "answerTo (TreeGateway_SendMessageToSeniorPeer msg whichDB tag) db payload =
     Some (\<lambda>t. MessageReceivedFromTreeSeniorPeer db t payload)"
| "answerTo c db payload = None"

fun tagOf :: "('m, 'f) gateway_call \<Rightarrow> string" where
  "tagOf (TreeGateway_PingLocalPeer tag fl) = tag"
| "tagOf (TreeGateway_PingSeniorPeer tag whichDB fl) = tag"
| "tagOf (TreeGateway_SendMessageToSeniorPeer msg whichDB tag) = tag"
| "tagOf c = ''''"

fun withTag :: "string \<Rightarrow> ('m, 'f) gateway_call \<Rightarrow> ('m, 'f) gateway_call" where
  "withTag t (TreeGateway_PingLocalPeer tag fl) = TreeGateway_PingLocalPeer t fl"
| "withTag t (TreeGateway_PingSeniorPeer tag whichDB fl) = TreeGateway_PingSeniorPeer t whichDB fl"
| "withTag t (TreeGateway_SendMessageToSeniorPeer msg whichDB tag) = TreeGateway_SendMessageToSeniorPeer msg whichDB t"
| "withTag t c = c"

lemma prefixed_not_obss: "StartsWith ''obss:'' (PrependRegistrationIDPrefix (CHR ''_'') s tag m) = False"
  by (simp add: StartsWith_def PrependRegistrationIDPrefix_def GetRegistrationIDPrefix_def)

lemma answered_call:
  assumes "answerTo c db payload = Some reply" "mux_isConnected m"
  shows "mux_call U L s c m = upCall U (proxy_call (withTag (PrependRegistrationIDPrefix (CHR ''_'') s (tagOf c) m) c)) m"
  using assms by (cases c) (simp_all add: whenConnected_def)

lemma answer_routed:
  assumes "answerTo c db payload = Some reply"
  shows "mux_callback U L (reply (PrependRegistrationIDPrefix (CHR ''_'') s tag m)) m' =
    toRequester (PrependRegistrationIDPrefix (CHR ''_'') s tag m) reply m'"
  using assms by (cases c) (auto simp: mux_TreeLocalPeerPonged_def prefixed_not_obss)

section \<open>Registration numbers over time\<close>

text \<open>What a gateway may become.\<close>

inductive mux_later :: "('m, 'f) upstream \<Rightarrow> ('m, 'f, 'p) tree_lib \<Rightarrow> ('m, 'f, 'p) mux \<Rightarrow> ('m, 'f, 'p) mux \<Rightarrow> bool" for U L m where
  later_now: "mux_later U L m m"
| later_step: "mux_later U L m m' \<Longrightarrow> mux_allowed i m' \<Longrightarrow> mux_later U L m (mux_step U L i m')"

lemma reach_later: "mux_later U L m m' \<Longrightarrow> mux_reach U L m \<Longrightarrow> mux_reach U L m'"
  by (induction rule: mux_later.induct) (auto intro: mux_next)

text \<open>A number that is registered now was registered to the same subscriber before, or is new.\<close>

definition numbersKept :: "('m, 'f, 'p) mux \<Rightarrow> ('m, 'f, 'p) mux \<Rightarrow> bool" where
  "numbersKept m m' \<longleftrightarrow> registrationIDCounter m \<le> registrationIDCounter m' \<and>
     (\<forall>r e. tabGet fst r (registrationIDs m') = Some e \<longrightarrow>
        tabGet fst r (registrationIDs m) = Some e \<or> registrationIDCounter m < r)"

lemma numbersKept_refl [simp]: "numbersKept m m"
  by (simp add: numbersKept_def)

lemma numbersKept_trans: "numbersKept m m' \<Longrightarrow> numbersKept m' m'' \<Longrightarrow> numbersKept m m''"
  unfolding numbersKept_def by (meson order_trans le_less_trans)

lemma numbersKept_same:
  "registrationIDs m' = registrationIDs m \<Longrightarrow> registrationIDCounter m' = registrationIDCounter m \<Longrightarrow> numbersKept m m'"
  by (simp add: numbersKept_def)

lemma numbersKept_good: "good L m m' \<Longrightarrow> muxOK L m \<Longrightarrow> numbersKept m m'"
  by (auto simp: good_def steady_def numbersKept_same)

lemma numbersKept_emit: "numbersKept m (emit e m)"
  by (rule numbersKept_same) (simp_all add: emit_def)

lemma numbersKept_fold: "(\<And>x m. numbersKept m (f x m)) \<Longrightarrow> numbersKept m (fold f xs m)"
proof (induction xs arbitrary: m)
  case (Cons x xs)
  show ?case
    using numbersKept_trans [OF Cons.prems Cons.IH [OF Cons.prems]] by simp
qed simp

lemma numbersKept_subsOnly: "subsOnly S m m' \<Longrightarrow> numbersKept m m'"
  by (auto simp: subsOnly_def numbersKept_same)

lemma numbersKept_UpdateSubscription: "numbersKept m (snd (UpdateSubscription U L p s fl m))"
  by (rule numbersKept_subsOnly [OF subsOnly_upcalls [OF upcalls_UpdateSubscription]])

lemma numbersKept_EndBatch: "numbersKept m (sub_EndCallbackBatch s m)"
  by (rule numbersKept_same) (simp_all add: sub_EndCallbackBatch_def mux_EndCommandBatch_def emit_def Let_def)

lemma numbersKept_RemoveSubscription:
  fixes m :: "('m, 'f, 'p) mux"
  shows "numbersKept m (snd (mux_RemoveSubscription U L s p f fl m))"
proof -
  have drop: "numbersKept m (dropIfEmpty p m)" "numbersKept m (dropPath L s p m)" for m :: "('m, 'f, 'p) mux" and p
    by (rule numbersKept_same; simp add: dropIfEmpty_def dropPath_def clearInfoIfEmpty_def setInfo_def Let_def split: option.split)+
  have set: "numbersKept m (setSubscriptions p q m)" for m :: "('m, 'f, 'p) mux" and q
    by (rule numbersKept_same) (simp_all add: setSubscriptions_def)
  show ?thesis
    unfolding mux_RemoveSubscription_def Let_def
    by (auto split: option.split intro!: numbersKept_trans [OF _ drop(2)] numbersKept_trans [OF _ drop(1)]
        numbersKept_trans [OF set numbersKept_UpdateSubscription])
qed

lemma numbersKept_removeEach: "numbersKept m (snd (removeEach U L s es ret m))"
proof (induction es arbitrary: m ret)
  case (Cons e es)
  obtain p f where e: "e = (p, f)"
    by (cases e)
  obtain st m1 where r: "mux_RemoveSubscription U L s p f 0 m = (st, m1)"
    by (metis surj_pair)
  have "numbersKept m m1"
    using numbersKept_RemoveSubscription [of m U L s p f 0] r by simp
  then show ?case
    using numbersKept_trans [OF _ Cons.IH] by (simp add: e r)
qed simp

lemma numbersKept_detach:
  fixes m :: "('m, 'f, 'p) mux"
  shows "numbersKept m (detachSubscriber U L s m)"
proof -
  have close: "numbersKept m ((sub_EndCallbackBatch s ^^ n) m)" for n
    by (induction n) (simp_all add: numbersKept_trans [OF _ numbersKept_EndBatch])
  have ends: "numbersKept m (mux_BeginCommandBatch m)" "numbersKept m (mux_EndCommandBatch m)" for m :: "('m, 'f, 'p) mux"
    by (rule numbersKept_same; simp add: mux_BeginCommandBatch_def mux_EndCommandBatch_def emit_def Let_def)+
  have all: "numbersKept m (snd (mux_RemoveAllSubscriptions U L s m))" for m :: "('m, 'f, 'p) mux"
  proof -
    obtain es ret where "snd (mux_RemoveAllSubscriptions U L s m) =
        mux_EndCommandBatch (snd (removeEach U L s es ret (mux_BeginCommandBatch m)))"
      using RemoveAll_cases by blast
    then show ?thesis
      using numbersKept_trans [OF numbersKept_trans [OF ends(1) numbersKept_removeEach] ends(2)] by metis
  qed
  have gone: "numbersKept m (IGateway_UnregisterSubscriber s m)" for m :: "('m, 'f, 'p) mux"
    by (auto simp: numbersKept_def IGateway_UnregisterSubscriber_def tabGet_tabRemove split: option.splits if_splits)
  have out: "numbersKept m (takenOut s m)" for m :: "('m, 'f, 'p) mux"
    by (rule numbersKept_same) (simp_all add: takenOut_fields)
  have "numbersKept m (mux_UnregisterSubscriber U L s m)" for m :: "('m, 'f, 'p) mux"
  proof (cases "tabHas fst s (subscriberInfos m)")
    case True
    then have "mux_UnregisterSubscriber U L s m =
        IGateway_UnregisterSubscriber s (takenOut s (snd (mux_RemoveAllSubscriptions U L s m)))"
      by (simp add: mux_UnregisterSubscriber_def takenOut_def Let_def del: not_None_eq)
    then show ?thesis
      using numbersKept_trans [OF numbersKept_trans [OF all out] gone] by metis
  next
    case False
    then show ?thesis
      using gone by (simp add: mux_UnregisterSubscriber_def del: not_None_eq)
  qed
  then show ?thesis
    using numbersKept_trans [OF close, of "subscriberBatch m s"] by (simp add: detachSubscriber_def)
qed

lemma numbersKept_Register: "registrationIDCounter m \<noteq> - 1 \<Longrightarrow> numbersKept m (attachSubscriber s m)"
proof -
  assume "registrationIDCounter m \<noteq> - 1"
  then have "registrationIDCounter m < registrationIDCounter m + 1"
    by (rule word_less_Suc)
  then show ?thesis
    by (auto simp: numbersKept_def attachSubscriber_def mux_RegisterSubscriber_def setInfo_def IGateway_RegisterSubscriber_def
        Let_def tabGet_tabPut split: if_splits)
qed

lemma numbersKept_Connection:
  fixes m :: "('m, 'f, 'p) mux"
  shows "numbersKept m (mux_TreeGatewayConnectionStateChanged U L up m)"
proof (cases "up = mux_isConnected m")
  case False
  have conn: "numbersKept m (emit UpBeginCommandBatch (m\<lparr> mux_isConnected := up \<rparr>))"
    by (rule numbersKept_same) (simp_all add: emit_def)
  have subs: "numbersKept m (fold (\<lambda>(p, q) m'. snd (UpdateSubscription U L p None (fl q) m')) xs m)" for m :: "('m, 'f, 'p) mux" and fl xs
    by (rule numbersKept_fold) (auto intro: numbersKept_UpdateSubscription)
  have lost: "numbersKept m ((snd (upCall U (RemoveAllTreeSubscriptions 0) m))\<lparr> requestedSubtrees := [] \<rparr>)" for m :: "('m, 'f, 'p) mux"
    by (rule numbersKept_same) (simp_all add: upCall_log emit_def)
  have all: "numbersKept m (emit UpEndCommandBatch (toAll cb m))" for m :: "('m, 'f, 'p) mux" and cb
    unfolding toAll_def by (rule numbersKept_trans [OF numbersKept_fold numbersKept_emit]) (auto intro: numbersKept_emit)
  show ?thesis
    using False numbersKept_trans [OF numbersKept_trans [OF conn subs] all] numbersKept_trans [OF numbersKept_trans [OF conn lost] all]
    by (cases up) (simp_all add: mux_TreeGatewayConnectionStateChanged_def)
qed (simp add: mux_TreeGatewayConnectionStateChanged_def)

lemma numbersKept_ShuttingDown: "numbersKept m (mux_TreeGatewayShuttingDown U L m)"
  unfolding mux_TreeGatewayShuttingDown_def
  by (rule numbersKept_fold) (rule numbersKept_trans [OF numbersKept_emit numbersKept_detach])

lemma numbersKept_Shutdown: "numbersKept m (mux_ShutdownGateway U L m)"
proof -
  have "numbersKept m (fold (detachSubscriber U L) xs (emit UpShutdownGateway (mux_TreeGatewayShuttingDown U L m)))" for xs
    by (rule numbersKept_trans [OF numbersKept_trans [OF numbersKept_ShuttingDown numbersKept_emit] numbersKept_fold])
      (rule numbersKept_detach)
  then show ?thesis
    by (simp add: mux_ShutdownGateway_def Let_def numbersKept_def)
qed

lemma numbersKept_callback:
  assumes "muxOK L m"
  shows "numbersKept m (mux_callback U L cb m)"
proof (cases cb)
  case CallbackBatchBegins
  then show ?thesis
    by (simp add: mux_BeginCallbackBatch_def Let_def emit_def numbersKept_def)
next
  case CallbackBatchEnds
  obtain es where "mux_CallbackBatchEnds m =
      m\<lparr> subscriberBatch := (\<lambda>_. 0), commandBatchCounter := 0, needsCallbackBatchEndsCall := [], mux_log := mux_log m @ es \<rparr>"
    using CallbackBatchEnds_result [OF assms] .
  then show ?thesis
    using CallbackBatchEnds by (simp add: mux_EndCallbackBatch_def Let_def emit_def numbersKept_def)
qed (simp_all add: numbersKept_good [OF _ assms] good_TreeNodeUpdated good_DoIndexNotifications good_TreeLocalPeerPonged good_toRequester
    good_MessageReceivedFromSubscriber good_SubtreesRequestResultReturned numbersKept_Connection numbersKept_ShuttingDown)

lemma numbersKept_step:
  assumes "matcher_law L" "muxOK L m" "mux_allowed i m"
  shows "numbersKept m (mux_step U L i m)"
proof (cases i)
  case (Attach s)
  then show ?thesis
    using assms(3) numbersKept_Register [of m s] by (simp add: mux_allowed_def)
next
  case (Calls s c)
  then show ?thesis
    using assms tabHas_keysOf [of s m] numbersKept_good [OF good_call [OF assms(1)] assms(2), of s U c]
    by (simp add: mux_allowed_def del: not_None_eq)
qed (simp_all add: numbersKept_detach numbersKept_callback [OF assms(2)] numbersKept_Connection numbersKept_Shutdown)

lemma numbersKept_later:
  "mux_later U L m m' \<Longrightarrow> mux_reach U L m \<Longrightarrow> matcher_law L \<Longrightarrow> numbersKept m m'"
proof (induction rule: mux_later.induct)
  case (later_step m' i)
  have "muxOK L m'"
    by (rule muxOK_reach [OF reach_later [OF later_step.hyps(1) later_step.prems(1)] later_step.prems(2)])
  then have "numbersKept m' (mux_step U L i m')"
    by (rule numbersKept_step [OF later_step.prems(2) _ later_step.hyps(2)])
  then show ?case
    using later_step.IH [OF later_step.prems] numbersKept_trans by blast
qed simp

text \<open>So a number stands for the subscriber it was given to, or for nobody.\<close>

lemma number_later:
  assumes "mux_later U L m m'" "mux_reach U L m" "matcher_law L" "tabGet fst s (registeredSubscribers m) = Some (s, r)"
  shows "tabGet fst r (registrationIDs m') =
    (if tabGet fst s (registeredSubscribers m') = Some (s, r) then Some (r, s) else None)"
proof -
  have ok: "registrationsOK m" "registrationsOK m'"
    using muxOK_registrations muxOK_reach assms(1-3) reach_later by blast+
  have r: "tabGet fst r (registrationIDs m) = Some (r, s)"
    by (rule registered_both [OF ok(1) assms(4)])
  then have le: "\<not> registrationIDCounter m < r"
    using ok(1) by (auto simp: registrationsOK_def not_less dest!: tabGet_SomeD)
  have kept: "tabGet fst r (registrationIDs m') = Some e \<Longrightarrow> e = (r, s)" for e
    using numbersKept_later [OF assms(1-3)] r le unfolding numbersKept_def by (metis option.inject)
  show ?thesis
  proof (cases "tabGet fst r (registrationIDs m')")
    case None
    then show ?thesis
      using registered_both [OF ok(2), of s r] by auto
  next
    case (Some e)
    then have "tabGet fst r (registrationIDs m') = Some (r, s)"
      using kept by blast
    moreover from this have "tabGet fst s (registeredSubscribers m') = Some (s, r)"
      using ok(2) by (simp add: registrationsOK_def)
    ultimately show ?thesis
      by simp
  qed
qed

section \<open>Node updates\<close>

text \<open>What one subscriber is told of a node.\<close>

definition toldOf ::
  "('m, 'f, 'p) tree_lib \<Rightarrow> string \<Rightarrow> 'm option \<Rightarrow> string \<Rightarrow> subscriber option \<Rightarrow> ('m, 'f, 'p) mux \<Rightarrow> subscriber \<Rightarrow>
   (subscriber \<times> 'm tree_callback) list" where
  "toldOf L path msg tag dont m s =
     (case infoOf s m of
        None \<Rightarrow> []
      | Some info \<Rightarrow>
          (if dont = Some s then []
           else if msg \<noteq> None \<and> (allowedCallbacks m = [] \<or> s \<in> set (allowedCallbacks m)) \<and> pm_MatchesPath L (tsi_matcher info) path msg
           then [(s, TreeNodeUpdated path msg tag)]
           else if tabHas fst path (tsi_receivedPaths info) then [(s, TreeNodeUpdated path None tag)] else []))"

fun nodeUpdate :: "('m, 'f) mux_event \<Rightarrow> (subscriber \<times> 'm tree_callback) option" where
  "nodeUpdate (ToSubscriber s (TreeNodeUpdated path msg tag)) = Some (s, TreeNodeUpdated path msg tag)"
| "nodeUpdate _ = None"

definition nodeUpdates :: "('m, 'f) mux_event list \<Rightarrow> (subscriber \<times> 'm tree_callback) list" where
  "nodeUpdates es = List.map_filter nodeUpdate es"

lemma nodeUpdates_append [simp]: "nodeUpdates (es @ es') = nodeUpdates es @ nodeUpdates es'"
  by (simp add: nodeUpdates_def map_filter_def)

lemma nodeUpdates_emit: "nodeUpdates (mux_log (emit e m)) = nodeUpdates (mux_log m) @ (case nodeUpdate e of None \<Rightarrow> [] | Some u \<Rightarrow> [u])"
  by (simp add: emit_def nodeUpdates_def map_filter_def split: option.split)

lemma nodeUpdates_emits [simp]:
  "nodeUpdates (mux_log (emit UpBeginCommandBatch m)) = nodeUpdates (mux_log m)"
  "nodeUpdates (mux_log (emit (ToSubscriber s CallbackBatchBegins) m)) = nodeUpdates (mux_log m)"
  "nodeUpdates (mux_log (emit (ToSubscriber s (TreeNodeUpdated path msg tag)) m)) =
     nodeUpdates (mux_log m) @ [(s, TreeNodeUpdated path msg tag)]"
  by (simp_all add: nodeUpdates_emit)

lemma nodeUpdates_setInfo [simp]: "nodeUpdates (mux_log (setInfo s i m)) = nodeUpdates (mux_log m)"
  by (simp add: setInfo_def)

lemma nodeUpdates_Ensure [simp]: "nodeUpdates (mux_log (EnsureSubscriberInBatchGroup s m)) = nodeUpdates (mux_log m)"
proof -
  have "\<exists>es. mux_log (EnsureSubscriberInBatchGroup s m) = mux_log m @ es \<and> nodeUpdates es = []"
    by (auto simp: EnsureSubscriberInBatchGroup_def sub_BeginCallbackBatch_def mux_BeginCommandBatch_def Let_def emit_def
        nodeUpdates_def map_filter_def)
  then show ?thesis
    by auto
qed

lemma UpdateSubscriber_other: "s' \<noteq> s \<Longrightarrow> infoOf s' (UpdateSubscriber s path msg tag m) = infoOf s' m"
  by (simp add: UpdateSubscriber_def Let_def infoOf_setInfo split: option.split)

lemma UpdateSubscriber_allowed: "allowedCallbacks (UpdateSubscriber s path msg tag m) = allowedCallbacks m"
  by (simp add: UpdateSubscriber_def Let_def emit_def setInfo_def split: option.split)

lemma UpdateSubscriber_tells:
  assumes "dont \<noteq> Some s"
  shows "nodeUpdates (mux_log (UpdateSubscriber s path (if DoesPathMatch L s (infoOf s m) path msg m then msg else None) tag m)) =
    nodeUpdates (mux_log m) @ toldOf L path msg tag dont m s"
  using assms by (cases msg) (auto simp: UpdateSubscriber_def toldOf_def DoesPathMatch_def Let_def split: option.split)

lemma toldOf_cong:
  "infoOf s m' = infoOf s m \<Longrightarrow> allowedCallbacks m' = allowedCallbacks m \<Longrightarrow> toldOf L path msg tag dont m' s = toldOf L path msg tag dont m s"
  by (simp add: toldOf_def split: option.split)

lemma fold_tells:
  "distinct ss \<Longrightarrow> nodeUpdates (mux_log (fold (\<lambda>sub m'.
         if infoOf sub m' \<noteq> None \<and> dont \<noteq> Some sub
         then UpdateSubscriber sub path (if DoesPathMatch L sub (infoOf sub m') path msg m' then msg else None) tag m'
         else m') ss m)) = nodeUpdates (mux_log m) @ concat (map (toldOf L path msg tag dont m) ss)"
proof (induction ss arbitrary: m)
  case (Cons s ss)
  let ?f = "\<lambda>sub m'. if infoOf sub m' \<noteq> None \<and> dont \<noteq> Some sub
         then UpdateSubscriber sub path (if DoesPathMatch L sub (infoOf sub m') path msg m' then msg else None) tag m'
         else m'"
  have one: "nodeUpdates (mux_log (?f s m)) = nodeUpdates (mux_log m) @ toldOf L path msg tag dont m s"
    using UpdateSubscriber_tells [of dont s path L m msg tag] by (auto simp: toldOf_def split: option.split)
  have "toldOf L path msg tag dont (?f s m) s' = toldOf L path msg tag dont m s'" if "s' \<in> set ss" for s'
  proof -
    have "s' \<noteq> s"
      using that Cons.prems by auto
    then show ?thesis
      by (intro toldOf_cong) (simp_all add: UpdateSubscriber_other UpdateSubscriber_allowed)
  qed
  then have "map (toldOf L path msg tag dont (?f s m)) ss = map (toldOf L path msg tag dont m) ss"
    by (intro map_cong refl)
  then show ?case
    using Cons.IH [of "?f s m"] Cons.prems one by (simp only: fold_Cons o_apply distinct.simps list.map concat.simps append_assoc)
qed simp

lemma candidates_distinct: "muxOK L m \<Longrightarrow> distinct (candidates m)"
  by (simp add: candidates_def muxOK_def tabInv_def)

lemma TreeNodeUpdatedAux_tells:
  "muxOK L m \<Longrightarrow> nodeUpdates (mux_log (TreeNodeUpdatedAux L path msg tag dont m)) =
    nodeUpdates (mux_log m) @ concat (map (toldOf L path msg tag dont m) (candidates m))"
  unfolding TreeNodeUpdatedAux_def by (rule fold_tells [OF candidates_distinct])

section \<open>A subscription that fails\<close>

lemma infoOf_setSubscriptions [simp]: "infoOf s (setSubscriptions p q m) = infoOf s m"
  by (simp add: infoOf_def)

lemma infoOf_dropIfEmpty [simp]: "infoOf s (dropIfEmpty p m) = infoOf s m"
  by (simp add: infoOf_def)

lemma infoOf_addedInfo: "s' \<noteq> s \<Longrightarrow> infoOf s' (addedInfo L s m) = infoOf s' m"
  by (simp add: addedInfo_def Let_def infoOf_setInfo)

lemma infoOf_undoAdd: "s' \<noteq> s \<Longrightarrow> infoOf s' (undoAdd L s p m) = infoOf s' m"
  by (simp add: undoAdd_def Let_def clearInfoIfEmpty_def infoOf_setInfo split: option.split)

lemma infoOf_upcalls: "upcalls m m' \<Longrightarrow> infoOf s m' = infoOf s m"
  by (auto simp: upcalls_def infoOf_def)

lemma subscriptionsTo_simps [simp]:
  "subscriptionsTo q (setSubscriptions p x m) = (if q = p then x else subscriptionsTo q m)"
  "subscriptionsTo q (setInfo s i m) = subscriptionsTo q m" "subscriptionsTo q (emit e m) = subscriptionsTo q m"
  "subscriptionsTo q (addedInfo L s m) = subscriptionsTo q m" "subscriptionsTo q (clearInfoIfEmpty L s m) = subscriptionsTo q m"
  "subscriptionsTo q (dropIfEmpty p m) = subscriptionsTo q m"
proof -
  show "subscriptionsTo q (setSubscriptions p x m) = (if q = p then x else subscriptionsTo q m)"
    by (simp add: subscriptionsTo_def setSubscriptions_def tabGet_tabPut)
  show "subscriptionsTo q (dropIfEmpty p m) = subscriptionsTo q m"
    by (rule subs_cong) simp
  show "subscriptionsTo q (setInfo s i m) = subscriptionsTo q m" "subscriptionsTo q (emit e m) = subscriptionsTo q m"
    by (simp_all add: subscriptionsTo_def)
  show "subscriptionsTo q (addedInfo L s m) = subscriptionsTo q m" "subscriptionsTo q (clearInfoIfEmpty L s m) = subscriptionsTo q m"
    by (rule subs_cong; simp)+
qed

lemma subscriptionsTo_upcalls: "upcalls m m' \<Longrightarrow> subscriptionsTo q m' = subscriptionsTo q m"
  by (auto simp: upcalls_def subscriptionsTo_def)

lemma AddSubscription_failed:
  assumes "mux_AddSubscription U L s p f fl m = (st, m')" "IsError st"
  shows "(\<forall>q. subscriptionsTo q m' = subscriptionsTo q m) \<and> (\<forall>s'. s' \<noteq> s \<longrightarrow> infoOf s' m' = infoOf s' m)"
proof (cases "tabHas fst s (subscriberInfos m)")
  case True
  let ?m1 = "setSubscriptions p (subscriptionsTo p m @ [\<lparr> si_sub = s, si_qfRef = f, si_flags = fl \<rparr>]) m"
  define m2 where "m2 = addedInfo L s ?m1"
  define info where "info = the (infoOf s m2)"
  obtain ret1 pm where put: "pm_PutPathString L (WithoutPrefixSlash p) f (tsi_matcher info) = (ret1, pm)"
    by (cases "pm_PutPathString L (WithoutPrefixSlash p) f (tsi_matcher info)") simp
  define m3 where "m3 = setInfo s (Some (info\<lparr> tsi_matcher := pm \<rparr>)) m2"
  obtain ret m4 where r: "(if IsError ret1 then (ret1, m3)
      else if mux_isConnected m3 then UpdateSubscription U L p (Some s) fl m3 else (B_NO_ERROR, m3)) = (ret, m4)"
    by (metis surj_pair)
  have "mux_AddSubscription U L s p f fl m = (if IsOK ret then (B_NO_ERROR, m4) else (ret, undoAdd L s p m4))"
    using True unfolding AddSubscription_alt Let_def m2_def [symmetric] info_def [symmetric] put prod.case m3_def [symmetric] r
    by (simp del: not_None_eq)
  then have m': "m' = undoAdd L s p m4"
    using assms by (simp split: if_splits)
  have up: "upcalls m3 m4"
    using r upcalls_UpdateSubscription [of m3 U L p "Some s" fl] upcalls_refl [of m3] by (auto split: if_splits)
  have m3: "subscriptionsTo q m3 = (if q = p then subscriptionsTo p m @ [\<lparr> si_sub = s, si_qfRef = f, si_flags = fl \<rparr>] else subscriptionsTo q m)"
    "s' \<noteq> s \<Longrightarrow> infoOf s' m3 = infoOf s' m" for q s'
    by (simp_all add: m3_def m2_def infoOf_addedInfo infoOf_setInfo)
  have "subscriptionsTo q m' = subscriptionsTo q m" for q
    using m3(1) subscriptionsTo_upcalls [OF up] by (simp add: m' undoAdd_def Let_def)
  moreover have "s' \<noteq> s \<Longrightarrow> infoOf s' m' = infoOf s' m" for s'
    using m3(2) infoOf_upcalls [OF up] by (simp add: m' infoOf_undoAdd)
  ultimately show ?thesis
    by blast
next
  case False
  then show ?thesis
    using assms by (simp add: mux_AddSubscription_def)
qed

section \<open>Only the newcomer hears the first results\<close>

lemma GetPrefix_no_comma: "CHR '','' \<notin> set (GetRegistrationIDPrefix (CHR ''_'') s m)"
  using digits_decimal [of "unat (case tabGet fst s (registeredSubscribers m) of None \<Rightarrow> 0 | Some (_, r) \<Rightarrow> r)"]
  by (auto simp: GetRegistrationIDPrefix_def isDigit_def)

lemma obss_one:
  assumes reg: "registrationsOK m" "tabGet fst s (registeredSubscribers m) = Some (s, r)"
    and tok: "tok_commas L (GetRegistrationIDPrefix (CHR ''_'') s m) = [GetRegistrationIDPrefix (CHR ''_'') s m]"
  shows "mux_TreeLocalPeerPonged L (''obss:'' @ GetRegistrationIDPrefix (CHR ''_'') s m) m = m\<lparr> allowedCallbacks := [s] \<rparr>"
  using parse_prefix [OF markers(1) reg(2), of m] registered_both [OF reg] tok
  by (simp add: mux_TreeLocalPeerPonged_def StartsWith_def)

lemma obss_none: "tok_commas L '''' = [] \<Longrightarrow> mux_TreeLocalPeerPonged L ''obss:'' m = m\<lparr> allowedCallbacks := [] \<rparr>"
  by (simp add: mux_TreeLocalPeerPonged_def StartsWith_def)

section \<open>What leaving does not take away\<close>

lemma subscriptionsTo_strings: "subscribedStrings m' = subscribedStrings m \<Longrightarrow> subscriptionsTo q m' = subscriptionsTo q m"
  by (simp add: subscriptionsTo_def)

lemma RemoveSubscription_keeps:
  fixes m :: "('m, 'f, 'p) mux"
  assumes "si \<in> set (subscriptionsTo q m)" "si_flags si \<noteq> fl"
  shows "si \<in> set (subscriptionsTo q (snd (mux_RemoveSubscription U L s p f fl m)))"
proof (cases "tabGet fst p (subscribedStrings m)")
  case None
  then show ?thesis
    using assms(1) by (simp add: mux_RemoveSubscription_def)
next
  case (Some e)
  obtain p' x where e: "e = (p', x)"
    by (cases e)
  let ?si = "\<lparr> si_sub = s, si_qfRef = f, si_flags = fl \<rparr>"
  let ?m1 = "setSubscriptions p (remove1 ?si x) m"
  let ?m2 = "snd (UpdateSubscription U L p (Some s) 0 ?m1)"
  have x: "subscriptionsTo p m = x"
    using Some e by (simp add: subscriptionsTo_def)
  have "subscriptionsTo q (dropPath L s t u) = subscriptionsTo q u" for t and u :: "('m, 'f, 'p) mux"
    by (simp add: dropPath_def Let_def split: option.split)
  moreover have "subscriptionsTo q ?m2 = (if q = p then remove1 ?si x else subscriptionsTo q m)"
    using subscriptionsTo_upcalls [OF upcalls_UpdateSubscription, of q U L p "Some s" 0 ?m1] by simp
  moreover have "si \<noteq> ?si"
    using assms(2) by auto
  then have "q = p \<Longrightarrow> si \<in> set (remove1 ?si x)"
    using assms(1) x by (simp add: in_set_remove1)
  ultimately show ?thesis
    using assms(1) Some e by (auto simp: mux_RemoveSubscription_def Let_def)
qed

lemma removeEach_keeps:
  "si \<in> set (subscriptionsTo q m) \<Longrightarrow> si_flags si \<noteq> 0 \<Longrightarrow> si \<in> set (subscriptionsTo q (snd (removeEach U L s es ret m)))"
proof (induction es arbitrary: m ret)
  case (Cons e es)
  obtain p f where e: "e = (p, f)"
    by (cases e)
  obtain st m1 where r: "mux_RemoveSubscription U L s p f 0 m = (st, m1)"
    by (metis surj_pair)
  have "si \<in> set (subscriptionsTo q m1)"
    using RemoveSubscription_keeps [OF Cons.prems, of U L s p f] r by simp
  then show ?case
    using Cons.IH Cons.prems(2) by (simp add: e r)
qed simp

lemma detach_keeps:
  fixes m :: "('m, 'f, 'p) mux"
  assumes "si \<in> set (subscriptionsTo q m)" "si_flags si \<noteq> 0"
  shows "si \<in> set (subscriptionsTo q (detachSubscriber U L s m))"
proof -
  have ends: "subscriptionsTo q (mux_BeginCommandBatch u) = subscriptionsTo q u" "subscriptionsTo q (mux_EndCommandBatch u) = subscriptionsTo q u"
    "subscriptionsTo q (sub_EndCallbackBatch s u) = subscriptionsTo q u" for u :: "('m, 'f, 'p) mux"
    by (rule subscriptionsTo_strings; simp add: mux_BeginCommandBatch_def mux_EndCommandBatch_def sub_EndCallbackBatch_def emit_def Let_def)+
  have all: "si \<in> set (subscriptionsTo q (snd (mux_RemoveAllSubscriptions U L s u)))" if u: "si \<in> set (subscriptionsTo q u)" for u
  proof -
    obtain es ret where "snd (mux_RemoveAllSubscriptions U L s u) =
        mux_EndCommandBatch (snd (removeEach U L s es ret (mux_BeginCommandBatch u)))"
      using RemoveAll_cases by blast
    then show ?thesis
      using removeEach_keeps [OF _ assms(2), of q "mux_BeginCommandBatch u"] u by (simp add: ends)
  qed
  have out: "subscriptionsTo q (IGateway_UnregisterSubscriber s u) = subscriptionsTo q u"
    "subscriptionsTo q (takenOut s u) = subscriptionsTo q u" for u :: "('m, 'f, 'p) mux"
    by (rule subscriptionsTo_strings; simp add: gatewayUnregister_fields takenOut_fields)+
  have gone: "si \<in> set (subscriptionsTo q (mux_UnregisterSubscriber U L s u))" if u: "si \<in> set (subscriptionsTo q u)" for u
  proof (cases "tabHas fst s (subscriberInfos u)")
    case True
    then have "mux_UnregisterSubscriber U L s u =
        IGateway_UnregisterSubscriber s (takenOut s (snd (mux_RemoveAllSubscriptions U L s u)))"
      by (simp add: mux_UnregisterSubscriber_def takenOut_def Let_def del: not_None_eq)
    then show ?thesis
      using all [OF u] by (simp add: out)
  next
    case False
    then show ?thesis
      using u by (simp add: mux_UnregisterSubscriber_def out del: not_None_eq)
  qed
  have "subscriptionsTo q ((sub_EndCallbackBatch s ^^ n) m) = subscriptionsTo q m" for n
    by (induction n) (simp_all add: ends)
  then show ?thesis
    using assms(1) gone by (simp add: detachSubscriber_def)
qed

end
