(* ===== verification/ZG_MuxWitnesses.thy ===== *)
theory ZG_MuxWitnesses
  imports ZG_MuxRouting
begin

text \<open>
  The properties of \<^verbatim>\<open>MuxTreeGateway\<close> in every state it can reach, and runs of it on
  a library whose matchers are lists of paths and whose filters are lists of the admitted
  Messages.
\<close>

section \<open>A library and a run\<close>

fun commaTokens :: "string \<Rightarrow> string \<Rightarrow> string list" where
  "commaTokens cur [] = (if cur = [] then [] else [rev cur])"
| "commaTokens cur (c # cs) =
     (if c = CHR '','' then (if cur = [] then commaTokens [] cs else rev cur # commaTokens [] cs) else commaTokens (c # cur) cs)"

definition listLibrary :: "(nat, nat list, (string \<times> nat list option) list) tree_lib" where
  "listLibrary =
     \<lparr> pm_new = [],
       pm_PutPathString = (\<lambda>p f pm. if p = '''' then (B_BAD_ARGUMENT, pm) else (B_NO_ERROR, tabPut fst (p, f) pm)),
       pm_RemovePathString = tabRemove fst,
       pm_GetEntries = (\<lambda>pm. pm),
       pm_MatchesPath = (\<lambda>pm path msg. list_ex (\<lambda>(p, f). p = path \<and>
          (case f of None \<Rightarrow> True | Some f' \<Rightarrow> (case msg of None \<Rightarrow> True | Some x \<Rightarrow> x \<in> set f'))) pm),
       qf_Or = concat,
       ssm_Match = (=),
       tok_commas = commaTokens [],
       msg_nodeValues = (\<lambda>d. [(''a'', d)]) \<rparr>"

lemma matcher_law_list: "matcher_law listLibrary"
proof -
  have "tabPut fst (p, f) pm \<noteq> []" for p :: string and f :: "nat list option" and pm
    by (cases pm) auto
  then show ?thesis
    by (auto simp: matcher_law_def listLibrary_def split: if_splits)
qed

lemma or_law_list: "or_law listLibrary (\<lambda>f msg. msg \<in> set f)"
  by (auto simp: or_law_def listLibrary_def)

fun allowedRun :: "('m, 'f) upstream \<Rightarrow> ('m, 'f, 'p) tree_lib \<Rightarrow> ('m, 'f) mux_input list \<Rightarrow> ('m, 'f, 'p) mux \<Rightarrow> bool" where
  "allowedRun U L [] m = True"
| "allowedRun U L (i # ins) m = (mux_allowed i m \<and> allowedRun U L ins (mux_step U L i m))"

lemma reach_run: "mux_reach U L m \<Longrightarrow> allowedRun U L ins m \<Longrightarrow> mux_reach U L (fold (mux_step U L) ins m)"
  by (induction ins arbitrary: m) (auto intro: mux_next)

definition muxRun :: "(nat, nat list) mux_input list \<Rightarrow> (nat, nat list, (string \<times> nat list option) list) mux" where
  "muxRun ins = fold (mux_step accepting listLibrary) ins (newMuxTreeGateway ''[MUX1]'' 0)"

lemma reach_muxRun: "allowedRun accepting listLibrary ins (newMuxTreeGateway ''[MUX1]'' 0) \<Longrightarrow> mux_reach accepting listLibrary (muxRun ins)"
  unfolding muxRun_def by (rule reach_run [OF mux_start])

text \<open>Two subscribers, connected, both subscribed to one path with different filters.\<close>

definition twoSubscribers :: "(nat, nat list) mux_input list" where
  "twoSubscribers =
     [Attach 5, Attach 6, Connection True,
      Calls 5 (TreeGateway_AddSubscription ''a'' (Some [7]) 0),
      Calls 6 (TreeGateway_AddSubscription ''a'' (Some [8, 9]) 0)]"

lemma reach_two: "mux_reach accepting listLibrary (muxRun twoSubscribers)"
  by (rule reach_muxRun) code_simp

lemma two_facts:
  "mux_isConnected (muxRun twoSubscribers)"
  "tabGet fst 5 (registeredSubscribers (muxRun twoSubscribers)) = Some (5, 1)"
  "map si_sub (subscriptionsTo ''a'' (muxRun twoSubscribers)) = [5, 6]"
  by code_simp+

section \<open>Properties\<close>

text \<open>
  C25: in every reachable state the gateway is well-formed.  The registration tables are inverse
  to each other; each registered subscriber, and nobody else, has an entry in the table of
  matchers; only registered subscribers have pending requests or wait for the end of a callback
  batch, and the updates are directed at registered subscribers or the dummy only.  No queue of
  subscriptions or requests and no matcher is empty, requests are pending only while connected,
  and a subscriber is in exactly one callback batch while it waits for the end of one, and in
  none otherwise.  The table of subscribed paths may still name a subscriber that has left (C32).
\<close>

theorem mux_well_formed:
  assumes "mux_reach U L m" "matcher_law L"
  shows "muxOK L m"
  by (rule muxOK_reach [OF assms])

theorem mux_well_formed_witness:
  "muxOK listLibrary (muxRun twoSubscribers) \<and> keysOf (muxRun twoSubscribers) = {5, 6}"
proof
  show "muxOK listLibrary (muxRun twoSubscribers)"
    by (rule mux_well_formed [OF reach_two matcher_law_list])
  show "keysOf (muxRun twoSubscribers) = {5, 6}"
    unfolding keysOf_def by code_simp
qed

text \<open>
  C26: whatever happens to a gateway, only subscribers that are registered at that moment are
  called back: nobody who has left hears from it again, not even from the step in which it
  leaves, beyond the end of its batch and the farewell.
\<close>

theorem callbacks_go_to_registered:
  assumes "mux_reach U L m" "matcher_law L" "mux_allowed i m"
  shows "\<exists>es. mux_log (mux_step U L i m) = mux_log m @ es \<and>
    (\<forall>s cb. ToSubscriber s cb \<in> set es \<longrightarrow> tabHas fst s (registeredSubscribers m))"
proof -
  have "calls_only (keysOf m) m (mux_step U L i m)"
    using sound_step [OF assms(2,3), of U] muxOK_reach [OF assms(1,2)] unfolding sound_def by blast
  then show ?thesis
    unfolding calls_only_def tabHas_keysOf .
qed

theorem callbacks_go_to_registered_witness:
  "\<exists>es. mux_log (mux_step accepting listLibrary (CallsBack (TreeNodeUpdated ''a'' (Some 8) ''t'')) (muxRun twoSubscribers)) =
      mux_log (muxRun twoSubscribers) @ es \<and>
    (\<forall>s cb. ToSubscriber s cb \<in> set es \<longrightarrow> tabHas fst s (registeredSubscribers (muxRun twoSubscribers)))"
  by (rule callbacks_go_to_registered [OF reach_two matcher_law_list]) (simp add: mux_allowed_def)

text \<open>
  C27: while the gateway above accepts every call made to it, in every reachable state in which
  the gateway is connected the gateway above is subscribed to exactly what the subscriptions in
  the gateway's table ask for together: its filter for a path admits a Message if and only if
  some subscription to that path does.  This holds through subscriptions with and without
  filters, their removal, subscribers that leave, lost and regained connections and shutdown.
  The table may hold subscriptions of subscribers that have left (C32); they count.
\<close>

theorem upstream_covers:
  assumes "mux_reach accepting L m" "matcher_law L" "or_law L filterMatch" "mux_isConnected m"
  shows "admits filterMatch (upView (mux_log m) p) msg \<longleftrightarrow> (\<exists>si \<in> set (subscriptionsTo p m). wants filterMatch (si_qfRef si) msg)"
  by (rule reach_admits [OF assms])

theorem upstream_covers_witness:
  "\<forall>msg. admits (\<lambda>f x. x \<in> set f) (upView (mux_log (muxRun twoSubscribers)) ''a'') msg \<longleftrightarrow> msg \<in> {7, 8, 9}"
proof
  fix msg
  have "map si_qfRef (subscriptionsTo ''a'' (muxRun twoSubscribers)) = [Some [7], Some [8, 9]]"
    by code_simp
  moreover have "(\<exists>si \<in> set l. wants (\<lambda>f x. x \<in> set f) (si_qfRef si) msg) \<longleftrightarrow>
      (\<exists>q \<in> set (map si_qfRef l). wants (\<lambda>f x. x \<in> set f) q msg)" for l :: "nat list SubscriptionInfo list"
    by simp
  ultimately have "(\<exists>si \<in> set (subscriptionsTo ''a'' (muxRun twoSubscribers)). wants (\<lambda>f x. x \<in> set f) (si_qfRef si) msg) \<longleftrightarrow>
      (\<exists>q \<in> set [Some [7], Some [8, 9]]. wants (\<lambda>f x. x \<in> set f) q msg)"
    by (simp only:)
  then show "admits (\<lambda>f x. x \<in> set f) (upView (mux_log (muxRun twoSubscribers)) ''a'') msg \<longleftrightarrow> msg \<in> {7, 8, 9}"
    using upstream_covers [OF reach_two matcher_law_list or_law_list two_facts(1), of "''a''" msg] by (simp add: wants_def)
qed

text \<open>
  C28: a ping or a Message to the senior peer that a registered subscriber sends while connected
  goes out with the caller's number in its tag.  When an answer comes back with that tag, in
  whatever state the gateway has got to by then and with whatever payload the other side chose,
  it reaches the caller alone and with the caller's own tag, as long as the caller has been
  registered since; once it has left, even if it or others register again, the answer reaches
  nobody.  (As everywhere in \<open>mux_allowed\<close>, the registration counter does not wrap.)
\<close>

theorem replies_reach_requester:
  assumes "mux_reach U L m" "matcher_law L" "mux_isConnected m" "tabGet fst s (registeredSubscribers m) = Some (s, r)"
    "answerTo c db payload = Some reply" "mux_later U L (snd (mux_call U L s c m)) m'"
  shows "let t = PrependRegistrationIDPrefix (CHR ''_'') s (tagOf c) m in
    mux_call U L s c m = upCall U (proxy_call (withTag t c)) m \<and>
    mux_callback U L (reply t) m' =
      (if tabGet fst s (registeredSubscribers m') = Some (s, r) then emit (ToSubscriber s (reply (tagOf c))) m' else m')"
proof -
  let ?t = "PrependRegistrationIDPrefix (CHR ''_'') s (tagOf c) m"
  let ?m1 = "snd (mux_call U L s c m)"
  have call: "mux_call U L s c m = upCall U (proxy_call (withTag ?t c)) m"
    by (rule answered_call [OF assms(5,3)])
  have "mux_allowed (Calls s c) m"
    using assms(4) by (simp add: mux_allowed_def)
  then have reach: "mux_reach U L ?m1"
    using mux_next [OF assms(1), of "Calls s c"] by simp
  have "tabGet fst s (registeredSubscribers ?m1) = Some (s, r)"
    using assms(4) by (simp add: call upCall_log emit_def)
  note number = number_later [OF assms(6) reach assms(2) this]
  have "mux_callback U L (reply ?t) m' = toRequester ?t reply m'"
    by (rule answer_routed [OF assms(5)])
  also have "\<dots> = (if tabGet fst s (registeredSubscribers m') = Some (s, r) then emit (ToSubscriber s (reply (tagOf c))) m' else m')"
    by (simp add: toRequester_def parse_prepended [OF markers(1) assms(4)] number)
  finally show ?thesis
    using call by (simp add: Let_def)
qed

text \<open>The first subscriber sends a Message to the senior peer, leaves and comes back; the answer finds nobody.\<close>

definition askedSenior :: "(nat, nat list, (string \<times> nat list option) list) mux" where
  "askedSenior = snd (mux_call accepting listLibrary 5 (TreeGateway_SendMessageToSeniorPeer (Some 3) 2 ''x'') (muxRun twoSubscribers))"

definition cameBack :: "(nat, nat list, (string \<times> nat list option) list) mux" where
  "cameBack = mux_step accepting listLibrary (Attach 5) (mux_step accepting listLibrary (Detach 5) askedSenior)"

definition seniorAnswer :: "nat tree_callback" where
  "seniorAnswer = MessageReceivedFromTreeSeniorPeer 2 (PrependRegistrationIDPrefix (CHR ''_'') 5 ''x'' (muxRun twoSubscribers)) (Some 4)"

theorem replies_reach_requester_witness:
  "mux_callback accepting listLibrary seniorAnswer askedSenior =
     emit (ToSubscriber 5 (MessageReceivedFromTreeSeniorPeer 2 ''x'' (Some 4))) askedSenior \<and>
   mux_callback accepting listLibrary seniorAnswer cameBack = cameBack \<and>
   tabGet fst 5 (registeredSubscribers cameBack) = Some (5, 3)"
proof -
  let ?c = "TreeGateway_SendMessageToSeniorPeer (Some 3) 2 ''x'' :: (nat, nat list) gateway_call"
  have "mux_later accepting listLibrary askedSenior (mux_step accepting listLibrary (Detach 5) askedSenior)"
    by (rule later_step [OF later_now]) (simp add: mux_allowed_def)
  then have later: "mux_later accepting listLibrary askedSenior cameBack"
    unfolding cameBack_def by (rule later_step) code_simp
  have answer: "answerTo ?c 2 (Some 4) = Some (\<lambda>t. MessageReceivedFromTreeSeniorPeer 2 t (Some 4))" "tagOf ?c = ''x''"
    by simp_all
  have regs: "tabGet fst 5 (registeredSubscribers askedSenior) = Some (5, 1)" "tabGet fst 5 (registeredSubscribers cameBack) = Some (5, 3)"
    by code_simp+
  note reply = replies_reach_requester [OF reach_two matcher_law_list two_facts(1,2) answer(1), folded askedSenior_def,
      unfolded Let_def answer(2), folded seniorAnswer_def, THEN conjunct2]
  show ?thesis
    unfolding reply [OF later_now] reply [OF later] regs by simp
qed

text \<open>
  A request for subtrees is remembered under the caller until its result comes.  The
  result, tagged with the caller's number, is handed to the caller once, with its own tag, and
  the request is forgotten; a result nobody waits for (the caller has its answer already, has
  left, or the connection was lost meanwhile) changes nothing.
\<close>

theorem results_answer_requests:
  assumes "mux_reach U L m'" "matcher_law L" "mux_isConnected m" "tabGet fst s (registeredSubscribers m) = Some (s, r)"
    "\<And>log c. U log c = B_NO_ERROR"
  shows "requestsOf s (snd (mux_call U L s (TreeGateway_RequestNodeSubtrees qs fs tag depth fl) m)) = requestsOf s m @ [tag] \<and>
    (let t = PrependRegistrationIDPrefix (CHR ''_'') s tag m in
      (tabGet fst s (registeredSubscribers m') = Some (s, r) \<and> tag \<in> set (requestsOf s m') \<longrightarrow>
        mux_callback U L (SubtreesRequestResultReturned t d) m' =
          setRequests s (remove1 tag (requestsOf s m')) (emit (ToSubscriber s (SubtreesRequestResultReturned tag d)) m')) \<and>
      ((tabGet fst s (registeredSubscribers m') = Some (s, r) \<and> tag \<notin> set (requestsOf s m')) \<or>
          tabGet fst r (registrationIDs m') = None \<longrightarrow>
        mux_callback U L (SubtreesRequestResultReturned t d) m' = m'))"
proof -
  let ?t = "PrependRegistrationIDPrefix (CHR ''_'') s tag m"
  have sent: "requestsOf s (snd (mux_call U L s (TreeGateway_RequestNodeSubtrees qs fs tag depth fl) m)) = requestsOf s m @ [tag]"
    using assms(3,5) by (simp add: mux_RequestNodeSubtreesAux_def upCall_def Let_def emit_def requestsOf_def setRequests_def tabGet_tabPut)
  have eq: "fst (ParseRegistrationIDPrefix (CHR ''='') ?t m') = None"
    by (simp add: ParseRegistrationIDPrefix_def PrependRegistrationIDPrefix_def atColon_append [OF prefix_no_colon [OF markers(1)]]
        ParseRegistrationID_def) (simp add: GetRegistrationIDPrefix_def)
  show ?thesis
  proof (intro conjI sent, unfold Let_def, intro conjI impI)
    assume "tabGet fst s (registeredSubscribers m') = Some (s, r) \<and> tag \<in> set (requestsOf s m')"
    then have p: "ParseRegistrationIDPrefix (CHR ''_'') ?t m' = (Some s, tag)" and tag: "tag \<in> set (requestsOf s m')"
      using parse_there [OF markers(1) assms(4)] registered_both [OF muxOK_registrations [OF muxOK_reach [OF assms(1,2)]]] by auto
    have "requestsOf s m' \<noteq> []"
      using tag by auto
    then have "tabHas fst s (requestedSubtrees m')"
      by (auto simp: requestsOf_def split: option.splits)
    then show "mux_callback U L (SubtreesRequestResultReturned ?t d) m' =
          setRequests s (remove1 tag (requestsOf s m')) (emit (ToSubscriber s (SubtreesRequestResultReturned tag d)) m')"
      using p tag by (simp add: mux_SubtreesRequestResultReturned_def Let_def setRequests_again [OF keepsRequests_emit] del: not_None_eq)
  next
    assume "tabGet fst s (registeredSubscribers m') = Some (s, r) \<and> tag \<notin> set (requestsOf s m') \<or>
          tabGet fst r (registrationIDs m') = None"
    then have "ParseRegistrationIDPrefix (CHR ''_'') ?t m' = (Some s, tag) \<and> tag \<notin> set (requestsOf s m') \<or>
        ParseRegistrationIDPrefix (CHR ''_'') ?t m' = (None, tag)"
      using parse_there [OF markers(1) assms(4)] parse_gone [OF markers(1) assms(4)]
        registered_both [OF muxOK_registrations [OF muxOK_reach [OF assms(1,2)]]] by auto
    then show "mux_callback U L (SubtreesRequestResultReturned ?t d) m' = m'"
      using eq by (auto simp: mux_SubtreesRequestResultReturned_def Let_def)
  qed
qed

text \<open>The same two subscribers while the first waits for subtrees.\<close>

definition waiting :: "(nat, nat list) mux_input list" where
  "waiting = twoSubscribers @ [Calls 5 (TreeGateway_RequestNodeSubtrees [''a''] [] ''x'' 1 0)]"

lemma reach_waiting: "mux_reach accepting listLibrary (muxRun waiting)"
  by (rule reach_muxRun) code_simp

lemma waiting_facts:
  "tabGet fst 5 (registeredSubscribers (muxRun waiting)) = Some (5, 1)" "requestsOf 5 (muxRun waiting) = [''x'']"
  by code_simp+

theorem results_answer_requests_witness:
  "mux_callback accepting listLibrary
     (SubtreesRequestResultReturned (PrependRegistrationIDPrefix (CHR ''_'') 5 ''x'' (muxRun twoSubscribers)) (Some 3)) (muxRun waiting) =
   setRequests 5 [] (emit (ToSubscriber 5 (SubtreesRequestResultReturned ''x'' (Some 3))) (muxRun waiting))"
  using results_answer_requests [OF reach_waiting matcher_law_list two_facts(1,2) refl, of "[]" "[]" "''x''" 1 0 "Some 3"] waiting_facts
  by (simp add: Let_def)

text \<open>
  C29: a node update is told to exactly those it concerns, in the order the gateway visits
  its subscribers: with the new payload to those whose subscriptions match, and as a removal
  to those whose subscriptions do not match (any more) but who were told of the node before.
  While the results of a new subscription arrive only the subscribers it is for are told, and
  the subscriber named in the tag as the one to exclude is told nothing.
\<close>

theorem node_update_recipients:
  assumes "mux_reach U L m" "matcher_law L"
  shows "\<exists>es dont tag'. mux_log (mux_callback U L (TreeNodeUpdated path msg tag) m) = mux_log m @ es \<and>
    nodeUpdates es = concat (map (toldOf L path msg tag' dont m) (candidates m)) \<and>
    (\<not> StartsWith ''[MUX'' tag \<and> \<not> StartsWith (mux_idPrefix m) tag \<longrightarrow> dont = None \<and> tag' = tag) \<and>
    (\<forall>s r t. tag = TagToExcludeClientFromReplies s t m \<and> tabGet fst s (registeredSubscribers m) = Some (s, r) \<longrightarrow>
      dont = Some s \<and> tag' = t)"
proof -
  have ok: "muxOK L m"
    by (rule muxOK_reach [OF assms])
  have "calls_only (keysOf m) m (mux_TreeNodeUpdated L path msg tag m)"
    using good_TreeNodeUpdated [of L m path msg tag] ok unfolding good_def steady_def by blast
  then obtain es where es: "mux_log (mux_TreeNodeUpdated L path msg tag m) = mux_log m @ es"
    unfolding calls_only_def by blast
  let ?parsed = "ParseRegistrationIDPrefix (CHR ''!'') (drop (length (mux_idPrefix m)) tag) m"
  let ?dont = "if StartsWith (mux_idPrefix m) tag then fst ?parsed else None"
  let ?tag = "if StartsWith (mux_idPrefix m) tag then snd ?parsed
    else if StartsWith ''[MUX'' tag then (case atColon tag of Some (_, suffix) \<Rightarrow> suffix | None \<Rightarrow> tag) else tag"
  have "mux_TreeNodeUpdated L path msg tag m = TreeNodeUpdatedAux L path msg ?tag ?dont m"
    by (simp add: mux_TreeNodeUpdated_def case_prod_unfold Let_def)
  then have "nodeUpdates es = concat (map (toldOf L path msg ?tag ?dont m) (candidates m))"
    using TreeNodeUpdatedAux_tells [OF ok, of path msg ?tag ?dont] es by simp
  moreover have "?dont = Some s \<and> ?tag = t"
    if "tag = TagToExcludeClientFromReplies s t m \<and> tabGet fst s (registeredSubscribers m) = Some (s, r)" for s r t
  proof -
    have "?parsed = (Some s, t)"
      using that parse_there [OF markers(3), of s m r m t] registered_both [OF muxOK_registrations [OF ok], of s r]
      by (simp add: TagToExcludeClientFromReplies_def)
    moreover have "StartsWith (mux_idPrefix m) tag"
      using that by (simp add: TagToExcludeClientFromReplies_def StartsWith_def)
    ultimately show ?thesis
      by simp
  qed
  ultimately show ?thesis
    using es by (intro exI [of _ es] exI [of _ ?dont] exI [of _ ?tag]) auto
qed

theorem node_update_recipients_witness:
  "\<exists>es. mux_log (mux_callback accepting listLibrary (TreeNodeUpdated ''a'' (Some 8) ''t'') (muxRun twoSubscribers)) =
      mux_log (muxRun twoSubscribers) @ es \<and>
    nodeUpdates es = [(6, TreeNodeUpdated ''a'' (Some 8) ''t'')]"
proof -
  have "\<not> StartsWith ''[MUX'' ''t'' \<and> \<not> StartsWith (mux_idPrefix (muxRun twoSubscribers)) ''t''"
    by code_simp
  moreover have "concat (map (toldOf listLibrary ''a'' (Some 8) ''t'' None (muxRun twoSubscribers)) (candidates (muxRun twoSubscribers))) =
      [(6, TreeNodeUpdated ''a'' (Some 8) ''t'')]"
    by code_simp
  ultimately show ?thesis
    using node_update_recipients [OF reach_two matcher_law_list, of "''a''" "Some 8" "''t''"] by auto
qed

text \<open>
  C30: a subscription that cannot be made (the path is not accepted by the matcher, or the
  gateway above refuses the call) is undone: the subscriptions to every path are those from
  before, and what the other subscribers have is untouched.
\<close>

theorem failed_subscription_rolls_back:
  assumes "mux_AddSubscription U L s p f fl m = (st, m')" "st \<noteq> B_NO_ERROR"
  shows "(\<forall>q. subscriptionsTo q m' = subscriptionsTo q m) \<and> (\<forall>s'. s' \<noteq> s \<longrightarrow> infoOf s' m' = infoOf s' m)"
  by (rule AddSubscription_failed [OF assms])

theorem failed_subscription_rolls_back_witness:
  "fst (mux_AddSubscription (\<lambda>_ _. B_LOGIC_ERROR) listLibrary 5 ''b'' None 0 (muxRun twoSubscribers)) = B_LOGIC_ERROR \<and>
   subscriptionsTo ''b'' (snd (mux_AddSubscription (\<lambda>_ _. B_LOGIC_ERROR) listLibrary 5 ''b'' None 0 (muxRun twoSubscribers))) = []"
proof -
  have st: "fst (mux_AddSubscription (\<lambda>_ _. B_LOGIC_ERROR) listLibrary 5 ''b'' None 0 (muxRun twoSubscribers)) = B_LOGIC_ERROR"
    by code_simp
  then have "mux_AddSubscription (\<lambda>_ _. B_LOGIC_ERROR) listLibrary 5 ''b'' None 0 (muxRun twoSubscribers) =
      (B_LOGIC_ERROR, snd (mux_AddSubscription (\<lambda>_ _. B_LOGIC_ERROR) listLibrary 5 ''b'' None 0 (muxRun twoSubscribers)))"
    by (simp add: prod_eq_iff)
  from failed_subscription_rolls_back [OF this]
  have "subscriptionsTo ''b'' (snd (mux_AddSubscription (\<lambda>_ _. B_LOGIC_ERROR) listLibrary 5 ''b'' None 0 (muxRun twoSubscribers))) =
      subscriptionsTo ''b'' (muxRun twoSubscribers)"
    by simp
  moreover have "subscriptionsTo ''b'' (muxRun twoSubscribers) = []"
    by code_simp
  ultimately show ?thesis
    using st by simp
qed

text \<open>
  C31: when a subscriber subscribes while connected, the gateway asks the gateway above for
  the path between two pings, and the pongs make sure that the results that come between
  them are told to the new subscriber only, and those that come later to everybody again.
\<close>

theorem first_results_to_newcomer:
  assumes "mux_reach U L m" "matcher_law L" "mux_isConnected m" "tabGet fst s (registeredSubscribers m) = Some (s, r)"
    "mux_AddSubscription U L s p f fl m = (B_NO_ERROR, m')"
    "\<And>t. CHR '','' \<notin> set t \<Longrightarrow> tok_commas L t = (if t = [] then [] else [t])"
  shows "let me = GetRegistrationIDPrefix (CHR ''_'') s m in
    (\<exists>es. mux_log m' = mux_log m @ es @
       [UpCall (PingTreeLocalPeer (''obss:'' @ me) 0) B_NO_ERROR,
        UpCall (AddTreeSubscription p (composeFilter (qf_Or L) (map si_qfRef (rev (subscriptionsTo p m'))) []) fl) B_NO_ERROR,
        UpCall (PingTreeLocalPeer ''obss:'' 0) B_NO_ERROR] \<and>
       set es \<subseteq> {ToSubscriber s TreeGatewayConnectionStateChanged}) \<and>
    mux_callback U L (TreeLocalPeerPonged (''obss:'' @ me)) m' = m'\<lparr> allowedCallbacks := [s] \<rparr> \<and>
    mux_callback U L (TreeLocalPeerPonged ''obss:'') m' = m'\<lparr> allowedCallbacks := [] \<rparr>"
proof -
  let ?me = "GetRegistrationIDPrefix (CHR ''_'') s"
  have s: "s \<in> keysOf m"
    using assms(4) tabHas_keysOf [of s m] by simp
  have ok: "muxOK L m"
    by (rule muxOK_reach [OF assms(1,2)])
  let ?m1 = "setSubscriptions p (subscriptionsTo p m @ [\<lparr> si_sub = s, si_qfRef = f, si_flags = fl \<rparr>]) m"
  define m2 where "m2 = addedInfo L s ?m1"
  define info where "info = the (infoOf s m2)"
  obtain ret1 pm where put: "pm_PutPathString L (WithoutPrefixSlash p) f (tsi_matcher info) = (ret1, pm)"
    by (cases "pm_PutPathString L (WithoutPrefixSlash p) f (tsi_matcher info)") simp
  define m3 where "m3 = setInfo s (Some (info\<lparr> tsi_matcher := pm \<rparr>)) m2"
  have o3: "subsOnly {s} m m3"
    unfolding m3_def m2_def by (intro subsOnly_trans [OF subsOnly_setSubscriptions subsOnly_trans [OF subsOnly_addedInfo subsOnly_setInfo]])
  have same: "registeredSubscribers m3 = registeredSubscribers m" "registrationIDs m3 = registrationIDs m" "mux_isConnected m3"
    using o3 assms(3) unfolding subsOnly_def by auto
  have log3: "\<exists>es. mux_log m3 = mux_log m @ es \<and> set es \<subseteq> {ToSubscriber s TreeGatewayConnectionStateChanged}"
    unfolding m3_def m2_def addedInfo_def Let_def by (simp add: setInfo_def setSubscriptions_def emit_def)
  have subs3: "subscriptionsTo p m3 \<noteq> []"
    by (simp add: m3_def m2_def)
  have res: "IsOK ret1 \<and> UpdateSubscription U L p (Some s) fl m3 = (B_NO_ERROR, m')"
    using assms(5) infos_keys [OF ok, of s] s same(3)
    unfolding AddSubscription_alt Let_def m2_def [symmetric] info_def [symmetric] put prod.case m3_def [symmetric]
    by (auto split: if_splits prod.splits simp del: not_None_eq)
  have me: "?me m3 = ?me m"
    using same by (simp add: GetRegistrationIDPrefix_def)
  have me_ne: "?me m \<noteq> ''''"
    by (simp add: GetRegistrationIDPrefix_def)
  let ?flt = "composeFilter (qf_Or L) (map si_qfRef (rev (subscriptionsTo p m3))) []"
  have m': "m' = emit (UpCall (PingTreeLocalPeer ''obss:'' 0) B_NO_ERROR) (emit (UpCall (AddTreeSubscription p ?flt fl) B_NO_ERROR)
      (emit (UpCall (PingTreeLocalPeer (''obss:'' @ ?me m) 0) B_NO_ERROR) m3))"
    using res subs3 me_ne by (auto simp: UpdateSubscription_def Let_def upCall_def me split: if_splits)
  have "subscriptionsTo p m' = subscriptionsTo p m3"
    unfolding m' by simp
  moreover have "registeredSubscribers m' = registeredSubscribers m" "registrationIDs m' = registrationIDs m"
    using same unfolding m' by (simp_all add: emit_def)
  moreover from this have "registrationsOK m'" if "registrationIDCounter m' = registrationIDCounter m"
    using that muxOK_registrations [OF ok] by (simp add: registrationsOK_def)
  moreover have "registrationIDCounter m' = registrationIDCounter m"
    using o3 unfolding m' subsOnly_def by (auto simp: emit_def)
  ultimately have f: "subscriptionsTo p m' = subscriptionsTo p m3" "registrationsOK m'" "tabGet fst s (registeredSubscribers m') = Some (s, r)" "?me m' = ?me m"
    using assms(4) by (simp_all add: GetRegistrationIDPrefix_def)
  have "tok_commas L (?me m') = [?me m']" "tok_commas L '''' = []"
    using assms(6) [OF GetPrefix_no_comma, of s m'] assms(6) [of "''''"] me_ne f(4) by simp_all
  note pongs = obss_one [OF f(2,3) this(1)] obss_none [OF this(2)]
  show ?thesis
    using log3 pongs f unfolding Let_def by (simp add: m' emit_def)
qed

lemma commaTokens_one: "CHR '','' \<notin> set t \<Longrightarrow> commaTokens cur t = (if cur = [] \<and> t = [] then [] else [rev cur @ t])"
  by (induction t arbitrary: cur) auto

theorem first_results_to_newcomer_witness:
  "allowedCallbacks (mux_callback accepting listLibrary (TreeLocalPeerPonged ''obss:_1_'')
     (snd (mux_AddSubscription accepting listLibrary 5 ''b'' None 0 (muxRun twoSubscribers)))) = [5]"
proof -
  let ?m' = "snd (mux_AddSubscription accepting listLibrary 5 ''b'' None 0 (muxRun twoSubscribers))"
  have "fst (mux_AddSubscription accepting listLibrary 5 ''b'' None 0 (muxRun twoSubscribers)) = B_NO_ERROR"
    by code_simp
  then have add: "mux_AddSubscription accepting listLibrary 5 ''b'' None 0 (muxRun twoSubscribers) = (B_NO_ERROR, ?m')"
    by (simp add: prod_eq_iff)
  have tok: "CHR '','' \<notin> set t \<Longrightarrow> tok_commas listLibrary t = (if t = [] then [] else [t])" for t
    using commaTokens_one [of t "[]"] by (simp add: listLibrary_def)
  have "GetRegistrationIDPrefix (CHR ''_'') 5 (muxRun twoSubscribers) = ''_1_''"
    by code_simp
  then have "mux_callback accepting listLibrary (TreeLocalPeerPonged ''obss:_1_'') ?m' = ?m'\<lparr> allowedCallbacks := [5] \<rparr>"
    using first_results_to_newcomer [OF reach_two matcher_law_list two_facts(1,2) add tok] by (simp add: Let_def)
  moreover have "allowedCallbacks (m\<lparr> allowedCallbacks := a \<rparr>) = a"
    for m :: "(nat, nat list, (string \<times> nat list option) list) mux" and a
    by simp
  ultimately show ?thesis
    by (simp only:)
qed

text \<open>
  C32: a subscriber that leaves is meant to take its subscriptions with it, but
  \<^verbatim>\<open>RemoveAllSubscriptions\<close> looks for them without their flags.  So in every reachable state
  every subscription that was made with any flag stays in the table when its subscriber leaves,
  and names a subscriber that is not registered; while the gateway above accepts every call and
  is connected, it goes on being asked for everything that subscription wants.
\<close>

theorem departed_subscriber_keeps_subscription:
  assumes "mux_reach U L m" "matcher_law L" "si \<in> set (subscriptionsTo p m)" "si_flags si \<noteq> 0"
    and "m' = mux_step U L (Detach (si_sub si)) m"
  shows "si \<in> set (subscriptionsTo p m') \<and> \<not> tabHas fst (si_sub si) (registeredSubscribers m') \<and>
    (U = accepting \<and> or_law L filterMatch \<and> mux_isConnected m' \<and> wants filterMatch (si_qfRef si) msg \<longrightarrow>
      admits filterMatch (upView (mux_log m') p) msg)"
proof -
  have reach: "mux_reach U L m'"
    unfolding assms(5) by (rule mux_next [OF assms(1)]) (simp add: mux_allowed_def)
  have stays: "si \<in> set (subscriptionsTo p m')"
    unfolding assms(5) mux_step.simps by (rule detach_keeps [OF assms(3,4)])
  moreover have "si_sub si \<notin> keysOf m'"
    using detach_result [OF muxOK_reach [OF assms(1,2)], of U "si_sub si"] by (simp add: assms(5))
  then have "\<not> tabHas fst (si_sub si) (registeredSubscribers m')"
    by (simp only: tabHas_keysOf not_False_eq_True)
  moreover have "admits filterMatch (upView (mux_log m') p) msg"
    if "U = accepting" "or_law L filterMatch" "mux_isConnected m'" "wants filterMatch (si_qfRef si) msg"
    using reach_admits [OF reach [unfolded that(1)] assms(2) that(2,3)] stays that(4) by blast
  ultimately show ?thesis
    by blast
qed

definition flaggedSubscriber :: "(nat, nat list) mux_input list" where
  "flaggedSubscriber = [Attach 5, Connection True, Calls 5 (TreeGateway_AddSubscription ''a'' (Some [7]) 1)]"

theorem departed_subscriber_keeps_subscription_witness:
  "\<not> tabHas fst 5 (registeredSubscribers (mux_step accepting listLibrary (Detach 5) (muxRun flaggedSubscriber))) \<and>
   admits (\<lambda>f x. x \<in> set f) (upView (mux_log (mux_step accepting listLibrary (Detach 5) (muxRun flaggedSubscriber))) ''a'') 7"
proof -
  let ?si = "\<lparr> si_sub = 5, si_qfRef = Some [7], si_flags = 1 \<rparr> :: nat list SubscriptionInfo"
  let ?m' = "mux_step accepting listLibrary (Detach (si_sub ?si)) (muxRun flaggedSubscriber)"
  have "mux_reach accepting listLibrary (muxRun flaggedSubscriber)"
    by (rule reach_muxRun) code_simp
  moreover have "subscriptionsTo ''a'' (muxRun flaggedSubscriber) = [?si]"
    by code_simp
  then have "?si \<in> set (subscriptionsTo ''a'' (muxRun flaggedSubscriber))"
    by simp
  moreover have "mux_isConnected ?m'"
    by code_simp
  moreover have "wants (\<lambda>f x. x \<in> set f) (si_qfRef ?si) 7"
    by (simp add: wants_def)
  ultimately show ?thesis
    using departed_subscriber_keeps_subscription [OF _ matcher_law_list _ _ refl, of accepting "muxRun flaggedSubscriber" ?si "''a''" "\<lambda>f x. x \<in> set f" 7]
      or_law_list by simp
qed

text \<open>A leading slash has the same effect as a flag, as the paths of the matcher have none.\<close>

lemma leading_slash_stays:
  "map si_sub (subscriptionsTo ''/b'' (muxRun [Attach 5, Calls 5 (TreeGateway_AddSubscription ''/b'' None 0),
     Calls 5 (TreeGateway_AddSubscription ''c'' None 0), Detach 5])) = [5]"
  "subscriptionsTo ''c'' (muxRun [Attach 5, Calls 5 (TreeGateway_AddSubscription ''/b'' None 0),
     Calls 5 (TreeGateway_AddSubscription ''c'' None 0), Detach 5]) = []"
  by code_simp+

end
