(* ===== verification/ZG_NetworkTree.thy ===== *)
theory ZG_NetworkTree
  imports ZG_TreeGateway
begin

text \<open>
  The tree gateway over a TCP connection (\<^verbatim>\<open>NetworkTreeGateway.cpp\<close>).  The client side
  turns every call on it into a Message; the server side parses the Message and makes the call
  on its own gateway.  Callbacks travel the other way.  A Message is a record of the fields the
  two sides use; a field that is absent reads as its default.  How a Message becomes bytes, and
  how a query filter becomes a Message and back, is MUSCLE's and a parameter.
\<close>

section \<open>Messages\<close>

text \<open>The command and reply codes, numbered as in the two enumerations.\<close>

definition NTG_COMMAND :: "nat \<Rightarrow> u32" where
  "NTG_COMMAND i = 1852269360 + of_nat i"

definition NTG_REPLY :: "nat \<Rightarrow> u32" where
  "NTG_REPLY i = 1852273200 + of_nat i"

abbreviation "NTG_COMMAND_ADDSUBSCRIPTION \<equiv> NTG_COMMAND 0"
abbreviation "NTG_COMMAND_REMOVESUBSCRIPTION \<equiv> NTG_COMMAND 1"
abbreviation "NTG_COMMAND_REMOVEALLSUBSCRIPTIONS \<equiv> NTG_COMMAND 2"
abbreviation "NTG_COMMAND_REQUESTNODESUBTREES \<equiv> NTG_COMMAND 3"
abbreviation "NTG_COMMAND_REQUESTNODEVALUES \<equiv> NTG_COMMAND 4"
abbreviation "NTG_COMMAND_PING \<equiv> NTG_COMMAND 5"
abbreviation "NTG_COMMAND_UPLOADNODEVALUE \<equiv> NTG_COMMAND 6"
abbreviation "NTG_COMMAND_UPLOADNODESUBTREE \<equiv> NTG_COMMAND 7"
abbreviation "NTG_COMMAND_REMOVENODES \<equiv> NTG_COMMAND 8"
abbreviation "NTG_COMMAND_MOVEINDEXENTRIES \<equiv> NTG_COMMAND 9"
abbreviation "NTG_COMMAND_BEGINSEQUENCE \<equiv> NTG_COMMAND 10"
abbreviation "NTG_COMMAND_ENDSEQUENCE \<equiv> NTG_COMMAND 11"
abbreviation "NTG_COMMAND_UNDO \<equiv> NTG_COMMAND 12"
abbreviation "NTG_COMMAND_REDO \<equiv> NTG_COMMAND 13"
abbreviation "NTG_COMMAND_MESSAGETOSENIORPEER \<equiv> NTG_COMMAND 14"
abbreviation "NTG_COMMAND_MESSAGETOSUBSCRIBER \<equiv> NTG_COMMAND 15"

abbreviation "NTG_REPLY_NODEUPDATED \<equiv> NTG_REPLY 0"
abbreviation "NTG_REPLY_INDEXCLEARED \<equiv> NTG_REPLY 1"
abbreviation "NTG_REPLY_INDEXENTRYINSERTED \<equiv> NTG_REPLY 2"
abbreviation "NTG_REPLY_INDEXENTRYREMOVED \<equiv> NTG_REPLY 3"
abbreviation "NTG_REPLY_PONG \<equiv> NTG_REPLY 4"
abbreviation "NTG_REPLY_SUBTREES \<equiv> NTG_REPLY 5"
abbreviation "NTG_REPLY_MESSAGEFROMSENIORPEER \<equiv> NTG_REPLY 6"
abbreviation "NTG_REPLY_MESSAGEFROMSUBSCRIBER \<equiv> NTG_REPLY 7"

text \<open>
  The fields, by the names \<^verbatim>\<open>NTG_NAME_PATH\<close> to \<^verbatim>\<open>NTG_NAME_NAME\<close>.  Paths and
  query filters may be repeated; every other field is added at most once.
\<close>

record ('m, 'q) ntg_msg =
  ntg_what :: u32
  ntg_path :: "string list"
  ntg_queryFilter :: "'q list"
  ntg_payload :: "'m option"
  ntg_flags :: "flags option"
  ntg_tag :: "string option"
  ntg_maxDepth :: "u32 option"
  ntg_before :: "string option"
  ntg_index :: "u32 option"
  ntg_name :: "string option"

definition GetMessageFromPool :: "u32 \<Rightarrow> ('m, 'q) ntg_msg" where
  "GetMessageFromPool w = \<lparr> ntg_what = w, ntg_path = [], ntg_queryFilter = [], ntg_payload = None, ntg_flags = None,
     ntg_tag = None, ntg_maxDepth = None, ntg_before = None, ntg_index = None, ntg_name = None \<rparr>"

text \<open>MUSCLE's conditional adds leave a default value out; the plain add of a NULL Message is an error.\<close>

abbreviation given :: "'a \<Rightarrow> 'a \<Rightarrow> 'a option" where
  "given d v \<equiv> (if v = d then None else Some v)"

definition pathField :: "string \<Rightarrow> string list" where
  "pathField path = (if path = '''' then [] else [path])"

definition filterField :: "('f \<Rightarrow> 'q) \<Rightarrow> 'f option \<Rightarrow> 'q list" where
  "filterField archive optFilterRef = (case optFilterRef of None \<Rightarrow> [] | Some f \<Rightarrow> [archive f])"

definition GetPath :: "('m, 'q) ntg_msg \<Rightarrow> string" where
  "GetPath msg = (case ntg_path msg of [] \<Rightarrow> '''' | p # _ \<Rightarrow> p)"

abbreviation getDefault :: "'a \<Rightarrow> 'a option \<Rightarrow> 'a" where
  "getDefault d v \<equiv> (case v of None \<Rightarrow> d | Some x \<Rightarrow> x)"

section \<open>The client's side: calls become Messages\<close>

definition HandleBasicCommandAux ::
  "('f \<Rightarrow> 'q) \<Rightarrow> u32 \<Rightarrow> string \<Rightarrow> 'f option \<Rightarrow> flags \<Rightarrow> string \<Rightarrow> ('m, 'q) ntg_msg" where
  "HandleBasicCommandAux archive w subscriptionPath optFilterRef flags optOpTag =
     (GetMessageFromPool w)\<lparr> ntg_queryFilter := filterField archive optFilterRef, ntg_path := pathField subscriptionPath,
        ntg_tag := given '''' optOpTag, ntg_flags := given 0 flags \<rparr>"

definition PingLocalPeerAux :: "string \<Rightarrow> u32 \<Rightarrow> flags \<Rightarrow> ('m, 'q) ntg_msg" where
  "PingLocalPeerAux tag optWhichDB flags =
     (GetMessageFromPool NTG_COMMAND_PING)\<lparr> ntg_flags := given 0 flags, ntg_index := given 0 optWhichDB, ntg_tag := given '''' tag \<rparr>"

definition SendUndoRedoMessage :: "u32 \<Rightarrow> string \<Rightarrow> u32 \<Rightarrow> ('m, 'q) ntg_msg" where
  "SendUndoRedoMessage whatCode tag whichDB =
     (GetMessageFromPool whatCode)\<lparr> ntg_tag := given '''' tag, ntg_index := given 0 whichDB \<rparr>"

text \<open>The loop of \<open>TreeGateway_RequestNodeSubtrees\<close>: a NULL filter in the middle is refused, filters beyond the paths are ignored.\<close>

fun addQueries ::
  "('f \<Rightarrow> 'q) \<Rightarrow> string list \<Rightarrow> 'f option list \<Rightarrow> ('m, 'q) ntg_msg \<Rightarrow> status_t + ('m, 'q) ntg_msg" where
  "addQueries archive [] queryFilters msg = Inr msg"
| "addQueries archive (q # qs) [] msg = addQueries archive qs [] (msg\<lparr> ntg_path := ntg_path msg @ [q] \<rparr>)"
| "addQueries archive (q # qs) (None # fs) msg = Inl B_BAD_ARGUMENT"
| "addQueries archive (q # qs) (Some f # fs) msg =
     addQueries archive qs fs (msg\<lparr> ntg_path := ntg_path msg @ [q], ntg_queryFilter := ntg_queryFilter msg @ [archive f] \<rparr>)"

definition client_RequestNodeSubtrees ::
  "('f \<Rightarrow> 'q) \<Rightarrow> string list \<Rightarrow> 'f option list \<Rightarrow> string \<Rightarrow> u32 \<Rightarrow> flags \<Rightarrow> status_t + ('m, 'q) ntg_msg" where
  "client_RequestNodeSubtrees archive queryStrings queryFilters tag maxDepth flags =
     (case addQueries archive queryStrings queryFilters (GetMessageFromPool NTG_COMMAND_REQUESTNODESUBTREES) of
        Inl st \<Rightarrow> Inl st
      | Inr msg \<Rightarrow> Inr (msg\<lparr> ntg_maxDepth := given MUSCLE_NO_LIMIT maxDepth, ntg_flags := given 0 flags, ntg_tag := Some tag \<rparr>))"

definition client_UploadNodeValue :: "string \<Rightarrow> 'm option \<Rightarrow> flags \<Rightarrow> string \<Rightarrow> string \<Rightarrow> ('m, 'q) ntg_msg" where
  "client_UploadNodeValue path optPayload flags optBefore optOpTag =
     (GetMessageFromPool NTG_COMMAND_UPLOADNODEVALUE)\<lparr> ntg_path := pathField path, ntg_payload := optPayload,
        ntg_flags := given 0 flags, ntg_before := given '''' optBefore, ntg_tag := given '''' optOpTag \<rparr>"

definition client_UploadNodeSubtree :: "string \<Rightarrow> 'm option \<Rightarrow> flags \<Rightarrow> string \<Rightarrow> ('m, 'q) ntg_msg" where
  "client_UploadNodeSubtree basePath valuesMsg flags optOpTag =
     (GetMessageFromPool NTG_COMMAND_UPLOADNODESUBTREE)\<lparr> ntg_path := pathField basePath, ntg_payload := valuesMsg,
        ntg_flags := given 0 flags, ntg_tag := given '''' optOpTag \<rparr>"

definition client_RequestMoveIndexEntry ::
  "('f \<Rightarrow> 'q) \<Rightarrow> string \<Rightarrow> string \<Rightarrow> 'f option \<Rightarrow> flags \<Rightarrow> string \<Rightarrow> ('m, 'q) ntg_msg" where
  "client_RequestMoveIndexEntry archive path optBefore optFilterRef flags optOpTag =
     (GetMessageFromPool NTG_COMMAND_MOVEINDEXENTRIES)\<lparr> ntg_queryFilter := filterField archive optFilterRef,
        ntg_path := pathField path, ntg_tag := given '''' optOpTag, ntg_flags := given 0 flags, ntg_before := given '''' optBefore \<rparr>"

definition client_SendMessageToSeniorPeer :: "'m option \<Rightarrow> u32 \<Rightarrow> string \<Rightarrow> status_t + ('m, 'q) ntg_msg" where
  "client_SendMessageToSeniorPeer userMsg whichDB tag =
     (if userMsg = None then Inl B_BAD_ARGUMENT
      else Inr ((GetMessageFromPool NTG_COMMAND_MESSAGETOSENIORPEER)\<lparr> ntg_payload := userMsg,
             ntg_index := given 0 whichDB, ntg_tag := given '''' tag \<rparr>))"

definition client_SendMessageToSubscriber ::
  "('f \<Rightarrow> 'q) \<Rightarrow> string \<Rightarrow> 'm option \<Rightarrow> 'f option \<Rightarrow> string \<Rightarrow> status_t + ('m, 'q) ntg_msg" where
  "client_SendMessageToSubscriber archive path userMsg optFilterRef tag =
     (if userMsg = None then Inl B_BAD_ARGUMENT
      else Inr ((GetMessageFromPool NTG_COMMAND_MESSAGETOSUBSCRIBER)\<lparr> ntg_path := pathField path, ntg_payload := userMsg,
             ntg_queryFilter := filterField archive optFilterRef, ntg_tag := given '''' tag \<rparr>))"

text \<open>The Message each call of the gateway interface sends, or the error it returns instead.\<close>

fun client_call :: "('f \<Rightarrow> 'q) \<Rightarrow> ('m, 'f) gateway_call \<Rightarrow> status_t + ('m, 'q) ntg_msg" where
  "client_call archive (TreeGateway_AddSubscription subscriptionPath optFilterRef flags) =
     Inr (HandleBasicCommandAux archive NTG_COMMAND_ADDSUBSCRIPTION subscriptionPath optFilterRef flags '''')"
| "client_call archive (TreeGateway_RemoveSubscription subscriptionPath optFilterRef flags) =
     Inr (HandleBasicCommandAux archive NTG_COMMAND_REMOVESUBSCRIPTION subscriptionPath optFilterRef flags '''')"
| "client_call archive (TreeGateway_RemoveAllSubscriptions flags) =
     Inr ((GetMessageFromPool NTG_COMMAND_REMOVEALLSUBSCRIPTIONS)\<lparr> ntg_flags := given 0 flags \<rparr>)"
| "client_call archive (TreeGateway_RequestNodeValues queryString optFilterRef flags tag) =
     Inr (HandleBasicCommandAux archive NTG_COMMAND_REQUESTNODEVALUES queryString optFilterRef flags tag)"
| "client_call archive (TreeGateway_RequestNodeSubtrees queryStrings queryFilters tag maxDepth flags) =
     client_RequestNodeSubtrees archive queryStrings queryFilters tag maxDepth flags"
| "client_call archive (TreeGateway_UploadNodeValue path optPayload flags optBefore optOpTag) =
     Inr (client_UploadNodeValue path optPayload flags optBefore optOpTag)"
| "client_call archive (TreeGateway_UploadNodeSubtree basePath valuesMsg flags optOpTag) =
     Inr (client_UploadNodeSubtree basePath valuesMsg flags optOpTag)"
| "client_call archive (TreeGateway_RequestDeleteNodes path optFilterRef flags optOpTag) =
     Inr (HandleBasicCommandAux archive NTG_COMMAND_REMOVENODES path optFilterRef flags optOpTag)"
| "client_call archive (TreeGateway_RequestMoveIndexEntry path optBefore optFilterRef flags optOpTag) =
     Inr (client_RequestMoveIndexEntry archive path optBefore optFilterRef flags optOpTag)"
| "client_call archive (TreeGateway_PingLocalPeer tag flags) = Inr (PingLocalPeerAux tag (- 1) flags)"
| "client_call archive (TreeGateway_PingSeniorPeer tag whichDB flags) = Inr (PingLocalPeerAux tag whichDB flags)"
| "client_call archive (TreeGateway_SendMessageToSeniorPeer userMsg whichDB tag) =
     client_SendMessageToSeniorPeer userMsg whichDB tag"
| "client_call archive (TreeGateway_SendMessageToSubscriber path userMsg optFilterRef tag) =
     client_SendMessageToSubscriber archive path userMsg optFilterRef tag"
| "client_call archive (TreeGateway_BeginUndoSequence optSequenceLabel whichDB) =
     Inr (SendUndoRedoMessage NTG_COMMAND_BEGINSEQUENCE optSequenceLabel whichDB)"
| "client_call archive (TreeGateway_EndUndoSequence optSequenceLabel whichDB) =
     Inr (SendUndoRedoMessage NTG_COMMAND_ENDSEQUENCE optSequenceLabel whichDB)"
| "client_call archive (TreeGateway_RequestUndo whichDB optOpTag) =
     Inr (SendUndoRedoMessage NTG_COMMAND_UNDO optOpTag whichDB)"
| "client_call archive (TreeGateway_RequestRedo whichDB optOpTag) =
     Inr (SendUndoRedoMessage NTG_COMMAND_REDO optOpTag whichDB)"

section \<open>The client's side: sending and batches\<close>

text \<open>
  While a command batch is open Messages are collected and go out as one when the outermost
  batch ends; otherwise each goes out at once.  \<open>cl_sent\<close> records what was handed to the
  Message sender, and \<open>sender\<close> is the status the sender gives.
\<close>

record ('m, 'q) net_client = registrations +
  cl_isConnected :: bool
  cl_commandBatchCounter :: nat
  cl_outgoingBatchMsg :: "('m, 'q) ntg_msg list"
  cl_sent :: "('m, 'q) ntg_msg list list"

definition newNetClient :: "('m, 'q) net_client" where
  "newNetClient = registrations.extend newRegistrations
     \<lparr> cl_isConnected = False, cl_commandBatchCounter = 0, cl_outgoingBatchMsg = [], cl_sent = [] \<rparr>"

definition client_SendOutgoingMessageToNetwork ::
  "(('m, 'q) ntg_msg list list \<Rightarrow> status_t) \<Rightarrow> ('m, 'q) ntg_msg \<Rightarrow> ('m, 'q) net_client \<Rightarrow> status_t \<times> ('m, 'q) net_client" where
  "client_SendOutgoingMessageToNetwork sender msg cl =
     (if cl_commandBatchCounter cl > 0 then (B_NO_ERROR, cl\<lparr> cl_outgoingBatchMsg := cl_outgoingBatchMsg cl @ [msg] \<rparr>)
      else (sender (cl_sent cl), cl\<lparr> cl_sent := cl_sent cl @ [[msg]] \<rparr>))"

definition client_CommandBatchEnds :: "('m, 'q) net_client \<Rightarrow> ('m, 'q) net_client" where
  "client_CommandBatchEnds cl =
     (if cl_outgoingBatchMsg cl \<noteq> []
      then cl\<lparr> cl_sent := cl_sent cl @ [cl_outgoingBatchMsg cl], cl_outgoingBatchMsg := [] \<rparr> else cl)"

definition client_BeginCommandBatch :: "('m, 'q) net_client \<Rightarrow> ('m, 'q) net_client" where
  "client_BeginCommandBatch cl = cl\<lparr> cl_commandBatchCounter := cl_commandBatchCounter cl + 1 \<rparr>"

definition client_EndCommandBatch :: "('m, 'q) net_client \<Rightarrow> ('m, 'q) net_client" where
  "client_EndCommandBatch cl =
     (let cl1 = (if cl_commandBatchCounter cl = 1 then client_CommandBatchEnds cl else cl)
      in cl1\<lparr> cl_commandBatchCounter := cl_commandBatchCounter cl1 - 1 \<rparr>)"

definition client_TreeGateway ::
  "('f \<Rightarrow> 'q) \<Rightarrow> (('m, 'q) ntg_msg list list \<Rightarrow> status_t) \<Rightarrow> ('m, 'f) gateway_call \<Rightarrow> ('m, 'q) net_client \<Rightarrow>
   status_t \<times> ('m, 'q) net_client" where
  "client_TreeGateway archive sender c cl =
     (case client_call archive c of
        Inl st \<Rightarrow> (st, cl)
      | Inr msg \<Rightarrow> client_SendOutgoingMessageToNetwork sender msg cl)"

section \<open>The server's side: Messages become calls\<close>

definition InstantiateQueryFilterAux :: "('q \<Rightarrow> 'f option) \<Rightarrow> ('m, 'q) ntg_msg \<Rightarrow> nat \<Rightarrow> 'f option" where
  "InstantiateQueryFilterAux create msg which =
     (if which < length (ntg_queryFilter msg) then create (ntg_queryFilter msg ! which) else None)"

text \<open>The filters of a subtree request: those that can be instantiated, for as many as there are paths.\<close>

definition readFilters :: "('q \<Rightarrow> 'f option) \<Rightarrow> ('m, 'q) ntg_msg \<Rightarrow> 'f option list" where
  "readFilters create msg =
     map Some (List.map_filter (InstantiateQueryFilterAux create msg) [0..<length (ntg_path msg)])"

definition IncomingTreeMessageReceivedFromClient ::
  "('q \<Rightarrow> 'f option) \<Rightarrow> ('m, 'q) ntg_msg option \<Rightarrow> status_t \<times> ('m, 'f) subscriber_call option" where
  "IncomingTreeMessageReceivedFromClient create optMsg =
     (case optMsg of
        None \<Rightarrow> (B_BAD_ARGUMENT, None)
      | Some msg \<Rightarrow>
          (let flags = getDefault 0 (ntg_flags msg);
               qfRef = InstantiateQueryFilterAux create msg 0;
               path = GetPath msg;
               optB4 = getDefault '''' (ntg_before msg);
               tag = getDefault '''' (ntg_tag msg);
               payload = ntg_payload msg;
               index = getDefault 0 (ntg_index msg);
               w = ntg_what msg
           in if w = NTG_COMMAND_ADDSUBSCRIPTION then (B_NO_ERROR, Some (AddTreeSubscription path qfRef flags))
              else if w = NTG_COMMAND_REMOVESUBSCRIPTION then (B_NO_ERROR, Some (RemoveTreeSubscription path qfRef flags))
              else if w = NTG_COMMAND_REMOVEALLSUBSCRIPTIONS then (B_NO_ERROR, Some (RemoveAllTreeSubscriptions flags))
              else if w = NTG_COMMAND_REQUESTNODEVALUES then (B_NO_ERROR, Some (RequestTreeNodeValues path qfRef flags tag))
              else if w = NTG_COMMAND_REMOVENODES then (B_NO_ERROR, Some (RequestDeleteTreeNodes path qfRef flags tag))
              else if w = NTG_COMMAND_UPLOADNODESUBTREE then (B_NO_ERROR, Some (UploadTreeNodeSubtree path payload flags tag))
              else if w = NTG_COMMAND_MOVEINDEXENTRIES then (B_NO_ERROR, Some (RequestMoveTreeIndexEntry path optB4 qfRef flags tag))
              else if w = NTG_COMMAND_UPLOADNODEVALUE then (B_NO_ERROR, Some (UploadTreeNodeValue path payload flags optB4 tag))
              else if w = NTG_COMMAND_PING then
                (B_NO_ERROR, Some (if sint index \<ge> 0 then PingTreeSeniorPeer tag index flags else PingTreeLocalPeer tag flags))
              else if w = NTG_COMMAND_REQUESTNODESUBTREES then
                (B_NO_ERROR, Some (RequestTreeNodeSubtrees (ntg_path msg) (readFilters create msg) tag
                   (getDefault MUSCLE_NO_LIMIT (ntg_maxDepth msg)) flags))
              else if w = NTG_COMMAND_BEGINSEQUENCE then (B_NO_ERROR, Some (BeginUndoSequence tag index))
              else if w = NTG_COMMAND_ENDSEQUENCE then (B_NO_ERROR, Some (EndUndoSequence tag index))
              else if w = NTG_COMMAND_UNDO then (B_NO_ERROR, Some (RequestUndo index tag))
              else if w = NTG_COMMAND_REDO then (B_NO_ERROR, Some (RequestRedo index tag))
              else if w = NTG_COMMAND_MESSAGETOSENIORPEER then (B_NO_ERROR, Some (SendMessageToTreeSeniorPeer payload index tag))
              else if w = NTG_COMMAND_MESSAGETOSUBSCRIBER then (B_NO_ERROR, Some (SendMessageToSubscriber path payload qfRef tag))
              else (B_UNIMPLEMENTED, None)))"

section \<open>Callbacks on their way back\<close>

definition HandleIndexEntryUpdate :: "u32 \<Rightarrow> string \<Rightarrow> u32 \<Rightarrow> string \<Rightarrow> string \<Rightarrow> ('m, 'q) ntg_msg" where
  "HandleIndexEntryUpdate whatCode path idx nodeName optOpTag =
     (GetMessageFromPool whatCode)\<lparr> ntg_path := pathField path, ntg_tag := given '''' optOpTag,
        ntg_index := given 0 idx, ntg_name := given '''' nodeName \<rparr>"

text \<open>The Message the server side sends for a callback, if it sends one.\<close>

fun server_callback :: "'m tree_callback \<Rightarrow> ('m, 'q) ntg_msg option" where
  "server_callback (TreeNodeUpdated nodePath payloadMsg optOpTag) =
     Some ((GetMessageFromPool NTG_REPLY_NODEUPDATED)\<lparr> ntg_path := pathField nodePath, ntg_tag := given '''' optOpTag,
       ntg_payload := payloadMsg \<rparr>)"
| "server_callback (TreeNodeIndexCleared path optOpTag) =
     Some ((GetMessageFromPool NTG_REPLY_INDEXCLEARED)\<lparr> ntg_path := pathField path, ntg_tag := given '''' optOpTag \<rparr>)"
| "server_callback (TreeNodeIndexEntryInserted path insertedAtIndex nodeName optOpTag) =
     Some (HandleIndexEntryUpdate NTG_REPLY_INDEXENTRYINSERTED path insertedAtIndex nodeName optOpTag)"
| "server_callback (TreeNodeIndexEntryRemoved path removedAtIndex nodeName optOpTag) =
     Some (HandleIndexEntryUpdate NTG_REPLY_INDEXENTRYREMOVED path removedAtIndex nodeName optOpTag)"
| "server_callback (TreeLocalPeerPonged tag) =
     Some ((GetMessageFromPool NTG_REPLY_PONG)\<lparr> ntg_tag := given '''' tag, ntg_index := Some (- 1) \<rparr>)"
| "server_callback (TreeSeniorPeerPonged tag whichDB) =
     Some ((GetMessageFromPool NTG_REPLY_PONG)\<lparr> ntg_tag := given '''' tag, ntg_index := given 0 whichDB \<rparr>)"
| "server_callback (MessageReceivedFromTreeSeniorPeer whichDB tag payload) =
     (if payload = None then None
      else Some ((GetMessageFromPool NTG_REPLY_MESSAGEFROMSENIORPEER)\<lparr> ntg_tag := given '''' tag,
        ntg_index := given 0 whichDB, ntg_payload := payload \<rparr>))"
| "server_callback (MessageReceivedFromSubscriber nodePath payload returnAddress) =
     (if payload = None then None
      else Some ((GetMessageFromPool NTG_REPLY_MESSAGEFROMSUBSCRIBER)\<lparr> ntg_tag := given '''' returnAddress,
        ntg_path := pathField nodePath, ntg_payload := payload \<rparr>))"
| "server_callback (SubtreesRequestResultReturned tag subtreeData) =
     Some ((GetMessageFromPool NTG_REPLY_SUBTREES)\<lparr> ntg_tag := given '''' tag, ntg_payload := subtreeData \<rparr>)"
| "server_callback TreeGatewayConnectionStateChanged = None"
| "server_callback TreeGatewayShuttingDown = None"
| "server_callback CallbackBatchBegins = None"
| "server_callback CallbackBatchEnds = None"

text \<open>The client side's reading of a reply whose code is none of MUSCLE's own result codes.\<close>

definition replyCallback :: "('m, 'q) ntg_msg \<Rightarrow> 'm tree_callback option" where
  "replyCallback msg =
     (let path = GetPath msg;
          tag = getDefault '''' (ntg_tag msg);
          name = getDefault '''' (ntg_name msg);
          payload = ntg_payload msg;
          idx = getDefault 0 (ntg_index msg);
          w = ntg_what msg
      in if w = NTG_REPLY_NODEUPDATED then Some (TreeNodeUpdated path payload tag)
         else if w = NTG_REPLY_INDEXCLEARED then Some (TreeNodeIndexCleared path tag)
         else if w = NTG_REPLY_INDEXENTRYINSERTED then Some (TreeNodeIndexEntryInserted path idx name tag)
         else if w = NTG_REPLY_INDEXENTRYREMOVED then Some (TreeNodeIndexEntryRemoved path idx name tag)
         else if w = NTG_REPLY_SUBTREES then Some (SubtreesRequestResultReturned tag payload)
         else if w = NTG_REPLY_PONG then Some (if sint idx \<ge> 0 then TreeSeniorPeerPonged tag idx else TreeLocalPeerPonged tag)
         else if w = NTG_REPLY_MESSAGEFROMSENIORPEER then Some (MessageReceivedFromTreeSeniorPeer idx tag payload)
         else if w = NTG_REPLY_MESSAGEFROMSUBSCRIBER then Some (MessageReceivedFromSubscriber path payload tag)
         else None)"

text \<open>
  A ping with the sync flag is answered on the client, without a server: the I/O thread takes it
  out of what it is about to send (\<^verbatim>\<open>FilterLocalPingMessageIOGateway\<close> of
  \<^verbatim>\<open>ClientConnector.cpp\<close>) and hands its pong back.  What is handed over in one go is
  a list: a single Message, or the parts of a batch; MUSCLE makes a batch of two or more only.
\<close>

definition GetPongForLocalSyncPing :: "('m, 'q) ntg_msg \<Rightarrow> ('m, 'q) ntg_msg option" where
  "GetPongForLocalSyncPing msg =
     (if ntg_what msg = NTG_COMMAND_PING \<and> bit (getDefault 0 (ntg_flags msg)) TREE_GATEWAY_FLAG_SYNC
      then Some (msg\<lparr> ntg_what := NTG_REPLY_PONG \<rparr>) else None)"

fun StripBatchSyncPings :: "('m, 'q) ntg_msg list \<Rightarrow> ('m, 'q) ntg_msg list \<times> ('m, 'q) ntg_msg list" where
  "StripBatchSyncPings [] = ([], [])"
| "StripBatchSyncPings (msg # msgs) =
     (let (kept, pongs) = StripBatchSyncPings msgs
      in (case GetPongForLocalSyncPing msg of
            Some pong \<Rightarrow> (kept, pong # pongs)
          | None \<Rightarrow> (msg # kept, pongs)))"

definition FilterOutgoingLocalPingMessages ::
  "('m, 'q) ntg_msg list \<Rightarrow> ('m, 'q) ntg_msg list option \<times> ('m, 'q) ntg_msg list" where
  "FilterOutgoingLocalPingMessages msgs =
     (case msgs of
        [msg] \<Rightarrow>
          (case GetPongForLocalSyncPing msg of
             Some pong \<Rightarrow> (None, [pong])
           | None \<Rightarrow> (Some [msg], []))
      | _ \<Rightarrow> (let (kept, pongs) = StripBatchSyncPings msgs in (Some kept, pongs)))"

text \<open>The queue popped until it is empty: what goes out to the server, and the pongs.\<close>

fun PopOutgoingMessages ::
  "('m, 'q) ntg_msg list list \<Rightarrow> ('m, 'q) ntg_msg list list \<times> ('m, 'q) ntg_msg list" where
  "PopOutgoingMessages [] = ([], [])"
| "PopOutgoingMessages (ms # mss) =
     (let (ret, pongs) = FilterOutgoingLocalPingMessages ms;
          (wire, pongs') = PopOutgoingMessages mss
      in ((case ret of None \<Rightarrow> wire | Some r \<Rightarrow> r # wire), pongs @ pongs'))"

section \<open>What one call becomes\<close>

text \<open>
  Calls that are refused: no Message where one is needed, or a gap in the list of filters, as far
  as there are paths.
\<close>

fun refused :: "('m, 'f) gateway_call \<Rightarrow> bool" where
  "refused (TreeGateway_RequestNodeSubtrees queryStrings queryFilters tag maxDepth flags) =
     (None \<in> set (take (length queryStrings) queryFilters))"
| "refused (TreeGateway_SendMessageToSeniorPeer msg whichDB tag) = (msg = None)"
| "refused (TreeGateway_SendMessageToSubscriber path msg optFilterRef tag) = (msg = None)"
| "refused _ = False"

text \<open>Pings that stay on the client, and their pongs.\<close>

fun syncPing :: "('m, 'f) gateway_call \<Rightarrow> bool" where
  "syncPing (TreeGateway_PingLocalPeer tag flags) = bit flags TREE_GATEWAY_FLAG_SYNC"
| "syncPing (TreeGateway_PingSeniorPeer tag whichDB flags) = bit flags TREE_GATEWAY_FLAG_SYNC"
| "syncPing _ = False"

fun pongOf :: "('m, 'f) gateway_call \<Rightarrow> 'm tree_callback option" where
  "pongOf (TreeGateway_PingLocalPeer tag flags) = Some (TreeLocalPeerPonged tag)"
| "pongOf (TreeGateway_PingSeniorPeer tag whichDB flags) =
     Some (if sint whichDB \<ge> 0 then TreeSeniorPeerPonged tag whichDB else TreeLocalPeerPonged tag)"
| "pongOf _ = None"

text \<open>
  The call the server makes.  Two kinds of arguments do not survive: filters beyond the last path
  are left out, and a senior-peer ping of a database from \<^term>\<open>2 ^ 31 :: nat\<close> on becomes a ping of
  the local peer, as the number travels as an \<^verbatim>\<open>int32\<close> whose negative values mean that.
\<close>

fun arrivesAs :: "('m, 'f) gateway_call \<Rightarrow> ('m, 'f) subscriber_call" where
  "arrivesAs (TreeGateway_RequestNodeSubtrees queryStrings queryFilters tag maxDepth flags) =
     RequestTreeNodeSubtrees queryStrings (take (length queryStrings) queryFilters) tag maxDepth flags"
| "arrivesAs (TreeGateway_PingSeniorPeer tag whichDB flags) =
     (if sint whichDB \<ge> 0 then PingTreeSeniorPeer tag whichDB flags else PingTreeLocalPeer tag flags)"
| "arrivesAs c = proxy_call c"

lemmas message_defs = HandleBasicCommandAux_def PingLocalPeerAux_def SendUndoRedoMessage_def client_UploadNodeValue_def
  client_UploadNodeSubtree_def client_RequestMoveIndexEntry_def client_SendMessageToSeniorPeer_def
  client_SendMessageToSubscriber_def GetMessageFromPool_def GetPath_def pathField_def

lemma GetPath_pathField: "(case pathField path of [] \<Rightarrow> '''' | p # _ \<Rightarrow> p) = path"
  by (simp add: pathField_def)

text \<open>The loop that adds the paths and filters of a subtree request.\<close>

lemma addQueries_Some:
  "addQueries archive qs (map Some fs) msg =
     Inr (msg\<lparr> ntg_path := ntg_path msg @ qs, ntg_queryFilter := ntg_queryFilter msg @ map archive (take (length qs) fs) \<rparr>)"
proof (induction qs arbitrary: fs msg)
  case (Cons q qs)
  then show ?case
    using Cons.IH [of "[]"] by (cases fs) auto
qed simp

lemma addQueries_take: "addQueries archive qs fs msg = addQueries archive qs (take (length qs) fs) msg"
proof (induction qs arbitrary: fs msg)
  case (Cons q qs)
  show ?case
  proof (cases fs)
    case (Cons f fs')
    then show ?thesis
      using Cons.IH [of fs'] by (cases f) simp_all
  qed simp
qed simp

lemma addQueries_None:
  "None \<in> set (take (length qs) fs) \<Longrightarrow> addQueries archive qs fs msg = Inl B_BAD_ARGUMENT"
proof (induction qs arbitrary: fs msg)
  case (Cons q qs)
  show ?case
  proof (cases fs)
    case (Cons f fs')
    then show ?thesis
      using Cons.IH Cons.prems by (cases f) auto
  qed (use Cons.prems in simp)
qed simp

lemma filter_less_upt: "k \<le> n \<Longrightarrow> filter (\<lambda>i. i < k) [0..<n] = [0..<k]"
  by (induction n) (auto simp: le_Suc_eq filter_all_conv)

lemma readFilters_archived:
  assumes law: "\<forall>f. create (archive f) = Some f"
    and "ntg_queryFilter msg = map archive fs" "length fs \<le> length (ntg_path msg)"
  shows "readFilters create msg = map Some fs"
proof -
  have "InstantiateQueryFilterAux create msg = (\<lambda>i. if i < length fs then Some (fs ! i) else None)"
    using law assms(2) by (auto simp: InstantiateQueryFilterAux_def)
  then have "List.map_filter (InstantiateQueryFilterAux create msg) [0..<length (ntg_path msg)] = map ((!) fs) [0..<length fs]"
    using filter_less_upt [OF assms(3)] by (simp add: map_filter_def if_distrib [of "\<lambda>x. x \<noteq> None"] cong: if_cong)
  then show ?thesis
    by (simp add: readFilters_def map_nth)
qed

lemma subtrees_arrive:
  fixes archive :: "'f \<Rightarrow> 'q"
  assumes law: "\<forall>f. create (archive f) = Some f" and "None \<notin> set (take (length qs) fs)"
  shows "\<exists>msg :: ('m, 'q) ntg_msg. client_RequestNodeSubtrees archive qs fs tag maxDepth flags = Inr msg \<and>
    ntg_what msg = NTG_COMMAND_REQUESTNODESUBTREES \<and>
    IncomingTreeMessageReceivedFromClient create (Some msg) =
      (B_NO_ERROR, Some (RequestTreeNodeSubtrees qs (take (length qs) fs) tag maxDepth flags))"
proof -
  let ?fs = "take (length qs) fs"
  define gs where "gs = map the ?fs"
  have "map Some gs = ?fs"
    using assms(2) by (auto simp: gs_def o_def intro!: map_idI) (metis option.collapse)
  then have fs: "?fs = map Some gs" "length gs \<le> length qs"
    by (simp_all add: gs_def)
  define msg :: "('m, 'q) ntg_msg" where "msg = (GetMessageFromPool NTG_COMMAND_REQUESTNODESUBTREES)\<lparr> ntg_path := qs,
    ntg_queryFilter := map archive gs, ntg_maxDepth := given MUSCLE_NO_LIMIT maxDepth, ntg_flags := given 0 flags, ntg_tag := Some tag \<rparr>"
  have "client_RequestNodeSubtrees archive qs fs tag maxDepth flags = Inr msg"
    unfolding client_RequestNodeSubtrees_def addQueries_take [of archive qs fs] fs(1) addQueries_Some
    using fs(2) by (simp add: msg_def GetMessageFromPool_def)
  moreover have "readFilters create msg = ?fs"
    using readFilters_archived [where archive = archive and create = create and msg = msg and fs = gs, OF law] fs by (simp add: msg_def)
  then have "IncomingTreeMessageReceivedFromClient create (Some msg) =
      (B_NO_ERROR, Some (RequestTreeNodeSubtrees qs ?fs tag maxDepth flags))"
    by (simp add: IncomingTreeMessageReceivedFromClient_def Let_def msg_def GetMessageFromPool_def NTG_COMMAND_def)
  moreover have "ntg_what msg = NTG_COMMAND_REQUESTNODESUBTREES"
    by (simp add: msg_def GetMessageFromPool_def)
  ultimately show ?thesis
    by blast
qed

text \<open>A call is refused, or its Message arrives and is a sync ping exactly when the call is one.\<close>

lemma call_arrives:
  fixes archive :: "'f \<Rightarrow> 'q" and c :: "('m, 'f) gateway_call"
  assumes law: "\<forall>f. create (archive f) = Some f" and "\<not> refused c"
  shows "\<exists>msg :: ('m, 'q) ntg_msg. client_call archive c = Inr msg \<and>
    IncomingTreeMessageReceivedFromClient create (Some msg) = (B_NO_ERROR, Some (arrivesAs c)) \<and>
    (case GetPongForLocalSyncPing msg of
       None \<Rightarrow> \<not> syncPing c
     | Some pong \<Rightarrow> syncPing c \<and> replyCallback pong = pongOf c)"
proof (cases c)
  case (TreeGateway_RequestNodeSubtrees qs fs tag maxDepth flags)
  then have "None \<notin> set (take (length qs) fs)"
    using assms(2) by simp
  from subtrees_arrive [where archive = archive and create = create, OF law this]
  obtain msg :: "('m, 'q) ntg_msg" where "client_RequestNodeSubtrees archive qs fs tag maxDepth flags = Inr msg"
    "ntg_what msg = NTG_COMMAND_REQUESTNODESUBTREES"
    "IncomingTreeMessageReceivedFromClient create (Some msg) =
      (B_NO_ERROR, Some (RequestTreeNodeSubtrees qs (take (length qs) fs) tag maxDepth flags))"
    by blast
  then show ?thesis
    using TreeGateway_RequestNodeSubtrees by (simp add: GetPongForLocalSyncPing_def NTG_COMMAND_def)
next
  case (TreeGateway_PingLocalPeer tag flags)
  then show ?thesis
    by (auto simp: IncomingTreeMessageReceivedFromClient_def Let_def message_defs NTG_COMMAND_def NTG_REPLY_def
        GetPongForLocalSyncPing_def replyCallback_def)
next
  case (TreeGateway_PingSeniorPeer tag whichDB flags)
  then show ?thesis
    by (auto simp: IncomingTreeMessageReceivedFromClient_def Let_def message_defs NTG_COMMAND_def NTG_REPLY_def
        GetPongForLocalSyncPing_def replyCallback_def)
qed (use assms in \<open>auto simp: IncomingTreeMessageReceivedFromClient_def Let_def message_defs NTG_COMMAND_def
    InstantiateQueryFilterAux_def filterField_def GetPongForLocalSyncPing_def split: option.splits\<close>)

lemma refused_call:
  fixes archive :: "'f \<Rightarrow> 'q" and c :: "('m, 'f) gateway_call"
  shows "refused c \<Longrightarrow> (client_call archive c :: status_t + ('m, 'q) ntg_msg) = Inl B_BAD_ARGUMENT"
  by (cases c) (auto simp: client_RequestNodeSubtrees_def addQueries_None client_SendMessageToSeniorPeer_def
      client_SendMessageToSubscriber_def)

section \<open>Runs of the client\<close>

datatype ('m, 'f) client_event = ClientBegin | ClientEnd | ClientCalls "('m, 'f) gateway_call"

fun client_step ::
  "('f \<Rightarrow> 'q) \<Rightarrow> (('m, 'q) ntg_msg list list \<Rightarrow> status_t) \<Rightarrow> ('m, 'f) client_event \<Rightarrow> ('m, 'q) net_client \<Rightarrow> ('m, 'q) net_client" where
  "client_step archive sender ClientBegin cl = client_BeginCommandBatch cl"
| "client_step archive sender ClientEnd cl = client_EndCommandBatch cl"
| "client_step archive sender (ClientCalls c) cl = snd (client_TreeGateway archive sender c cl)"

definition client_run ::
  "('f \<Rightarrow> 'q) \<Rightarrow> (('m, 'q) ntg_msg list list \<Rightarrow> status_t) \<Rightarrow> ('m, 'f) client_event list \<Rightarrow> ('m, 'q) net_client \<Rightarrow> ('m, 'q) net_client" where
  "client_run archive sender evs cl = fold (client_step archive sender) evs cl"

fun callOf :: "('m, 'f) client_event \<Rightarrow> ('m, 'f) gateway_call option" where
  "callOf (ClientCalls c) = Some c"
| "callOf ClientBegin = None"
| "callOf ClientEnd = None"

definition batchOK :: "('m, 'q) net_client \<Rightarrow> bool" where
  "batchOK cl \<longleftrightarrow> (cl_commandBatchCounter cl = 0 \<longrightarrow> cl_outgoingBatchMsg cl = [])"

lemma batchOK_step: "batchOK cl \<Longrightarrow> batchOK (client_step archive sender ev cl)"
  by (cases ev) (auto simp: batchOK_def client_BeginCommandBatch_def client_EndCommandBatch_def client_CommandBatchEnds_def
      client_TreeGateway_def client_SendOutgoingMessageToNetwork_def Let_def split: sum.splits)

text \<open>The Messages handed over so far, and those still collected, are those of the calls.\<close>

definition outgoing :: "('m, 'q) net_client \<Rightarrow> ('m, 'q) ntg_msg list" where
  "outgoing cl = concat (cl_sent cl) @ cl_outgoingBatchMsg cl"

definition messageOf :: "('f \<Rightarrow> 'q) \<Rightarrow> ('m, 'f) gateway_call \<Rightarrow> ('m, 'q) ntg_msg option" where
  "messageOf archive c = (case client_call archive c of Inl _ \<Rightarrow> None | Inr msg \<Rightarrow> Some msg)"

lemma outgoing_step:
  assumes "batchOK cl"
  shows "outgoing (client_step archive sender ev cl) =
    outgoing cl @ (case Option.bind (callOf ev) (messageOf archive) of None \<Rightarrow> [] | Some msg \<Rightarrow> [msg])"
  using assms
  by (cases ev) (auto simp: outgoing_def client_BeginCommandBatch_def client_EndCommandBatch_def client_CommandBatchEnds_def
      client_TreeGateway_def client_SendOutgoingMessageToNetwork_def messageOf_def batchOK_def Let_def split: sum.splits)

lemma outgoing_run:
  "batchOK cl \<Longrightarrow> batchOK (client_run archive sender evs cl) \<and>
    outgoing (client_run archive sender evs cl) = outgoing cl @ List.map_filter (messageOf archive) (List.map_filter callOf evs)"
proof (induction evs arbitrary: cl)
  case (Cons ev evs)
  have "batchOK (client_step archive sender ev cl)"
    by (rule batchOK_step [OF Cons.prems])
  from Cons.IH [OF this] outgoing_step [OF Cons.prems, of archive sender ev] show ?case
    by (auto simp: client_run_def split: option.splits)
qed (simp add: client_run_def)

text \<open>What the I/O thread makes of them.\<close>

lemma StripBatchSyncPings_eq:
  "StripBatchSyncPings msgs = (filter (\<lambda>msg. GetPongForLocalSyncPing msg = None) msgs, List.map_filter GetPongForLocalSyncPing msgs)"
  by (induction msgs) (auto split: option.split)

lemma PopOutgoingMessages_eq:
  "concat (fst (PopOutgoingMessages mss)) = filter (\<lambda>msg. GetPongForLocalSyncPing msg = None) (concat mss) \<and>
   snd (PopOutgoingMessages mss) = List.map_filter GetPongForLocalSyncPing (concat mss)"
proof (induction mss)
  case (Cons ms mss)
  have "concat (case fst (FilterOutgoingLocalPingMessages ms) of None \<Rightarrow> [] | Some r \<Rightarrow> [r]) =
        filter (\<lambda>msg. GetPongForLocalSyncPing msg = None) ms \<and>
      snd (FilterOutgoingLocalPingMessages ms) = List.map_filter GetPongForLocalSyncPing ms"
    by (auto simp: FilterOutgoingLocalPingMessages_def StripBatchSyncPings_eq split: list.split option.split)
  with Cons show ?case
    by (auto simp: Let_def case_prod_unfold map_filter_def split: option.splits)
qed simp

text \<open>Calls, the Messages they become, and what is made of those.\<close>

lemma calls_arrive:
  fixes archive :: "'f \<Rightarrow> 'q" and cs :: "('m, 'f) gateway_call list"
  assumes law: "\<forall>f. create (archive f) = Some f"
  shows "map (\<lambda>msg. IncomingTreeMessageReceivedFromClient create (Some msg))
      (filter (\<lambda>msg. GetPongForLocalSyncPing msg = None) (List.map_filter (messageOf archive) cs)) =
      map (\<lambda>c. (B_NO_ERROR, Some (arrivesAs c))) (filter (\<lambda>c. \<not> refused c \<and> \<not> syncPing c) cs) \<and>
    map replyCallback (List.map_filter GetPongForLocalSyncPing (List.map_filter (messageOf archive) cs)) =
      map pongOf (filter syncPing cs)"
proof (induction cs)
  case (Cons c cs)
  show ?case
  proof (cases "refused c")
    case True
    then have "messageOf archive c = None" "\<not> syncPing c"
      by (simp add: messageOf_def refused_call) (use True in \<open>cases c; simp\<close>)
    then show ?thesis
      using Cons True by simp
  next
    case False
    from call_arrives [where archive = archive and create = create, OF law False]
    obtain msg :: "('m, 'q) ntg_msg" where msg: "client_call archive c = Inr msg"
      "IncomingTreeMessageReceivedFromClient create (Some msg) = (B_NO_ERROR, Some (arrivesAs c))"
      "case GetPongForLocalSyncPing msg of None \<Rightarrow> \<not> syncPing c | Some pong \<Rightarrow> syncPing c \<and> replyCallback pong = pongOf c"
      by blast
    have "messageOf archive c = Some msg"
      using msg(1) by (simp add: messageOf_def)
    then show ?thesis
      using Cons False msg(2,3) by (cases "GetPongForLocalSyncPing msg") simp_all
  qed
qed simp

text \<open>
  C33: the client's calls cross the network.  Take any sequence of calls on the client and of
  batches opened and closed around them, and let the I/O thread send what was handed over,
  followed by what is still collected.  The server makes exactly the calls that were not refused
  and are not sync pings, in order and with the same arguments, but for filters beyond the last
  path and for senior-peer pings of a database from \<^term>\<open>2 ^ 31 :: nat\<close> on (\<open>arrivesAs\<close>).  A
  sync ping does not reach the server; its pong is handed back to the client with its tag, in
  order.  When no batch is open nothing is left behind.  A call without a Message where one is
  needed, or with a gap in the filters of its paths, is refused with \<^verbatim>\<open>B_BAD_ARGUMENT\<close>
  and sends nothing.  The one hypothesis is that MUSCLE restores a query filter from its archive.
\<close>

theorem commands_cross_network:
  fixes archive :: "'f \<Rightarrow> 'q" and evs :: "('m, 'f) client_event list" and cl :: "('m, 'q) net_client"
  assumes "\<forall>f. create (archive f) = Some f" and "cl = client_run archive sender evs newNetClient"
    and "(wire, pongs) = PopOutgoingMessages (cl_sent cl @ [cl_outgoingBatchMsg cl])"
  shows "map (\<lambda>msg. IncomingTreeMessageReceivedFromClient create (Some msg)) (concat wire) =
      map (\<lambda>c. (B_NO_ERROR, Some (arrivesAs c))) (filter (\<lambda>c. \<not> refused c \<and> \<not> syncPing c) (List.map_filter callOf evs)) \<and>
    map replyCallback pongs = map pongOf (filter syncPing (List.map_filter callOf evs)) \<and>
    (cl_commandBatchCounter cl = 0 \<longrightarrow> cl_outgoingBatchMsg cl = []) \<and>
    (\<forall>c (cl' :: ('m, 'q) net_client). refused c \<longrightarrow> client_TreeGateway archive sender c cl' = (B_BAD_ARGUMENT, cl'))"
proof -
  have new: "batchOK (newNetClient :: ('m, 'q) net_client)" "outgoing (newNetClient :: ('m, 'q) net_client) = []"
    by (simp_all add: batchOK_def outgoing_def newNetClient_def newRegistrations_def registrations.extend_def)
  note run = outgoing_run [OF new(1), of archive sender evs, folded assms(2)]
  let ?msgs = "List.map_filter (messageOf archive) (List.map_filter callOf evs) :: ('m, 'q) ntg_msg list"
  have msgs: "concat (cl_sent cl @ [cl_outgoingBatchMsg cl]) = ?msgs"
    using run new(2) by (simp add: outgoing_def)
  have "wire = fst (PopOutgoingMessages (cl_sent cl @ [cl_outgoingBatchMsg cl]))"
    "pongs = snd (PopOutgoingMessages (cl_sent cl @ [cl_outgoingBatchMsg cl]))"
    using assms(3) by (metis fst_conv, metis snd_conv)
  then have sent: "concat wire = filter (\<lambda>msg. GetPongForLocalSyncPing msg = None) ?msgs"
    "pongs = List.map_filter GetPongForLocalSyncPing ?msgs"
    using PopOutgoingMessages_eq [of "cl_sent cl @ [cl_outgoingBatchMsg cl]"] unfolding msgs by simp_all
  have "client_TreeGateway archive sender c cl' = (B_BAD_ARGUMENT, cl')" if "refused c" for c and cl' :: "('m, 'q) net_client"
    using refused_call [OF that, of archive] by (simp add: client_TreeGateway_def)
  moreover have "cl_commandBatchCounter cl = 0 \<longrightarrow> cl_outgoingBatchMsg cl = []"
    using run by (simp add: batchOK_def)
  ultimately show ?thesis
    unfolding sent using calls_arrive [where archive = archive and create = create, OF assms(1), of "List.map_filter callOf evs"] by blast
qed

text \<open>A batch of a subscription and a sync ping.\<close>

definition syncRun :: "(nat, nat) client_event list" where
  "syncRun = [ClientBegin, ClientCalls (TreeGateway_AddSubscription ''a/*'' (Some 7) 2),
     ClientCalls (TreeGateway_PingLocalPeer ''p'' (flagsWith TREE_GATEWAY_FLAG_SYNC)), ClientEnd]"

theorem commands_cross_network_witness:
  "map (\<lambda>msg. IncomingTreeMessageReceivedFromClient Some (Some msg))
     (concat (fst (PopOutgoingMessages (cl_sent (client_run id (\<lambda>_. B_NO_ERROR) syncRun (newNetClient :: (nat, nat) net_client)))))) =
     [(B_NO_ERROR, Some (AddTreeSubscription ''a/*'' (Some 7) 2))] \<and>
   map replyCallback (snd (PopOutgoingMessages (cl_sent (client_run id (\<lambda>_. B_NO_ERROR) syncRun (newNetClient :: (nat, nat) net_client))))) =
     [Some (TreeLocalPeerPonged ''p'')]"
proof -
  let ?cl = "client_run id (\<lambda>_. B_NO_ERROR) syncRun (newNetClient :: (nat, nat) net_client)"
  let ?out = "PopOutgoingMessages (cl_sent ?cl @ [cl_outgoingBatchMsg ?cl])"
  have idle: "cl_commandBatchCounter ?cl = 0"
    by (simp add: syncRun_def client_run_def client_BeginCommandBatch_def client_EndCommandBatch_def client_CommandBatchEnds_def
        client_TreeGateway_def client_SendOutgoingMessageToNetwork_def newNetClient_def newRegistrations_def registrations.extend_def Let_def)
  have law: "\<forall>f :: nat. Some (id f) = Some f"
    by simp
  have sync: "bit (flagsWith TREE_GATEWAY_FLAG_SYNC) TREE_GATEWAY_FLAG_SYNC"
    by code_simp
  have calls: "filter (\<lambda>c. \<not> refused c \<and> \<not> syncPing c) (List.map_filter callOf syncRun) = [TreeGateway_AddSubscription ''a/*'' (Some 7) 2]"
    "filter syncPing (List.map_filter callOf syncRun) = [TreeGateway_PingLocalPeer ''p'' (flagsWith TREE_GATEWAY_FLAG_SYNC)]"
    using sync by (simp_all add: syncRun_def)
  note cross = commands_cross_network [where archive = id and create = Some and cl = ?cl and sender = "\<lambda>_. B_NO_ERROR" and evs = syncRun
      and wire = "fst ?out" and pongs = "snd ?out", OF law refl prod.collapse]
  have got: "map (\<lambda>msg. IncomingTreeMessageReceivedFromClient Some (Some msg)) (concat (fst ?out)) =
      [(B_NO_ERROR, Some (AddTreeSubscription ''a/*'' (Some 7) 2))]"
    using conjunct1 [OF cross] unfolding calls list.map arrivesAs.simps proxy_call.simps by simp
  have pongs: "map replyCallback (snd ?out) = [Some (TreeLocalPeerPonged ''p'')]"
    using conjunct1 [OF conjunct2 [OF cross]] unfolding calls list.map pongOf.simps by simp
  have "cl_outgoingBatchMsg ?cl = []"
    using conjunct1 [OF conjunct2 [OF conjunct2 [OF cross]]] idle by (rule mp)
  then have "concat (fst ?out) = concat (fst (PopOutgoingMessages (cl_sent ?cl)))"
    "snd ?out = snd (PopOutgoingMessages (cl_sent ?cl))"
    using PopOutgoingMessages_eq [of "cl_sent ?cl @ [cl_outgoingBatchMsg ?cl]"] PopOutgoingMessages_eq [of "cl_sent ?cl"] by simp_all
  with got pongs show ?thesis
    by simp
qed

section \<open>Callbacks come back\<close>

text \<open>Callbacks the server side passes on as they are.\<close>

fun carried :: "'m tree_callback \<Rightarrow> bool" where
  "carried (TreeSeniorPeerPonged tag whichDB) = (sint whichDB \<ge> 0)"
| "carried (MessageReceivedFromTreeSeniorPeer whichDB tag payload) = (payload \<noteq> None)"
| "carried (MessageReceivedFromSubscriber nodePath payload returnAddress) = (payload \<noteq> None)"
| "carried TreeGatewayConnectionStateChanged = False"
| "carried TreeGatewayShuttingDown = False"
| "carried CallbackBatchBegins = False"
| "carried CallbackBatchEnds = False"
| "carried _ = True"

lemma callback_carried:
  "carried cb \<Longrightarrow> \<exists>msg. server_callback cb = Some msg \<and> replyCallback msg = Some cb"
  by (cases cb) (auto simp: replyCallback_def Let_def GetMessageFromPool_def GetPath_def pathField_def NTG_REPLY_def
      HandleIndexEntryUpdate_def)

end
