(* ===== verification/ZG_SymlinkGateway.thy ===== *)
theory ZG_SymlinkGateway
  imports ZG_TreeGateway
begin

text \<open>
  \<^verbatim>\<open>SymlinkLogicMuxTreeGateway\<close> and its \<^verbatim>\<open>SymlinkResolver\<close>: a node whose payload names another
  node shows its subscribers that node's payload.  The resolver subscribes to the targets on the
  gateway above and feeds what it hears to the shared gateway under the names of the links.

  The calls on the gateway above and on \<^verbatim>\<open>MuxTreeGateway\<close> are entries of \<open>sr_log\<close>.  The status
  of a subscription, the link in a payload, and what the shared gateway knows of its subscribers
  are arguments.  Calls made from within callbacks happen between the steps, so the two nest
  counts are zero when a step begins.
\<close>

section \<open>The resolver\<close>

datatype 'm symlink_effect =
    SubscribeTo string status_t
  | UnsubscribeFrom string
  | UnsubscribeAll
  | PassOn string "'m option" string

text \<open>A target with the paths of the links to it and the payload last heard: \<^verbatim>\<open>SymlinkState\<close>.\<close>

type_synonym 'm symlink_state = "string \<times> string list \<times> 'm option"

record 'm symlink_resolver =
  sr_symlinks :: "(string \<times> string) list"
  sr_reverseSymlinks :: "'m symlink_state list"
  sr_droppedSymlinkPaths :: "string list"
  sr_log :: "'m symlink_effect list"

definition newSymlinkResolver :: "'m symlink_resolver" where
  "newSymlinkResolver = \<lparr> sr_symlinks = [], sr_reverseSymlinks = [], sr_droppedSymlinkPaths = [], sr_log = [] \<rparr>"

definition sr_emit :: "'m symlink_effect list \<Rightarrow> 'm symlink_resolver \<Rightarrow> 'm symlink_resolver" where
  "sr_emit es r = r\<lparr> sr_log := sr_log r @ es \<rparr>"

definition HasSymlink :: "string \<Rightarrow> 'm symlink_resolver \<Rightarrow> bool" where
  "HasSymlink nodePath r \<longleftrightarrow> tabHas fst nodePath (sr_symlinks r)"

definition RemoveSymlink :: "string \<Rightarrow> 'm symlink_resolver \<Rightarrow> status_t \<times> 'm symlink_resolver" where
  "RemoveSymlink nodePath r =
     (case tabGet fst nodePath (sr_symlinks r) of
        None \<Rightarrow> (B_DATA_NOT_FOUND, r)
      | Some (_, symDest) \<Rightarrow>
          (let r1 = (case tabGet fst symDest (sr_reverseSymlinks r) of
                       None \<Rightarrow> r
                     | Some (_, sources, payload) \<Rightarrow>
                         if nodePath \<notin> set sources then r
                         else if remove1 nodePath sources = []
                         then sr_emit [UnsubscribeFrom symDest] r
                                \<lparr> sr_reverseSymlinks := tabRemove fst symDest (sr_reverseSymlinks r) \<rparr>
                         else r\<lparr> sr_reverseSymlinks :=
                                tabPut fst (symDest, remove1 nodePath sources, payload) (sr_reverseSymlinks r) \<rparr>)
           in (B_NO_ERROR, r1\<lparr> sr_symlinks := tabRemove fst nodePath (sr_symlinks r1) \<rparr>)))"

text \<open>A failed subscription rolls everything back.\<close>

definition PutSymlink :: "(string \<Rightarrow> status_t) \<Rightarrow> string \<Rightarrow> string \<Rightarrow> 'm symlink_resolver \<Rightarrow> status_t \<times> 'm symlink_resolver" where
  "PutSymlink subscribe nodePath symDest r =
     (let r1 = r\<lparr> sr_symlinks := tabPut fst (nodePath, symDest) (sr_symlinks r) \<rparr>;
          hadSymDest = tabHas fst symDest (sr_reverseSymlinks r1);
          (sources, payload) = (case tabGet fst symDest (sr_reverseSymlinks r1) of None \<Rightarrow> ([], None) | Some (_, ss, p) \<Rightarrow> (ss, p));
          hadEntries = (sources \<noteq> []);
          sources' = (if nodePath \<in> set sources then sources else sources @ [nodePath]);
          r2 = r1\<lparr> sr_reverseSymlinks := tabPut fst (symDest, sources', payload) (sr_reverseSymlinks r1) \<rparr>;
          ret = (if hadEntries then B_NO_ERROR else subscribe symDest);
          r3 = (if hadEntries then r2 else sr_emit [SubscribeTo symDest ret] r2)
      in if IsOK ret
         then (ret, if hadEntries \<and> payload \<noteq> None then sr_emit [PassOn nodePath payload ''''] r3 else r3)
         else (ret, r3\<lparr> sr_reverseSymlinks :=
                      (if hadSymDest then tabPut fst (symDest, remove1 nodePath sources', payload) (sr_reverseSymlinks r3)
                       else tabRemove fst symDest (sr_reverseSymlinks r3)),
                    sr_symlinks := tabRemove fst nodePath (sr_symlinks r3) \<rparr>))"

text \<open>What the resolver hears of a target goes to every link to it.\<close>

definition resolver_TreeNodeUpdated :: "string \<Rightarrow> 'm option \<Rightarrow> string \<Rightarrow> 'm symlink_resolver \<Rightarrow> 'm symlink_resolver" where
  "resolver_TreeNodeUpdated nodePath optPayloadMsg optOpTag r =
     (case tabGet fst nodePath (sr_reverseSymlinks r) of
        None \<Rightarrow> r
      | Some (_, sources, _) \<Rightarrow>
          sr_emit (map (\<lambda>s. PassOn s optPayloadMsg optOpTag) sources)
            (r\<lparr> sr_reverseSymlinks := tabPut fst (nodePath, sources, optPayloadMsg) (sr_reverseSymlinks r) \<rparr>))"

definition oldSymLinkPath :: "string \<Rightarrow> 'm symlink_resolver \<Rightarrow> string" where
  "oldSymLinkPath nodePath r = (case tabGet fst nodePath (sr_symlinks r) of None \<Rightarrow> '''' | Some (_, d) \<Rightarrow> d)"

definition FilterTreeNodeUpdate ::
  "(string \<Rightarrow> status_t) \<Rightarrow> ('m \<Rightarrow> string) \<Rightarrow> string \<Rightarrow> 'm option \<Rightarrow> string \<Rightarrow> bool \<Rightarrow> 'm symlink_resolver \<Rightarrow> bool \<times> 'm symlink_resolver" where
  "FilterTreeNodeUpdate subscribe linkIn nodePath payloadMsg optOpTag initialModeSubscribers r =
     (let old = oldSymLinkPath nodePath r;
          new = (case payloadMsg of None \<Rightarrow> '''' | Some m \<Rightarrow> linkIn m);
          r1 = (if new \<noteq> old
                then let r' = (if old \<noteq> '''' then snd (RemoveSymlink nodePath r) else r)
                     in if new \<noteq> '''' then snd (PutSymlink subscribe nodePath new r') else r'
                else r)
      in if new \<noteq> ''''
         then (True,
               if initialModeSubscribers
               then (case tabGet fst new (sr_reverseSymlinks r1) of
                       Some (_, _, Some p) \<Rightarrow> resolver_TreeNodeUpdated new (Some p) optOpTag r1
                     | _ \<Rightarrow> r1)
               else r1)
         else (False, r1))"

definition resolver_TreeGatewayConnectionStateChanged :: "bool \<Rightarrow> 'm symlink_resolver \<Rightarrow> 'm symlink_resolver" where
  "resolver_TreeGatewayConnectionStateChanged connected r =
     (if connected then r
      else sr_emit [UnsubscribeAll] r\<lparr> sr_symlinks := [], sr_reverseSymlinks := [] \<rparr>)"

section \<open>The gateway\<close>

definition symlink_TreeNodeUpdated ::
  "(string \<Rightarrow> status_t) \<Rightarrow> ('m \<Rightarrow> string) \<Rightarrow> string \<Rightarrow> 'm option \<Rightarrow> string \<Rightarrow> bool \<Rightarrow> 'm symlink_resolver \<Rightarrow> 'm symlink_resolver" where
  "symlink_TreeNodeUpdated subscribe linkIn nodePath payloadMsg optOpTag initialModeSubscribers r =
     (case FilterTreeNodeUpdate subscribe linkIn nodePath payloadMsg optOpTag initialModeSubscribers r of
        (handled, r1) \<Rightarrow> if handled then r1 else sr_emit [PassOn nodePath payloadMsg optOpTag] r1)"

definition symlink_ReceivedPathDropped :: "string \<Rightarrow> 'm symlink_resolver \<Rightarrow> 'm symlink_resolver" where
  "symlink_ReceivedPathDropped receivedPath r =
     (if HasSymlink receivedPath r \<and> receivedPath \<notin> set (sr_droppedSymlinkPaths r)
      then r\<lparr> sr_droppedSymlinkPaths := sr_droppedSymlinkPaths r @ [receivedPath] \<rparr> else r)"

fun flushPaths :: "(string \<Rightarrow> bool) \<Rightarrow> (string \<Rightarrow> status_t) \<Rightarrow> ('m \<Rightarrow> string) \<Rightarrow> bool \<Rightarrow> string list \<Rightarrow> 'm symlink_resolver \<Rightarrow> 'm symlink_resolver" where
  "flushPaths anyone subscribe linkIn initial [] r = r"
| "flushPaths anyone subscribe linkIn initial (p # ps) r =
     flushPaths anyone subscribe linkIn initial ps
       (if anyone p then r else snd (FilterTreeNodeUpdate subscribe linkIn p None '''' initial r))"

definition FlushDroppedSymlinkPaths ::
  "(string \<Rightarrow> bool) \<Rightarrow> (string \<Rightarrow> status_t) \<Rightarrow> ('m \<Rightarrow> string) \<Rightarrow> bool \<Rightarrow> 'm symlink_resolver \<Rightarrow> 'm symlink_resolver" where
  "FlushDroppedSymlinkPaths anyone subscribe linkIn initial r =
     flushPaths anyone subscribe linkIn initial (sr_droppedSymlinkPaths r) (r\<lparr> sr_droppedSymlinkPaths := [] \<rparr>)"

text \<open>
  \<open>dropped\<close> are the paths the shared gateway reports while it removes one subscription or all,
  \<open>anyone\<close> is \<^verbatim>\<open>IsAnyoneSubscribedToPath\<close> when it is done.
\<close>

definition symlink_RemoveSubscriptions ::
  "string list \<Rightarrow> (string \<Rightarrow> bool) \<Rightarrow> (string \<Rightarrow> status_t) \<Rightarrow> ('m \<Rightarrow> string) \<Rightarrow> bool \<Rightarrow> 'm symlink_resolver \<Rightarrow> 'm symlink_resolver" where
  "symlink_RemoveSubscriptions dropped anyone subscribe linkIn initial r =
     FlushDroppedSymlinkPaths anyone subscribe linkIn initial (fold symlink_ReceivedPathDropped dropped r)"

inductive symlink_reachable :: "'m symlink_resolver \<Rightarrow> bool" where
  start: "symlink_reachable newSymlinkResolver"
| node_updated: "symlink_reachable r \<Longrightarrow> symlink_reachable (symlink_TreeNodeUpdated subscribe linkIn p m tag initial r)"
| target_updated: "symlink_reachable r \<Longrightarrow> symlink_reachable (resolver_TreeNodeUpdated p m tag r)"
| connection_changed: "symlink_reachable r \<Longrightarrow> symlink_reachable (resolver_TreeGatewayConnectionStateChanged connected r)"
| subscriptions_removed:
    "symlink_reachable r \<Longrightarrow> symlink_reachable (symlink_RemoveSubscriptions dropped anyone subscribe linkIn initial r)"

section \<open>The two tables mirror each other\<close>

definition linkTo :: "'m symlink_resolver \<Rightarrow> string \<Rightarrow> string option" where
  "linkTo r s = map_option snd (tabGet fst s (sr_symlinks r))"

definition sourcesOf :: "'m symlink_resolver \<Rightarrow> string \<Rightarrow> string list" where
  "sourcesOf r d = (case tabGet fst d (sr_reverseSymlinks r) of None \<Rightarrow> [] | Some (_, ss, _) \<Rightarrow> ss)"

text \<open>The targets subscribed to, by the log.\<close>

fun afterEffect :: "'m symlink_effect \<Rightarrow> string set \<Rightarrow> string set" where
  "afterEffect (SubscribeTo d st) S = (if IsOK st then insert d S else S)"
| "afterEffect (UnsubscribeFrom d) S = S - {d}"
| "afterEffect UnsubscribeAll S = {}"
| "afterEffect (PassOn p m tag) S = S"

definition subscribedTargets :: "'m symlink_effect list \<Rightarrow> string set" where
  "subscribedTargets es = fold afterEffect es {}"

definition linksOK :: "'m symlink_resolver \<Rightarrow> bool" where
  "linksOK r \<longleftrightarrow>
     (\<forall>d. distinct (sourcesOf r d) \<and> set (sourcesOf r d) = {s. linkTo r s = Some d}) \<and>
     (\<forall>d. tabHas fst d (sr_reverseSymlinks r) \<longleftrightarrow> sourcesOf r d \<noteq> []) \<and>
     (\<forall>s. linkTo r s \<noteq> Some '''') \<and>
     subscribedTargets (sr_log r) = {d. sourcesOf r d \<noteq> []}"

lemma linksOK_fields [simp]:
  "linksOK (r\<lparr> sr_droppedSymlinkPaths := x \<rparr>) = linksOK r"
  by (simp add: linksOK_def linkTo_def sourcesOf_def)

lemma subscribedTargets_append [simp]: "subscribedTargets (es @ es') = fold afterEffect es' (subscribedTargets es)"
  by (simp add: subscribedTargets_def)

lemma fold_PassOn [simp]: "fold afterEffect (map (\<lambda>s. PassOn s m tag) ss) S = S"
  by (induction ss) simp_all

lemma linksOK_PassOn: "linksOK r \<Longrightarrow> linksOK (sr_emit (map (\<lambda>s. PassOn s m tag) ss) r)"
  by (simp add: linksOK_def linkTo_def sourcesOf_def sr_emit_def)

lemma linksOK_PassOn1: "linksOK r \<Longrightarrow> linksOK (sr_emit [PassOn p m tag] r)"
  using linksOK_PassOn [of r m tag "[p]"] by simp

text \<open>How the views change with the tables.\<close>

lemma views_simps:
  "linkTo (r\<lparr> sr_reverseSymlinks := x \<rparr>) = linkTo r"
  "linkTo (r\<lparr> sr_log := es \<rparr>) = linkTo r"
  "sourcesOf (r\<lparr> sr_symlinks := y \<rparr>) = sourcesOf r"
  "sourcesOf (r\<lparr> sr_log := es \<rparr>) = sourcesOf r"
  "linkTo (r\<lparr> sr_symlinks := tabPut fst (p, d) (sr_symlinks r) \<rparr>) s = (if s = p then Some d else linkTo r s)"
  "linkTo (r\<lparr> sr_symlinks := tabRemove fst p (sr_symlinks r) \<rparr>) s = (if s = p then None else linkTo r s)"
  "sourcesOf (r\<lparr> sr_reverseSymlinks := tabPut fst (d, ss, m) (sr_reverseSymlinks r) \<rparr>) e = (if e = d then ss else sourcesOf r e)"
  "sourcesOf (r\<lparr> sr_reverseSymlinks := tabRemove fst d (sr_reverseSymlinks r) \<rparr>) e = (if e = d then [] else sourcesOf r e)"
  by (simp_all add: linkTo_def sourcesOf_def table_simps fun_eq_iff)


lemma tabHas_views:
  "tabHas fst e (tabPut fst (d, ss, m) t) \<longleftrightarrow> e = d \<or> tabHas fst e t"
  "tabHas fst e (tabRemove fst d t) \<longleftrightarrow> e \<noteq> d \<and> tabHas fst e t"
  by (simp_all add: table_simps)

lemma linksOK_start: "linksOK newSymlinkResolver"
  by (simp add: linksOK_def newSymlinkResolver_def linkTo_def sourcesOf_def subscribedTargets_def)

lemma linksOK_same:
  assumes "linksOK r" "linkTo r' = linkTo r" "sourcesOf r' = sourcesOf r" "sr_log r' = sr_log r"
    "\<And>d. tabHas fst d (sr_reverseSymlinks r') = tabHas fst d (sr_reverseSymlinks r)"
  shows "linksOK r'"
  using assms unfolding linksOK_def by simp

lemma linksOK_target:
  assumes ok: "linksOK r"
  shows "linksOK (resolver_TreeNodeUpdated p m tag r)"
proof (cases "tabGet fst p (sr_reverseSymlinks r)")
  case None
  then show ?thesis
    using ok by (simp add: resolver_TreeNodeUpdated_def)
next
  case (Some x)
  then obtain ss m' where x: "tabGet fst p (sr_reverseSymlinks r) = Some (p, ss, m')"
    using tabGet_SomeD [of fst p] by (cases x) fastforce
  let ?r = "r\<lparr> sr_reverseSymlinks := tabPut fst (p, ss, m) (sr_reverseSymlinks r) \<rparr>"
  have ss: "sourcesOf r p = ss"
    by (simp add: sourcesOf_def x)
  have "linksOK ?r"
  proof (rule linksOK_same [OF ok])
    show "sourcesOf ?r = sourcesOf r"
      using ss by (simp add: fun_eq_iff views_simps)
    show "tabHas fst d (sr_reverseSymlinks ?r) = tabHas fst d (sr_reverseSymlinks r)" for d
      using x by (auto simp: table_simps)
  qed (simp_all add: views_simps)
  then show ?thesis
    using x linksOK_PassOn by (simp add: resolver_TreeNodeUpdated_def)
qed

lemma sourcesOf_entry:
  assumes "sourcesOf r d \<noteq> []"
  shows "\<exists>m. tabGet fst d (sr_reverseSymlinks r) = Some (d, sourcesOf r d, m)"
proof (cases "tabGet fst d (sr_reverseSymlinks r)")
  case (Some x)
  then show ?thesis
    using tabGet_SomeD [OF Some] by (cases x) (auto simp: sourcesOf_def)
qed (use assms in \<open>simp add: sourcesOf_def\<close>)

lemma linksOK_RemoveSymlink:
  assumes ok: "linksOK r" and link: "linkTo r p = Some d"
  shows "linksOK (snd (RemoveSymlink p r)) \<and> linkTo (snd (RemoveSymlink p r)) = (linkTo r)(p := None)"
proof -
  have forward: "tabGet fst p (sr_symlinks r) = Some (p, d)"
    using link tabGet_SomeD [of fst p "sr_symlinks r"] by (fastforce simp: linkTo_def)
  have "p \<in> set (sourcesOf r d)"
    using ok link by (simp add: linksOK_def)
  then obtain ss m where known: "tabGet fst d (sr_reverseSymlinks r) = Some (d, ss, m)" and ss: "sourcesOf r d = ss" "p \<in> set ss"
    using sourcesOf_entry [of r d] by fastforce
  have dist: "distinct ss" "set ss = {s. linkTo r s = Some d}"
    using ok ss(1) by (auto simp: linksOK_def)
  let ?r1 = "if remove1 p ss = []
    then sr_emit [UnsubscribeFrom d] r\<lparr> sr_reverseSymlinks := tabRemove fst d (sr_reverseSymlinks r) \<rparr>
    else r\<lparr> sr_reverseSymlinks := tabPut fst (d, remove1 p ss, m) (sr_reverseSymlinks r) \<rparr>"
  let ?r2 = "?r1\<lparr> sr_symlinks := tabRemove fst p (sr_symlinks ?r1) \<rparr>"
  have run: "snd (RemoveSymlink p r) = ?r2"
    using forward known ss(2) by (simp add: RemoveSymlink_def Let_def)
  have to: "linkTo ?r2 = (linkTo r)(p := None)"
    by (auto simp: fun_eq_iff views_simps linkTo_def table_simps sr_emit_def)
  have from_: "sourcesOf ?r2 e = (if e = d then remove1 p ss else sourcesOf r e)" for e
    by (simp add: views_simps sr_emit_def sourcesOf_def table_simps)
  have has: "tabHas fst e (sr_reverseSymlinks ?r2) \<longleftrightarrow> (if e = d then remove1 p ss \<noteq> [] else tabHas fst e (sr_reverseSymlinks r))" for e
    by (auto simp: sr_emit_def table_simps)
  have subs: "subscribedTargets (sr_log ?r2) = {e. sourcesOf ?r2 e \<noteq> []}"
    using ok ss unfolding linksOK_def from_ by (auto simp: sr_emit_def)
  have "distinct (sourcesOf ?r2 e) \<and> set (sourcesOf ?r2 e) = {s. linkTo ?r2 s = Some e}" for e
    using ok dist link unfolding to from_ linksOK_def by (auto simp: set_remove1_eq)
  moreover have "linkTo ?r2 s \<noteq> Some ''''" for s
    using ok unfolding to linksOK_def by simp
  ultimately have "linksOK ?r2"
    using ok has subs unfolding linksOK_def from_ by simp
  then show ?thesis
    unfolding run using to by blast
qed

lemma linksOK_maybe:
  "linksOK r \<Longrightarrow> linksOK (if c then sr_emit [PassOn p m tag] r else r)"
  "linkTo (if c then sr_emit [PassOn p m tag] r else r) = linkTo r"
  using linksOK_PassOn1 by (auto simp: fun_eq_iff linkTo_def sr_emit_def)

lemma linksOK_PutSymlink:
  assumes ok: "linksOK r" and fresh: "linkTo r p = None" and d: "d \<noteq> ''''"
  shows "linksOK (snd (PutSymlink subscribe p d r)) \<and>
    linkTo (snd (PutSymlink subscribe p d r)) = (if IsOK (fst (PutSymlink subscribe p d r)) then (linkTo r)(p := Some d) else linkTo r)"
proof -
  define ss where "ss = sourcesOf r d"
  define m where "m = (case tabGet fst d (sr_reverseSymlinks r) of None \<Rightarrow> None | Some (_, _, m) \<Rightarrow> m)"
  have pair: "(case tabGet fst d (sr_reverseSymlinks r) of None \<Rightarrow> ([], None) | Some (_, ss, p) \<Rightarrow> (ss, p)) = (ss, m)"
    by (simp add: ss_def m_def sourcesOf_def split: option.split prod.split)
  have has: "tabHas fst d (sr_reverseSymlinks r) \<longleftrightarrow> ss \<noteq> []" and dist: "distinct ss" "set ss = {s. linkTo r s = Some d}"
    using ok by (auto simp: linksOK_def ss_def)
  have new: "p \<notin> set ss"
    using dist(2) fresh by simp
  let ?ret = "if ss \<noteq> [] then B_NO_ERROR else subscribe d"
  let ?r2 = "r\<lparr> sr_symlinks := tabPut fst (p, d) (sr_symlinks r),
    sr_reverseSymlinks := tabPut fst (d, ss @ [p], m) (sr_reverseSymlinks r) \<rparr>"
  let ?r3 = "if ss \<noteq> [] then ?r2 else sr_emit [SubscribeTo d ?ret] ?r2"
  have to: "linkTo ?r3 = (linkTo r)(p := Some d)"
    by (auto simp: fun_eq_iff linkTo_def table_simps sr_emit_def)
  have from_: "sourcesOf ?r3 e = (if e = d then ss @ [p] else sourcesOf r e)" for e
    by (simp add: sourcesOf_def table_simps sr_emit_def)
  have has3: "tabHas fst e (sr_reverseSymlinks ?r3) \<longleftrightarrow> e = d \<or> tabHas fst e (sr_reverseSymlinks r)" for e
    by (simp add: table_simps sr_emit_def)
  show ?thesis
  proof (cases "IsOK ?ret")
    case True
    have subs: "subscribedTargets (sr_log ?r3) = {e. sourcesOf ?r3 e \<noteq> []}"
      using ok True unfolding linksOK_def from_ by (auto simp: sr_emit_def ss_def)
    have "distinct (sourcesOf ?r3 e) \<and> set (sourcesOf ?r3 e) = {s. linkTo ?r3 s = Some e}" for e
      using ok dist fresh new unfolding to from_ linksOK_def by auto
    moreover have "linkTo ?r3 s \<noteq> Some ''''" for s
      using ok d unfolding to linksOK_def by simp
    moreover have "tabHas fst e (sr_reverseSymlinks ?r3) \<longleftrightarrow> sourcesOf ?r3 e \<noteq> []" for e
      using ok unfolding has3 from_ linksOK_def by simp
    ultimately have ok3: "linksOK ?r3"
      using subs unfolding linksOK_def by blast
    have run: "PutSymlink subscribe p d r = (?ret, if ss \<noteq> [] \<and> m \<noteq> None then sr_emit [PassOn p m ''''] ?r3 else ?r3)"
      using True new by (simp add: PutSymlink_def Let_def pair)
    show ?thesis
      unfolding run fst_conv snd_conv if_P [OF True] linksOK_maybe(2) to using linksOK_maybe(1) [OF ok3] by blast
  next
    case False
    then have ss: "ss = []" and bad: "\<not> IsOK (subscribe d)"
      by (auto split: if_splits)
    then have none: "tabGet fst d (sr_reverseSymlinks r) = None"
      using has by blast
    let ?r4 = "sr_emit [SubscribeTo d (subscribe d)] r\<lparr> sr_symlinks := tabRemove fst p (tabPut fst (p, d) (sr_symlinks r)),
      sr_reverseSymlinks := tabRemove fst d (tabPut fst (d, [p], m) (sr_reverseSymlinks r)) \<rparr>"
    have run: "PutSymlink subscribe p d r = (subscribe d, ?r4)"
      using bad ss none pair by (simp add: PutSymlink_def Let_def sr_emit_def)
    have to4: "linkTo ?r4 = linkTo r"
      using fresh by (auto simp: fun_eq_iff linkTo_def table_simps sr_emit_def)
    have from4: "sourcesOf ?r4 = sourcesOf r"
      using none by (auto simp: fun_eq_iff sourcesOf_def table_simps sr_emit_def)
    have "tabHas fst e (sr_reverseSymlinks ?r4) = tabHas fst e (sr_reverseSymlinks r)" for e
      using none by (auto simp: table_simps sr_emit_def)
    moreover have "subscribedTargets (sr_log ?r4) = subscribedTargets (sr_log r)"
      using bad by (simp add: sr_emit_def)
    ultimately have "linksOK ?r4"
      using ok unfolding linksOK_def to4 from4 by simp
    then show ?thesis
      unfolding run using bad to4 by simp
  qed
qed


lemma oldSymLinkPath_linkTo:
  assumes "linksOK r"
  shows "linkTo r p = (if oldSymLinkPath p r = '''' then None else Some (oldSymLinkPath p r))"
proof -
  have "linkTo r p \<noteq> Some ''''"
    using assms by (simp add: linksOK_def)
  then show ?thesis
    by (cases "tabGet fst p (sr_symlinks r)") (auto simp: oldSymLinkPath_def linkTo_def)
qed

lemma linkTo_target: "linkTo (resolver_TreeNodeUpdated p m tag r) = linkTo r"
  by (simp add: resolver_TreeNodeUpdated_def linkTo_def sr_emit_def fun_eq_iff split: option.split prod.split)

definition followed :: "(string \<Rightarrow> status_t) \<Rightarrow> string \<Rightarrow> string \<Rightarrow> 'm symlink_resolver \<Rightarrow> bool" where
  "followed subscribe p d r \<longleftrightarrow> linkTo r p = Some d \<or> (\<exists>s. s \<noteq> p \<and> linkTo r s = Some d) \<or> IsOK (subscribe d)"

lemma linked_sources:
  assumes "linksOK r"
  shows "(\<exists>s. linkTo r s = Some d) \<longleftrightarrow> sourcesOf r d \<noteq> []"
proof -
  have "set (sourcesOf r d) = {s. linkTo r s = Some d}"
    using assms by (simp add: linksOK_def)
  then have "sourcesOf r d \<noteq> [] \<longleftrightarrow> {s. linkTo r s = Some d} \<noteq> {}"
    by (metis set_empty)
  then show ?thesis
    by simp
qed

lemma PutSymlink_IsOK:
  assumes "linksOK r"
  shows "IsOK (fst (PutSymlink subscribe p d r)) \<longleftrightarrow> (\<exists>s. linkTo r s = Some d) \<or> IsOK (subscribe d)"
proof -
  have "IsOK (fst (PutSymlink subscribe p d r)) \<longleftrightarrow> sourcesOf r d \<noteq> [] \<or> IsOK (subscribe d)"
    by (auto simp: PutSymlink_def Let_def sourcesOf_def split: option.split)
  then show ?thesis
    unfolding linked_sources [OF assms] .
qed

lemma linksOK_Filter:
  assumes ok: "linksOK r" and run: "FilterTreeNodeUpdate subscribe linkIn p m tag initial r = (handled, r')"
  shows "linksOK r' \<and> (handled \<longleftrightarrow> (\<exists>x. m = Some x \<and> linkIn x \<noteq> '''')) \<and>
    linkTo r' = (linkTo r)(p := (case m of None \<Rightarrow> None
      | Some x \<Rightarrow> if linkIn x \<noteq> '''' \<and> followed subscribe p (linkIn x) r then Some (linkIn x) else None))"
proof -
  define old where "old = oldSymLinkPath p r"
  define new where "new = (case m of None \<Rightarrow> '''' | Some x \<Rightarrow> linkIn x)"
  define r1 where "r1 = (if old \<noteq> '''' then snd (RemoveSymlink p r) else r)"
  define r2 where "r2 = (if new \<noteq> '''' then snd (PutSymlink subscribe p new r1) else r1)"
  define r3 where "r3 = (if new \<noteq> old then r2 else r)"
  have link: "linkTo r p = (if old = '''' then None else Some old)"
    using oldSymLinkPath_linkTo [OF ok] by (simp add: old_def)
  have ok1: "linksOK r1 \<and> linkTo r1 = (linkTo r)(p := None)"
  proof (cases "old = ''''")
    case True
    then show ?thesis
      using ok link by (auto simp: r1_def)
  next
    case False
    then show ?thesis
      using linksOK_RemoveSymlink [OF ok, of p old] link by (simp add: r1_def)
  qed
  have ok2: "linksOK r2 \<and> linkTo r2 = (linkTo r)(p := (if new \<noteq> '''' \<and> ((\<exists>s. s \<noteq> p \<and> linkTo r s = Some new) \<or> IsOK (subscribe new)) then Some new else None))"
  proof (cases "new = ''''")
    case True
    then show ?thesis
      using ok1 by (simp add: r2_def)
  next
    case False
    have "linkTo r1 p = None"
      using ok1 by simp
    from linksOK_PutSymlink [OF conjunct1 [OF ok1] this False, of subscribe] PutSymlink_IsOK [OF conjunct1 [OF ok1], of subscribe p new]
    show ?thesis
      using False ok1 by (auto simp: r2_def)
  qed
  have ok3: "linksOK r3 \<and> linkTo r3 = (linkTo r)(p := (if new \<noteq> '''' \<and> followed subscribe p new r then Some new else None))"
  proof (cases "new = old")
    case True
    then show ?thesis
      using ok link by (auto simp: r3_def followed_def)
  next
    case False
    then have "linkTo r p \<noteq> Some new"
      using link by auto
    then show ?thesis
      using False ok2 by (simp add: r3_def followed_def)
  qed
  have "r' = r3 \<or> (\<exists>x. r' = resolver_TreeNodeUpdated new x tag r3)" and "handled \<longleftrightarrow> new \<noteq> ''''"
    using run unfolding FilterTreeNodeUpdate_def Let_def old_def [symmetric] new_def [symmetric] r1_def [symmetric] r2_def [symmetric] r3_def [symmetric]
    by (auto split: if_splits option.splits prod.splits)
  then have "linksOK r' \<and> linkTo r' = linkTo r3"
    using ok3 linksOK_target linkTo_target by metis
  then show ?thesis
    using ok3 \<open>handled \<longleftrightarrow> new \<noteq> ''''\<close> by (cases m) (auto simp: new_def)
qed

lemma linksOK_symlink_TreeNodeUpdated:
  assumes "linksOK r"
  shows "linksOK (symlink_TreeNodeUpdated subscribe linkIn p m tag initial r)"
proof -
  obtain handled r' where run: "FilterTreeNodeUpdate subscribe linkIn p m tag initial r = (handled, r')"
    by fastforce
  show ?thesis
    using linksOK_Filter [OF assms run] linksOK_PassOn1 [of r' p m tag] by (simp add: symlink_TreeNodeUpdated_def run)
qed

lemma linksOK_flushPaths: "linksOK r \<Longrightarrow> linksOK (flushPaths anyone subscribe linkIn initial ps r)"
proof (induction ps arbitrary: r)
  case (Cons p ps)
  have "linksOK (snd (FilterTreeNodeUpdate subscribe linkIn p None '''' initial r))"
    using linksOK_Filter [OF Cons.prems] by (metis prod.collapse)
  then show ?case
    using Cons by simp
qed simp

lemma linksOK_dropped: "linksOK (fold symlink_ReceivedPathDropped ps r) = linksOK r"
  by (induction ps arbitrary: r) (simp_all add: symlink_ReceivedPathDropped_def)

lemma linksOK_connection: "linksOK r \<Longrightarrow> linksOK (resolver_TreeGatewayConnectionStateChanged c r)"
  by (simp add: resolver_TreeGatewayConnectionStateChanged_def linksOK_def linkTo_def sourcesOf_def sr_emit_def)

lemma reachable_linksOK: "symlink_reachable r \<Longrightarrow> linksOK r"
  by (induction rule: symlink_reachable.induct)
    (simp_all add: linksOK_start linksOK_symlink_TreeNodeUpdated linksOK_target linksOK_connection
      symlink_RemoveSubscriptions_def FlushDroppedSymlinkPaths_def linksOK_flushPaths linksOK_dropped)

section \<open>Properties\<close>

text \<open>
  C40: links and targets.  In every reachable state the resolver is subscribed above to exactly
  the nodes that some link points to, whatever the order of updates, failed subscriptions, lost
  connections and subscribers leaving; and what it hears of a node is passed on once for each
  link to that node, under the name of the link.
\<close>

theorem symlinks_mirrored:
  assumes "symlink_reachable r"
  shows "subscribedTargets (sr_log r) = {d. \<exists>s. linkTo r s = Some d} \<and>
    sr_log (resolver_TreeNodeUpdated d m tag r) = sr_log r @ map (\<lambda>s. PassOn s m tag) (sourcesOf r d) \<and>
    distinct (sourcesOf r d) \<and> set (sourcesOf r d) = {s. linkTo r s = Some d}"
proof -
  have ok: "linksOK r"
    by (rule reachable_linksOK [OF assms])
  have set: "distinct (sourcesOf r d)" "set (sourcesOf r d) = {s. linkTo r s = Some d}" for d
    using ok by (simp_all add: linksOK_def)
  have "subscribedTargets (sr_log r) = {d. \<exists>s. linkTo r s = Some d}"
    unfolding linked_sources [OF ok] using ok by (simp add: linksOK_def)
  moreover have "sr_log (resolver_TreeNodeUpdated d m tag r) = sr_log r @ map (\<lambda>s. PassOn s m tag) (sourcesOf r d)"
    by (simp add: resolver_TreeNodeUpdated_def sourcesOf_def sr_emit_def split: option.split prod.split)
  ultimately show ?thesis
    using set by blast
qed

definition exampleResolver :: "string symlink_resolver" where
  "exampleResolver =
     symlink_RemoveSubscriptions [''c''] (\<lambda>p. False) (\<lambda>d. B_NO_ERROR) (\<lambda>m. if take 1 m = ''@'' then drop 1 m else '''') False
       (fold (\<lambda>(p, m). symlink_TreeNodeUpdated (\<lambda>d. if d = ''bad'' then B_BAD_ARGUMENT else B_NO_ERROR)
                  (\<lambda>m. if take 1 m = ''@'' then drop 1 m else '''') p (Some m) '''' False)
         [(''a'', ''@x''), (''b'', ''@x''), (''c'', ''@y''), (''d'', ''@bad''), (''e'', ''plain'')] newSymlinkResolver)"

theorem symlinks_mirrored_witness:
  "subscribedTargets (sr_log exampleResolver) = {''x''} \<and> sourcesOf exampleResolver ''x'' = [''a'', ''b''] \<and>
   sr_log (resolver_TreeNodeUpdated ''x'' (Some ''v'') '''' exampleResolver) =
     sr_log exampleResolver @ [PassOn ''a'' (Some ''v'') '''', PassOn ''b'' (Some ''v'') '''']"
proof -
  have "symlink_reachable exampleResolver"
    unfolding exampleResolver_def
    by (simp add: subscriptions_removed node_updated start)
  from symlinks_mirrored [OF this, of "''x''" "Some ''v''" "''''"]
  have log: "sr_log (resolver_TreeNodeUpdated ''x'' (Some ''v'') '''' exampleResolver) =
      sr_log exampleResolver @ map (\<lambda>s. PassOn s (Some ''v'') '''') (sourcesOf exampleResolver ''x'')"
    by blast
  have "sourcesOf exampleResolver ''x'' = [''a'', ''b'']"
    by code_simp
  moreover have "subscribedTargets (sr_log exampleResolver) = {''x''}"
    by code_simp
  ultimately show ?thesis
    using log by simp
qed


text \<open>
  Pointing a link at another node tells the subscribers of the link nothing: they keep the
  payload of the old target until something is heard of the new one, which for a node that does
  not exist is never.
\<close>

definition passedOn :: "'m symlink_effect list \<Rightarrow> 'm symlink_effect list" where
  "passedOn es = filter (\<lambda>e. case e of PassOn p m tag \<Rightarrow> True | _ \<Rightarrow> False) es"

lemma RemoveSymlink_silent: "passedOn (sr_log (snd (RemoveSymlink p r))) = passedOn (sr_log r)"
  by (auto simp: RemoveSymlink_def Let_def passedOn_def sr_emit_def split: option.split prod.split)

lemma PutSymlink_silent:
  "sourcesOf r d = [] \<Longrightarrow> passedOn (sr_log (snd (PutSymlink subscribe p d r))) = passedOn (sr_log r)"
  by (auto simp: PutSymlink_def Let_def passedOn_def sr_emit_def sourcesOf_def split: option.split prod.split)

theorem retargeted_link_is_silent:
  assumes "symlink_reachable r" "linkTo r p = Some d" "linkIn x = e" "e \<noteq> ''''" "e \<noteq> d" "\<nexists>s. linkTo r s = Some e"
  shows "passedOn (sr_log (symlink_TreeNodeUpdated subscribe linkIn p (Some x) tag False r)) = passedOn (sr_log r)"
proof -
  have ok: "linksOK r"
    by (rule reachable_linksOK [OF assms(1)])
  have old: "oldSymLinkPath p r = d" "d \<noteq> ''''"
    using oldSymLinkPath_linkTo [OF ok, of p] assms(2) by (auto split: if_splits)
  let ?r1 = "snd (RemoveSymlink p r)"
  have r1: "linksOK ?r1" "linkTo ?r1 = (linkTo r)(p := None)"
    using linksOK_RemoveSymlink [OF ok assms(2)] by simp_all
  have "sourcesOf ?r1 e = []"
    using linked_sources [OF r1(1), of e] assms(6) r1(2) by (auto split: if_splits)
  then show ?thesis
    using assms(3-5) old PutSymlink_silent [of ?r1 e subscribe p] RemoveSymlink_silent [of p r]
    by (simp add: symlink_TreeNodeUpdated_def FilterTreeNodeUpdate_def Let_def)
qed

end
