(* ===== verification/ZG_TreeDatabase.thy ===== *)
theory ZG_TreeDatabase
  imports ZG_TreeGateway ZG_DatabaseObject ZG_Tables
begin

text \<open>
  \<^verbatim>\<open>MessageTreeDatabaseObject\<close>: a replicated database whose contents are a subtree of
  MUSCLE's node tree.  The nodes belong to the \<^verbatim>\<open>MessageTreeDatabasePeerSession\<close>; a call on
  it changes them and notifies the database of each change, and from the notifications the
  database composes the Message its junior peers replay, and keeps its running checksum.  The
  subclass \<^verbatim>\<open>UndoStackMessageTreeDatabaseObject\<close> composes the opposite Message as well.

  The node tree itself (\<^verbatim>\<open>StorageReflectSession\<close>, \<^verbatim>\<open>DataNode\<close>) is MUSCLE's, so its operations
  are parameters: each takes the nodes of this database and gives a status, the notifications
  in the order they are made, and the nodes after it.  A notification makes no change to the
  nodes, so handling the notifications after the call is the same as handling them during it.
  A database always has its session here, so the branches for a missing one do not occur.
\<close>

section \<open>Nodes and notifications\<close>

text \<open>
  A node is its path relative to the root of the database, its payload, and its index: the names
  of those children that have an order.  The root has the empty path.
\<close>

type_synonym 'm dnode = "string \<times> 'm \<times> string list"
type_synonym 'm node_tree = "'m dnode list"

datatype index_op = INDEX_OP_ENTRYINSERTED | INDEX_OP_ENTRYREMOVED | INDEX_OP_CLEARED

text \<open>
  What \<^verbatim>\<open>NotifySubscribersThatNodeChanged\<close> and \<^verbatim>\<open>NotifySubscribersThatNodeIndexChanged\<close> hand to
  the database: the path, the payload, the payload before, what \<^verbatim>\<open>CalculateChecksum\<close> of the
  node returns at that moment, and whether the node is being removed; or the path, the kind of
  index change, its position and the name.
\<close>

datatype 'm tree_event =
    NodeUpdated string 'm "'m option" u32 bool
  | IndexUpdated string index_op u32 string

type_synonym 'm store_call = "'m node_tree \<Rightarrow> status_t \<times> 'm tree_event list \<times> 'm node_tree"

definition payloadAt :: "string \<Rightarrow> 'm node_tree \<Rightarrow> 'm option" where
  "payloadAt path t = (case tabGet fst path t of None \<Rightarrow> None | Some (_, d, _) \<Rightarrow> Some d)"

definition indexAt :: "string \<Rightarrow> 'm node_tree \<Rightarrow> string list" where
  "indexAt path t = (case tabGet fst path t of None \<Rightarrow> [] | Some (_, _, ix) \<Rightarrow> ix)"

section \<open>Messages\<close>

text \<open>
  The commands between the peers of a database.  A field that is absent reads as its default, so
  a record of the fields by the names \<^verbatim>\<open>MTDO_NAME_PATH\<close> to \<^verbatim>\<open>MTDO_NAME_TAG\<close> is enough.
\<close>

definition MTDO_COMMAND_NOOP :: u32 where
  "MTDO_COMMAND_NOOP = 1836344163"

abbreviation "MTDO_COMMAND_UPDATENODEVALUE \<equiv> MTDO_COMMAND_NOOP + 1"
abbreviation "MTDO_COMMAND_UPDATESUBTREE \<equiv> MTDO_COMMAND_NOOP + 2"
abbreviation "MTDO_COMMAND_INSERTINDEXENTRY \<equiv> MTDO_COMMAND_NOOP + 3"
abbreviation "MTDO_COMMAND_REMOVEINDEXENTRY \<equiv> MTDO_COMMAND_NOOP + 4"

definition MTDO_SENIOR_COMMAND_REQUESTDELETENODES :: u32 where
  "MTDO_SENIOR_COMMAND_REQUESTDELETENODES = 1836348259"

abbreviation "MTDO_SENIOR_COMMAND_MOVEINDEXENTRY \<equiv> MTDO_SENIOR_COMMAND_REQUESTDELETENODES + 1"

record ('m, 'q) mtdo_command =
  mc_what :: u32
  mc_path :: string
  mc_payload :: "'m option"
  mc_flags :: flags
  mc_before :: string
  mc_filter :: "'q option"
  mc_index :: u32
  mc_key :: string
  mc_tag :: string

text \<open>A command, or a \<^verbatim>\<open>PR_COMMAND_BATCH\<close> of Messages.\<close>

datatype ('m, 'q) mtdo_msg = Command "('m, 'q) mtdo_command" | Batch "('m, 'q) mtdo_msg list"

definition newCommand :: "u32 \<Rightarrow> ('m, 'q) mtdo_command" where
  "newCommand w = \<lparr> mc_what = w, mc_path = '''', mc_payload = None, mc_flags = 0, mc_before = '''', mc_filter = None,
     mc_index = 0, mc_key = '''', mc_tag = '''' \<rparr>"

definition CreateNodeUpdateMessage ::
  "string \<Rightarrow> 'm option \<Rightarrow> flags \<Rightarrow> string \<Rightarrow> string \<Rightarrow> ('m, 'q) mtdo_msg" where
  "CreateNodeUpdateMessage path optPayload flags optBefore optOpTag =
     Command ((newCommand MTDO_COMMAND_UPDATENODEVALUE)\<lparr> mc_path := path, mc_payload := optPayload, mc_flags := flags,
       mc_before := optBefore, mc_tag := optOpTag \<rparr>)"

definition CreateSubtreeUpdateMessage :: "string \<Rightarrow> 'm \<Rightarrow> flags \<Rightarrow> string \<Rightarrow> ('m, 'q) mtdo_msg" where
  "CreateSubtreeUpdateMessage path payload flags optOpTag =
     Command ((newCommand MTDO_COMMAND_UPDATESUBTREE)\<lparr> mc_path := path, mc_payload := Some payload, mc_flags := flags,
       mc_tag := optOpTag \<rparr>)"

text \<open>No Message is made for a cleared index.\<close>

definition CreateNodeIndexUpdateMessage ::
  "string \<Rightarrow> index_op \<Rightarrow> u32 \<Rightarrow> string \<Rightarrow> string \<Rightarrow> ('m, 'q) mtdo_msg option" where
  "CreateNodeIndexUpdateMessage relativePath op index key optOpTag =
     (let whatCode = (case op of INDEX_OP_ENTRYINSERTED \<Rightarrow> MTDO_COMMAND_INSERTINDEXENTRY
                               | INDEX_OP_ENTRYREMOVED \<Rightarrow> MTDO_COMMAND_REMOVEINDEXENTRY
                               | INDEX_OP_CLEARED \<Rightarrow> 0)
      in if whatCode \<noteq> 0
         then Some (Command ((newCommand whatCode)\<lparr> mc_path := relativePath, mc_index := index, mc_key := key, mc_tag := optOpTag \<rparr>))
         else None)"

text \<open>The four requests a client's call becomes.\<close>

definition mt_RequestDeleteNodes :: "('f \<Rightarrow> 'q) \<Rightarrow> string \<Rightarrow> 'f option \<Rightarrow> flags \<Rightarrow> string \<Rightarrow> ('m, 'q) mtdo_msg" where
  "mt_RequestDeleteNodes archive path optFilter flags optOpTag =
     Command ((newCommand MTDO_SENIOR_COMMAND_REQUESTDELETENODES)\<lparr> mc_filter := map_option archive optFilter, mc_path := path,
       mc_tag := optOpTag, mc_flags := flags \<rparr>)"

definition mt_RequestMoveIndexEntry ::
  "('f \<Rightarrow> 'q) \<Rightarrow> string \<Rightarrow> string \<Rightarrow> 'f option \<Rightarrow> flags \<Rightarrow> string \<Rightarrow> ('m, 'q) mtdo_msg" where
  "mt_RequestMoveIndexEntry archive path optBefore optFilter flags optOpTag =
     Command ((newCommand MTDO_SENIOR_COMMAND_MOVEINDEXENTRY)\<lparr> mc_filter := map_option archive optFilter, mc_path := path,
       mc_tag := optOpTag, mc_flags := flags, mc_before := optBefore \<rparr>)"

section \<open>The node store\<close>

datatype sdn_flag =
    SETDATANODE_FLAG_ADDTOINDEX
  | SETDATANODE_FLAG_DONTCREATENODE
  | SETDATANODE_FLAG_DONTOVERWRITEDATA
  | SETDATANODE_FLAG_ENABLESUPERCEDE

text \<open>
  The root path of the database, whether it is the subclass with the undo stack, and MUSCLE's
  functions.  Paths of the store are relative to the session.  \<open>RemoveDataNodes\<close> and
  \<open>MoveIndexEntries\<close> touch only nodes of this database: that is the effect of
  \<^verbatim>\<open>SafeQueryFilter\<close>, which the code adds to the caller's filter.
\<close>

record ('m, 'f, 'q) tree_env =
  rootNodePathWithoutSlash :: string
  isUndoStack :: bool
  WithAppendedWord :: "string \<Rightarrow> string \<Rightarrow> string"
  SetDataNode :: "string \<Rightarrow> 'm \<Rightarrow> sdn_flag set \<Rightarrow> string option \<Rightarrow> 'm store_call"
  RemoveDataNodes :: "string \<Rightarrow> 'f option \<Rightarrow> bool \<Rightarrow> 'm store_call"
  MoveIndexEntries :: "string \<Rightarrow> string option \<Rightarrow> 'f option \<Rightarrow> 'm store_call"
  RestoreNodeTreeFromMessage :: "'m \<Rightarrow> string \<Rightarrow> 'm store_call"
  SaveNodeTreeToMessage :: "'m node_tree \<Rightarrow> status_t + 'm"
  InsertIndexEntryAt :: "string \<Rightarrow> u32 \<Rightarrow> string \<Rightarrow> 'm store_call"
  RemoveIndexEntryAt :: "string \<Rightarrow> u32 \<Rightarrow> 'm store_call"
  GetDataNode :: "string \<Rightarrow> 'm node_tree \<Rightarrow> 'm option"
  GetMaxKnownChildIDHint :: "string \<Rightarrow> 'm node_tree \<Rightarrow> u32"
  HasChild :: "string \<Rightarrow> string \<Rightarrow> 'm node_tree \<Rightarrow> bool"
  NodeChecksum :: "string \<Rightarrow> 'm node_tree \<Rightarrow> u32"
  MessageChecksum :: "'m \<Rightarrow> u32"
  StringChecksum :: "string \<Rightarrow> u32"
  symlinkTarget :: "'m \<Rightarrow> string option"
  emptyMessage :: "'m"
  CreateQueryFilter :: "'q \<Rightarrow> 'f option"
  AssembleBatchMessage :: "('m, 'q) mtdo_msg option \<Rightarrow> ('m, 'q) mtdo_msg \<Rightarrow> bool \<Rightarrow> ('m, 'q) mtdo_msg"

section \<open>The database object\<close>

text \<open>
  \<open>md_tree\<close> are the session's nodes below the root of the database.  The argument \<open>senior\<close> of
  the operations is \<^verbatim>\<open>IsInSeniorDatabaseUpdateContext\<close>.
\<close>

record ('m, 'q) mtdo =
  md_tree :: "'m node_tree"
  md_assembledJuniorMessage :: "('m, 'q) mtdo_msg option"
  md_assembledJuniorUndoMessage :: "('m, 'q) mtdo_msg option"
  md_interimUpdateNestCount :: nat
  md_inUndoRedoContextNestCount :: nat
  md_checksum :: u32
  md_opTagStack :: "string list"

definition newMtdo :: "('m, 'q) mtdo" where
  "newMtdo = \<lparr> md_tree = [], md_assembledJuniorMessage = None, md_assembledJuniorUndoMessage = None,
     md_interimUpdateNestCount = 0, md_inUndoRedoContextNestCount = 0, md_checksum = 0, md_opTagStack = [] \<rparr>"

definition GetCurrentOpTag :: "('m, 'q) mtdo \<Rightarrow> string" where
  "GetCurrentOpTag d = (if md_opTagStack d = [] then '''' else last (md_opTagStack d))"

text \<open>\<^verbatim>\<open>OpTagGuard\<close> around the rest of a function.\<close>

definition withOpTag :: "string \<Rightarrow> (('m, 'q) mtdo \<Rightarrow> ('r \<times> ('m, 'q) mtdo) option) \<Rightarrow> ('m, 'q) mtdo \<Rightarrow> ('r \<times> ('m, 'q) mtdo) option" where
  "withOpTag optOpTag body d =
     (if optOpTag = '''' then body d
      else map_option (\<lambda>(r, d'). (r, d'\<lparr> md_opTagStack := butlast (md_opTagStack d') \<rparr>))
             (body (d\<lparr> md_opTagStack := md_opTagStack d @ [optOpTag] \<rparr>)))"

definition ConvertTreeGatewayFlagsToSetDataNodeFlags :: "flags \<Rightarrow> sdn_flag set" where
  "ConvertTreeGatewayFlagsToSetDataNodeFlags tgf =
     (if bit tgf TREE_GATEWAY_FLAG_INDEXED then {SETDATANODE_FLAG_ADDTOINDEX} else {}) \<union>
     (if bit tgf TREE_GATEWAY_FLAG_DONTCREATENODE then {SETDATANODE_FLAG_DONTCREATENODE} else {}) \<union>
     (if bit tgf TREE_GATEWAY_FLAG_DONTOVERWRITEDATA then {SETDATANODE_FLAG_DONTOVERWRITEDATA} else {}) \<union>
     (if bit tgf TREE_GATEWAY_FLAG_ENABLESUPERCEDE then {SETDATANODE_FLAG_ENABLESUPERCEDE} else {})"

definition mt_GetDataNode :: "('m, 'f, 'q) tree_env \<Rightarrow> string \<Rightarrow> 'm node_tree \<Rightarrow> 'm option" where
  "mt_GetDataNode E nodePath t =
     GetDataNode E (if take 1 nodePath = ''/'' then nodePath
                    else if nodePath \<noteq> '''' then WithAppendedWord E (rootNodePathWithoutSlash E) nodePath
                    else rootNodePathWithoutSlash E) t"

definition DatabaseSubpathToSessionRelativePath ::
  "('m, 'f, 'q) tree_env \<Rightarrow> string \<Rightarrow> flags \<Rightarrow> 'm node_tree \<Rightarrow> string" where
  "DatabaseSubpathToSessionRelativePath E subPath flags t =
     (let ret = (if subPath \<noteq> '''' then WithAppendedWord E (rootNodePathWithoutSlash E) subPath else rootNodePathWithoutSlash E)
      in if bit flags TREE_GATEWAY_FLAG_TRAVERSE_SYMLINK
         then (case mt_GetDataNode E subPath t of
                 None \<Rightarrow> ret
               | Some dn \<Rightarrow> (case symlinkTarget E dn of None \<Rightarrow> ret | Some target \<Rightarrow> target))
         else ret)"

section \<open>Notifications\<close>

text \<open>
  \<open>SeniorRecordNodeUpdateMessage\<close> of the base class files the command; the subclass also
  files the opposite command at the other end of its undo Message.
\<close>

definition recordNodeUpdate ::
  "('m, 'f, 'q) tree_env \<Rightarrow> string \<Rightarrow> 'm option \<Rightarrow> ('m, 'q) mtdo \<Rightarrow> ('m, 'q) mtdo_msg option \<Rightarrow> bool \<Rightarrow> string \<Rightarrow> ('m, 'q) mtdo_msg" where
  "recordNodeUpdate E relativePath newPayload d assemblingMessage prepend optOpTag =
     AssembleBatchMessage E assemblingMessage
       (CreateNodeUpdateMessage relativePath newPayload
          (if md_interimUpdateNestCount d > 0 then set_bit TREE_GATEWAY_FLAG_INTERIM 0 else 0) '''' optOpTag) prepend"

definition SeniorRecordNodeUpdateMessage ::
  "('m, 'f, 'q) tree_env \<Rightarrow> string \<Rightarrow> 'm option \<Rightarrow> 'm option \<Rightarrow> string \<Rightarrow> ('m, 'q) mtdo \<Rightarrow> ('m, 'q) mtdo" where
  "SeniorRecordNodeUpdateMessage E relativePath oldPayload newPayload optOpTag d =
     (let d1 = d\<lparr> md_assembledJuniorMessage :=
                   Some (recordNodeUpdate E relativePath newPayload d (md_assembledJuniorMessage d) False optOpTag) \<rparr>
      in if isUndoStack E
         then d1\<lparr> md_assembledJuniorUndoMessage :=
                   Some (recordNodeUpdate E relativePath oldPayload d1 (md_assembledJuniorUndoMessage d1) True optOpTag) \<rparr>
         else d1)"

definition recordIndexUpdate ::
  "('m, 'f, 'q) tree_env \<Rightarrow> string \<Rightarrow> index_op \<Rightarrow> u32 \<Rightarrow> string \<Rightarrow> ('m, 'q) mtdo_msg option \<Rightarrow> bool \<Rightarrow> string \<Rightarrow> ('m, 'q) mtdo_msg option" where
  "recordIndexUpdate E relativePath op index key assemblingMessage prepend optOpTag =
     (case CreateNodeIndexUpdateMessage relativePath op index key optOpTag of
        None \<Rightarrow> None
      | Some msg \<Rightarrow> Some (AssembleBatchMessage E assemblingMessage msg prepend))"

definition SeniorRecordNodeIndexUpdateMessage ::
  "('m, 'f, 'q) tree_env \<Rightarrow> string \<Rightarrow> index_op \<Rightarrow> u32 \<Rightarrow> string \<Rightarrow> string \<Rightarrow> ('m, 'q) mtdo \<Rightarrow> ('m, 'q) mtdo" where
  "SeniorRecordNodeIndexUpdateMessage E relativePath op index key optOpTag d =
     (case recordIndexUpdate E relativePath op index key (md_assembledJuniorMessage d) False optOpTag of
        None \<Rightarrow> d
      | Some m \<Rightarrow>
          (let d1 = d\<lparr> md_assembledJuniorMessage := Some m \<rparr>
           in if isUndoStack E
              then (case recordIndexUpdate E relativePath
                           (if op = INDEX_OP_ENTRYINSERTED then INDEX_OP_ENTRYREMOVED else INDEX_OP_ENTRYINSERTED)
                           index key (md_assembledJuniorUndoMessage d1) True optOpTag of
                      None \<Rightarrow> d1
                    | Some u \<Rightarrow> d1\<lparr> md_assembledJuniorUndoMessage := Some u \<rparr>)
              else d1))"

definition MessageTreeNodeUpdated ::
  "('m, 'f, 'q) tree_env \<Rightarrow> bool \<Rightarrow> string \<Rightarrow> 'm \<Rightarrow> 'm option \<Rightarrow> u32 \<Rightarrow> bool \<Rightarrow> ('m, 'q) mtdo \<Rightarrow> ('m, 'q) mtdo" where
  "MessageTreeNodeUpdated E senior relativePath nodeData oldPayload nodeSum isBeingRemoved d =
     (let d1 = (if senior
                then SeniorRecordNodeUpdateMessage E relativePath oldPayload (if isBeingRemoved then None else Some nodeData)
                       (GetCurrentOpTag d) d
                else d)
      in d1\<lparr> md_checksum :=
           (if isBeingRemoved then md_checksum d1 - nodeSum
            else case oldPayload of
                   Some old \<Rightarrow> md_checksum d1 - MessageChecksum E old + MessageChecksum E nodeData
                 | None \<Rightarrow> md_checksum d1 + nodeSum) \<rparr>)"

definition MessageTreeNodeIndexChanged ::
  "('m, 'f, 'q) tree_env \<Rightarrow> bool \<Rightarrow> string \<Rightarrow> index_op \<Rightarrow> u32 \<Rightarrow> string \<Rightarrow> ('m, 'q) mtdo \<Rightarrow> ('m, 'q) mtdo" where
  "MessageTreeNodeIndexChanged E senior relativePath op index key d =
     (let d1 = (if senior then SeniorRecordNodeIndexUpdateMessage E relativePath op index key (GetCurrentOpTag d) d else d)
      in (case op of
            INDEX_OP_ENTRYINSERTED \<Rightarrow> d1\<lparr> md_checksum := md_checksum d1 + StringChecksum E key \<rparr>
          | INDEX_OP_ENTRYREMOVED \<Rightarrow> d1\<lparr> md_checksum := md_checksum d1 - StringChecksum E key \<rparr>
          | INDEX_OP_CLEARED \<Rightarrow> d1))"

fun notifyDatabase :: "('m, 'f, 'q) tree_env \<Rightarrow> bool \<Rightarrow> 'm tree_event \<Rightarrow> ('m, 'q) mtdo \<Rightarrow> ('m, 'q) mtdo" where
  "notifyDatabase E senior (NodeUpdated path nodeData oldPayload nodeSum isBeingRemoved) d =
     MessageTreeNodeUpdated E senior path nodeData oldPayload nodeSum isBeingRemoved d"
| "notifyDatabase E senior (IndexUpdated path op index key) d = MessageTreeNodeIndexChanged E senior path op index key d"

text \<open>A call on the store, with the notifications it makes.\<close>

definition storeCall ::
  "('m, 'f, 'q) tree_env \<Rightarrow> bool \<Rightarrow> 'm store_call \<Rightarrow> ('m, 'q) mtdo \<Rightarrow> status_t \<times> ('m, 'q) mtdo" where
  "storeCall E senior call d =
     (case call (md_tree d) of (st, evs, t') \<Rightarrow> (st, fold (notifyDatabase E senior) evs (d\<lparr> md_tree := t' \<rparr>)))"

section \<open>Handlers\<close>

definition mt_RemoveDataNodes ::
  "('m, 'f, 'q) tree_env \<Rightarrow> bool \<Rightarrow> string \<Rightarrow> 'f option \<Rightarrow> bool \<Rightarrow> string \<Rightarrow> ('m, 'q) mtdo \<Rightarrow> (status_t \<times> ('m, 'q) mtdo) option" where
  "mt_RemoveDataNodes E senior nodePath filterRef quiet optOpTag d =
     withOpTag optOpTag (\<lambda>d. Some (storeCall E senior (RemoveDataNodes E nodePath filterRef quiet) d)) d"

definition mt_MoveIndexEntries ::
  "('m, 'f, 'q) tree_env \<Rightarrow> bool \<Rightarrow> string \<Rightarrow> string \<Rightarrow> 'f option \<Rightarrow> string \<Rightarrow> ('m, 'q) mtdo \<Rightarrow> (status_t \<times> ('m, 'q) mtdo) option" where
  "mt_MoveIndexEntries E senior nodePath optBefore filterRef optOpTag d =
     withOpTag optOpTag (\<lambda>d. Some (storeCall E senior
       (MoveIndexEntries E nodePath (if optBefore = '''' then None else Some optBefore) filterRef) d)) d"

text \<open>
  \<^verbatim>\<open>GetUnusedNodeID\<close> of the session: an ID below 100000 that no child has, with or without the
  \<^verbatim>\<open>I\<close> of an indexed node, searched from the hint on.  When the parent is missing it is created
  and the function starts over, so its ending rests on the store finding what it has just set.
\<close>

definition NUM_NODE_IDS :: u32 where
  "NUM_NODE_IDS = 100000"

definition nodeIDTaken :: "('m, 'f, 'q) tree_env \<Rightarrow> string \<Rightarrow> 'm node_tree \<Rightarrow> u32 \<Rightarrow> bool" where
  "nodeIDTaken E path t nextID \<longleftrightarrow>
     HasChild E path (decimal (unat nextID)) t \<or> HasChild E path (CHR ''I'' # decimal (unat nextID)) t"

fun findUnusedID :: "(u32 \<Rightarrow> bool) \<Rightarrow> nat \<Rightarrow> u32 \<Rightarrow> u32 option" where
  "findUnusedID taken 0 nextID = None"
| "findUnusedID taken (Suc n) nextID =
     (if taken nextID then findUnusedID taken n ((nextID + 1) mod NUM_NODE_IDS) else Some nextID)"

partial_function (option) GetUnusedNodeID ::
  "('m, 'f, 'q) tree_env \<Rightarrow> bool \<Rightarrow> string \<Rightarrow> ('m, 'q) mtdo \<Rightarrow> ((status_t + u32) \<times> ('m, 'q) mtdo) option" where
  "GetUnusedNodeID E senior path d =
     (case GetDataNode E path (md_tree d) of
        None \<Rightarrow>
          (case storeCall E senior (SetDataNode E path (emptyMessage E) {} None) d of
             (st, d1) \<Rightarrow> if IsError st then Some (Inl st, d1) else GetUnusedNodeID E senior path d1)
      | Some _ \<Rightarrow>
          (case findUnusedID (nodeIDTaken E path (md_tree d)) (unat NUM_NODE_IDS)
                  (GetMaxKnownChildIDHint E path (md_tree d) mod NUM_NODE_IDS) of
             None \<Rightarrow> Some (Inl B_ERROR, d)
           | Some retID \<Rightarrow> Some (Inr retID, d)))"

declare GetUnusedNodeID.simps [code]

text \<open>The path a node value goes to: a senior given a trailing slash chooses the name of the node.\<close>

definition choosePath ::
  "('m, 'f, 'q) tree_env \<Rightarrow> bool \<Rightarrow> string \<Rightarrow> flags \<Rightarrow> ('m, 'q) mtdo \<Rightarrow> ((status_t + string) \<times> ('m, 'q) mtdo) option" where
  "choosePath E senior sessionRelativePath flags d =
     (if senior \<and> sessionRelativePath \<noteq> '''' \<and> last sessionRelativePath = CHR ''/''
      then (case GetUnusedNodeID E senior (butlast sessionRelativePath) d of
              None \<Rightarrow> None
            | Some (Inl st, d1) \<Rightarrow> Some (Inl st, d1)
            | Some (Inr newNodeID, d1) \<Rightarrow>
                Some (Inr (butlast sessionRelativePath @ ''/'' @ (if bit flags TREE_GATEWAY_FLAG_INDEXED then ''I'' else '''') @
                           decimal (unat newNodeID)), d1))
      else Some (Inr sessionRelativePath, d))"

definition toleratesDenial :: "flags \<Rightarrow> bool" where
  "toleratesDenial flags \<longleftrightarrow> bit flags TREE_GATEWAY_FLAG_DONTCREATENODE \<or> bit flags TREE_GATEWAY_FLAG_DONTOVERWRITEDATA"

definition HandleNodeUpdateMessageAux ::
  "('m, 'f, 'q) tree_env \<Rightarrow> bool \<Rightarrow> ('m, 'q) mtdo_command \<Rightarrow> ('m, 'q) mtdo \<Rightarrow> (status_t \<times> ('m, 'q) mtdo) option" where
  "HandleNodeUpdateMessageAux E senior msg d =
     withOpTag (mc_tag msg) (\<lambda>d.
       case mc_payload msg of
         Some optPayload \<Rightarrow>
           (case choosePath E senior (DatabaseSubpathToSessionRelativePath E (mc_path msg) (mc_flags msg) (md_tree d)) (mc_flags msg) d of
              None \<Rightarrow> None
            | Some (Inl st, d1) \<Rightarrow> Some (st, d1)
            | Some (Inr path, d1) \<Rightarrow>
                (case storeCall E senior
                        (SetDataNode E path optPayload (ConvertTreeGatewayFlagsToSetDataNodeFlags (mc_flags msg))
                           (if mc_before msg = '''' then None else Some (mc_before msg))) d1 of
                   (ret, d2) \<Rightarrow>
                     Some (if IsOK ret \<or> ret = B_ACCESS_DENIED \<and> toleratesDenial (mc_flags msg) then B_NO_ERROR else ret, d2)))
       | None \<Rightarrow>
           mt_RemoveDataNodes E senior (DatabaseSubpathToSessionRelativePath E (mc_path msg) (mc_flags msg) (md_tree d)) None
             (bit (mc_flags msg) TREE_GATEWAY_FLAG_NOREPLY) '''' d) d"

definition IsOkayToHandleUpdateMessage ::
  "('m, 'f, 'q) tree_env \<Rightarrow> string \<Rightarrow> flags \<Rightarrow> ('m, 'q) mtdo \<Rightarrow> bool" where
  "IsOkayToHandleUpdateMessage E path flags d \<longleftrightarrow>
     \<not> isUndoStack E \<or> md_inUndoRedoContextNestCount d = 0 \<or>
     \<not> bit flags TREE_GATEWAY_FLAG_INTERIM \<and> take 5 path \<noteq> ''undo/'' \<and> take 5 path \<noteq> ''redo/''"

definition HandleNodeUpdateMessage ::
  "('m, 'f, 'q) tree_env \<Rightarrow> bool \<Rightarrow> ('m, 'q) mtdo_command \<Rightarrow> ('m, 'q) mtdo \<Rightarrow> (status_t \<times> ('m, 'q) mtdo) option" where
  "HandleNodeUpdateMessage E senior msg d =
     (if \<not> IsOkayToHandleUpdateMessage E (mc_path msg) (mc_flags msg) d then Some (B_NO_ERROR, d)
      else if bit (mc_flags msg) TREE_GATEWAY_FLAG_INTERIM
      then map_option (\<lambda>(ret, d'). (ret, d'\<lparr> md_interimUpdateNestCount := md_interimUpdateNestCount d' - 1 \<rparr>))
             (HandleNodeUpdateMessageAux E senior msg (d\<lparr> md_interimUpdateNestCount := md_interimUpdateNestCount d + 1 \<rparr>))
      else HandleNodeUpdateMessageAux E senior msg d)"

definition HandleNodeIndexUpdateMessage ::
  "('m, 'f, 'q) tree_env \<Rightarrow> bool \<Rightarrow> ('m, 'q) mtdo_command \<Rightarrow> ('m, 'q) mtdo \<Rightarrow> (status_t \<times> ('m, 'q) mtdo) option" where
  "HandleNodeIndexUpdateMessage E senior msg d =
     (if \<not> IsOkayToHandleUpdateMessage E (mc_path msg) 0 d then Some (B_NO_ERROR, d)
      else let path = DatabaseSubpathToSessionRelativePath E (mc_path msg) (mc_flags msg) (md_tree d)
           in case GetDataNode E path (md_tree d) of
                None \<Rightarrow> Some (B_DATA_NOT_FOUND, d)
              | Some _ \<Rightarrow>
                  withOpTag (mc_tag msg) (\<lambda>d. Some (B_NO_ERROR, snd (storeCall E senior
                    (if mc_what msg = MTDO_COMMAND_INSERTINDEXENTRY then InsertIndexEntryAt E path (mc_index msg) (mc_key msg)
                     else RemoveIndexEntryAt E path (mc_index msg)) d))) d)"

definition HandleSubtreeUpdateMessage ::
  "('m, 'f, 'q) tree_env \<Rightarrow> bool \<Rightarrow> ('m, 'q) mtdo_command \<Rightarrow> ('m, 'q) mtdo \<Rightarrow> (status_t \<times> ('m, 'q) mtdo) option" where
  "HandleSubtreeUpdateMessage E senior msg d =
     (case mc_payload msg of
        Some payload \<Rightarrow>
          withOpTag (mc_tag msg) (\<lambda>d. Some (storeCall E senior (RestoreNodeTreeFromMessage E payload
            (DatabaseSubpathToSessionRelativePath E (mc_path msg) (mc_flags msg) (md_tree d))) d)) d
      | None \<Rightarrow> Some (B_BAD_ARGUMENT, d))"

section \<open>Updates\<close>

definition instantiateFilter :: "('m, 'f, 'q) tree_env \<Rightarrow> ('m, 'q) mtdo_command \<Rightarrow> 'f option" where
  "instantiateFilter E msg = (case mc_filter msg of None \<Rightarrow> None | Some q \<Rightarrow> CreateQueryFilter E q)"

definition seniorCommand ::
  "('m, 'f, 'q) tree_env \<Rightarrow> ('m, 'q) mtdo_command \<Rightarrow> ('m, 'q) mtdo \<Rightarrow> (status_t \<times> ('m, 'q) mtdo) option" where
  "seniorCommand E msg d =
     (let w = mc_what msg; path = DatabaseSubpathToSessionRelativePath E (mc_path msg) (mc_flags msg) (md_tree d)
      in if w = MTDO_COMMAND_NOOP then Some (B_NO_ERROR, d)
         else if w = MTDO_COMMAND_UPDATENODEVALUE then HandleNodeUpdateMessage E True msg d
         else if w = MTDO_COMMAND_UPDATESUBTREE then HandleSubtreeUpdateMessage E True msg d
         else if w = MTDO_COMMAND_INSERTINDEXENTRY \<or> w = MTDO_COMMAND_REMOVEINDEXENTRY then HandleNodeIndexUpdateMessage E True msg d
         else if w = MTDO_SENIOR_COMMAND_REQUESTDELETENODES then
           mt_RemoveDataNodes E True path (instantiateFilter E msg) (bit (mc_flags msg) TREE_GATEWAY_FLAG_NOREPLY) (mc_tag msg) d
         else if w = MTDO_SENIOR_COMMAND_MOVEINDEXENTRY then
           mt_MoveIndexEntries E True path (mc_before msg) (instantiateFilter E msg) (mc_tag msg) d
         else Some (B_UNIMPLEMENTED, d))"

definition juniorCommand ::
  "('m, 'f, 'q) tree_env \<Rightarrow> ('m, 'q) mtdo_command \<Rightarrow> ('m, 'q) mtdo \<Rightarrow> (status_t \<times> ('m, 'q) mtdo) option" where
  "juniorCommand E msg d =
     (let w = mc_what msg
      in if w = MTDO_COMMAND_NOOP then Some (B_NO_ERROR, d)
         else if w = MTDO_COMMAND_UPDATENODEVALUE then HandleNodeUpdateMessage E False msg d
         else if w = MTDO_COMMAND_UPDATESUBTREE then Some (B_BAD_ARGUMENT, d)
         else if w = MTDO_COMMAND_INSERTINDEXENTRY \<or> w = MTDO_COMMAND_REMOVEINDEXENTRY then HandleNodeIndexUpdateMessage E False msg d
         else Some (B_UNIMPLEMENTED, d))"

text \<open>A batch stops at the first of its Messages that fails; what the ones before it did stays.\<close>

fun runMessage ::
  "(('m, 'q) mtdo_command \<Rightarrow> 'd \<Rightarrow> (status_t \<times> 'd) option) \<Rightarrow> ('m, 'q) mtdo_msg \<Rightarrow> 'd \<Rightarrow> (status_t \<times> 'd) option"
and runMessages ::
  "(('m, 'q) mtdo_command \<Rightarrow> 'd \<Rightarrow> (status_t \<times> 'd) option) \<Rightarrow> ('m, 'q) mtdo_msg list \<Rightarrow> 'd \<Rightarrow> (status_t \<times> 'd) option" where
  "runMessage handle (Command c) d = handle c d"
| "runMessage handle (Batch ms) d = runMessages handle ms d"
| "runMessages handle [] d = Some (B_NO_ERROR, d)"
| "runMessages handle (m # ms) d =
     (case runMessage handle m d of
        None \<Rightarrow> None
      | Some (st, d1) \<Rightarrow> if IsError st then Some (st, d1) else runMessages handle ms d1)"

text \<open>
  These are the methods of the base class.  The undo stack overrides the senior's: after each
  Message it also prunes the nodes of its stacks, which is not modelled.
\<close>

definition SeniorMessageTreeUpdate ::
  "('m, 'f, 'q) tree_env \<Rightarrow> ('m, 'q) mtdo_msg \<Rightarrow> ('m, 'q) mtdo \<Rightarrow> (status_t \<times> ('m, 'q) mtdo) option" where
  "SeniorMessageTreeUpdate E msg d = runMessage (seniorCommand E) msg d"

definition JuniorMessageTreeUpdate ::
  "('m, 'f, 'q) tree_env \<Rightarrow> ('m, 'q) mtdo_msg \<Rightarrow> ('m, 'q) mtdo \<Rightarrow> (status_t \<times> ('m, 'q) mtdo) option" where
  "JuniorMessageTreeUpdate E msg d = runMessage (juniorCommand E) msg d"

definition mt_SeniorUpdate ::
  "('m, 'f, 'q) tree_env \<Rightarrow> ('m, 'q) mtdo_msg \<Rightarrow> ('m, 'q) mtdo \<Rightarrow> (('m, 'q) mtdo_msg option \<times> ('m, 'q) mtdo) option" where
  "mt_SeniorUpdate E seniorDoMsg d =
     (case SeniorMessageTreeUpdate E seniorDoMsg d of
        None \<Rightarrow> None
      | Some (ret, d1) \<Rightarrow>
          Some (if IsError ret then (None, d1\<lparr> md_assembledJuniorMessage := None \<rparr>)
                else (Some (case md_assembledJuniorMessage d1 of None \<Rightarrow> Command (newCommand MTDO_COMMAND_NOOP) | Some m \<Rightarrow> m),
                      d1\<lparr> md_assembledJuniorMessage := None \<rparr>)))"

definition mt_JuniorUpdate ::
  "('m, 'f, 'q) tree_env \<Rightarrow> ('m, 'q) mtdo_msg \<Rightarrow> ('m, 'q) mtdo \<Rightarrow> (status_t \<times> ('m, 'q) mtdo) option" where
  "mt_JuniorUpdate E juniorDoMsg d = JuniorMessageTreeUpdate E juniorDoMsg d"

section \<open>Reset, archive, checksum\<close>

text \<open>
  A senior resets or replaces its database inside the same senior context as an update
  (\<^verbatim>\<open>PZGDatabaseState::HandleDatabaseUpdateRequest\<close>); a junior outside of it.
\<close>

definition mt_SetToDefaultState :: "('m, 'f, 'q) tree_env \<Rightarrow> bool \<Rightarrow> ('m, 'q) mtdo \<Rightarrow> ('m, 'q) mtdo" where
  "mt_SetToDefaultState E senior d = snd (storeCall E senior (RemoveDataNodes E (rootNodePathWithoutSlash E) None False) d)"

definition mt_SetFromArchive :: "('m, 'f, 'q) tree_env \<Rightarrow> bool \<Rightarrow> 'm \<Rightarrow> ('m, 'q) mtdo \<Rightarrow> status_t \<times> ('m, 'q) mtdo" where
  "mt_SetFromArchive E senior archive d = storeCall E senior (RestoreNodeTreeFromMessage E archive (rootNodePathWithoutSlash E)) d"

definition mt_SaveToArchive :: "('m, 'f, 'q) tree_env \<Rightarrow> ('m, 'q) mtdo \<Rightarrow> status_t + 'm" where
  "mt_SaveToArchive E d =
     (case GetDataNode E (rootNodePathWithoutSlash E) (md_tree d) of
        None \<Rightarrow> Inr (emptyMessage E) | Some _ \<Rightarrow> SaveNodeTreeToMessage E (md_tree d))"

definition mt_CalculateChecksum :: "('m, 'f, 'q) tree_env \<Rightarrow> ('m, 'q) mtdo \<Rightarrow> u32" where
  "mt_CalculateChecksum E d =
     (case GetDataNode E (rootNodePathWithoutSlash E) (md_tree d) of
        None \<Rightarrow> 0 | Some _ \<Rightarrow> NodeChecksum E (rootNodePathWithoutSlash E) (md_tree d))"

end
