(* ===== verification/ZG_TreeReplication.thy ===== *)
theory ZG_TreeReplication
  imports ZG_TreeDatabase
begin

text \<open>
  What a \<^verbatim>\<open>MessageTreeDatabaseObject\<close> owes its peers.  \<open>store_law\<close> says what the code relies on in
  MUSCLE's node store: every change that is not asked to be quiet is notified, in an order in
  which each single change could have been made by the plain call for it.  From it follow the
  replication of senior updates, the running checksum, and the effect of an undo Message.
\<close>

section \<open>Well-formed trees\<close>

definition single :: "string \<Rightarrow> bool" where
  "single k \<longleftrightarrow> k \<noteq> '''' \<and> CHR ''/'' \<notin> set k"

definition childPath :: "string \<Rightarrow> string \<Rightarrow> string" where
  "childPath p k = (if p = '''' then k else p @ CHR ''/'' # k)"

definition isNode :: "string \<Rightarrow> 'm node_tree \<Rightarrow> bool" where
  "isNode p t \<longleftrightarrow> tabGet fst p t \<noteq> None"

definition parentThere :: "string \<Rightarrow> 'm node_tree \<Rightarrow> bool" where
  "parentThere q t \<longleftrightarrow> q = '''' \<or> (\<exists>p k. single k \<and> q = childPath p k \<and> isNode p t)"

definition childless :: "string \<Rightarrow> 'm node_tree \<Rightarrow> bool" where
  "childless p t \<longleftrightarrow> (\<forall>k. single k \<longrightarrow> \<not> isNode (childPath p k) t)"

definition unlisted :: "string \<Rightarrow> 'm node_tree \<Rightarrow> bool" where
  "unlisted q t \<longleftrightarrow> (\<forall>p k. single k \<and> q = childPath p k \<longrightarrow> k \<notin> set (indexAt p t))"

definition treeOK :: "'m node_tree \<Rightarrow> bool" where
  "treeOK t \<longleftrightarrow> tabInv fst t \<and> (\<forall>q. isNode q t \<longrightarrow> parentThere q t) \<and>
     (\<forall>p k. k \<in> set (indexAt p t) \<longrightarrow> single k \<and> isNode (childPath p k) t)"

lemma childPath_inj:
  assumes "childPath p k = childPath p' k'" "single k" "single k'"
  shows "p = p' \<and> k = k'"
proof -
  have name: "takeWhile (\<lambda>c. c \<noteq> CHR ''/'') (rev (u @ CHR ''/'' # k)) = rev k" if "single k" for u k
    using that by (subst rev_append) (auto simp: single_def takeWhile_append)
  have "u = v \<and> k = k'" if "u @ CHR ''/'' # k = v @ CHR ''/'' # k'" for u v :: string
  proof -
    have "rev k = rev k'"
      using name [OF assms(2), of u] name [OF assms(3), of v] that by simp
    then show ?thesis
      using that by simp
  qed
  moreover have "p = '''' \<longleftrightarrow> p' = ''''"
    using assms unfolding single_def childPath_def by (metis in_set_conv_decomp)
  ultimately show ?thesis
    using assms(1) by (cases "p = ''''") (simp_all add: childPath_def)
qed

lemma childPath_root: "single k \<Longrightarrow> childPath p k \<noteq> ''''"
  by (simp add: childPath_def single_def)

lemma childPath_longer: "single k \<Longrightarrow> length p < length (childPath p k)"
  by (auto simp: childPath_def single_def)

section \<open>Single changes\<close>

definition changeIndex :: "index_op \<Rightarrow> nat \<Rightarrow> string \<Rightarrow> string list \<Rightarrow> string list" where
  "changeIndex op i k ix =
     (case op of INDEX_OP_ENTRYINSERTED \<Rightarrow> take i ix @ k # drop i ix
               | INDEX_OP_ENTRYREMOVED \<Rightarrow> take i ix @ drop (Suc i) ix
               | INDEX_OP_CLEARED \<Rightarrow> [])"

text \<open>What a notification says about the nodes.\<close>

fun applyEvent :: "'m tree_event \<Rightarrow> 'm node_tree \<Rightarrow> 'm node_tree" where
  "applyEvent (NodeUpdated p d old s removed) t =
     (if removed then tabRemove fst p t else tabPut fst (p, d, indexAt p t) t)"
| "applyEvent (IndexUpdated p op i k) t =
     (case payloadAt p t of None \<Rightarrow> t | Some d \<Rightarrow> tabPut fst (p, d, changeIndex op (unat i) k (indexAt p t)) t)"

text \<open>
  A change that can be made as it stands: a node is created below an existing one, removed when
  it has neither children nor a place in its parent's index, and index positions are in range.
  \<open>lit\<close> are the paths without wildcards, \<open>leafSum\<close> is the checksum of a node without children.
\<close>

fun occurs :: "(string \<Rightarrow> bool) \<Rightarrow> (string \<Rightarrow> 'm \<Rightarrow> u32) \<Rightarrow> 'm node_tree \<Rightarrow> 'm tree_event \<Rightarrow> bool" where
  "occurs lit leafSum t (NodeUpdated p d old s removed) \<longleftrightarrow>
     lit p \<and> payloadAt p t = old \<and>
     (if removed then old = Some d \<and> s = leafSum p d \<and> indexAt p t = [] \<and> childless p t \<and> unlisted p t
      else old = None \<longrightarrow> s = leafSum p d \<and> parentThere p t)"
| "occurs lit leafSum t (IndexUpdated p op i k) \<longleftrightarrow>
     lit p \<and> isNode p t \<and>
     (case op of INDEX_OP_ENTRYINSERTED \<Rightarrow> unat i \<le> length (indexAt p t) \<and> single k \<and> isNode (childPath p k) t
               | INDEX_OP_ENTRYREMOVED \<Rightarrow> unat i < length (indexAt p t) \<and> indexAt p t ! unat i = k
               | INDEX_OP_CLEARED \<Rightarrow> False)"

fun chain :: "(string \<Rightarrow> bool) \<Rightarrow> (string \<Rightarrow> 'm \<Rightarrow> u32) \<Rightarrow> 'm node_tree \<Rightarrow> 'm tree_event list \<Rightarrow> bool" where
  "chain lit leafSum t [] \<longleftrightarrow> True"
| "chain lit leafSum t (ev # evs) \<longleftrightarrow> occurs lit leafSum t ev \<and> chain lit leafSum (applyEvent ev t) evs"

definition treeAfter :: "'m tree_event list \<Rightarrow> 'm node_tree \<Rightarrow> 'm node_tree" where
  "treeAfter evs t = fold applyEvent evs t"

lemma treeAfter_simps [simp]:
  "treeAfter [] t = t" "treeAfter (ev # evs) t = treeAfter evs (applyEvent ev t)"
  "treeAfter (evs @ evs') t = treeAfter evs' (treeAfter evs t)"
  by (simp_all add: treeAfter_def)

lemma chain_append:
  "chain lit leafSum t (evs @ evs') \<longleftrightarrow> chain lit leafSum t evs \<and> chain lit leafSum (treeAfter evs t) evs'"
  by (induction evs arbitrary: t) auto

text \<open>Lookups after a change.\<close>

lemma payloadAt_simps:
  "payloadAt q (tabPut fst (p, d, ix) t) = (if q = p then Some d else payloadAt q t)"
  "payloadAt q (tabRemove fst p t) = (if q = p then None else payloadAt q t)"
  "indexAt q (tabPut fst (p, d, ix) t) = (if q = p then ix else indexAt q t)"
  "indexAt q (tabRemove fst p t) = (if q = p then [] else indexAt q t)"
  by (simp_all add: payloadAt_def indexAt_def table_simps)

lemma isNode_simps:
  "isNode q (tabPut fst (p, d, ix) t) \<longleftrightarrow> q = p \<or> isNode q t"
  "isNode q (tabRemove fst p t) \<longleftrightarrow> q \<noteq> p \<and> isNode q t"
  by (simp_all add: isNode_def table_simps)

lemma isNode_payload: "isNode p t \<longleftrightarrow> payloadAt p t \<noteq> None"
  by (auto simp: isNode_def payloadAt_def split: option.splits)

lemma indexAt_node: "k \<in> set (indexAt p t) \<Longrightarrow> isNode p t"
  by (cases "tabGet fst p t") (auto simp: indexAt_def isNode_def)

lemma treeOK_put:
  assumes "treeOK t" "parentThere p t" "\<forall>k \<in> set ix. single k \<and> (isNode (childPath p k) t)"
  shows "treeOK (tabPut fst (p, d, ix) t)"
proof -
  have "parentThere q t \<Longrightarrow> parentThere q (tabPut fst (p, d, ix) t)" for q
    unfolding parentThere_def isNode_simps by blast
  then show ?thesis
    using assms unfolding treeOK_def payloadAt_simps isNode_simps by (auto simp: table_simps)
qed

lemma treeOK_remove:
  assumes "treeOK t" "childless p t" "unlisted p t"
  shows "treeOK (tabRemove fst p t)"
proof -
  have "parentThere q (tabRemove fst p t)" if "q \<noteq> p" "isNode q t" for q
  proof -
    have "parentThere q t"
      using assms(1) that(2) by (simp add: treeOK_def)
    moreover have "p' \<noteq> p" if "single k" "q = childPath p' k" for p' k
      using assms(2) that \<open>isNode q t\<close> unfolding childless_def by blast
    ultimately show ?thesis
      unfolding parentThere_def isNode_simps by blast
  qed
  moreover have "single k \<and> isNode (childPath q k) (tabRemove fst p t)" if "k \<in> set (indexAt q (tabRemove fst p t))" for q k
    using that assms(1,3) unfolding payloadAt_simps isNode_simps treeOK_def unlisted_def by (force split: if_splits)
  ultimately show ?thesis
    using assms(1) unfolding treeOK_def isNode_simps by (simp add: table_simps)
qed

lemma treeOK_occurs:
  assumes ok: "treeOK t" and "occurs lit leafSum t ev"
  shows "treeOK (applyEvent ev t)"
proof (cases ev)
  case (NodeUpdated p d old s removed)
  show ?thesis
  proof (cases removed)
    case False
    have "parentThere p t"
    proof (cases old)
      case (Some o')
      then have "payloadAt p t = Some o'"
        using assms(2) NodeUpdated by simp
      then have "isNode p t"
        by (simp add: isNode_payload)
      then show ?thesis
        using ok by (simp add: treeOK_def)
    qed (use assms(2) NodeUpdated False in simp)
    then have "treeOK (tabPut fst (p, d, indexAt p t) t)"
      using ok by (intro treeOK_put) (auto simp: treeOK_def)
    then show ?thesis
      using NodeUpdated False by simp
  qed (use assms NodeUpdated treeOK_remove in auto)
next
  case (IndexUpdated p op i k)
  have node: "isNode p t"
    using assms(2) IndexUpdated by simp
  then obtain d where d: "payloadAt p t = Some d"
    unfolding isNode_payload by blast
  have "parentThere p t"
    using ok node by (simp add: treeOK_def)
  moreover have "\<forall>k' \<in> set (changeIndex op (unat i) k (indexAt p t)). single k' \<and> isNode (childPath p k') t"
    using ok assms(2) IndexUpdated
    by (auto simp: treeOK_def changeIndex_def split: index_op.splits dest: in_set_takeD in_set_dropD)
  ultimately show ?thesis
    using IndexUpdated d treeOK_put [OF ok] by simp
qed

lemma treeOK_chain: "treeOK t \<Longrightarrow> chain lit leafSum t evs \<Longrightarrow> treeOK (treeAfter evs t)"
  by (induction evs arbitrary: t) (auto intro: treeOK_occurs)

section \<open>The law of the node store\<close>

definition sessionPath :: "('m, 'f, 'q) tree_env \<Rightarrow> string \<Rightarrow> string" where
  "sessionPath E p = (if p \<noteq> '''' then WithAppendedWord E (rootNodePathWithoutSlash E) p else rootNodePathWithoutSlash E)"

text \<open>A call that notifies every change it makes, in an order in which the changes can be made one by one.\<close>

definition notifies :: "(string \<Rightarrow> bool) \<Rightarrow> (string \<Rightarrow> 'm \<Rightarrow> u32) \<Rightarrow> 'm store_call \<Rightarrow> bool" where
  "notifies lit leafSum call \<longleftrightarrow>
     (\<forall>t st evs t'. treeOK t \<and> call t = (st, evs, t') \<longrightarrow> chain lit leafSum t evs \<and> t' = treeAfter evs t)"

text \<open>The call that makes a single change, and the same change with whatever checksum is reported for a new payload.\<close>

fun plainCall :: "('m, 'f, 'q) tree_env \<Rightarrow> 'm tree_event \<Rightarrow> 'm store_call" where
  "plainCall E (NodeUpdated p d old s removed) =
     (if removed then RemoveDataNodes E (sessionPath E p) None False else SetDataNode E (sessionPath E p) d {} None)"
| "plainCall E (IndexUpdated p op i k) =
     (if op = INDEX_OP_ENTRYINSERTED then InsertIndexEntryAt E (sessionPath E p) i k else RemoveIndexEntryAt E (sessionPath E p) i)"

fun withSum :: "u32 \<Rightarrow> 'm tree_event \<Rightarrow> 'm tree_event" where
  "withSum s' (NodeUpdated p d old s removed) = NodeUpdated p d old (if old = None \<or> removed then s else s') removed"
| "withSum s' (IndexUpdated p op i k) = IndexUpdated p op i k"

fun msgLeaves :: "('m, 'q) mtdo_msg \<Rightarrow> ('m, 'q) mtdo_command list" where
  "msgLeaves (Command c) = [c]"
| "msgLeaves (Batch ms) = concat (map msgLeaves ms)"

definition optLeaves :: "('m, 'q) mtdo_msg option \<Rightarrow> ('m, 'q) mtdo_command list" where
  "optLeaves m = (case m of None \<Rightarrow> [] | Some b \<Rightarrow> msgLeaves b)"

definition nodeTotal :: "('m, 'f, 'q) tree_env \<Rightarrow> (string \<Rightarrow> 'm \<Rightarrow> u32) \<Rightarrow> 'm dnode \<Rightarrow> u32" where
  "nodeTotal E leafSum n = (case n of (p, d, ix) \<Rightarrow> leafSum p d + sum_list (map (StringChecksum E) ix))"

definition treeTotal :: "('m, 'f, 'q) tree_env \<Rightarrow> (string \<Rightarrow> 'm \<Rightarrow> u32) \<Rightarrow> 'm node_tree \<Rightarrow> u32" where
  "treeTotal E leafSum t = sum_list (map (nodeTotal E leafSum) t)"

text \<open>
  The law of the store.  Paths of nodes that are set, restored or inserted are taken to be free of
  wildcards (\<open>lit\<close>), as the header of \<^verbatim>\<open>ITreeGatewaySubscriber\<close> demands of uploads; the
  store itself would not refuse others.
\<close>

definition store_law :: "('m, 'f, 'q) tree_env \<Rightarrow> (string \<Rightarrow> bool) \<Rightarrow> (string \<Rightarrow> 'm \<Rightarrow> u32) \<Rightarrow> bool" where
  "store_law E lit leafSum \<longleftrightarrow>
     (\<forall>path d fl b. notifies lit leafSum (SetDataNode E path d fl b)) \<and>
     (\<forall>path f. notifies lit leafSum (RemoveDataNodes E path f False)) \<and>
     (\<forall>path b f. notifies lit leafSum (MoveIndexEntries E path b f)) \<and>
     (\<forall>m path. notifies lit leafSum (RestoreNodeTreeFromMessage E m path)) \<and>
     (\<forall>path i k. notifies lit leafSum (InsertIndexEntryAt E path i k)) \<and>
     (\<forall>path i. notifies lit leafSum (RemoveIndexEntryAt E path i)) \<and>
     (\<forall>t ev. treeOK t \<and> occurs lit leafSum t ev \<longrightarrow> (\<exists>s. plainCall E ev t = (B_NO_ERROR, [withSum s ev], applyEvent ev t))) \<and>
     (\<forall>p t. lit p \<longrightarrow> GetDataNode E (sessionPath E p) t = payloadAt p t) \<and>
     (\<forall>p. lit p \<longrightarrow> sessionPath E p = '''' \<or> last (sessionPath E p) \<noteq> CHR ''/'') \<and>
     lit '''' \<and>
     (\<forall>t. treeOK t \<and> isNode '''' t \<longrightarrow> NodeChecksum E (rootNodePathWithoutSlash E) t = treeTotal E leafSum t) \<and>
     (\<forall>p d d'. leafSum p d - leafSum p d' = MessageChecksum E d - MessageChecksum E d') \<and>
     (\<forall>m pre. msgLeaves (AssembleBatchMessage E None m pre) = msgLeaves m) \<and>
     (\<forall>b m pre. msgLeaves (AssembleBatchMessage E (Some b) m pre) = (if pre then msgLeaves m @ msgLeaves b else msgLeaves b @ msgLeaves m))"

lemma store_lawD:
  assumes "store_law E lit leafSum"
  shows "notifies lit leafSum (SetDataNode E path d fl b)"
    "notifies lit leafSum (RemoveDataNodes E path f False)"
    "notifies lit leafSum (MoveIndexEntries E path b f)"
    "notifies lit leafSum (RestoreNodeTreeFromMessage E d path)"
    "notifies lit leafSum (InsertIndexEntryAt E path i k)"
    "notifies lit leafSum (RemoveIndexEntryAt E path i)"
    "treeOK t \<Longrightarrow> occurs lit leafSum t ev \<Longrightarrow> \<exists>s. plainCall E ev t = (B_NO_ERROR, [withSum s ev], applyEvent ev t)"
    "lit p \<Longrightarrow> GetDataNode E (sessionPath E p) t = payloadAt p t"
    "lit p \<Longrightarrow> sessionPath E p = '''' \<or> last (sessionPath E p) \<noteq> CHR ''/''"
    "lit ''''"
    "treeOK t \<Longrightarrow> isNode '''' t \<Longrightarrow> NodeChecksum E (rootNodePathWithoutSlash E) t = treeTotal E leafSum t"
    "leafSum p d - leafSum p d' = MessageChecksum E d - MessageChecksum E d'"
  using assms unfolding store_law_def by simp_all

lemma assemble_leaves:
  assumes "store_law E lit leafSum"
  shows "msgLeaves (AssembleBatchMessage E b m pre) = (if pre then msgLeaves m @ optLeaves b else optLeaves b @ msgLeaves m)"
  using assms unfolding store_law_def optLeaves_def by (cases b) auto

section \<open>What an operation tells\<close>

text \<open>The commands that ask for a change; \<open>bare\<close> leaves the interim flag and the tag open.\<close>

definition bare :: "('m, 'q) mtdo_command \<Rightarrow> ('m, 'q) mtdo_command" where
  "bare c = c\<lparr> mc_flags := mc_flags c AND NOT (set_bit TREE_GATEWAY_FLAG_INTERIM 0), mc_tag := '''' \<rparr>"

fun eventCommand :: "'m tree_event \<Rightarrow> ('m, 'q) mtdo_command" where
  "eventCommand (NodeUpdated p d old s removed) =
     (newCommand MTDO_COMMAND_UPDATENODEVALUE)\<lparr> mc_path := p, mc_payload := (if removed then None else Some d) \<rparr>"
| "eventCommand (IndexUpdated p op i k) =
     (newCommand (if op = INDEX_OP_ENTRYINSERTED then MTDO_COMMAND_INSERTINDEXENTRY else MTDO_COMMAND_REMOVEINDEXENTRY))
       \<lparr> mc_path := p, mc_index := i, mc_key := k \<rparr>"

text \<open>The opposite change.\<close>

fun opposite :: "'m tree_event \<Rightarrow> 'm tree_event" where
  "opposite (NodeUpdated p d old s removed) =
     (case old of None \<Rightarrow> NodeUpdated p d (Some d) s True
                | Some o' \<Rightarrow> if removed then NodeUpdated p o' None s False else NodeUpdated p o' (Some d) s False)"
| "opposite (IndexUpdated p op i k) =
     IndexUpdated p (if op = INDEX_OP_ENTRYINSERTED then INDEX_OP_ENTRYREMOVED else INDEX_OP_ENTRYINSERTED) i k"

definition checksumChange :: "('m, 'f, 'q) tree_env \<Rightarrow> 'm tree_event \<Rightarrow> u32" where
  "checksumChange E ev =
     (case ev of
        NodeUpdated p d old s removed \<Rightarrow>
          (if removed then - s else case old of Some o' \<Rightarrow> MessageChecksum E d - MessageChecksum E o' | None \<Rightarrow> s)
      | IndexUpdated p op i k \<Rightarrow>
          (case op of INDEX_OP_ENTRYINSERTED \<Rightarrow> StringChecksum E k | INDEX_OP_ENTRYREMOVED \<Rightarrow> - StringChecksum E k
                    | INDEX_OP_CLEARED \<Rightarrow> 0))"

text \<open>
  \<open>told\<close>: from one state of the database to another by changes that were all notified.  In the
  senior context the commands for them are at the end of the junior Message, and those for the
  opposite changes, in the opposite order, at the front of the undo Message.
\<close>

definition told ::
  "('m, 'f, 'q) tree_env \<Rightarrow> (string \<Rightarrow> bool) \<Rightarrow> (string \<Rightarrow> 'm \<Rightarrow> u32) \<Rightarrow> bool \<Rightarrow> 'm tree_event list \<Rightarrow>
   ('m, 'q) mtdo \<Rightarrow> ('m, 'q) mtdo \<Rightarrow> bool" where
  "told E lit leafSum senior evs d d' \<longleftrightarrow>
     chain lit leafSum (md_tree d) evs \<and> md_tree d' = treeAfter evs (md_tree d) \<and>
     md_checksum d' = md_checksum d + sum_list (map (checksumChange E) evs) \<and>
     md_inUndoRedoContextNestCount d' = md_inUndoRedoContextNestCount d \<and>
     (if senior
      then map bare (optLeaves (md_assembledJuniorMessage d')) =
             map bare (optLeaves (md_assembledJuniorMessage d)) @ map eventCommand evs \<and>
           (isUndoStack E \<longrightarrow>
             map bare (optLeaves (md_assembledJuniorUndoMessage d')) =
               map eventCommand (rev (map opposite evs)) @ map bare (optLeaves (md_assembledJuniorUndoMessage d)))
      else md_assembledJuniorMessage d' = md_assembledJuniorMessage d)"

lemma told_Nil: "told E lit leafSum senior [] d d"
  by (simp add: told_def)

lemma told_append:
  "told E lit leafSum senior evs d d1 \<Longrightarrow> told E lit leafSum senior evs' d1 d2 \<Longrightarrow> told E lit leafSum senior (evs @ evs') d d2"
  by (auto simp: told_def chain_append)

section \<open>Notifications are recorded\<close>

lemma bare_node_update:
  "bare (hd (msgLeaves (CreateNodeUpdateMessage p payload (if n > (0 :: nat) then set_bit TREE_GATEWAY_FLAG_INTERIM 0 else 0) '''' tag))) =
     (newCommand MTDO_COMMAND_UPDATENODEVALUE)\<lparr> mc_path := p, mc_payload := payload \<rparr>"
  by (simp add: CreateNodeUpdateMessage_def bare_def newCommand_def)

lemma mtdo_codes [simp]: "MTDO_COMMAND_INSERTINDEXENTRY \<noteq> 0" "MTDO_COMMAND_REMOVEINDEXENTRY \<noteq> 0"
  by (code_simp, code_simp)

lemma index_messages:
  "CreateNodeIndexUpdateMessage p INDEX_OP_ENTRYINSERTED i k tag =
     Some (Command ((newCommand MTDO_COMMAND_INSERTINDEXENTRY)\<lparr> mc_path := p, mc_index := i, mc_key := k, mc_tag := tag \<rparr>))"
  "CreateNodeIndexUpdateMessage p INDEX_OP_ENTRYREMOVED i k tag =
     Some (Command ((newCommand MTDO_COMMAND_REMOVEINDEXENTRY)\<lparr> mc_path := p, mc_index := i, mc_key := k, mc_tag := tag \<rparr>))"
  by (simp_all add: CreateNodeIndexUpdateMessage_def)

lemma notify_told:
  assumes law: "store_law E lit leafSum" and occ: "occurs lit leafSum t ev" and "md_tree d = applyEvent ev t"
  shows "told E lit leafSum senior [ev] (d\<lparr> md_tree := t \<rparr>) (notifyDatabase E senior ev d)"
proof (cases ev)
  case (NodeUpdated p x old s removed)
  then show ?thesis
    using assms
    by (cases removed; cases old) (simp_all add: told_def MessageTreeNodeUpdated_def Let_def SeniorRecordNodeUpdateMessage_def recordNodeUpdate_def
        assemble_leaves [OF law] optLeaves_def CreateNodeUpdateMessage_def bare_def newCommand_def checksumChange_def algebra_simps)
next
  case (IndexUpdated p op i k)
  then show ?thesis
    using assms
    by (cases op) (simp_all add: told_def MessageTreeNodeIndexChanged_def Let_def SeniorRecordNodeIndexUpdateMessage_def recordIndexUpdate_def
        index_messages assemble_leaves [OF law] optLeaves_def bare_def newCommand_def checksumChange_def)
qed

lemma record_tree:
  "GetCurrentOpTag (d\<lparr> md_tree := t \<rparr>) = GetCurrentOpTag d"
  "SeniorRecordNodeUpdateMessage E p old new tag (d\<lparr> md_tree := t \<rparr>) = (SeniorRecordNodeUpdateMessage E p old new tag d)\<lparr> md_tree := t \<rparr>"
  "SeniorRecordNodeIndexUpdateMessage E p op i k tag (d\<lparr> md_tree := t \<rparr>) =
     (SeniorRecordNodeIndexUpdateMessage E p op i k tag d)\<lparr> md_tree := t \<rparr>"
  "md_tree (SeniorRecordNodeUpdateMessage E p old new tag d) = md_tree d"
  "md_tree (SeniorRecordNodeIndexUpdateMessage E p op i k tag d) = md_tree d"
  by (simp_all add: GetCurrentOpTag_def SeniorRecordNodeUpdateMessage_def recordNodeUpdate_def Let_def
      SeniorRecordNodeIndexUpdateMessage_def split: option.split)

lemma notify_tree:
  "notifyDatabase E senior ev (d\<lparr> md_tree := t \<rparr>) = (notifyDatabase E senior ev d)\<lparr> md_tree := t \<rparr>"
  "md_tree (notifyDatabase E senior ev d) = md_tree d"
proof -
  show "notifyDatabase E senior ev (d\<lparr> md_tree := t \<rparr>) = (notifyDatabase E senior ev d)\<lparr> md_tree := t \<rparr>"
  proof (cases ev)
    case (NodeUpdated p x old s removed)
    then show ?thesis
      by (cases senior; cases old) (simp_all add: MessageTreeNodeUpdated_def Let_def record_tree)
  next
    case (IndexUpdated p op i k)
    then show ?thesis
      by (cases op; cases senior) (simp_all add: MessageTreeNodeIndexChanged_def Let_def record_tree)
  qed
  show "md_tree (notifyDatabase E senior ev d) = md_tree d"
    by (cases ev) (simp_all add: MessageTreeNodeUpdated_def MessageTreeNodeIndexChanged_def Let_def record_tree split: index_op.split)
qed

lemma notifications_told:
  assumes law: "store_law E lit leafSum"
  shows "chain lit leafSum t evs \<Longrightarrow>
    told E lit leafSum senior evs (d\<lparr> md_tree := t \<rparr>) (fold (notifyDatabase E senior) evs (d\<lparr> md_tree := treeAfter evs t \<rparr>))"
proof (induction evs arbitrary: d t)
  case (Cons ev evs)
  define d1 where "d1 = notifyDatabase E senior ev (d\<lparr> md_tree := applyEvent ev t \<rparr>)"
  have tree: "md_tree d1 = applyEvent ev t"
    by (simp add: d1_def notify_tree)
  then have self: "d1\<lparr> md_tree := applyEvent ev t \<rparr> = d1"
    by simp
  have "occurs lit leafSum t ev" and rest: "chain lit leafSum (applyEvent ev t) evs"
    using Cons.prems by simp_all
  then have "told E lit leafSum senior [ev] (d\<lparr> md_tree := t \<rparr>) d1"
    using notify_told [OF law, of t ev "d\<lparr> md_tree := applyEvent ev t \<rparr>" senior] by (simp add: d1_def)
  from told_append [OF this Cons.IH [OF rest, of d1, unfolded self]] show ?case
    by (simp add: d1_def notify_tree)
qed (simp add: told_Nil)

lemma storeCall_told:
  assumes law: "store_law E lit leafSum" and "notifies lit leafSum call" "treeOK (md_tree d)"
  shows "\<exists>evs. told E lit leafSum senior evs d (snd (storeCall E senior call d))"
proof -
  obtain st evs t' where call: "call (md_tree d) = (st, evs, t')"
    by (cases "call (md_tree d)") auto
  then have "chain lit leafSum (md_tree d) evs" "t' = treeAfter evs (md_tree d)"
    using assms(2,3) unfolding notifies_def by blast+
  then have "told E lit leafSum senior evs (d\<lparr> md_tree := md_tree d \<rparr>) (snd (storeCall E senior call d))"
    using notifications_told [OF law, of "md_tree d" evs senior d] by (simp add: storeCall_def call)
  then show ?thesis
    by auto
qed

lemma told_treeOK: "told E lit leafSum senior evs d d' \<Longrightarrow> treeOK (md_tree d) \<Longrightarrow> treeOK (md_tree d')"
  by (auto simp: told_def treeOK_chain)

text \<open>Fields a told change does not depend on.\<close>

lemma told_fields:
  "told E lit leafSum senior evs (d\<lparr> md_opTagStack := x \<rparr>) d' \<longleftrightarrow> told E lit leafSum senior evs d d'"
  "told E lit leafSum senior evs d (d'\<lparr> md_opTagStack := x \<rparr>) \<longleftrightarrow> told E lit leafSum senior evs d d'"
  "told E lit leafSum senior evs (d\<lparr> md_interimUpdateNestCount := n \<rparr>) d' \<longleftrightarrow> told E lit leafSum senior evs d d'"
  "told E lit leafSum senior evs d (d'\<lparr> md_interimUpdateNestCount := n \<rparr>) \<longleftrightarrow> told E lit leafSum senior evs d d'"
  by (simp_all add: told_def)

section \<open>Every operation tells what it does\<close>

text \<open>A body that tells, and the bodies the guards make of it.\<close>

definition tells ::
  "('m, 'f, 'q) tree_env \<Rightarrow> (string \<Rightarrow> bool) \<Rightarrow> (string \<Rightarrow> 'm \<Rightarrow> u32) \<Rightarrow> bool \<Rightarrow>
   (('m, 'q) mtdo \<Rightarrow> ('r \<times> ('m, 'q) mtdo) option) \<Rightarrow> bool" where
  "tells E lit leafSum senior body \<longleftrightarrow>
     (\<forall>d r d'. treeOK (md_tree d) \<and> body d = Some (r, d') \<longrightarrow> (\<exists>evs. told E lit leafSum senior evs d d'))"

lemma tellsD:
  "tells E lit leafSum senior body \<Longrightarrow> treeOK (md_tree d) \<Longrightarrow> body d = Some (r, d') \<Longrightarrow>
   (\<And>evs. told E lit leafSum senior evs d d' \<Longrightarrow> thesis) \<Longrightarrow> thesis"
  unfolding tells_def by blast

lemma tells_nothing: "tells E lit leafSum senior (\<lambda>d. Some (r d, d))"
  using told_Nil unfolding tells_def by fastforce

lemma tells_storeCall:
  assumes "store_law E lit leafSum" "\<And>t. notifies lit leafSum (call t)"
  shows "tells E lit leafSum senior (\<lambda>d. Some (storeCall E senior (call (md_tree d)) d))"
proof -
  have "\<exists>evs. told E lit leafSum senior evs d d'" if "treeOK (md_tree d)" "storeCall E senior (call (md_tree d)) d = (r, d')" for d r d'
    using storeCall_told [OF assms(1) assms(2) that(1)] that(2) by (metis snd_conv)
  then show ?thesis
    unfolding tells_def by blast
qed

lemma tells_withOpTag:
  assumes "tells E lit leafSum senior body"
  shows "tells E lit leafSum senior (withOpTag tag body)"
  unfolding tells_def
proof (intro allI impI)
  fix d r d'
  assume run: "treeOK (md_tree d) \<and> withOpTag tag body d = Some (r, d')"
  show "\<exists>evs. told E lit leafSum senior evs d d'"
  proof (cases "tag = ''''")
    case True
    then show ?thesis
      using run assms unfolding tells_def withOpTag_def by simp
  next
    case False
    then obtain d1 where d1: "body (d\<lparr> md_opTagStack := md_opTagStack d @ [tag] \<rparr>) = Some (r, d1)"
      "d' = d1\<lparr> md_opTagStack := butlast (md_opTagStack d1) \<rparr>"
      using run by (auto simp: withOpTag_def)
    have "treeOK (md_tree (d\<lparr> md_opTagStack := md_opTagStack d @ [tag] \<rparr>))"
      using run by simp
    from tellsD [OF assms this d1(1)] show ?thesis
      unfolding d1(2) told_fields by blast
  qed
qed

lemma tells_bind:
  assumes f: "tells E lit leafSum senior f" and g: "\<And>r. tells E lit leafSum senior (g r)"
    and body: "\<And>d. body d = (case f d of None \<Rightarrow> None | Some (r, d1) \<Rightarrow> g r d1)"
  shows "tells E lit leafSum senior body"
  unfolding tells_def
proof (intro allI impI)
  fix d r d'
  assume run: "treeOK (md_tree d) \<and> body d = Some (r, d')"
  then obtain r1 d1 where d1: "f d = Some (r1, d1)" and d2: "g r1 d1 = Some (r, d')"
    unfolding body by (auto split: option.splits)
  obtain evs where evs: "told E lit leafSum senior evs d d1"
    using tellsD [OF f _ d1] run by blast
  obtain evs' where "told E lit leafSum senior evs' d1 d'"
    using tellsD [OF g told_treeOK [OF evs] d2] run by blast
  with evs show "\<exists>evs. told E lit leafSum senior evs d d'"
    using told_append by blast
qed

lemma tells_storeCall':
  assumes "store_law E lit leafSum" "\<And>t. notifies lit leafSum (call t)"
    "\<And>d. body d = Some (let (st, d1) = storeCall E senior (call (md_tree d)) d in (r st, d1))"
  shows "tells E lit leafSum senior body"
proof (rule tells_bind [OF tells_storeCall [OF assms(1,2)]])
  show "tells E lit leafSum senior (\<lambda>d. Some (r st, d))" for st
    by (rule tells_nothing)
  show "body d = (case Some (storeCall E senior (call (md_tree d)) d) of None \<Rightarrow> None | Some (st, d1) \<Rightarrow> Some (r st, d1))" for d
    by (simp add: assms(3) split_def Let_def)
qed

lemma tells_GetUnusedNodeID:
  assumes law: "store_law E lit leafSum"
  shows "tells E lit leafSum senior (GetUnusedNodeID E senior path)"
proof -
  let ?P = "\<lambda>E senior path d y. store_law E lit leafSum \<longrightarrow> treeOK (md_tree d) \<longrightarrow> (\<exists>evs. told E lit leafSum senior evs d (snd y))"
  have "?P E senior path d y" if "GetUnusedNodeID E senior path d = Some y" for d y
  proof (rule GetUnusedNodeID.raw_induct [where P = ?P, OF _ that], intro impI)
    fix f E senior path d y
    assume IH: "\<And>E senior path d y. f E senior path d = Some y \<Longrightarrow> ?P E senior path d y"
      and step: "(case GetDataNode E path (md_tree d) of
          None \<Rightarrow> (case storeCall E senior (SetDataNode E path (emptyMessage E) {} None) d of
             (st, d1) \<Rightarrow> if IsError st then Some (Inl st, d1) else f E senior path d1)
        | Some _ \<Rightarrow> (case findUnusedID (nodeIDTaken E path (md_tree d)) (unat NUM_NODE_IDS)
                  (GetMaxKnownChildIDHint E path (md_tree d) mod NUM_NODE_IDS) of
             None \<Rightarrow> Some (Inl B_ERROR, d) | Some retID \<Rightarrow> Some (Inr retID, d))) = Some y"
      and law: "store_law E lit leafSum" and ok: "treeOK (md_tree d)"
    show "\<exists>evs. told E lit leafSum senior evs d (snd y)"
    proof (cases "GetDataNode E path (md_tree d)")
      case None
      obtain st d1 where d1: "storeCall E senior (SetDataNode E path (emptyMessage E) {} None) d = (st, d1)"
        by fastforce
      obtain evs where evs: "told E lit leafSum senior evs d d1"
        using storeCall_told [OF law store_lawD(1) [OF law] ok] d1 by (metis snd_conv)
      show ?thesis
      proof (cases "IsError st")
        case False
        then have "f E senior path d1 = Some y"
          using step None d1 by simp
        then show ?thesis
          using IH law told_treeOK [OF evs ok] told_append [OF evs] by blast
      qed (use step None d1 evs in auto)
    next
      case (Some x)
      then have "snd y = d"
        using step by (auto split: option.splits)
      then show ?thesis
        using told_Nil by metis
    qed
  qed
  then show ?thesis
    using law unfolding tells_def by fastforce
qed

lemma tells_choosePath:
  assumes law: "store_law E lit leafSum"
  shows "tells E lit leafSum senior (choosePath E senior path flags)"
proof -
  let ?named = "\<lambda>r d. case r of
      Inl st \<Rightarrow> Some (Inl st, d)
    | Inr newNodeID \<Rightarrow> Some (Inr (butlast path @ ''/'' @ (if bit flags TREE_GATEWAY_FLAG_INDEXED then ''I'' else '''') @ decimal (unat newNodeID)), d)"
  have "tells E lit leafSum senior (?named r)" for r
    by (cases r) (simp_all add: tells_nothing)
  then have "tells E lit leafSum senior (\<lambda>d. case GetUnusedNodeID E senior (butlast path) d of None \<Rightarrow> None | Some (r, d1) \<Rightarrow> ?named r d1)"
    by (rule tells_bind [OF tells_GetUnusedNodeID [OF law]]) simp
  moreover have "choosePath E senior path flags =
      (if senior \<and> path \<noteq> '''' \<and> last path = CHR ''/''
       then (\<lambda>d. case GetUnusedNodeID E senior (butlast path) d of None \<Rightarrow> None | Some (r, d1) \<Rightarrow> ?named r d1)
       else (\<lambda>d. Some (Inr path, d)))"
    by (auto simp: choosePath_def fun_eq_iff split: option.split sum.split)
  ultimately show ?thesis
    by (simp only: tells_nothing split: if_split) simp
qed

text \<open>A command that does not ask for quiet.\<close>

definition loud :: "('m, 'q) mtdo_command \<Rightarrow> bool" where
  "loud c \<longleftrightarrow>
     bit (mc_flags c) TREE_GATEWAY_FLAG_NOREPLY \<longrightarrow>
     mc_what c \<noteq> MTDO_SENIOR_COMMAND_REQUESTDELETENODES \<and> \<not> (mc_what c = MTDO_COMMAND_UPDATENODEVALUE \<and> mc_payload c = None)"

lemma tells_HandleNodeUpdateMessageAux:
  assumes law: "store_law E lit leafSum" and loud: "mc_payload c = None \<longrightarrow> \<not> bit (mc_flags c) TREE_GATEWAY_FLAG_NOREPLY"
  shows "tells E lit leafSum senior (HandleNodeUpdateMessageAux E senior c)"
  unfolding HandleNodeUpdateMessageAux_def
proof (rule tells_withOpTag)
  let ?path = "\<lambda>d :: ('a, 'c) mtdo. DatabaseSubpathToSessionRelativePath E (mc_path c) (mc_flags c) (md_tree d)"
  let ?before = "if mc_before c = '''' then None else Some (mc_before c)"
  let ?set = "\<lambda>path d. case storeCall E senior (SetDataNode E path (the (mc_payload c)) (ConvertTreeGatewayFlagsToSetDataNodeFlags (mc_flags c)) ?before) d of
      (ret, d2) \<Rightarrow> Some (if IsOK ret \<or> ret = B_ACCESS_DENIED \<and> toleratesDenial (mc_flags c) then B_NO_ERROR else ret, d2)"
  let ?chosen = "\<lambda>r d. case r of Inl st \<Rightarrow> Some (st, d) | Inr path \<Rightarrow> ?set path d"
  have set: "tells E lit leafSum senior (?set path)" for path
    by (rule tells_storeCall' [OF law store_lawD(1) [OF law],
          where r = "\<lambda>ret. if IsOK ret \<or> ret = B_ACCESS_DENIED \<and> toleratesDenial (mc_flags c) then B_NO_ERROR else ret"])
      (simp add: split_def Let_def)
  have body: "tells E lit leafSum senior (\<lambda>d. case choosePath E senior (?path d) (mc_flags c) d of None \<Rightarrow> None | Some (r, d1) \<Rightarrow> ?chosen r d1)"
  proof -
    have "tells E lit leafSum senior (?chosen r)" for r
      using set by (cases r) (simp_all add: tells_nothing)
    then have "tells E lit leafSum senior (\<lambda>d. case choosePath E senior path (mc_flags c) d of None \<Rightarrow> None | Some (r, d1) \<Rightarrow> ?chosen r d1)" for path
      by (rule tells_bind [OF tells_choosePath [OF law]]) simp
    then show ?thesis
      unfolding tells_def by blast
  qed
  have remove: "tells E lit leafSum senior (\<lambda>d. mt_RemoveDataNodes E senior (?path d) None (bit (mc_flags c) TREE_GATEWAY_FLAG_NOREPLY) '''' d)"
    if "mc_payload c = None"
    using that loud tells_storeCall [OF law store_lawD(2) [OF law]] by (simp add: mt_RemoveDataNodes_def withOpTag_def)
  show "tells E lit leafSum senior (\<lambda>d. case mc_payload c of
      Some optPayload \<Rightarrow> (case choosePath E senior (?path d) (mc_flags c) d of None \<Rightarrow> None
        | Some (Inl st, d1) \<Rightarrow> Some (st, d1)
        | Some (Inr path, d1) \<Rightarrow> (case storeCall E senior (SetDataNode E path optPayload (ConvertTreeGatewayFlagsToSetDataNodeFlags (mc_flags c)) ?before) d1 of
            (ret, d2) \<Rightarrow> Some (if IsOK ret \<or> ret = B_ACCESS_DENIED \<and> toleratesDenial (mc_flags c) then B_NO_ERROR else ret, d2)))
    | None \<Rightarrow> mt_RemoveDataNodes E senior (?path d) None (bit (mc_flags c) TREE_GATEWAY_FLAG_NOREPLY) '''' d)"
  proof (cases "mc_payload c")
    case None
    then show ?thesis
      using remove by simp
  next
    case (Some x)
    then show ?thesis
      using body by (auto simp: tells_def split: option.splits sum.splits prod.splits)
  qed
qed

lemma tells_HandleNodeUpdateMessage:
  assumes law: "store_law E lit leafSum" and loud: "mc_payload c = None \<longrightarrow> \<not> bit (mc_flags c) TREE_GATEWAY_FLAG_NOREPLY"
  shows "tells E lit leafSum senior (HandleNodeUpdateMessage E senior c)"
  unfolding tells_def
proof (intro allI impI)
  fix d r d'
  assume run: "treeOK (md_tree d) \<and> HandleNodeUpdateMessage E senior c d = Some (r, d')"
  note aux = tellsD [OF tells_HandleNodeUpdateMessageAux [OF law loud]]
  consider "\<not> IsOkayToHandleUpdateMessage E (mc_path c) (mc_flags c) d"
    | "IsOkayToHandleUpdateMessage E (mc_path c) (mc_flags c) d" "bit (mc_flags c) TREE_GATEWAY_FLAG_INTERIM"
    | "IsOkayToHandleUpdateMessage E (mc_path c) (mc_flags c) d" "\<not> bit (mc_flags c) TREE_GATEWAY_FLAG_INTERIM"
    by blast
  then show "\<exists>evs. told E lit leafSum senior evs d d'"
  proof cases
    case 1
    then show ?thesis
      using run told_Nil unfolding HandleNodeUpdateMessage_def by fastforce
  next
    case 2
    let ?d = "d\<lparr> md_interimUpdateNestCount := md_interimUpdateNestCount d + 1 \<rparr>"
    obtain d1 where d1: "HandleNodeUpdateMessageAux E senior c ?d = Some (r, d1)"
      "d' = d1\<lparr> md_interimUpdateNestCount := md_interimUpdateNestCount d1 - 1 \<rparr>"
      using run 2 unfolding HandleNodeUpdateMessage_def by auto
    have "treeOK (md_tree ?d)"
      using run by simp
    from aux [OF this d1(1)] show ?thesis
      unfolding d1(2) told_fields by blast
  next
    case 3
    then show ?thesis
      using run aux unfolding HandleNodeUpdateMessage_def by (metis (no_types, lifting))
  qed
qed

lemma tells_HandleNodeIndexUpdateMessage:
  assumes law: "store_law E lit leafSum"
  shows "tells E lit leafSum senior (HandleNodeIndexUpdateMessage E senior c)"
proof -
  let ?call = "\<lambda>path. if mc_what c = MTDO_COMMAND_INSERTINDEXENTRY then InsertIndexEntryAt E path (mc_index c) (mc_key c)
      else RemoveIndexEntryAt E path (mc_index c)"
  have "tells E lit leafSum senior (withOpTag (mc_tag c) (\<lambda>d. Some (B_NO_ERROR, snd (storeCall E senior (?call path) d))))" for path
    by (intro tells_withOpTag tells_storeCall' [OF law, where r = "\<lambda>_. B_NO_ERROR" and call = "\<lambda>_. ?call path"])
      (simp_all add: store_lawD(5,6) [OF law] split_def Let_def)
  then show ?thesis
    using told_Nil unfolding tells_def HandleNodeIndexUpdateMessage_def
    by (auto simp: Let_def split: if_splits option.splits) blast+
qed

lemma tells_HandleSubtreeUpdateMessage:
  assumes law: "store_law E lit leafSum"
  shows "tells E lit leafSum senior (HandleSubtreeUpdateMessage E senior c)"
proof (cases "mc_payload c")
  case (Some x)
  have "tells E lit leafSum senior (\<lambda>d. Some (storeCall E senior
      (RestoreNodeTreeFromMessage E x (DatabaseSubpathToSessionRelativePath E (mc_path c) (mc_flags c) (md_tree d))) d))"
    by (rule tells_storeCall [OF law, where call = "\<lambda>t. RestoreNodeTreeFromMessage E x (DatabaseSubpathToSessionRelativePath E (mc_path c) (mc_flags c) t)"])
      (rule store_lawD(4) [OF law])
  then show ?thesis
    unfolding HandleSubtreeUpdateMessage_def Some by (simp add: tells_withOpTag)
qed (simp add: HandleSubtreeUpdateMessage_def [abs_def] tells_nothing)

lemma tells_if:
  "(P \<Longrightarrow> tells E lit leafSum senior f) \<Longrightarrow> (\<not> P \<Longrightarrow> tells E lit leafSum senior g) \<Longrightarrow>
   tells E lit leafSum senior (\<lambda>d. if P then f d else g d)"
  by (cases P) simp_all

lemma tells_seniorCommand:
  assumes law: "store_law E lit leafSum" and loud: "loud c"
  shows "tells E lit leafSum True (seniorCommand E c)"
proof -
  let ?path = "DatabaseSubpathToSessionRelativePath E (mc_path c) (mc_flags c)"
  have remove: "tells E lit leafSum True (\<lambda>d. mt_RemoveDataNodes E True (?path (md_tree d)) (instantiateFilter E c) quiet (mc_tag c) d)"
    if "\<not> quiet" for quiet
    unfolding mt_RemoveDataNodes_def tells_def
  proof (intro allI impI)
    fix d r d'
    assume run: "treeOK (md_tree d) \<and> withOpTag (mc_tag c) (\<lambda>d'. Some (storeCall E True
      (RemoveDataNodes E (?path (md_tree d)) (instantiateFilter E c) quiet) d')) d = Some (r, d')"
    have "tells E lit leafSum True (withOpTag (mc_tag c) (\<lambda>d'. Some (storeCall E True
      (RemoveDataNodes E (?path (md_tree d)) (instantiateFilter E c) quiet) d')))"
      using that by (intro tells_withOpTag tells_storeCall [OF law, where call = "\<lambda>_. RemoveDataNodes E (?path (md_tree d)) (instantiateFilter E c) quiet"])
        (simp add: store_lawD(2) [OF law])
    then show "\<exists>evs. told E lit leafSum True evs d d'"
      using run unfolding tells_def by blast
  qed
  have move: "tells E lit leafSum True (\<lambda>d. mt_MoveIndexEntries E True (?path (md_tree d)) (mc_before c) (instantiateFilter E c) (mc_tag c) d)"
    unfolding mt_MoveIndexEntries_def tells_def
  proof (intro allI impI)
    let ?call = "\<lambda>t. MoveIndexEntries E (?path t) (if mc_before c = '''' then None else Some (mc_before c)) (instantiateFilter E c)"
    fix d r d'
    assume run: "treeOK (md_tree d) \<and> withOpTag (mc_tag c) (\<lambda>d'. Some (storeCall E True (?call (md_tree d)) d')) d = Some (r, d')"
    have "tells E lit leafSum True (withOpTag (mc_tag c) (\<lambda>d'. Some (storeCall E True (?call (md_tree d)) d')))"
      by (intro tells_withOpTag tells_storeCall [OF law, where call = "\<lambda>_. ?call (md_tree d)"]) (rule store_lawD(3) [OF law])
    then show "\<exists>evs. told E lit leafSum True evs d d'"
      using run unfolding tells_def by blast
  qed
  note handlers = tells_nothing [where r = "\<lambda>_. B_NO_ERROR"] tells_nothing [where r = "\<lambda>_. B_UNIMPLEMENTED"]
    tells_HandleNodeUpdateMessage [OF law, of c True] tells_HandleSubtreeUpdateMessage [OF law, of True c]
    tells_HandleNodeIndexUpdateMessage [OF law, of True c] remove move
  show ?thesis
    unfolding seniorCommand_def [abs_def] Let_def
    by (intro tells_if handlers) (use loud in \<open>auto simp: loud_def\<close>)
qed

lemma tells_juniorCommand:
  assumes law: "store_law E lit leafSum" and loud: "loud c"
  shows "tells E lit leafSum False (juniorCommand E c)"
  unfolding juniorCommand_def [abs_def] Let_def
  by (intro tells_if tells_nothing [where r = "\<lambda>_. B_NO_ERROR"] tells_nothing [where r = "\<lambda>_. B_UNIMPLEMENTED"]
      tells_nothing [where r = "\<lambda>_. B_BAD_ARGUMENT"] tells_HandleNodeUpdateMessage [OF law]
      tells_HandleNodeIndexUpdateMessage [OF law]) (use loud in \<open>auto simp: loud_def\<close>)

lemma tells_runMessage:
  assumes "\<And>c. loud c \<Longrightarrow> tells E lit leafSum senior (handle c)"
  shows "\<forall>c \<in> set (msgLeaves m). loud c \<Longrightarrow> tells E lit leafSum senior (runMessage handle m)"
    "\<forall>m \<in> set ms. \<forall>c \<in> set (msgLeaves m). loud c \<Longrightarrow> tells E lit leafSum senior (runMessages handle ms)"
proof -
  have each: "tells E lit leafSum senior (runMessages handle ms)"
    if "\<forall>m \<in> set ms. tells E lit leafSum senior (runMessage handle m)" for ms
    using that
  proof (induction ms)
    case (Cons m ms)
    let ?rest = "\<lambda>st d1. if IsError st then Some (st, d1) else runMessages handle ms d1"
    have "tells E lit leafSum senior (runMessages handle ms)"
      using Cons by simp
    then have rest: "tells E lit leafSum senior (?rest st)" for st
      by (intro tells_if tells_nothing [where r = "\<lambda>_. st"])
    have first: "tells E lit leafSum senior (runMessage handle m)"
      using Cons.prems by simp
    show ?case
      by (rule tells_bind [OF first, where g = ?rest, OF rest]) (simp only: runMessages.simps)
  next
    case Nil
    have "runMessages handle [] = (\<lambda>d. Some (B_NO_ERROR, d))"
      by (simp add: fun_eq_iff)
    then show ?case
      by (simp add: tells_nothing)
  qed
  have one: "\<forall>c \<in> set (msgLeaves m). loud c \<Longrightarrow> tells E lit leafSum senior (runMessage handle m)" for m
  proof (induction m)
    case (Command c)
    then show ?case
      using assms by simp
  next
    case (Batch ms)
    then show ?case
      using each by simp
  qed
  show "\<forall>c \<in> set (msgLeaves m). loud c \<Longrightarrow> tells E lit leafSum senior (runMessage handle m)"
    by (rule one)
  show "\<forall>m \<in> set ms. \<forall>c \<in> set (msgLeaves m). loud c \<Longrightarrow> tells E lit leafSum senior (runMessages handle ms)"
    using each one by blast
qed

section \<open>The running checksum\<close>

lemma sum_list_tabPut:
  fixes f :: "'e \<Rightarrow> 'b::ab_group_add"
  shows "tabInv key es \<Longrightarrow> sum_list (map f (tabPut key x es)) =
    sum_list (map f es) + f x - (case tabGet key (key x) es of None \<Rightarrow> 0 | Some old \<Rightarrow> f old)"
proof (induction es)
  case (Cons e es)
  then show ?case
    by (auto simp: tabInv_def algebra_simps)
qed simp

lemma sum_list_changeIndex:
  "i \<le> length ix \<Longrightarrow> sum_list (map f (changeIndex INDEX_OP_ENTRYINSERTED i k ix)) = sum_list (map f ix) + (f k :: u32)"
  "i < length ix \<Longrightarrow> sum_list (map f (changeIndex INDEX_OP_ENTRYREMOVED i k ix)) = sum_list (map f ix) - (f (ix ! i) :: u32)"
proof -
  have "sum_list (map f ix) = sum_list (map f (take i ix)) + sum_list (map f (drop i ix))"
    by (metis append_take_drop_id map_append sum_list_append)
  then show "sum_list (map f (changeIndex INDEX_OP_ENTRYINSERTED i k ix)) = sum_list (map f ix) + f k"
    by (simp add: changeIndex_def)
  show "sum_list (map f (changeIndex INDEX_OP_ENTRYREMOVED i k ix)) = sum_list (map f ix) - f (ix ! i)" if "i < length ix"
  proof -
    have "sum_list (map f ix) = sum_list (map f (take i ix)) + f (ix ! i) + sum_list (map f (drop (Suc i) ix))"
      using arg_cong [OF id_take_nth_drop [OF that], of "\<lambda>xs. sum_list (map f xs)"] by simp
    then show ?thesis
      by (simp add: changeIndex_def)
  qed
qed

lemma tabGet_payload: "payloadAt p t = Some d \<Longrightarrow> tabGet fst p t = Some (p, d, indexAt p t)"
  using tabGet_SomeD [of fst p t] by (auto simp: payloadAt_def indexAt_def split: option.splits)

lemma tabGet_noPayload: "payloadAt p t = None \<Longrightarrow> tabGet fst p t = None \<and> indexAt p t = []"
  by (auto simp: payloadAt_def indexAt_def split: option.splits)

lemma treeTotal_occurs:
  assumes law: "store_law E lit leafSum" and ok: "treeOK t" and occ: "occurs lit leafSum t ev"
  shows "treeTotal E leafSum (applyEvent ev t) = treeTotal E leafSum t + checksumChange E ev"
proof -
  have inv: "tabInv fst t"
    using ok by (simp add: treeOK_def)
  note put = sum_list_tabPut [OF inv, where f = "nodeTotal E leafSum"]
  show ?thesis
  proof (cases ev)
    case (NodeUpdated p d old s removed)
    have sums: "leafSum p d - leafSum p o' = MessageChecksum E d - MessageChecksum E o'" for o'
      by (rule store_lawD(12) [OF law])
    show ?thesis
    proof (cases removed)
      case True
      then have "tabGet fst p t = Some (p, d, [])" "s = leafSum p d"
        using occ NodeUpdated tabGet_payload [of p t d] by auto
      then show ?thesis
        using True NodeUpdated sum_list_tabRemove [OF inv, of p "(p, d, [])" "nodeTotal E leafSum"]
        by (simp add: treeTotal_def checksumChange_def nodeTotal_def)
    next
      case False
      then show ?thesis
      proof (cases old)
        case None
        then have "tabGet fst p t = None" "indexAt p t = []" "s = leafSum p d"
          using occ NodeUpdated False tabGet_noPayload [of p t] by auto
        then show ?thesis
          using False None NodeUpdated put [of "(p, d, [])"] by (simp add: treeTotal_def checksumChange_def nodeTotal_def)
      next
        case (Some o')
        then have "tabGet fst p t = Some (p, o', indexAt p t)"
          using occ NodeUpdated tabGet_payload [of p t o'] by auto
        then have "treeTotal E leafSum (tabPut fst (p, d, indexAt p t) t) = treeTotal E leafSum t + (leafSum p d - leafSum p o')"
          using put [of "(p, d, indexAt p t)"] by (simp add: treeTotal_def nodeTotal_def)
        then show ?thesis
          using False Some NodeUpdated by (simp add: checksumChange_def sums)
      qed
    qed
  next
    case (IndexUpdated p op i k)
    then have "isNode p t"
      using occ by simp
    then obtain d where d: "payloadAt p t = Some d"
      unfolding isNode_payload by blast
    have "op \<noteq> INDEX_OP_CLEARED"
      using occ IndexUpdated by auto
    then show ?thesis
      using occ IndexUpdated d tabGet_payload [OF d] put [of "(p, d, changeIndex op (unat i) k (indexAt p t))"]
      by (cases op) (simp_all add: treeTotal_def checksumChange_def nodeTotal_def sum_list_changeIndex)
  qed
qed

lemma treeTotal_chain:
  assumes law: "store_law E lit leafSum"
  shows "treeOK t \<Longrightarrow> chain lit leafSum t evs \<Longrightarrow>
    treeTotal E leafSum (treeAfter evs t) = treeTotal E leafSum t + sum_list (map (checksumChange E) evs)"
proof (induction evs arbitrary: t)
  case (Cons ev evs)
  then show ?case
    using treeTotal_occurs [OF law, of t ev] treeOK_occurs [of t lit leafSum ev] by simp
qed simp

text \<open>Without a root there is no node at all.\<close>

lemma rootless_empty:
  assumes ok: "treeOK t" and "\<not> isNode '''' t"
  shows "t = []"
proof -
  have "\<not> isNode q t" for q
  proof (induction "length q" arbitrary: q rule: less_induct)
    case less
    show ?case
    proof
      assume "isNode q t"
      then have "parentThere q t" "q \<noteq> ''''"
        using assms by (auto simp: treeOK_def)
      then obtain p k where "single k" "q = childPath p k" "isNode p t"
        unfolding parentThere_def by blast
      then show False
        using less childPath_longer by blast
    qed
  qed
  then have "fst (hd t) \<notin> fst ` set t"
    unfolding isNode_def tabGet_eq_None by simp
  then show ?thesis
    by (cases t) auto
qed

lemma CalculateChecksum_total:
  assumes law: "store_law E lit leafSum" and ok: "treeOK (md_tree d)"
  shows "mt_CalculateChecksum E d = treeTotal E leafSum (md_tree d)"
proof -
  have root: "GetDataNode E (rootNodePathWithoutSlash E) (md_tree d) = payloadAt '''' (md_tree d)"
    using store_lawD(8) [OF law store_lawD(10) [OF law], of "md_tree d"] by (simp add: sessionPath_def)
  show ?thesis
  proof (cases "payloadAt '''' (md_tree d)")
    case None
    then have "md_tree d = []"
      using rootless_empty [OF ok] isNode_payload by blast
    then show ?thesis
      using root None by (simp add: mt_CalculateChecksum_def treeTotal_def)
  next
    case (Some x)
    then have "isNode '''' (md_tree d)"
      by (simp add: isNode_payload)
    then show ?thesis
      using root Some store_lawD(11) [OF law ok] by (simp add: mt_CalculateChecksum_def)
  qed
qed

lemma told_checksum:
  assumes law: "store_law E lit leafSum" and ok: "treeOK (md_tree d)" and "told E lit leafSum senior evs d d'"
    and "md_checksum d = mt_CalculateChecksum E d"
  shows "md_checksum d' = mt_CalculateChecksum E d'"
  using assms treeTotal_chain [OF law ok, of evs] told_treeOK [OF assms(3) ok]
  by (simp add: CalculateChecksum_total [OF law] told_def)

section \<open>Carrying out a recorded command\<close>

lemma withSum_simps [simp]:
  "applyEvent (withSum s ev) t = applyEvent ev t"
  "checksumChange E (withSum s ev) = checksumChange E ev"
  "eventCommand (withSum s ev) = eventCommand ev"
  by (cases ev; simp add: checksumChange_def split: option.split)+

lemma store_step:
  assumes law: "store_law E lit leafSum" and ok: "treeOK (md_tree d)" and occ: "occurs lit leafSum (md_tree d) ev"
  shows "\<exists>s d'. storeCall E senior (plainCall E ev) d = (B_NO_ERROR, d') \<and> told E lit leafSum senior [withSum s ev] d d'"
proof -
  obtain s where call: "plainCall E ev (md_tree d) = (B_NO_ERROR, [withSum s ev], applyEvent ev (md_tree d))"
    using store_lawD(7) [OF law ok occ] by blast
  have "notifies lit leafSum (plainCall E ev)"
    by (cases ev) (simp_all add: store_lawD [OF law])
  then have "chain lit leafSum (md_tree d) [withSum s ev]"
    using ok call unfolding notifies_def by blast
  from notifications_told [OF law this, of senior d]
  show ?thesis
    by (intro exI [of _ s]) (simp add: storeCall_def call)
qed

text \<open>What a command has in common with the bare command it is an instance of.\<close>

lemma bareD:
  assumes "bare c = e"
  shows "mc_what c = mc_what e" "mc_path c = mc_path e" "mc_payload c = mc_payload e" "mc_before c = mc_before e"
    "mc_index c = mc_index e" "mc_key c = mc_key e"
    "mc_flags e = 0 \<Longrightarrow> i \<noteq> TREE_GATEWAY_FLAG_INTERIM \<Longrightarrow> \<not> bit (mc_flags c) i"
proof -
  show "\<not> bit (mc_flags c) i" if "mc_flags e = 0" "i \<noteq> TREE_GATEWAY_FLAG_INTERIM"
  proof -
    have "mc_flags c AND NOT (set_bit TREE_GATEWAY_FLAG_INTERIM 0) = 0"
      using that(1) unfolding assms [symmetric] by (simp add: bare_def)
    then have "\<not> bit (mc_flags c AND NOT (set_bit TREE_GATEWAY_FLAG_INTERIM 0)) i"
      by (metis bit_0_eq bot_apply bot_bool_def)
    then show ?thesis
      using that(2) by (auto simp: bit_simps dest: bit_imp_le_length)
  qed
qed (simp_all add: assms [symmetric] bare_def)

lemma tagged_step:
  assumes law: "store_law E lit leafSum" and ok: "treeOK (md_tree d)" and occ: "occurs lit leafSum (md_tree d) ev"
    and body: "\<And>d. body d = Some (f (storeCall E senior (plainCall E ev) d))" and f: "\<And>d. f (B_NO_ERROR, d) = (B_NO_ERROR, d)"
  shows "\<exists>s d'. withOpTag tag body d = Some (B_NO_ERROR, d') \<and> told E lit leafSum senior [withSum s ev] d d'"
proof (cases "tag = ''''")
  case True
  then show ?thesis
    using store_step [OF law ok occ, of senior] f by (auto simp: withOpTag_def body)
next
  case False
  let ?d = "d\<lparr> md_opTagStack := md_opTagStack d @ [tag] \<rparr>"
  have "treeOK (md_tree ?d)" "occurs lit leafSum (md_tree ?d) ev"
    using ok occ by simp_all
  from store_step [OF law this, of senior] obtain s d' where step: "storeCall E senior (plainCall E ev) ?d = (B_NO_ERROR, d')"
    "told E lit leafSum senior [withSum s ev] d d'"
    unfolding told_fields by blast
  let ?d' = "d'\<lparr> md_opTagStack := butlast (md_opTagStack d') \<rparr>"
  have "withOpTag tag body d = Some (B_NO_ERROR, ?d')"
    using False step(1) f by (simp add: withOpTag_def body)
  moreover have "told E lit leafSum senior [withSum s ev] d ?d'"
    using step(2) unfolding told_fields .
  ultimately show ?thesis
    by blast
qed

lemma no_flags:
  assumes "\<And>i. i \<noteq> TREE_GATEWAY_FLAG_INTERIM \<Longrightarrow> \<not> bit flags i"
  shows "ConvertTreeGatewayFlagsToSetDataNodeFlags flags = {}" "\<not> bit flags TREE_GATEWAY_FLAG_NOREPLY"
    "DatabaseSubpathToSessionRelativePath E p flags t = sessionPath E p"
  using assms [of TREE_GATEWAY_FLAG_NOREPLY] assms [of TREE_GATEWAY_FLAG_INDEXED] assms [of TREE_GATEWAY_FLAG_DONTCREATENODE]
    assms [of TREE_GATEWAY_FLAG_DONTOVERWRITEDATA] assms [of TREE_GATEWAY_FLAG_ENABLESUPERCEDE]
    assms [of TREE_GATEWAY_FLAG_TRAVERSE_SYMLINK]
  by (simp_all add: ConvertTreeGatewayFlagsToSetDataNodeFlags_def DatabaseSubpathToSessionRelativePath_def sessionPath_def
      TREE_GATEWAY_FLAG_NOREPLY_def TREE_GATEWAY_FLAG_INDEXED_def TREE_GATEWAY_FLAG_DONTCREATENODE_def TREE_GATEWAY_FLAG_INTERIM_def
      TREE_GATEWAY_FLAG_DONTOVERWRITEDATA_def TREE_GATEWAY_FLAG_ENABLESUPERCEDE_def TREE_GATEWAY_FLAG_TRAVERSE_SYMLINK_def)

lemma replay_node_aux:
  assumes law: "store_law E lit leafSum" and ok: "treeOK (md_tree d)" and occ: "occurs lit leafSum (md_tree d) ev"
    and ev: "ev = NodeUpdated p x old s0 removed" and c: "bare c = eventCommand ev"
  shows "\<exists>s d'. HandleNodeUpdateMessageAux E senior c d = Some (B_NO_ERROR, d') \<and> told E lit leafSum senior [withSum s ev] d d'"
  unfolding HandleNodeUpdateMessageAux_def
proof (rule tagged_step [OF law ok occ, where f = "\<lambda>x. x"])
  have flags: "mc_flags (eventCommand ev :: ('a, 'c) mtdo_command) = 0"
    by (simp add: ev newCommand_def)
  note off = bareD(7) [OF c flags]
  have tolerates: "\<not> toleratesDenial (mc_flags c)"
    using off [of TREE_GATEWAY_FLAG_DONTCREATENODE] off [of TREE_GATEWAY_FLAG_DONTOVERWRITEDATA]
    by (simp add: toleratesDenial_def TREE_GATEWAY_FLAG_DONTCREATENODE_def TREE_GATEWAY_FLAG_DONTOVERWRITEDATA_def TREE_GATEWAY_FLAG_INTERIM_def)
  have fields: "mc_path c = p" "mc_payload c = (if removed then None else Some x)" "mc_before c = ''''"
    using bareD [OF c] by (simp_all add: ev newCommand_def)
  have slash: "choosePath E senior (sessionPath E p) fl d = Some (Inr (sessionPath E p), d)" for fl and d :: "('a, 'c) mtdo"
    using store_lawD(9) [OF law, of p] occ by (auto simp: choosePath_def ev)
  show "(case mc_payload c of
      None \<Rightarrow> mt_RemoveDataNodes E senior (DatabaseSubpathToSessionRelativePath E (mc_path c) (mc_flags c) (md_tree d)) None
        (bit (mc_flags c) TREE_GATEWAY_FLAG_NOREPLY) '''' d
    | Some optPayload \<Rightarrow> (case choosePath E senior (DatabaseSubpathToSessionRelativePath E (mc_path c) (mc_flags c) (md_tree d)) (mc_flags c) d of
        None \<Rightarrow> None
      | Some (Inl st, d1) \<Rightarrow> Some (st, d1)
      | Some (Inr path, d1) \<Rightarrow> (case storeCall E senior (SetDataNode E path optPayload (ConvertTreeGatewayFlagsToSetDataNodeFlags (mc_flags c))
            (if mc_before c = '''' then None else Some (mc_before c))) d1 of
          (ret, d2) \<Rightarrow> Some (if IsOK ret \<or> ret = B_ACCESS_DENIED \<and> toleratesDenial (mc_flags c) then B_NO_ERROR else ret, d2)))) =
    Some (storeCall E senior (plainCall E ev) d)" for d :: "('a, 'c) mtdo"
    unfolding no_flags [OF off] fields
    by (cases removed) (simp_all add: ev slash tolerates no_flags [OF off] mt_RemoveDataNodes_def withOpTag_def split_def)
qed simp

lemma replay_node:
  assumes law: "store_law E lit leafSum" and ok: "treeOK (md_tree d)" and occ: "occurs lit leafSum (md_tree d) ev"
    and ev: "ev = NodeUpdated p x old s0 removed" and c: "bare c = eventCommand ev"
    and okay: "IsOkayToHandleUpdateMessage E (mc_path c) (mc_flags c) d"
  shows "\<exists>s d'. HandleNodeUpdateMessage E senior c d = Some (B_NO_ERROR, d') \<and> told E lit leafSum senior [withSum s ev] d d'"
proof (cases "bit (mc_flags c) TREE_GATEWAY_FLAG_INTERIM")
  case True
  let ?d = "d\<lparr> md_interimUpdateNestCount := md_interimUpdateNestCount d + 1 \<rparr>"
  have "treeOK (md_tree ?d)" "occurs lit leafSum (md_tree ?d) ev"
    using ok occ by simp_all
  from replay_node_aux [OF law this ev c, of senior] obtain s d' where aux:
    "HandleNodeUpdateMessageAux E senior c ?d = Some (B_NO_ERROR, d')" "told E lit leafSum senior [withSum s ev] d d'"
    unfolding told_fields by blast
  let ?d' = "d'\<lparr> md_interimUpdateNestCount := md_interimUpdateNestCount d' - 1 \<rparr>"
  have "HandleNodeUpdateMessage E senior c d = Some (B_NO_ERROR, ?d')"
    using True okay aux(1) by (simp add: HandleNodeUpdateMessage_def)
  moreover have "told E lit leafSum senior [withSum s ev] d ?d'"
    using aux(2) unfolding told_fields .
  ultimately show ?thesis
    by blast
next
  case False
  then show ?thesis
    using replay_node_aux [OF law ok occ ev c, of senior] okay by (simp add: HandleNodeUpdateMessage_def)
qed

lemma replay_index:
  assumes law: "store_law E lit leafSum" and ok: "treeOK (md_tree d)" and occ: "occurs lit leafSum (md_tree d) ev"
    and ev: "ev = IndexUpdated p op i k" and c: "bare c = eventCommand ev"
    and okay: "IsOkayToHandleUpdateMessage E (mc_path c) 0 d"
  shows "\<exists>s d'. HandleNodeIndexUpdateMessage E senior c d = Some (B_NO_ERROR, d') \<and> told E lit leafSum senior [withSum s ev] d d'"
proof -
  have flags: "mc_flags (eventCommand ev :: ('a, 'c) mtdo_command) = 0"
    by (simp add: ev newCommand_def)
  have codes: "MTDO_COMMAND_REMOVEINDEXENTRY \<noteq> MTDO_COMMAND_INSERTINDEXENTRY"
    by simp
  have fields: "mc_path c = p" "mc_what c = MTDO_COMMAND_INSERTINDEXENTRY \<longleftrightarrow> op = INDEX_OP_ENTRYINSERTED"
    "mc_index c = i" "mc_key c = k"
    using bareD [OF c] codes by (simp_all add: ev newCommand_def)
  have lit: "lit p" and "isNode p (md_tree d)"
    using occ by (simp_all add: ev)
  then obtain x where "GetDataNode E (sessionPath E p) (md_tree d) = Some x"
    unfolding isNode_payload store_lawD(8) [OF law lit, symmetric] by blast
  then have run: "HandleNodeIndexUpdateMessage E senior c d = withOpTag (mc_tag c) (\<lambda>d. Some (B_NO_ERROR, snd (storeCall E senior (plainCall E ev) d))) d"
    using okay by (simp add: HandleNodeIndexUpdateMessage_def fields no_flags(3) [OF bareD(7) [OF c flags]] ev)
  show ?thesis
    unfolding run by (rule tagged_step [OF law ok occ, where f = "\<lambda>(_, d). (B_NO_ERROR, d)"]) (simp_all add: split_def)
qed

abbreviation peerCommand :: "('m, 'f, 'q) tree_env \<Rightarrow> bool \<Rightarrow> ('m, 'q) mtdo_command \<Rightarrow> ('m, 'q) mtdo \<Rightarrow> (status_t \<times> ('m, 'q) mtdo) option" where
  "peerCommand E senior c d \<equiv> (if senior then seniorCommand E c d else juniorCommand E c d)"

lemma replay_command:
  assumes law: "store_law E lit leafSum" and ok: "treeOK (md_tree d)" and occ: "occurs lit leafSum (md_tree d) ev"
    and c: "bare c = eventCommand ev" and okay: "IsOkayToHandleUpdateMessage E (mc_path c) (mc_flags c) d"
  shows "\<exists>s d'. peerCommand E senior c d = Some (B_NO_ERROR, d') \<and> told E lit leafSum senior [withSum s ev] d d'"
proof (cases ev)
  case (NodeUpdated p x old s0 removed)
  have "mc_what c = MTDO_COMMAND_UPDATENODEVALUE"
    using bareD(1) [OF c] NodeUpdated by (simp add: newCommand_def)
  then have "peerCommand E senior c d = HandleNodeUpdateMessage E senior c d"
    by (simp add: seniorCommand_def juniorCommand_def Let_def)
  then show ?thesis
    using replay_node [OF law ok occ NodeUpdated c okay, of senior] by simp
next
  case (IndexUpdated p op i k)
  have "mc_what c = MTDO_COMMAND_INSERTINDEXENTRY \<or> mc_what c = MTDO_COMMAND_REMOVEINDEXENTRY"
    using bareD(1) [OF c] IndexUpdated by (auto simp: newCommand_def)
  moreover have "MTDO_COMMAND_INSERTINDEXENTRY \<notin> {MTDO_COMMAND_NOOP, MTDO_COMMAND_UPDATENODEVALUE, MTDO_COMMAND_UPDATESUBTREE}"
    "MTDO_COMMAND_REMOVEINDEXENTRY \<notin> {MTDO_COMMAND_NOOP, MTDO_COMMAND_UPDATENODEVALUE, MTDO_COMMAND_UPDATESUBTREE}"
    by simp_all
  ultimately have "peerCommand E senior c d = HandleNodeIndexUpdateMessage E senior c d"
    by (auto simp: seniorCommand_def juniorCommand_def Let_def)
  moreover have "IsOkayToHandleUpdateMessage E (mc_path c) 0 d"
    using okay by (auto simp: IsOkayToHandleUpdateMessage_def)
  ultimately show ?thesis
    using replay_index [OF law ok occ IndexUpdated c, of senior] by simp
qed

fun runCommands ::
  "(('m, 'q) mtdo_command \<Rightarrow> 'd \<Rightarrow> (status_t \<times> 'd) option) \<Rightarrow> ('m, 'q) mtdo_command list \<Rightarrow> 'd \<Rightarrow> (status_t \<times> 'd) option" where
  "runCommands handle [] d = Some (B_NO_ERROR, d)"
| "runCommands handle (c # cs) d =
     (case handle c d of
        None \<Rightarrow> None
      | Some (st, d1) \<Rightarrow> if IsError st then Some (st, d1) else runCommands handle cs d1)"

lemma runCommands_append:
  "runCommands handle (cs @ cs') d =
     (case runCommands handle cs d of None \<Rightarrow> None | Some (st, d1) \<Rightarrow> if IsError st then Some (st, d1) else runCommands handle cs' d1)"
  by (induction cs arbitrary: d) (auto split: option.split)

lemma runMessage_leaves: "runMessage handle m d = runCommands handle (msgLeaves m) d"
proof (induction m arbitrary: d)
  case (Command c)
  show ?case
    by (simp split: option.split)
next
  case (Batch ms)
  then have "runMessages handle ms d = runCommands handle (concat (map msgLeaves ms)) d" for d
    by (induction ms arbitrary: d) (auto simp: runCommands_append split: option.split)
  then show ?case
    by simp
qed

lemma replay_commands:
  assumes law: "store_law E lit leafSum"
  shows "treeOK (md_tree d) \<Longrightarrow> chain lit leafSum (md_tree d) evs \<Longrightarrow> map bare cs = map eventCommand evs \<Longrightarrow>
    \<forall>c \<in> set cs. IsOkayToHandleUpdateMessage E (mc_path c) (mc_flags c) d \<Longrightarrow>
    \<exists>d' evs'. runCommands (peerCommand E senior) cs d = Some (B_NO_ERROR, d') \<and> told E lit leafSum senior evs' d d' \<and>
      md_tree d' = treeAfter evs (md_tree d) \<and> md_checksum d' = md_checksum d + sum_list (map (checksumChange E) evs)"
proof (induction cs arbitrary: d evs)
  case Nil
  then show ?case
    using told_Nil by fastforce
next
  case (Cons c cs)
  then obtain ev evs' where evs: "evs = ev # evs'" "bare c = eventCommand ev" "map bare cs = map eventCommand evs'"
    by auto
  obtain s d1 where first: "peerCommand E senior c d = Some (B_NO_ERROR, d1)" "told E lit leafSum senior [withSum s ev] d d1"
    using replay_command [OF law Cons.prems(1) _ evs(2), of senior] Cons.prems(2,4) evs(1) by auto
  have d1: "md_tree d1 = applyEvent ev (md_tree d)" "md_checksum d1 = md_checksum d + checksumChange E ev"
    "md_inUndoRedoContextNestCount d1 = md_inUndoRedoContextNestCount d"
    using first(2) by (simp_all add: told_def)
  have "chain lit leafSum (md_tree d1) evs'"
    using Cons.prems(2) evs(1) d1(1) by simp
  moreover have "\<forall>c \<in> set cs. IsOkayToHandleUpdateMessage E (mc_path c) (mc_flags c) d1"
  proof -
    have "IsOkayToHandleUpdateMessage E p fl d1 = IsOkayToHandleUpdateMessage E p fl d" for p fl
      by (simp add: IsOkayToHandleUpdateMessage_def d1(3))
    then show ?thesis
      using Cons.prems(4) by simp
  qed
  ultimately obtain d' evs'' where rest: "runCommands (peerCommand E senior) cs d1 = Some (B_NO_ERROR, d')"
    "told E lit leafSum senior evs'' d1 d'" "md_tree d' = treeAfter evs' (md_tree d1)"
    "md_checksum d' = md_checksum d1 + sum_list (map (checksumChange E) evs')"
    using Cons.IH [OF told_treeOK [OF first(2) Cons.prems(1)] _ evs(3)] by blast
  have "runCommands (peerCommand E senior) (c # cs) d = Some (B_NO_ERROR, d')"
    using first(1) rest(1) by simp
  moreover have "md_tree d' = treeAfter evs (md_tree d)" "md_checksum d' = md_checksum d + sum_list (map (checksumChange E) evs)"
    using rest(3,4) d1 evs(1) by (simp_all add: algebra_simps)
  ultimately show ?case
    using told_append [OF first(2) rest(2)] by blast
qed

text \<open>What a senior update tells, and the message it returns.\<close>

lemma SeniorUpdate_told:
  assumes law: "store_law E lit leafSum" and ok: "treeOK (md_tree d)" and loud: "\<forall>c \<in> set (msgLeaves m). loud c"
    and run: "mt_SeniorUpdate E m d = Some (r, d')"
  shows "\<exists>evs d1. told E lit leafSum True evs d d1 \<and> d' = d1\<lparr> md_assembledJuniorMessage := None \<rparr> \<and>
    (\<forall>j. r = Some j \<longrightarrow> j = (case md_assembledJuniorMessage d1 of None \<Rightarrow> Command (newCommand MTDO_COMMAND_NOOP) | Some m \<Rightarrow> m))"
proof -
  obtain ret d1 where d1: "runMessage (seniorCommand E) m d = Some (ret, d1)"
    using run by (auto simp: mt_SeniorUpdate_def SeniorMessageTreeUpdate_def split: option.splits)
  have tells: "tells E lit leafSum True (runMessage (seniorCommand E) m)"
    by (rule tells_runMessage(1) [OF tells_seniorCommand [OF law] loud])
  obtain evs where "told E lit leafSum True evs d d1"
    using tellsD [OF tells ok d1] by blast
  then show ?thesis
    using run d1 by (auto simp: mt_SeniorUpdate_def SeniorMessageTreeUpdate_def split: if_splits)
qed

lemma told_leaves:
  assumes "told E lit leafSum True evs d d1" "md_assembledJuniorMessage d = None"
  shows "map bare (optLeaves (md_assembledJuniorMessage d1)) = map eventCommand evs"
  using assms by (simp add: told_def optLeaves_def)

lemma NOOP_run:
  "runMessage (seniorCommand E) (Command (newCommand MTDO_COMMAND_NOOP)) d = Some (B_NO_ERROR, d)"
  "runMessage (juniorCommand E) (Command (newCommand MTDO_COMMAND_NOOP)) d = Some (B_NO_ERROR, d)"
  by (simp_all add: seniorCommand_def juniorCommand_def newCommand_def Let_def)

section \<open>The properties\<close>

text \<open>
  C34: juniors follow.  Let the senior have no commands left over for its juniors, as it has at
  the start and after every update (the last conclusion; a reset or a restore may leave some,
  see C38), and let its update ask for no quiet deletion (\<open>loud\<close>) and succeed.  The Message it
  returns is replayed without error by every junior that has the senior's nodes and checksum from
  before and is not in an undo or redo, and then it has the senior's new nodes and checksum.
\<close>

theorem tree_updates_replicate:
  assumes "store_law E lit leafSum" "treeOK (md_tree d)" "md_assembledJuniorMessage d = None"
    and "\<forall>c \<in> set (msgLeaves m). loud c" "mt_SeniorUpdate E m d = Some (Some j, d')"
    and "md_tree e = md_tree d" "md_checksum e = md_checksum d" "md_inUndoRedoContextNestCount e = 0"
  shows "\<exists>e'. mt_JuniorUpdate E j e = Some (B_NO_ERROR, e') \<and> md_tree e' = md_tree d' \<and> md_checksum e' = md_checksum d' \<and>
    md_assembledJuniorMessage d' = None"
proof -
  obtain evs d1 where evs: "told E lit leafSum True evs d d1" "d' = d1\<lparr> md_assembledJuniorMessage := None \<rparr>"
    "j = (case md_assembledJuniorMessage d1 of None \<Rightarrow> Command (newCommand MTDO_COMMAND_NOOP) | Some m \<Rightarrow> m)"
    using SeniorUpdate_told [OF assms(1,2,4,5)] by blast
  note leaves = told_leaves [OF evs(1) assms(3)]
  show ?thesis
  proof (cases "md_assembledJuniorMessage d1")
    case None
    then have "evs = []"
      using leaves by (simp add: optLeaves_def)
    then have "mt_JuniorUpdate E j e = Some (B_NO_ERROR, e)" "md_tree e = md_tree d'" "md_checksum e = md_checksum d'"
      "md_assembledJuniorMessage d' = None"
      using evs None assms(6,7) NOOP_run(2) [of E e] by (simp_all add: told_def mt_JuniorUpdate_def JuniorMessageTreeUpdate_def del: runMessage.simps)
    then show ?thesis
      by blast
  next
    case (Some m')
    have "treeOK (md_tree e)" "chain lit leafSum (md_tree e) evs" "map bare (msgLeaves j) = map eventCommand evs"
      "\<forall>c \<in> set (msgLeaves j). IsOkayToHandleUpdateMessage E (mc_path c) (mc_flags c) e"
      using assms(2,6,8) evs(1,3) leaves Some by (simp_all add: told_def optLeaves_def IsOkayToHandleUpdateMessage_def)
    from replay_commands [OF assms(1) this, of False] obtain e' where
      "runCommands (juniorCommand E) (msgLeaves j) e = Some (B_NO_ERROR, e')" "md_tree e' = treeAfter evs (md_tree e)"
      "md_checksum e' = md_checksum e + sum_list (map (checksumChange E) evs)"
      by (auto simp: cong: if_cong)
    then show ?thesis
      using evs assms(6,7) by (simp add: told_def mt_JuniorUpdate_def JuniorMessageTreeUpdate_def runMessage_leaves)
  qed
qed

text \<open>
  C35: the running checksum is exact.  Let the tree be well-formed and the running checksum the one
  computing it over the nodes gives.  Then both are so again after an update of a senior or a
  junior, successful or not, whose Message asks for no quiet deletion (\<open>loud\<close>; C37 is about the
  others), and after a reset and a restore from an archive.
\<close>

theorem tree_checksum_exact:
  assumes law: "store_law E lit leafSum" and ok: "treeOK (md_tree d)" and start: "md_checksum d = mt_CalculateChecksum E d"
    and step: "(\<exists>m r. (\<forall>c \<in> set (msgLeaves m). loud c) \<and> mt_SeniorUpdate E m d = Some (r, d')) \<or>
      (\<exists>m st. (\<forall>c \<in> set (msgLeaves m). loud c) \<and> mt_JuniorUpdate E m d = Some (st, d')) \<or>
      (\<exists>senior. d' = mt_SetToDefaultState E senior d) \<or> (\<exists>senior archive. d' = snd (mt_SetFromArchive E senior archive d))"
  shows "treeOK (md_tree d') \<and> md_checksum d' = mt_CalculateChecksum E d'"
proof -
  have told: "treeOK (md_tree d') \<and> md_checksum d' = mt_CalculateChecksum E d'" if "told E lit leafSum senior evs d d'" for senior evs
    using told_treeOK [OF that ok] told_checksum [OF law ok that start] by blast
  have cleared: "mt_CalculateChecksum E (d\<lparr> md_assembledJuniorMessage := None \<rparr>) = mt_CalculateChecksum E d" for d
    by (simp add: mt_CalculateChecksum_def split: option.split)
  from step show ?thesis
  proof (elim disjE exE conjE)
    fix m r
    assume "\<forall>c \<in> set (msgLeaves m). loud c" "mt_SeniorUpdate E m d = Some (r, d')"
    from SeniorUpdate_told [OF law ok this] obtain evs d1 where d1: "told E lit leafSum True evs d d1"
      "d' = d1\<lparr> md_assembledJuniorMessage := None \<rparr>"
      by blast
    then show ?thesis
      using told_treeOK [OF d1(1) ok] told_checksum [OF law ok d1(1) start] by (simp add: cleared)
  next
    fix m st
    assume "\<forall>c \<in> set (msgLeaves m). loud c" and run: "mt_JuniorUpdate E m d = Some (st, d')"
    then have tells: "tells E lit leafSum False (runMessage (juniorCommand E) m)"
      by (intro tells_runMessage(1) [OF tells_juniorCommand [OF law]])
    have "runMessage (juniorCommand E) m d = Some (st, d')"
      using run by (simp add: mt_JuniorUpdate_def JuniorMessageTreeUpdate_def)
    from tellsD [OF tells ok this] show ?thesis
      using told by blast
  next
    fix senior
    assume "d' = mt_SetToDefaultState E senior d"
    then show ?thesis
      using storeCall_told [OF law store_lawD(2) [OF law] ok] told unfolding mt_SetToDefaultState_def by blast
  next
    fix senior archive
    assume "d' = snd (mt_SetFromArchive E senior archive d)"
    then show ?thesis
      using storeCall_told [OF law store_lawD(4) [OF law] ok] told unfolding mt_SetFromArchive_def by blast
  qed
qed

end
