(* ===== verification/ZG_TreeUndo.thy ===== *)
theory ZG_TreeUndo
  imports ZG_TreeReplication
begin

text \<open>
  What the undo Message of \<^verbatim>\<open>UndoStackMessageTreeDatabaseObject\<close> is worth: it is recorded in step
  with the junior Message, and replaying it restores the nodes as they were before the update,
  up to the order in which they are stored.
\<close>

section \<open>The same nodes in another order\<close>

definition sameNodes :: "'m node_tree \<Rightarrow> 'm node_tree \<Rightarrow> bool" where
  "sameNodes t t' \<longleftrightarrow> (\<forall>p. tabGet fst p t = tabGet fst p t')"

lemma sameNodes_refl: "sameNodes t t"
  by (simp add: sameNodes_def)

lemma sameNodes_sym: "sameNodes t t' \<Longrightarrow> sameNodes t' t"
  by (simp add: sameNodes_def)

lemma sameNodes_trans: "sameNodes t t' \<Longrightarrow> sameNodes t' t'' \<Longrightarrow> sameNodes t t''"
  by (simp add: sameNodes_def)

lemma sameNodes_lookups:
  assumes "sameNodes t t'"
  shows "payloadAt p t = payloadAt p t'" "indexAt p t = indexAt p t'" "isNode p t = isNode p t'"
    "parentThere p t = parentThere p t'" "childless p t = childless p t'" "unlisted p t = unlisted p t'"
  using assms by (simp_all add: sameNodes_def payloadAt_def indexAt_def isNode_def parentThere_def childless_def unlisted_def)

lemma sameNodes_applyEvent:
  assumes "sameNodes t t'"
  shows "sameNodes (applyEvent ev t) (applyEvent ev t')"
  using assms sameNodes_lookups [OF assms]
  by (cases ev) (auto simp: sameNodes_def table_simps split: option.split)

lemma sameNodes_occurs: "sameNodes t t' \<Longrightarrow> occurs lit leafSum t ev = occurs lit leafSum t' ev"
  using sameNodes_lookups [of t t'] by (cases ev) (simp_all split: index_op.split)

lemma sameNodes_chain:
  "sameNodes t t' \<Longrightarrow> chain lit leafSum t evs \<Longrightarrow> chain lit leafSum t' evs \<and> sameNodes (treeAfter evs t) (treeAfter evs t')"
proof (induction evs arbitrary: t t')
  case (Cons ev evs)
  then show ?case
    using Cons.IH [OF sameNodes_applyEvent] sameNodes_occurs [OF Cons.prems(1), of lit leafSum ev] by simp
qed simp

section \<open>Taking a change back\<close>

lemma noNode_childless:
  assumes "treeOK t" "\<not> isNode p t"
  shows "childless p t"
proof -
  have False if child: "single k" "isNode (childPath p k) t" for k
  proof -
    have "parentThere (childPath p k) t"
      using assms(1) child(2) by (simp add: treeOK_def)
    then obtain p' k' where "single k'" "childPath p k = childPath p' k'" "isNode p' t"
      using childPath_root [OF child(1), of p] unfolding parentThere_def by blast
    then show False
      using childPath_inj [of p k p' k'] child(1) assms(2) by simp
  qed
  then show ?thesis
    unfolding childless_def by blast
qed

lemma noNode_unlisted: "treeOK t \<Longrightarrow> \<not> isNode p t \<Longrightarrow> unlisted p t"
  unfolding treeOK_def unlisted_def by blast

lemma childPath_ne: "single k \<Longrightarrow> childPath p k \<noteq> p"
  using childPath_longer [of k p] by auto

lemma created_bare:
  assumes "treeOK t" "payloadAt p t = None"
  shows "indexAt p (tabPut fst (p, d, indexAt p t) t) = []" "childless p (tabPut fst (p, d, indexAt p t) t)"
    "unlisted p (tabPut fst (p, d, indexAt p t) t)"
proof -
  have none: "\<not> isNode p t"
    using assms(2) by (simp add: isNode_payload)
  have ix: "indexAt p t = []"
    using assms(2) tabGet_noPayload by blast
  show "indexAt p (tabPut fst (p, d, indexAt p t) t) = []"
    by (simp add: payloadAt_simps ix)
  show "childless p (tabPut fst (p, d, indexAt p t) t)"
    using noNode_childless [OF assms(1) none] childPath_ne unfolding childless_def isNode_simps by blast
  have "k \<notin> set (indexAt p' (tabPut fst (p, d, indexAt p t) t))" if "single k \<and> p = childPath p' k" for p' k
    using noNode_unlisted [OF assms(1) none] that ix unfolding unlisted_def payloadAt_simps by auto
  then show "unlisted p (tabPut fst (p, d, indexAt p t) t)"
    unfolding unlisted_def by blast
qed

lemma removed_parent:
  assumes "treeOK t" "isNode p t"
  shows "parentThere p (tabRemove fst p t)"
proof -
  have "parentThere p t"
    using assms by (simp add: treeOK_def)
  then show ?thesis
    using childPath_ne unfolding parentThere_def isNode_simps by metis
qed

lemma tabGet_back:
  "tabGet fst q (tabPut fst (p, d, indexAt p t) (tabRemove fst p t)) = (if q = p then Some (p, d, indexAt p t) else tabGet fst q t)"
  "tabGet fst q (tabRemove fst p (tabPut fst (p, d, ix) t)) = (if q = p then None else tabGet fst q t)"
  "tabGet fst q (tabPut fst (p, d, ix) (tabPut fst (p, d', ix') t)) = (if q = p then Some (p, d, ix) else tabGet fst q t)"
  by (simp_all add: table_simps)

lemma index_back:
  "i \<le> length ix \<Longrightarrow> changeIndex INDEX_OP_ENTRYREMOVED i k (changeIndex INDEX_OP_ENTRYINSERTED i k ix) = ix"
  "i < length ix \<Longrightarrow> ix ! i = k \<Longrightarrow> changeIndex INDEX_OP_ENTRYINSERTED i k (changeIndex INDEX_OP_ENTRYREMOVED i k ix) = ix"
  by (auto simp: changeIndex_def take_Cons' min_def id_take_nth_drop [symmetric])

lemma node_opposite:
  assumes ok: "treeOK t" and occ: "occurs lit leafSum t ev" and ev: "ev = NodeUpdated p d old s removed"
  shows "occurs lit leafSum (applyEvent ev t) (opposite ev) \<and> sameNodes (applyEvent (opposite ev) (applyEvent ev t)) t"
proof (cases removed)
  case True
  then have at: "payloadAt p t = Some d" "old = Some d" "indexAt p t = []" "s = leafSum p d" "lit p"
    using occ ev by auto
  then have "parentThere p (tabRemove fst p t)"
    using removed_parent [OF ok] by (simp add: isNode_payload)
  moreover have "tabGet fst p t = Some (p, d, [])"
    using tabGet_payload [OF at(1)] at(3) by simp
  ultimately show ?thesis
    using at True by (auto simp: ev payloadAt_simps sameNodes_def table_simps)
next
  case False
  show ?thesis
  proof (cases old)
    case None
    then have at: "payloadAt p t = None" "lit p" "s = leafSum p d"
      using occ ev False by auto
    then have "tabGet fst p t = None"
      using tabGet_noPayload by blast
    then show ?thesis
      using at False None created_bare [OF ok at(1), of d] by (auto simp: ev payloadAt_simps sameNodes_def table_simps)
  next
    case (Some o')
    then have at: "payloadAt p t = Some o'" "lit p"
      using occ ev False by auto
    then show ?thesis
      using False Some tabGet_payload [OF at(1)] by (auto simp: ev payloadAt_simps sameNodes_def table_simps)
  qed
qed

lemma index_opposite:
  assumes ok: "treeOK t" and occ: "occurs lit leafSum t ev" and ev: "ev = IndexUpdated p op i k"
  shows "occurs lit leafSum (applyEvent ev t) (opposite ev) \<and> sameNodes (applyEvent (opposite ev) (applyEvent ev t)) t"
proof -
  have "isNode p t" "lit p"
    using occ ev by auto
  then obtain d where d: "payloadAt p t = Some d"
    unfolding isNode_payload by blast
  have listed: "k' \<in> set (indexAt p t) \<Longrightarrow> single k' \<and> isNode (childPath p k') t" for k'
    using ok by (simp add: treeOK_def)
  show ?thesis
  proof (cases op)
    case INDEX_OP_ENTRYINSERTED
    then have i: "unat i \<le> length (indexAt p t)"
      using occ ev by simp
    then have "unat i < length (changeIndex op (unat i) k (indexAt p t)) \<and> changeIndex op (unat i) k (indexAt p t) ! unat i = k"
      using INDEX_OP_ENTRYINSERTED by (simp add: changeIndex_def nth_append)
    then show ?thesis
      using INDEX_OP_ENTRYINSERTED d \<open>lit p\<close> index_back(1) [OF i] tabGet_payload [OF d]
      by (auto simp: ev payloadAt_simps isNode_simps sameNodes_def table_simps)
  next
    case INDEX_OP_ENTRYREMOVED
    then have i: "unat i < length (indexAt p t)" "indexAt p t ! unat i = k"
      using occ ev by auto
    then have "single k \<and> isNode (childPath p k) t"
      using listed nth_mem by blast
    moreover have "unat i \<le> length (changeIndex op (unat i) k (indexAt p t))"
      using INDEX_OP_ENTRYREMOVED i by (simp add: changeIndex_def)
    ultimately show ?thesis
      using INDEX_OP_ENTRYREMOVED d \<open>lit p\<close> index_back(2) [OF i] tabGet_payload [OF d]
      by (auto simp: ev payloadAt_simps isNode_simps sameNodes_def table_simps)
  qed (use occ ev in auto)
qed

lemma opposite_takes_back:
  assumes "treeOK t" "occurs lit leafSum t ev"
  shows "occurs lit leafSum (applyEvent ev t) (opposite ev) \<and> sameNodes (applyEvent (opposite ev) (applyEvent ev t)) t"
proof (cases ev)
  case (NodeUpdated p d old s removed)
  then show ?thesis
    by (rule node_opposite [OF assms])
next
  case (IndexUpdated p op i k)
  then show ?thesis
    by (rule index_opposite [OF assms])
qed

lemma opposites_take_back:
  "treeOK t \<Longrightarrow> chain lit leafSum t evs \<Longrightarrow>
   chain lit leafSum (treeAfter evs t) (rev (map opposite evs)) \<and> sameNodes (treeAfter (rev (map opposite evs)) (treeAfter evs t)) t"
proof (induction evs arbitrary: t)
  case (Cons ev evs)
  let ?t = "applyEvent ev t"
  have occ: "occurs lit leafSum t ev" and "chain lit leafSum ?t evs"
    using Cons.prems by simp_all
  then have rest: "chain lit leafSum (treeAfter evs ?t) (rev (map opposite evs))"
    and same: "sameNodes (treeAfter (rev (map opposite evs)) (treeAfter evs ?t)) ?t"
    using Cons.IH [OF treeOK_occurs [OF Cons.prems(1) occ]] by auto
  have taken: "occurs lit leafSum ?t (opposite ev)" "sameNodes (applyEvent (opposite ev) ?t) t"
    using opposite_takes_back [OF Cons.prems(1) occ] by auto
  have "occurs lit leafSum (treeAfter (rev (map opposite evs)) (treeAfter evs ?t)) (opposite ev)"
    using taken(1) sameNodes_occurs [OF same, of lit leafSum "opposite ev"] by simp
  moreover have "sameNodes (applyEvent (opposite ev) (treeAfter (rev (map opposite evs)) (treeAfter evs ?t))) t"
    using sameNodes_trans [OF sameNodes_applyEvent [OF same] taken(2)] .
  ultimately show ?case
    using rest by (simp add: chain_append)
qed (simp add: sameNodes_refl)


lemma treeTotal_same:
  assumes "treeOK t" "treeOK t'" "sameNodes t t'"
  shows "treeTotal E leafSum t = treeTotal E leafSum t'"
proof -
  have "set u \<subseteq> set v" if "tabInv fst u" "sameNodes u v" for u v :: "'a node_tree"
    using that tabGet_mem [of fst u] tabGet_SomeD [of fst _ v] unfolding sameNodes_def by (metis subsetI)
  then have "set t = set t'"
    using assms sameNodes_sym [OF assms(3)] unfolding treeOK_def by blast
  moreover have "distinct t" "distinct t'"
    using assms(1,2) by (simp_all add: treeOK_def tabInv_def distinct_map)
  ultimately show ?thesis
    by (simp add: treeTotal_def sum_list_distinct_conv_sum_set)
qed

section \<open>The undo Message\<close>

text \<open>
  C36: undo.  Take a database with an undo stack and a senior update that asks for no quiet
  deletion (\<open>loud\<close>), begun with no undo commands left over, that left an undo Message beside the
  junior one.  Suppose no command of that Message is one an undo passes over
  (\<open>IsOkayToHandleUpdateMessage\<close>: none is interim or about a path of the stacks themselves).  Then,
  carried out inside an undo in a database that has the nodes the update left, the undo Message
  succeeds and restores the nodes from before the update, up to the order in which they are
  stored, and changes the checksum by the difference of the computed ones before and after.
\<close>

theorem undo_message_restores:
  assumes law: "store_law E lit leafSum" and ok: "treeOK (md_tree d)" and "isUndoStack E"
    and "md_assembledJuniorUndoMessage d = None" "\<forall>c \<in> set (msgLeaves m). loud c"
    and "mt_SeniorUpdate E m d = Some (r, d')" "md_assembledJuniorUndoMessage d' = Some u"
    and "md_tree e = md_tree d'" "\<forall>c \<in> set (msgLeaves u). IsOkayToHandleUpdateMessage E (mc_path c) (mc_flags c) e"
  shows "\<exists>e'. SeniorMessageTreeUpdate E u e = Some (B_NO_ERROR, e') \<and> sameNodes (md_tree e') (md_tree d) \<and>
    md_checksum e' = md_checksum e + (mt_CalculateChecksum E d - mt_CalculateChecksum E d')"
proof -
  obtain evs d1 where told: "told E lit leafSum True evs d d1" and d': "d' = d1\<lparr> md_assembledJuniorMessage := None \<rparr>"
    using SeniorUpdate_told [OF law ok assms(5,6)] by blast
  let ?undone = "rev (map opposite evs)"
  have tree: "md_tree e = treeAfter evs (md_tree d)" and chain: "chain lit leafSum (md_tree d) evs"
    using told d' assms(8) by (simp_all add: told_def)
  have undo: "map bare (msgLeaves u) = map eventCommand ?undone"
    using told d' assms(3,4,7) by (simp add: told_def optLeaves_def)
  have ok': "treeOK (md_tree e)"
    using treeOK_chain [OF ok chain] tree by simp
  have "chain lit leafSum (md_tree e) ?undone" and same: "sameNodes (treeAfter ?undone (md_tree e)) (md_tree d)"
    using opposites_take_back [OF ok chain] tree by simp_all
  from replay_commands [OF law ok' this(1) undo assms(9), of True] obtain e' where
    run: "SeniorMessageTreeUpdate E u e = Some (B_NO_ERROR, e')" and e': "md_tree e' = treeAfter ?undone (md_tree e)"
    "md_checksum e' = md_checksum e + sum_list (map (checksumChange E) ?undone)"
    by (auto simp: SeniorMessageTreeUpdate_def runMessage_leaves cong: if_cong)
  have "sum_list (map (checksumChange E) ?undone) = treeTotal E leafSum (treeAfter ?undone (md_tree e)) - treeTotal E leafSum (md_tree e)"
    using treeTotal_chain [OF law ok' \<open>chain lit leafSum (md_tree e) ?undone\<close>] by simp
  moreover have "treeTotal E leafSum (treeAfter ?undone (md_tree e)) = treeTotal E leafSum (md_tree d)"
    using same treeOK_chain [OF ok' \<open>chain lit leafSum (md_tree e) ?undone\<close>] ok treeTotal_same by blast
  moreover have "mt_CalculateChecksum E d' = treeTotal E leafSum (md_tree e)"
    using ok' assms(8) by (simp add: CalculateChecksum_total [OF law])
  ultimately show ?thesis
    using run e' same ok by (simp add: CalculateChecksum_total [OF law])
qed

end
