(* ===== verification/ZG_TreeErrors.thy ===== *)
theory ZG_TreeErrors
  imports ZG_TreeReplication
begin

text \<open>
  Where a \<^verbatim>\<open>MessageTreeDatabaseObject\<close> and its copies part: quiet deletions, batches that fail
  half-way, and the changes a reset makes inside the senior's update context; and the choice
  of node names, which ends or reports that every name is taken.
\<close>

section \<open>Quiet deletions\<close>

lemma delete_code [simp]:
  "MTDO_SENIOR_COMMAND_REQUESTDELETENODES \<noteq> MTDO_COMMAND_NOOP"
  "MTDO_SENIOR_COMMAND_REQUESTDELETENODES \<noteq> MTDO_COMMAND_UPDATENODEVALUE"
  "MTDO_SENIOR_COMMAND_REQUESTDELETENODES \<noteq> MTDO_COMMAND_UPDATESUBTREE"
  "MTDO_SENIOR_COMMAND_REQUESTDELETENODES \<noteq> MTDO_COMMAND_INSERTINDEXENTRY"
  "MTDO_SENIOR_COMMAND_REQUESTDELETENODES \<noteq> MTDO_COMMAND_REMOVEINDEXENTRY"
  by (code_simp, code_simp, code_simp, code_simp, code_simp)

text \<open>
  C37: a quiet deletion stays on the senior.  A request to delete nodes with the no-reply flag
  is passed to the store as a quiet one; the store changes the nodes without notifying, the
  update succeeds with a Message that does nothing, and a junior that replays it keeps the
  nodes, while the running checksum of both stays what it was.
\<close>

theorem quiet_deletion_diverges:
  assumes "mc_what c = MTDO_SENIOR_COMMAND_REQUESTDELETENODES" "bit (mc_flags c) TREE_GATEWAY_FLAG_NOREPLY"
    and "RemoveDataNodes E (DatabaseSubpathToSessionRelativePath E (mc_path c) (mc_flags c) (md_tree d)) (instantiateFilter E c) True
           (md_tree d) = (B_NO_ERROR, [], t')"
    and "md_assembledJuniorMessage d = None"
  shows "\<exists>d'. mt_SeniorUpdate E (Command c) d = Some (Some (Command (newCommand MTDO_COMMAND_NOOP)), d') \<and>
    md_tree d' = t' \<and> md_checksum d' = md_checksum d \<and>
    mt_JuniorUpdate E (Command (newCommand MTDO_COMMAND_NOOP)) e = Some (B_NO_ERROR, e)"
proof -
  have "seniorCommand E c d = Some (B_NO_ERROR, d\<lparr> md_tree := t' \<rparr>)"
    using assms by (simp add: seniorCommand_def Let_def mt_RemoveDataNodes_def withOpTag_def storeCall_def)
  then have "mt_SeniorUpdate E (Command c) d = Some (Some (Command (newCommand MTDO_COMMAND_NOOP)), d\<lparr> md_tree := t', md_assembledJuniorMessage := None \<rparr>)"
    using assms(4) by (simp add: mt_SeniorUpdate_def SeniorMessageTreeUpdate_def)
  then show ?thesis
    using NOOP_run(2) [of E e] by (simp add: mt_JuniorUpdate_def JuniorMessageTreeUpdate_def del: runMessage.simps)
qed

section \<open>Batches that fail half-way\<close>

text \<open>
  A batch is not undone.  When a command of a batch fails, the senior keeps what the
  commands before it did, with the checksum that belongs to it, but there is no Message for the
  juniors: they keep the nodes from before.
\<close>

theorem failed_batch_diverges:
  assumes law: "store_law E lit leafSum" and ok: "treeOK (md_tree d)" and loud: "\<forall>c \<in> set (msgLeaves m). loud c"
    and first: "SeniorMessageTreeUpdate E m d = Some (B_NO_ERROR, d1)"
    and second: "SeniorMessageTreeUpdate E m' d1 = Some (st, d2)" "IsError st" "md_tree d2 = md_tree d1"
  shows "\<exists>d'. mt_SeniorUpdate E (Batch [m, m']) d = Some (None, d') \<and> md_tree d' = md_tree d1 \<and> md_assembledJuniorMessage d' = None \<and>
    (md_checksum d1 = mt_CalculateChecksum E d1 \<longleftrightarrow> md_checksum d = mt_CalculateChecksum E d)"
proof -
  have tells: "tells E lit leafSum True (runMessage (seniorCommand E) m)"
    by (rule tells_runMessage(1) [OF tells_seniorCommand [OF law] loud])
  obtain evs where told: "told E lit leafSum True evs d d1"
    using tellsD [OF tells ok] first unfolding SeniorMessageTreeUpdate_def by blast
  have "treeTotal E leafSum (md_tree d1) = treeTotal E leafSum (md_tree d) + (md_checksum d1 - md_checksum d)"
    using told treeTotal_chain [OF law ok, of evs] by (simp add: told_def)
  then have "md_checksum d1 = mt_CalculateChecksum E d1 \<longleftrightarrow> md_checksum d = mt_CalculateChecksum E d"
    using ok told_treeOK [OF told ok] by (auto simp: CalculateChecksum_total [OF law])
  then show ?thesis
    using first second by (simp add: mt_SeniorUpdate_def SeniorMessageTreeUpdate_def)
qed

section \<open>Changes made by a reset\<close>

lemma SeniorUpdate_NOOP:
  "mt_SeniorUpdate E (Command (newCommand MTDO_COMMAND_NOOP)) d =
     Some (Some (case md_assembledJuniorMessage d of None \<Rightarrow> Command (newCommand MTDO_COMMAND_NOOP) | Some m \<Rightarrow> m),
           d\<lparr> md_assembledJuniorMessage := None \<rparr>)"
  using NOOP_run(1) [of E d] by (simp add: mt_SeniorUpdate_def SeniorMessageTreeUpdate_def del: runMessage.simps)

text \<open>
  C38: a reset spoils the update after it.  A senior's reset runs in the update context, so the
  removals it makes are recorded for the juniors and left in the object; the next update hands
  them out in front of its own.  A junior that has carried out the reset by itself has no nodes,
  and when the first removal was that of an index entry it refuses the whole Message.
\<close>

theorem reset_spoils_next_update:
  assumes law: "store_law E lit leafSum" and ok: "treeOK (md_tree d)" and clean: "md_assembledJuniorMessage d = None"
    and reset: "RemoveDataNodes E (rootNodePathWithoutSlash E) None False (md_tree d) = (st, IndexUpdated p INDEX_OP_ENTRYREMOVED i k # evs, t')"
    and loud: "\<forall>c \<in> set (msgLeaves m). loud c"
    and run: "mt_SeniorUpdate E m (mt_SetToDefaultState E True d) = Some (Some j, d')"
    and junior: "md_tree e = []" "md_inUndoRedoContextNestCount e = 0"
  shows "mt_JuniorUpdate E j e = Some (B_DATA_NOT_FOUND, e)"
proof -
  let ?ev = "IndexUpdated p INDEX_OP_ENTRYREMOVED i k"
  let ?d1 = "mt_SetToDefaultState E True d"
  have chain: "chain lit leafSum (md_tree d) (?ev # evs)" and t': "t' = treeAfter (?ev # evs) (md_tree d)"
    using store_lawD(2) [OF law] ok reset unfolding notifies_def by blast+
  have "told E lit leafSum True (?ev # evs) (d\<lparr> md_tree := md_tree d \<rparr>) ?d1"
    using notifications_told [OF law chain, of True d] by (simp add: mt_SetToDefaultState_def storeCall_def reset t')
  then have reset_told: "told E lit leafSum True (?ev # evs) d ?d1"
    by simp
  obtain evs' d2 where told: "told E lit leafSum True evs' ?d1 d2"
    and j: "j = (case md_assembledJuniorMessage d2 of None \<Rightarrow> Command (newCommand MTDO_COMMAND_NOOP) | Some m \<Rightarrow> m)"
    using SeniorUpdate_told [OF law told_treeOK [OF reset_told ok] loud run] by blast
  have leaves: "map bare (optLeaves (md_assembledJuniorMessage d2)) = map eventCommand ((?ev # evs) @ evs')"
    using told_leaves [OF told_append [OF reset_told told] clean] .
  then obtain c cs where cs: "msgLeaves j = c # cs" "bare c = eventCommand ?ev"
    by (cases "md_assembledJuniorMessage d2") (auto simp: optLeaves_def j)
  have what: "mc_what c = MTDO_COMMAND_REMOVEINDEXENTRY" and path: "mc_path c = p"
    using bareD [OF cs(2)] by (simp_all add: newCommand_def)
  have lit: "lit p"
    using chain by simp
  have "DatabaseSubpathToSessionRelativePath E (mc_path c) (mc_flags c) (md_tree e) = sessionPath E p"
    using no_flags(3) [OF bareD(7) [OF cs(2)]] path by (simp add: newCommand_def)
  moreover have "GetDataNode E (sessionPath E p) (md_tree e) = None"
    using store_lawD(8) [OF law lit, of "md_tree e"] junior(1) by (simp add: payloadAt_def)
  ultimately have "juniorCommand E c e = Some (B_DATA_NOT_FOUND, e)"
    using junior(2) by (simp add: juniorCommand_def Let_def what HandleNodeIndexUpdateMessage_def IsOkayToHandleUpdateMessage_def)
  then show ?thesis
    by (simp add: mt_JuniorUpdate_def JuniorMessageTreeUpdate_def runMessage_leaves cs(1))
qed

section \<open>Choosing a node name\<close>

lemma findUnusedID_spec:
  assumes "nextID < NUM_NODE_IDS"
  shows "case findUnusedID taken n nextID of
      None \<Rightarrow> \<forall>k < n. taken (of_nat ((unat nextID + k) mod unat NUM_NODE_IDS))
    | Some i \<Rightarrow> \<not> taken i \<and> i < NUM_NODE_IDS"
  using assms
proof (induction n arbitrary: nextID)
  case (Suc n)
  let ?next = "(nextID + 1) mod NUM_NODE_IDS"
  have N: "unat NUM_NODE_IDS = 100000"
    by (simp add: NUM_NODE_IDS_def)
  have lt: "unat nextID < 100000"
    using Suc.prems by (simp add: word_less_nat_alt N)
  have next_lt: "?next < NUM_NODE_IDS"
    by (simp add: word_less_nat_alt unat_mod_distrib N)
  have next_nat: "unat ?next = (unat nextID + 1) mod 100000"
    using lt by (simp add: unat_mod_distrib N unat_word_ariths)
  show ?case
  proof (cases "taken nextID")
    case True
    show ?thesis
    proof (cases "findUnusedID taken n ?next")
      case None
      have rest: "\<forall>k < n. taken (of_nat ((unat ?next + k) mod unat NUM_NODE_IDS))"
        using Suc.IH [OF next_lt] None by simp
      have "taken (of_nat ((unat nextID + k) mod unat NUM_NODE_IDS))" if "k < Suc n" for k
      proof (cases k)
        case 0
        then show ?thesis
          using True lt by (simp add: N)
      next
        case (Suc k')
        then have "(unat nextID + k) mod unat NUM_NODE_IDS = (unat ?next + k') mod unat NUM_NODE_IDS"
          by (simp add: N next_nat mod_simps)
        then show ?thesis
          using rest that Suc by simp
      qed
      then show ?thesis
        using True None by simp
    next
      case (Some i)
      then show ?thesis
        using True Suc.IH [OF next_lt] by simp
    qed
  qed (use Suc.prems in simp)
qed simp

lemma findUnusedID_all:
  assumes "start < NUM_NODE_IDS"
  shows "findUnusedID taken (unat NUM_NODE_IDS) start = None \<longleftrightarrow> (\<forall>i < NUM_NODE_IDS. taken i)"
    "findUnusedID taken (unat NUM_NODE_IDS) start = Some i \<Longrightarrow> \<not> taken i \<and> i < NUM_NODE_IDS"
proof -
  note spec = findUnusedID_spec [OF assms, where taken = taken and n = "unat NUM_NODE_IDS"]
  show "findUnusedID taken (unat NUM_NODE_IDS) start = Some i \<Longrightarrow> \<not> taken i \<and> i < NUM_NODE_IDS"
    using spec by simp
  show "findUnusedID taken (unat NUM_NODE_IDS) start = None \<longleftrightarrow> (\<forall>i < NUM_NODE_IDS. taken i)"
  proof (cases "findUnusedID taken (unat NUM_NODE_IDS) start")
    case None
    have "taken i" if "i < NUM_NODE_IDS" for i
    proof -
      let ?N = "unat NUM_NODE_IDS"
      have lt: "unat i < ?N" "unat start < ?N"
        using that assms by (simp_all add: word_less_nat_alt)
      let ?k = "(unat i + ?N - unat start) mod ?N"
      have "?k < ?N"
        using lt by (intro mod_less_divisor) simp
      moreover have "(unat start + ?k) mod ?N = unat i"
        using lt by (simp add: mod_simps)
      moreover have "\<forall>k < ?N. taken (of_nat ((unat start + k) mod ?N))"
        using spec None by simp
      ultimately have "taken (of_nat (unat i))"
        by metis
      then show ?thesis
        by simp
    qed
    then show ?thesis
      using None by simp
  next
    case (Some i)
    then show ?thesis
      using spec by auto
  qed
qed

text \<open>
  C39: node names.  For a parent that exists the search ends, changes nothing, and returns an ID
  below 100000 under which the parent has no child, plain or indexed; it fails only when every
  one of them is taken.
\<close>

theorem unused_node_id:
  assumes "GetDataNode E path (md_tree d) \<noteq> None"
  shows "case GetUnusedNodeID E senior path d of
      Some (Inr i, d') \<Rightarrow> d' = d \<and> i < 100000 \<and> \<not> nodeIDTaken E path (md_tree d) i
    | Some (Inl st, d') \<Rightarrow> d' = d \<and> st = B_ERROR \<and> (\<forall>i < 100000. nodeIDTaken E path (md_tree d) i)
    | None \<Rightarrow> False"
proof -
  let ?start = "GetMaxKnownChildIDHint E path (md_tree d) mod NUM_NODE_IDS"
  let ?taken = "nodeIDTaken E path (md_tree d)"
  have start: "?start < NUM_NODE_IDS"
    by (simp add: word_less_nat_alt unat_mod_distrib NUM_NODE_IDS_def)
  obtain x where x: "GetDataNode E path (md_tree d) = Some x"
    using assms by blast
  show ?thesis
  proof (cases "findUnusedID ?taken (unat NUM_NODE_IDS) ?start")
    case None
    then show ?thesis
      using findUnusedID_all(1) [OF start, of ?taken] by (subst GetUnusedNodeID.simps) (simp add: x NUM_NODE_IDS_def)
  next
    case (Some i)
    then show ?thesis
      using findUnusedID_all(2) [OF start Some] by (subst GetUnusedNodeID.simps) (simp add: x NUM_NODE_IDS_def)
  qed
qed

end
