(* ===== verification/ZG_TreeStore.thy ===== *)
theory ZG_TreeStore
  imports ZG_TreeReplication
begin

text \<open>
  A node store that obeys \<open>store_law\<close>, so that the theorems about the tree database can be
  applied to concrete nodes: payloads are numbers, a call plans the single changes it needs and
  makes them one after the other, stopping at the first that cannot be made.
\<close>

section \<open>Executable conditions\<close>

definition isChildOf :: "string \<Rightarrow> string \<Rightarrow> bool" where
  "isChildOf p q \<longleftrightarrow>
     (if p = '''' then single q else take (Suc (length p)) q = p @ ''/'' \<and> single (drop (Suc (length p)) q))"

lemma isChildOf_iff: "isChildOf p q \<longleftrightarrow> (\<exists>k. single k \<and> q = childPath p k)"
proof (cases "p = ''''")
  case False
  have "q = p @ CHR ''/'' # drop (Suc (length p)) q" if "take (Suc (length p)) q = p @ ''/''"
    using append_take_drop_id [of "Suc (length p)" q] that by simp
  then show ?thesis
    using False by (auto simp: isChildOf_def childPath_def)
qed (simp add: isChildOf_def childPath_def)

definition plannable :: "(string \<Rightarrow> bool) \<Rightarrow> (string \<Rightarrow> 'm \<Rightarrow> u32) \<Rightarrow> 'm node_tree \<Rightarrow> 'm tree_event \<Rightarrow> bool" where
  "plannable lit leafSum t ev =
     (case ev of
        NodeUpdated p d old s removed \<Rightarrow>
          lit p \<and> payloadAt p t = old \<and>
          (if removed
           then old = Some d \<and> s = leafSum p d \<and> indexAt p t = [] \<and> list_all (\<lambda>(q, _, _). \<not> isChildOf p q) t \<and>
             list_all (\<lambda>(q, _, ix). list_all (\<lambda>k. single k \<longrightarrow> childPath q k \<noteq> p) ix) t
           else old = None \<longrightarrow> s = leafSum p d \<and> (p = '''' \<or> list_ex (\<lambda>(q, _, _). isChildOf q p) t))
      | IndexUpdated p op i k \<Rightarrow>
          lit p \<and> tabGet fst p t \<noteq> None \<and>
          (case op of INDEX_OP_ENTRYINSERTED \<Rightarrow> unat i \<le> length (indexAt p t) \<and> single k \<and> tabGet fst (childPath p k) t \<noteq> None
                    | INDEX_OP_ENTRYREMOVED \<Rightarrow> unat i < length (indexAt p t) \<and> indexAt p t ! unat i = k
                    | INDEX_OP_CLEARED \<Rightarrow> False))"

lemma isNode_mem: "isNode p t \<longleftrightarrow> (\<exists>d ix. (p, d, ix) \<in> set t)"
  unfolding isNode_def tabGet_eq_None by force

lemma childless_code: "childless p t \<longleftrightarrow> list_all (\<lambda>(q, _, _). \<not> isChildOf p q) t"
  unfolding childless_def isNode_mem list_all_iff isChildOf_iff by auto

lemma parentThere_code: "parentThere q t \<longleftrightarrow> q = '''' \<or> list_ex (\<lambda>(p, _, _). isChildOf p q) t"
  unfolding parentThere_def isNode_mem list_ex_iff isChildOf_iff by auto

lemma unlisted_code:
  assumes "tabInv fst t"
  shows "unlisted q t \<longleftrightarrow> list_all (\<lambda>(p, _, ix). list_all (\<lambda>k. single k \<longrightarrow> childPath p k \<noteq> q) ix) t"
proof -
  have index: "indexAt p t = ix" if "(p, d, ix) \<in> set t" for p d ix
    using tabGet_mem [OF assms that] by (simp add: indexAt_def)
  have "\<exists>d. (p, d, indexAt p t) \<in> set t" if "k \<in> set (indexAt p t)" for p k
    using indexAt_node [OF that] index unfolding isNode_mem by metis
  then show ?thesis
    unfolding unlisted_def list_all_iff using index by fastforce
qed

lemma plannable_occurs: "tabInv fst t \<Longrightarrow> plannable lit leafSum t ev = occurs lit leafSum t ev"
  by (cases ev) (simp_all add: plannable_def childless_code parentThere_code unlisted_code isNode_def split: index_op.split)

section \<open>Making planned changes\<close>

fun attempt :: "(string \<Rightarrow> bool) \<Rightarrow> (string \<Rightarrow> 'm \<Rightarrow> u32) \<Rightarrow> 'm tree_event list \<Rightarrow> 'm store_call" where
  "attempt lit leafSum [] t = (B_NO_ERROR, [], t)"
| "attempt lit leafSum (ev # evs) t =
     (if plannable lit leafSum t ev
      then (case attempt lit leafSum evs (applyEvent ev t) of (st, made, t') \<Rightarrow> (st, ev # made, t'))
      else (B_BAD_ARGUMENT, [], t))"

fun oneByOne :: "'m store_call list \<Rightarrow> 'm store_call" where
  "oneByOne [] t = (B_NO_ERROR, [], t)"
| "oneByOne (call # calls) t =
     (case call t of
        (st, evs, t1) \<Rightarrow>
          if IsError st then (st, evs, t1) else (case oneByOne calls t1 of (st', evs', t2) \<Rightarrow> (st', evs @ evs', t2)))"

lemma notifies_attempt: "notifies lit leafSum (attempt lit leafSum evs)"
proof -
  have "chain lit leafSum t made \<and> t' = treeAfter made t"
    if "treeOK t" "attempt lit leafSum evs t = (st, made, t')" for t st made t'
    using that
  proof (induction evs arbitrary: t made)
    case (Cons ev evs)
    show ?case
    proof (cases "occurs lit leafSum t ev")
      case True
      then have "plannable lit leafSum t ev"
        using Cons.prems(1) by (simp add: plannable_occurs treeOK_def)
      then obtain made' where "attempt lit leafSum evs (applyEvent ev t) = (st, made', t')" "made = ev # made'"
        using Cons.prems(2) by (auto split: prod.splits)
      then show ?thesis
        using True Cons.IH [OF treeOK_occurs [OF Cons.prems(1) True]] by auto
    next
      case False
      then show ?thesis
        using Cons.prems by (simp add: plannable_occurs treeOK_def split: if_splits)
    qed
  qed simp
  then show ?thesis
    unfolding notifies_def by blast
qed

lemma notifies_oneByOne:
  assumes "\<forall>call \<in> set calls. notifies lit leafSum call"
  shows "notifies lit leafSum (oneByOne calls)"
proof -
  have "chain lit leafSum t evs \<and> t' = treeAfter evs t" if "treeOK t" "oneByOne calls t = (st, evs, t')" for t st evs t'
    using that assms
  proof (induction calls arbitrary: t evs)
    case (Cons call calls)
    obtain st1 evs1 t1 where call: "call t = (st1, evs1, t1)"
      by (cases "call t") auto
    then have first: "chain lit leafSum t evs1" "t1 = treeAfter evs1 t"
      using Cons.prems(1,3) unfolding notifies_def by auto
    then have ok: "treeOK t1"
      using treeOK_chain [OF Cons.prems(1)] by simp
    show ?case
    proof (cases "IsError st1")
      case False
      then obtain evs2 where "oneByOne calls t1 = (st, evs2, t')" "evs = evs1 @ evs2"
        using Cons.prems(2) call by (auto split: prod.splits)
      then show ?thesis
        using first Cons.IH [OF ok] Cons.prems(3) by (auto simp: chain_append)
    qed (use Cons.prems(2) call first in auto)
  qed simp
  then show ?thesis
    unfolding notifies_def by blast
qed

lemma notifies_plan: "(\<And>t. notifies lit leafSum (plan t)) \<Longrightarrow> notifies lit leafSum (\<lambda>t. plan t t)"
  unfolding notifies_def by blast

lemma notifies_nothing: "notifies lit leafSum (\<lambda>t. (st, [], t))"
  by (simp add: notifies_def)

lemma notifies_if:
  "(P \<Longrightarrow> notifies lit leafSum f) \<Longrightarrow> (\<not> P \<Longrightarrow> notifies lit leafSum g) \<Longrightarrow> notifies lit leafSum (\<lambda>t. if P then f t else g t)"
  by (cases P) simp_all

section \<open>The store\<close>

definition dbRoot :: string where
  "dbRoot = ''db''"

definition litPath :: "string \<Rightarrow> bool" where
  "litPath p \<longleftrightarrow> p = '''' \<or> last p \<noteq> CHR ''/''"

definition nameSum :: "string \<Rightarrow> u32" where
  "nameSum s = sum_list (map of_char s)"

definition numberLeaf :: "string \<Rightarrow> nat \<Rightarrow> u32" where
  "numberLeaf p d = nameSum p + of_nat d"

definition inside :: "string \<Rightarrow> string option" where
  "inside path =
     (if path = dbRoot then Some ''''
      else if take 3 path = dbRoot @ ''/'' \<and> length path > 3 then Some (drop 3 path) else None)"

text \<open>The parent of a path and the last name in it.\<close>

definition splitPath :: "string \<Rightarrow> string \<times> string" where
  "splitPath p =
     (let r = rev p in (rev (drop 1 (dropWhile (\<lambda>c. c \<noteq> CHR ''/'') r)), rev (takeWhile (\<lambda>c. c \<noteq> CHR ''/'') r)))"

fun positionOf :: "string \<Rightarrow> string list \<Rightarrow> nat" where
  "positionOf k [] = 0"
| "positionOf k (x # xs) = (if x = k then 0 else Suc (positionOf k xs))"

abbreviation "carryOut \<equiv> attempt litPath numberLeaf"

definition numberSet :: "string \<Rightarrow> nat \<Rightarrow> sdn_flag set \<Rightarrow> string option \<Rightarrow> nat store_call" where
  "numberSet path d flags beforeName t =
     (case inside path of
        None \<Rightarrow> (B_BAD_ARGUMENT, [], t)
      | Some p \<Rightarrow>
          (let old = payloadAt p t
           in if old = None \<and> SETDATANODE_FLAG_DONTCREATENODE \<in> flags then (B_ACCESS_DENIED, [], t)
              else if old \<noteq> None \<and> SETDATANODE_FLAG_DONTOVERWRITEDATA \<in> flags then (B_ACCESS_DENIED, [], t)
              else carryOut (NodeUpdated p d old (numberLeaf p d) False #
                (if old = None \<and> SETDATANODE_FLAG_ADDTOINDEX \<in> flags
                 then case splitPath p of (q, k) \<Rightarrow>
                   [IndexUpdated q INDEX_OP_ENTRYINSERTED
                      (of_nat (case beforeName of None \<Rightarrow> length (indexAt q t) | Some b \<Rightarrow> positionOf b (indexAt q t))) k]
                 else [])) t))"

definition numberRemoveOne :: "string \<Rightarrow> nat store_call" where
  "numberRemoveOne p t =
     (case splitPath p of
        (q, k) \<Rightarrow>
          (case payloadAt p t of
             None \<Rightarrow> (B_NO_ERROR, [], t)
           | Some d \<Rightarrow>
               carryOut ((if k \<in> set (indexAt q t) \<and> p \<noteq> '''' then [IndexUpdated q INDEX_OP_ENTRYREMOVED (of_nat (positionOf k (indexAt q t))) k] else []) @
                     [NodeUpdated p d (Some d) (numberLeaf p d) True]) t))"

definition below :: "string \<Rightarrow> string \<Rightarrow> bool" where
  "below p q \<longleftrightarrow> q = p \<or> p = '''' \<or> take (Suc (length p)) q = p @ ''/''"

definition deepestFirst :: "string list \<Rightarrow> string list" where
  "deepestFirst ps = rev (sort_key length ps)"

definition numberRemoveLoud :: "string \<Rightarrow> nat store_call" where
  "numberRemoveLoud path t =
     (case inside path of
        None \<Rightarrow> (B_NO_ERROR, [], t)
      | Some p \<Rightarrow> oneByOne (map numberRemoveOne (deepestFirst (filter (below p) (map fst t)))) t)"

definition numberRemove :: "string \<Rightarrow> unit option \<Rightarrow> bool \<Rightarrow> nat store_call" where
  "numberRemove path f quiet t = (case numberRemoveLoud path t of (st, evs, t') \<Rightarrow> (st, if quiet then [] else evs, t'))"

definition numberUnlist :: "string \<Rightarrow> u32 \<Rightarrow> nat store_call" where
  "numberUnlist path i t =
     (case inside path of
        None \<Rightarrow> (B_BAD_ARGUMENT, [], t)
      | Some p \<Rightarrow>
          if unat i < length (indexAt p t) then carryOut [IndexUpdated p INDEX_OP_ENTRYREMOVED i (indexAt p t ! unat i)] t
          else (B_BAD_ARGUMENT, [], t))"

definition numberList :: "string \<Rightarrow> u32 \<Rightarrow> string \<Rightarrow> nat store_call" where
  "numberList path i k t =
     (case inside path of
        None \<Rightarrow> (B_BAD_ARGUMENT, [], t)
      | Some p \<Rightarrow> carryOut [IndexUpdated p INDEX_OP_ENTRYINSERTED i k] t)"

definition numberMove :: "string \<Rightarrow> string option \<Rightarrow> unit option \<Rightarrow> nat store_call" where
  "numberMove path beforeName f t =
     (case inside path of
        None \<Rightarrow> (B_NO_ERROR, [], t)
      | Some p \<Rightarrow>
          (case splitPath p of
             (q, k) \<Rightarrow>
               if k \<in> set (indexAt q t)
               then let rest = remove1 k (indexAt q t)
                    in carryOut [IndexUpdated q INDEX_OP_ENTRYREMOVED (of_nat (positionOf k (indexAt q t))) k,
                         IndexUpdated q INDEX_OP_ENTRYINSERTED
                           (of_nat (case beforeName of None \<Rightarrow> length rest | Some b \<Rightarrow> positionOf b rest)) k] t
               else (B_NO_ERROR, [], t)))"

fun assembleFlat :: "('m, 'q) mtdo_msg option \<Rightarrow> ('m, 'q) mtdo_msg \<Rightarrow> bool \<Rightarrow> ('m, 'q) mtdo_msg" where
  "assembleFlat None m pre = m"
| "assembleFlat (Some (Batch ms)) m pre = Batch (if pre then m # ms else ms @ [m])"
| "assembleFlat (Some (Command c)) m pre = Batch (if pre then [m, Command c] else [Command c, m])"

definition numberStore :: "bool \<Rightarrow> (nat, unit, unit) tree_env" where
  "numberStore undoStack =
     \<lparr> rootNodePathWithoutSlash = dbRoot, isUndoStack = undoStack,
       WithAppendedWord = (\<lambda>a b. a @ CHR ''/'' # b),
       SetDataNode = numberSet,
       RemoveDataNodes = numberRemove,
       MoveIndexEntries = numberMove,
       RestoreNodeTreeFromMessage = (\<lambda>m path. numberSet path m {} None),
       SaveNodeTreeToMessage = (\<lambda>t. Inl B_UNIMPLEMENTED),
       InsertIndexEntryAt = numberList,
       RemoveIndexEntryAt = numberUnlist,
       GetDataNode = (\<lambda>path t. case inside path of None \<Rightarrow> None | Some p \<Rightarrow> payloadAt p t),
       GetMaxKnownChildIDHint = (\<lambda>path t. of_nat (length t)),
       HasChild = (\<lambda>path k t. case inside path of None \<Rightarrow> False | Some p \<Rightarrow> payloadAt (childPath p k) t \<noteq> None),
       NodeChecksum = (\<lambda>path t. sum_list (map (\<lambda>(p, d, ix). numberLeaf p d + sum_list (map nameSum ix)) t)),
       MessageChecksum = of_nat,
       StringChecksum = nameSum,
       symlinkTarget = (\<lambda>m. None),
       emptyMessage = 0,
       CreateQueryFilter = (\<lambda>q. None),
       AssembleBatchMessage = assembleFlat \<rparr>"

section \<open>It obeys the law\<close>

lemma inside_sessionPath: "inside (sessionPath (numberStore u) p) = Some p"
  by (simp add: sessionPath_def numberStore_def inside_def dbRoot_def)

lemma notifies_numberSet: "notifies litPath numberLeaf (numberSet path d fl b)"
proof (cases "inside path")
  case (Some p)
  show ?thesis
    unfolding numberSet_def [abs_def] Some option.case Let_def
    by (rule notifies_plan) (intro notifies_if notifies_nothing notifies_attempt)
qed (simp add: numberSet_def [abs_def] notifies_nothing)

lemma notifies_numberRemoveOne: "notifies litPath numberLeaf (numberRemoveOne p)"
  using notifies_attempt [of litPath numberLeaf]
  unfolding notifies_def numberRemoveOne_def by (auto simp del: attempt.simps split: option.splits prod.splits)

lemma notifies_numberRemove: "notifies litPath numberLeaf (numberRemove path f False)"
proof -
  have "notifies litPath numberLeaf (oneByOne (map numberRemoveOne ps))" for ps
    using notifies_numberRemoveOne by (intro notifies_oneByOne) auto
  then have "notifies litPath numberLeaf (numberRemoveLoud path)"
    using notifies_nothing [of litPath numberLeaf B_NO_ERROR] unfolding numberRemoveLoud_def [abs_def] notifies_def
    by (cases "inside path") auto
  then show ?thesis
    unfolding notifies_def numberRemove_def by (auto simp del: attempt.simps split: prod.splits)
qed

lemma notifies_numberMove: "notifies litPath numberLeaf (numberMove path b f)"
  using notifies_attempt [of litPath numberLeaf]
  unfolding notifies_def numberMove_def Let_def by (auto simp del: attempt.simps split: option.splits prod.splits if_splits)

lemma notifies_numberList: "notifies litPath numberLeaf (numberList path i k)"
  using notifies_attempt [of litPath numberLeaf]
  unfolding notifies_def numberList_def by (auto simp del: attempt.simps split: option.splits)

lemma notifies_numberUnlist: "notifies litPath numberLeaf (numberUnlist path i)"
  using notifies_attempt [of litPath numberLeaf]
  unfolding notifies_def numberUnlist_def by (auto simp del: attempt.simps split: option.splits if_splits)

lemma only_itself_below:
  assumes ok: "treeOK t" and "childless p t" "isNode q t" "below p q"
  shows "q = p"
  using assms(3,4)
proof (induction "length q" arbitrary: q rule: less_induct)
  case less
  show ?case
  proof (rule ccontr)
    assume ne: "q \<noteq> p"
    then have "q \<noteq> ''''"
      using less.prems(2) by (auto simp: below_def)
    then obtain p' k where k: "single k" "q = childPath p' k" and p': "isNode p' t"
      using ok less.prems(1) unfolding treeOK_def parentThere_def by blast
    have "p' \<noteq> p"
      using assms(2) k less.prems(1) unfolding childless_def by blast
    have slash: "CHR ''/'' \<notin> set k"
      using k(1) by (simp add: single_def)
    have "below p p'"
    proof (cases "p = ''''")
      case False
      then have "take (Suc (length p)) q = p @ ''/''"
        using less.prems(2) ne by (simp add: below_def)
      then have "q = p @ CHR ''/'' # drop (Suc (length p)) q"
        using append_take_drop_id [of "Suc (length p)" q] by simp
      then obtain rest where q: "q = p @ CHR ''/'' # rest"
        by blast
      have "p' \<noteq> ''''"
        using k(2) q slash unfolding childPath_def by (metis in_set_conv_decomp)
      then have eq: "p' @ CHR ''/'' # k = p @ CHR ''/'' # rest"
        using k(2) q by (simp add: childPath_def)
      obtain us where "p' = p @ us \<and> us @ CHR ''/'' # k = CHR ''/'' # rest \<or> p' @ us = p \<and> CHR ''/'' # k = us @ CHR ''/'' # rest"
        using append_eq_append_conv2 [THEN iffD1, OF eq] by blast
      then show ?thesis
      proof
        assume us: "p' = p @ us \<and> us @ CHR ''/'' # k = CHR ''/'' # rest"
        then show ?thesis
          using \<open>p' \<noteq> p\<close> by (cases us) (auto simp: below_def)
      next
        assume us: "p' @ us = p \<and> CHR ''/'' # k = us @ CHR ''/'' # rest"
        then show ?thesis
          using \<open>p' \<noteq> p\<close> slash by (cases us) auto
      qed
    qed (simp add: below_def)
    then show False
      using less.hyps [of p'] childPath_longer k p' \<open>p' \<noteq> p\<close> by metis
  qed
qed


lemma numberRemoveOne_leaf:
  assumes ok: "treeOK t" and occ: "occurs litPath numberLeaf t (NodeUpdated p d (Some d) s True)"
  shows "numberRemoveOne p t = (B_NO_ERROR, [NodeUpdated p d (Some d) s True], tabRemove fst p t)"
proof -
  obtain q k where split: "splitPath p = (q, k)"
    by fastforce
  have at: "payloadAt p t = Some d" "unlisted p t" "s = numberLeaf p d"
    using occ by auto
  have child: "p = childPath q k" if "p \<noteq> ''''" "k \<in> set (indexAt q t)"
  proof -
    let ?r = "rev p" and ?P = "\<lambda>c. c \<noteq> CHR ''/''"
    have whole: "p = rev (dropWhile ?P ?r) @ rev (takeWhile ?P ?r)"
      by (subst rev_append [symmetric]) simp
    have parts: "q = rev (drop 1 (dropWhile ?P ?r))" "k = rev (takeWhile ?P ?r)"
      using split by (simp_all add: splitPath_def Let_def)
    have slash: "CHR ''/'' \<notin> set k"
      unfolding parts(2) by (auto dest: set_takeWhileD)
    have "(q = '''' \<and> p = k) \<or> p = q @ CHR ''/'' # k"
    proof (cases "dropWhile ?P ?r")
      case Nil
      have "p = k"
        by (subst whole, unfold Nil parts) simp
      then show ?thesis
        unfolding parts(1) Nil by simp
    next
      case (Cons c us)
      then have "c = CHR ''/''"
        using hd_dropWhile [of ?P ?r] by simp
      then show ?thesis
        using whole unfolding parts Cons by simp
    qed
    moreover have "q \<noteq> ''''" if "p = CHR ''/'' # k"
    proof
      assume "q = ''''"
      then have "parentThere p t"
        using ok at(1) by (simp add: treeOK_def isNode_payload)
      then obtain p' k' where "single k'" "p = childPath p' k'"
        using \<open>p \<noteq> ''''\<close> unfolding parentThere_def by blast
      then show False
        using \<open>p = CHR ''/'' # k\<close> slash by (cases p') (auto simp: childPath_def single_def split: if_splits)
    qed
    ultimately show ?thesis
      by (auto simp: childPath_def)
  qed
  have "\<not> (k \<in> set (indexAt q t) \<and> p \<noteq> '''')"
    using child at(2) ok unfolding unlisted_def treeOK_def by blast
  moreover have "plannable litPath numberLeaf t (NodeUpdated p d (Some d) s True)"
    using occ ok by (simp add: plannable_occurs treeOK_def)
  ultimately show ?thesis
    using split at by (simp add: numberRemoveOne_def)
qed

lemma filter_this: "distinct xs \<Longrightarrow> x \<in> set xs \<Longrightarrow> filter (\<lambda>y. y = x) xs = [x]"
  by (induction xs) (auto simp: filter_empty_conv)

lemma remove_leaf:
  assumes ok: "treeOK t" and occ: "occurs litPath numberLeaf t (NodeUpdated p d (Some d) s True)" and path: "inside path = Some p"
  shows "numberRemove path None False t = (B_NO_ERROR, [NodeUpdated p d (Some d) s True], tabRemove fst p t)"
proof -
  have node: "isNode p t" and "childless p t"
    using occ by (auto simp: isNode_payload)
  then have only: "below p q \<longleftrightarrow> q = p" if "q \<in> fst ` set t" for q
    using only_itself_below [OF ok, of p q] that by (auto simp: isNode_def tabGet_eq_None below_def)
  have "filter (below p) (map fst t) = filter (\<lambda>q. q = p) (map fst t)"
    using only by (intro filter_cong) auto
  also have "\<dots> = [p]"
    using ok node by (intro filter_this) (auto simp: treeOK_def tabInv_def isNode_def tabGet_eq_None)
  finally show ?thesis
    using path numberRemoveOne_leaf [OF ok occ] by (simp add: numberRemove_def numberRemoveLoud_def deepestFirst_def)
qed

lemma numberStore_step:
  assumes ok: "treeOK t" and occ: "occurs litPath numberLeaf t ev"
  shows "\<exists>s. plainCall (numberStore u) ev t = (B_NO_ERROR, [withSum s ev], applyEvent ev t)"
proof (cases ev)
  case (NodeUpdated p d old s removed)
  show ?thesis
  proof (cases removed)
    case True
    then have "old = Some d"
      using occ NodeUpdated by simp
    then show ?thesis
      using True NodeUpdated remove_leaf [OF ok _ inside_sessionPath [of u p], of d s] occ
      by (simp add: numberStore_def)
  next
    case False
    have "plannable litPath numberLeaf t (NodeUpdated p d old (numberLeaf p d) False)"
      using occ NodeUpdated False ok by (auto simp: plannable_occurs treeOK_def)
    moreover have "payloadAt p t = old" "old = None \<longrightarrow> s = numberLeaf p d"
      using occ NodeUpdated False by auto
    ultimately show ?thesis
      using False NodeUpdated inside_sessionPath [of u p]
      by (intro exI [of _ "numberLeaf p d"]) (auto simp: numberStore_def numberSet_def)
  qed
next
  case (IndexUpdated p op i k)
  have "plannable litPath numberLeaf t ev"
    using occ ok by (simp add: plannable_occurs treeOK_def)
  then show ?thesis
    using IndexUpdated occ inside_sessionPath [of u p]
    by (cases op) (auto simp: numberStore_def numberList_def numberUnlist_def)
qed

lemma numberStore_assemble:
  "msgLeaves (assembleFlat None m pre) = msgLeaves m"
  "msgLeaves (assembleFlat (Some b) m pre) = (if pre then msgLeaves m @ msgLeaves b else msgLeaves b @ msgLeaves m)"
  by (simp, cases b, auto)

lemma sessionPath_end: "litPath p \<Longrightarrow> sessionPath (numberStore u) p \<noteq> '''' \<Longrightarrow> last (sessionPath (numberStore u) p) \<noteq> CHR ''/''"
  by (auto simp: sessionPath_def numberStore_def dbRoot_def litPath_def)

theorem numberStore_law: "store_law (numberStore u) litPath numberLeaf"
proof -
  have get: "GetDataNode (numberStore u) (sessionPath (numberStore u) p) t = payloadAt p t" for p t
    using inside_sessionPath [of u p] by (simp add: numberStore_def)
  have sums: "NodeChecksum (numberStore u) path t = treeTotal (numberStore u) numberLeaf t" for path t
    by (simp add: treeTotal_def nodeTotal_def [abs_def] numberStore_def)
  have calls:
    "notifies litPath numberLeaf (SetDataNode (numberStore u) path d fl b)"
    "notifies litPath numberLeaf (RemoveDataNodes (numberStore u) path f False)"
    "notifies litPath numberLeaf (MoveIndexEntries (numberStore u) path b f)"
    "notifies litPath numberLeaf (RestoreNodeTreeFromMessage (numberStore u) d path)"
    "notifies litPath numberLeaf (InsertIndexEntryAt (numberStore u) path i k)"
    "notifies litPath numberLeaf (RemoveIndexEntryAt (numberStore u) path i)" for path d fl b f i k
    by (simp_all add: numberStore_def notifies_numberSet notifies_numberRemove notifies_numberMove notifies_numberList notifies_numberUnlist)
  have messages: "msgLeaves (AssembleBatchMessage (numberStore u) None m pre) = msgLeaves m"
    "msgLeaves (AssembleBatchMessage (numberStore u) (Some b) m pre) = (if pre then msgLeaves m @ msgLeaves b else msgLeaves b @ msgLeaves m)"
    for b m pre
    by (simp_all add: numberStore_def numberStore_assemble)
  have "numberLeaf p d - numberLeaf p d' = MessageChecksum (numberStore u) d - MessageChecksum (numberStore u) d'" for p d d'
    by (simp add: numberLeaf_def numberStore_def)
  then show ?thesis
    unfolding store_law_def using get sums calls messages numberStore_step [of _ _ u] sessionPath_end [of _ u]
    by (auto simp: litPath_def)
qed


lemma treeOK_code:
  "treeOK t \<longleftrightarrow> tabInv fst t \<and> list_all (\<lambda>(q, _, _). q = '''' \<or> list_ex (\<lambda>(p, _, _). isChildOf p q) t) t \<and>
     list_all (\<lambda>(p, _, ix). list_all (\<lambda>k. single k \<and> tabGet fst (childPath p k) t \<noteq> None) ix) t"
proof -
  have "(\<forall>p k. k \<in> set (indexAt p t) \<longrightarrow> single k \<and> isNode (childPath p k) t) \<longleftrightarrow>
      list_all (\<lambda>(p, _, ix). list_all (\<lambda>k. single k \<and> isNode (childPath p k) t) ix) t" if inv: "tabInv fst t"
  proof -
    have index: "indexAt p t = ix" if "(p, d, ix) \<in> set t" for p d ix
      using tabGet_mem [OF inv that] by (simp add: indexAt_def)
    have "\<exists>d. (p, d, indexAt p t) \<in> set t" if "k \<in> set (indexAt p t)" for p k
      using indexAt_node [OF that] index unfolding isNode_mem by metis
    then show ?thesis
      unfolding list_all_iff using index by fastforce
  qed
  moreover have "(\<forall>q. isNode q t \<longrightarrow> parentThere q t) \<longleftrightarrow> list_all (\<lambda>(q, _, _). q = '''' \<or> list_ex (\<lambda>(p, _, _). isChildOf p q) t) t"
    unfolding parentThere_code isNode_mem list_all_iff by auto
  ultimately show ?thesis
    unfolding treeOK_def isNode_def by blast
qed

end
