(* ===== verification/ZG_TreeWitnesses.thy ===== *)
theory ZG_TreeWitnesses
  imports ZG_TreeUndo ZG_TreeErrors ZG_TreeStore
begin

text \<open>
  Concrete runs of the tree database over the store of \<open>ZG_TreeStore\<close>, at which the theorems of
  \<open>ZG_TreeReplication\<close>, \<open>ZG_TreeUndo\<close> and \<open>ZG_TreeErrors\<close> apply: a root with one node \<^verbatim>\<open>a\<close> that
  has the indexed children \<^verbatim>\<open>x\<close> and \<^verbatim>\<open>y\<close>.
\<close>

section \<open>An example database\<close>

definition exampleTree :: "nat node_tree" where
  "exampleTree = [('''', 1, []), (''a'', 5, [''x'', ''y'']), (''a/x'', 7, []), (''a/y'', 8, [])]"

definition exampleDb :: "(nat, unit) mtdo" where
  "exampleDb = newMtdo\<lparr> md_tree := exampleTree, md_checksum := mt_CalculateChecksum (numberStore True) (newMtdo\<lparr> md_tree := exampleTree \<rparr>) \<rparr>"

definition putNode :: "string \<Rightarrow> nat \<Rightarrow> flags \<Rightarrow> (nat, unit) mtdo_msg" where
  "putNode p d fl = Command ((newCommand MTDO_COMMAND_UPDATENODEVALUE)\<lparr> mc_path := p, mc_payload := Some d, mc_flags := fl \<rparr>)"

definition deleteNodes :: "string \<Rightarrow> flags \<Rightarrow> (nat, unit) mtdo_command" where
  "deleteNodes p fl = (newCommand MTDO_SENIOR_COMMAND_REQUESTDELETENODES)\<lparr> mc_path := p, mc_flags := fl \<rparr>"

definition exampleUpdate :: "(nat, unit) mtdo_msg" where
  "exampleUpdate = Batch [putNode ''a'' 6 0, putNode ''a/z'' 9 1, Command (deleteNodes ''a/x'' 0)]"

definition updatedTree :: "nat node_tree" where
  "updatedTree = [('''', 1, []), (''a'', 6, [''y'', ''z'']), (''a/y'', 8, []), (''a/z'', 9, [])]"

lemma exampleTree_ok: "treeOK exampleTree"
  unfolding treeOK_code by code_simp

lemma exampleDb_simps [simp]:
  "md_tree exampleDb = exampleTree" "md_assembledJuniorMessage exampleDb = None" "md_assembledJuniorUndoMessage exampleDb = None"
  "md_inUndoRedoContextNestCount exampleDb = 0"
  by (simp_all add: exampleDb_def newMtdo_def)

lemma exampleDb_checksum: "md_checksum exampleDb = mt_CalculateChecksum (numberStore True) exampleDb"
  by code_simp

lemma exampleUpdate_loud: "\<forall>c \<in> set (msgLeaves exampleUpdate). loud c"
  by code_simp

definition exampleResult :: "((nat, unit) mtdo_msg option \<times> (nat, unit) mtdo) option" where
  "exampleResult = mt_SeniorUpdate (numberStore True) exampleUpdate exampleDb"

lemma exampleUpdate_runs:
  obtains j d' u where "mt_SeniorUpdate (numberStore True) exampleUpdate exampleDb = Some (Some j, d')" "md_tree d' = updatedTree"
    "md_assembledJuniorUndoMessage d' = Some u" "\<forall>c \<in> set (msgLeaves u). \<not> bit (mc_flags c) TREE_GATEWAY_FLAG_INTERIM \<and> take 1 (mc_path c) = ''a''"
proof -
  have "case exampleResult of Some (Some j, d') \<Rightarrow> md_tree d' = updatedTree \<and>
      (case md_assembledJuniorUndoMessage d' of None \<Rightarrow> False
        | Some u \<Rightarrow> \<forall>c \<in> set (msgLeaves u). \<not> bit (mc_flags c) TREE_GATEWAY_FLAG_INTERIM \<and> take 1 (mc_path c) = ''a'')
    | _ \<Rightarrow> False"
    by code_simp
  then show ?thesis
    using that unfolding exampleResult_def by (auto split: option.splits)
qed


section \<open>The theorems at work\<close>

theorem tree_updates_replicate_witness:
  "\<exists>j d' e'. mt_SeniorUpdate (numberStore True) exampleUpdate exampleDb = Some (Some j, d') \<and>
     mt_JuniorUpdate (numberStore True) j exampleDb = Some (B_NO_ERROR, e') \<and> md_tree e' = updatedTree \<and> md_checksum e' = md_checksum d'"
proof -
  obtain j d' u where run: "mt_SeniorUpdate (numberStore True) exampleUpdate exampleDb = Some (Some j, d')" "md_tree d' = updatedTree"
    by (rule exampleUpdate_runs)
  have "\<exists>e'. mt_JuniorUpdate (numberStore True) j exampleDb = Some (B_NO_ERROR, e') \<and> md_tree e' = md_tree d' \<and> md_checksum e' = md_checksum d' \<and>
      md_assembledJuniorMessage d' = None"
    by (rule tree_updates_replicate [OF numberStore_law _ _ exampleUpdate_loud run(1)]) (simp_all add: exampleTree_ok)
  then show ?thesis
    using run by auto
qed

theorem tree_checksum_exact_witness:
  "\<exists>j d'. mt_SeniorUpdate (numberStore True) exampleUpdate exampleDb = Some (Some j, d') \<and> treeOK (md_tree d') \<and>
     md_checksum d' = mt_CalculateChecksum (numberStore True) d'"
proof -
  obtain j d' u where run: "mt_SeniorUpdate (numberStore True) exampleUpdate exampleDb = Some (Some j, d')"
    by (rule exampleUpdate_runs)
  have "treeOK (md_tree exampleDb)"
    by (simp add: exampleTree_ok)
  have "(\<exists>m r. (\<forall>c \<in> set (msgLeaves m). loud c) \<and> mt_SeniorUpdate (numberStore True) m exampleDb = Some (r, d'))"
    using run exampleUpdate_loud by (intro exI [of _ exampleUpdate] exI [of _ "Some j"]) simp
  then have "treeOK (md_tree d') \<and> md_checksum d' = mt_CalculateChecksum (numberStore True) d'"
    by (intro tree_checksum_exact [OF numberStore_law \<open>treeOK (md_tree exampleDb)\<close> exampleDb_checksum] disjI1)
  then show ?thesis
    using run by simp
qed

theorem undo_message_restores_witness:
  "\<exists>j d' u e'. mt_SeniorUpdate (numberStore True) exampleUpdate exampleDb = Some (Some j, d') \<and>
     md_assembledJuniorUndoMessage d' = Some u \<and>
     SeniorMessageTreeUpdate (numberStore True) u (d'\<lparr> md_inUndoRedoContextNestCount := 1 \<rparr>) = Some (B_NO_ERROR, e') \<and>
     sameNodes (md_tree e') exampleTree"
proof -
  obtain j d' u where run: "mt_SeniorUpdate (numberStore True) exampleUpdate exampleDb = Some (Some j, d')"
      "md_assembledJuniorUndoMessage d' = Some u"
    and plain: "\<forall>c \<in> set (msgLeaves u). \<not> bit (mc_flags c) TREE_GATEWAY_FLAG_INTERIM \<and> take 1 (mc_path c) = ''a''"
    by (rule exampleUpdate_runs)
  let ?e = "d'\<lparr> md_inUndoRedoContextNestCount := 1 \<rparr>"
  have "take 5 p \<noteq> ''undo/'' \<and> take 5 p \<noteq> ''redo/''" if "take 1 p = ''a''" for p :: string
    using that by (cases p) auto
  then have "\<forall>c \<in> set (msgLeaves u). IsOkayToHandleUpdateMessage (numberStore True) (mc_path c) (mc_flags c) ?e"
    using plain unfolding IsOkayToHandleUpdateMessage_def by blast
  then have "\<exists>e'. SeniorMessageTreeUpdate (numberStore True) u ?e = Some (B_NO_ERROR, e') \<and> sameNodes (md_tree e') (md_tree exampleDb) \<and>
      md_checksum e' = md_checksum ?e + (mt_CalculateChecksum (numberStore True) exampleDb - mt_CalculateChecksum (numberStore True) d')"
    by (intro undo_message_restores [OF numberStore_law _ _ _ exampleUpdate_loud run(1) run(2)])
      (simp_all add: exampleTree_ok numberStore_def)
  then show ?thesis
    using run by auto
qed

theorem quiet_deletion_diverges_witness:
  "\<exists>d'. mt_SeniorUpdate (numberStore True) (Command (deleteNodes ''a'' 2)) exampleDb = Some (Some (Command (newCommand MTDO_COMMAND_NOOP)), d') \<and>
     md_tree d' = [('''', 1, [])] \<and> md_checksum d' = md_checksum exampleDb \<and>
     mt_JuniorUpdate (numberStore True) (Command (newCommand MTDO_COMMAND_NOOP)) exampleDb = Some (B_NO_ERROR, exampleDb)"
proof (rule quiet_deletion_diverges)
  show "mc_what (deleteNodes ''a'' 2) = MTDO_SENIOR_COMMAND_REQUESTDELETENODES"
    by (simp add: deleteNodes_def newCommand_def)
  show "bit (mc_flags (deleteNodes ''a'' 2)) TREE_GATEWAY_FLAG_NOREPLY"
    by code_simp
  show "RemoveDataNodes (numberStore True)
      (DatabaseSubpathToSessionRelativePath (numberStore True) (mc_path (deleteNodes ''a'' 2)) (mc_flags (deleteNodes ''a'' 2)) (md_tree exampleDb))
      (instantiateFilter (numberStore True) (deleteNodes ''a'' 2)) True (md_tree exampleDb) = (B_NO_ERROR, [], [('''', 1, [])])"
    by code_simp
qed simp

text \<open>A batch whose second Message is of an unknown kind.\<close>

definition unknownCommand :: "(nat, unit) mtdo_msg" where
  "unknownCommand = Command (newCommand 1)"

theorem failed_batch_diverges_witness:
  "\<exists>d'. mt_SeniorUpdate (numberStore True) (Batch [exampleUpdate, unknownCommand]) exampleDb = Some (None, d') \<and> md_tree d' = updatedTree"
proof -
  define d1 where "d1 = snd (the (SeniorMessageTreeUpdate (numberStore True) exampleUpdate exampleDb))"
  have "case SeniorMessageTreeUpdate (numberStore True) exampleUpdate exampleDb of Some (st, d1) \<Rightarrow> st = B_NO_ERROR \<and> md_tree d1 = updatedTree | None \<Rightarrow> False"
    by code_simp
  then have first: "SeniorMessageTreeUpdate (numberStore True) exampleUpdate exampleDb = Some (B_NO_ERROR, d1)" "md_tree d1 = updatedTree"
    unfolding d1_def by (auto split: option.splits)
  have "(1 :: u32) \<notin> {MTDO_COMMAND_NOOP, MTDO_COMMAND_UPDATENODEVALUE, MTDO_COMMAND_UPDATESUBTREE, MTDO_COMMAND_INSERTINDEXENTRY,
      MTDO_COMMAND_REMOVEINDEXENTRY, MTDO_SENIOR_COMMAND_REQUESTDELETENODES, MTDO_SENIOR_COMMAND_MOVEINDEXENTRY}"
    by code_simp
  then have "SeniorMessageTreeUpdate (numberStore True) unknownCommand d1 = Some (B_UNIMPLEMENTED, d1)"
    by (simp add: unknownCommand_def SeniorMessageTreeUpdate_def seniorCommand_def newCommand_def Let_def)
  from failed_batch_diverges [OF numberStore_law _ exampleUpdate_loud first(1) this] show ?thesis
    using first(2) exampleTree_ok by (auto simp: exampleDb_simps)
qed

theorem reset_spoils_next_update_witness:
  "\<exists>j d'. mt_SeniorUpdate (numberStore True) (putNode '''' 2 0) (mt_SetToDefaultState (numberStore True) True exampleDb) = Some (Some j, d') \<and>
     md_tree d' = [('''', 2, [])] \<and>
     mt_JuniorUpdate (numberStore True) j (mt_SetToDefaultState (numberStore True) False exampleDb) =
       Some (B_DATA_NOT_FOUND, mt_SetToDefaultState (numberStore True) False exampleDb)"
proof -
  let ?E = "numberStore True"
  let ?r = "mt_SeniorUpdate ?E (putNode '''' 2 0) (mt_SetToDefaultState ?E True exampleDb)"
  have "case ?r of Some (Some j, d') \<Rightarrow> md_tree d' = [('''', 2, [])] | _ \<Rightarrow> False"
    by code_simp
  then obtain j d' where run: "?r = Some (Some j, d')" "md_tree d' = [('''', 2, [])]"
    by (auto split: option.splits)
  have "case RemoveDataNodes ?E (rootNodePathWithoutSlash ?E) None False (md_tree exampleDb) of
      (st, ev # evs, t') \<Rightarrow> ev = IndexUpdated ''a'' INDEX_OP_ENTRYREMOVED 1 ''y'' | _ \<Rightarrow> False"
    by code_simp
  then obtain st evs t' where reset: "RemoveDataNodes ?E (rootNodePathWithoutSlash ?E) None False (md_tree exampleDb) =
      (st, IndexUpdated ''a'' INDEX_OP_ENTRYREMOVED 1 ''y'' # evs, t')"
    by (auto split: prod.splits list.splits)
  have "\<forall>c \<in> set (msgLeaves (putNode '''' 2 0)). loud c"
    by code_simp
  from reset_spoils_next_update [OF numberStore_law _ _ reset this run(1), of "mt_SetToDefaultState ?E False exampleDb"]
  have "mt_JuniorUpdate ?E j (mt_SetToDefaultState ?E False exampleDb) = Some (B_DATA_NOT_FOUND, mt_SetToDefaultState ?E False exampleDb)"
  proof -
    assume *: "\<lbrakk>treeOK (md_tree exampleDb); md_assembledJuniorMessage exampleDb = None;
        md_tree (mt_SetToDefaultState ?E False exampleDb) = []; md_inUndoRedoContextNestCount (mt_SetToDefaultState ?E False exampleDb) = 0\<rbrakk>
      \<Longrightarrow> mt_JuniorUpdate ?E j (mt_SetToDefaultState ?E False exampleDb) = Some (B_DATA_NOT_FOUND, mt_SetToDefaultState ?E False exampleDb)"
    show ?thesis
      by (rule *) (simp add: exampleTree_ok, simp, code_simp, code_simp)
  qed
  then show ?thesis
    using run by blast
qed

theorem unused_node_id_witness:
  "case GetUnusedNodeID (numberStore True) True ''db/a'' exampleDb of
     Some (Inr i, d') \<Rightarrow> d' = exampleDb \<and> i < 100000 \<and> \<not> nodeIDTaken (numberStore True) ''db/a'' exampleTree i
   | Some (Inl st, d') \<Rightarrow> d' = exampleDb \<and> st = B_ERROR \<and> (\<forall>i < 100000. nodeIDTaken (numberStore True) ''db/a'' exampleTree i)
   | None \<Rightarrow> False"
proof -
  have "GetDataNode (numberStore True) ''db/a'' (md_tree exampleDb) \<noteq> None"
    by code_simp
  from unused_node_id [OF this, of True] show ?thesis
    by (simp cong: option.case_cong sum.case_cong prod.case_cong)
qed

end
