(* ===== verification/Spec2Isabelle.thy ===== *)
theory Spec2Isabelle
  imports ZG_LogProperties Choir_MusicSheet ZG_Witnesses ZG_NetWitnesses ZG_HeartbeatWitnesses ZG_MuxWitnesses ZG_NetworkTree ZG_SymlinkGateway ZG_TreeWitnesses
begin

text \<open>
  \<^bold>\<open>A verification library for zg_choir\<close>

  zg_choir keeps databases replicated between peers on a LAN.  Every peer runs a
  \<^verbatim>\<open>ZGPeerSession\<close>; the peers find each other by multicast heartbeats, agree on one senior
  peer, and send every change to it.  The senior applies the change to its own copy, numbers it,
  and multicasts the update; junior peers replay the updates in the order of their numbers and
  fetch what they missed over TCP.  On top of this a tree of Messages is offered to clients
  through gateways that can be chained, shared and stretched over a TCP connection.

  \<^bold>\<open>How to read the model.\<close>  Definitions carry the names of the C++ functions (with a short
  prefix where two classes use the same one: \<open>ps_\<close> \<^verbatim>\<open>ZGPeerSession\<close>, \<open>us_\<close>
  \<^verbatim>\<open>PZGUnicastSession\<close>, \<open>net_\<close> \<^verbatim>\<open>PZGNetworkIOSession\<close>, \<open>hb_\<close> and \<open>ht_\<close> heartbeat packet and
  thread, \<open>ms_\<close> \<^verbatim>\<open>MusicSheet\<close>, \<open>mux_\<close> \<^verbatim>\<open>MuxTreeGateway\<close>, \<open>mt_\<close> and \<open>md_\<close> the tree database, \<open>client_\<close> and \<open>server_\<close> the two ends of the network
  gateway).  A class is a record of its member variables, an operation takes the object and
  returns the changed one with the result.  Integers have the width the code gives them, so
  their arithmetic wraps.  A \<^verbatim>\<open>Hashtable\<close> is the list of its entries in iteration order, and
  iterating while changing it is written out.  A call that leaves a component (a multicast, a
  TCP message, a callback) is an entry in a log kept in the state; what comes back is an
  argument of the model, so no statement depends on the network being kind.

  \<^bold>\<open>Foundations.\<close>
  \<^item> \<open>ZG_Prelude\<close>: widths, \<^verbatim>\<open>status_t\<close> as an error value, the constants of \<^verbatim>\<open>ZGConstants.h\<close> and
    \<^verbatim>\<open>PZGConstants.h\<close>, facts on words and lists.
  \<^item> \<open>ZG_Tables\<close>: the two \<^verbatim>\<open>Hashtable\<close> flavours (insertion order, key order).  The locale
    \<open>keyed_table\<close> states what put, get and remove promise; both flavours interpret it.
  \<^item> \<open>ZG_Wire\<close>: MUSCLE's \<^verbatim>\<open>DataFlattener\<close>/\<^verbatim>\<open>DataUnflattener\<close> as a record of primitives with laws
    (locale \<open>wire_codec\<close>), interpreted by a little-endian codec; \<open>ZG_Peer\<close>: \<^verbatim>\<open>ZGPeerID.h\<close>,
    back-order keys, compatibility codes.

  \<^bold>\<open>Replicated databases\<close> (\<^verbatim>\<open>src/private\<close>, \<^verbatim>\<open>ZGPeerSession.cpp\<close>).
  \<^item> \<open>ZG_DatabaseUpdate\<close>, \<open>ZG_DatabaseObject\<close>, \<open>ZG_DatabaseState\<close>, \<open>ZG_Beacon\<close>, \<open>ZG_PeerSession\<close> model
    \<^verbatim>\<open>PZGDatabaseUpdate\<close>, \<^verbatim>\<open>IDatabaseObject\<close>, \<^verbatim>\<open>PZGDatabaseState\<close>,
    \<^verbatim>\<open>PZGDatabaseStateInfo\<close> with \<^verbatim>\<open>PZGBeaconData\<close>, and \<^verbatim>\<open>ZGPeerSession\<close>.  The locale
    \<open>replicated_database\<close> is the contract a database object has to meet: replaying the junior
    message of an update leads to the contents the senior has, an archive restores them.
  \<^item> \<open>ZG_UpdateLog\<close> and \<open>ZG_LogProperties\<close>: one database on one peer.  Sorted log, exact tallies,
    rollback of failed requests, the log rescan of the senior (trim, multicast the unsent) and of
    the junior (replay, back-order), with termination.
  \<^item> \<open>ZG_Replication\<close>: a senior and a junior over a network that may lose, repeat and reorder.
    The invariant ties the junior to the senior's history; from it \<open>replication_safety\<close> and
    \<open>replication_history\<close>.  \<open>ZG_SessionReplication\<close> lifts it to whole peer sessions by a
    refinement.  \<open>ZG_Witnesses\<close> runs all of it on a counter database.

  \<^bold>\<open>Networking between peers.\<close>
  \<^item> \<open>ZG_MulticastThread\<close>: the thread of \<^verbatim>\<open>PZGNetworkIOSession\<close>: tags, beacons, filtering of
    duplicates against the last 1000 tags, and its equality with a reference filter.
  \<^item> \<open>ZG_NetworkIO\<close> and \<open>ZG_BackOrders\<close>: the main-thread side with \<^verbatim>\<open>PZGUnicastSession\<close>.  Unicast
    sessions are objects in a store that call back into the peer session while they are torn
    down.  The invariant is that the back-orders the databases wait for are exactly the ones
    outstanding on live connections; the measure that makes tearing down return is the number
    of keys not yet a full update.  \<open>ZG_NetWitnesses\<close> runs both.

  \<^bold>\<open>Heartbeats and the network clock.\<close>
  \<^item> \<open>ZG_HeartbeatPacket\<close>: packets, their checksums and codec.  \<open>ZG_TimeAverager\<close>:
    \<^verbatim>\<open>ZGTimeAverager\<close>; the locale \<open>averaging\<close> states what saturating arithmetic and the truncated
    root promise (the root only for sums up to \<^term>\<open>2 ^ 53 :: nat\<close>, which a double holds exactly), and
    64-bit definitions of them interpret it.
  \<^item> \<open>ZG_HeartbeatThread\<close>: \<^verbatim>\<open>PZGHeartbeatThreadState\<close>, \<^verbatim>\<open>PZGHeartbeatSourceState\<close> and one turn of
    the thread.  \<open>ZG_Heartbeat\<close>: its tables agree in every reachable state, peers that hear one
    kingmaker order the peers the way it does, the clock is exact when the network is symmetric.
    \<open>ZG_HeartbeatSources\<close>: the addresses of a peer are those of its online sources, in their order,
    and a source that is not heard stays exactly until it expires.
  \<^item> \<open>ZG_HeartbeatSession\<close>: the main-thread half of \<^verbatim>\<open>PZGHeartbeatSession\<close>; the calls it makes replay to the roster it
    keeps.  \<open>ZG_HeartbeatWitnesses\<close> runs threads on concrete heartbeats.

  \<^bold>\<open>Tree gateways\<close> (\<^verbatim>\<open>src/messagetree/gateway\<close>).
  \<^item> \<open>ZG_TreeGateway\<close>: the calls and callbacks of \<^verbatim>\<open>ITreeGateway\<close> and \<^verbatim>\<open>ITreeGatewaySubscriber\<close> as
    data, the proxy and the dummy gateway.
  \<^item> \<open>ZG_MuxGateway\<close>: \<^verbatim>\<open>MuxTreeGateway\<close>, which shares one subscription to the gateway above between
    many subscribers.  While fewer than \<^term>\<open>2 ^ 32 :: nat\<close> registrations are made no registration
    number is used twice, so a late answer reaches its requester or nobody.  \<open>ZG_MuxProperties\<close>, \<open>ZG_MuxSubscriptions\<close>, \<open>ZG_MuxSteps\<close> and \<open>ZG_MuxReach\<close> keep
    it well-formed through every call and callback; \<open>ZG_MuxUpstream\<close> relates the log of calls on
    the gateway above to what the subscribers want; \<open>ZG_MuxRouting\<close> says who hears what;
    \<open>ZG_MuxWitnesses\<close> states the properties and runs them.
  \<^item> \<open>ZG_SymlinkGateway\<close>: \<^verbatim>\<open>SymlinkLogicMuxTreeGateway\<close>, which shows a link's subscribers the node the
    link points to: its two tables mirror each other and the subscriptions above follow them.
  \<^item> \<open>ZG_NetworkTree\<close>: \<^verbatim>\<open>NetworkTreeGateway.cpp\<close>: calls become Messages at the client, are batched, and
    become the same calls at the server; callbacks travel the other way.  Sync pings are taken out
    on the client's side by the I/O thread (\<^verbatim>\<open>FilterLocalPingMessageIOGateway\<close> of
    \<^verbatim>\<open>ClientConnector.cpp\<close>) and answered there.

  \<^bold>\<open>Tree databases\<close> (\<^verbatim>\<open>src/messagetree/server\<close>).
  \<^item> \<open>ZG_TreeDatabase\<close>: \<^verbatim>\<open>MessageTreeDatabaseObject\<close> and what \<^verbatim>\<open>UndoStackMessageTreeDatabaseObject\<close>
    adds to recording.  MUSCLE's node store is the argument \<open>tree_env\<close>; a call on it returns the
    notifications it makes, and the database records them for the juniors, keeps its running
    checksum and composes the undo Message.
  \<^item> \<open>ZG_TreeReplication\<close>: \<open>store_law\<close> states what the code relies on in the store; from it every
    operation is shown to \<open>tell\<close> what it does, so that juniors follow and the checksum is exact.
    \<open>ZG_TreeUndo\<close>: the undo Message restores the nodes.  \<open>ZG_TreeErrors\<close>: where senior and juniors
    part (quiet deletions, failed batches, resets), and the choice of node names.
    \<open>ZG_TreeStore\<close> is an executable store that obeys the law, \<open>ZG_TreeWitnesses\<close> runs it.

  \<^bold>\<open>The choir demo.\<close>  \<open>Choir_MusicData\<close> and \<open>Choir_MusicSheet\<close>: the score database of
  \<^verbatim>\<open>src/demos/choir\<close>, shown to be a replicated database (a \<open>sublocale\<close> of the contract), so that
  the replication theorems apply to it.

  \<^bold>\<open>Loops and bounds.\<close>  Loops that end are \<open>function\<close>s with a measure.  The
  back-order loop of a junior rescan, whose 64-bit counter can wrap, the averager that makes room,
  the mutual recursion of a dying connection and the search for a node name, which starts over
  after creating the parent, are \<open>partial_function (option)\<close>, and whether they return is a
  theorem of its own (\<open>rescan_returns\<close>, \<open>rescan_hangs_on_max_state\<close>, \<open>disconnect_returns\<close>,
  \<open>averager_sound\<close>, \<open>unused_node_id\<close>).  There is no fuel.

  \<^bold>\<open>Assumptions.\<close>  Code that is not in the repository is an argument: zlib, byte checksums,
  flattening, saturating arithmetic, square roots, path matchers, query filters, the node store,
  and the results of
  MUSCLE and system calls.  Where a theorem relies on what they do, the law is a premise of the
  theorem or of its locale, and a witness shows functions that satisfy it.

  \<^bold>\<open>Not modelled.\<close>
  \<^item> Logging, \<^verbatim>\<open>Print\<close> and \<^verbatim>\<open>ToString\<close> methods, console text commands.
  \<^item> Socket creation, the time-synchronisation socket, and the rest of the threads of \<^verbatim>\<open>ClientConnector\<close>,
    \<^verbatim>\<open>SystemDiscoveryClient\<close> and \<^verbatim>\<open>UDPMulticastTransceiver\<close>: system calls and timeouts whose
    behaviour is the operating system's.
  \<^item> The commands that begin, end, undo and redo sequences of an undo stack and the pruning of its
    nodes, \<^verbatim>\<open>GetDatabaseSubpath\<close>, and the pass-through helpers of the tree database.
  \<^item> \<^verbatim>\<open>MessageTreeDatabasePeerSession\<close> (all but \<^verbatim>\<open>GetUnusedNodeID\<close>),
    \<^verbatim>\<open>ServerSideMessageTreeSession\<close> and \<^verbatim>\<open>ClientDataMessageTreeDatabaseObject\<close>: subclasses of
    MUSCLE's node-tree session, whose matching and notification rules are not in the repository
    and decide almost everything these classes do.
  \<^item> The Qt user interfaces of the choir and fridge demos, and the interactive test programs.
\<close>

end
